(* ===== verification/Prelude.thy ===== *)
theory Prelude
  imports Main "HOL-Library.Word"
begin

text \<open>
  Shared vocabulary of the development: the machine types and sentinels of types.h, the status
  codes of status.h, the compile-time limits of config.h, the conventions for C pointers and
  out-parameters, the fact collections, and generic lemmas on lists and words that the
  components share.

  Conventions.
  \<^item> A pointer whose only use is to reach one kernel object (a table, a wait list, an out
    parameter) is a \<open>ptr\<close>: \<open>NULL\<close> or \<open>PTR\<close>, the object it reaches being threaded through the
    function. So every NULL guard of the code is a guard of the model.
  \<^item> A pointer into memory whose address matters (messages, stacks, storage) is a 32-bit address,
    with 0 as NULL.
  \<^item> A value stored through an out parameter is an option: \<open>None\<close> says the call left the
    caller's variable as it was. \<open>out_val\<close> reads it with the variable's earlier content.
  \<^item> \<open>size_t\<close> is 32 bits on the Cortex-M7. Where a count is bounded by a small array it is a
    \<open>nat\<close> and the only operation that can leave its range, a decrement, wraps explicitly
    (\<open>sz_dec\<close>); where sizes are caller-supplied and multiply they are 32-bit words.
\<close>

unbundle bit_operations_syntax

named_theorems op_defs \<open>unfolding equations of the model's operations\<close>
named_theorems frame_simps \<open>fields an operation leaves alone\<close>

type_synonym u8 = "8 word"
type_synonym u32 = "32 word"

datatype ptr = NULL | PTR

definition out_val :: "'a \<Rightarrow> 'a option \<Rightarrow> 'a" where
  "out_val before out = (case out of None \<Rightarrow> before | Some v \<Rightarrow> v)"

lemma out_val_simps [simp]: "out_val a None = a" "out_val a (Some v) = v"
  by (simp_all add: out_val_def)

subsection \<open>Sentinels (types.h) and limits (config.h)\<close>

abbreviation (input) UINT32_MAX :: u32 where "UINT32_MAX \<equiv> 0xFFFFFFFF"
abbreviation (input) MAXRTOS_TICK_NONE :: u32 where "MAXRTOS_TICK_NONE \<equiv> UINT32_MAX"
abbreviation (input) MAXRTOS_TIMEOUT_INFINITE :: u32 where "MAXRTOS_TIMEOUT_INFINITE \<equiv> UINT32_MAX"
abbreviation (input) MAXRTOS_INVALID_PROCESS_ID :: u32 where "MAXRTOS_INVALID_PROCESS_ID \<equiv> UINT32_MAX"
abbreviation (input) MAXRTOS_INVALID_PARTITION_ID :: u32 where "MAXRTOS_INVALID_PARTITION_ID \<equiv> UINT32_MAX"

abbreviation (input) MAXRTOS_MAX_PROCESSES :: nat where "MAXRTOS_MAX_PROCESSES \<equiv> 16"
abbreviation (input) MAXRTOS_MAX_PRIORITY :: nat where "MAXRTOS_MAX_PRIORITY \<equiv> 31"
abbreviation (input) MAXRTOS_MAX_PARTITIONS :: nat where "MAXRTOS_MAX_PARTITIONS \<equiv> 8"
abbreviation (input) MAXRTOS_MAX_READY_PER_PRIORITY :: nat where "MAXRTOS_MAX_READY_PER_PRIORITY \<equiv> 8"
abbreviation (input) MAXRTOS_MAX_FRAME_SLOTS :: nat where "MAXRTOS_MAX_FRAME_SLOTS \<equiv> 16"
abbreviation (input) MAXRTOS_MAX_QUEUE_PORTS :: nat where "MAXRTOS_MAX_QUEUE_PORTS \<equiv> 8"
abbreviation (input) MAXRTOS_MAX_SAMPLING_PORTS :: nat where "MAXRTOS_MAX_SAMPLING_PORTS \<equiv> 8"
abbreviation (input) MAXRTOS_MAX_BUFFER_MESSAGE_SIZE :: u32 where "MAXRTOS_MAX_BUFFER_MESSAGE_SIZE \<equiv> 64"
abbreviation (input) MAXRTOS_MAX_BUFFER_CAPACITY :: u32 where "MAXRTOS_MAX_BUFFER_CAPACITY \<equiv> 8"
abbreviation (input) MAXRTOS_MAX_MUTEXES :: nat where "MAXRTOS_MAX_MUTEXES \<equiv> 8"
abbreviation (input) MAXRTOS_MAX_SEMAPHORES :: nat where "MAXRTOS_MAX_SEMAPHORES \<equiv> 8"
abbreviation (input) MAXRTOS_MAX_BUFFERS :: nat where "MAXRTOS_MAX_BUFFERS \<equiv> 8"
abbreviation (input) MAXRTOS_WAITLIST_MAX :: nat where "MAXRTOS_WAITLIST_MAX \<equiv> 8"

subsection \<open>Status codes (status.h)\<close>

datatype maxrtos_status =
    MAXRTOS_OK
  | MAXRTOS_ERR_INVALID_ARG
  | MAXRTOS_ERR_INVALID_ID
  | MAXRTOS_ERR_INVALID_STATE
  | MAXRTOS_ERR_POOL_FULL
  | MAXRTOS_ERR_QUEUE_FULL
  | MAXRTOS_ERR_QUEUE_EMPTY
  | MAXRTOS_ERR_OVERFLOW
  | MAXRTOS_ERR_PARTITION_HALTED
  | MAXRTOS_ERR_DEADLINE_EXCEEDED
  | MAXRTOS_PENDING
  | MAXRTOS_ERR_NOT_FOUND
  | MAXRTOS_ERR_TIMEOUT

subsection \<open>Size arithmetic\<close>

text \<open>The decrement of a \<open>size_t\<close>: it wraps at zero, as the C does.\<close>

definition sz_dec :: "nat \<Rightarrow> nat" where
  "sz_dec n = (if n = 0 then 2 ^ 32 - 1 else n - 1)"

lemma sz_dec_pos [simp]: "0 < n \<Longrightarrow> sz_dec n = n - 1"
  by (simp add: sz_dec_def)

lemma sz_dec_Suc [simp]: "sz_dec (Suc n) = n"
  by (simp add: sz_dec_def)

lemma unat_less_32: "unat (x :: u32) < 2 ^ 32"
  using unsigned_less[of x] by simp

text \<open>The same with the bound evaluated, as the simplifier leaves it.\<close>

lemma unat_le_max_32: "unat (x :: u32) \<le> 4294967295"
  using unat_less_32[of x] by simp

lemma unat_word_of_nat_32: "n < 2 ^ 32 \<Longrightarrow> unat (word_of_nat n :: u32) = n"
  by (simp add: unsigned_of_nat take_bit_nat_eq_self)

subsection \<open>Handles as array indices\<close>

text \<open>
  The pools are C arrays indexed by 32-bit handles. Loops over a whole pool run over
  \<open>ids_below n\<close>, the handles \<open>0, 1, \<dots>, n - 1\<close> in order.
\<close>

definition ids_below :: "nat \<Rightarrow> u32 list" where
  "ids_below n = map word_of_nat [0..<n]"

lemma set_ids_below: "n \<le> 2 ^ 32 \<Longrightarrow> i \<in> set (ids_below n) \<longleftrightarrow> unat i < n"
proof
  assume n: "n \<le> 2 ^ 32" and "i \<in> set (ids_below n)"
  then obtain k where k: "k < n" "i = word_of_nat k"
    by (auto simp: ids_below_def)
  from k(1) n have "unat (word_of_nat k :: u32) = k"
    by (simp add: unsigned_of_nat take_bit_nat_eq_self)
  with k show "unat i < n" by simp
next
  assume "unat i < n"
  moreover have "i = word_of_nat (unat i)" by simp
  ultimately show "i \<in> set (ids_below n)"
    unfolding ids_below_def by (metis atLeastLessThan_iff image_eqI le0 set_map set_upt)
qed

lemma set_ids_below_16 [simp]: "i \<in> set (ids_below 16) \<longleftrightarrow> i < 16"
  by (simp add: set_ids_below word_less_nat_alt)

lemma set_ids_below_8 [simp]: "i \<in> set (ids_below 8) \<longleftrightarrow> i < 8"
  by (simp add: set_ids_below word_less_nat_alt)

lemma distinct_ids_below: "n \<le> 2 ^ 32 \<Longrightarrow> distinct (ids_below n)"
  unfolding ids_below_def distinct_map
  by (auto simp: inj_on_def word_of_nat_eq_iff take_bit_nat_eq_self)

subsection \<open>Ring-buffer indices\<close>

lemma ring_index_inj:
  assumes "(a + i) mod n = (a + j) mod n" "i < n" "j < (n :: nat)"
  shows "i = j"
proof -
  have *: "x = y" if "(a + x) mod n = (a + y) mod n" "x \<le> y" "y < n" for x y
  proof -
    have "n dvd (a + y) - (a + x)"
      using that(1,2) mod_eq_dvd_iff_nat[of "a + x" "a + y" n] by simp
    then have "n dvd y - x" by simp
    then show ?thesis using that nat_dvd_not_less[of "y - x" n] by (cases "x = y") simp_all
  qed
  show ?thesis using *[of i j] *[of j i] assms by (cases "i \<le> j") auto
qed

text \<open>Advancing the head by one is the same as looking one position further.\<close>

lemma ring_advance: "((h + 1) mod n + i) mod n = (h + Suc i) mod (n :: nat)"
  by (simp add: mod_add_left_eq)

end
