(* ===== verification/Process.thy ===== *)
theory Process
  imports Prelude
begin

text \<open>
  Process control blocks (process.h), the pending IPC operation of a blocked process
  (ipc_operation.h) and the process pool of process.c: allocation, lookup and state change. The
  pool is the array \<open>s_process_pool\<close>, indexed by process identifier; a lookup that the code
  answers with a pointer into the array is answered with the control block it points to.
\<close>

datatype maxrtos_process_state =
    MAXRTOS_PROCESS_STATE_UNUSED
  | MAXRTOS_PROCESS_STATE_READY
  | MAXRTOS_PROCESS_STATE_RUNNING
  | MAXRTOS_PROCESS_STATE_BLOCKED
  | MAXRTOS_PROCESS_STATE_SUSPENDED

text \<open>The tagged union of ipc_operation.h; message and buffer pointers are addresses.\<close>

datatype maxrtos_ipc_operation_t =
    MAXRTOS_IPC_OP_NONE
  | MAXRTOS_IPC_OP_QUEUE_SEND (op_message: u32) (op_message_size: u32)
  | MAXRTOS_IPC_OP_QUEUE_RECEIVE (op_out_message: u32) (op_buffer_size: u32)
  | MAXRTOS_IPC_OP_MUTEX_LOCK (op_mutex_id: u32)
  | MAXRTOS_IPC_OP_SEMAPHORE_WAIT (op_semaphore_id: u32)
  | MAXRTOS_IPC_OP_BUFFER_SEND (op_buffer_id: u32) (op_message: u32) (op_message_size: u32)
  | MAXRTOS_IPC_OP_BUFFER_RECEIVE (op_buffer_id: u32) (op_out_message: u32) (op_buffer_size: u32)

text \<open>
  A pointer to a wait list: the wait list of a mutex or semaphore, and the receiver and sender
  lists of buffers and queuing ports, named by the object that owns it.
\<close>

datatype waitlist_ref =
    WL_Mutex u32
  | WL_Semaphore u32
  | WL_Buffer_Receivers u32
  | WL_Buffer_Senders u32
  | WL_Port_Receivers u32
  | WL_Port_Senders u32

record maxrtos_process_control_block_t =
  pcb_stack_pointer :: u32
  pcb_stack_base :: u32
  pcb_stack_size :: u32
  pcb_id :: u32
  pcb_partition_id :: u32
  pcb_priority :: u8
  pcb_base_priority :: u8
  pcb_state :: maxrtos_process_state
  pcb_wake_tick :: u32
  pcb_waitlist :: "waitlist_ref option"
  pcb_ipc_operation :: maxrtos_ipc_operation_t
  pcb_ipc_result :: maxrtos_status
  pcb_ipc_result_pending :: bool
  pcb_period :: u32
  pcb_time_capacity :: u32
  pcb_release_time :: u32
  pcb_deadline_time :: u32
  pcb_periodic_waiting :: bool
  pcb_timed_waiting :: bool
  pcb_deadline_misses :: u32
  pcb_entry :: u32
  pcb_entry_arg :: u32

type_synonym pcb = maxrtos_process_control_block_t
type_synonym pool = "u32 \<Rightarrow> pcb"

definition slot_index_from_id :: "u32 \<Rightarrow> ptr \<Rightarrow> maxrtos_status \<times> u32 option" where
  [op_defs]: "slot_index_from_id i outp =
     (if i = MAXRTOS_INVALID_PROCESS_ID \<or> i \<ge> of_nat MAXRTOS_MAX_PROCESSES \<or> outp = NULL
      then (MAXRTOS_ERR_INVALID_ID, None) else (MAXRTOS_OK, Some i))"

text \<open>The loop body of \<open>maxrtos_process_pool_init\<close>.\<close>

definition process_slot_reset :: "pcb \<Rightarrow> pcb" where
  [op_defs]: "process_slot_reset b = b\<lparr>
     pcb_state := MAXRTOS_PROCESS_STATE_UNUSED, pcb_id := MAXRTOS_INVALID_PROCESS_ID,
     pcb_stack_pointer := 0, pcb_stack_base := 0, pcb_stack_size := 0,
     pcb_priority := 0, pcb_base_priority := 0, pcb_wake_tick := MAXRTOS_TICK_NONE,
     pcb_waitlist := None, pcb_ipc_result_pending := False,
     pcb_period := 0, pcb_time_capacity := 0, pcb_release_time := 0,
     pcb_deadline_time := MAXRTOS_TICK_NONE, pcb_periodic_waiting := False, pcb_timed_waiting := False,
     pcb_deadline_misses := 0, pcb_entry := 0, pcb_entry_arg := 0,
     pcb_partition_id := MAXRTOS_INVALID_PARTITION_ID\<rparr>"

definition process_slots_init :: "pool \<Rightarrow> pool" where
  [op_defs]: "process_slots_init pool =
     fold (\<lambda>i p. p(i := process_slot_reset (p i))) (ids_below MAXRTOS_MAX_PROCESSES) pool"

text \<open>The assignments of \<open>maxrtos_process_create\<close> to the slot it has found.\<close>

definition process_slot_setup ::
    "u32 \<Rightarrow> u32 \<Rightarrow> u32 \<Rightarrow> u32 \<Rightarrow> u8 \<Rightarrow> u32 \<Rightarrow> u32 \<Rightarrow> pcb \<Rightarrow> pcb" where
  [op_defs]: "process_slot_setup i stack_base stack_size partition_id priority entry entry_arg b = b\<lparr>
     pcb_id := i, pcb_partition_id := partition_id,
     pcb_stack_base := stack_base, pcb_stack_size := stack_size,
     pcb_stack_pointer := stack_base + stack_size,
     pcb_priority := priority, pcb_base_priority := priority,
     pcb_wake_tick := MAXRTOS_TICK_NONE, pcb_waitlist := None, pcb_ipc_result_pending := False,
     pcb_period := 0, pcb_time_capacity := 0, pcb_release_time := 0,
     pcb_deadline_time := MAXRTOS_TICK_NONE, pcb_periodic_waiting := False, pcb_timed_waiting := False,
     pcb_deadline_misses := 0, pcb_entry := entry, pcb_entry_arg := entry_arg,
     pcb_state := MAXRTOS_PROCESS_STATE_READY\<rparr>"

text \<open>The first free slot, as the loop finds it.\<close>

definition process_first_unused :: "pool \<Rightarrow> u32 option" where
  [op_defs]: "process_first_unused pool =
     find (\<lambda>i. pcb_state (pool i) = MAXRTOS_PROCESS_STATE_UNUSED) (ids_below MAXRTOS_MAX_PROCESSES)"

definition maxrtos_process_create ::
    "u32 \<Rightarrow> u32 \<Rightarrow> u32 \<Rightarrow> u8 \<Rightarrow> u32 \<Rightarrow> u32 \<Rightarrow> ptr \<Rightarrow> pool \<Rightarrow> maxrtos_status \<times> u32 option \<times> pool" where
  [op_defs]: "maxrtos_process_create stack_base stack_size partition_id priority entry entry_arg outp pool =
     (if stack_base = 0 \<or> stack_size = 0 \<or> partition_id \<ge> of_nat MAXRTOS_MAX_PARTITIONS \<or>
         priority > of_nat MAXRTOS_MAX_PRIORITY \<or> entry = 0 \<or> outp = NULL
      then (MAXRTOS_ERR_INVALID_ARG, None, pool)
      else
        (case process_first_unused pool of
           Some i \<Rightarrow>
             (MAXRTOS_OK, Some i,
              pool(i := process_slot_setup i stack_base stack_size partition_id priority entry entry_arg (pool i)))
         | None \<Rightarrow> (MAXRTOS_ERR_POOL_FULL, None, pool)))"

definition maxrtos_process_get :: "u32 \<Rightarrow> pool \<Rightarrow> pcb option" where
  [op_defs]: "maxrtos_process_get i pool =
     (case slot_index_from_id i PTR of
        (MAXRTOS_OK, Some index) \<Rightarrow>
          (if pcb_state (pool index) \<noteq> MAXRTOS_PROCESS_STATE_UNUSED then Some (pool index) else None)
      | _ \<Rightarrow> None)"

definition maxrtos_process_set_state :: "u32 \<Rightarrow> maxrtos_process_state \<Rightarrow> pool \<Rightarrow> maxrtos_status \<times> pool" where
  [op_defs]: "maxrtos_process_set_state i new_state pool =
     (case slot_index_from_id i PTR of
        (MAXRTOS_OK, Some index) \<Rightarrow>
          (if pcb_state (pool index) \<noteq> MAXRTOS_PROCESS_STATE_UNUSED
           then (MAXRTOS_OK, pool(index := (pool index)\<lparr>pcb_state := new_state\<rparr>))
           else (MAXRTOS_ERR_INVALID_ID, pool))
      | _ \<Rightarrow> (MAXRTOS_ERR_INVALID_ID, pool))"

text \<open>An allocated process, the test behind a successful lookup.\<close>

definition allocated :: "pool \<Rightarrow> u32 \<Rightarrow> bool" where
  "allocated pool i \<longleftrightarrow> i < of_nat MAXRTOS_MAX_PROCESSES \<and> pcb_state (pool i) \<noteq> MAXRTOS_PROCESS_STATE_UNUSED"

lemma not_invalid_id: "i < of_nat MAXRTOS_MAX_PROCESSES \<Longrightarrow> (i :: u32) \<noteq> MAXRTOS_INVALID_PROCESS_ID"
  by auto

lemma process_get_eq: "maxrtos_process_get i pool = (if allocated pool i then Some (pool i) else None)"
  by (auto simp: op_defs allocated_def not_le)

lemma process_get_SomeD: "maxrtos_process_get i pool = Some b \<Longrightarrow> allocated pool i \<and> b = pool i"
  by (auto simp: process_get_eq split: if_splits)

lemma process_set_state_eq:
  "maxrtos_process_set_state i st pool =
    (if allocated pool i then (MAXRTOS_OK, pool(i := (pool i)\<lparr>pcb_state := st\<rparr>))
     else (MAXRTOS_ERR_INVALID_ID, pool))"
  by (auto simp: op_defs allocated_def not_le)

lemma find_ids_16:
  "find P (ids_below 16) = Some i \<Longrightarrow> P i \<and> i < 16"
  using set_ids_below_16[of i] by (auto simp: find_Some_iff in_set_conv_nth)

lemma find_ids_16_None: "find P (ids_below 16) = None \<longleftrightarrow> (\<forall>i<16. \<not> P i)"
  by (auto simp: find_None_iff)

lemma fold_update_ids: "distinct is \<Longrightarrow> fold (\<lambda>i p. p(i := g (p i))) is f x = (if x \<in> set is then g (f x) else f x)"
  by (induction "is" arbitrary: f) auto

lemma process_slots_init_eq:
  "process_slots_init pool = (\<lambda>i. if i < of_nat MAXRTOS_MAX_PROCESSES then process_slot_reset (pool i) else pool i)"
  by (rule ext) (simp add: process_slots_init_def fold_update_ids distinct_ids_below)

text \<open>
  Allocation: with valid arguments \<open>maxrtos_process_create\<close> succeeds exactly when a slot is
  free; it hands out a slot that was free, sets it up READY with the given partition and
  priority and no pending wait, deadline or period, and changes no other control block. A refused
  call changes nothing.
\<close>

lemma process_create_spec:
  "case maxrtos_process_create base sz part prio entry arg PTR pool of (status, out, pool') \<Rightarrow>
    (if base = 0 \<or> sz = 0 \<or> part \<ge> of_nat MAXRTOS_MAX_PARTITIONS \<or> prio > of_nat MAXRTOS_MAX_PRIORITY \<or> entry = 0
     then status = MAXRTOS_ERR_INVALID_ARG \<and> out = None \<and> pool' = pool
     else if \<forall>i < of_nat MAXRTOS_MAX_PROCESSES. allocated pool i
     then status = MAXRTOS_ERR_POOL_FULL \<and> out = None \<and> pool' = pool
     else status = MAXRTOS_OK \<and> (\<exists>i. out = Some i \<and> i < of_nat MAXRTOS_MAX_PROCESSES \<and> \<not> allocated pool i
       \<and> pcb_state (pool' i) = MAXRTOS_PROCESS_STATE_READY \<and> pcb_partition_id (pool' i) = part
       \<and> pcb_priority (pool' i) = prio \<and> pcb_base_priority (pool' i) = prio
       \<and> pcb_stack_pointer (pool' i) = base + sz \<and> pcb_id (pool' i) = i
       \<and> pcb_waitlist (pool' i) = None \<and> pcb_wake_tick (pool' i) = MAXRTOS_TICK_NONE
       \<and> pcb_deadline_time (pool' i) = MAXRTOS_TICK_NONE \<and> \<not> pcb_periodic_waiting (pool' i)
       \<and> (\<forall>j. j \<noteq> i \<longrightarrow> pool' j = pool j)))"
proof (cases "process_first_unused pool")
  case None
  then have "\<forall>i < of_nat MAXRTOS_MAX_PROCESSES. allocated pool i"
    by (auto simp: process_first_unused_def find_ids_16_None allocated_def)
  with None show ?thesis by (simp add: maxrtos_process_create_def)
next
  case (Some i)
  then have "i < 16 \<and> \<not> allocated pool i"
    by (auto simp: process_first_unused_def allocated_def dest: find_ids_16)
  with Some show ?thesis
    by (auto simp: maxrtos_process_create_def process_slot_setup_def)
qed

definition example_pcb :: "maxrtos_process_state \<Rightarrow> u8 \<Rightarrow> pcb" where
  "example_pcb st prio = \<lparr>pcb_stack_pointer = 0, pcb_stack_base = 0, pcb_stack_size = 0, pcb_id = 0,
     pcb_partition_id = 0, pcb_priority = prio, pcb_base_priority = prio, pcb_state = st,
     pcb_wake_tick = MAXRTOS_TICK_NONE, pcb_waitlist = None, pcb_ipc_operation = MAXRTOS_IPC_OP_NONE,
     pcb_ipc_result = MAXRTOS_OK, pcb_ipc_result_pending = False, pcb_period = 0, pcb_time_capacity = 0,
     pcb_release_time = 0, pcb_deadline_time = MAXRTOS_TICK_NONE, pcb_periodic_waiting = False,
     pcb_timed_waiting = False, pcb_deadline_misses = 0, pcb_entry = 0, pcb_entry_arg = 0\<rparr>"

lemma process_create_spec_witness:
  "case maxrtos_process_create 0x20001000 0x400 2 5 0x08000100 0 PTR
      (\<lambda>_. example_pcb MAXRTOS_PROCESS_STATE_UNUSED 0) of (status, out, pool') \<Rightarrow>
    status = MAXRTOS_OK \<and> (\<exists>i. out = Some i \<and> pcb_state (pool' i) = MAXRTOS_PROCESS_STATE_READY
      \<and> pcb_partition_id (pool' i) = 2)"
proof -
  let ?pool = "\<lambda>_. example_pcb MAXRTOS_PROCESS_STATE_UNUSED 0"
  have free: "\<not> (\<forall>i < of_nat MAXRTOS_MAX_PROCESSES. allocated ?pool i)"
    by (auto simp: allocated_def example_pcb_def intro!: exI[of _ 0])
  obtain st out pool' where r: "maxrtos_process_create 0x20001000 0x400 2 5 0x08000100 0 PTR ?pool = (st, out, pool')"
    by (rule prod_cases3)
  have "st = MAXRTOS_OK \<and> (\<exists>i. out = Some i \<and> pcb_state (pool' i) = MAXRTOS_PROCESS_STATE_READY
      \<and> pcb_partition_id (pool' i) = 2)"
    using process_create_spec[where base = "0x20001000" and sz = "0x400" and part = 2 and prio = 5
        and entry = "0x08000100" and arg = 0 and pool = ?pool]
    unfolding r prod.case if_not_P[OF free] by (simp, blast)
  then show ?thesis by (simp add: r)
qed

end
