(* ===== verification/Mpu.thy ===== *)
theory Mpu
  imports Process
begin

text \<open>
  The memory protection unit: the partition regions of mpu.c and the register programming of
  mpu_hw.c. A register access is appended to a log of writes, so nothing of the hardware is
  assumed; \<open>region_regs\<close> reads the log as the ARMv7-M unit does, with RNR selecting the region that
  RBAR and RASR write, and \<open>ctrl_reg\<close> the control register that enables it. The registered configuration is constant data in C and a value here.
\<close>

datatype maxrtos_mpu_access =
    MAXRTOS_MPU_ACCESS_NONE
  | MAXRTOS_MPU_ACCESS_READ_ONLY
  | MAXRTOS_MPU_ACCESS_READ_WRITE
  | MAXRTOS_MPU_ACCESS_PRIV_READ_ONLY
  | MAXRTOS_MPU_ACCESS_PRIV_READ_WRITE

record maxrtos_mpu_region_config_t =
  reg_base_address :: u32
  reg_size_bytes :: u32
  reg_access :: maxrtos_mpu_access
  reg_executable :: bool

record maxrtos_mpu_config_t =
  mpu_regions :: "u32 \<Rightarrow> maxrtos_mpu_region_config_t"
  mpu_configured :: "u32 \<Rightarrow> bool"

abbreviation (input) MAXRTOS_MPU_REGION_MIN_SIZE :: u32 where "MAXRTOS_MPU_REGION_MIN_SIZE \<equiv> 32"
abbreviation (input) MAXRTOS_MPU_HW_REGION_COUNT :: u32 where "MAXRTOS_MPU_HW_REGION_COUNT \<equiv> 16"
abbreviation (input) MAXRTOS_MPU_PARTITION_REGION :: u32 where "MAXRTOS_MPU_PARTITION_REGION \<equiv> 8"

subsection \<open>Partition regions (mpu.c)\<close>

definition maxrtos_mpu_is_power_of_two :: "u32 \<Rightarrow> bool" where
  "maxrtos_mpu_is_power_of_two val \<longleftrightarrow> val > 0 \<and> val AND (val - 1) = 0"

definition maxrtos_mpu_region_geometry_valid :: "u32 \<Rightarrow> u32 \<Rightarrow> bool" where
  "maxrtos_mpu_region_geometry_valid base sz \<longleftrightarrow>
     sz \<ge> MAXRTOS_MPU_REGION_MIN_SIZE \<and> maxrtos_mpu_is_power_of_two sz \<and> base mod sz = 0"

definition known_access :: "maxrtos_mpu_access \<Rightarrow> bool" where
  "known_access acc \<longleftrightarrow> acc \<in> {MAXRTOS_MPU_ACCESS_NONE, MAXRTOS_MPU_ACCESS_READ_ONLY,
     MAXRTOS_MPU_ACCESS_READ_WRITE, MAXRTOS_MPU_ACCESS_PRIV_READ_ONLY, MAXRTOS_MPU_ACCESS_PRIV_READ_WRITE}"

definition maxrtos_mpu_config_init :: "ptr \<Rightarrow> maxrtos_mpu_config_t \<Rightarrow> maxrtos_status \<times> maxrtos_mpu_config_t" where
  "maxrtos_mpu_config_init configp config =
     (if configp \<noteq> NULL then
        (MAXRTOS_OK, config\<lparr>mpu_configured :=
           fold (\<lambda>partition_id f. f(partition_id := False)) (ids_below MAXRTOS_MAX_PARTITIONS) (mpu_configured config)\<rparr>)
      else (MAXRTOS_ERR_INVALID_ARG, config))"

definition maxrtos_mpu_set_partition_region ::
    "ptr \<Rightarrow> u32 \<Rightarrow> u32 \<Rightarrow> u32 \<Rightarrow> maxrtos_mpu_access \<Rightarrow> bool \<Rightarrow> maxrtos_mpu_config_t \<Rightarrow>
     maxrtos_status \<times> maxrtos_mpu_config_t"
where
  "maxrtos_mpu_set_partition_region configp partition_id base sz acc exec config =
     (if configp \<noteq> NULL \<and> partition_id < of_nat MAXRTOS_MAX_PARTITIONS
         \<and> maxrtos_mpu_region_geometry_valid base sz \<and> known_access acc then
        (MAXRTOS_OK, config\<lparr>mpu_regions := (mpu_regions config)(partition_id :=
             \<lparr>reg_base_address = base, reg_size_bytes = sz, reg_access = acc, reg_executable = exec\<rparr>),
           mpu_configured := (mpu_configured config)(partition_id := True)\<rparr>)
      else (MAXRTOS_ERR_INVALID_ARG, config))"

text \<open>The configuration pointer is \<open>None\<close> for NULL.\<close>

definition maxrtos_mpu_get_partition_region ::
    "maxrtos_mpu_config_t option \<Rightarrow> u32 \<Rightarrow> ptr \<Rightarrow> maxrtos_status \<times> maxrtos_mpu_region_config_t option"
where
  "maxrtos_mpu_get_partition_region configp partition_id outp =
     (case configp of
        None \<Rightarrow> (MAXRTOS_ERR_INVALID_ARG, None)
      | Some config \<Rightarrow>
          if outp \<noteq> NULL \<and> partition_id < of_nat MAXRTOS_MAX_PARTITIONS then
            (if mpu_configured config partition_id then (MAXRTOS_OK, Some (mpu_regions config partition_id))
             else (MAXRTOS_ERR_NOT_FOUND, None))
          else (MAXRTOS_ERR_INVALID_ARG, None))"

subsection \<open>Register programming (mpu_hw.c)\<close>

datatype mpu_register = MAXRTOS_MPU_CTRL | MAXRTOS_MPU_RNR | MAXRTOS_MPU_RBAR | MAXRTOS_MPU_RASR

record mpu_hw =
  s_config :: "maxrtos_mpu_config_t option"
  s_active_partition_id :: u32
  mpu_writes :: "(mpu_register \<times> u32) list"

definition mpu_reg_write :: "mpu_register \<Rightarrow> u32 \<Rightarrow> mpu_hw \<Rightarrow> mpu_hw" where
  "mpu_reg_write reg val hw = hw\<lparr>mpu_writes := mpu_writes hw @ [(reg, val)]\<rparr>"

text \<open>The shift loop of the size encoding; \<open>None\<close> is a loop that does not end.\<close>

partial_function (option) encode_size_loop :: "u32 \<Rightarrow> u32 \<Rightarrow> u32 option" where
  "encode_size_loop size_bytes_copy size_field =
     (if size_bytes_copy \<noteq> 1 then encode_size_loop (drop_bit 1 size_bytes_copy) (size_field + 1)
      else Some size_field)"

definition maxrtos_mpu_encode_size_field :: "u32 \<Rightarrow> u32 option" where
  "maxrtos_mpu_encode_size_field sz = map_option (\<lambda>size_field. size_field - 1) (encode_size_loop sz 0)"

fun ap_field :: "maxrtos_mpu_access \<Rightarrow> u32" where
  "ap_field MAXRTOS_MPU_ACCESS_READ_ONLY = 6"
| "ap_field MAXRTOS_MPU_ACCESS_READ_WRITE = 3"
| "ap_field MAXRTOS_MPU_ACCESS_PRIV_READ_ONLY = 5"
| "ap_field MAXRTOS_MPU_ACCESS_PRIV_READ_WRITE = 1"
| "ap_field MAXRTOS_MPU_ACCESS_NONE = 0"

text \<open>Enable, size, access permission, TEX, C, B, S and execute-never, at their bit positions.\<close>

definition rasr_value :: "u32 \<Rightarrow> maxrtos_mpu_access \<Rightarrow> bool \<Rightarrow> u32" where
  "rasr_value size_field acc exec =
     push_bit 0 1 OR push_bit 1 size_field OR push_bit 24 (ap_field acc) OR push_bit 19 0
       OR push_bit 17 1 OR push_bit 16 1 OR push_bit 18 0 OR push_bit 28 (if exec then 0 else 1)"

definition maxrtos_arch_mpu_program_region ::
    "u32 \<Rightarrow> u32 \<Rightarrow> u32 \<Rightarrow> maxrtos_mpu_access \<Rightarrow> bool \<Rightarrow> mpu_hw \<Rightarrow> mpu_hw option"
where
  "maxrtos_arch_mpu_program_region region_number base sz acc exec hw =
     (case maxrtos_mpu_encode_size_field sz of
        None \<Rightarrow> None
      | Some size_field \<Rightarrow> Some (mpu_reg_write MAXRTOS_MPU_RASR (rasr_value size_field acc exec)
          (mpu_reg_write MAXRTOS_MPU_RBAR base (mpu_reg_write MAXRTOS_MPU_RNR region_number hw))))"

definition maxrtos_arch_mpu_disable_region :: "u32 \<Rightarrow> mpu_hw \<Rightarrow> mpu_hw" where
  "maxrtos_arch_mpu_disable_region region_number hw =
     mpu_reg_write MAXRTOS_MPU_RASR 0 (mpu_reg_write MAXRTOS_MPU_RNR region_number hw)"

definition maxrtos_arch_mpu_set_config :: "maxrtos_mpu_config_t option \<Rightarrow> mpu_hw \<Rightarrow> mpu_hw" where
  "maxrtos_arch_mpu_set_config config hw =
     hw\<lparr>s_config := config, s_active_partition_id := MAXRTOS_INVALID_PARTITION_ID\<rparr>"

definition maxrtos_arch_mpu_init :: "bool \<Rightarrow> mpu_hw \<Rightarrow> mpu_hw" where
  "maxrtos_arch_mpu_init privileged_default_map hw =
     mpu_reg_write MAXRTOS_MPU_CTRL (if privileged_default_map then push_bit 0 1 OR push_bit 2 1 else push_bit 0 1)
       (fold maxrtos_arch_mpu_disable_region
          (map of_nat [unat (MAXRTOS_MPU_PARTITION_REGION + 1)..<unat MAXRTOS_MPU_HW_REGION_COUNT]) hw)"

definition maxrtos_arch_mpu_configure_for_partition :: "u32 \<Rightarrow> mpu_hw \<Rightarrow> (maxrtos_status \<times> mpu_hw) option" where
  "maxrtos_arch_mpu_configure_for_partition partition_id hw =
     (if partition_id = s_active_partition_id hw then Some (MAXRTOS_OK, hw)
      else
        (case maxrtos_mpu_get_partition_region (s_config hw) partition_id PTR of
           (status, Some region) \<Rightarrow>
             if status = MAXRTOS_OK then
               (case maxrtos_arch_mpu_program_region MAXRTOS_MPU_PARTITION_REGION (reg_base_address region)
                       (reg_size_bytes region) (reg_access region) (reg_executable region) hw of
                  None \<Rightarrow> None
                | Some hw1 \<Rightarrow> Some (status, hw1\<lparr>s_active_partition_id := partition_id\<rparr>))
             else Some (status, hw)
         | (status, None) \<Rightarrow> Some (status, hw)))"

definition maxrtos_arch_mpu_configure_for_next_pcb :: "pcb option \<Rightarrow> mpu_hw \<Rightarrow> (maxrtos_status \<times> mpu_hw) option" where
  "maxrtos_arch_mpu_configure_for_next_pcb next_pcb hw =
     (case next_pcb of
        None \<Rightarrow> Some (MAXRTOS_ERR_INVALID_ARG, hw)
      | Some pcb \<Rightarrow>
          if pcb_partition_id pcb = MAXRTOS_INVALID_PARTITION_ID then Some (MAXRTOS_OK, hw)
          else maxrtos_arch_mpu_configure_for_partition (pcb_partition_id pcb) hw)"

definition maxrtos_arch_mpu_configure_region ::
    "u32 \<Rightarrow> u32 \<Rightarrow> u32 \<Rightarrow> maxrtos_mpu_access \<Rightarrow> bool \<Rightarrow> mpu_hw \<Rightarrow> (maxrtos_status \<times> mpu_hw) option"
where
  "maxrtos_arch_mpu_configure_region region_number base sz acc exec hw =
     (if region_number < MAXRTOS_MPU_PARTITION_REGION \<and> sz \<ge> MAXRTOS_MPU_REGION_MIN_SIZE
         \<and> base mod sz = 0 \<and> known_access acc then
        (case maxrtos_arch_mpu_program_region region_number base sz acc exec hw of
           None \<Rightarrow> None
         | Some hw1 \<Rightarrow> Some (MAXRTOS_OK, hw1))
      else Some (MAXRTOS_ERR_INVALID_ARG, hw))"

definition maxrtos_arch_mpu_partition_owns_range :: "u32 \<Rightarrow> u32 \<Rightarrow> u32 \<Rightarrow> mpu_hw \<Rightarrow> bool" where
  "maxrtos_arch_mpu_partition_owns_range partition_id address sz hw \<longleftrightarrow>
     s_config hw \<noteq> None \<and> sz > 0 \<and>
     (case maxrtos_mpu_get_partition_region (s_config hw) partition_id PTR of
        (MAXRTOS_OK, Some region) \<Rightarrow>
          reg_access region = MAXRTOS_MPU_ACCESS_READ_WRITE \<and>
          (let limit = address + sz in
             limit > address \<and> address \<ge> reg_base_address region
             \<and> limit \<le> reg_base_address region + reg_size_bytes region)
      | _ \<Rightarrow> False)"

subsection \<open>Sizes\<close>

lemma power_of_two_word:
  assumes "maxrtos_mpu_is_power_of_two w"
  shows "\<exists>k < 32. w = 2 ^ k \<and> unat w = 2 ^ k"
proof -
  have pos: "0 < unat w" using assms by (simp add: maxrtos_mpu_is_power_of_two_def word_less_nat_alt)
  then obtain k where k: "2 ^ k \<le> unat w" "unat w < 2 ^ (k + 1)" using ex_power_ivl1[of 2 "unat w"] by auto
  have k32: "k < 32"
  proof (rule ccontr)
    assume "\<not> k < 32"
    then have "(2 :: nat) ^ 32 \<le> 2 ^ k" by (intro power_increasing) simp_all
    with k(1) unat_less_32[of w] show False by simp
  qed
  have bitk: "bit v k" if "2 ^ k \<le> unat v" "unat v < 2 ^ (k + 1)" for v :: u32
  proof -
    have "unat v div 2 ^ k = 1" using that by (intro div_nat_eqI) (simp_all add: mult_2)
    then have "bit (unat v) k" by (simp add: bit_iff_odd)
    then show ?thesis by (simp add: bit_unsigned_iff)
  qed
  have "unat w = 2 ^ k"
  proof (rule ccontr)
    assume "unat w \<noteq> 2 ^ k"
    moreover have "unat (w - 1) = unat w - 1" using pos by (intro unat_minus_one) auto
    ultimately have "bit (w - 1) k" using k by (intro bitk) simp_all
    with bitk[OF k] have "bit (w AND (w - 1)) k" by (simp add: bit_and_iff)
    with assms show False by (simp add: maxrtos_mpu_is_power_of_two_def)
  qed
  moreover from this have "(of_nat (unat w) :: u32) = of_nat (2 ^ k)" by (simp only:)
  then have "w = 2 ^ k" by simp
  ultimately show ?thesis using k32 by blast
qed

lemma encode_size_loop_log:
  assumes "2 ^ k \<le> unat w" "unat w < 2 ^ (k + 1)"
  shows "encode_size_loop w f = Some (f + of_nat k)"
  using assms
proof (induction k arbitrary: w f)
  case 0
  then have "w = 1" by (simp add: word_unat_eq_iff)
  then show ?case by (subst encode_size_loop.simps) simp
next
  case (Suc k)
  have "unat (drop_bit 1 w) = unat w div 2" by (simp add: drop_bit_eq_div unat_div)
  with Suc.prems have "2 ^ k \<le> unat (drop_bit 1 w)" "unat (drop_bit 1 w) < 2 ^ (k + 1)" by auto
  from Suc.IH[OF this] have "encode_size_loop (drop_bit 1 w) (f + 1) = Some (f + 1 + of_nat k)" .
  moreover have "w \<noteq> 1"
  proof
    assume "w = 1"
    with Suc.prems(1) have "2 * 2 ^ k \<le> (1 :: nat)" by simp
    then show False using one_le_power[of "2 :: nat" k] by linarith
  qed
  ultimately show ?case by (subst encode_size_loop.simps) (simp add: add.assoc add.commute add.left_commute)
qed

lemma encode_size_loop_zero: "encode_size_loop 0 f = None"
proof (rule ccontr)
  assume "encode_size_loop 0 f \<noteq> None"
  then obtain r where r: "encode_size_loop 0 f = Some r" by blast
  have "(0 :: u32) \<noteq> 0"
    by (rule encode_size_loop.raw_induct[of "\<lambda>w f r. w \<noteq> 0", OF _ r]) (fastforce split: if_splits)
  then show False by simp
qed


text \<open>The encoding of a size is \<open>log2 - 1\<close>; of 0 there is none, because the loop does not end.\<close>

lemma encode_size_field_eq:
  "w = 2 ^ k \<Longrightarrow> k < 32 \<Longrightarrow> maxrtos_mpu_encode_size_field w = Some (of_nat k - 1)"
proof -
  assume w: "w = 2 ^ k" "k < 32"
  have "(2 :: nat) ^ k < 2 ^ 32" using w(2) by (intro power_strict_increasing) simp_all
  then have "unat w = 2 ^ k" using unat_word_of_nat_32[of "2 ^ k"] w(1) by simp
  then show ?thesis using encode_size_loop_log[of k w 0] by (simp add: maxrtos_mpu_encode_size_field_def)
qed

lemma geometry_size:
  assumes "maxrtos_mpu_region_geometry_valid base sz"
  shows "\<exists>k. 5 \<le> k \<and> k < 32 \<and> sz = 2 ^ k \<and> unat sz = 2 ^ k \<and> 2 ^ k dvd unat base"
proof -
  from assms obtain k where k: "k < 32" "sz = 2 ^ k" "unat sz = 2 ^ k"
    using power_of_two_word by (auto simp: maxrtos_mpu_region_geometry_valid_def)
  have "32 \<le> unat sz" using assms by (simp add: maxrtos_mpu_region_geometry_valid_def word_le_nat_alt)
  then have "(2 :: nat) ^ 5 \<le> 2 ^ k" using k(3) by simp
  then have "5 \<le> k" by (rule power_le_imp_le_exp[rotated]) simp
  moreover have "unat (base mod sz) = 0" using assms by (simp add: maxrtos_mpu_region_geometry_valid_def)
  then have "2 ^ k dvd unat base" using k(3) by (simp add: unat_mod mod_eq_0_iff_dvd)
  ultimately show ?thesis using k by blast
qed

subsection \<open>The configuration\<close>

definition mpu_config_ok :: "maxrtos_mpu_config_t \<Rightarrow> bool" where
  "mpu_config_ok config \<longleftrightarrow> (\<forall>p. p < of_nat MAXRTOS_MAX_PARTITIONS \<and> mpu_configured config p \<longrightarrow>
     maxrtos_mpu_region_geometry_valid (reg_base_address (mpu_regions config p)) (reg_size_bytes (mpu_regions config p)))"

lemma mpu_config_init_ok: "mpu_config_ok (snd (maxrtos_mpu_config_init PTR config))"
proof -
  have f: "fold (\<lambda>p f. f(p := False)) ps g q = (if q \<in> set ps then False else g q)" for ps and g :: "u32 \<Rightarrow> bool" and q
    by (induction ps arbitrary: g) auto
  show ?thesis by (simp add: mpu_config_ok_def maxrtos_mpu_config_init_def f set_ids_below_8)
qed

lemma mpu_set_region_ok:
  "mpu_config_ok config \<Longrightarrow> mpu_config_ok (snd (maxrtos_mpu_set_partition_region configp p base sz acc exec config))"
  by (simp add: mpu_config_ok_def maxrtos_mpu_set_partition_region_def)

text \<open>The region of a partition, where it has one.\<close>

definition partition_region :: "mpu_hw \<Rightarrow> u32 \<Rightarrow> maxrtos_mpu_region_config_t option" where
  "partition_region hw p = (case s_config hw of
     None \<Rightarrow> None
   | Some config \<Rightarrow> if p < of_nat MAXRTOS_MAX_PARTITIONS \<and> mpu_configured config p
       then Some (mpu_regions config p) else None)"

definition mpu_hw_ok :: "mpu_hw \<Rightarrow> bool" where
  "mpu_hw_ok hw \<longleftrightarrow> (\<forall>config. s_config hw = Some config \<longrightarrow> mpu_config_ok config)"

lemma partition_region_geometry:
  "mpu_hw_ok hw \<Longrightarrow> partition_region hw p = Some region \<Longrightarrow>
    maxrtos_mpu_region_geometry_valid (reg_base_address region) (reg_size_bytes region)"
  by (auto simp: mpu_hw_ok_def mpu_config_ok_def partition_region_def split: option.splits if_splits)

lemma get_region_eq:
  "maxrtos_mpu_get_partition_region (s_config hw) p PTR = (MAXRTOS_OK, Some region) \<longleftrightarrow> partition_region hw p = Some region"
  "partition_region hw p = None \<Longrightarrow> \<exists>status. status \<noteq> MAXRTOS_OK
    \<and> maxrtos_mpu_get_partition_region (s_config hw) p PTR = (status, None)"
  by (auto simp: maxrtos_mpu_get_partition_region_def partition_region_def split: option.splits if_splits)

text \<open>
  C27. The ownership test is exact. It accepts a byte range just when the range is not empty and every
  byte of it lies in the read-write region the partition is configured with, arithmetic carried out
  without wrap-around. The one exception is a region that ends at the very top of the address space:
  its end wraps to 0 in the code and no range in it is accepted.
\<close>

theorem owns_range_exact:
  assumes ok: "mpu_hw_ok hw"
  shows "maxrtos_arch_mpu_partition_owns_range p a n hw \<longleftrightarrow>
    (\<exists>region. partition_region hw p = Some region \<and> reg_access region = MAXRTOS_MPU_ACCESS_READ_WRITE
      \<and> n \<noteq> 0 \<and> unat (reg_base_address region) \<le> unat a
      \<and> unat a + unat n \<le> unat (reg_base_address region) + unat (reg_size_bytes region)
      \<and> unat (reg_base_address region) + unat (reg_size_bytes region) < 2 ^ 32)"
proof (cases "partition_region hw p")
  case None
  from get_region_eq(2)[OF this] obtain status where
    "status \<noteq> MAXRTOS_OK" "maxrtos_mpu_get_partition_region (s_config hw) p PTR = (status, None)" by blast
  with None show ?thesis by (cases status) (simp_all add: maxrtos_arch_mpu_partition_owns_range_def)
next
  case (Some region)
  let ?b = "reg_base_address region" and ?s = "reg_size_bytes region"
  from geometry_size[OF partition_region_geometry[OF ok Some]] obtain k where k: "k < 32" "unat ?s = 2 ^ k" "2 ^ k dvd unat ?b"
    by blast
  have le: "unat ?b + unat ?s \<le> 2 ^ 32"
  proof -
    from k(3) obtain c where c: "unat ?b = 2 ^ k * c" by (elim dvdE)
    have e: "(2 :: nat) ^ 32 = 2 ^ k * 2 ^ (32 - k)" using k(1) by (simp flip: power_add)
    have "2 ^ k * c < 2 ^ k * 2 ^ (32 - k)" using unat_less_32[of ?b] c e by simp
    then have "Suc c \<le> 2 ^ (32 - k)" by simp
    then have "2 ^ k * Suc c \<le> 2 ^ k * 2 ^ (32 - k)" by (rule mult_le_mono2)
    with c e k(2) show ?thesis by simp
  qed
  have plus: "unat (x + y) = (if unat x + unat y < 2 ^ 32 then unat x + unat y else unat x + unat y - 2 ^ 32)" for x y :: u32
    using unat_less_32[of x] unat_less_32[of y] by (simp add: unat_word_ariths(1) mod_if le_mod_geq)
  have "maxrtos_arch_mpu_partition_owns_range p a n hw \<longleftrightarrow> n \<noteq> 0 \<and> reg_access region = MAXRTOS_MPU_ACCESS_READ_WRITE
      \<and> a + n > a \<and> a \<ge> ?b \<and> a + n \<le> ?b + ?s"
    using Some get_region_eq(1)[of hw p region]
    by (auto simp: maxrtos_arch_mpu_partition_owns_range_def partition_region_def Let_def word_gt_0 split: option.splits)
  moreover have "n \<noteq> 0 \<and> a + n > a \<and> a \<ge> ?b \<and> a + n \<le> ?b + ?s \<longleftrightarrow>
      n \<noteq> 0 \<and> unat ?b \<le> unat a \<and> unat a + unat n \<le> unat ?b + unat ?s \<and> unat ?b + unat ?s < 2 ^ 32"
    using le unat_less_32[of a] unat_less_32[of n] unat_gt_0[of n]
    by (auto simp: word_less_nat_alt word_le_nat_alt plus split: if_splits)
  ultimately show ?thesis using Some by auto
qed


subsection \<open>What the unit holds\<close>

text \<open>The region registers after a log of writes: selected region, base and attributes of each.\<close>

fun apply_write :: "mpu_register \<times> u32 \<Rightarrow> u32 \<times> (u32 \<Rightarrow> u32) \<times> (u32 \<Rightarrow> u32) \<Rightarrow> u32 \<times> (u32 \<Rightarrow> u32) \<times> (u32 \<Rightarrow> u32)" where
  "apply_write (MAXRTOS_MPU_CTRL, v) (sel, rbar, rasr) = (sel, rbar, rasr)"
| "apply_write (MAXRTOS_MPU_RNR, v) (sel, rbar, rasr) = (v, rbar, rasr)"
| "apply_write (MAXRTOS_MPU_RBAR, v) (sel, rbar, rasr) = (sel, rbar(sel := v), rasr)"
| "apply_write (MAXRTOS_MPU_RASR, v) (sel, rbar, rasr) = (sel, rbar, rasr(sel := v))"

definition unit_state :: "mpu_hw \<Rightarrow> u32 \<times> (u32 \<Rightarrow> u32) \<times> (u32 \<Rightarrow> u32)" where
  "unit_state hw = fold apply_write (mpu_writes hw) (0, \<lambda>_. 0, \<lambda>_. 0)"

definition region_regs :: "mpu_hw \<Rightarrow> u32 \<Rightarrow> u32 \<times> u32" where
  "region_regs hw r = (case unit_state hw of (sel, rbar, rasr) \<Rightarrow> (rbar r, rasr r))"

text \<open>The control register after a log of writes; its lowest bit enables the unit.\<close>

definition ctrl_reg :: "mpu_hw \<Rightarrow> u32" where
  "ctrl_reg hw = fold (\<lambda>(reg, v) ctrl. if reg = MAXRTOS_MPU_CTRL then v else ctrl) (mpu_writes hw) 0"

definition unit_on :: "mpu_hw \<Rightarrow> bool" where
  "unit_on hw \<longleftrightarrow> bit (ctrl_reg hw) 0"

lemma ctrl_reg_write [simp]: "ctrl_reg (mpu_reg_write reg v hw) = (if reg = MAXRTOS_MPU_CTRL then v else ctrl_reg hw)"
  by (simp add: ctrl_reg_def mpu_reg_write_def)

lemma ctrl_reg_fields [simp]: "ctrl_reg (hw\<lparr>s_config := c\<rparr>) = ctrl_reg hw" "ctrl_reg (hw\<lparr>s_active_partition_id := i\<rparr>) = ctrl_reg hw"
  by (simp_all add: ctrl_reg_def)

lemma unit_state_write [simp]: "unit_state (mpu_reg_write reg v hw) = apply_write (reg, v) (unit_state hw)"
  by (simp add: unit_state_def mpu_reg_write_def)

lemma reg_write_fields [simp]:
  "s_config (mpu_reg_write reg v hw) = s_config hw"
  "s_active_partition_id (mpu_reg_write reg v hw) = s_active_partition_id hw"
  by (simp_all add: mpu_reg_write_def)

lemma program_region_eq:
  assumes "maxrtos_mpu_encode_size_field sz = Some f"
  shows "\<exists>hw'. maxrtos_arch_mpu_program_region r base sz acc exec hw = Some hw'
    \<and> s_config hw' = s_config hw \<and> s_active_partition_id hw' = s_active_partition_id hw \<and> ctrl_reg hw' = ctrl_reg hw
    \<and> region_regs hw' r = (base, rasr_value f acc exec) \<and> (\<forall>q. q \<noteq> r \<longrightarrow> region_regs hw' q = region_regs hw q)"
proof -
  obtain sel rbar rasr where "unit_state hw = (sel, rbar, rasr)" by (metis prod_cases3)
  then show ?thesis by (simp add: maxrtos_arch_mpu_program_region_def assms region_regs_def)
qed

text \<open>The attribute word read back: enabled, its size in bytes, its permission and execute-never bit.\<close>

definition rasr_decode :: "u32 \<Rightarrow> bool \<times> nat \<times> u32 \<times> bool" where
  "rasr_decode w = (bit w 0, 2 ^ Suc (unat (drop_bit 1 w AND 31)), drop_bit 24 w AND 7, bit w 28)"

lemma rasr_decode_value:
  assumes "5 \<le> k" "k < 32"
  shows "rasr_decode (rasr_value (of_nat k - 1) acc exec) = (True, 2 ^ k, ap_field acc, \<not> exec)"
proof -
  have "k \<in> {5, 6, 7, 8, 9, 10, 11, 12, 13, 14, 15, 16, 17, 18, 19, 20, 21, 22, 23, 24, 25, 26, 27, 28, 29, 30, 31}"
    using assms unfolding insert_iff empty_iff by presburger
  then have f: "drop_bit 24 (push_bit 1 f) = 0" "drop_bit 1 (push_bit 1 f) = f" "\<not> bit (push_bit 1 f) 28" "f AND 31 = f"
      "unat f = k - 1" if "f = of_nat k - (1 :: u32)" for f
    unfolding that by (elim insertE emptyE; simp)+
  have "2 ^ Suc (k - 1) = (2 :: nat) ^ k" using assms(1) by simp
  with f[OF refl] show ?thesis
    by (cases acc; cases exec)
      (simp_all add: rasr_decode_def rasr_value_def drop_bit_or bit_or_iff bit.conj_disj_distrib2)
qed

text \<open>
  The partition region of the unit belongs to the partition recorded as active. A configuration just
  registered, or none, has no active partition.
\<close>

definition unit_maps :: "mpu_hw \<Rightarrow> maxrtos_mpu_region_config_t \<Rightarrow> bool" where
  "unit_maps hw region \<longleftrightarrow> (case region_regs hw MAXRTOS_MPU_PARTITION_REGION of (rbar, rasr) \<Rightarrow>
     rbar = reg_base_address region \<and> rasr_decode rasr
       = (True, unat (reg_size_bytes region), ap_field (reg_access region), \<not> reg_executable region))"

definition active_mapped :: "mpu_hw \<Rightarrow> bool" where
  "active_mapped hw \<longleftrightarrow> s_active_partition_id hw = MAXRTOS_INVALID_PARTITION_ID \<or>
     (\<exists>region. partition_region hw (s_active_partition_id hw) = Some region \<and> unit_maps hw region)"

lemma set_config_mapped [simp]: "active_mapped (maxrtos_arch_mpu_set_config config hw)"
  by (simp add: active_mapped_def maxrtos_arch_mpu_set_config_def)

text \<open>
  The unit protects the partition that runs. Configuring it for the next process always returns;
  if it succeeds for a process of a partition, the partition region of the unit holds exactly the
  base, size, access and execute permission this partition is configured with, also when the
  programming was skipped because the partition was the last one loaded. No other region changes.
\<close>

lemma mpu_maps_next_partition:
  assumes ok: "mpu_hw_ok hw" and act: "active_mapped hw"
  shows "\<exists>status hw'. maxrtos_arch_mpu_configure_for_next_pcb (Some b) hw = Some (status, hw')
    \<and> active_mapped hw' \<and> s_config hw' = s_config hw \<and> ctrl_reg hw' = ctrl_reg hw
    \<and> (\<forall>r. r \<noteq> MAXRTOS_MPU_PARTITION_REGION \<longrightarrow> region_regs hw' r = region_regs hw r)
    \<and> (if pcb_partition_id b = MAXRTOS_INVALID_PARTITION_ID then status = MAXRTOS_OK \<and> hw' = hw
       else case partition_region hw (pcb_partition_id b) of
         None \<Rightarrow> status \<noteq> MAXRTOS_OK \<and> hw' = hw
       | Some region \<Rightarrow> status = MAXRTOS_OK \<and> unit_maps hw' region)"
proof -
  let ?p = "pcb_partition_id b"
  consider (idle) "?p = MAXRTOS_INVALID_PARTITION_ID"
    | (loaded) "?p \<noteq> MAXRTOS_INVALID_PARTITION_ID" "?p = s_active_partition_id hw"
    | (unmapped) "?p \<noteq> MAXRTOS_INVALID_PARTITION_ID" "?p \<noteq> s_active_partition_id hw" "partition_region hw ?p = None"
    | (load) region where "?p \<noteq> MAXRTOS_INVALID_PARTITION_ID" "?p \<noteq> s_active_partition_id hw"
        "partition_region hw ?p = Some region" by fastforce
  then show ?thesis
  proof cases
    case idle
    with act show ?thesis by (simp add: maxrtos_arch_mpu_configure_for_next_pcb_def)
  next
    case loaded
    with act obtain region where "partition_region hw ?p = Some region" "unit_maps hw region"
      by (auto simp: active_mapped_def)
    with loaded act show ?thesis
      by (simp add: maxrtos_arch_mpu_configure_for_next_pcb_def maxrtos_arch_mpu_configure_for_partition_def)
  next
    case unmapped
    from get_region_eq(2)[OF unmapped(3)] unmapped act show ?thesis
      by (auto simp: maxrtos_arch_mpu_configure_for_next_pcb_def maxrtos_arch_mpu_configure_for_partition_def)
  next
    case load
    from geometry_size[OF partition_region_geometry[OF ok load(3)]] obtain k where
      k: "5 \<le> k" "k < 32" "reg_size_bytes region = 2 ^ k" "unat (reg_size_bytes region) = 2 ^ k" by blast
    from program_region_eq[OF encode_size_field_eq[OF k(3,2)]] obtain hw1 where
      p: "maxrtos_arch_mpu_program_region MAXRTOS_MPU_PARTITION_REGION (reg_base_address region)
            (reg_size_bytes region) (reg_access region) (reg_executable region) hw = Some hw1"
      "s_config hw1 = s_config hw" "ctrl_reg hw1 = ctrl_reg hw" "region_regs hw1 MAXRTOS_MPU_PARTITION_REGION
          = (reg_base_address region, rasr_value (of_nat k - 1) (reg_access region) (reg_executable region))"
      "\<forall>r. r \<noteq> MAXRTOS_MPU_PARTITION_REGION \<longrightarrow> region_regs hw1 r = region_regs hw r" by blast
    let ?hw' = "hw1\<lparr>s_active_partition_id := ?p\<rparr>"
    have r: "maxrtos_arch_mpu_configure_for_next_pcb (Some b) hw = Some (MAXRTOS_OK, ?hw')"
      using load p(1) get_region_eq(1)[of hw ?p region]
      by (simp add: maxrtos_arch_mpu_configure_for_next_pcb_def maxrtos_arch_mpu_configure_for_partition_def)
    have regs: "region_regs ?hw' q = region_regs hw1 q" for q by (simp add: region_regs_def unit_state_def)
    have m: "unit_maps ?hw' region" by (simp add: unit_maps_def regs p(4) rasr_decode_value[OF k(1,2)] k(4))
    have "partition_region ?hw' q = partition_region hw q" for q by (simp add: partition_region_def p(2))
    with m load(3) have "active_mapped ?hw'" by (auto simp: active_mapped_def)
    with m load r p(2,3,5) show ?thesis by (simp add: regs)
  qed
qed


text \<open>
  A system region: the call always returns, because the size is not 0. A size that is no power of two
  passes the checks, and the region the unit then maps is the next smaller power of two.
\<close>

lemma configure_region_outcome:
  assumes "r < MAXRTOS_MPU_PARTITION_REGION" "base mod sz = 0" "5 \<le> k" "2 ^ k \<le> unat sz" "unat sz < 2 ^ (k + 1)"
  shows "\<exists>hw' rasr. maxrtos_arch_mpu_configure_region r base sz acc exec hw = Some (MAXRTOS_OK, hw')
    \<and> region_regs hw' r = (base, rasr) \<and> rasr_decode rasr = (True, 2 ^ k, ap_field acc, \<not> exec)
    \<and> (\<forall>q. q \<noteq> r \<longrightarrow> region_regs hw' q = region_regs hw q)"
proof -
  have k: "k < 32"
  proof (rule ccontr)
    assume "\<not> k < 32"
    then have "(2 :: nat) ^ 32 \<le> 2 ^ k" by (intro power_increasing) simp_all
    with assms(4) unat_less_32[of sz] show False by simp
  qed
  have "(2 :: nat) ^ 5 \<le> 2 ^ k" using assms(3) by (intro power_increasing) simp_all
  then have sz: "sz \<ge> 32" using assms(4) by (simp add: word_le_nat_alt)
  have "maxrtos_mpu_encode_size_field sz = Some (of_nat k - 1)"
    using encode_size_loop_log[OF assms(4,5), of 0] by (simp add: maxrtos_mpu_encode_size_field_def)
  from program_region_eq[OF this, of r base acc exec hw] obtain hw1 where
    "maxrtos_arch_mpu_program_region r base sz acc exec hw = Some hw1"
    "region_regs hw1 r = (base, rasr_value (of_nat k - 1) acc exec)"
    "\<forall>q. q \<noteq> r \<longrightarrow> region_regs hw1 q = region_regs hw q" by blast
  moreover have "known_access acc" by (cases acc) (simp_all add: known_access_def)
  ultimately show ?thesis
    using assms(1,2) sz rasr_decode_value[OF assms(3) k, of acc exec] by (simp add: maxrtos_arch_mpu_configure_region_def)
qed

lemma configure_region_odd_size:
  "\<exists>hw' rasr. maxrtos_arch_mpu_configure_region 0 48 48 MAXRTOS_MPU_ACCESS_READ_WRITE False hw = Some (MAXRTOS_OK, hw')
    \<and> region_regs hw' 0 = (48, rasr) \<and> fst (snd (rasr_decode rasr)) = 32"
  using configure_region_outcome[where k = 5 and r = 0 and base = 48 and sz = 48 and exec = False and hw = hw
      and acc = MAXRTOS_MPU_ACCESS_READ_WRITE] by auto

subsection \<open>Examples\<close>

text \<open>Partitions 0 and 1 own adjacent regions of 4 KiB; the unit is on.\<close>

definition example_mpu_config :: maxrtos_mpu_config_t where
  "example_mpu_config =
     snd (maxrtos_mpu_set_partition_region PTR 1 0x20001000 0x1000 MAXRTOS_MPU_ACCESS_READ_WRITE False
       (snd (maxrtos_mpu_set_partition_region PTR 0 0x20000000 0x1000 MAXRTOS_MPU_ACCESS_READ_WRITE False
         (snd (maxrtos_mpu_config_init PTR \<lparr>mpu_regions = (\<lambda>_. \<lparr>reg_base_address = 0, reg_size_bytes = 0,
            reg_access = MAXRTOS_MPU_ACCESS_NONE, reg_executable = False\<rparr>), mpu_configured = (\<lambda>_. False)\<rparr>)))))"

definition example_mpu :: mpu_hw where
  "example_mpu = maxrtos_arch_mpu_set_config (Some example_mpu_config)
     \<lparr>s_config = None, s_active_partition_id = 0, mpu_writes = [(MAXRTOS_MPU_CTRL, 1)]\<rparr>"

lemma example_mpu_ok: "mpu_hw_ok example_mpu" "active_mapped example_mpu"
proof -
  have "mpu_config_ok example_mpu_config"
    unfolding example_mpu_config_def by (intro mpu_set_region_ok mpu_config_init_ok)
  then show "mpu_hw_ok example_mpu" by (simp add: mpu_hw_ok_def example_mpu_def maxrtos_arch_mpu_set_config_def)
  show "active_mapped example_mpu" by (simp add: example_mpu_def)
qed

lemma example_regions:
  "partition_region example_mpu 0 = Some \<lparr>reg_base_address = 0x20000000, reg_size_bytes = 0x1000,
     reg_access = MAXRTOS_MPU_ACCESS_READ_WRITE, reg_executable = False\<rparr>"
  "partition_region example_mpu 1 = Some \<lparr>reg_base_address = 0x20001000, reg_size_bytes = 0x1000,
     reg_access = MAXRTOS_MPU_ACCESS_READ_WRITE, reg_executable = False\<rparr>"
  by (simp_all add: partition_region_def example_mpu_def example_mpu_config_def maxrtos_arch_mpu_set_config_def
      maxrtos_mpu_set_partition_region_def maxrtos_mpu_region_geometry_valid_def maxrtos_mpu_is_power_of_two_def known_access_def)

lemma owns_range_exact_witness:
  "maxrtos_arch_mpu_partition_owns_range 0 0x20000FF0 16 example_mpu
    \<and> \<not> maxrtos_arch_mpu_partition_owns_range 0 0x20000FF0 17 example_mpu"
  unfolding owns_range_exact[OF example_mpu_ok(1)] by (simp add: example_regions)

lemma mpu_maps_next_partition_witness:
  "\<exists>status hw'. maxrtos_arch_mpu_configure_for_next_pcb
      (Some ((example_pcb MAXRTOS_PROCESS_STATE_RUNNING 3)\<lparr>pcb_partition_id := 1\<rparr>)) example_mpu = Some (status, hw')
    \<and> status = MAXRTOS_OK \<and> fst (region_regs hw' MAXRTOS_MPU_PARTITION_REGION) = 0x20001000"
proof -
  let ?b = "(example_pcb MAXRTOS_PROCESS_STATE_RUNNING 3)\<lparr>pcb_partition_id := 1\<rparr>"
  from mpu_maps_next_partition[OF example_mpu_ok, of ?b] obtain status hw' where
    "maxrtos_arch_mpu_configure_for_next_pcb (Some ?b) example_mpu = Some (status, hw')" "status = MAXRTOS_OK"
    "unit_maps hw' \<lparr>reg_base_address = 0x20001000, reg_size_bytes = 0x1000,
       reg_access = MAXRTOS_MPU_ACCESS_READ_WRITE, reg_executable = False\<rparr>" by (auto simp: example_regions)
  then show ?thesis by (auto simp: unit_maps_def split: prod.splits)
qed

end
