(* ===== verification/Queue_Contract.thy ===== *)
theory Queue_Contract
  imports Prelude
begin

text \<open>
  The interface every bounded FIFO of the kernel meets: the ready queues (scheduler.h), the wait
  lists (waitlist.c) and the message FIFO (fifo.c). A queue has an abstract content, a list,
  oldest first; clients rely on the laws only. \<open>removable_fifo\<close> adds removal of a named element.
  The client lemmas say that elements come out in the order they went in, and that a removal
  undoes a push.
\<close>

primrec push_all :: "('a \<Rightarrow> 'q \<Rightarrow> 'q option) \<Rightarrow> 'a list \<Rightarrow> 'q \<Rightarrow> 'q option" where
  "push_all push [] q = Some q"
| "push_all push (a # as) q = (case push a q of None \<Rightarrow> None | Some q' \<Rightarrow> push_all push as q')"

primrec pop_times :: "('q \<Rightarrow> ('a \<times> 'q) option) \<Rightarrow> nat \<Rightarrow> 'q \<Rightarrow> ('a list \<times> 'q) option" where
  "pop_times pop 0 q = Some ([], q)"
| "pop_times pop (Suc n) q =
     (case pop q of None \<Rightarrow> None
      | Some (a, q') \<Rightarrow> (case pop_times pop n q' of None \<Rightarrow> None | Some (as, q'') \<Rightarrow> Some (a # as, q'')))"

locale bounded_fifo =
  fixes inv :: "'q \<Rightarrow> bool"
    and abs :: "'q \<Rightarrow> 'a list"
    and cap :: "'q \<Rightarrow> nat"
    and ok :: "'q \<Rightarrow> 'a \<Rightarrow> bool"
    and push :: "'a \<Rightarrow> 'q \<Rightarrow> 'q option"
    and pop :: "'q \<Rightarrow> ('a \<times> 'q) option"
  assumes bound: "inv q \<Longrightarrow> length (abs q) \<le> cap q"
    and push_room: "inv q \<Longrightarrow> ok q a \<Longrightarrow> length (abs q) < cap q \<Longrightarrow>
      \<exists>q'. push a q = Some q' \<and> inv q' \<and> abs q' = abs q @ [a] \<and> cap q' = cap q \<and> ok q' = ok q"
    and push_full: "inv q \<Longrightarrow> ok q a \<Longrightarrow> cap q \<le> length (abs q) \<Longrightarrow> push a q = None"
    and pop_some: "inv q \<Longrightarrow> abs q = a # as \<Longrightarrow>
      \<exists>q'. pop q = Some (a, q') \<and> inv q' \<and> abs q' = as \<and> cap q' = cap q \<and> ok q' = ok q"
    and pop_none: "inv q \<Longrightarrow> abs q = [] \<Longrightarrow> pop q = None"
begin

lemma push_all_appends:
  "inv q \<Longrightarrow> \<forall>a \<in> set as. ok q a \<Longrightarrow> length (abs q) + length as \<le> cap q \<Longrightarrow>
   \<exists>q'. push_all push as q = Some q' \<and> inv q' \<and> abs q' = abs q @ as \<and> cap q' = cap q"
proof (induction as arbitrary: q)
  case Nil
  then show ?case by simp
next
  case (Cons a as)
  from Cons.prems obtain q' where q': "push a q = Some q'" "inv q'" "abs q' = abs q @ [a]"
    "cap q' = cap q" "ok q' = ok q"
    using push_room[of q a] by auto
  with Cons.prems Cons.IH[of q'] show ?case by auto
qed

lemma pop_times_prefix:
  "inv q \<Longrightarrow> n \<le> length (abs q) \<Longrightarrow>
   \<exists>q'. pop_times pop n q = Some (take n (abs q), q') \<and> inv q' \<and> abs q' = drop n (abs q)"
proof (induction n arbitrary: q)
  case 0
  then show ?case by simp
next
  case (Suc n)
  then obtain a as where as: "abs q = a # as" by (cases "abs q") auto
  with pop_some[OF Suc.prems(1)] obtain q' where q': "pop q = Some (a, q')" "inv q'" "abs q' = as"
    by blast
  with Suc.prems as Suc.IH[of q'] show ?case by auto
qed

text \<open>First in, first out: what is pushed into an empty queue is popped in the same order.\<close>

lemma fifo_order:
  assumes "inv q" "abs q = []" "\<forall>a \<in> set as. ok q a" "length as \<le> cap q"
  shows "\<exists>q' q''. push_all push as q = Some q' \<and> pop_times pop (length as) q' = Some (as, q'')
    \<and> inv q'' \<and> abs q'' = []"
proof -
  from push_all_appends[OF assms(1,3)] assms(2,4) obtain q' where
    "push_all push as q = Some q'" "inv q'" "abs q' = as" by auto
  with pop_times_prefix[of q' "length as"] show ?thesis by auto
qed

end

locale removable_fifo = bounded_fifo inv abs cap ok push pop
  for inv :: "'q \<Rightarrow> bool" and abs :: "'q \<Rightarrow> 'a list" and cap ok push pop +
  fixes remove :: "'a \<Rightarrow> 'q \<Rightarrow> 'q option"
  assumes remove_some: "inv q \<Longrightarrow> a \<in> set (abs q) \<Longrightarrow>
      \<exists>q'. remove a q = Some q' \<and> inv q' \<and> abs q' = remove1 a (abs q) \<and> cap q' = cap q"
    and remove_none: "inv q \<Longrightarrow> a \<notin> set (abs q) \<Longrightarrow> remove a q = None"
begin

text \<open>Rolling back: removing a freshly pushed element restores the content.\<close>

lemma push_remove:
  assumes "inv q" "ok q a" "length (abs q) < cap q" "a \<notin> set (abs q)"
  shows "\<exists>q' q''. push a q = Some q' \<and> remove a q' = Some q'' \<and> inv q'' \<and> abs q'' = abs q"
proof -
  from push_room[OF assms(1-3)] obtain q' where q': "push a q = Some q'" "inv q'" "abs q' = abs q @ [a]"
    by blast
  with remove_some[of q' a] assms(4) show ?thesis by (auto simp: remove1_append)
qed

text \<open>A removal always makes room, so the element can be put back (at the tail).\<close>

lemma remove_push:
  assumes "inv q" "ok q a" "a \<in> set (abs q)" "\<And>q'. remove a q = Some q' \<Longrightarrow> ok q' = ok q"
  shows "\<exists>q' q''. remove a q = Some q' \<and> push a q' = Some q'' \<and> inv q''
    \<and> abs q'' = remove1 a (abs q) @ [a]"
proof -
  from remove_some[OF assms(1,3)] obtain q' where q': "remove a q = Some q'" "inv q'"
    "abs q' = remove1 a (abs q)" "cap q' = cap q" by blast
  from assms(3) have pos: "0 < length (abs q)" by (cases "abs q") auto
  then have "length (abs q) - 1 < cap q" using bound[OF assms(1)] by linarith
  with q' assms(3) have "length (abs q') < cap q'"
    by (simp add: length_remove1)
  with q' assms(2,4) push_room[of q' a] show ?thesis by auto
qed

end

end
