(* ===== verification/Waitlist.thy ===== *)
theory Waitlist
  imports Queue_Contract
begin

text \<open>
  The fixed-capacity wait list of waitlist.c: process identifiers in arrival order at the front
  of an array. The operations shift the array as the code's loops do; the abstraction
  \<open>wl_list\<close> reads the entries, and each operation is shown to be the list operation.
\<close>

record maxrtos_waitlist_t =
  wl_items :: "nat \<Rightarrow> u32"
  wl_count :: nat

definition maxrtos_waitlist_init :: "ptr \<Rightarrow> maxrtos_waitlist_t \<Rightarrow> maxrtos_status \<times> maxrtos_waitlist_t" where
  [op_defs]: "maxrtos_waitlist_init listp l =
     (if listp \<noteq> NULL then (MAXRTOS_OK, l\<lparr>wl_count := 0\<rparr>) else (MAXRTOS_ERR_INVALID_ARG, l))"

definition maxrtos_waitlist_push ::
    "ptr \<Rightarrow> u32 \<Rightarrow> maxrtos_waitlist_t \<Rightarrow> maxrtos_status \<times> maxrtos_waitlist_t" where
  [op_defs]: "maxrtos_waitlist_push listp pid l =
     (if listp \<noteq> NULL then
        (if wl_count l \<ge> MAXRTOS_WAITLIST_MAX then (MAXRTOS_ERR_POOL_FULL, l)
         else (MAXRTOS_OK, l\<lparr>wl_items := (wl_items l)(wl_count l := pid), wl_count := wl_count l + 1\<rparr>))
      else (MAXRTOS_ERR_INVALID_ARG, l))"

text \<open>
  The shifting loop of \<open>pop_front\<close> and \<open>remove\<close>: while \<open>scan + 1 < count\<close>, entry \<open>scan + 1\<close>
  moves to \<open>scan\<close> (in \<open>pop_front\<close> the loop variable is \<open>scan + 1\<close>).
\<close>

function waitlist_shift :: "nat \<Rightarrow> nat \<Rightarrow> (nat \<Rightarrow> u32) \<Rightarrow> (nat \<Rightarrow> u32)" where
  "waitlist_shift scan count items =
     (if scan + 1 < count then waitlist_shift (scan + 1) count (items(scan := items (scan + 1)))
      else items)"
  by pat_completeness auto
termination by (relation "measure (\<lambda>(scan, count, items). count - scan)") auto

text \<open>The searching loop of \<open>remove\<close>: the first position from \<open>scan\<close> on that holds \<open>pid\<close>.\<close>

function waitlist_find :: "nat \<Rightarrow> nat \<Rightarrow> (nat \<Rightarrow> u32) \<Rightarrow> u32 \<Rightarrow> nat option" where
  "waitlist_find scan count items pid =
     (if scan < count then
        (if items scan = pid then Some scan else waitlist_find (scan + 1) count items pid)
      else None)"
  by pat_completeness auto
termination by (relation "measure (\<lambda>(scan, count, items, pid). count - scan)") auto

declare waitlist_shift.simps [simp del] waitlist_find.simps [simp del]

definition maxrtos_waitlist_pop_front ::
    "ptr \<Rightarrow> ptr \<Rightarrow> maxrtos_waitlist_t \<Rightarrow> maxrtos_status \<times> u32 option \<times> maxrtos_waitlist_t" where
  [op_defs]: "maxrtos_waitlist_pop_front listp outp l =
     (if listp \<noteq> NULL \<and> outp \<noteq> NULL then
        (if wl_count l = 0 then (MAXRTOS_ERR_QUEUE_EMPTY, None, l)
         else (MAXRTOS_OK, Some (wl_items l 0),
               l\<lparr>wl_items := waitlist_shift 0 (wl_count l) (wl_items l), wl_count := sz_dec (wl_count l)\<rparr>))
      else (MAXRTOS_ERR_INVALID_ARG, None, l))"

definition maxrtos_waitlist_remove ::
    "ptr \<Rightarrow> u32 \<Rightarrow> maxrtos_waitlist_t \<Rightarrow> bool \<times> maxrtos_waitlist_t" where
  [op_defs]: "maxrtos_waitlist_remove listp pid l =
     (if listp \<noteq> NULL then
        (case waitlist_find 0 (wl_count l) (wl_items l) pid of
           Some found_index \<Rightarrow>
             (True, l\<lparr>wl_items := waitlist_shift found_index (wl_count l) (wl_items l),
                      wl_count := sz_dec (wl_count l)\<rparr>)
         | None \<Rightarrow> (False, l))
      else (False, l))"

definition maxrtos_waitlist_get ::
    "ptr \<Rightarrow> nat \<Rightarrow> ptr \<Rightarrow> maxrtos_waitlist_t \<Rightarrow> maxrtos_status \<times> u32 option" where
  [op_defs]: "maxrtos_waitlist_get listp index outp l =
     (if listp \<noteq> NULL \<and> outp \<noteq> NULL then
        (if index < wl_count l then (MAXRTOS_OK, Some (wl_items l index))
         else (MAXRTOS_ERR_NOT_FOUND, None))
      else (MAXRTOS_ERR_INVALID_ARG, None))"

definition maxrtos_waitlist_count :: "ptr \<Rightarrow> maxrtos_waitlist_t \<Rightarrow> nat" where
  [op_defs]: "maxrtos_waitlist_count listp l = (if listp \<noteq> NULL then wl_count l else 0)"

subsection \<open>Abstraction to a list\<close>

definition wl_list :: "maxrtos_waitlist_t \<Rightarrow> u32 list" where
  "wl_list l = map (wl_items l) [0..<wl_count l]"

definition wl_wf :: "maxrtos_waitlist_t \<Rightarrow> bool" where
  "wl_wf l \<longleftrightarrow> wl_count l \<le> MAXRTOS_WAITLIST_MAX"

lemma length_wl_list [simp]: "length (wl_list l) = wl_count l"
  by (simp add: wl_list_def)

lemma waitlist_shift_nth:
  "waitlist_shift scan count items i =
     (if scan \<le> i \<and> i + 1 < count then items (i + 1) else items i)"
proof (induction scan count items arbitrary: i rule: waitlist_shift.induct)
  case (1 scan count items)
  show ?case
  proof (cases "scan + 1 < count")
    case True
    then show ?thesis
      unfolding waitlist_shift.simps[of scan] if_P[OF True] by (subst "1.IH") auto
  qed (auto simp: waitlist_shift.simps[of scan])
qed

lemma waitlist_find_Some:
  "waitlist_find scan count items pid = Some k \<Longrightarrow>
   scan \<le> k \<and> k < count \<and> items k = pid \<and> (\<forall>j. scan \<le> j \<and> j < k \<longrightarrow> items j \<noteq> pid)"
proof (induction scan count items pid rule: waitlist_find.induct)
  case (1 scan count items pid)
  show ?case
  proof (cases "items scan = pid")
    case True
    with "1.prems" show ?thesis by (auto simp: waitlist_find.simps[of scan] split: if_splits)
  next
    case False
    with "1.prems" have lt: "scan < count" and rest: "waitlist_find (scan + 1) count items pid = Some k"
      by (simp_all add: waitlist_find.simps[of scan] split: if_splits)
    from "1.IH"[OF lt False rest] False show ?thesis
      by (auto simp: le_eq_less_or_eq) (metis Suc_le_eq le_eq_less_or_eq)
  qed
qed

lemma waitlist_find_None:
  "waitlist_find scan count items pid = None \<Longrightarrow> scan \<le> j \<Longrightarrow> j < count \<Longrightarrow> items j \<noteq> pid"
proof (induction scan count items pid rule: waitlist_find.induct)
  case (1 scan count items pid)
  from "1.prems"(1) have "items scan \<noteq> pid \<or> \<not> scan < count"
    "scan < count \<Longrightarrow> waitlist_find (scan + 1) count items pid = None"
    by (simp_all add: waitlist_find.simps[of scan] split: if_splits)
  with "1" show ?case by (cases "j = scan") auto
qed

text \<open>Dropping one position of an enumerated list; shared with the ready queue.\<close>

lemma map_shift_eq_drop_nth:
  assumes "k < n"
  shows "map (\<lambda>i. if k \<le> i \<and> i + 1 < n then f (i + 1) else f i) [0..<n - 1]
    = take k (map f [0..<n]) @ drop (Suc k) (map f [0..<n])"
  using assms by (intro nth_equalityI) (auto simp: nth_append min_def)

lemma remove1_first_occurrence:
  "k < length xs \<Longrightarrow> xs ! k = x \<Longrightarrow> (\<forall>j<k. xs ! j \<noteq> x) \<Longrightarrow>
   remove1 x xs = take k xs @ drop (Suc k) xs"
proof (induction xs arbitrary: k)
  case Nil
  then show ?case by simp
next
  case (Cons y ys)
  show ?case
  proof (cases k)
    case 0
    with Cons.prems show ?thesis by simp
  next
    case (Suc k')
    with Cons.prems have "y \<noteq> x" by force
    moreover from Cons.prems Suc have "remove1 x ys = take k' ys @ drop (Suc k') ys"
      by (intro Cons.IH) force+
    ultimately show ?thesis using Suc by simp
  qed
qed

subsection \<open>The operations on the abstract list\<close>

lemma waitlist_push_ok:
  "wl_count l < MAXRTOS_WAITLIST_MAX \<Longrightarrow>
   fst (maxrtos_waitlist_push PTR pid l) = MAXRTOS_OK
   \<and> wl_list (snd (maxrtos_waitlist_push PTR pid l)) = wl_list l @ [pid]
   \<and> wl_wf (snd (maxrtos_waitlist_push PTR pid l))"
  by (auto simp: op_defs wl_list_def wl_wf_def)

lemma waitlist_pop_front_ok:
  assumes "wl_list l = a # as" "wl_wf l"
  shows "fst (maxrtos_waitlist_pop_front PTR PTR l) = MAXRTOS_OK
    \<and> fst (snd (maxrtos_waitlist_pop_front PTR PTR l)) = Some a
    \<and> wl_list (snd (snd (maxrtos_waitlist_pop_front PTR PTR l))) = as
    \<and> wl_wf (snd (snd (maxrtos_waitlist_pop_front PTR PTR l)))"
proof -
  from assms(1) have n: "0 < wl_count l" using length_wl_list[of l] by (cases "wl_count l") simp_all
  then have hd: "wl_items l 0 = a"
    using assms(1) by (simp add: wl_list_def upt_conv_Cons)
  have "as = drop 1 (wl_list l)" using assms(1) by simp
  then show ?thesis
    using n hd assms(2) map_shift_eq_drop_nth[of 0 "wl_count l" "wl_items l"]
    by (simp add: op_defs wl_wf_def wl_list_def waitlist_shift_nth[abs_def])
qed

lemma waitlist_remove_cases:
  assumes "wl_wf l"
  shows "wl_list (snd (maxrtos_waitlist_remove PTR pid l)) = remove1 pid (wl_list l)
    \<and> fst (maxrtos_waitlist_remove PTR pid l) = (pid \<in> set (wl_list l))
    \<and> wl_wf (snd (maxrtos_waitlist_remove PTR pid l))"
proof (cases "waitlist_find 0 (wl_count l) (wl_items l) pid")
  case None
  then have "pid \<notin> set (wl_list l)"
    using waitlist_find_None[OF None] by (auto simp: wl_list_def) blast
  with None assms show ?thesis by (simp add: op_defs remove1_idem)
next
  case (Some k)
  from waitlist_find_Some[OF Some] have k: "k < wl_count l" "wl_items l k = pid"
    "\<forall>j<k. wl_items l j \<noteq> pid" by auto
  then have "remove1 pid (wl_list l) = take k (wl_list l) @ drop (Suc k) (wl_list l)"
    by (intro remove1_first_occurrence) (auto simp: wl_list_def)
  moreover have "pid \<in> set (wl_list l)" using k by (auto simp: wl_list_def)
  ultimately show ?thesis
    using Some k assms map_shift_eq_drop_nth[of k "wl_count l" "wl_items l"]
    by (auto simp: op_defs wl_wf_def wl_list_def waitlist_shift_nth[abs_def])
qed

interpretation wl: removable_fifo wl_wf wl_list "\<lambda>_. MAXRTOS_WAITLIST_MAX" "\<lambda>_ _. True"
  "\<lambda>a l. case maxrtos_waitlist_push PTR a l of (MAXRTOS_OK, l') \<Rightarrow> Some l' | _ \<Rightarrow> None"
  "\<lambda>l. case maxrtos_waitlist_pop_front PTR PTR l of (MAXRTOS_OK, Some a, l') \<Rightarrow> Some (a, l') | _ \<Rightarrow> None"
  "\<lambda>a l. case maxrtos_waitlist_remove PTR a l of (True, l') \<Rightarrow> Some l' | _ \<Rightarrow> None"
proof (unfold_locales, goal_cases)
  case (1 q)
  then show ?case by (simp add: wl_wf_def)
next
  case (2 q a)
  then show ?case using waitlist_push_ok[of q a]
    by (cases "maxrtos_waitlist_push PTR a q") auto
next
  case (3 q a)
  then show ?case by (simp add: op_defs)
next
  case (4 q a as)
  then show ?case using waitlist_pop_front_ok[of q a as]
    by (cases "maxrtos_waitlist_pop_front PTR PTR q") auto
next
  case (5 q)
  then show ?case by (simp add: op_defs wl_list_def)
next
  case (6 q a)
  then show ?case using waitlist_remove_cases[of q a]
    by (cases "maxrtos_waitlist_remove PTR a q") auto
next
  case (7 q a)
  then show ?case using waitlist_remove_cases[of q a]
    by (cases "maxrtos_waitlist_remove PTR a q") auto
qed

end
