(* ===== verification/Scheduler.thy ===== *)
theory Scheduler
  imports Queue_Contract Waitlist Process
begin

text \<open>
  The ready queues of one scheduling domain (scheduler.c and the inline operations of
  scheduler.h): a ring buffer of process identifiers per priority and a mask with one bit per
  non-empty queue. The abstraction \<open>ready\<close> gives, for every priority, the queued identifiers,
  oldest first; every operation is shown to be the list operation on it, and selection to pick the
  head of the first non-empty queue.
\<close>

record maxrtos_ready_queue_t =
  rq_items :: "nat \<Rightarrow> u32"
  rq_head :: nat
  rq_count :: nat

record maxrtos_scheduler_context_t =
  ctx_queues :: "nat \<Rightarrow> maxrtos_ready_queue_t"
  ctx_ready_mask :: u32

text \<open>The two loops of \<open>maxrtos_scheduler_queue_remove_id\<close>: search, then shift toward the head.\<close>

function rq_find :: "nat \<Rightarrow> maxrtos_ready_queue_t \<Rightarrow> u32 \<Rightarrow> nat option" where
  "rq_find scan queue pid =
     (if scan < rq_count queue then
        (if rq_items queue ((rq_head queue + scan) mod MAXRTOS_MAX_READY_PER_PRIORITY) = pid then Some scan
         else rq_find (scan + 1) queue pid)
      else None)"
  by pat_completeness auto
termination by (relation "measure (\<lambda>(scan, queue, pid). rq_count queue - scan)") auto

function rq_shift :: "nat \<Rightarrow> nat \<Rightarrow> nat \<Rightarrow> (nat \<Rightarrow> u32) \<Rightarrow> (nat \<Rightarrow> u32)" where
  "rq_shift scan head count items =
     (if scan + 1 < count then
        rq_shift (scan + 1) head count
          (items((head + scan) mod MAXRTOS_MAX_READY_PER_PRIORITY :=
                   items ((head + scan + 1) mod MAXRTOS_MAX_READY_PER_PRIORITY)))
      else items)"
  by pat_completeness auto
termination by (relation "measure (\<lambda>(scan, head, count, items). count - scan)") auto

declare rq_find.simps [simp del] rq_shift.simps [simp del]

definition maxrtos_scheduler_queue_remove_id ::
    "ptr \<Rightarrow> u32 \<Rightarrow> maxrtos_ready_queue_t \<Rightarrow> maxrtos_status \<times> maxrtos_ready_queue_t" where
  [op_defs]: "maxrtos_scheduler_queue_remove_id queuep pid queue =
     (if queuep \<noteq> NULL then
        (case rq_find 0 queue pid of
           Some found_index \<Rightarrow>
             (MAXRTOS_OK,
              queue\<lparr>rq_items := rq_shift found_index (rq_head queue) (rq_count queue) (rq_items queue),
                    rq_count := sz_dec (rq_count queue)\<rparr>)
         | None \<Rightarrow> (MAXRTOS_ERR_NOT_FOUND, queue))
      else (MAXRTOS_ERR_NOT_FOUND, queue))"

definition maxrtos_scheduler_init ::
    "ptr \<Rightarrow> maxrtos_scheduler_context_t \<Rightarrow> maxrtos_status \<times> maxrtos_scheduler_context_t" where
  [op_defs]: "maxrtos_scheduler_init ctxp ctx =
     (if ctxp \<noteq> NULL then
        (MAXRTOS_OK,
         ctx\<lparr>ctx_queues := fold (\<lambda>priority qs. qs(priority := (qs priority)\<lparr>rq_head := 0, rq_count := 0\<rparr>))
               [0..<MAXRTOS_MAX_PRIORITY + 1] (ctx_queues ctx),
             ctx_ready_mask := 0\<rparr>)
      else (MAXRTOS_ERR_INVALID_ARG, ctx))"

definition s_bit_index :: "nat list" where
  "s_bit_index = [0, 1, 28, 2, 29, 14, 24, 3, 30, 22, 20, 15, 25, 17, 4, 8,
     31, 27, 13, 23, 21, 19, 16, 7, 26, 12, 18, 6, 11, 5, 10, 9]"

definition maxrtos_scheduler_lowest_set_bit :: "u32 \<Rightarrow> nat" where
  "maxrtos_scheduler_lowest_set_bit m =
     (let isolated = m AND (NOT m + 1)
      in s_bit_index ! unat (drop_bit 27 (isolated * 0x077CB531)))"

definition maxrtos_scheduler_queue_tail :: "maxrtos_ready_queue_t \<Rightarrow> nat" where
  [op_defs]: "maxrtos_scheduler_queue_tail queue =
     (rq_head queue + rq_count queue) mod MAXRTOS_MAX_READY_PER_PRIORITY"

definition maxrtos_scheduler_queue_push ::
    "ptr \<Rightarrow> u32 \<Rightarrow> maxrtos_ready_queue_t \<Rightarrow> maxrtos_status \<times> maxrtos_ready_queue_t" where
  [op_defs]: "maxrtos_scheduler_queue_push queuep pid queue =
     (if queuep \<noteq> NULL then
        (if rq_count queue < MAXRTOS_MAX_READY_PER_PRIORITY then
           let tail = maxrtos_scheduler_queue_tail queue in
             (MAXRTOS_OK, queue\<lparr>rq_items := (rq_items queue)(tail := pid), rq_count := rq_count queue + 1\<rparr>)
         else (MAXRTOS_ERR_QUEUE_FULL, queue))
      else (MAXRTOS_ERR_QUEUE_FULL, queue))"

definition maxrtos_scheduler_next ::
    "ptr \<Rightarrow> ptr \<Rightarrow> maxrtos_scheduler_context_t \<Rightarrow> maxrtos_status \<times> u32 option" where
  [op_defs]: "maxrtos_scheduler_next ctxp outp ctx =
     (if ctxp \<noteq> NULL \<and> outp \<noteq> NULL then
        (if ctx_ready_mask ctx = 0 then (MAXRTOS_ERR_QUEUE_EMPTY, None)
         else
           let priority = maxrtos_scheduler_lowest_set_bit (ctx_ready_mask ctx);
               queue = ctx_queues ctx priority
           in (MAXRTOS_OK, Some (rq_items queue (rq_head queue))))
      else (MAXRTOS_ERR_INVALID_ARG, None))"

text \<open>\<open>UINT32_C( 1 ) << priority\<close>.\<close>

definition priority_bit :: "nat \<Rightarrow> u32" where
  "priority_bit priority = push_bit priority 1"

definition maxrtos_scheduler_pop :: "nat \<Rightarrow> maxrtos_scheduler_context_t \<Rightarrow> maxrtos_scheduler_context_t" where
  [op_defs]: "maxrtos_scheduler_pop priority ctx =
     (let queue = ctx_queues ctx priority;
          queue' = queue\<lparr>rq_head := (rq_head queue + 1) mod MAXRTOS_MAX_READY_PER_PRIORITY,
                         rq_count := sz_dec (rq_count queue)\<rparr>;
          ctx' = ctx\<lparr>ctx_queues := (ctx_queues ctx)(priority := queue')\<rparr>
      in if rq_count queue' = 0
         then ctx'\<lparr>ctx_ready_mask := ctx_ready_mask ctx AND NOT (priority_bit priority)\<rparr>
         else ctx')"

definition maxrtos_scheduler_take_next ::
    "ptr \<Rightarrow> ptr \<Rightarrow> maxrtos_scheduler_context_t \<Rightarrow> maxrtos_status \<times> u32 option \<times> maxrtos_scheduler_context_t" where
  [op_defs]: "maxrtos_scheduler_take_next ctxp outp ctx =
     (if ctxp \<noteq> NULL \<and> outp \<noteq> NULL then
        (if ctx_ready_mask ctx = 0 then (MAXRTOS_ERR_QUEUE_EMPTY, None, ctx)
         else
           let priority = maxrtos_scheduler_lowest_set_bit (ctx_ready_mask ctx);
               queue = ctx_queues ctx priority
           in (MAXRTOS_OK, Some (rq_items queue (rq_head queue)), maxrtos_scheduler_pop priority ctx))
      else (MAXRTOS_ERR_INVALID_ARG, None, ctx))"

definition maxrtos_scheduler_enqueue ::
    "ptr \<Rightarrow> u32 \<Rightarrow> u8 \<Rightarrow> maxrtos_scheduler_context_t \<Rightarrow> maxrtos_status \<times> maxrtos_scheduler_context_t" where
  [op_defs]: "maxrtos_scheduler_enqueue ctxp pid priority ctx =
     (if ctxp \<noteq> NULL \<and> priority \<le> of_nat MAXRTOS_MAX_PRIORITY then
        (case maxrtos_scheduler_queue_push PTR pid (ctx_queues ctx (unat priority)) of
           (status, queue) \<Rightarrow>
             let ctx' = ctx\<lparr>ctx_queues := (ctx_queues ctx)(unat priority := queue)\<rparr> in
             if status = MAXRTOS_OK
             then (status, ctx'\<lparr>ctx_ready_mask := ctx_ready_mask ctx OR priority_bit (unat priority)\<rparr>)
             else (status, ctx'))
      else (MAXRTOS_ERR_INVALID_ARG, ctx))"

definition maxrtos_scheduler_enqueue_front ::
    "ptr \<Rightarrow> u32 \<Rightarrow> u8 \<Rightarrow> maxrtos_scheduler_context_t \<Rightarrow> maxrtos_status \<times> maxrtos_scheduler_context_t" where
  [op_defs]: "maxrtos_scheduler_enqueue_front ctxp pid priority ctx =
     (if ctxp \<noteq> NULL \<and> priority \<le> of_nat MAXRTOS_MAX_PRIORITY then
        (let queue = ctx_queues ctx (unat priority) in
         if rq_count queue < MAXRTOS_MAX_READY_PER_PRIORITY then
           let head = (rq_head queue + MAXRTOS_MAX_READY_PER_PRIORITY - 1) mod MAXRTOS_MAX_READY_PER_PRIORITY;
               queue' = queue\<lparr>rq_head := head, rq_items := (rq_items queue)(head := pid),
                              rq_count := rq_count queue + 1\<rparr>
           in (MAXRTOS_OK,
               ctx\<lparr>ctx_queues := (ctx_queues ctx)(unat priority := queue'),
                   ctx_ready_mask := ctx_ready_mask ctx OR priority_bit (unat priority)\<rparr>)
         else (MAXRTOS_ERR_QUEUE_FULL, ctx))
      else (MAXRTOS_ERR_INVALID_ARG, ctx))"

definition maxrtos_scheduler_has_higher :: "ptr \<Rightarrow> u8 \<Rightarrow> maxrtos_scheduler_context_t \<Rightarrow> bool" where
  [op_defs]: "maxrtos_scheduler_has_higher ctxp priority ctx \<longleftrightarrow>
     ctxp \<noteq> NULL \<and> ctx_ready_mask ctx AND (priority_bit (unat priority) - 1) \<noteq> 0"

definition maxrtos_scheduler_add_process ::
    "ptr \<Rightarrow> u32 \<Rightarrow> pool \<Rightarrow> maxrtos_scheduler_context_t \<Rightarrow> maxrtos_status \<times> maxrtos_scheduler_context_t" where
  [op_defs]: "maxrtos_scheduler_add_process ctxp pid pool ctx =
     (if ctxp \<noteq> NULL then
        (case maxrtos_process_get pid pool of
           None \<Rightarrow> (MAXRTOS_ERR_INVALID_ID, ctx)
         | Some pcb \<Rightarrow>
             (if pcb_state pcb \<noteq> MAXRTOS_PROCESS_STATE_READY then (MAXRTOS_ERR_INVALID_STATE, ctx)
              else maxrtos_scheduler_enqueue PTR pid (pcb_priority pcb) ctx))
      else (MAXRTOS_ERR_INVALID_ARG, ctx))"

definition maxrtos_scheduler_remove_process ::
    "ptr \<Rightarrow> u32 \<Rightarrow> pool \<Rightarrow> maxrtos_scheduler_context_t \<Rightarrow> maxrtos_status \<times> maxrtos_scheduler_context_t" where
  [op_defs]: "maxrtos_scheduler_remove_process ctxp pid pool ctx =
     (if ctxp \<noteq> NULL then
        (case maxrtos_process_get pid pool of
           None \<Rightarrow> (MAXRTOS_ERR_INVALID_ID, ctx)
         | Some pcb \<Rightarrow>
             (if pcb_state pcb \<noteq> MAXRTOS_PROCESS_STATE_READY then (MAXRTOS_ERR_INVALID_STATE, ctx)
              else
                (case maxrtos_scheduler_queue_remove_id PTR pid (ctx_queues ctx (unat (pcb_priority pcb))) of
                   (status, queue) \<Rightarrow>
                     let ctx' = ctx\<lparr>ctx_queues := (ctx_queues ctx)(unat (pcb_priority pcb) := queue)\<rparr> in
                     if rq_count queue = 0
                     then (status, ctx'\<lparr>ctx_ready_mask :=
                             ctx_ready_mask ctx AND NOT (priority_bit (unat (pcb_priority pcb)))\<rparr>)
                     else (status, ctx'))))
      else (MAXRTOS_ERR_INVALID_ARG, ctx))"

definition maxrtos_scheduler_process_count :: "ptr \<Rightarrow> maxrtos_scheduler_context_t \<Rightarrow> nat" where
  [op_defs]: "maxrtos_scheduler_process_count ctxp ctx =
     (if ctxp \<noteq> NULL
      then fold (\<lambda>priority count. count + rq_count (ctx_queues ctx priority)) [0..<MAXRTOS_MAX_PRIORITY + 1] 0
      else 0)"

subsection \<open>The lowest set bit\<close>

lemma isolate_lowest_bit:
  fixes m :: u32
  assumes "bit m k" and low: "\<And>j. j < k \<Longrightarrow> \<not> bit m j"
  shows "m AND (NOT m + 1) = push_bit k 1"
proof -
  have k: "k < 32" using bit_imp_le_length[of m k] assms(1) by simp
  define h where "h = m AND NOT (mask (Suc k) :: u32)"
  have bit_h: "bit h n \<longleftrightarrow> Suc k \<le> n \<and> bit m n" for n
    using bit_imp_le_length[of m n] by (auto simp: h_def bit_simps not_less)
  have split: "bit m n \<longleftrightarrow> n = k \<or> bit h n" for n
    using assms bit_h by (cases n k rule: linorder_cases) auto
  have "m = push_bit k 1 OR h"
    using k by (intro bit_eqI) (auto simp: split bit_simps)
  also have "\<dots> = push_bit k 1 + h"
    by (rule disjunctive_add_eq_or[symmetric]) (auto intro!: bit_eqI simp: bit_h bit_simps)
  also have "\<dots> = mask k + h + 1"
    by (simp add: mask_eq_exp_minus_1 push_bit_eq_mult)
  also have "mask k + h = mask k OR h"
    by (rule disjunctive_add_eq_or) (auto intro!: bit_eqI simp: bit_h bit_simps)
  finally have "NOT m + 1 = NOT (mask k OR h)"
    using minus_eq_not_minus_1[of m] by (simp add: minus_eq_not_plus_1)
  moreover have "bit m n \<and> bit (NOT (mask k OR h)) n \<longleftrightarrow> n = k" for n
    using k low[of n] bit_h[of k] by (auto simp: split bit_simps not_less dest: bit_imp_le_length)
  ultimately show ?thesis
    using k by (intro bit_eqI) (simp add: bit_and_iff, auto simp: bit_simps)
qed

lemma s_bit_index_table:
  "\<forall>k \<in> set [0..<32]. s_bit_index ! unat (drop_bit 27 (push_bit k 1 * (0x077CB531 :: u32))) = k"
  by code_simp

lemma lowest_set_bit_eq:
  assumes "bit m k" "\<And>j. j < k \<Longrightarrow> \<not> bit m j"
  shows "maxrtos_scheduler_lowest_set_bit m = k"
proof -
  have "k < 32" using bit_imp_le_length[of m k] assms(1) by simp
  with s_bit_index_table have "s_bit_index ! unat (drop_bit 27 (push_bit k 1 * (0x077CB531 :: u32))) = k"
    by simp
  then show ?thesis
    by (simp add: maxrtos_scheduler_lowest_set_bit_def isolate_lowest_bit[OF assms] del: push_bit_of_1)
qed

lemma lowest_set_bit_props:
  assumes "m \<noteq> 0"
  shows "bit m (maxrtos_scheduler_lowest_set_bit m)"
    and "j < maxrtos_scheduler_lowest_set_bit m \<Longrightarrow> \<not> bit m j"
    and "maxrtos_scheduler_lowest_set_bit m < 32"
proof -
  from assms obtain n where "bit m n" by (auto simp: bit_eq_iff)
  then have least: "bit m (LEAST n. bit m n)" by (rule LeastI)
  have eq: "maxrtos_scheduler_lowest_set_bit m = (LEAST n. bit m n)"
    by (rule lowest_set_bit_eq) (use least not_less_Least in auto)
  show "bit m (maxrtos_scheduler_lowest_set_bit m)" using least eq by simp
  then show "maxrtos_scheduler_lowest_set_bit m < 32" using bit_imp_le_length by fastforce
  show "j < maxrtos_scheduler_lowest_set_bit m \<Longrightarrow> \<not> bit m j" using eq not_less_Least by auto
qed

subsection \<open>One ready queue\<close>

definition rq_wf :: "maxrtos_ready_queue_t \<Rightarrow> bool" where
  "rq_wf q \<longleftrightarrow> rq_head q < MAXRTOS_MAX_READY_PER_PRIORITY \<and> rq_count q \<le> MAXRTOS_MAX_READY_PER_PRIORITY"

definition rq_list :: "maxrtos_ready_queue_t \<Rightarrow> u32 list" where
  "rq_list q = map (\<lambda>i. rq_items q ((rq_head q + i) mod MAXRTOS_MAX_READY_PER_PRIORITY)) [0..<rq_count q]"

lemma length_rq_list [simp]: "length (rq_list q) = rq_count q"
  by (simp add: rq_list_def)

lemma rq_list_empty: "rq_list q = [] \<longleftrightarrow> rq_count q = 0"
  by (simp add: rq_list_def)

lemma ring8_inj: "(h + i) mod 8 = (h + j) mod 8 \<Longrightarrow> i < 8 \<Longrightarrow> j < 8 \<Longrightarrow> i = (j :: nat)"
  by (rule ring_index_inj)

lemma rq_push_ok:
  assumes "rq_count q < MAXRTOS_MAX_READY_PER_PRIORITY" "rq_wf q"
  shows "\<exists>q'. maxrtos_scheduler_queue_push PTR pid q = (MAXRTOS_OK, q') \<and> rq_wf q'
    \<and> rq_list q' = rq_list q @ [pid] \<and> rq_count q' = Suc (rq_count q)"
  using assms ring8_inj[of "rq_head q" _ "rq_count q"]
  by (force simp: op_defs Let_def rq_wf_def rq_list_def)

lemma rq_push_front_list:
  assumes "rq_count q < MAXRTOS_MAX_READY_PER_PRIORITY" "rq_wf q"
  defines "h \<equiv> (rq_head q + 8 - 1) mod 8"
  shows "rq_list (q\<lparr>rq_head := h, rq_items := (rq_items q)(h := pid), rq_count := rq_count q + 1\<rparr>)
      = pid # rq_list q"
proof -
  have h0: "(h + 0) mod 8 = h" by (simp add: h_def)
  have hS: "(h + Suc i) mod 8 = (rq_head q + i) mod 8" for i
    unfolding h_def mod_add_left_eq by (simp add: mod_add_right_eq)
  have ne: "(rq_head q + i) mod 8 \<noteq> h" if "i < rq_count q" for i
    using ring8_inj[of h "Suc i" 0] that assms(1) hS[of i] h0 by auto
  show ?thesis
    using ne by (simp add: rq_list_def upt_conv_Cons map_Suc_upt[symmetric] h0[simplified] hS[simplified]
      del: upt_Suc)
qed

lemma rq_pop_list:
  assumes "rq_list q = a # as" "rq_wf q"
  shows "rq_items q (rq_head q) = a"
    and "rq_list (q\<lparr>rq_head := (rq_head q + 1) mod 8, rq_count := sz_dec (rq_count q)\<rparr>) = as"
proof -
  from assms(1) obtain c where c: "rq_count q = Suc c"
    using rq_list_empty[of q] by (cases "rq_count q") auto
  with assms show "rq_items q (rq_head q) = a"
    by (simp add: rq_list_def rq_wf_def upt_conv_Cons del: upt_Suc)
  show "rq_list (q\<lparr>rq_head := (rq_head q + 1) mod 8, rq_count := sz_dec (rq_count q)\<rparr>) = as"
    using assms c by (simp add: rq_list_def rq_wf_def map_upt_Suc ring_advance[simplified] del: upt_Suc)
qed

lemma rq_find_Some:
  "rq_find scan q pid = Some k \<Longrightarrow> scan \<le> k \<and> k < rq_count q
   \<and> rq_items q ((rq_head q + k) mod 8) = pid
   \<and> (\<forall>j. scan \<le> j \<and> j < k \<longrightarrow> rq_items q ((rq_head q + j) mod 8) \<noteq> pid)"
proof (induction scan q pid rule: rq_find.induct)
  case (1 scan q pid)
  show ?case
  proof (cases "rq_items q ((rq_head q + scan) mod 8) = pid")
    case True
    with "1.prems" show ?thesis by (auto simp: rq_find.simps[of scan] split: if_splits)
  next
    case False
    with "1.prems" have lt: "scan < rq_count q" and rest: "rq_find (scan + 1) q pid = Some k"
      by (simp_all add: rq_find.simps[of scan] split: if_splits)
    from "1.IH"[OF lt False rest] False show ?thesis
      by (auto simp: le_eq_less_or_eq) (metis Suc_le_eq le_eq_less_or_eq)
  qed
qed

lemma rq_find_None:
  "rq_find scan q pid = None \<Longrightarrow> scan \<le> j \<Longrightarrow> j < rq_count q \<Longrightarrow>
   rq_items q ((rq_head q + j) mod 8) \<noteq> pid"
proof (induction scan q pid rule: rq_find.induct)
  case (1 scan q pid)
  from "1.prems"(1) have "rq_items q ((rq_head q + scan) mod 8) \<noteq> pid \<or> \<not> scan < rq_count q"
    "scan < rq_count q \<Longrightarrow> rq_find (scan + 1) q pid = None"
    by (simp_all add: rq_find.simps[of scan] split: if_splits)
  with "1" show ?case by (cases "j = scan") auto
qed

lemma rq_shift_nth:
  "count \<le> 8 \<Longrightarrow> i < count \<Longrightarrow>
   rq_shift scan head count items ((head + i) mod 8) =
     (if scan \<le> i \<and> i + 1 < count then items ((head + (i + 1)) mod 8) else items ((head + i) mod 8))"
proof (induction scan head count items rule: rq_shift.induct)
  case (1 scan head count items)
  show ?case
  proof (cases "scan + 1 < count")
    case True
    define f where "f = items((head + scan) mod 8 := items ((head + scan + 1) mod 8))"
    have f: "f ((head + j) mod 8) = (if j = scan then items ((head + (scan + 1)) mod 8) else items ((head + j) mod 8))"
      if "j < count" for j
      using ring8_inj[of head j scan] that True "1.prems"(1) by (auto simp: f_def add.assoc)
    have IH: "rq_shift (scan + 1) head count f ((head + i) mod 8) =
      (if scan + 1 \<le> i \<and> i + 1 < count then f ((head + (i + 1)) mod 8) else f ((head + i) mod 8))"
      unfolding f_def by (rule "1.IH"[OF True "1.prems"])
    show ?thesis
      unfolding rq_shift.simps[of scan] if_P[OF True] f_def[symmetric] IH
      using "1.prems"(2) True by (cases i scan rule: linorder_cases) (simp_all add: f del: add_Suc_right)
  qed (auto simp: rq_shift.simps[of scan])
qed

lemma rq_remove_cases:
  assumes "rq_wf q"
  shows "\<exists>q'. maxrtos_scheduler_queue_remove_id PTR pid q
      = (if pid \<in> set (rq_list q) then MAXRTOS_OK else MAXRTOS_ERR_NOT_FOUND, q')
    \<and> rq_list q' = remove1 pid (rq_list q) \<and> rq_wf q'"
proof (cases "rq_find 0 q pid")
  case None
  then have "pid \<notin> set (rq_list q)"
    using rq_find_None[OF None] by (auto simp: rq_list_def) blast
  with None assms show ?thesis by (simp add: op_defs remove1_idem)
next
  case (Some k)
  from rq_find_Some[OF Some] have k: "k < rq_count q" "rq_items q ((rq_head q + k) mod 8) = pid"
    "\<forall>j<k. rq_items q ((rq_head q + j) mod 8) \<noteq> pid" by auto
  then have "remove1 pid (rq_list q) = take k (rq_list q) @ drop (Suc k) (rq_list q)"
    by (intro remove1_first_occurrence) (auto simp: rq_list_def)
  moreover have "pid \<in> set (rq_list q)" using k by (auto simp: rq_list_def)
  moreover have "map (\<lambda>i. rq_shift k (rq_head q) (rq_count q) (rq_items q) ((rq_head q + i) mod 8)) [0..<rq_count q - 1]
      = take k (rq_list q) @ drop (Suc k) (rq_list q)"
    unfolding rq_list_def map_shift_eq_drop_nth[OF k(1), symmetric]
    using assms by (intro map_cong) (simp_all add: rq_wf_def rq_shift_nth)
  ultimately show ?thesis
    using Some k assms by (simp add: op_defs rq_wf_def) (auto simp: rq_list_def)
qed

subsection \<open>A scheduling domain\<close>

definition ready :: "maxrtos_scheduler_context_t \<Rightarrow> nat \<Rightarrow> u32 list" where
  "ready ctx p = rq_list (ctx_queues ctx p)"

definition ctx_wf :: "maxrtos_scheduler_context_t \<Rightarrow> bool" where
  "ctx_wf ctx \<longleftrightarrow> (\<forall>p \<le> MAXRTOS_MAX_PRIORITY.
     rq_wf (ctx_queues ctx p) \<and> (bit (ctx_ready_mask ctx) p \<longleftrightarrow> ready ctx p \<noteq> []))"

text \<open>Every queued identifier, in the order in which the domain would run them.\<close>

definition ready_ids :: "maxrtos_scheduler_context_t \<Rightarrow> u32 list" where
  "ready_ids ctx = concat (map (ready ctx) [0..<MAXRTOS_MAX_PRIORITY + 1])"

text \<open>The specification of selection: the first non-empty queue.\<close>

definition top_priority :: "maxrtos_scheduler_context_t \<Rightarrow> nat option" where
  "top_priority ctx = find (\<lambda>p. ready ctx p \<noteq> []) [0..<MAXRTOS_MAX_PRIORITY + 1]"

lemma prio_le_31: "(prio :: u8) \<le> of_nat MAXRTOS_MAX_PRIORITY \<longleftrightarrow> unat prio \<le> MAXRTOS_MAX_PRIORITY"
  by (simp add: word_le_nat_alt)

lemma length_ready: "length (ready ctx p) = rq_count (ctx_queues ctx p)"
  by (simp add: ready_def)

lemma ready_nonempty: "ready ctx p = [] \<longleftrightarrow> rq_count (ctx_queues ctx p) = 0"
  by (simp add: ready_def rq_list_empty)

lemma bit_or_priority:
  "p \<le> 31 \<Longrightarrow> q \<le> 31 \<Longrightarrow> bit (m OR priority_bit p) q \<longleftrightarrow> bit m q \<or> q = p"
  by (auto simp: priority_bit_def bit_simps)

lemma bit_and_not_priority:
  "p \<le> 31 \<Longrightarrow> q \<le> 31 \<Longrightarrow> bit (m AND NOT (priority_bit p)) q \<longleftrightarrow> bit m q \<and> q \<noteq> p"
  by (auto simp: priority_bit_def bit_simps)

lemma ctx_wf_ready_length: "ctx_wf ctx \<Longrightarrow> p \<le> 31 \<Longrightarrow> length (ready ctx p) \<le> MAXRTOS_MAX_READY_PER_PRIORITY"
  by (simp add: ctx_wf_def length_ready rq_wf_def)

lemma mask_zero_iff:
  assumes "ctx_wf ctx"
  shows "ctx_ready_mask ctx = 0 \<longleftrightarrow> top_priority ctx = None"
proof -
  have "ctx_ready_mask ctx = 0 \<longleftrightarrow> (\<forall>p<32. \<not> bit (ctx_ready_mask ctx) p)"
    by (auto simp: bit_eq_iff dest: bit_imp_le_length)
  also have "\<dots> \<longleftrightarrow> (\<forall>p<32. ready ctx p = [])"
    using assms by (auto simp: ctx_wf_def)
  finally show ?thesis by (simp add: top_priority_def find_None_iff atLeast0LessThan Ball_def)
qed

lemma top_priority_SomeD:
  "top_priority ctx = Some p \<Longrightarrow> p \<le> 31 \<and> ready ctx p \<noteq> [] \<and> (\<forall>j<p. ready ctx j = [])"
  by (auto simp: top_priority_def find_Some_iff simp del: upt_Suc)

lemma top_priority_SomeI:
  assumes "p \<le> 31" "ready ctx p \<noteq> []" "\<And>j. j < p \<Longrightarrow> ready ctx j = []"
  shows "top_priority ctx = Some p"
  unfolding top_priority_def find_Some_iff
  using assms by (intro exI[of _ p]) (auto simp del: upt_Suc)

lemma top_priority_lowest_bit:
  assumes "ctx_wf ctx" "ctx_ready_mask ctx \<noteq> 0"
  shows "top_priority ctx = Some (maxrtos_scheduler_lowest_set_bit (ctx_ready_mask ctx))"
proof (rule top_priority_SomeI)
  let ?p = "maxrtos_scheduler_lowest_set_bit (ctx_ready_mask ctx)"
  note low = lowest_set_bit_props[OF assms(2)]
  show "?p \<le> 31" using low(3) by simp
  with low(1) assms(1) show "ready ctx ?p \<noteq> []" by (simp add: ctx_wf_def)
  show "ready ctx j = []" if "j < ?p" for j
    using low(2)[OF that] low(3) that assms(1) by (simp add: ctx_wf_def)
qed

subsection \<open>The operations on the abstract queues\<close>

lemma ctx_wf_upd:
  assumes "ctx_wf ctx" "p \<le> 31" "rq_wf q"
    and "\<And>r. r \<le> 31 \<Longrightarrow> bit m r \<longleftrightarrow> (if r = p then rq_count q \<noteq> 0 else bit (ctx_ready_mask ctx) r)"
  shows "ctx_wf (ctx\<lparr>ctx_queues := (ctx_queues ctx)(p := q), ctx_ready_mask := m\<rparr>)"
  using assms by (auto simp: ctx_wf_def ready_def rq_list_empty)

lemma ready_upd:
  "ready (ctx\<lparr>ctx_queues := (ctx_queues ctx)(p := q), ctx_ready_mask := m\<rparr>) = (ready ctx)(p := rq_list q)"
  by (rule ext) (simp add: ready_def)

lemma scheduler_init_ok:
  "fst (maxrtos_scheduler_init PTR ctx) = MAXRTOS_OK
   \<and> ctx_wf (snd (maxrtos_scheduler_init PTR ctx))
   \<and> (\<forall>p \<le> MAXRTOS_MAX_PRIORITY. ready (snd (maxrtos_scheduler_init PTR ctx)) p = [])"
proof -
  have "fold (\<lambda>priority qs. qs(priority := (qs priority)\<lparr>rq_head := 0, rq_count := 0\<rparr>)) is g p
      = (if p \<in> set is then (g p)\<lparr>rq_head := 0, rq_count := 0\<rparr> else g p)" for "is" and g :: "nat \<Rightarrow> maxrtos_ready_queue_t" and p
    by (induction "is" arbitrary: g) auto
  then show ?thesis
    by (simp add: op_defs ctx_wf_def ready_def rq_list_empty rq_wf_def del: upt_Suc)
qed

lemma enqueue_ok:
  assumes "ctx_wf ctx" "prio \<le> of_nat MAXRTOS_MAX_PRIORITY"
    and "length (ready ctx (unat prio)) < MAXRTOS_MAX_READY_PER_PRIORITY"
  shows "\<exists>ctx'. maxrtos_scheduler_enqueue PTR pid prio ctx = (MAXRTOS_OK, ctx') \<and> ctx_wf ctx'
    \<and> ready ctx' = (ready ctx)(unat prio := ready ctx (unat prio) @ [pid])"
proof -
  from assms have p: "unat prio \<le> 31" and wf: "rq_wf (ctx_queues ctx (unat prio))"
    by (simp_all add: ctx_wf_def word_le_nat_alt)
  from rq_push_ok[of "ctx_queues ctx (unat prio)" pid] wf assms(3) obtain q' where q':
    "maxrtos_scheduler_queue_push PTR pid (ctx_queues ctx (unat prio)) = (MAXRTOS_OK, q')"
    "rq_wf q'" "rq_list q' = ready ctx (unat prio) @ [pid]" "rq_count q' = Suc (rq_count (ctx_queues ctx (unat prio)))"
    by (auto simp: length_ready ready_def)
  have "ctx_wf (ctx\<lparr>ctx_queues := (ctx_queues ctx)(unat prio := q'),
      ctx_ready_mask := ctx_ready_mask ctx OR priority_bit (unat prio)\<rparr>)"
    using p q' by (intro ctx_wf_upd[OF assms(1)]) (auto simp: bit_or_priority)
  then show ?thesis
    using q' assms(2) by (simp add: maxrtos_scheduler_enqueue_def Let_def ready_upd)
qed

lemma enqueue_full:
  assumes "prio \<le> of_nat MAXRTOS_MAX_PRIORITY"
    and "MAXRTOS_MAX_READY_PER_PRIORITY \<le> length (ready ctx (unat prio))"
  shows "maxrtos_scheduler_enqueue PTR pid prio ctx = (MAXRTOS_ERR_QUEUE_FULL, ctx)"
  using assms by (simp add: op_defs Let_def length_ready fun_upd_idem)

lemma enqueue_front_ok:
  assumes "ctx_wf ctx" "prio \<le> of_nat MAXRTOS_MAX_PRIORITY"
    and "length (ready ctx (unat prio)) < MAXRTOS_MAX_READY_PER_PRIORITY"
  shows "\<exists>ctx'. maxrtos_scheduler_enqueue_front PTR pid prio ctx = (MAXRTOS_OK, ctx') \<and> ctx_wf ctx'
    \<and> ready ctx' = (ready ctx)(unat prio := pid # ready ctx (unat prio))"
proof -
  let ?q = "ctx_queues ctx (unat prio)"
  let ?h = "(rq_head ?q + 8 - 1) mod 8"
  let ?q' = "?q\<lparr>rq_head := ?h, rq_items := (rq_items ?q)(?h := pid), rq_count := rq_count ?q + 1\<rparr>"
  from assms have p: "unat prio \<le> 31" and wf: "rq_wf ?q" and room: "rq_count ?q < 8"
    by (simp_all add: ctx_wf_def word_le_nat_alt length_ready)
  have l: "rq_list ?q' = pid # ready ctx (unat prio)"
    using rq_push_front_list[OF room wf] by (simp add: ready_def)
  have "ctx_wf (ctx\<lparr>ctx_queues := (ctx_queues ctx)(unat prio := ?q'),
      ctx_ready_mask := ctx_ready_mask ctx OR priority_bit (unat prio)\<rparr>)"
    using p room by (intro ctx_wf_upd[OF assms(1)]) (auto simp: bit_or_priority rq_wf_def)
  then show ?thesis
    using room l assms(2) by (simp add: maxrtos_scheduler_enqueue_front_def Let_def ready_upd)
qed

lemma enqueue_front_full:
  assumes "prio \<le> of_nat MAXRTOS_MAX_PRIORITY"
    and "MAXRTOS_MAX_READY_PER_PRIORITY \<le> length (ready ctx (unat prio))"
  shows "maxrtos_scheduler_enqueue_front PTR pid prio ctx = (MAXRTOS_ERR_QUEUE_FULL, ctx)"
  using assms by (simp add: op_defs Let_def length_ready)

lemma pop_ok:
  assumes "ctx_wf ctx" "p \<le> 31" "ready ctx p = a # as"
  shows "rq_items (ctx_queues ctx p) (rq_head (ctx_queues ctx p)) = a"
    and "ctx_wf (maxrtos_scheduler_pop p ctx)"
    and "ready (maxrtos_scheduler_pop p ctx) = (ready ctx)(p := as)"
proof -
  let ?q = "ctx_queues ctx p"
  let ?q' = "?q\<lparr>rq_head := (rq_head ?q + 1) mod 8, rq_count := sz_dec (rq_count ?q)\<rparr>"
  let ?m = "if rq_count ?q' = 0 then ctx_ready_mask ctx AND NOT (priority_bit p) else ctx_ready_mask ctx"
  from assms have wf: "rq_wf ?q" and l: "rq_list ?q = a # as" and b: "bit (ctx_ready_mask ctx) p"
    by (simp_all add: ctx_wf_def ready_def)
  from rq_pop_list[OF l wf] show "rq_items ?q (rq_head ?q) = a" by simp
  have l': "rq_list ?q' = as" using rq_pop_list[OF l wf] by simp
  have pop: "maxrtos_scheduler_pop p ctx = ctx\<lparr>ctx_queues := (ctx_queues ctx)(p := ?q'), ctx_ready_mask := ?m\<rparr>"
    by (simp add: maxrtos_scheduler_pop_def Let_def)
  have "0 < rq_count ?q" "rq_count ?q \<le> 8" using l wf rq_list_empty[of ?q] by (auto simp: rq_wf_def)
  then have wf': "rq_wf ?q'" by (auto simp: rq_wf_def)
  show "ctx_wf (maxrtos_scheduler_pop p ctx)"
    unfolding pop using assms(2) b by (intro ctx_wf_upd[OF assms(1) _ wf']) (auto simp: bit_and_not_priority)
  show "ready (maxrtos_scheduler_pop p ctx) = (ready ctx)(p := as)"
    unfolding pop ready_upd l' ..
qed

lemma scheduler_next_eq:
  assumes "ctx_wf ctx"
  shows "maxrtos_scheduler_next PTR PTR ctx = (case top_priority ctx of
      None \<Rightarrow> (MAXRTOS_ERR_QUEUE_EMPTY, None) | Some p \<Rightarrow> (MAXRTOS_OK, Some (hd (ready ctx p))))"
proof (cases "ctx_ready_mask ctx = 0")
  case True
  then show ?thesis using mask_zero_iff[OF assms] by (simp add: maxrtos_scheduler_next_def)
next
  case False
  let ?p = "maxrtos_scheduler_lowest_set_bit (ctx_ready_mask ctx)"
  note top = top_priority_lowest_bit[OF assms False]
  from top_priority_SomeD[OF top] obtain a as where p: "?p \<le> 31" "ready ctx ?p = a # as"
    by (metis list.exhaust)
  from pop_ok(1)[OF assms this] p top False show ?thesis
    by (simp add: maxrtos_scheduler_next_def Let_def)
qed

lemma take_next_eq:
  assumes "ctx_wf ctx" "top_priority ctx = Some p"
  shows "maxrtos_scheduler_take_next PTR PTR ctx
    = (MAXRTOS_OK, Some (hd (ready ctx p)), maxrtos_scheduler_pop p ctx)"
proof -
  have nz: "ctx_ready_mask ctx \<noteq> 0" using mask_zero_iff[OF assms(1)] assms(2) by simp
  with top_priority_lowest_bit[OF assms(1)] assms(2)
  have p: "maxrtos_scheduler_lowest_set_bit (ctx_ready_mask ctx) = p" by simp
  from top_priority_SomeD[OF assms(2)] obtain a as where "p \<le> 31" "ready ctx p = a # as"
    by (metis list.exhaust)
  from pop_ok(1)[OF assms(1) this] this nz p show ?thesis
    by (simp add: maxrtos_scheduler_take_next_def Let_def)
qed

lemma remove_process_ok:
  assumes "ctx_wf ctx" "allocated pool pid" "pcb_state (pool pid) = MAXRTOS_PROCESS_STATE_READY"
    and "pcb_priority (pool pid) \<le> of_nat MAXRTOS_MAX_PRIORITY"
  defines "p \<equiv> unat (pcb_priority (pool pid))"
  shows "\<exists>ctx'. maxrtos_scheduler_remove_process PTR pid pool ctx
      = (if pid \<in> set (ready ctx p) then MAXRTOS_OK else MAXRTOS_ERR_NOT_FOUND, ctx') \<and> ctx_wf ctx'
    \<and> ready ctx' = (ready ctx)(p := remove1 pid (ready ctx p))"
proof -
  from assms have p: "p \<le> 31" and wf: "rq_wf (ctx_queues ctx p)"
    by (simp_all add: ctx_wf_def word_le_nat_alt)
  from rq_remove_cases[OF wf, of pid] obtain q' where q':
    "maxrtos_scheduler_queue_remove_id PTR pid (ctx_queues ctx p)
      = (if pid \<in> set (ready ctx p) then MAXRTOS_OK else MAXRTOS_ERR_NOT_FOUND, q')"
    "rq_list q' = remove1 pid (ready ctx p)" "rq_wf q'" by (auto simp: ready_def)
  let ?m = "if rq_count q' = 0 then ctx_ready_mask ctx AND NOT (priority_bit p) else ctx_ready_mask ctx"
  have "ready ctx p \<noteq> []" if "rq_count q' \<noteq> 0"
    using that q'(2) rq_list_empty[of q'] by auto
  then have "ctx_wf (ctx\<lparr>ctx_queues := (ctx_queues ctx)(p := q'), ctx_ready_mask := ?m\<rparr>)"
    using p assms(1) by (intro ctx_wf_upd[OF assms(1) _ q'(3)]) (auto simp: bit_and_not_priority ctx_wf_def)
  then show ?thesis
    using q' assms ready_upd[where ctx = ctx and p = p and q = q' and m = ?m]
    by (auto simp: maxrtos_scheduler_remove_process_def process_get_eq Let_def)
qed

lemma has_higher_iff:
  assumes "ctx_wf ctx" "prio \<le> of_nat MAXRTOS_MAX_PRIORITY"
  shows "maxrtos_scheduler_has_higher PTR prio ctx \<longleftrightarrow> (\<exists>p < unat prio. ready ctx p \<noteq> [])"
proof -
  have m: "priority_bit (unat prio) - 1 = mask (unat prio)"
    by (simp add: priority_bit_def mask_eq_exp_minus_1 push_bit_eq_mult)
  have "ctx_ready_mask ctx AND mask (unat prio) \<noteq> 0 \<longleftrightarrow> (\<exists>p < unat prio. bit (ctx_ready_mask ctx) p)"
    using assms(2) bit_imp_le_length[of "ctx_ready_mask ctx"]
    by (force simp: bit_eq_iff bit_simps word_le_nat_alt)
  then show ?thesis
    using assms by (auto simp: maxrtos_scheduler_has_higher_def m ctx_wf_def word_le_nat_alt)
qed

lemma process_count_eq:
  "maxrtos_scheduler_process_count PTR ctx = length (ready_ids ctx)"
proof -
  have "fold (\<lambda>p c. c + f p) xs n = n + sum_list (map f xs)" for f :: "nat \<Rightarrow> nat" and xs n
    by (induction xs arbitrary: n) auto
  then show ?thesis
    by (simp add: maxrtos_scheduler_process_count_def ready_ids_def length_concat o_def length_ready del: upt_Suc)
qed

subsection \<open>Every ready queue is a bounded FIFO\<close>

interpretation rq: bounded_fifo
  "\<lambda>ctx. ctx_wf ctx \<and> prio \<le> of_nat MAXRTOS_MAX_PRIORITY" "\<lambda>ctx. ready ctx (unat prio)"
  "\<lambda>_. MAXRTOS_MAX_READY_PER_PRIORITY" "\<lambda>_ _. True"
  "\<lambda>pid ctx. case maxrtos_scheduler_enqueue PTR pid prio ctx of (MAXRTOS_OK, ctx') \<Rightarrow> Some ctx' | _ \<Rightarrow> None"
  "\<lambda>ctx. if rq_count (ctx_queues ctx (unat prio)) = 0 then None
         else Some (rq_items (ctx_queues ctx (unat prio)) (rq_head (ctx_queues ctx (unat prio))),
                    maxrtos_scheduler_pop (unat prio) ctx)"
  for prio :: u8
proof (unfold_locales, goal_cases)
  case (1 q)
  then show ?case by (intro ctx_wf_ready_length) (auto simp: word_le_nat_alt)
next
  case (2 q a)
  then show ?case using enqueue_ok[of q prio a] by auto
next
  case (3 q a)
  then show ?case using enqueue_full[of prio q a] by simp
next
  case (4 q a as)
  then show ?case using pop_ok[of q "unat prio" a as]
    by (auto simp: word_le_nat_alt ready_nonempty[symmetric])
next
  case (5 q)
  then show ?case by (simp add: ready_nonempty)
qed

lemma ready_ids_split:
  "p \<le> 31 \<Longrightarrow> ready_ids ctx =
     concat (map (ready ctx) [0..<p]) @ ready ctx p @ concat (map (ready ctx) [Suc p..<32])"
  using upt_add_eq_append[of 0 p "32 - p"] by (simp add: ready_ids_def upt_conv_Cons del: upt_Suc)

lemma ready_ids_top:
  assumes "top_priority ctx = Some p"
  shows "ready_ids ctx = ready ctx p @ concat (map (ready ctx) [Suc p..<32])"
proof -
  have "concat (map (ready ctx) [0..<p]) = []"
    using top_priority_SomeD[OF assms] by simp
  with ready_ids_split[of p ctx] top_priority_SomeD[OF assms] show ?thesis by simp
qed

lemma ready_ids_none: "top_priority ctx = None \<Longrightarrow> ready_ids ctx = []"
  by (auto simp: ready_ids_def top_priority_def find_None_iff simp del: upt_Suc)

lemma ready_ids_pop:
  assumes "ctx_wf ctx" "top_priority ctx = Some p"
  shows "ready_ids (maxrtos_scheduler_pop p ctx) = tl (ready_ids ctx)"
proof -
  from top_priority_SomeD[OF assms(2)] obtain a as where p: "p \<le> 31" "ready ctx p = a # as"
    "\<forall>j<p. ready ctx j = []" by (metis list.exhaust)
  have "concat (map ((ready ctx)(p := as)) [0..<p]) = []" using p(3) by simp
  moreover have "map ((ready ctx)(p := as)) [Suc p..<32] = map (ready ctx) [Suc p..<32]"
    by (intro map_cong) auto
  ultimately show ?thesis
    using ready_ids_split[OF p(1), of "maxrtos_scheduler_pop p ctx"] pop_ok(3)[OF assms(1) p(1,2)]
      ready_ids_top[OF assms(2)] p(2) by (simp del: map_fun_upd fun_upd_apply) simp
qed

text \<open>
  The de Bruijn multiplication: for every non-zero 32-bit mask
  \<open>maxrtos_scheduler_lowest_set_bit\<close> returns the position of the lowest set bit, so the table
  index never leaves the table.
\<close>

lemma lowest_set_bit_correct:
  assumes "m \<noteq> 0"
  shows "maxrtos_scheduler_lowest_set_bit m < 32 \<and> bit m (maxrtos_scheduler_lowest_set_bit m)
    \<and> (\<forall>j < maxrtos_scheduler_lowest_set_bit m. \<not> bit m j)"
  using lowest_set_bit_props[OF assms] by simp

lemma lowest_set_bit_correct_witness:
  "maxrtos_scheduler_lowest_set_bit 0x80000400 < 32 \<and> bit (0x80000400 :: u32) (maxrtos_scheduler_lowest_set_bit 0x80000400)"
  using lowest_set_bit_correct[of "0x80000400"] by simp

text \<open>
  Selection: \<open>maxrtos_scheduler_next\<close> returns the first process of the domain in run order (by
  priority, then arrival), or reports an empty queue exactly when nothing is queued;
  \<open>maxrtos_scheduler_take_next\<close> returns the same process and removes it and nothing else.
\<close>

lemma scheduler_selects_first:
  assumes "ctx_wf ctx"
  shows "maxrtos_scheduler_next PTR PTR ctx = (case ready_ids ctx of
      [] \<Rightarrow> (MAXRTOS_ERR_QUEUE_EMPTY, None) | pid # _ \<Rightarrow> (MAXRTOS_OK, Some pid))
    \<and> (case maxrtos_scheduler_take_next PTR PTR ctx of (status, out, ctx') \<Rightarrow>
      (status, out) = maxrtos_scheduler_next PTR PTR ctx \<and> ctx_wf ctx' \<and> ready_ids ctx' = tl (ready_ids ctx))"
proof (cases "top_priority ctx")
  case None
  then have "ctx_ready_mask ctx = 0" using mask_zero_iff[OF assms] by simp
  then show ?thesis
    using None ready_ids_none[OF None] assms
    by (simp add: scheduler_next_eq maxrtos_scheduler_take_next_def)
next
  case (Some p)
  from top_priority_SomeD[OF Some] obtain a as where p: "p \<le> 31" "ready ctx p = a # as"
    by (metis list.exhaust)
  note pop = pop_ok[OF assms p]
  have "ready_ids (maxrtos_scheduler_pop p ctx) = tl (ready_ids ctx)"
    using ready_ids_pop[OF assms Some] .
  then show ?thesis
    using Some assms p pop ready_ids_top[OF Some] by (simp add: scheduler_next_eq take_next_eq)
qed

text \<open>The well-formedness test is executable, so examples evaluate it.\<close>

lemma ctx_wf_code [code]:
  "ctx_wf ctx \<longleftrightarrow> list_all (\<lambda>p. rq_wf (ctx_queues ctx p) \<and> (bit (ctx_ready_mask ctx) p \<longleftrightarrow> ready ctx p \<noteq> [])) [0..<32]"
  by (auto simp: ctx_wf_def list_all_iff simp del: upt_Suc)

definition empty_ctx :: maxrtos_scheduler_context_t where
  "empty_ctx = \<lparr>ctx_queues = (\<lambda>_. \<lparr>rq_items = (\<lambda>_. 0), rq_head = 0, rq_count = 0\<rparr>), ctx_ready_mask = 0\<rparr>"

definition example_ctx :: maxrtos_scheduler_context_t where
  "example_ctx = snd (maxrtos_scheduler_enqueue PTR 2 1 (snd (maxrtos_scheduler_enqueue PTR 5 3 empty_ctx)))"

lemma empty_ctx_wf: "ctx_wf empty_ctx"
  by (simp add: ctx_wf_def empty_ctx_def ready_def rq_list_def rq_wf_def)

lemma example_ctx_wf: "ctx_wf example_ctx"
  by code_simp

lemma scheduler_selects_first_witness:
  "maxrtos_scheduler_next PTR PTR example_ctx = (MAXRTOS_OK, Some 2)"
proof -
  have "ready_ids example_ctx = [2, 5]" by code_simp
  with scheduler_selects_first[OF example_ctx_wf] show ?thesis by simp
qed

text \<open>
  C29. Refinement of the ready queues: on a well-formed domain, queuing a process appends it to the
  queue of its priority (or puts it first, for a preempted one), removing it takes its first
  occurrence out, and a full queue refuses it and leaves the domain as it was. All preserve
  well-formedness, the agreement of the mask with the queues included.
\<close>

theorem ready_queue_refinement:
  assumes "ctx_wf ctx" "prio \<le> of_nat MAXRTOS_MAX_PRIORITY"
  defines "q \<equiv> ready ctx (unat prio)"
  shows "(case maxrtos_scheduler_enqueue PTR pid prio ctx of (status, ctx') \<Rightarrow>
      (if length q < MAXRTOS_MAX_READY_PER_PRIORITY
       then status = MAXRTOS_OK \<and> ctx_wf ctx' \<and> ready ctx' = (ready ctx)(unat prio := q @ [pid])
       else status = MAXRTOS_ERR_QUEUE_FULL \<and> ctx' = ctx))
    \<and> (case maxrtos_scheduler_enqueue_front PTR pid prio ctx of (status, ctx') \<Rightarrow>
      (if length q < MAXRTOS_MAX_READY_PER_PRIORITY
       then status = MAXRTOS_OK \<and> ctx_wf ctx' \<and> ready ctx' = (ready ctx)(unat prio := pid # q)
       else status = MAXRTOS_ERR_QUEUE_FULL \<and> ctx' = ctx))
    \<and> (allocated pool pid \<longrightarrow> pcb_state (pool pid) = MAXRTOS_PROCESS_STATE_READY \<longrightarrow>
       pcb_priority (pool pid) = prio \<longrightarrow>
       (case maxrtos_scheduler_remove_process PTR pid pool ctx of (status, ctx') \<Rightarrow>
         status = (if pid \<in> set q then MAXRTOS_OK else MAXRTOS_ERR_NOT_FOUND) \<and> ctx_wf ctx'
         \<and> ready ctx' = (ready ctx)(unat prio := remove1 pid q)))"
proof (intro conjI)
  show "case maxrtos_scheduler_enqueue PTR pid prio ctx of (status, ctx') \<Rightarrow>
      (if length q < MAXRTOS_MAX_READY_PER_PRIORITY
       then status = MAXRTOS_OK \<and> ctx_wf ctx' \<and> ready ctx' = (ready ctx)(unat prio := q @ [pid])
       else status = MAXRTOS_ERR_QUEUE_FULL \<and> ctx' = ctx)"
    using enqueue_ok[OF assms(1,2), of pid] enqueue_full[OF assms(2), of ctx pid]
    by (cases "length q < MAXRTOS_MAX_READY_PER_PRIORITY") (auto simp: q_def)
  show "case maxrtos_scheduler_enqueue_front PTR pid prio ctx of (status, ctx') \<Rightarrow>
      (if length q < MAXRTOS_MAX_READY_PER_PRIORITY
       then status = MAXRTOS_OK \<and> ctx_wf ctx' \<and> ready ctx' = (ready ctx)(unat prio := pid # q)
       else status = MAXRTOS_ERR_QUEUE_FULL \<and> ctx' = ctx)"
    using enqueue_front_ok[OF assms(1,2), of pid] enqueue_front_full[OF assms(2), of ctx pid]
    by (cases "length q < MAXRTOS_MAX_READY_PER_PRIORITY") (auto simp: q_def)
  show "allocated pool pid \<longrightarrow> pcb_state (pool pid) = MAXRTOS_PROCESS_STATE_READY \<longrightarrow>
       pcb_priority (pool pid) = prio \<longrightarrow>
       (case maxrtos_scheduler_remove_process PTR pid pool ctx of (status, ctx') \<Rightarrow>
         status = (if pid \<in> set q then MAXRTOS_OK else MAXRTOS_ERR_NOT_FOUND) \<and> ctx_wf ctx'
         \<and> ready ctx' = (ready ctx)(unat prio := remove1 pid q))"
    using remove_process_ok[OF assms(1), of pool pid] assms(2) by (auto simp: q_def)
qed

lemma ready_queue_refinement_witness:
  "case maxrtos_scheduler_enqueue PTR 7 3 example_ctx of (status, ctx') \<Rightarrow>
     status = MAXRTOS_OK \<and> ready ctx' 3 = [5, 7]"
proof -
  have "ready example_ctx 3 = [5]" by code_simp
  with ready_queue_refinement[OF example_ctx_wf, of 3 7] show ?thesis
    by (auto split: prod.splits)
qed

end
