(* ===== verification/Dispatch.thy ===== *)
theory Dispatch
  imports Scheduler "HOL-Library.Multiset"
begin

text \<open>
  The dispatcher of dispatch.c on one scheduling domain: it turns the choice of the scheduler
  into process states. Its contract is \<open>select_spec\<close>, a function on the abstract ready queues and
  the running process; the detailed code, with its checks and its roll-back, is shown to refine
  it on every consistent domain.
\<close>

definition set_pcb_state :: "u32 \<Rightarrow> maxrtos_process_state \<Rightarrow> pool \<Rightarrow> pool" where
  [op_defs]: "set_pcb_state i st pool = pool(i := (pool i)\<lparr>pcb_state := st\<rparr>)"

definition maxrtos_dispatch_takes_over :: "nat \<Rightarrow> nat \<Rightarrow> bool \<Rightarrow> bool" where
  [op_defs]: "maxrtos_dispatch_takes_over next current yield =
     (if yield then next \<le> current else next < current)"

text \<open>
  \<open>dispatch_switch\<close> is the body of the branch in which the selected process takes over: pop it,
  requeue the outgoing process, or put everything back if that fails.
\<close>

definition dispatch_switch ::
    "pcb option \<Rightarrow> u32 \<Rightarrow> u32 \<Rightarrow> nat \<Rightarrow> bool \<Rightarrow> maxrtos_scheduler_context_t \<Rightarrow> pool \<Rightarrow>
     maxrtos_status \<times> u32 option \<times> maxrtos_scheduler_context_t \<times> pool"
where
  [op_defs]: "dispatch_switch current_pcb current_id next_id next_priority yield ctx pool =
     (let ctx1 = maxrtos_scheduler_pop next_priority ctx in
      case current_pcb of
        None \<Rightarrow> (MAXRTOS_OK, Some next_id, ctx1, set_pcb_state next_id MAXRTOS_PROCESS_STATE_RUNNING pool)
      | Some cur \<Rightarrow>
          let pool1 = set_pcb_state current_id MAXRTOS_PROCESS_STATE_READY pool in
          (case (if yield then maxrtos_scheduler_enqueue PTR current_id (pcb_priority cur) ctx1
                 else maxrtos_scheduler_enqueue_front PTR current_id (pcb_priority cur) ctx1) of
             (status, ctx2) \<Rightarrow>
               if status \<noteq> MAXRTOS_OK
               then (status, None,
                     snd (maxrtos_scheduler_enqueue_front PTR next_id (of_nat next_priority) ctx2),
                     set_pcb_state current_id MAXRTOS_PROCESS_STATE_RUNNING pool1)
               else (MAXRTOS_OK, Some next_id, ctx2,
                     set_pcb_state next_id MAXRTOS_PROCESS_STATE_RUNNING pool1)))"

definition maxrtos_dispatch_select ::
    "ptr \<Rightarrow> u32 \<Rightarrow> ptr \<Rightarrow> bool \<Rightarrow> maxrtos_scheduler_context_t \<Rightarrow> pool \<Rightarrow>
     maxrtos_status \<times> u32 option \<times> maxrtos_scheduler_context_t \<times> pool"
where
  "maxrtos_dispatch_select ctxp current_id outp yield ctx pool =
     (if ctxp \<noteq> NULL \<and> outp \<noteq> NULL then
        let current_pcb = (if current_id \<noteq> MAXRTOS_INVALID_PROCESS_ID
                           then maxrtos_process_get current_id pool else None);
            status = (if current_id \<noteq> MAXRTOS_INVALID_PROCESS_ID then
                        (case current_pcb of
                           None \<Rightarrow> MAXRTOS_ERR_INVALID_ID
                         | Some cur \<Rightarrow> if pcb_state cur \<noteq> MAXRTOS_PROCESS_STATE_RUNNING
                                       then MAXRTOS_ERR_INVALID_STATE else MAXRTOS_OK)
                      else MAXRTOS_OK)
        in
        if status \<noteq> MAXRTOS_OK then (status, None, ctx, pool)
        else if ctx_ready_mask ctx = 0 then
          (case current_pcb of
             Some _ \<Rightarrow> (MAXRTOS_OK, Some current_id, ctx, pool)
           | None \<Rightarrow> (MAXRTOS_ERR_QUEUE_EMPTY, None, ctx, pool))
        else
          let next_priority = maxrtos_scheduler_lowest_set_bit (ctx_ready_mask ctx);
              next_id = rq_items (ctx_queues ctx next_priority) (rq_head (ctx_queues ctx next_priority))
          in
          (case maxrtos_process_get next_id pool of
             None \<Rightarrow> (MAXRTOS_ERR_INVALID_ID, None, ctx, pool)
           | Some next_pcb \<Rightarrow>
               if pcb_state next_pcb \<noteq> MAXRTOS_PROCESS_STATE_READY
               then (MAXRTOS_ERR_INVALID_STATE, None, ctx, pool)
               else
                 (case current_pcb of
                    Some cur \<Rightarrow>
                      if \<not> maxrtos_dispatch_takes_over next_priority (unat (pcb_priority cur)) yield
                      then (MAXRTOS_OK, Some current_id, ctx, pool)
                      else dispatch_switch current_pcb current_id next_id next_priority yield ctx pool
                  | None \<Rightarrow> dispatch_switch current_pcb current_id next_id next_priority yield ctx pool))
      else (MAXRTOS_ERR_INVALID_ARG, None, ctx, pool))"

definition maxrtos_kernel_dispatch ::
    "ptr \<Rightarrow> u32 \<Rightarrow> ptr \<Rightarrow> maxrtos_scheduler_context_t \<Rightarrow> pool \<Rightarrow>
     maxrtos_status \<times> u32 option \<times> maxrtos_scheduler_context_t \<times> pool"
where
  "maxrtos_kernel_dispatch ctxp current_id outp ctx pool =
     maxrtos_dispatch_select ctxp current_id outp False ctx pool"

definition maxrtos_kernel_dispatch_yield ::
    "ptr \<Rightarrow> u32 \<Rightarrow> ptr \<Rightarrow> maxrtos_scheduler_context_t \<Rightarrow> pool \<Rightarrow>
     maxrtos_status \<times> u32 option \<times> maxrtos_scheduler_context_t \<times> pool"
where
  "maxrtos_kernel_dispatch_yield ctxp current_id outp ctx pool =
     maxrtos_dispatch_select ctxp current_id outp True ctx pool"

definition maxrtos_kernel_block_and_dispatch ::
    "ptr \<Rightarrow> u32 \<Rightarrow> ptr \<Rightarrow> maxrtos_scheduler_context_t \<Rightarrow> pool \<Rightarrow>
     maxrtos_status \<times> u32 option \<times> maxrtos_scheduler_context_t \<times> pool"
where
  "maxrtos_kernel_block_and_dispatch ctxp blocking_id outp ctx pool =
     (if ctxp \<noteq> NULL \<and> outp \<noteq> NULL \<and> blocking_id \<noteq> MAXRTOS_INVALID_PROCESS_ID then
        (case maxrtos_process_get blocking_id pool of
           None \<Rightarrow> (MAXRTOS_ERR_INVALID_ID, None, ctx, pool)
         | Some blocking_pcb \<Rightarrow>
             if pcb_state blocking_pcb \<noteq> MAXRTOS_PROCESS_STATE_RUNNING
             then (MAXRTOS_ERR_INVALID_STATE, None, ctx, pool)
             else
               (case maxrtos_scheduler_next PTR PTR ctx of
                  (MAXRTOS_OK, Some next_id) \<Rightarrow>
                    (case maxrtos_process_get next_id pool of
                       None \<Rightarrow> (MAXRTOS_ERR_INVALID_ID, None, ctx, pool)
                     | Some next_pcb \<Rightarrow>
                         if pcb_state next_pcb \<noteq> MAXRTOS_PROCESS_STATE_READY
                         then (MAXRTOS_ERR_INVALID_STATE, None, ctx, pool)
                         else
                           (case maxrtos_scheduler_take_next PTR PTR ctx of
                              (MAXRTOS_OK, Some taken_id, ctx') \<Rightarrow>
                                (MAXRTOS_OK, Some taken_id, ctx',
                                 set_pcb_state next_id MAXRTOS_PROCESS_STATE_RUNNING
                                   (set_pcb_state blocking_id MAXRTOS_PROCESS_STATE_BLOCKED pool))
                            | (status, _, ctx') \<Rightarrow> (status, None, ctx', pool)))
                | (status, _) \<Rightarrow> (status, None, ctx, pool)))
      else (MAXRTOS_ERR_INVALID_ARG, None, ctx, pool))"

subsection \<open>Contract\<close>

text \<open>
  The running process is given as its identifier and priority, the queues as \<open>ready\<close>. A full
  queue of the outgoing priority makes the whole switch fail.
\<close>

definition select_spec ::
    "bool \<Rightarrow> (u32 \<times> nat) option \<Rightarrow> (nat \<Rightarrow> u32 list) \<Rightarrow> maxrtos_status \<times> u32 option \<times> (nat \<Rightarrow> u32 list)"
where
  "select_spec yield running queue =
     (case find (\<lambda>p. queue p \<noteq> []) [0..<MAXRTOS_MAX_PRIORITY + 1] of
        None \<Rightarrow> (case running of None \<Rightarrow> (MAXRTOS_ERR_QUEUE_EMPTY, None, queue)
                 | Some (c, _) \<Rightarrow> (MAXRTOS_OK, Some c, queue))
      | Some p \<Rightarrow>
          let n = hd (queue p); queue1 = queue(p := tl (queue p)) in
          (case running of
             None \<Rightarrow> (MAXRTOS_OK, Some n, queue1)
           | Some (c, cp) \<Rightarrow>
               if (if yield then p \<le> cp else p < cp) then
                 if length (queue1 cp) < MAXRTOS_MAX_READY_PER_PRIORITY
                 then (MAXRTOS_OK, Some n, queue1(cp := if yield then queue1 cp @ [c] else c # queue1 cp))
                 else (MAXRTOS_ERR_QUEUE_FULL, None, queue)
               else (MAXRTOS_OK, Some c, queue)))"

text \<open>A consistent domain: what is queued is allocated, READY, of the queue's priority, once.\<close>

definition domain_ok :: "maxrtos_scheduler_context_t \<Rightarrow> pool \<Rightarrow> bool" where
  "domain_ok ctx pool \<longleftrightarrow> ctx_wf ctx \<and> (\<forall>p \<le> MAXRTOS_MAX_PRIORITY. distinct (ready ctx p)
     \<and> (\<forall>i \<in> set (ready ctx p). allocated pool i \<and> pcb_state (pool i) = MAXRTOS_PROCESS_STATE_READY
          \<and> unat (pcb_priority (pool i)) = p))"

definition running_in :: "u32 \<Rightarrow> pool \<Rightarrow> bool" where
  "running_in c pool \<longleftrightarrow> c = MAXRTOS_INVALID_PROCESS_ID \<or>
     (allocated pool c \<and> pcb_state (pool c) = MAXRTOS_PROCESS_STATE_RUNNING
      \<and> pcb_priority (pool c) \<le> of_nat MAXRTOS_MAX_PRIORITY)"

definition running_of :: "u32 \<Rightarrow> pool \<Rightarrow> (u32 \<times> nat) option" where
  "running_of c pool = (if c = MAXRTOS_INVALID_PROCESS_ID then None else Some (c, unat (pcb_priority (pool c))))"

text \<open>The process states after a selection that answers \<open>out\<close>.\<close>

definition selected_pool :: "u32 \<Rightarrow> u32 option \<Rightarrow> pool \<Rightarrow> pool" where
  "selected_pool c out pool = (case out of None \<Rightarrow> pool | Some n \<Rightarrow>
     if n = c then pool
     else if c = MAXRTOS_INVALID_PROCESS_ID then set_pcb_state n MAXRTOS_PROCESS_STATE_RUNNING pool
     else set_pcb_state n MAXRTOS_PROCESS_STATE_RUNNING (set_pcb_state c MAXRTOS_PROCESS_STATE_READY pool))"

lemma set_pcb_state_simps [simp]:
  "set_pcb_state i st pool j = (if j = i then (pool i)\<lparr>pcb_state := st\<rparr> else pool j)"
  by (simp add: set_pcb_state_def)

lemma set_pcb_state_back:
  "pcb_state (pool i) = st \<Longrightarrow> set_pcb_state i st (set_pcb_state i st' pool) = pool"
  by (rule ext) simp

lemma top_priority_find: "find (\<lambda>p. ready ctx p \<noteq> []) [0..<32] = top_priority ctx"
  by (simp add: top_priority_def)

lemma unat_of_nat_prio: "p \<le> 31 \<Longrightarrow> unat (of_nat p :: u8) = p"
  by (simp add: unsigned_of_nat take_bit_nat_eq_self)

lemma prio_of_nat_le: "p \<le> 31 \<Longrightarrow> (of_nat p :: u8) \<le> of_nat MAXRTOS_MAX_PRIORITY"
  by (simp add: word_le_nat_alt unat_of_nat_prio)

lemma domain_okD:
  assumes "domain_ok ctx pool" "p \<le> 31" "i \<in> set (ready ctx p)"
  shows "allocated pool i" "pcb_state (pool i) = MAXRTOS_PROCESS_STATE_READY" "unat (pcb_priority (pool i)) = p"
  using assms by (auto simp: domain_ok_def)

text \<open>The roll-back: queuing the popped process at the front restores the queues.\<close>

lemma pop_then_front:
  assumes "ctx_wf ctx" "p \<le> 31" "ready ctx p = n # as"
  shows "\<exists>ctx'. maxrtos_scheduler_enqueue_front PTR n (of_nat p) (maxrtos_scheduler_pop p ctx) = (MAXRTOS_OK, ctx')
    \<and> ctx_wf ctx' \<and> ready ctx' = ready ctx"
proof -
  note pop = pop_ok[OF assms]
  have "length as < 8" using ctx_wf_ready_length[OF assms(1,2)] assms(3) by simp
  then show ?thesis
    using enqueue_front_ok[OF pop(2) prio_of_nat_le[OF assms(2)], of n] pop(3) assms(2,3)
    by (auto simp: unat_of_nat_prio fun_upd_idem)
qed

lemma dispatch_switch_refines:
  assumes wf: "ctx_wf ctx" and p: "p \<le> 31" and q: "ready ctx p = n # as"
    and run: "running_in c pool" "c \<noteq> MAXRTOS_INVALID_PROCESS_ID" and ne: "n \<noteq> c"
  defines "cp \<equiv> unat (pcb_priority (pool c))"
  defines "queue1 \<equiv> (ready ctx)(p := as)"
  shows "\<exists>ctx'. ctx_wf ctx' \<and> dispatch_switch (Some (pool c)) c n p yield ctx pool =
     (if length (queue1 cp) < 8 then (MAXRTOS_OK, Some n, ctx', selected_pool c (Some n) pool)
      else (MAXRTOS_ERR_QUEUE_FULL, None, ctx', pool))
    \<and> ready ctx' = (if length (queue1 cp) < 8
         then queue1(cp := if yield then queue1 cp @ [c] else c # queue1 cp) else ready ctx)"
proof -
  note pop = pop_ok[OF wf p q]
  from run have cp: "pcb_priority (pool c) \<le> of_nat MAXRTOS_MAX_PRIORITY"
    and st: "pcb_state (pool c) = MAXRTOS_PROCESS_STATE_RUNNING" by (auto simp: running_in_def)
  let ?ctx1 = "maxrtos_scheduler_pop p ctx"
  have r1: "ready ?ctx1 = queue1" by (simp add: queue1_def pop(3))
  show ?thesis
  proof (cases "length (queue1 cp) < 8")
    case True
    then have "\<exists>ctx'. (if yield then maxrtos_scheduler_enqueue PTR c (pcb_priority (pool c)) ?ctx1
        else maxrtos_scheduler_enqueue_front PTR c (pcb_priority (pool c)) ?ctx1) = (MAXRTOS_OK, ctx')
      \<and> ctx_wf ctx' \<and> ready ctx' = queue1(cp := if yield then queue1 cp @ [c] else c # queue1 cp)"
      using enqueue_ok[OF pop(2) cp, of c] enqueue_front_ok[OF pop(2) cp, of c] by (auto simp: cp_def r1)
    with True run ne show ?thesis
      by (auto simp: dispatch_switch_def Let_def selected_pool_def)
  next
    case False
    then have "(if yield then maxrtos_scheduler_enqueue PTR c (pcb_priority (pool c)) ?ctx1
        else maxrtos_scheduler_enqueue_front PTR c (pcb_priority (pool c)) ?ctx1) = (MAXRTOS_ERR_QUEUE_FULL, ?ctx1)"
      using enqueue_full[OF cp, of ?ctx1 c] enqueue_front_full[OF cp, of ?ctx1 c] by (simp add: cp_def r1)
    with False pop_then_front[OF wf p q] st show ?thesis
      by (auto simp: dispatch_switch_def Let_def set_pcb_state_back)
  qed
qed

lemma dispatch_select_refines:
  assumes ok: "domain_ok ctx pool" and run: "running_in c pool"
    and spec: "select_spec yield (running_of c pool) (ready ctx) = (st, out, queue')"
  shows "\<exists>ctx'. maxrtos_dispatch_select PTR c PTR yield ctx pool = (st, out, ctx', selected_pool c out pool)
    \<and> ctx_wf ctx' \<and> ready ctx' = queue'"
proof -
  from ok have wf: "ctx_wf ctx" by (simp add: domain_ok_def)
  show ?thesis
  proof (cases "top_priority ctx")
    case None
    with mask_zero_iff[OF wf] have "ctx_ready_mask ctx = 0" by simp
    with None run spec wf show ?thesis
      by (auto simp: maxrtos_dispatch_select_def select_spec_def top_priority_find running_in_def running_of_def
        process_get_eq selected_pool_def split: if_splits)
  next
    case (Some p)
    from top_priority_SomeD[OF Some] obtain n as where p: "p \<le> 31" "ready ctx p = n # as"
      by (metis list.exhaust)
    note n = domain_okD[OF ok p(1), of n, simplified p(2), simplified]
    from mask_zero_iff[OF wf] Some have nz: "ctx_ready_mask ctx \<noteq> 0" by simp
    with top_priority_lowest_bit[OF wf] Some
    have low: "maxrtos_scheduler_lowest_set_bit (ctx_ready_mask ctx) = p" by simp
    note pop = pop_ok[OF wf p]
    show ?thesis
    proof (cases "c = MAXRTOS_INVALID_PROCESS_ID")
      case True
      with Some p spec have "st = MAXRTOS_OK" "out = Some n" "queue' = (ready ctx)(p := as)"
        by (simp_all add: select_spec_def top_priority_find running_of_def Let_def)
      moreover have "n \<noteq> MAXRTOS_INVALID_PROCESS_ID" using n(1) by (auto simp: allocated_def)
      ultimately show ?thesis
        using True nz low pop n by (simp add: maxrtos_dispatch_select_def Let_def process_get_eq dispatch_switch_def
          selected_pool_def)
    next
      case False
      with run have c: "allocated pool c" "pcb_state (pool c) = MAXRTOS_PROCESS_STATE_RUNNING"
        by (auto simp: running_in_def)
      with n have ne: "n \<noteq> c" by auto
      have code: "maxrtos_dispatch_select PTR c PTR yield ctx pool =
         (if (if yield then p \<le> unat (pcb_priority (pool c)) else p < unat (pcb_priority (pool c)))
          then dispatch_switch (Some (pool c)) c n p yield ctx pool else (MAXRTOS_OK, Some c, ctx, pool))"
        using False nz low pop(1) n c
        by (simp add: maxrtos_dispatch_select_def Let_def process_get_eq maxrtos_dispatch_takes_over_def)
      show ?thesis
        unfolding code using dispatch_switch_refines[OF wf p run False ne, of yield] Some p spec False wf
        by (auto simp: select_spec_def top_priority_find running_of_def Let_def selected_pool_def split: if_splits)
    qed
  qed
qed

subsection \<open>Consistency is preserved\<close>

lemma domain_okI:
  assumes "ctx_wf ctx"
    and "\<And>p. p \<le> 31 \<Longrightarrow> distinct (ready ctx p)"
    and "\<And>p i. p \<le> 31 \<Longrightarrow> i \<in> set (ready ctx p) \<Longrightarrow> allocated pool i
      \<and> pcb_state (pool i) = MAXRTOS_PROCESS_STATE_READY \<and> unat (pcb_priority (pool i)) = p"
  shows "domain_ok ctx pool"
  using assms by (simp add: domain_ok_def)

lemma allocated_set_state [simp]:
  "st \<noteq> MAXRTOS_PROCESS_STATE_UNUSED \<Longrightarrow>
   allocated (set_pcb_state i st pool) j \<longleftrightarrow> allocated pool j \<or> (j = i \<and> i < of_nat MAXRTOS_MAX_PROCESSES)"
  by (auto simp: allocated_def)

text \<open>Marking one process and re-checking the queues that may hold it.\<close>

lemma domain_ok_start:
  assumes ok: "domain_ok ctx pool" and p: "p \<le> 31" "ready ctx p = n # as"
    and ctx': "ctx_wf ctx'" "ready ctx' = (ready ctx)(p := as)"
  shows "domain_ok ctx' (set_pcb_state n MAXRTOS_PROCESS_STATE_RUNNING pool)"
    and "running_in n (set_pcb_state n MAXRTOS_PROCESS_STATE_RUNNING pool)"
proof -
  note n = domain_okD[OF ok p(1), of n, simplified p(2), simplified]
  have d: "distinct (ready ctx r)" if "r \<le> 31" for r using ok that by (simp add: domain_ok_def)
  have nin: "n \<notin> set (ready ctx' r)" if "r \<le> 31" for r
    using d[OF p(1)] p(2) domain_okD(3)[OF ok that, of n] n(3) by (auto simp: ctx'(2))
  show "domain_ok ctx' (set_pcb_state n MAXRTOS_PROCESS_STATE_RUNNING pool)"
  proof (rule domain_okI[OF ctx'(1)])
    fix r assume r: "r \<le> (31 :: nat)"
    show "distinct (ready ctx' r)" using d[OF r] d[OF p(1)] p(2) by (simp add: ctx'(2))
    fix i assume i: "i \<in> set (ready ctx' r)"
    with nin[OF r] have "i \<noteq> n" by auto
    moreover from i p(2) have "i \<in> set (ready ctx r)" by (auto simp: ctx'(2) split: if_splits)
    ultimately show "allocated (set_pcb_state n MAXRTOS_PROCESS_STATE_RUNNING pool) i
        \<and> pcb_state (set_pcb_state n MAXRTOS_PROCESS_STATE_RUNNING pool i) = MAXRTOS_PROCESS_STATE_READY
        \<and> unat (pcb_priority (set_pcb_state n MAXRTOS_PROCESS_STATE_RUNNING pool i)) = r"
      using domain_okD[OF ok r] by simp
  qed
  show "running_in n (set_pcb_state n MAXRTOS_PROCESS_STATE_RUNNING pool)"
    using n p(1) by (simp add: running_in_def prio_le_31 word_le_nat_alt)
qed

lemma domain_ok_add:
  assumes ok: "domain_ok ctx pool" and c: "allocated pool c" "pcb_state (pool c) \<noteq> MAXRTOS_PROCESS_STATE_READY"
    and cp: "unat (pcb_priority (pool c)) = cp" "cp \<le> 31"
    and ctx': "ctx_wf ctx'" "ready ctx' = (ready ctx)(cp := as)" "mset as = mset (c # ready ctx cp)"
  shows "domain_ok ctx' (set_pcb_state c MAXRTOS_PROCESS_STATE_READY pool)"
proof -
  have as: "set as = insert c (set (ready ctx cp))" using ctx'(3) by (metis list.simps(15) set_mset_mset)
  have nin: "c \<notin> set (ready ctx r)" if "r \<le> 31" for r
    using domain_okD(2)[OF ok that] c(2) by auto
  have "distinct as \<longleftrightarrow> distinct (c # ready ctx cp)"
    using ctx'(3) by (metis mset_eq_imp_distinct_iff)
  then show ?thesis
    using nin ok as cp c ctx'
    by (intro domain_okI) (auto simp: domain_ok_def split: if_splits)
qed

lemma domain_ok_cong:
  "domain_ok ctx pool \<Longrightarrow> ctx_wf ctx' \<Longrightarrow> ready ctx' = ready ctx \<Longrightarrow> domain_ok ctx' pool"
  by (simp add: domain_ok_def)

lemma set_pcb_state_commute:
  "i \<noteq> j \<Longrightarrow> set_pcb_state i s (set_pcb_state j t pool) = set_pcb_state j t (set_pcb_state i s pool)"
  by (rule ext) simp

lemma select_spec_preserves:
  assumes ok: "domain_ok ctx pool" and run: "running_in c pool"
    and spec: "select_spec yield (running_of c pool) (ready ctx) = (st, out, queue')"
    and ctx': "ctx_wf ctx'" "ready ctx' = queue'"
  shows "domain_ok ctx' (selected_pool c out pool)
    \<and> running_in (case out of None \<Rightarrow> c | Some n \<Rightarrow> n) (selected_pool c out pool)
    \<and> (st = MAXRTOS_OK \<longleftrightarrow> out \<noteq> None)"
proof (cases "top_priority ctx")
  case None
  with spec ctx' domain_ok_cong[OF ok ctx'(1)] run show ?thesis
    by (auto simp: select_spec_def top_priority_find running_of_def selected_pool_def split: if_splits)
next
  case (Some p)
  from top_priority_SomeD[OF Some] obtain n as where p: "p \<le> 31" "ready ctx p = n # as"
    by (metis list.exhaust)
  note n = domain_okD[OF ok p(1), of n, simplified p(2), simplified]
  from n(1) have nv: "n \<noteq> MAXRTOS_INVALID_PROCESS_ID" by (auto simp: allocated_def)
  from ok have wf: "ctx_wf ctx" by (simp add: domain_ok_def)
  note pop = pop_ok[OF wf p]
  note start = domain_ok_start[OF ok p]
  show ?thesis
  proof (cases "c = MAXRTOS_INVALID_PROCESS_ID")
    case True
    with Some p spec ctx' start[OF ctx'(1)] nv show ?thesis
      by (simp add: select_spec_def top_priority_find running_of_def Let_def) (auto simp: selected_pool_def)
  next
    case False
    with run have c: "allocated pool c" "pcb_state (pool c) = MAXRTOS_PROCESS_STATE_RUNNING"
      "unat (pcb_priority (pool c)) \<le> 31" by (auto simp: running_in_def word_le_nat_alt)
    let ?cp = "unat (pcb_priority (pool c))"
    let ?queue1 = "(ready ctx)(p := as)"
    from n(2) c(2) have ne: "n \<noteq> c" by auto
    from spec Some p False consider
      (keep) "st = MAXRTOS_OK" "out = Some c" "queue' = ready ctx"
      | (full) "st = MAXRTOS_ERR_QUEUE_FULL" "out = None" "queue' = ready ctx"
      | (switch) "st = MAXRTOS_OK" "out = Some n"
          "queue' = ?queue1(?cp := if yield then ?queue1 ?cp @ [c] else c # ?queue1 ?cp)"
      by (auto simp: select_spec_def top_priority_find running_of_def Let_def split: if_splits)
    then show ?thesis
    proof cases
      case keep
      with ctx' domain_ok_cong[OF ok ctx'(1)] run show ?thesis by (simp add: selected_pool_def)
    next
      case full
      with ctx' domain_ok_cong[OF ok ctx'(1)] run show ?thesis by (simp add: selected_pool_def)
    next
      case switch
      let ?pool1 = "set_pcb_state n MAXRTOS_PROCESS_STATE_RUNNING pool"
      note started = start[OF pop(2,3)]
      have "domain_ok ctx' (set_pcb_state c MAXRTOS_PROCESS_STATE_READY ?pool1)"
        using c ne pop(3) switch(3) ctx' n
        by (intro domain_ok_add[OF started(1), where cp = ?cp and as = "queue' ?cp"]) auto
      moreover have "running_in n (set_pcb_state c MAXRTOS_PROCESS_STATE_READY ?pool1)"
        using started(2) ne nv c by (auto simp: running_in_def)
      ultimately show ?thesis
        using switch False ne by (simp add: selected_pool_def set_pcb_state_commute[of n c])
    qed
  qed
qed

lemma block_and_dispatch_eq:
  assumes ok: "domain_ok ctx pool" and b: "allocated pool b" "pcb_state (pool b) = MAXRTOS_PROCESS_STATE_RUNNING"
  shows "maxrtos_kernel_block_and_dispatch PTR b PTR ctx pool = (case top_priority ctx of
      None \<Rightarrow> (MAXRTOS_ERR_QUEUE_EMPTY, None, ctx, pool)
    | Some p \<Rightarrow> (MAXRTOS_OK, Some (hd (ready ctx p)), maxrtos_scheduler_pop p ctx,
        set_pcb_state (hd (ready ctx p)) MAXRTOS_PROCESS_STATE_RUNNING
          (set_pcb_state b MAXRTOS_PROCESS_STATE_BLOCKED pool)))"
proof -
  from b have bv: "b \<noteq> MAXRTOS_INVALID_PROCESS_ID" by (auto simp: allocated_def)
  from ok have wf: "ctx_wf ctx" by (simp add: domain_ok_def)
  show ?thesis
  proof (cases "top_priority ctx")
    case None
    with b bv wf show ?thesis
      by (simp add: maxrtos_kernel_block_and_dispatch_def process_get_eq scheduler_next_eq)
  next
    case (Some p)
    from top_priority_SomeD[OF Some] have "p \<le> 31" "hd (ready ctx p) \<in> set (ready ctx p)" by auto
    from domain_okD[OF ok this] b bv wf Some show ?thesis
      by (simp add: maxrtos_kernel_block_and_dispatch_def process_get_eq scheduler_next_eq take_next_eq)
  qed
qed

text \<open>
  C14. Refinement of the dispatcher: on a consistent domain whose current process is RUNNING (or
  unset), preemptive dispatch and yield compute exactly the contract \<open>select_spec\<close> on the abstract
  queues, roll-back included, change process states only as the answer says, and leave a
  consistent domain with the selected process RUNNING.
\<close>

theorem dispatch_refines_contract:
  assumes "domain_ok ctx pool" "running_in c pool"
  shows "case (if yield then maxrtos_kernel_dispatch_yield PTR c PTR ctx pool
               else maxrtos_kernel_dispatch PTR c PTR ctx pool) of (status, out, ctx', pool') \<Rightarrow>
    (status, out, ready ctx') = select_spec yield (running_of c pool) (ready ctx)
    \<and> pool' = selected_pool c out pool \<and> domain_ok ctx' pool'
    \<and> running_in (case out of None \<Rightarrow> c | Some n \<Rightarrow> n) pool'"
proof -
  obtain st out queue' where spec: "select_spec yield (running_of c pool) (ready ctx) = (st, out, queue')"
    by (metis prod.exhaust)
  from dispatch_select_refines[OF assms spec] obtain ctx' where ctx':
    "maxrtos_dispatch_select PTR c PTR yield ctx pool = (st, out, ctx', selected_pool c out pool)"
    "ctx_wf ctx'" "ready ctx' = queue'" by blast
  with select_spec_preserves[OF assms spec ctx'(2,3)] spec show ?thesis
    by (cases yield) (simp_all add: maxrtos_kernel_dispatch_yield_def maxrtos_kernel_dispatch_def)
qed

lemma not_allocated_invalid [simp]: "\<not> allocated pool MAXRTOS_INVALID_PROCESS_ID"
  by (simp add: allocated_def)

lemma list_all_prios: "list_all P [0..<32] \<longleftrightarrow> (\<forall>p \<le> MAXRTOS_MAX_PRIORITY. P p)"
  by (auto simp: list_all_iff simp del: upt_Suc)

lemma domain_ok_code [code]:
  "domain_ok ctx pool \<longleftrightarrow> ctx_wf ctx \<and> list_all (\<lambda>p. distinct (ready ctx p) \<and>
     list_all (\<lambda>i. allocated pool i \<and> pcb_state (pool i) = MAXRTOS_PROCESS_STATE_READY
        \<and> unat (pcb_priority (pool i)) = p) (ready ctx p)) [0..<32]"
  unfolding list_all_prios by (simp add: domain_ok_def Ball_set)

text \<open>Process 2 READY at priority 1, process 5 READY at 3, process 9 RUNNING at 3.\<close>

definition example_pool :: pool where
  "example_pool = (\<lambda>i. (if i = 2 then example_pcb MAXRTOS_PROCESS_STATE_READY 1
     else if i = 5 then example_pcb MAXRTOS_PROCESS_STATE_READY 3
     else if i = 9 then example_pcb MAXRTOS_PROCESS_STATE_RUNNING 3
     else example_pcb MAXRTOS_PROCESS_STATE_UNUSED 0)\<lparr>pcb_id := i\<rparr>)"

lemma example_domain_ok: "domain_ok example_ctx example_pool"
  by code_simp

lemma example_running: "running_in 9 example_pool"
  by code_simp

lemma dispatch_refines_contract_witness:
  "case maxrtos_kernel_dispatch PTR 9 PTR example_ctx example_pool of (status, out, ctx', pool') \<Rightarrow>
    status = MAXRTOS_OK \<and> out = Some 2 \<and> ready ctx' 3 = [9, 5] \<and> domain_ok ctx' pool'"
proof -
  have "fst (select_spec False (running_of 9 example_pool) (ready example_ctx)) = MAXRTOS_OK
    \<and> fst (snd (select_spec False (running_of 9 example_pool) (ready example_ctx))) = Some 2
    \<and> snd (snd (select_spec False (running_of 9 example_pool) (ready example_ctx))) 3 = [9, 5]"
    by code_simp
  then show ?thesis
    using dispatch_refines_contract[OF example_domain_ok example_running, of False]
    by (cases "select_spec False (running_of 9 example_pool) (ready example_ctx)") (auto split: prod.splits)
qed

text \<open>The ways a successful selection can end.\<close>

lemma select_outcome:
  assumes ok: "domain_ok ctx pool" and run: "running_in c pool"
    and spec: "select_spec yield (running_of c pool) (ready ctx) = (MAXRTOS_OK, out, queue')"
  obtains (keep) "out = Some c" "c \<noteq> MAXRTOS_INVALID_PROCESS_ID" "queue' = ready ctx"
      "\<forall>r < unat (pcb_priority (pool c)). ready ctx r = []"
    | (start) p n as where "c = MAXRTOS_INVALID_PROCESS_ID" "top_priority ctx = Some p" "ready ctx p = n # as"
      "out = Some n" "queue' = (ready ctx)(p := as)"
    | (switch) p n as where "c \<noteq> MAXRTOS_INVALID_PROCESS_ID" "top_priority ctx = Some p" "ready ctx p = n # as"
      "out = Some n" "p \<le> unat (pcb_priority (pool c))" "\<not> yield \<longrightarrow> p < unat (pcb_priority (pool c))"
      "queue' = (let queue1 = (ready ctx)(p := as); cp = unat (pcb_priority (pool c))
         in queue1(cp := if yield then queue1 cp @ [c] else c # queue1 cp))"
proof (cases "top_priority ctx")
  case None
  then have "\<forall>r \<le> 31. ready ctx r = []" by (auto simp: top_priority_def find_None_iff simp del: upt_Suc)
  with None spec run keep show ?thesis
    by (auto simp: select_spec_def top_priority_find running_of_def running_in_def word_le_nat_alt split: if_splits)
next
  case (Some p)
  from top_priority_SomeD[OF Some] obtain n as where p: "p \<le> 31" "ready ctx p = n # as" "\<forall>j<p. ready ctx j = []"
    by (metis list.exhaust)
  show ?thesis
  proof (cases "c = MAXRTOS_INVALID_PROCESS_ID")
    case True
    with Some p spec show ?thesis
      by (intro start[of p n as]) (auto simp: select_spec_def top_priority_find running_of_def Let_def)
  next
    case False
    let ?cp = "unat (pcb_priority (pool c))"
    show ?thesis
    proof (cases "if yield then p \<le> ?cp else p < ?cp")
      case True
      with Some p spec False show ?thesis
        by (intro switch[of p n as])
          (auto simp: select_spec_def top_priority_find running_of_def Let_def split: if_splits)
    next
      case keeps: False
      then have "\<forall>r < ?cp. ready ctx r = []" using p(3) by (auto split: if_splits)
      with keeps Some p spec False show ?thesis
        by (intro keep) (simp_all add: select_spec_def top_priority_find running_of_def Let_def)
    qed
  qed
qed

text \<open>
  Strict fixed-priority dispatch: after a successful dispatch or yield on a consistent domain
  the selected process is RUNNING and no READY process of the domain has a strictly higher
  priority; a dispatch that changes the running process does so only for a strictly higher
  priority, and leaves the preempted process at the head of its queue.
\<close>

lemma dispatch_strict_priority:
  assumes "domain_ok ctx pool" "running_in c pool"
  shows "case (if yield then maxrtos_kernel_dispatch_yield PTR c PTR ctx pool
               else maxrtos_kernel_dispatch PTR c PTR ctx pool) of (status, out, ctx', pool') \<Rightarrow>
    status = MAXRTOS_OK \<longrightarrow> (\<exists>n. out = Some n
      \<and> pcb_state (pool' n) = MAXRTOS_PROCESS_STATE_RUNNING
      \<and> (\<forall>p < unat (pcb_priority (pool' n)). ready ctx' p = [])
      \<and> (n \<noteq> c \<and> c \<noteq> MAXRTOS_INVALID_PROCESS_ID \<and> \<not> yield \<longrightarrow>
          pcb_priority (pool n) < pcb_priority (pool c)
          \<and> hd (ready ctx' (unat (pcb_priority (pool c)))) = c))"
proof -
  obtain st out queue' where spec: "select_spec yield (running_of c pool) (ready ctx) = (st, out, queue')"
    by (metis prod.exhaust)
  from dispatch_select_refines[OF assms spec] obtain ctx' where ctx':
    "maxrtos_dispatch_select PTR c PTR yield ctx pool = (st, out, ctx', selected_pool c out pool)"
    "ctx_wf ctx'" "ready ctx' = queue'" by blast
  note pres = select_spec_preserves[OF assms spec ctx'(2,3)]
  have code: "(if yield then maxrtos_kernel_dispatch_yield PTR c PTR ctx pool
      else maxrtos_kernel_dispatch PTR c PTR ctx pool) = (st, out, ctx', selected_pool c out pool)"
    using ctx'(1) by (cases yield) (simp_all add: maxrtos_kernel_dispatch_yield_def maxrtos_kernel_dispatch_def)
  show ?thesis
    unfolding code prod.case
  proof
    assume "st = MAXRTOS_OK"
    with spec have "select_spec yield (running_of c pool) (ready ctx) = (MAXRTOS_OK, out, queue')" by simp
    from assms this show "\<exists>n. out = Some n \<and> pcb_state (selected_pool c out pool n) = MAXRTOS_PROCESS_STATE_RUNNING
      \<and> (\<forall>p < unat (pcb_priority (selected_pool c out pool n)). ready ctx' p = [])
      \<and> (n \<noteq> c \<and> c \<noteq> MAXRTOS_INVALID_PROCESS_ID \<and> \<not> yield \<longrightarrow>
          pcb_priority (pool n) < pcb_priority (pool c)
          \<and> hd (ready ctx' (unat (pcb_priority (pool c)))) = c)"
    proof (cases rule: select_outcome)
      case keep
      with assms(2) ctx'(3) show ?thesis by (auto simp: selected_pool_def running_in_def)
    next
      case (start p n as)
      with top_priority_SomeD[of ctx p] domain_okD[OF assms(1), of p n] ctx'(3) show ?thesis
        by (auto simp: selected_pool_def)
    next
      case (switch p n as)
      with top_priority_SomeD[of ctx p] domain_okD[OF assms(1), of p n] ctx'(3) assms(2) show ?thesis
        by (auto simp: selected_pool_def Let_def running_in_def word_less_nat_alt)
    qed
  qed
qed

lemma dispatch_strict_priority_witness:
  "case maxrtos_kernel_dispatch PTR 9 PTR example_ctx example_pool of (status, out, ctx', pool') \<Rightarrow>
    status = MAXRTOS_OK \<and> (\<exists>n. out = Some n \<and> pcb_state (pool' n) = MAXRTOS_PROCESS_STATE_RUNNING)"
proof -
  have "fst (maxrtos_kernel_dispatch PTR 9 PTR example_ctx example_pool) = MAXRTOS_OK" by code_simp
  then show ?thesis
    using dispatch_strict_priority[OF example_domain_ok example_running, of False]
    by (auto split: prod.splits)
qed

subsection \<open>Round robin by yielding\<close>

primrec yield_times :: "nat \<Rightarrow> maxrtos_scheduler_context_t \<Rightarrow> u32 \<Rightarrow> pool \<Rightarrow> maxrtos_scheduler_context_t \<times> u32 \<times> pool"
where
  "yield_times 0 ctx c pool = (ctx, c, pool)"
| "yield_times (Suc k) ctx c pool =
     (case maxrtos_kernel_dispatch_yield PTR c PTR ctx pool of
        (_, Some n, ctx', pool') \<Rightarrow> yield_times k ctx' n pool'
      | (_, None, ctx', pool') \<Rightarrow> (ctx', c, pool'))"

lemma yield_rotates:
  assumes ok: "domain_ok ctx pool" and run: "running_in c pool" "c \<noteq> MAXRTOS_INVALID_PROCESS_ID"
    and top: "\<forall>r < unat (pcb_priority (pool c)). ready ctx r = []"
  obtains n ctx' pool' where "maxrtos_kernel_dispatch_yield PTR c PTR ctx pool = (MAXRTOS_OK, Some n, ctx', pool')"
    and "domain_ok ctx' pool'" "running_in n pool'" "n \<noteq> MAXRTOS_INVALID_PROCESS_ID"
    and "pcb_priority (pool' n) = pcb_priority (pool c)"
    and "\<forall>r < unat (pcb_priority (pool c)). ready ctx' r = []"
    and "n # ready ctx' (unat (pcb_priority (pool c))) = rotate1 (c # ready ctx (unat (pcb_priority (pool c))))"
proof -
  let ?cp = "unat (pcb_priority (pool c))"
  from ok have wf: "ctx_wf ctx" by (simp add: domain_ok_def)
  from run have cp: "?cp \<le> 31" by (auto simp: running_in_def word_le_nat_alt)
  obtain st out queue' where spec: "select_spec True (running_of c pool) (ready ctx) = (st, out, queue')"
    by (metis prod.exhaust)
  from dispatch_select_refines[OF ok run(1) spec] obtain ctx' where code:
    "maxrtos_kernel_dispatch_yield PTR c PTR ctx pool = (st, out, ctx', selected_pool c out pool)"
    and ctx': "ctx_wf ctx'" "ready ctx' = queue'"
    by (auto simp: maxrtos_kernel_dispatch_yield_def)
  note pres = select_spec_preserves[OF ok run(1) spec ctx']
  show thesis
  proof (cases "ready ctx ?cp")
    case Nil
    have "st = MAXRTOS_OK \<and> out = Some c \<and> queue' = ready ctx"
    proof (cases "top_priority ctx")
      case None
      with spec run show ?thesis by (simp add: select_spec_def top_priority_find running_of_def)
    next
      case (Some p)
      with top_priority_SomeD[OF Some] top Nil have "\<not> p \<le> ?cp" by (metis le_eq_less_or_eq)
      with Some spec run show ?thesis by (simp add: select_spec_def top_priority_find running_of_def Let_def)
    qed
    with code pres ctx' run top Nil that[of c ctx' "selected_pool c out pool"] show thesis
      by (simp add: selected_pool_def)
  next
    case (Cons n as)
    have tp: "top_priority ctx = Some ?cp"
      using cp Cons top by (intro top_priority_SomeI) auto
    have len: "length as < 8" using ctx_wf_ready_length[OF wf cp] Cons by simp
    note n = domain_okD[OF ok cp, of n, simplified Cons, simplified]
    have "st = MAXRTOS_OK \<and> out = Some n \<and> queue' = (ready ctx)(?cp := as @ [c])"
      using spec run tp Cons len by (simp add: select_spec_def top_priority_find running_of_def Let_def)
    moreover have "n \<noteq> MAXRTOS_INVALID_PROCESS_ID" using n(1) by auto
    moreover have "pcb_priority (pool n) = pcb_priority (pool c)" using n(3) by (simp add: word_unat_eq_iff)
    ultimately show thesis
      using code pres ctx' run top Cons that[of n ctx' "selected_pool c out pool"]
      by (simp add: selected_pool_def)
  qed
qed

lemma yield_times_rotates:
  assumes "domain_ok ctx pool" "running_in c pool" "c \<noteq> MAXRTOS_INVALID_PROCESS_ID"
    "\<forall>r < unat (pcb_priority (pool c)). ready ctx r = []"
  shows "case yield_times k ctx c pool of (ctx', c', pool') \<Rightarrow> domain_ok ctx' pool' \<and> running_in c' pool'
    \<and> c' # ready ctx' (unat (pcb_priority (pool c))) = rotate k (c # ready ctx (unat (pcb_priority (pool c))))"
  using assms
proof (induction k arbitrary: ctx c pool)
  case 0
  then show ?case by simp
next
  case (Suc k)
  from Suc.prems obtain n ctx' pool' where y:
    "maxrtos_kernel_dispatch_yield PTR c PTR ctx pool = (MAXRTOS_OK, Some n, ctx', pool')"
    "domain_ok ctx' pool'" "running_in n pool'" "n \<noteq> MAXRTOS_INVALID_PROCESS_ID"
    "pcb_priority (pool' n) = pcb_priority (pool c)"
    "\<forall>r < unat (pcb_priority (pool c)). ready ctx' r = []"
    "n # ready ctx' (unat (pcb_priority (pool c))) = rotate1 (c # ready ctx (unat (pcb_priority (pool c))))"
    by (rule yield_rotates)
  from Suc.IH[OF y(2-4)] y show ?case by (simp add: rotate1_rotate_swap split: prod.splits)
qed

text \<open>
  C30. Fair yielding: when the running process has no READY process above it, repeated yields
  rotate the list of the running process and its equal-priority peers, so every peer gets the
  CPU after at most as many yields as there are peers.
\<close>

theorem yield_round_robin:
  assumes "domain_ok ctx pool" "running_in c pool" "c \<noteq> MAXRTOS_INVALID_PROCESS_ID"
    and "\<forall>r < unat (pcb_priority (pool c)). ready ctx r = []"
  defines "peers \<equiv> ready ctx (unat (pcb_priority (pool c)))"
  shows "\<forall>i \<in> set peers. \<exists>k \<le> length peers. case yield_times k ctx c pool of (ctx', c', pool') \<Rightarrow>
    c' = i \<and> pcb_state (pool' i) = MAXRTOS_PROCESS_STATE_RUNNING
    \<and> c' # ready ctx' (unat (pcb_priority (pool c))) = rotate k (c # peers)"
proof
  fix i assume i: "i \<in> set peers"
  then obtain j where j: "j < length peers" "peers ! j = i" by (auto simp: in_set_conv_nth)
  obtain ctx' c' pool' where y: "yield_times (Suc j) ctx c pool = (ctx', c', pool')" by (metis prod.exhaust)
  with yield_times_rotates[OF assms(1-4), of "Suc j"]
  have r: "running_in c' pool'" "c' # ready ctx' (unat (pcb_priority (pool c))) = rotate (Suc j) (c # peers)"
    by (simp_all add: peers_def)
  have "hd (rotate (Suc j) (c # peers)) = (c # peers) ! (Suc j mod length (c # peers))"
    by (intro hd_rotate_conv_nth) simp
  with r(2) j have "c' = i" by (metis length_Cons list.sel(1) mod_less nth_Cons_Suc Suc_less_eq)
  moreover have "i \<in> set (ready ctx (unat (pcb_priority (pool c))))" using i by (simp add: peers_def)
  then have "i \<noteq> MAXRTOS_INVALID_PROCESS_ID"
    using domain_okD(1)[OF assms(1), of "unat (pcb_priority (pool c))" i] assms(2,3)
    by (auto simp: running_in_def word_le_nat_alt)
  ultimately show "\<exists>k \<le> length peers. case yield_times k ctx c pool of (ctx', c', pool') \<Rightarrow>
    c' = i \<and> pcb_state (pool' i) = MAXRTOS_PROCESS_STATE_RUNNING
    \<and> c' # ready ctx' (unat (pcb_priority (pool c))) = rotate k (c # peers)"
    using j(1) y r by (intro exI[of _ "Suc j"]) (auto simp: running_in_def)
qed

text \<open>Process 9 runs alone above process 5 at the same priority; one yield hands over to 5.\<close>

definition example_ctx_peers :: maxrtos_scheduler_context_t where
  "example_ctx_peers = snd (maxrtos_scheduler_enqueue PTR 5 3 empty_ctx)"

lemma yield_round_robin_witness:
  "\<exists>k \<le> 1. case yield_times k example_ctx_peers 9 example_pool of (ctx', c', pool') \<Rightarrow>
    c' = 5 \<and> pcb_state (pool' 5) = MAXRTOS_PROCESS_STATE_RUNNING"
proof -
  have ok: "domain_ok example_ctx_peers example_pool" by code_simp
  have "list_all (\<lambda>r. ready example_ctx_peers r = []) [0..<3]" by code_simp
  then have top: "\<forall>r < unat (pcb_priority (example_pool 9)). ready example_ctx_peers r = []"
    by (auto simp: list_all_iff example_pool_def example_pcb_def)
  have p: "ready example_ctx_peers (unat (pcb_priority (example_pool 9))) = [5]" by code_simp
  from yield_round_robin[OF ok example_running _ top] show ?thesis
    unfolding p by (auto split: prod.splits)
qed

end
