(* ===== verification/Memory.thy ===== *)
theory Memory
  imports Prelude
begin

text \<open>
  The byte-addressed memory that message storage, process stacks and the buffers of callers live
  in: a function from 32-bit addresses to bytes, with address arithmetic modulo \<open>2 ^ 32\<close>.
  \<open>memcpy\<close> reads its source before it writes (the C library call is only defined where the two
  do not overlap, and there this is its behaviour).
\<close>

type_synonym memory = "u32 \<Rightarrow> u8"

definition mem_read :: "memory \<Rightarrow> u32 \<Rightarrow> nat \<Rightarrow> u8 list" where
  "mem_read m a n = map (\<lambda>i. m (a + word_of_nat i)) [0..<n]"

definition mem_write :: "memory \<Rightarrow> u32 \<Rightarrow> u8 list \<Rightarrow> memory" where
  "mem_write m a bs = (\<lambda>x. if unat (x - a) < length bs then bs ! unat (x - a) else m x)"

definition memcpy :: "memory \<Rightarrow> u32 \<Rightarrow> u32 \<Rightarrow> u32 \<Rightarrow> memory" where
  "memcpy m dst src n = mem_write m dst (mem_read m src (unat n))"

text \<open>\<open>apart a n b k\<close>: no byte of the \<open>n\<close> at \<open>a\<close> is one of the \<open>k\<close> at \<open>b\<close>.\<close>

definition apart :: "u32 \<Rightarrow> nat \<Rightarrow> u32 \<Rightarrow> nat \<Rightarrow> bool" where
  "apart a n b k \<longleftrightarrow> (\<forall>i<n. k \<le> unat (a + word_of_nat i - b))"

lemma length_mem_read [simp]: "length (mem_read m a n) = n"
  by (simp add: mem_read_def)

lemma mem_read_write_same:
  assumes "length bs \<le> 2 ^ 32"
  shows "mem_read (mem_write m a bs) a (length bs) = bs"
proof (rule nth_equalityI)
  fix i assume "i < length (mem_read (mem_write m a bs) a (length bs))"
  then have i: "i < length bs" by simp
  with assms have "unat (word_of_nat i :: u32) = i" by (intro unat_word_of_nat_32) simp
  with i show "mem_read (mem_write m a bs) a (length bs) ! i = bs ! i"
    by (simp add: mem_read_def mem_write_def)
qed simp

lemma mem_read_write_apart:
  "apart a n b (length bs) \<Longrightarrow> mem_read (mem_write m b bs) a n = mem_read m a n"
  by (auto simp: mem_read_def mem_write_def apart_def not_less[symmetric])

lemma memcpy_read_dst:
  "mem_read (memcpy m dst src n) dst (unat n) = mem_read m src (unat n)"
  using mem_read_write_same[of "mem_read m src (unat n)" m dst] unat_less_32[of n]
  by (simp add: memcpy_def)

lemma memcpy_read_apart:
  "apart a k dst (unat n) \<Longrightarrow> mem_read (memcpy m dst src n) a k = mem_read m a k"
  by (simp add: memcpy_def mem_read_write_apart)

lemma memcpy_outside:
  "unat n \<le> unat (x - dst) \<Longrightarrow> memcpy m dst src n x = m x"
  by (simp add: memcpy_def mem_write_def)

text \<open>Distance of two addresses given as offsets from a common base.\<close>

lemma unat_diff_of_nat:
  assumes "x < 2 ^ 32" "y < 2 ^ 32"
  shows "unat (word_of_nat x - word_of_nat y :: u32) = (if y \<le> x then x - y else 2 ^ 32 + x - y)"
proof (cases "y \<le> x")
  case True
  then have "(word_of_nat x - word_of_nat y :: u32) = word_of_nat (x - y)" by (simp only: of_nat_diff)
  with True assms show ?thesis by (simp only: unat_word_of_nat_32 if_True)
next
  case False
  have z: "(word_of_nat (2 ^ 32) :: u32) = 0" by simp
  have "(word_of_nat x - word_of_nat y :: u32) = word_of_nat (2 ^ 32) + word_of_nat x - word_of_nat y"
    unfolding z by simp
  also have "\<dots> = word_of_nat (2 ^ 32 + x) - word_of_nat y"
    by (simp only: of_nat_add)
  also have "\<dots> = word_of_nat (2 ^ 32 + x - y)"
    using False assms by (intro of_nat_diff[symmetric]) simp
  finally have "(word_of_nat x - word_of_nat y :: u32) = word_of_nat (2 ^ 32 + x - y)" .
  moreover have "2 ^ 32 + x - y < (2 ^ 32 :: nat)" using False by simp
  ultimately show ?thesis using False by (simp only: unat_word_of_nat_32 if_False)
qed

text \<open>Slots of equal size in one storage area do not overlap.\<close>

lemma slots_apart:
  assumes "i < cap" "j < cap" "i \<noteq> j" "ms * cap < 2 ^ 32"
  shows "apart (base + word_of_nat (i * ms)) ms (base + word_of_nat (j * ms)) ms"
  unfolding apart_def
proof (intro allI impI)
  fix k assume k: "k < ms"
  have ib: "i * ms + ms \<le> ms * cap" and jb: "j * ms + ms \<le> ms * cap"
    using assms(1,2) mult_le_mono1[of "Suc i" cap ms] mult_le_mono1[of "Suc j" cap ms]
    by (simp_all add: mult.commute)
  have "base + word_of_nat (i * ms) + word_of_nat k - (base + word_of_nat (j * ms))
      = (word_of_nat (i * ms + k) - word_of_nat (j * ms) :: u32)"
    by (simp only: of_nat_add) simp
  moreover have "ms \<le> (if j * ms \<le> i * ms + k then i * ms + k - j * ms
      else 2 ^ 32 + (i * ms + k) - j * ms)"
  proof (cases "j < i")
    case True
    then have "j * ms + ms \<le> i * ms" using mult_le_mono1[of "Suc j" i ms] by simp
    then show ?thesis by simp
  next
    case False
    with assms(3) have "i * ms + ms \<le> j * ms" using mult_le_mono1[of "Suc i" j ms] by simp
    with k jb assms(4) show ?thesis by simp
  qed
  ultimately show "ms \<le> unat (base + word_of_nat (i * ms) + word_of_nat k - (base + word_of_nat (j * ms)))"
    using unat_diff_of_nat[of "i * ms + k" "j * ms"] k ib jb assms(4) by (simp only:)
qed

text \<open>A slot lies inside its storage area.\<close>

lemma apart_slot:
  assumes "apart a n base (ms * cap)" "j < cap" "ms * cap < 2 ^ 32"
  shows "apart a n (base + word_of_nat (j * ms)) ms"
  unfolding apart_def
proof (intro allI impI)
  fix i assume "i < n"
  with assms(1) have far: "ms * cap \<le> unat (a + word_of_nat i - base)" by (simp add: apart_def)
  have jb: "j * ms + ms \<le> ms * cap"
    using assms(2) mult_le_mono1[of "Suc j" cap ms] by (simp add: mult.commute)
  define d where "d = unat (a + word_of_nat i - base)"
  have d: "d < 2 ^ 32" "a + word_of_nat i - base = word_of_nat d"
    using unat_less_32[of "a + word_of_nat i - base"] by (simp_all add: d_def)
  have "a + word_of_nat i - (base + word_of_nat (j * ms)) = word_of_nat d - word_of_nat (j * ms)"
    using d(2) by (simp add: algebra_simps)
  then show "ms \<le> unat (a + word_of_nat i - (base + word_of_nat (j * ms)))"
    using unat_diff_of_nat[OF d(1), of "j * ms"] jb far assms(3) by (simp only: d_def) simp
qed

end
