(* ===== verification/Fifo.thy ===== *)
theory Fifo
  imports Queue_Contract Memory
begin

text \<open>
  The bounded message FIFO of fifo.c over caller-provided storage. Sizes are 32-bit words, as
  \<open>size_t\<close> is on the target, so the capacity check of \<open>maxrtos_kernel_fifo_init\<close> multiplies with
  wrap-around. Messages are bytes of the shared memory; the abstraction \<open>fifo_list\<close> reads the
  stored messages out of it, oldest first, and the operations are shown to append to it and take
  from its front.
\<close>

record maxrtos_kernel_fifo_t =
  fifo_buffer :: u32
  fifo_buffer_capacity_bytes :: u32
  fifo_message_size :: u32
  fifo_capacity :: u32
  fifo_head :: u32
  fifo_count :: u32

definition maxrtos_kernel_fifo_init ::
    "ptr \<Rightarrow> u32 \<Rightarrow> u32 \<Rightarrow> u32 \<Rightarrow> u32 \<Rightarrow> maxrtos_kernel_fifo_t \<Rightarrow> maxrtos_status \<times> maxrtos_kernel_fifo_t"
where
  [op_defs]: "maxrtos_kernel_fifo_init fifop backing_buffer backing_buffer_size message_size capacity f =
     (if fifop \<noteq> NULL \<and> backing_buffer \<noteq> 0 \<and> message_size > 0 \<and> capacity > 0 \<and>
         message_size * capacity \<le> backing_buffer_size
      then (MAXRTOS_OK,
            f\<lparr>fifo_buffer := backing_buffer, fifo_buffer_capacity_bytes := backing_buffer_size,
              fifo_message_size := message_size, fifo_capacity := capacity,
              fifo_head := 0, fifo_count := 0\<rparr>)
      else (MAXRTOS_ERR_INVALID_ARG, f))"

definition maxrtos_kernel_fifo_push ::
    "ptr \<Rightarrow> u32 \<Rightarrow> u32 \<Rightarrow> maxrtos_kernel_fifo_t \<Rightarrow> memory \<Rightarrow>
     maxrtos_status \<times> maxrtos_kernel_fifo_t \<times> memory"
where
  [op_defs]: "maxrtos_kernel_fifo_push fifop message message_size f m =
     (if fifop \<noteq> NULL \<and> message \<noteq> 0 \<and> message_size = fifo_message_size f then
        (if fifo_count f < fifo_capacity f then
           let tail = (fifo_head f + fifo_count f) mod fifo_capacity f in
             (MAXRTOS_OK, f\<lparr>fifo_count := fifo_count f + 1\<rparr>,
              memcpy m (fifo_buffer f + tail * fifo_message_size f) message (fifo_message_size f))
         else (MAXRTOS_ERR_QUEUE_FULL, f, m))
      else (MAXRTOS_ERR_INVALID_ARG, f, m))"

definition maxrtos_kernel_fifo_pop ::
    "ptr \<Rightarrow> u32 \<Rightarrow> u32 \<Rightarrow> maxrtos_kernel_fifo_t \<Rightarrow> memory \<Rightarrow>
     maxrtos_status \<times> maxrtos_kernel_fifo_t \<times> memory"
where
  [op_defs]: "maxrtos_kernel_fifo_pop fifop out_message buffer_size f m =
     (if fifop \<noteq> NULL \<and> out_message \<noteq> 0 \<and> buffer_size \<ge> fifo_message_size f then
        (if fifo_count f = 0 then (MAXRTOS_ERR_QUEUE_EMPTY, f, m)
         else
           (MAXRTOS_OK,
            f\<lparr>fifo_head := (fifo_head f + 1) mod fifo_capacity f, fifo_count := fifo_count f - 1\<rparr>,
            memcpy m out_message (fifo_buffer f + fifo_head f * fifo_message_size f)
              (fifo_message_size f)))
      else (MAXRTOS_ERR_INVALID_ARG, f, m))"

definition maxrtos_kernel_fifo_count :: "ptr \<Rightarrow> maxrtos_kernel_fifo_t \<Rightarrow> u32" where
  [op_defs]: "maxrtos_kernel_fifo_count fifop f = (if fifop \<noteq> NULL then fifo_count f else 0)"

subsection \<open>Abstraction and invariant\<close>

definition fifo_slot :: "maxrtos_kernel_fifo_t \<Rightarrow> nat \<Rightarrow> nat" where
  "fifo_slot f i = (unat (fifo_head f) + i) mod unat (fifo_capacity f)"

definition fifo_addr :: "maxrtos_kernel_fifo_t \<Rightarrow> nat \<Rightarrow> u32" where
  "fifo_addr f j = fifo_buffer f + word_of_nat (j * unat (fifo_message_size f))"

definition fifo_list :: "maxrtos_kernel_fifo_t \<Rightarrow> memory \<Rightarrow> u8 list list" where
  "fifo_list f m =
     map (\<lambda>i. mem_read m (fifo_addr f (fifo_slot f i)) (unat (fifo_message_size f)))
       [0..<unat (fifo_count f)]"

definition fifo_bytes :: "maxrtos_kernel_fifo_t \<Rightarrow> nat" where
  "fifo_bytes f = unat (fifo_message_size f) * unat (fifo_capacity f)"

text \<open>
  Well-formedness: the configured product does not wrap and the capacity is small enough that
  \<open>head + count\<close> does not either (capacities up to \<open>2 ^ 31\<close>).
\<close>

definition fifo_wf :: "maxrtos_kernel_fifo_t \<Rightarrow> bool" where
  "fifo_wf f \<longleftrightarrow> 0 < fifo_message_size f \<and> 0 < fifo_capacity f \<and> fifo_bytes f < 2 ^ 32
     \<and> 2 * unat (fifo_capacity f) \<le> 2 ^ 32
     \<and> fifo_head f < fifo_capacity f \<and> fifo_count f \<le> fifo_capacity f"

lemma length_fifo_list [simp]: "length (fifo_list f m) = unat (fifo_count f)"
  by (simp add: fifo_list_def)

lemma fifo_slot_less: "fifo_wf f \<Longrightarrow> fifo_slot f i < unat (fifo_capacity f)"
  by (simp add: fifo_slot_def fifo_wf_def word_less_nat_alt)

lemma fifo_slot_inj:
  assumes "fifo_slot f i = fifo_slot f j" "i < unat (fifo_capacity f)" "j < unat (fifo_capacity f)"
  shows "i = j"
  using assms unfolding fifo_slot_def by (rule ring_index_inj)

text \<open>The word arithmetic of the code computes the slot and its address.\<close>

lemma fifo_tail_slot:
  assumes "fifo_wf f" "fifo_count f < fifo_capacity f"
  shows "unat ((fifo_head f + fifo_count f) mod fifo_capacity f) = fifo_slot f (unat (fifo_count f))"
proof -
  have "unat (fifo_head f) + unat (fifo_count f) < 2 ^ 32"
    using assms by (auto simp: fifo_wf_def word_less_nat_alt)
  then show ?thesis by (simp add: unat_mod fifo_slot_def unat_plus_if')
qed

lemma fifo_addr_word: "fifo_buffer f + j * fifo_message_size f = fifo_addr f (unat j)"
  by (simp add: fifo_addr_def)

lemma fifo_addr_apart:
  assumes "fifo_wf f" "i < unat (fifo_capacity f)" "j < unat (fifo_capacity f)" "i \<noteq> j"
  shows "apart (fifo_addr f i) (unat (fifo_message_size f)) (fifo_addr f j) (unat (fifo_message_size f))"
  unfolding fifo_addr_def using assms slots_apart[of i "unat (fifo_capacity f)" j "unat (fifo_message_size f)"]
  by (simp add: fifo_wf_def fifo_bytes_def)

subsection \<open>Functional behaviour\<close>

lemma fifo_init_ok:
  assumes "buf \<noteq> 0" "ms > 0" "cap > 0" "unat ms * unat cap < 2 ^ 32" "2 * unat cap \<le> 2 ^ 32"
  shows "fst (maxrtos_kernel_fifo_init PTR buf sz ms cap f) = MAXRTOS_OK \<longleftrightarrow>
      unat ms * unat cap \<le> unat sz"
    and "unat ms * unat cap \<le> unat sz \<Longrightarrow>
      fifo_wf (snd (maxrtos_kernel_fifo_init PTR buf sz ms cap f))
      \<and> fifo_list (snd (maxrtos_kernel_fifo_init PTR buf sz ms cap f)) m = []"
proof -
  have "unat (ms * cap) = unat ms * unat cap"
    using assms(4) by (simp add: unat_mult_lem[symmetric])
  then have le: "ms * cap \<le> sz \<longleftrightarrow> unat ms * unat cap \<le> unat sz"
    by (simp add: word_le_nat_alt)
  show "fst (maxrtos_kernel_fifo_init PTR buf sz ms cap f) = MAXRTOS_OK \<longleftrightarrow>
      unat ms * unat cap \<le> unat sz"
    using assms le by (simp add: op_defs)
  show "unat ms * unat cap \<le> unat sz \<Longrightarrow>
      fifo_wf (snd (maxrtos_kernel_fifo_init PTR buf sz ms cap f))
      \<and> fifo_list (snd (maxrtos_kernel_fifo_init PTR buf sz ms cap f)) m = []"
    using assms le by (simp add: op_defs fifo_wf_def fifo_bytes_def fifo_list_def)
qed

lemma fifo_push_ok:
  fixes m :: memory
  assumes wf: "fifo_wf f" and room: "fifo_count f < fifo_capacity f" and msg: "msg \<noteq> 0"
  defines "r \<equiv> maxrtos_kernel_fifo_push PTR msg (fifo_message_size f) f m"
  shows "fst r = MAXRTOS_OK"
    and "fifo_wf (fst (snd r))"
    and "fifo_list (fst (snd r)) (snd (snd r))
      = fifo_list f m @ [mem_read m msg (unat (fifo_message_size f))]"
proof -
  let ?c = "unat (fifo_count f)" and ?n = "unat (fifo_message_size f)"
  let ?f' = "f\<lparr>fifo_count := fifo_count f + 1\<rparr>"
  let ?m' = "memcpy m (fifo_addr f (fifo_slot f ?c)) msg (fifo_message_size f)"
  have r: "r = (MAXRTOS_OK, ?f', ?m')"
    using room msg fifo_tail_slot[OF wf room] by (simp add: r_def op_defs Let_def fifo_addr_word)
  have c: "?c < unat (fifo_capacity f)" using room by (simp add: word_less_nat_alt)
  then have c1: "unat (fifo_count f + 1) = Suc ?c"
    using unat_less_32[of "fifo_capacity f"] by (simp add: unat_plus_if')
  show "fst r = MAXRTOS_OK" using r by simp
  show "fifo_wf (fst (snd r))"
    using wf c c1 by (simp add: r fifo_wf_def fifo_bytes_def word_le_nat_alt)
  have same: "mem_read ?m' (fifo_addr f (fifo_slot f i)) ?n = mem_read m (fifo_addr f (fifo_slot f i)) ?n"
    if "i < ?c" for i
    using that c fifo_slot_inj[of f i ?c]
    by (intro memcpy_read_apart fifo_addr_apart[OF wf] fifo_slot_less[OF wf]) auto
  have new: "mem_read ?m' (fifo_addr f (fifo_slot f ?c)) ?n = mem_read m msg ?n"
    by (rule memcpy_read_dst)
  show "fifo_list (fst (snd r)) (snd (snd r)) = fifo_list f m @ [mem_read m msg ?n]"
    using same new c1
    by (simp add: r fifo_list_def fifo_addr_def fifo_slot_def)
qed

lemma fifo_push_full:
  "fifo_count f = fifo_capacity f \<Longrightarrow> msg \<noteq> 0 \<Longrightarrow>
   maxrtos_kernel_fifo_push PTR msg (fifo_message_size f) f m = (MAXRTOS_ERR_QUEUE_FULL, f, m)"
  by (simp add: op_defs)

text \<open>Outside the storage of the FIFO, a push writes nothing.\<close>

lemma fifo_push_frame:
  assumes "fifo_wf f" "fifo_bytes f \<le> unat (x - fifo_buffer f)"
  shows "snd (snd (maxrtos_kernel_fifo_push fifop msg n f m)) x = m x"
proof (cases "fifo_count f < fifo_capacity f")
  case True
  from assms(2) have "apart x 1 (fifo_buffer f) (fifo_bytes f)" by (simp add: apart_def)
  from apart_slot[OF this[unfolded fifo_bytes_def] fifo_slot_less[OF assms(1)]] assms(1)
  have "unat (fifo_message_size f) \<le> unat (x - fifo_addr f (fifo_slot f (unat (fifo_count f))))"
    by (simp add: fifo_wf_def fifo_bytes_def apart_def fifo_addr_def)
  with fifo_tail_slot[OF assms(1) True] show ?thesis
    by (simp add: op_defs Let_def fifo_addr_word memcpy_outside)
qed (simp add: op_defs)

lemma fifo_pop_ok:
  assumes wf: "fifo_wf f" and list: "fifo_list f m = a # as" and out: "out \<noteq> 0"
    and room: "fifo_message_size f \<le> sz"
    and sep: "\<And>j. j < unat (fifo_capacity f) \<Longrightarrow>
      apart (fifo_addr f j) (unat (fifo_message_size f)) out (unat (fifo_message_size f))"
  defines "r \<equiv> maxrtos_kernel_fifo_pop PTR out sz f m"
  shows "fst r = MAXRTOS_OK"
    and "mem_read (snd (snd r)) out (unat (fifo_message_size f)) = a"
    and "fifo_wf (fst (snd r))"
    and "fifo_list (fst (snd r)) (snd (snd r)) = as"
proof -
  let ?n = "unat (fifo_message_size f)" and ?cap = "unat (fifo_capacity f)" and ?h = "unat (fifo_head f)"
  let ?f' = "f\<lparr>fifo_head := (fifo_head f + 1) mod fifo_capacity f, fifo_count := fifo_count f - 1\<rparr>"
  let ?m' = "memcpy m out (fifo_addr f ?h) (fifo_message_size f)"
  from list have nz: "fifo_count f \<noteq> 0" by (auto simp: fifo_list_def)
  then obtain c where c: "unat (fifo_count f) = Suc c"
    by (metis not0_implies_Suc unat_eq_zero)
  have c': "unat (fifo_count f - 1) = c"
    using nz c by (simp add: unat_sub word_le_nat_alt unat_gt_0 Suc_leI)
  from wf have h: "?h < ?cap" and cap: "0 < ?cap" "?cap < 2 ^ 32"
    using unat_less_32[of "fifo_capacity f"] by (auto simp: fifo_wf_def word_less_nat_alt)
  have r: "r = (MAXRTOS_OK, ?f', ?m')"
    using nz out room by (simp add: r_def op_defs fifo_addr_word)
  have h1: "unat ((fifo_head f + 1) mod fifo_capacity f) = (?h + 1) mod ?cap"
    using h cap by (simp add: unat_mod unat_plus_if')
  have list': "a # as = mem_read m (fifo_addr f ?h) ?n
      # map (\<lambda>i. mem_read m (fifo_addr f (fifo_slot f (Suc i))) ?n) [0..<c]"
    using list h by (simp add: fifo_list_def c map_upt_Suc fifo_slot_def del: upt_Suc)
  show "fst r = MAXRTOS_OK" using r by simp
  show "mem_read (snd (snd r)) out ?n = a" using list' by (simp add: r memcpy_read_dst)
  have cc: "Suc c \<le> ?cap" using wf c by (simp add: fifo_wf_def word_le_nat_alt)
  have "(?h + 1) mod ?cap < ?cap" using cap by simp
  then show "fifo_wf (fst (snd r))"
    using wf cc c' by (simp add: r fifo_wf_def fifo_bytes_def word_less_nat_alt word_le_nat_alt h1)
  have "mem_read ?m' (fifo_addr f (fifo_slot f (Suc j))) ?n
      = mem_read m (fifo_addr f (fifo_slot f (Suc j))) ?n" for j
    by (intro memcpy_read_apart sep fifo_slot_less[OF wf])
  then show "fifo_list (fst (snd r)) (snd (snd r)) = as"
    using list' by (simp add: r fifo_list_def c' h1 fifo_slot_def fifo_addr_def ring_advance[simplified])
qed

lemma fifo_pop_empty:
  "fifo_count f = 0 \<Longrightarrow> out \<noteq> 0 \<Longrightarrow> fifo_message_size f \<le> sz \<Longrightarrow>
   maxrtos_kernel_fifo_pop PTR out sz f m = (MAXRTOS_ERR_QUEUE_EMPTY, f, m)"
  by (simp add: op_defs)

text \<open>The product of the check wraps: no storage at all is enough for \<open>2 ^ 16\<close> messages of \<open>2 ^ 16\<close> bytes.\<close>

lemma fifo_init_accepts_small_storage:
  "fst (maxrtos_kernel_fifo_init PTR 0x20000000 0 0x10000 0x10000 f) = MAXRTOS_OK"
  by (simp add: op_defs)

end
