(* ===== verification/Kernel_State.thy ===== *)
theory Kernel_State
  imports Dispatch Fifo
begin

text \<open>
  The static data of the kernel in one record: the process pool (process.c), the partition table
  (partition.h), the tick and due-bound variables of tick.c and timing.c, and the object pools of
  the IPC primitives. A pool is a function from handles. The wait lists embedded in the pool
  entries live in the store \<open>waitlists\<close>, because control blocks point at them; a reference names
  the entry and the list. Message bytes live in \<open>mem\<close>; \<open>buffer_storage\<close> is the address of the
  storage array of each buffer slot.
\<close>

datatype maxrtos_queuing_discipline = MAXRTOS_QUEUING_FIFO | MAXRTOS_QUEUING_PRIORITY

record maxrtos_mutex_t =
  mtx_in_use :: bool
  mtx_partition_id :: u32
  mtx_owner :: u32

record maxrtos_semaphore_t =
  sem_in_use :: bool
  sem_partition_id :: u32
  sem_count :: u32
  sem_max :: u32

record maxrtos_buffer_t =
  buf_in_use :: bool
  buf_partition_id :: u32
  buf_discipline :: maxrtos_queuing_discipline
  buf_fifo :: maxrtos_kernel_fifo_t

record maxrtos_queue_port_t =
  qp_in_use :: bool
  qp_sender_mask :: u32
  qp_receiver_mask :: u32
  qp_fifo :: maxrtos_kernel_fifo_t

record maxrtos_sampling_port_t =
  sp_in_use :: bool
  sp_writer_mask :: u32
  sp_reader_mask :: u32
  sp_storage :: u32
  sp_message_size :: u32
  sp_has_message :: bool

record kstate =
  process_pool :: pool
  scheduler_ctx :: "u32 \<Rightarrow> maxrtos_scheduler_context_t"
  current_id :: "u32 \<Rightarrow> u32"
  halted :: "u32 \<Rightarrow> bool"
  s_current_tick :: u32
  s_pending_misses :: u32
  s_next_due :: u32
  waitlists :: "waitlist_ref \<Rightarrow> maxrtos_waitlist_t"
  s_mutex_pool :: "u32 \<Rightarrow> maxrtos_mutex_t"
  s_semaphore_pool :: "u32 \<Rightarrow> maxrtos_semaphore_t"
  s_buffer_pool :: "u32 \<Rightarrow> maxrtos_buffer_t"
  s_port_pool :: "u32 \<Rightarrow> maxrtos_queue_port_t"
  s_sampling_port_pool :: "u32 \<Rightarrow> maxrtos_sampling_port_t"
  mem :: memory
  buffer_storage :: "u32 \<Rightarrow> u32"

text \<open>Writing through a control-block pointer, and through a pointer to a wait list.\<close>

definition upd_pcb :: "u32 \<Rightarrow> (pcb \<Rightarrow> pcb) \<Rightarrow> kstate \<Rightarrow> kstate" where
  "upd_pcb i f s = s\<lparr>process_pool := (process_pool s)(i := f (process_pool s i))\<rparr>"

definition upd_waitlist :: "waitlist_ref \<Rightarrow> maxrtos_waitlist_t \<Rightarrow> kstate \<Rightarrow> kstate" where
  "upd_waitlist w l s = s\<lparr>waitlists := (waitlists s)(w := l)\<rparr>"

definition upd_ctx :: "u32 \<Rightarrow> maxrtos_scheduler_context_t \<Rightarrow> kstate \<Rightarrow> kstate" where
  "upd_ctx p ctx s = s\<lparr>scheduler_ctx := (scheduler_ctx s)(p := ctx)\<rparr>"

abbreviation get_pcb :: "u32 \<Rightarrow> kstate \<Rightarrow> pcb option" where
  "get_pcb i s \<equiv> maxrtos_process_get i (process_pool s)"

lemma upd_pcb_fields [simp]:
  "process_pool (upd_pcb i f s) = (process_pool s)(i := f (process_pool s i))"
  "scheduler_ctx (upd_pcb i f s) = scheduler_ctx s"
  "current_id (upd_pcb i f s) = current_id s"
  "halted (upd_pcb i f s) = halted s"
  "s_current_tick (upd_pcb i f s) = s_current_tick s"
  "s_pending_misses (upd_pcb i f s) = s_pending_misses s"
  "s_next_due (upd_pcb i f s) = s_next_due s"
  "waitlists (upd_pcb i f s) = waitlists s"
  "s_mutex_pool (upd_pcb i f s) = s_mutex_pool s"
  "s_semaphore_pool (upd_pcb i f s) = s_semaphore_pool s"
  "s_buffer_pool (upd_pcb i f s) = s_buffer_pool s"
  "s_port_pool (upd_pcb i f s) = s_port_pool s"
  "s_sampling_port_pool (upd_pcb i f s) = s_sampling_port_pool s"
  "mem (upd_pcb i f s) = mem s"
  "buffer_storage (upd_pcb i f s) = buffer_storage s"
  by (simp_all add: upd_pcb_def)

lemma upd_waitlist_fields [simp]:
  "process_pool (upd_waitlist w l s) = process_pool s"
  "scheduler_ctx (upd_waitlist w l s) = scheduler_ctx s"
  "current_id (upd_waitlist w l s) = current_id s"
  "halted (upd_waitlist w l s) = halted s"
  "s_current_tick (upd_waitlist w l s) = s_current_tick s"
  "s_pending_misses (upd_waitlist w l s) = s_pending_misses s"
  "s_next_due (upd_waitlist w l s) = s_next_due s"
  "waitlists (upd_waitlist w l s) = (waitlists s)(w := l)"
  "s_mutex_pool (upd_waitlist w l s) = s_mutex_pool s"
  "s_semaphore_pool (upd_waitlist w l s) = s_semaphore_pool s"
  "s_buffer_pool (upd_waitlist w l s) = s_buffer_pool s"
  "s_port_pool (upd_waitlist w l s) = s_port_pool s"
  "s_sampling_port_pool (upd_waitlist w l s) = s_sampling_port_pool s"
  "mem (upd_waitlist w l s) = mem s"
  "buffer_storage (upd_waitlist w l s) = buffer_storage s"
  by (simp_all add: upd_waitlist_def)

lemma upd_ctx_fields [simp]:
  "process_pool (upd_ctx p c s) = process_pool s"
  "scheduler_ctx (upd_ctx p c s) = (scheduler_ctx s)(p := c)"
  "current_id (upd_ctx p c s) = current_id s"
  "halted (upd_ctx p c s) = halted s"
  "s_current_tick (upd_ctx p c s) = s_current_tick s"
  "s_pending_misses (upd_ctx p c s) = s_pending_misses s"
  "s_next_due (upd_ctx p c s) = s_next_due s"
  "waitlists (upd_ctx p c s) = waitlists s"
  "s_mutex_pool (upd_ctx p c s) = s_mutex_pool s"
  "s_semaphore_pool (upd_ctx p c s) = s_semaphore_pool s"
  "s_buffer_pool (upd_ctx p c s) = s_buffer_pool s"
  "s_port_pool (upd_ctx p c s) = s_port_pool s"
  "s_sampling_port_pool (upd_ctx p c s) = s_sampling_port_pool s"
  "mem (upd_ctx p c s) = mem s"
  "buffer_storage (upd_ctx p c s) = buffer_storage s"
  by (simp_all add: upd_ctx_def)

lemma allocated_upd:
  "pcb_state (f (pool i)) = pcb_state (pool i) \<Longrightarrow> allocated (pool(i := f (pool i))) j \<longleftrightarrow> allocated pool j"
  by (auto simp: allocated_def)

subsection \<open>Frames\<close>

text \<open>
  \<open>only_scheduling s s'\<close>: the step from \<open>s\<close> to \<open>s'\<close> changed nothing but control blocks, ready queues
  and current processes. The object pools, wait lists, messages and clocks are as before.
\<close>

definition only_scheduling :: "kstate \<Rightarrow> kstate \<Rightarrow> bool" where
  "only_scheduling s s' \<longleftrightarrow>
     s' = s\<lparr>process_pool := process_pool s', scheduler_ctx := scheduler_ctx s', current_id := current_id s'\<rparr>"

lemma only_scheduling_iff:
  "only_scheduling s s' \<longleftrightarrow> halted s' = halted s \<and> s_current_tick s' = s_current_tick s
    \<and> s_pending_misses s' = s_pending_misses s \<and> s_next_due s' = s_next_due s \<and> waitlists s' = waitlists s
    \<and> s_mutex_pool s' = s_mutex_pool s \<and> s_semaphore_pool s' = s_semaphore_pool s
    \<and> s_buffer_pool s' = s_buffer_pool s \<and> s_port_pool s' = s_port_pool s
    \<and> s_sampling_port_pool s' = s_sampling_port_pool s \<and> mem s' = mem s \<and> buffer_storage s' = buffer_storage s"
  unfolding only_scheduling_def by (cases s, cases s') auto

lemma only_scheduling_refl [simp]: "only_scheduling s s"
  by (simp add: only_scheduling_iff)

lemma only_scheduling_trans: "only_scheduling s t \<Longrightarrow> only_scheduling t u \<Longrightarrow> only_scheduling s u"
  by (simp add: only_scheduling_iff)

end
