(* ===== verification/Partition.thy ===== *)
theory Partition
  imports Kernel_State
begin

text \<open>
  The partition table of partition.c: a scheduling domain, a current process and a halt flag per
  partition, over the process pool. The operations move processes between the domains' queues
  and states; the second half states the scheduling invariant of the kernel, \<open>sched_inv\<close>, and
  shows that every operation keeps it.
\<close>

definition maxrtos_partition_table_init :: "ptr \<Rightarrow> kstate \<Rightarrow> maxrtos_status \<times> kstate" where
  "maxrtos_partition_table_init tablep s =
     (if tablep \<noteq> NULL then
        (case fold (\<lambda>partition_id (status, s).
             if status = MAXRTOS_OK then
               (case maxrtos_scheduler_init PTR (scheduler_ctx s partition_id) of
                  (status', ctx) \<Rightarrow> (status', upd_ctx partition_id ctx s))
             else (status, s)) (ids_below MAXRTOS_MAX_PARTITIONS) (MAXRTOS_OK, s) of
           (status, s1) \<Rightarrow>
             if status = MAXRTOS_OK then
               (status, fold (\<lambda>partition_id s. s\<lparr>
                    current_id := (current_id s)(partition_id := MAXRTOS_INVALID_PROCESS_ID),
                    halted := (halted s)(partition_id := False)\<rparr>)
                  (ids_below MAXRTOS_MAX_PARTITIONS) s1)
             else (status, s1))
      else (MAXRTOS_ERR_INVALID_ARG, s))"

definition maxrtos_partition_add_process :: "ptr \<Rightarrow> u32 \<Rightarrow> kstate \<Rightarrow> maxrtos_status \<times> kstate" where
  "maxrtos_partition_add_process tablep pid s =
     (if tablep \<noteq> NULL then
        (case get_pcb pid s of
           None \<Rightarrow> (MAXRTOS_ERR_INVALID_ID, s)
         | Some pcb \<Rightarrow>
             if pcb_partition_id pcb \<ge> of_nat MAXRTOS_MAX_PARTITIONS then (MAXRTOS_ERR_INVALID_ARG, s)
             else
               (case maxrtos_scheduler_add_process PTR pid (process_pool s)
                       (scheduler_ctx s (pcb_partition_id pcb)) of
                  (status, ctx) \<Rightarrow> (status, upd_ctx (pcb_partition_id pcb) ctx s)))
      else (MAXRTOS_ERR_INVALID_ARG, s))"

definition maxrtos_partition_select ::
    "ptr \<Rightarrow> u32 \<Rightarrow> ptr \<Rightarrow> bool \<Rightarrow> kstate \<Rightarrow> maxrtos_status \<times> u32 option \<times> kstate" where
  "maxrtos_partition_select tablep partition_id outp yield s =
     (if tablep \<noteq> NULL \<and> outp \<noteq> NULL \<and> partition_id < of_nat MAXRTOS_MAX_PARTITIONS then
        (if halted s partition_id then (MAXRTOS_ERR_PARTITION_HALTED, None, s)
         else
           (case (if yield
                  then maxrtos_kernel_dispatch_yield PTR (current_id s partition_id) outp
                         (scheduler_ctx s partition_id) (process_pool s)
                  else maxrtos_kernel_dispatch PTR (current_id s partition_id) outp
                         (scheduler_ctx s partition_id) (process_pool s)) of
              (status, out, ctx, pool) \<Rightarrow>
                let s1 = (upd_ctx partition_id ctx s)\<lparr>process_pool := pool\<rparr> in
                if status = MAXRTOS_OK
                then (status, out, s1\<lparr>current_id := (current_id s1)(partition_id :=
                        out_val (current_id s1 partition_id) out)\<rparr>)
                else (status, out, s1)))
      else (MAXRTOS_ERR_INVALID_ARG, None, s))"

definition maxrtos_partition_dispatch ::
    "ptr \<Rightarrow> u32 \<Rightarrow> ptr \<Rightarrow> kstate \<Rightarrow> maxrtos_status \<times> u32 option \<times> kstate" where
  "maxrtos_partition_dispatch tablep partition_id outp s = maxrtos_partition_select tablep partition_id outp False s"

definition maxrtos_partition_yield ::
    "ptr \<Rightarrow> u32 \<Rightarrow> ptr \<Rightarrow> kstate \<Rightarrow> maxrtos_status \<times> u32 option \<times> kstate" where
  "maxrtos_partition_yield tablep partition_id outp s = maxrtos_partition_select tablep partition_id outp True s"

definition maxrtos_partition_ready_process :: "ptr \<Rightarrow> u32 \<Rightarrow> u32 \<Rightarrow> kstate \<Rightarrow> maxrtos_status \<times> kstate" where
  "maxrtos_partition_ready_process tablep partition_id pid s =
     (if tablep \<noteq> NULL \<and> partition_id < of_nat MAXRTOS_MAX_PARTITIONS then
        (case maxrtos_process_set_state pid MAXRTOS_PROCESS_STATE_READY (process_pool s) of
           (status, pool) \<Rightarrow>
             let s1 = s\<lparr>process_pool := pool\<rparr> in
             if status = MAXRTOS_OK then
               (case maxrtos_scheduler_add_process PTR pid (process_pool s1) (scheduler_ctx s1 partition_id) of
                  (status', ctx) \<Rightarrow> (status', upd_ctx partition_id ctx s1))
             else (status, s1))
      else (MAXRTOS_ERR_INVALID_ARG, s))"

definition maxrtos_partition_block_and_dispatch ::
    "ptr \<Rightarrow> u32 \<Rightarrow> u32 \<Rightarrow> ptr \<Rightarrow> kstate \<Rightarrow> maxrtos_status \<times> u32 option \<times> kstate" where
  "maxrtos_partition_block_and_dispatch tablep partition_id blocking_id outp s =
     (if tablep \<noteq> NULL \<and> outp \<noteq> NULL \<and> partition_id < of_nat MAXRTOS_MAX_PARTITIONS then
        (if halted s partition_id then (MAXRTOS_ERR_PARTITION_HALTED, None, s)
         else
           (case maxrtos_kernel_block_and_dispatch PTR blocking_id outp
                   (scheduler_ctx s partition_id) (process_pool s) of
              (status, out, ctx, pool) \<Rightarrow>
                let s1 = (upd_ctx partition_id ctx s)\<lparr>process_pool := pool\<rparr> in
                if status = MAXRTOS_OK
                then (status, out, s1\<lparr>current_id := (current_id s1)(partition_id :=
                        out_val (current_id s1 partition_id) out)\<rparr>)
                else (status, out, s1)))
      else (MAXRTOS_ERR_INVALID_ARG, None, s))"

definition maxrtos_partition_set_process_priority ::
    "ptr \<Rightarrow> u32 \<Rightarrow> u8 \<Rightarrow> kstate \<Rightarrow> maxrtos_status \<times> kstate" where
  "maxrtos_partition_set_process_priority tablep pid priority s =
     (if tablep \<noteq> NULL \<and> priority \<le> of_nat MAXRTOS_MAX_PRIORITY then
        (case get_pcb pid s of
           None \<Rightarrow> (MAXRTOS_ERR_INVALID_ID, s)
         | Some pcb \<Rightarrow>
             if pcb_partition_id pcb \<ge> of_nat MAXRTOS_MAX_PARTITIONS then (MAXRTOS_ERR_INVALID_ARG, s)
             else
               let part = pcb_partition_id pcb;
                   old_priority = pcb_priority pcb;
                   (queued, s1) =
                     (if pcb_state pcb = MAXRTOS_PROCESS_STATE_READY then
                        (case maxrtos_scheduler_remove_process PTR pid (process_pool s) (scheduler_ctx s part) of
                           (status, ctx) \<Rightarrow> (status = MAXRTOS_OK, upd_ctx part ctx s))
                      else (False, s));
                   s2 = upd_pcb pid (\<lambda>b. b\<lparr>pcb_priority := priority\<rparr>) s1
               in
               if queued then
                 (case maxrtos_scheduler_add_process PTR pid (process_pool s2) (scheduler_ctx s2 part) of
                    (status, ctx) \<Rightarrow>
                      let s3 = upd_ctx part ctx s2 in
                      if status \<noteq> MAXRTOS_OK then
                        let s4 = upd_pcb pid (\<lambda>b. b\<lparr>pcb_priority := old_priority\<rparr>) s3 in
                        (status,
                         upd_ctx part (snd (maxrtos_scheduler_add_process PTR pid (process_pool s4)
                                              (scheduler_ctx s4 part))) s4)
                      else (status, s3))
               else (MAXRTOS_OK, s2))
      else (MAXRTOS_ERR_INVALID_ARG, s))"

subsection \<open>The scheduling invariant\<close>

definition pcb_ok :: "pcb \<Rightarrow> bool" where
  "pcb_ok b \<longleftrightarrow> pcb_partition_id b < of_nat MAXRTOS_MAX_PARTITIONS
     \<and> pcb_priority b \<le> of_nat MAXRTOS_MAX_PRIORITY \<and> pcb_base_priority b \<le> of_nat MAXRTOS_MAX_PRIORITY"

text \<open>
  What holds of one partition: its domain is consistent, holds only its own processes, and its
  current process, if any, is its own and RUNNING.
\<close>

definition part_ok :: "pool \<Rightarrow> u32 \<Rightarrow> maxrtos_scheduler_context_t \<Rightarrow> u32 \<Rightarrow> bool" where
  "part_ok pool part ctx c \<longleftrightarrow> domain_ok ctx pool
     \<and> (\<forall>r \<le> MAXRTOS_MAX_PRIORITY. \<forall>i \<in> set (ready ctx r). pcb_partition_id (pool i) = part)
     \<and> running_in c pool \<and> (c \<noteq> MAXRTOS_INVALID_PROCESS_ID \<longrightarrow> pcb_partition_id (pool c) = part)"

definition sched_ok :: "pool \<Rightarrow> (u32 \<Rightarrow> maxrtos_scheduler_context_t) \<Rightarrow> (u32 \<Rightarrow> u32) \<Rightarrow> bool" where
  "sched_ok pool ctxs cur \<longleftrightarrow>
     (\<forall>i. allocated pool i \<longrightarrow> pcb_ok (pool i))
     \<and> (\<forall>i. allocated pool i \<and> pcb_state (pool i) = MAXRTOS_PROCESS_STATE_RUNNING \<longrightarrow>
           cur (pcb_partition_id (pool i)) = i)
     \<and> (\<forall>part < of_nat MAXRTOS_MAX_PARTITIONS. part_ok pool part (ctxs part) (cur part))
     \<and> (\<forall>i. allocated pool i \<longrightarrow> pcb_id (pool i) = i)"

definition sched_inv :: "kstate \<Rightarrow> bool" where
  "sched_inv s \<longleftrightarrow> sched_ok (process_pool s) (scheduler_ctx s) (current_id s)"

subsection \<open>Steps on the invariant\<close>

lemma sched_okD:
  assumes "sched_ok pool ctxs cur"
  shows "allocated pool i \<Longrightarrow> pcb_ok (pool i)"
    and "allocated pool i \<Longrightarrow> pcb_state (pool i) = MAXRTOS_PROCESS_STATE_RUNNING \<Longrightarrow> cur (pcb_partition_id (pool i)) = i"
    and "part < of_nat MAXRTOS_MAX_PARTITIONS \<Longrightarrow> part_ok pool part (ctxs part) (cur part)"
    and "allocated pool i \<Longrightarrow> pcb_id (pool i) = i"
  using assms by (auto simp: sched_ok_def)

lemma part_okD:
  assumes "part_ok pool part ctx c"
  shows "domain_ok ctx pool" "running_in c pool"
    and "r \<le> 31 \<Longrightarrow> i \<in> set (ready ctx r) \<Longrightarrow> pcb_partition_id (pool i) = part"
    and "c \<noteq> MAXRTOS_INVALID_PROCESS_ID \<Longrightarrow> pcb_partition_id (pool c) = part"
  using assms by (auto simp: part_ok_def)

text \<open>The invariant looks at five fields of a control block only.\<close>

definition same_sched :: "pool \<Rightarrow> pool \<Rightarrow> bool" where
  "same_sched pool pool' \<longleftrightarrow> (\<forall>i. pcb_state (pool' i) = pcb_state (pool i)
     \<and> pcb_partition_id (pool' i) = pcb_partition_id (pool i)
     \<and> pcb_priority (pool' i) = pcb_priority (pool i)
     \<and> pcb_base_priority (pool' i) = pcb_base_priority (pool i) \<and> pcb_id (pool' i) = pcb_id (pool i))"

lemma same_sched_ok: "sched_ok pool ctxs cur \<Longrightarrow> same_sched pool pool' \<Longrightarrow> sched_ok pool' ctxs cur"
  by (auto simp: sched_ok_def same_sched_def allocated_def part_ok_def domain_ok_def running_in_def pcb_ok_def)

text \<open>A partition none of whose processes changed is as it was.\<close>

lemma part_ok_frame:
  assumes "part_ok pool part ctx c"
    and "\<And>i. pcb_partition_id (pool i) = part \<Longrightarrow> allocated pool i \<Longrightarrow> pool' i = pool i"
  shows "part_ok pool' part ctx c"
proof -
  have same: "pool' i = pool i \<and> allocated pool' i" if "r \<le> 31" "i \<in> set (ready ctx r)" for r i
    using assms(2)[OF part_okD(3)[OF assms(1) that]] domain_okD(1)[OF part_okD(1)[OF assms(1)] that]
    by (simp add: allocated_def)
  have "running_in c pool'"
    using part_okD(2,4)[OF assms(1)] assms(2)[of c] by (auto simp: running_in_def allocated_def)
  moreover have "c \<noteq> MAXRTOS_INVALID_PROCESS_ID \<Longrightarrow> pool' c = pool c"
    using part_okD(2,4)[OF assms(1)] assms(2)[of c] by (auto simp: running_in_def)
  ultimately show ?thesis
    using assms(1) same by (auto simp: part_ok_def domain_ok_def)
qed

text \<open>Re-establishing the invariant after a step inside one partition.\<close>

lemma sched_ok_local:
  assumes ok: "sched_ok pool ctxs cur" and part: "part < of_nat MAXRTOS_MAX_PARTITIONS"
    and new: "part_ok pool' part ctx' c'"
    and outside: "\<And>i. pcb_partition_id (pool i) \<noteq> part \<Longrightarrow> pool' i = pool i"
    and same: "\<And>i. pcb_partition_id (pool' i) = pcb_partition_id (pool i)"
    and pcbs: "\<And>i. allocated pool' i \<Longrightarrow> pcb_ok (pool' i)"
    and running: "\<And>i. allocated pool' i \<Longrightarrow> pcb_partition_id (pool i) = part \<Longrightarrow>
      pcb_state (pool' i) = MAXRTOS_PROCESS_STATE_RUNNING \<Longrightarrow> c' = i"
    and ids: "\<And>i. allocated pool' i \<Longrightarrow> pcb_id (pool' i) = i"
  shows "sched_ok pool' (ctxs(part := ctx')) (cur(part := c'))"
  unfolding sched_ok_def
proof (intro conjI allI impI)
  fix i assume "allocated pool' i" then show "pcb_ok (pool' i)" by (rule pcbs)
next
  fix i assume "allocated pool' i" then show "pcb_id (pool' i) = i" by (rule ids)
next
  fix i assume i: "allocated pool' i \<and> pcb_state (pool' i) = MAXRTOS_PROCESS_STATE_RUNNING"
  show "(cur(part := c')) (pcb_partition_id (pool' i)) = i"
  proof (cases "pcb_partition_id (pool i) = part")
    case True
    with i running same show ?thesis by simp
  next
    case False
    with outside i have "allocated pool i" "pcb_state (pool i) = MAXRTOS_PROCESS_STATE_RUNNING"
      by (auto simp: allocated_def)
    with sched_okD(2)[OF ok] False same show ?thesis by simp
  qed
next
  fix q assume q: "q < (of_nat MAXRTOS_MAX_PARTITIONS :: u32)"
  show "part_ok pool' q ((ctxs(part := ctx')) q) ((cur(part := c')) q)"
  proof (cases "q = part")
    case True
    with new show ?thesis by simp
  next
    case False
    with part_ok_frame[OF sched_okD(3)[OF ok q]] outside show ?thesis by auto
  qed
qed

lemma pcb_ok_set_state [simp]: "pcb_ok (b\<lparr>pcb_state := st\<rparr>) = pcb_ok b"
  by (simp add: pcb_ok_def)

text \<open>A process that is not queued becomes READY and goes to the tail of its queue.\<close>

lemma sched_ok_ready:
  assumes ok: "sched_ok pool ctxs cur" and i: "allocated pool i" "pcb_state (pool i) \<noteq> MAXRTOS_PROCESS_STATE_READY"
  defines "part \<equiv> pcb_partition_id (pool i)"
  assumes ctx': "ctx_wf ctx'" "ready ctx' = (ready (ctxs part))(unat (pcb_priority (pool i)) := as)"
    "mset as = mset (i # ready (ctxs part) (unat (pcb_priority (pool i))))"
  shows "sched_ok (set_pcb_state i MAXRTOS_PROCESS_STATE_READY pool) (ctxs(part := ctx'))
    (cur(part := if cur part = i then MAXRTOS_INVALID_PROCESS_ID else cur part))"
proof -
  let ?pool = "set_pcb_state i MAXRTOS_PROCESS_STATE_READY pool"
  note pok = sched_okD(1)[OF ok i(1)]
  then have part: "part < of_nat MAXRTOS_MAX_PARTITIONS" and prio: "unat (pcb_priority (pool i)) \<le> 31"
    by (auto simp: pcb_ok_def part_def word_le_nat_alt)
  note p = sched_okD(3)[OF ok part]
  have set_as: "set as = insert i (set (ready (ctxs part) (unat (pcb_priority (pool i)))))"
    using ctx'(3) by (metis list.simps(15) set_mset_mset)
  let ?c = "if cur part = i then MAXRTOS_INVALID_PROCESS_ID else cur part"
  have "domain_ok ctx' ?pool"
    by (rule domain_ok_add[OF part_okD(1)[OF p] i refl prio ctx'])
  moreover have "\<forall>r \<le> 31. \<forall>j \<in> set (ready ctx' r). pcb_partition_id (?pool j) = part"
    using part_okD(3)[OF p] set_as ctx'(2) by (auto simp: part_def split: if_splits)
  moreover have "running_in ?c ?pool" using part_okD(2)[OF p] by (auto simp: running_in_def)
  moreover have "?c \<noteq> MAXRTOS_INVALID_PROCESS_ID \<longrightarrow> pcb_partition_id (?pool ?c) = part"
    using part_okD(4)[OF p] by auto
  ultimately have "part_ok ?pool part ctx' ?c" by (simp add: part_ok_def)
  moreover have "?c = j" if "allocated ?pool j" "pcb_partition_id (pool j) = part"
    "pcb_state (?pool j) = MAXRTOS_PROCESS_STATE_RUNNING" for j
  proof -
    from that have "j \<noteq> i" "allocated pool j" by (auto simp: allocated_def split: if_splits)
    with sched_okD(2)[OF ok, of j] that show ?thesis by auto
  qed
  ultimately show ?thesis
    using sched_okD(1,4)[OF ok] i(1) part
    by (intro sched_ok_local[OF ok part]) (auto simp: part_def allocated_def)
qed

lemma select_spec_members:
  assumes ok: "domain_ok ctx pool" and run: "running_in c pool"
    and spec: "select_spec yield (running_of c pool) (ready ctx) = (st, out, queue')"
  shows "(out = Some n \<longrightarrow> n = c \<and> c \<noteq> MAXRTOS_INVALID_PROCESS_ID \<or> (\<exists>r \<le> 31. n \<in> set (ready ctx r)))
    \<and> (i \<in> set (queue' r) \<longrightarrow> i = c \<and> c \<noteq> MAXRTOS_INVALID_PROCESS_ID \<or> i \<in> set (ready ctx r))"
proof (cases "st = MAXRTOS_OK")
  case True
  with spec have "select_spec yield (running_of c pool) (ready ctx) = (MAXRTOS_OK, out, queue')" by simp
  from ok run this show ?thesis
  proof (cases rule: select_outcome)
    case keep
    then show ?thesis by auto
  next
    case (start p n' as)
    with top_priority_SomeD[of ctx p] show ?thesis by (auto intro!: exI[of _ p])
  next
    case (switch p n' as)
    with top_priority_SomeD[of ctx p] show ?thesis by (auto simp: Let_def intro!: exI[of _ p] split: if_splits)
  qed
next
  case False
  with spec have "out = None \<and> queue' = ready ctx"
    by (auto simp: select_spec_def Let_def split: if_splits option.splits prod.splits)
  then show ?thesis by simp
qed

lemma sched_ok_select:
  assumes ok: "sched_ok pool ctxs cur" and part: "part < of_nat MAXRTOS_MAX_PARTITIONS"
    and spec: "select_spec yield (running_of (cur part) pool) (ready (ctxs part)) = (st, out, queue')"
    and ctx': "ctx_wf ctx'" "ready ctx' = queue'"
  shows "sched_ok (selected_pool (cur part) out pool) (ctxs(part := ctx'))
    (cur(part := case out of None \<Rightarrow> cur part | Some n \<Rightarrow> n))"
proof -
  let ?c = "cur part" and ?pool = "selected_pool (cur part) out pool"
  let ?c' = "case out of None \<Rightarrow> cur part | Some n \<Rightarrow> n"
  note p = sched_okD(3)[OF ok part]
  note pres = select_spec_preserves[OF part_okD(1,2)[OF p] spec ctx']
  note mem = select_spec_members[OF part_okD(1,2)[OF p] spec]
  have pid: "pcb_partition_id (?pool i) = pcb_partition_id (pool i)" for i
    by (auto simp: selected_pool_def split: option.splits)
  have inpart: "n = ?c \<and> ?c \<noteq> MAXRTOS_INVALID_PROCESS_ID \<or> (\<exists>r \<le> 31. n \<in> set (ready (ctxs part) r))
      \<Longrightarrow> pcb_partition_id (pool n) = part" for n
    using part_okD(3,4)[OF p] by auto
  have "part_ok ?pool part ctx' ?c'"
    unfolding part_ok_def pid
    using pres mem inpart ctx'(2) part_okD(3,4)[OF p] by (fastforce split: option.splits)
  moreover have outside: "?pool i = pool i" if "pcb_partition_id (pool i) \<noteq> part" for i
  proof -
    have "out \<noteq> Some i" using mem[of i] inpart[of i] that by auto
    moreover have "?c = i \<Longrightarrow> i = MAXRTOS_INVALID_PROCESS_ID" using part_okD(4)[OF p] that by auto
    ultimately show ?thesis by (auto simp: selected_pool_def split: option.splits)
  qed
  moreover have pcbs: "pcb_ok (?pool i) \<and> pcb_id (?pool i) = i" if "allocated ?pool i" for i
  proof (cases "allocated pool i")
    case True
    with sched_okD(1,4)[OF ok] show ?thesis by (auto simp: selected_pool_def split: option.splits)
  next
    case False
    with that have "?pool i \<noteq> pool i" by (auto simp: allocated_def)
    then have "i = ?c \<and> ?c \<noteq> MAXRTOS_INVALID_PROCESS_ID \<or> out = Some i"
      by (auto simp: selected_pool_def split: option.splits if_splits)
    then have "allocated pool i"
      using mem[of i] part_okD(2)[OF p] domain_okD(1)[OF part_okD(1)[OF p]] by (auto simp: running_in_def)
    with False show ?thesis by simp
  qed
  moreover have "?c' = i" if "allocated ?pool i" "pcb_partition_id (pool i) = part"
    "pcb_state (?pool i) = MAXRTOS_PROCESS_STATE_RUNNING" for i
  proof (rule ccontr)
    assume ne: "?c' \<noteq> i"
    with that(3) have r: "pcb_state (pool i) = MAXRTOS_PROCESS_STATE_RUNNING \<and> (out \<noteq> None \<longrightarrow> i \<noteq> ?c \<or> ?c = MAXRTOS_INVALID_PROCESS_ID)"
      by (auto simp: selected_pool_def split: option.splits if_splits)
    with that(1) ne have "allocated pool i"
      by (auto simp: allocated_def selected_pool_def split: option.splits if_splits)
    with sched_okD(2)[OF ok this] r that(2) have "?c = i" by simp
    with r ne \<open>allocated pool i\<close> show False by (auto split: option.splits)
  qed
  ultimately show ?thesis
    by (intro sched_ok_local[OF ok part]) (simp_all add: pid)
qed

text \<open>The running process blocks and, if one is READY, the next takes over.\<close>

lemma sched_ok_block:
  assumes ok: "sched_ok pool ctxs cur" and b: "allocated pool b" "pcb_state (pool b) = MAXRTOS_PROCESS_STATE_RUNNING"
  defines "part \<equiv> pcb_partition_id (pool b)"
  shows "sched_ok (set_pcb_state b MAXRTOS_PROCESS_STATE_BLOCKED pool) ctxs (cur(part := MAXRTOS_INVALID_PROCESS_ID))"
proof -
  let ?pool = "set_pcb_state b MAXRTOS_PROCESS_STATE_BLOCKED pool"
  from sched_okD(1)[OF ok b(1)] have part: "part < of_nat MAXRTOS_MAX_PARTITIONS"
    by (simp add: pcb_ok_def part_def)
  note p = sched_okD(3)[OF ok part]
  have nin: "r \<le> 31 \<Longrightarrow> i \<in> set (ready (ctxs part) r) \<Longrightarrow> i \<noteq> b" for r i
    using domain_okD(2)[OF part_okD(1)[OF p]] b(2) by auto
  have "domain_ok (ctxs part) ?pool"
    using part_okD(1)[OF p] nin b(1) by (auto simp: domain_ok_def)
  then have "part_ok ?pool part (ctxs part) MAXRTOS_INVALID_PROCESS_ID"
    using part_okD(3)[OF p] by (simp add: part_ok_def running_in_def)
  moreover have "MAXRTOS_INVALID_PROCESS_ID = i" if "allocated ?pool i" "pcb_partition_id (pool i) = part"
    "pcb_state (?pool i) = MAXRTOS_PROCESS_STATE_RUNNING" for i
  proof -
    from that have "i \<noteq> b" "allocated pool i" by (auto simp: allocated_def split: if_splits)
    with sched_okD(2)[OF ok, of i] sched_okD(2)[OF ok b] that show ?thesis by (simp add: part_def)
  qed
  ultimately have "sched_ok ?pool (ctxs(part := ctxs part)) (cur(part := MAXRTOS_INVALID_PROCESS_ID))"
    using sched_okD(1,4)[OF ok] b(1) part
    by (intro sched_ok_local[OF ok part]) (auto simp: part_def allocated_def)
  then show ?thesis by simp
qed

lemma sched_ok_start:
  assumes ok: "sched_ok pool ctxs cur" and part: "part < of_nat MAXRTOS_MAX_PARTITIONS"
    and idle: "cur part = MAXRTOS_INVALID_PROCESS_ID" and top: "top_priority (ctxs part) = Some p"
  shows "sched_ok (set_pcb_state (hd (ready (ctxs part) p)) MAXRTOS_PROCESS_STATE_RUNNING pool)
    (ctxs(part := maxrtos_scheduler_pop p (ctxs part))) (cur(part := hd (ready (ctxs part) p)))"
proof -
  note pk = sched_okD(3)[OF ok part]
  from part_okD(1)[OF pk] have wf: "ctx_wf (ctxs part)" by (simp add: domain_ok_def)
  from top_priority_SomeD[OF top] obtain n as where p: "p \<le> 31" "ready (ctxs part) p = n # as"
    by (metis list.exhaust)
  have "n \<noteq> MAXRTOS_INVALID_PROCESS_ID"
    using domain_okD(1)[OF part_okD(1)[OF pk] p(1), of n] p(2) by auto
  with sched_ok_select[OF ok part _ pop_ok(2,3)[OF wf p], of False MAXRTOS_OK "Some n"] top idle p
  show ?thesis
    by (simp add: select_spec_def top_priority_find running_of_def Let_def selected_pool_def)
qed

lemma sched_ok_priority:
  assumes ok: "sched_ok pool ctxs cur" and i: "allocated pool i" and q: "q \<le> of_nat MAXRTOS_MAX_PRIORITY"
  defines "part \<equiv> pcb_partition_id (pool i)"
  defines "pool' \<equiv> pool(i := (pool i)\<lparr>pcb_priority := q\<rparr>)"
  assumes ctx': "domain_ok ctx' pool'" "\<And>r j. j \<in> set (ready ctx' r) \<Longrightarrow> j = i \<or> j \<in> set (ready (ctxs part) r)"
  shows "sched_ok pool' (ctxs(part := ctx')) cur"
proof -
  note pok = sched_okD(1)[OF ok i]
  then have part: "part < of_nat MAXRTOS_MAX_PARTITIONS" by (simp add: pcb_ok_def part_def)
  note p = sched_okD(3)[OF ok part]
  have al: "allocated pool' j \<longleftrightarrow> allocated pool j" for j by (auto simp: pool'_def allocated_def)
  have "running_in (cur part) pool'"
    using part_okD(2)[OF p] q unfolding running_in_def al by (auto simp: pool'_def)
  then have "part_ok pool' part ctx' (cur part)"
    using ctx' part_okD(3,4)[OF p] by (auto simp: part_ok_def pool'_def part_def)
  moreover have "cur part = j" if "allocated pool' j" "pcb_partition_id (pool j) = part"
    "pcb_state (pool' j) = MAXRTOS_PROCESS_STATE_RUNNING" for j
    using sched_okD(2)[OF ok, of j] that(1)[unfolded al] that(2,3) by (auto simp: pool'_def split: if_splits)
  moreover have "pcb_ok (pool' j)" if "allocated pool' j" for j
    using sched_okD(1)[OF ok, of j] that[unfolded al] q by (auto simp: pool'_def pcb_ok_def)
  ultimately have "sched_ok pool' (ctxs(part := ctx')) (cur(part := cur part))"
    using al sched_okD(4)[OF ok]
    by (intro sched_ok_local[OF ok part]) (auto simp: pool'_def part_def)
  then show ?thesis by simp
qed

lemma domain_ok_priority_unqueued:
  assumes "domain_ok ctx pool" "\<And>r. r \<le> 31 \<Longrightarrow> i \<notin> set (ready ctx r)"
  shows "domain_ok ctx (pool(i := (pool i)\<lparr>pcb_priority := q\<rparr>))"
  using assms by (auto simp: domain_ok_def allocated_def)

lemma domain_ok_requeue:
  assumes ok: "domain_ok ctx pool" and p: "p \<le> 31" "i \<in> set (ready ctx p)" and q: "unat q \<le> 31"
    and ctx': "ctx_wf ctx'" "ready ctx' = (let Q = (ready ctx)(p := remove1 i (ready ctx p)) in Q(unat q := Q (unat q) @ [i]))"
  shows "domain_ok ctx' (pool(i := (pool i)\<lparr>pcb_priority := q\<rparr>))"
proof -
  have d: "r \<le> 31 \<Longrightarrow> distinct (ready ctx r)" for r using ok by (simp add: domain_ok_def)
  have other: "r \<le> 31 \<Longrightarrow> r \<noteq> p \<Longrightarrow> i \<notin> set (ready ctx r)" for r
    using domain_okD(3)[OF ok _ p(2)] domain_okD(3)[OF ok, of r i] p(1) by auto
  show ?thesis
    using p q d other domain_okD[OF ok]
    by (intro domain_okI[OF ctx'(1)]) (auto simp: ctx'(2) Let_def allocated_def split: if_splits)
qed

lemma add_process_eq:
  assumes "allocated pool i" "pcb_state (pool i) = MAXRTOS_PROCESS_STATE_READY"
  shows "maxrtos_scheduler_add_process PTR i pool ctx = maxrtos_scheduler_enqueue PTR i (pcb_priority (pool i)) ctx"
  using assms by (simp add: maxrtos_scheduler_add_process_def process_get_eq)

text \<open>
  What a priority change does to a process that is queued: it leaves its queue and goes to the
  tail of the queue of its new priority, or back to the tail of its old one if that is full.
\<close>

lemma set_priority_queued:
  assumes inv: "sched_inv s" and q: "q \<le> of_nat MAXRTOS_MAX_PRIORITY"
    and i: "allocated (process_pool s) i"
  defines "part \<equiv> pcb_partition_id (process_pool s i)" and "old \<equiv> pcb_priority (process_pool s i)"
  assumes queued: "i \<in> set (ready (scheduler_ctx s part) (unat old))"
  shows "\<exists>ctx' q'. maxrtos_partition_set_process_priority PTR i q s =
      (if q' = q then MAXRTOS_OK else MAXRTOS_ERR_QUEUE_FULL,
       upd_ctx part ctx' (upd_pcb i (\<lambda>b. b\<lparr>pcb_priority := q'\<rparr>) s))
    \<and> q' \<in> {old, q} \<and> ctx_wf ctx'
    \<and> ready ctx' = (let Q = (ready (scheduler_ctx s part))(unat old := remove1 i (ready (scheduler_ctx s part) (unat old)))
                   in Q(unat q' := Q (unat q') @ [i]))"
proof -
  let ?pool = "process_pool s" and ?ctx = "scheduler_ctx s part"
  note ok = inv[unfolded sched_inv_def]
  note pok = sched_okD(1)[OF ok i]
  then have part: "part < of_nat MAXRTOS_MAX_PARTITIONS" and old: "old \<le> of_nat MAXRTOS_MAX_PRIORITY" "unat old \<le> 31"
    by (auto simp: pcb_ok_def part_def old_def word_le_nat_alt)
  note p = sched_okD(3)[OF ok part]
  have wf: "ctx_wf ?ctx" using part_okD(1)[OF p] by (simp add: domain_ok_def)
  have rdy: "pcb_state (?pool i) = MAXRTOS_PROCESS_STATE_READY"
    using domain_okD(2)[OF part_okD(1)[OF p] old(2) queued] .
  let ?Q = "(ready ?ctx)(unat old := remove1 i (ready ?ctx (unat old)))"
  from remove_process_ok[OF wf i rdy] old queued obtain ctx1 where ctx1:
    "maxrtos_scheduler_remove_process PTR i ?pool ?ctx = (MAXRTOS_OK, ctx1)" "ctx_wf ctx1" "ready ctx1 = ?Q"
    by (auto simp: old_def)
  let ?pool2 = "?pool(i := (?pool i)\<lparr>pcb_priority := q\<rparr>)"
  have i2: "allocated ?pool2 i" using i by (simp add: allocated_def)
  show ?thesis
  proof (cases "length (?Q (unat q)) < 8")
    case True
    with enqueue_ok[OF ctx1(2) q, of i] ctx1(3) obtain ctx2 where ctx2:
      "maxrtos_scheduler_enqueue PTR i q ctx1 = (MAXRTOS_OK, ctx2)" "ctx_wf ctx2"
      "ready ctx2 = ?Q(unat q := ?Q (unat q) @ [i])" by auto
    have "maxrtos_partition_set_process_priority PTR i q s
      = (MAXRTOS_OK, upd_ctx part ctx2 (upd_pcb i (\<lambda>b. b\<lparr>pcb_priority := q\<rparr>) s))"
      using q i rdy part ctx1(1) ctx2(1) add_process_eq[of ?pool2 i ctx1] i2
      by (simp add: maxrtos_partition_set_process_priority_def process_get_eq Let_def part_def[symmetric]
        upd_ctx_def upd_pcb_def)
    with ctx2 show ?thesis by (intro exI[of _ ctx2] exI[of _ q]) (simp add: Let_def)
  next
    case False
    have ne: "unat q \<noteq> unat old"
    proof
      assume eq: "unat q = unat old"
      have "length (ready ?ctx (unat old)) \<le> 8" using ctx_wf_ready_length[OF wf old(2)] .
      moreover have "0 < length (ready ?ctx (unat old))" using queued by (cases "ready ?ctx (unat old)") auto
      ultimately have "length (remove1 i (ready ?ctx (unat old))) < 8"
        using queued by (simp add: length_remove1)
      with False eq show False by simp
    qed
    with False ctx1(3) have "maxrtos_scheduler_enqueue PTR i q ctx1 = (MAXRTOS_ERR_QUEUE_FULL, ctx1)"
      by (intro enqueue_full[OF q]) simp
    moreover have "length (ready ctx1 (unat old)) < 8"
      using ctx_wf_ready_length[OF wf old(2)] queued length_pos_if_in_set[OF queued]
      by (simp add: ctx1(3) length_remove1)
    with enqueue_ok[OF ctx1(2) old(1), of i] ctx1(3) obtain ctx2 where ctx2:
      "maxrtos_scheduler_enqueue PTR i old ctx1 = (MAXRTOS_OK, ctx2)" "ctx_wf ctx2"
      "ready ctx2 = ?Q(unat old := ?Q (unat old) @ [i])" by auto
    let ?pool3 = "?pool2(i := (?pool2 i)\<lparr>pcb_priority := old\<rparr>)"
    have i3: "allocated ?pool3 i" using i by (simp add: allocated_def)
    have "maxrtos_partition_set_process_priority PTR i q s
      = (MAXRTOS_ERR_QUEUE_FULL, upd_ctx part ctx2 (upd_pcb i (\<lambda>b. b\<lparr>pcb_priority := old\<rparr>) s))"
      using q i rdy part ctx1(1) calculation ctx2(1) add_process_eq[of ?pool2 i ctx1] add_process_eq[of ?pool3 i ctx1] i2 i3
      by (simp add: maxrtos_partition_set_process_priority_def process_get_eq Let_def part_def[symmetric]
        old_def[symmetric] upd_ctx_def upd_pcb_def)
    moreover have "old \<noteq> q" using ne by auto
    ultimately show ?thesis using ctx2 by (intro exI[of _ ctx2] exI[of _ old]) (simp add: Let_def)
  qed
qed

subsection \<open>The operations keep the invariant\<close>

lemma upd_ctx_triv [simp]: "upd_ctx p (scheduler_ctx s p) s = s"
  by (simp add: upd_ctx_def)

lemma pool_assign_only [simp]: "only_scheduling s ((upd_ctx part ctx s)\<lparr>process_pool := pool, current_id := cur\<rparr>)"
  by (simp add: only_scheduling_iff)

text \<open>A dispatch or a yield of one partition, with its effect on control blocks.\<close>

lemma partition_select_eq:
  assumes inv: "sched_inv s" and part: "part < of_nat MAXRTOS_MAX_PARTITIONS" and live: "\<not> halted s part"
  defines "c \<equiv> current_id s part"
  shows "\<exists>st out ctx'. maxrtos_partition_select PTR part PTR yield s =
      (st, out, (upd_ctx part ctx' s)\<lparr>process_pool := selected_pool c out (process_pool s),
         current_id := (current_id s)(part := case out of None \<Rightarrow> c | Some n \<Rightarrow> n)\<rparr>)
    \<and> select_spec yield (running_of c (process_pool s)) (ready (scheduler_ctx s part)) = (st, out, ready ctx')
    \<and> ctx_wf ctx' \<and> (st = MAXRTOS_OK \<longleftrightarrow> out \<noteq> None)"
proof -
  note ok = inv[unfolded sched_inv_def]
  note p = sched_okD(3)[OF ok part]
  obtain st out queue' where spec:
    "select_spec yield (running_of c (process_pool s)) (ready (scheduler_ctx s part)) = (st, out, queue')"
    by (metis prod.exhaust)
  from dispatch_select_refines[OF part_okD(1,2)[OF p] spec[unfolded c_def]] obtain ctx' where ctx':
    "maxrtos_dispatch_select PTR c PTR yield (scheduler_ctx s part) (process_pool s)
      = (st, out, ctx', selected_pool c out (process_pool s))" "ctx_wf ctx'" "ready ctx' = queue'"
    by (auto simp: c_def)
  have code: "(if yield then maxrtos_kernel_dispatch_yield PTR c PTR (scheduler_ctx s part) (process_pool s)
      else maxrtos_kernel_dispatch PTR c PTR (scheduler_ctx s part) (process_pool s))
      = (st, out, ctx', selected_pool c out (process_pool s))"
    using ctx'(1) by (cases yield) (simp_all add: maxrtos_kernel_dispatch_yield_def maxrtos_kernel_dispatch_def)
  have so: "st = MAXRTOS_OK \<longleftrightarrow> out \<noteq> None"
    using select_spec_preserves[OF part_okD(1,2)[OF p] spec[unfolded c_def] ctx'(2,3)] by simp
  have "maxrtos_partition_select PTR part PTR yield s =
      (st, out, (upd_ctx part ctx' s)\<lparr>process_pool := selected_pool c out (process_pool s),
         current_id := (current_id s)(part := case out of None \<Rightarrow> c | Some n \<Rightarrow> n)\<rparr>)"
    using code so part live unfolding c_def
    by (cases yield; cases out) (auto simp: maxrtos_partition_select_def Let_def upd_ctx_def)
  with spec ctx' so show ?thesis by blast
qed

lemma partition_select_inv:
  assumes inv: "sched_inv s"
  shows "sched_inv (snd (snd (maxrtos_partition_select tablep part outp yield s)))
    \<and> only_scheduling s (snd (snd (maxrtos_partition_select tablep part outp yield s)))"
proof (cases "tablep \<noteq> NULL \<and> outp \<noteq> NULL \<and> part < of_nat MAXRTOS_MAX_PARTITIONS \<and> \<not> halted s part")
  case True
  then have ptrs: "tablep = PTR" "outp = PTR" by (auto intro: ptr.exhaust)
  from True partition_select_eq[OF inv, of part yield] obtain st out ctx' where e:
    "maxrtos_partition_select PTR part PTR yield s =
      (st, out, (upd_ctx part ctx' s)\<lparr>process_pool := selected_pool (current_id s part) out (process_pool s),
         current_id := (current_id s)(part := case out of None \<Rightarrow> current_id s part | Some n \<Rightarrow> n)\<rparr>)"
    "select_spec yield (running_of (current_id s part) (process_pool s)) (ready (scheduler_ctx s part)) = (st, out, ready ctx')"
    "ctx_wf ctx'" by blast
  from sched_ok_select[OF inv[unfolded sched_inv_def] _ e(2,3)] True show ?thesis
    unfolding ptrs e(1) by (simp add: sched_inv_def)
qed (use inv in \<open>auto simp: maxrtos_partition_select_def\<close>)

text \<open>Blocking the running process of a partition.\<close>

lemma partition_block_eq:
  assumes inv: "sched_inv s" and b: "allocated (process_pool s) b"
    "pcb_state (process_pool s b) = MAXRTOS_PROCESS_STATE_RUNNING"
  defines "part \<equiv> pcb_partition_id (process_pool s b)"
  shows "maxrtos_partition_block_and_dispatch PTR part b PTR s =
    (if halted s part then (MAXRTOS_ERR_PARTITION_HALTED, None, s)
     else case top_priority (scheduler_ctx s part) of
       None \<Rightarrow> (MAXRTOS_ERR_QUEUE_EMPTY, None, s)
     | Some p \<Rightarrow> let n = hd (ready (scheduler_ctx s part) p) in
        (MAXRTOS_OK, Some n,
         (upd_ctx part (maxrtos_scheduler_pop p (scheduler_ctx s part)) s)\<lparr>
            process_pool := set_pcb_state n MAXRTOS_PROCESS_STATE_RUNNING
              (set_pcb_state b MAXRTOS_PROCESS_STATE_BLOCKED (process_pool s)),
            current_id := (current_id s)(part := n)\<rparr>))"
proof -
  note ok = inv[unfolded sched_inv_def]
  from sched_okD(1)[OF ok b(1)] have part: "part < of_nat MAXRTOS_MAX_PARTITIONS"
    by (simp add: pcb_ok_def part_def)
  from block_and_dispatch_eq[OF part_okD(1)[OF sched_okD(3)[OF ok part]] b] part show ?thesis
    by (cases "top_priority (scheduler_ctx s part)")
      (auto simp: maxrtos_partition_block_and_dispatch_def Let_def)
qed

lemma partition_block_inv:
  assumes inv: "sched_inv s" and b: "allocated (process_pool s) b"
    "pcb_state (process_pool s b) = MAXRTOS_PROCESS_STATE_RUNNING"
  defines "r \<equiv> maxrtos_partition_block_and_dispatch PTR (pcb_partition_id (process_pool s b)) b PTR s"
  shows "sched_inv (snd (snd r)) \<and> only_scheduling s (snd (snd r))"
proof -
  let ?part = "pcb_partition_id (process_pool s b)" and ?pool = "process_pool s"
  note ok = inv[unfolded sched_inv_def]
  from sched_okD(1)[OF ok b(1)] have part: "?part < of_nat MAXRTOS_MAX_PARTITIONS" by (simp add: pcb_ok_def)
  note blocked = sched_ok_block[OF ok b]
  have "sched_ok (set_pcb_state (hd (ready (scheduler_ctx s ?part) p)) MAXRTOS_PROCESS_STATE_RUNNING
        (set_pcb_state b MAXRTOS_PROCESS_STATE_BLOCKED ?pool))
      ((scheduler_ctx s)(?part := maxrtos_scheduler_pop p (scheduler_ctx s ?part)))
      ((current_id s)(?part := hd (ready (scheduler_ctx s ?part) p)))"
    if "top_priority (scheduler_ctx s ?part) = Some p" for p
    using sched_ok_start[OF blocked part _ that] by simp
  with inv show ?thesis
    unfolding r_def partition_block_eq[OF inv b]
    by (cases "top_priority (scheduler_ctx s ?part)") (simp_all add: Let_def sched_inv_def)
qed

text \<open>A blocked process becomes READY again.\<close>

lemma partition_ready_eq:
  assumes inv: "sched_inv s" and i: "allocated (process_pool s) i"
    "pcb_state (process_pool s i) \<noteq> MAXRTOS_PROCESS_STATE_READY"
  defines "part \<equiv> pcb_partition_id (process_pool s i)"
  defines "p \<equiv> unat (pcb_priority (process_pool s i))"
  defines "s1 \<equiv> upd_pcb i (\<lambda>b. b\<lparr>pcb_state := MAXRTOS_PROCESS_STATE_READY\<rparr>) s"
  shows "length (ready (scheduler_ctx s part) p) < MAXRTOS_MAX_READY_PER_PRIORITY \<Longrightarrow>
      \<exists>ctx'. maxrtos_partition_ready_process PTR part i s = (MAXRTOS_OK, upd_ctx part ctx' s1) \<and> ctx_wf ctx'
        \<and> ready ctx' = (ready (scheduler_ctx s part))(p := ready (scheduler_ctx s part) p @ [i])"
    and "MAXRTOS_MAX_READY_PER_PRIORITY \<le> length (ready (scheduler_ctx s part) p) \<Longrightarrow>
      maxrtos_partition_ready_process PTR part i s = (MAXRTOS_ERR_QUEUE_FULL, s1)"
proof -
  note ok = inv[unfolded sched_inv_def]
  from sched_okD(1)[OF ok i(1)] have part: "part < of_nat MAXRTOS_MAX_PARTITIONS"
    and prio: "pcb_priority (process_pool s i) \<le> of_nat MAXRTOS_MAX_PRIORITY" by (auto simp: pcb_ok_def part_def)
  note pk = sched_okD(3)[OF ok part]
  have wf: "ctx_wf (scheduler_ctx s part)" using part_okD(1)[OF pk] by (simp add: domain_ok_def)
  have s1: "process_pool s1 = set_pcb_state i MAXRTOS_PROCESS_STATE_READY (process_pool s)" "allocated (process_pool s1) i"
    using i(1) by (auto simp: s1_def set_pcb_state_def allocated_def)
  have code: "maxrtos_partition_ready_process PTR part i s =
     (case maxrtos_scheduler_enqueue PTR i (pcb_priority (process_pool s i)) (scheduler_ctx s part) of
        (st, ctx) \<Rightarrow> (st, upd_ctx part ctx s1))"
    using part i(1) add_process_eq[OF s1(2), of "scheduler_ctx s part"] s1
    by (simp add: maxrtos_partition_ready_process_def process_set_state_eq s1_def Let_def)
      (simp add: upd_pcb_def)
  have sc: "upd_ctx part (scheduler_ctx s part) s1 = s1"
    using upd_ctx_triv[of part s1] by (simp add: s1_def del: upd_ctx_triv)
  show "length (ready (scheduler_ctx s part) p) < MAXRTOS_MAX_READY_PER_PRIORITY \<Longrightarrow>
      \<exists>ctx'. maxrtos_partition_ready_process PTR part i s = (MAXRTOS_OK, upd_ctx part ctx' s1) \<and> ctx_wf ctx'
        \<and> ready ctx' = (ready (scheduler_ctx s part))(p := ready (scheduler_ctx s part) p @ [i])"
    using enqueue_ok[OF wf prio, of i] code by (auto simp: p_def)
  show "MAXRTOS_MAX_READY_PER_PRIORITY \<le> length (ready (scheduler_ctx s part) p) \<Longrightarrow>
      maxrtos_partition_ready_process PTR part i s = (MAXRTOS_ERR_QUEUE_FULL, s1)"
    using enqueue_full[OF prio, of "scheduler_ctx s part" i] code sc by (simp add: p_def)
qed

lemma same_sched_refl [simp]: "same_sched pool pool"
  by (simp add: same_sched_def)

text \<open>A process that is neither RUNNING nor queued may be given another such state.\<close>

lemma sched_ok_unqueued_state:
  assumes ok: "sched_ok pool ctxs cur" and i: "allocated pool i" "pcb_state (pool i) \<noteq> MAXRTOS_PROCESS_STATE_RUNNING"
    and out: "\<And>r. r \<le> 31 \<Longrightarrow> i \<notin> set (ready (ctxs (pcb_partition_id (pool i))) r)"
    and st: "st \<noteq> MAXRTOS_PROCESS_STATE_RUNNING" "st \<noteq> MAXRTOS_PROCESS_STATE_UNUSED"
  shows "sched_ok (set_pcb_state i st pool) ctxs cur"
proof -
  let ?pool = "set_pcb_state i st pool" and ?part = "pcb_partition_id (pool i)"
  from sched_okD(1)[OF ok i(1)] have part: "?part < of_nat MAXRTOS_MAX_PARTITIONS" by (simp add: pcb_ok_def)
  note p = sched_okD(3)[OF ok part]
  have "domain_ok (ctxs ?part) ?pool"
    using part_okD(1)[OF p] i(1) out st(2) by (auto simp: domain_ok_def allocated_def)
  moreover have "running_in (cur ?part) ?pool" using part_okD(2)[OF p] i st(2) by (auto simp: running_in_def allocated_def)
  ultimately have "part_ok ?pool ?part (ctxs ?part) (cur ?part)"
    using part_okD(3,4)[OF p] by (auto simp: part_ok_def)
  moreover have "cur ?part = j" if "allocated ?pool j" "pcb_partition_id (pool j) = ?part"
    "pcb_state (?pool j) = MAXRTOS_PROCESS_STATE_RUNNING" for j
    using sched_okD(2)[OF ok, of j] that st(1) by (auto simp: allocated_def split: if_splits)
  ultimately have "sched_ok ?pool (ctxs(?part := ctxs ?part)) (cur(?part := cur ?part))"
    using sched_okD(1,4)[OF ok] i(1) st(2)
    by (intro sched_ok_local[OF ok part]) (auto simp: allocated_def)
  then show ?thesis by simp
qed

lemma sched_ok_ready_unqueued:
  assumes ok: "sched_ok pool ctxs cur" and i: "allocated pool i" "pcb_state (pool i) = MAXRTOS_PROCESS_STATE_BLOCKED"
  shows "sched_ok (set_pcb_state i MAXRTOS_PROCESS_STATE_READY pool) ctxs cur"
proof (rule sched_ok_unqueued_state[OF ok i(1)])
  have part: "pcb_partition_id (pool i) < of_nat MAXRTOS_MAX_PARTITIONS" using sched_okD(1)[OF ok i(1)] by (simp add: pcb_ok_def)
  show "i \<notin> set (ready (ctxs (pcb_partition_id (pool i))) r)" if "r \<le> 31" for r
    using domain_okD(2)[OF part_okD(1)[OF sched_okD(3)[OF ok part]] that] i(2) by auto
qed (use i(2) in simp_all)

lemma set_pcb_state_upd: "set_pcb_state i st (process_pool s) = process_pool (upd_pcb i (\<lambda>b. b\<lparr>pcb_state := st\<rparr>) s)"
  by (simp add: set_pcb_state_def)

lemma partition_ready_inv:
  assumes inv: "sched_inv s" and i: "allocated (process_pool s) i"
    "pcb_state (process_pool s i) = MAXRTOS_PROCESS_STATE_BLOCKED"
  defines "r \<equiv> maxrtos_partition_ready_process PTR (pcb_partition_id (process_pool s i)) i s"
  shows "sched_inv (snd r) \<and> only_scheduling s (snd r)
    \<and> process_pool (snd r) = set_pcb_state i MAXRTOS_PROCESS_STATE_READY (process_pool s)
    \<and> current_id (snd r) = current_id s"
proof -
  let ?part = "pcb_partition_id (process_pool s i)" and ?p = "unat (pcb_priority (process_pool s i))"
  note ok = inv[unfolded sched_inv_def]
  have ns: "pcb_state (process_pool s i) \<noteq> MAXRTOS_PROCESS_STATE_READY" using i(2) by simp
  have nc: "current_id s ?part \<noteq> i"
  proof
    assume "current_id s ?part = i"
    moreover have "?part < of_nat MAXRTOS_MAX_PARTITIONS" using sched_okD(1)[OF ok i(1)] by (simp add: pcb_ok_def)
    ultimately show False
      using part_okD(2)[OF sched_okD(3)[OF ok, of ?part]] i by (auto simp: running_in_def)
  qed
  show ?thesis
  proof (cases "length (ready (scheduler_ctx s ?part) ?p) < MAXRTOS_MAX_READY_PER_PRIORITY")
    case True
    from partition_ready_eq(1)[OF inv i(1) ns True] obtain ctx' where c:
      "r = (MAXRTOS_OK, upd_ctx ?part ctx' (upd_pcb i (\<lambda>b. b\<lparr>pcb_state := MAXRTOS_PROCESS_STATE_READY\<rparr>) s))"
      "ctx_wf ctx'" "ready ctx' = (ready (scheduler_ctx s ?part))(?p := ready (scheduler_ctx s ?part) ?p @ [i])"
      unfolding r_def by blast
    from sched_ok_ready[OF ok i(1) ns c(2,3)] nc show ?thesis
      by (simp add: c(1) sched_inv_def only_scheduling_iff set_pcb_state_def)
  next
    case False
    then show ?thesis
      using partition_ready_eq(2)[OF inv i(1) ns] sched_ok_ready_unqueued[OF ok i]
      by (simp add: r_def sched_inv_def only_scheduling_iff set_pcb_state_def)
  qed
qed

text \<open>A priority change of any process.\<close>

definition queued_in :: "kstate \<Rightarrow> u32 \<Rightarrow> bool" where
  "queued_in s i \<longleftrightarrow> i \<in> set (ready_ids (scheduler_ctx s (pcb_partition_id (process_pool s i))))"

lemma in_ready_ids: "i \<in> set (ready_ids ctx) \<longleftrightarrow> (\<exists>r \<le> 31. i \<in> set (ready ctx r))"
proof
  assume "i \<in> set (ready_ids ctx)"
  then obtain r where "r < 32" "i \<in> set (ready ctx r)" by (auto simp: ready_ids_def simp del: upt_Suc)
  then show "\<exists>r \<le> 31. i \<in> set (ready ctx r)" by (intro exI[of _ r]) simp
qed (auto simp: ready_ids_def simp del: upt_Suc)

lemma set_priority_unqueued:
  assumes inv: "sched_inv s" and q: "q \<le> of_nat MAXRTOS_MAX_PRIORITY"
    and i: "allocated (process_pool s) i"
  defines "part \<equiv> pcb_partition_id (process_pool s i)"
  assumes nq: "i \<notin> set (ready (scheduler_ctx s part) (unat (pcb_priority (process_pool s i))))"
  shows "\<exists>ctx'. maxrtos_partition_set_process_priority PTR i q s =
      (MAXRTOS_OK, upd_ctx part ctx' (upd_pcb i (\<lambda>b. b\<lparr>pcb_priority := q\<rparr>) s))
    \<and> ctx_wf ctx' \<and> ready ctx' = ready (scheduler_ctx s part)"
proof -
  let ?pool = "process_pool s" and ?ctx = "scheduler_ctx s part"
  note ok = inv[unfolded sched_inv_def]
  note pok = sched_okD(1)[OF ok i]
  then have part: "part < of_nat MAXRTOS_MAX_PARTITIONS" and prio: "pcb_priority (?pool i) \<le> of_nat MAXRTOS_MAX_PRIORITY"
    by (auto simp: pcb_ok_def part_def)
  have wf: "ctx_wf ?ctx" using part_okD(1)[OF sched_okD(3)[OF ok part]] by (simp add: domain_ok_def)
  show ?thesis
  proof (cases "pcb_state (?pool i) = MAXRTOS_PROCESS_STATE_READY")
    case True
    from remove_process_ok[OF wf i True prio] nq obtain ctx1 where ctx1:
      "maxrtos_scheduler_remove_process PTR i ?pool ?ctx = (MAXRTOS_ERR_NOT_FOUND, ctx1)" "ctx_wf ctx1"
      "ready ctx1 = ready ?ctx" by (auto simp: remove1_idem)
    with True i part q show ?thesis
      by (intro exI[of _ ctx1]) (simp add: maxrtos_partition_set_process_priority_def process_get_eq Let_def
        part_def[symmetric] upd_ctx_def upd_pcb_def)
  next
    case False
    with i part q wf show ?thesis
      by (intro exI[of _ ?ctx]) (simp add: maxrtos_partition_set_process_priority_def process_get_eq Let_def
        part_def[symmetric] upd_ctx_def upd_pcb_def)
  qed
qed

lemma set_priority_inv:
  fixes tablep i q
  assumes inv: "sched_inv s"
  defines "r \<equiv> maxrtos_partition_set_process_priority tablep i q s"
  shows "sched_inv (snd r) \<and> only_scheduling s (snd r) \<and> current_id (snd r) = current_id s
    \<and> (\<exists>q'. process_pool (snd r) = (process_pool s)(i := (process_pool s i)\<lparr>pcb_priority := q'\<rparr>)
        \<and> (fst r = MAXRTOS_OK \<longrightarrow> q' = q) \<and> (fst r \<noteq> MAXRTOS_OK \<longrightarrow> q' = pcb_priority (process_pool s i)))"
proof (cases "tablep \<noteq> NULL \<and> q \<le> of_nat MAXRTOS_MAX_PRIORITY \<and> allocated (process_pool s) i")
  case False
  then have "snd r = s \<and> fst r \<noteq> MAXRTOS_OK"
    by (auto simp: r_def maxrtos_partition_set_process_priority_def process_get_eq)
  with inv show ?thesis by (simp add: fun_upd_idem exI[of _ "pcb_priority (process_pool s i)"])
next
  case True
  then have q: "q \<le> of_nat MAXRTOS_MAX_PRIORITY" and i: "allocated (process_pool s) i"
    and r: "r = maxrtos_partition_set_process_priority PTR i q s"
    by (cases tablep; simp add: r_def)+
  let ?part = "pcb_partition_id (process_pool s i)" and ?old = "pcb_priority (process_pool s i)"
  let ?ctx = "scheduler_ctx s ?part"
  note ok = inv[unfolded sched_inv_def]
  from sched_okD(1)[OF ok i] have part: "?part < of_nat MAXRTOS_MAX_PARTITIONS" and old: "unat ?old \<le> 31"
    by (auto simp: pcb_ok_def word_le_nat_alt)
  note dom = part_okD(1)[OF sched_okD(3)[OF ok part]]
  show ?thesis
  proof (cases "i \<in> set (ready ?ctx (unat ?old))")
    case True
    from set_priority_queued[OF inv q i True] obtain ctx' q' where e:
      "r = (if q' = q then MAXRTOS_OK else MAXRTOS_ERR_QUEUE_FULL,
        upd_ctx ?part ctx' (upd_pcb i (\<lambda>b. b\<lparr>pcb_priority := q'\<rparr>) s))" "q' \<in> {?old, q}" "ctx_wf ctx'"
      "ready ctx' = (let Q = (ready ?ctx)(unat ?old := remove1 i (ready ?ctx (unat ?old)))
                   in Q(unat q' := Q (unat q') @ [i]))"
      unfolding r by blast
    have q': "q' \<le> of_nat MAXRTOS_MAX_PRIORITY" using e(2) q old by (auto simp: word_le_nat_alt)
    then have q'n: "unat q' \<le> 31" by (simp add: word_le_nat_alt)
    have mem: "j = i \<or> j \<in> set (ready ?ctx r)" if "j \<in> set (ready ctx' r)" for j r
      using that by (auto simp: e(4) Let_def split: if_splits dest: notin_set_remove1)
    have "sched_ok ((process_pool s)(i := (process_pool s i)\<lparr>pcb_priority := q'\<rparr>))
        ((scheduler_ctx s)(?part := ctx')) (current_id s)"
      by (rule sched_ok_priority[OF ok i q' domain_ok_requeue[OF dom old True q'n e(3,4)] mem])
    then show ?thesis using e(1,2) by (auto simp: sched_inv_def only_scheduling_iff)
  next
    case False
    from set_priority_unqueued[OF inv q i False] obtain ctx' where e:
      "r = (MAXRTOS_OK, upd_ctx ?part ctx' (upd_pcb i (\<lambda>b. b\<lparr>pcb_priority := q\<rparr>) s))"
      "ctx_wf ctx'" "ready ctx' = ready ?ctx" unfolding r by blast
    have nq: "i \<notin> set (ready ctx' r)" if "r \<le> 31" for r
      using domain_okD(3)[OF dom that, of i] False e(3) by auto
    have "domain_ok ctx' ((process_pool s)(i := (process_pool s i)\<lparr>pcb_priority := q\<rparr>))"
      by (rule domain_ok_priority_unqueued[OF domain_ok_cong[OF dom e(2,3)] nq])
    from sched_ok_priority[OF ok i q this] e(3)
    have "sched_ok ((process_pool s)(i := (process_pool s i)\<lparr>pcb_priority := q\<rparr>))
        ((scheduler_ctx s)(?part := ctx')) (current_id s)" by simp
    then show ?thesis using e(1) by (auto simp: sched_inv_def only_scheduling_iff)
  qed
qed

lemma set_priority_queued_in:
  assumes "sched_inv s"
  shows "queued_in (snd (maxrtos_partition_set_process_priority tablep i q s)) j \<longleftrightarrow> queued_in s j"
proof (cases "tablep \<noteq> NULL \<and> q \<le> of_nat MAXRTOS_MAX_PRIORITY \<and> allocated (process_pool s) i")
  case False
  then have "snd (maxrtos_partition_set_process_priority tablep i q s) = s"
    by (auto simp: maxrtos_partition_set_process_priority_def process_get_eq)
  then show ?thesis by simp
next
  case True
  then have t: "tablep = PTR" and q: "q \<le> of_nat MAXRTOS_MAX_PRIORITY" and i: "allocated (process_pool s) i"
    by (auto intro: ptr.exhaust)
  let ?part = "pcb_partition_id (process_pool s i)" and ?old = "pcb_priority (process_pool s i)"
  let ?ctx = "scheduler_ctx s ?part"
  note ok = assms[unfolded sched_inv_def]
  from sched_okD(1)[OF ok i] have part: "?part < of_nat MAXRTOS_MAX_PARTITIONS" and old: "unat ?old \<le> 31"
    by (auto simp: pcb_ok_def word_le_nat_alt)
  from q have q31: "unat q \<le> 31" by (simp add: word_le_nat_alt)
  show ?thesis
  proof (cases "i \<in> set (ready ?ctx (unat ?old))")
    case True
    from set_priority_queued[OF assms q i True] obtain ctx' q' where e:
      "maxrtos_partition_set_process_priority PTR i q s = (if q' = q then MAXRTOS_OK else MAXRTOS_ERR_QUEUE_FULL,
        upd_ctx ?part ctx' (upd_pcb i (\<lambda>b. b\<lparr>pcb_priority := q'\<rparr>) s))" "q' \<in> {?old, q}"
      "ready ctx' = (let Q = (ready ?ctx)(unat ?old := remove1 i (ready ?ctx (unat ?old)))
                   in Q(unat q' := Q (unat q') @ [i]))" by blast
    have q': "unat q' \<le> 31" using e(2) q31 old by auto
    have "(\<exists>r \<le> 31. j \<in> set (ready ctx' r)) \<longleftrightarrow> (\<exists>r \<le> 31. j \<in> set (ready ?ctx r))"
    proof (cases "j = i")
      case True
      have "i \<in> set (ready ctx' (unat q'))" by (simp add: e(3) Let_def)
      with q' old \<open>i \<in> set (ready ?ctx (unat ?old))\<close> True show ?thesis by blast
    next
      case False
      then have "j \<in> set (ready ctx' r) \<longleftrightarrow> j \<in> set (ready ?ctx r)" for r
        using e(3) by (auto simp: Let_def in_set_remove1)
      then show ?thesis by simp
    qed
    then show ?thesis by (simp add: t e(1) queued_in_def in_ready_ids)
  next
    case False
    from set_priority_unqueued[OF assms q i False] obtain ctx' where e:
      "maxrtos_partition_set_process_priority PTR i q s = (MAXRTOS_OK,
        upd_ctx ?part ctx' (upd_pcb i (\<lambda>b. b\<lparr>pcb_priority := q\<rparr>) s))" "ready ctx' = ready ?ctx" by blast
    show ?thesis by (simp add: t e queued_in_def in_ready_ids)
  qed
qed

subsection \<open>Initialisation\<close>

lemma table_init_loop:
  "case fold (\<lambda>partition_id (status, s).
       if status = MAXRTOS_OK then
         (case maxrtos_scheduler_init PTR (scheduler_ctx s partition_id) of
            (status', ctx) \<Rightarrow> (status', upd_ctx partition_id ctx s))
       else (status, s)) ps (MAXRTOS_OK, s) of (st, s') \<Rightarrow>
    st = MAXRTOS_OK \<and> only_scheduling s s' \<and> process_pool s' = process_pool s \<and> current_id s' = current_id s
    \<and> (\<forall>p. (p \<in> set ps \<or> ctx_wf (scheduler_ctx s p) \<and> (\<forall>r \<le> 31. ready (scheduler_ctx s p) r = [])) \<longrightarrow>
          ctx_wf (scheduler_ctx s' p) \<and> (\<forall>r \<le> 31. ready (scheduler_ctx s' p) r = []))"
proof (induction ps arbitrary: s)
  case Nil
  then show ?case by simp
next
  case (Cons p ps)
  let ?i = "maxrtos_scheduler_init PTR (scheduler_ctx s p)"
  obtain ctx where i: "?i = (MAXRTOS_OK, ctx)" "ctx_wf ctx" "\<forall>r \<le> 31. ready ctx r = []"
    using scheduler_init_ok[of "scheduler_ctx s p"] by (cases ?i) auto
  with Cons.IH[of "upd_ctx p ctx s"] show ?case
    by (auto simp: only_scheduling_iff split: prod.splits)
qed

lemma table_init_clear:
  "fold (\<lambda>p s. s\<lparr>current_id := (current_id s)(p := v), halted := (halted s)(p := h)\<rparr>) ps s
    = s\<lparr>current_id := (\<lambda>p. if p \<in> set ps then v else current_id s p),
        halted := (\<lambda>p. if p \<in> set ps then h else halted s p)\<rparr>"
  by (induction ps arbitrary: s) (auto simp: fun_eq_iff)

lemma ready_ids_empty: "\<forall>r \<le> MAXRTOS_MAX_PRIORITY. ready ctx r = [] \<Longrightarrow> ready_ids ctx = []"
  by (auto simp: ready_ids_def simp del: upt_Suc)

text \<open>
  Initialisation establishes the scheduling invariant: from any state whose allocated
  processes are well configured and none of which is RUNNING, \<open>maxrtos_partition_table_init\<close>
  succeeds and leaves a consistent table with empty queues, no current process and no halted
  partition.
\<close>

lemma partition_table_init_invariant:
  assumes "\<And>i. allocated (process_pool s) i \<Longrightarrow>
    pcb_ok (process_pool s i) \<and> pcb_id (process_pool s i) = i
    \<and> pcb_state (process_pool s i) \<noteq> MAXRTOS_PROCESS_STATE_RUNNING"
  shows "case maxrtos_partition_table_init PTR s of (status, s') \<Rightarrow>
    status = MAXRTOS_OK \<and> sched_inv s' \<and> process_pool s' = process_pool s
    \<and> waitlists s' = waitlists s \<and> s_next_due s' = s_next_due s
    \<and> s_port_pool s' = s_port_pool s \<and> s_sampling_port_pool s' = s_sampling_port_pool s
    \<and> (\<forall>p < of_nat MAXRTOS_MAX_PARTITIONS. \<not> halted s' p \<and> current_id s' p = MAXRTOS_INVALID_PROCESS_ID
        \<and> ready_ids (scheduler_ctx s' p) = [])"
proof -
  let ?loop = "fold (\<lambda>partition_id (status, s).
       if status = MAXRTOS_OK then
         (case maxrtos_scheduler_init PTR (scheduler_ctx s partition_id) of
            (status', ctx) \<Rightarrow> (status', upd_ctx partition_id ctx s))
       else (status, s)) (ids_below 8) (MAXRTOS_OK, s)"
  obtain st s1 where l: "?loop = (st, s1)" by (rule prod.exhaust)
  with table_init_loop[where ps = "ids_below 8" and s = s]
  have s1: "st = MAXRTOS_OK" "only_scheduling s s1" "process_pool s1 = process_pool s"
    "\<And>p. p < 8 \<Longrightarrow> ctx_wf (scheduler_ctx s1 p) \<and> (\<forall>r \<le> 31. ready (scheduler_ctx s1 p) r = [])"
    by simp_all
  let ?s' = "s1\<lparr>current_id := (\<lambda>p. if p < 8 then MAXRTOS_INVALID_PROCESS_ID else current_id s1 p),
        halted := (\<lambda>p. if p < 8 then False else halted s1 p)\<rparr>"
  have r: "maxrtos_partition_table_init PTR s = (MAXRTOS_OK, ?s')"
    using l s1(1) by (simp add: maxrtos_partition_table_init_def table_init_clear)
  have "sched_inv ?s'"
    using assms s1 by (auto simp: sched_inv_def sched_ok_def part_ok_def running_in_def domain_ok_def)
  moreover have "ready_ids (scheduler_ctx ?s' p) = []" if "p < 8" for p
    using s1(4)[OF that] by (simp add: ready_ids_empty)
  ultimately show ?thesis using s1(2,3) by (simp add: r only_scheduling_iff)
qed

text \<open>
  C20. Scheduling invariant: whatever the arguments, dispatching, yielding and changing a priority
  keep it, and so do blocking the running process of a partition and making a blocked process
  READY. (The invariant says, among others: what is queued is READY, of the right partition and
  priority, and queued once; a RUNNING process is the current one of its partition.)
\<close>

theorem partition_operations_keep_invariant:
  assumes "sched_inv s"
  shows "sched_inv (snd (snd (maxrtos_partition_dispatch tablep part outp s)))
    \<and> sched_inv (snd (snd (maxrtos_partition_yield tablep part outp s)))
    \<and> sched_inv (snd (maxrtos_partition_set_process_priority tablep i prio s))
    \<and> (allocated (process_pool s) b \<and> pcb_state (process_pool s b) = MAXRTOS_PROCESS_STATE_RUNNING \<longrightarrow>
        sched_inv (snd (snd (maxrtos_partition_block_and_dispatch PTR (pcb_partition_id (process_pool s b)) b PTR s))))
    \<and> (allocated (process_pool s) b \<and> pcb_state (process_pool s b) = MAXRTOS_PROCESS_STATE_BLOCKED \<longrightarrow>
        sched_inv (snd (maxrtos_partition_ready_process PTR (pcb_partition_id (process_pool s b)) b s)))"
  using partition_select_inv[OF assms] set_priority_inv[OF assms] partition_block_inv[OF assms]
    partition_ready_inv[OF assms]
  by (simp add: maxrtos_partition_dispatch_def maxrtos_partition_yield_def)

text \<open>
  Isolation of scheduling: dispatching or yielding in one partition leaves the control
  blocks, the ready queues and the current process of every other partition as they were.
\<close>

lemma partition_select_isolated:
  assumes "sched_inv s"
  shows "case (if yield then maxrtos_partition_yield tablep part outp s
               else maxrtos_partition_dispatch tablep part outp s) of (status, out, s') \<Rightarrow>
    (\<forall>i. pcb_partition_id (process_pool s i) \<noteq> part \<longrightarrow> process_pool s' i = process_pool s i)
    \<and> (\<forall>p. p \<noteq> part \<longrightarrow> scheduler_ctx s' p = scheduler_ctx s p \<and> current_id s' p = current_id s p)"
proof (cases "tablep \<noteq> NULL \<and> outp \<noteq> NULL \<and> part < of_nat MAXRTOS_MAX_PARTITIONS \<and> \<not> halted s part")
  case True
  then have ptrs: "tablep = PTR" "outp = PTR" by (auto intro: ptr.exhaust)
  let ?c = "current_id s part"
  from True partition_select_eq[OF assms, of part yield] obtain st out ctx' where e:
    "maxrtos_partition_select PTR part PTR yield s =
      (st, out, (upd_ctx part ctx' s)\<lparr>process_pool := selected_pool ?c out (process_pool s),
         current_id := (current_id s)(part := case out of None \<Rightarrow> ?c | Some n \<Rightarrow> n)\<rparr>)"
    "select_spec yield (running_of ?c (process_pool s)) (ready (scheduler_ctx s part)) = (st, out, ready ctx')"
    by blast
  from True have p: "part_ok (process_pool s) part (scheduler_ctx s part) ?c"
    using sched_okD(3)[OF assms[unfolded sched_inv_def]] by simp
  have "selected_pool ?c out (process_pool s) i = process_pool s i"
    if "pcb_partition_id (process_pool s i) \<noteq> part" for i
  proof -
    note mem = select_spec_members[OF part_okD(1,2)[OF p] e(2)]
    have "out \<noteq> Some i" using mem[of i] part_okD(3,4)[OF p] that by auto
    moreover have "?c = i \<Longrightarrow> i = MAXRTOS_INVALID_PROCESS_ID" using part_okD(4)[OF p] that by auto
    ultimately show ?thesis by (auto simp: selected_pool_def split: option.splits)
  qed
  with e(1) show ?thesis
    by (cases yield) (simp_all add: ptrs maxrtos_partition_yield_def maxrtos_partition_dispatch_def)
qed (auto simp: maxrtos_partition_yield_def maxrtos_partition_dispatch_def maxrtos_partition_select_def)

text \<open>
  A halted partition is never scheduled: dispatch, yield and block-and-dispatch report it and
  change nothing.
\<close>

lemma halted_partition_not_scheduled:
  assumes "halted s part" "part < of_nat MAXRTOS_MAX_PARTITIONS"
  shows "maxrtos_partition_dispatch PTR part PTR s = (MAXRTOS_ERR_PARTITION_HALTED, None, s)
    \<and> maxrtos_partition_yield PTR part PTR s = (MAXRTOS_ERR_PARTITION_HALTED, None, s)
    \<and> maxrtos_partition_block_and_dispatch PTR part b PTR s = (MAXRTOS_ERR_PARTITION_HALTED, None, s)"
  using assms by (simp add: maxrtos_partition_dispatch_def maxrtos_partition_yield_def maxrtos_partition_select_def
    maxrtos_partition_block_and_dispatch_def)

text \<open>
  C31. A priority change never loses a process: under the invariant, a process is queued after the
  call exactly if it was before, whatever the outcome. On success it has the new priority and, if
  queued, stands last in the queue of that priority; the only failure with valid arguments is a
  full queue, which leaves the old priority (but moves the process to the tail of its old queue).
  No other control block changes.
\<close>

theorem set_process_priority_keeps_process:
  assumes "sched_inv s" "q \<le> of_nat MAXRTOS_MAX_PRIORITY" "allocated (process_pool s) i"
  shows "case maxrtos_partition_set_process_priority PTR i q s of (status, s') \<Rightarrow>
    status \<in> {MAXRTOS_OK, MAXRTOS_ERR_QUEUE_FULL}
    \<and> pcb_priority (process_pool s' i) = (if status = MAXRTOS_OK then q else pcb_priority (process_pool s i))
    \<and> (queued_in s' i \<longleftrightarrow> queued_in s i)
    \<and> (queued_in s i \<longrightarrow> (let p = unat (pcb_priority (process_pool s' i));
          ctx' = scheduler_ctx s' (pcb_partition_id (process_pool s i)) in
          ready ctx' p \<noteq> [] \<and> last (ready ctx' p) = i))
    \<and> (\<forall>j. j \<noteq> i \<longrightarrow> process_pool s' j = process_pool s j)"
proof -
  let ?part = "pcb_partition_id (process_pool s i)" and ?old = "pcb_priority (process_pool s i)"
  let ?ctx = "scheduler_ctx s ?part"
  note ok = assms(1)[unfolded sched_inv_def]
  from sched_okD(1)[OF ok assms(3)] have part: "?part < of_nat MAXRTOS_MAX_PARTITIONS" and old: "unat ?old \<le> 31"
    by (auto simp: pcb_ok_def word_le_nat_alt)
  from assms(2) have q: "unat q \<le> 31" by (simp add: word_le_nat_alt)
  note dom = part_okD(1)[OF sched_okD(3)[OF ok part]]
  have where_queued: "queued_in s i \<longleftrightarrow> i \<in> set (ready ?ctx (unat ?old))"
    using domain_okD(3)[OF dom, of _ i] old by (auto simp: queued_in_def in_ready_ids)
  show ?thesis
  proof (cases "i \<in> set (ready ?ctx (unat ?old))")
    case True
    from set_priority_queued[OF assms True] obtain ctx' q' where e:
      "maxrtos_partition_set_process_priority PTR i q s = (if q' = q then MAXRTOS_OK else MAXRTOS_ERR_QUEUE_FULL,
        upd_ctx ?part ctx' (upd_pcb i (\<lambda>b. b\<lparr>pcb_priority := q'\<rparr>) s))" "q' \<in> {?old, q}"
      "ready ctx' = (let Q = (ready ?ctx)(unat ?old := remove1 i (ready ?ctx (unat ?old)))
                   in Q(unat q' := Q (unat q') @ [i]))" by blast
    have tail: "ready ctx' (unat q') \<noteq> [] \<and> last (ready ctx' (unat q')) = i" by (simp add: e(3) Let_def)
    then have "i \<in> set (ready ctx' (unat q'))" by (metis last_in_set)
    moreover have "unat q' \<le> 31" using e(2) q old by auto
    ultimately have "queued_in (upd_ctx ?part ctx' (upd_pcb i (\<lambda>b. b\<lparr>pcb_priority := q'\<rparr>) s)) i"
      by (auto simp: queued_in_def in_ready_ids)
    with e(1,2) tail True where_queued show ?thesis by auto
  next
    case False
    from set_priority_unqueued[OF assms False] obtain ctx' where e:
      "maxrtos_partition_set_process_priority PTR i q s = (MAXRTOS_OK,
        upd_ctx ?part ctx' (upd_pcb i (\<lambda>b. b\<lparr>pcb_priority := q\<rparr>) s))" "ready ctx' = ready ?ctx" by blast
    have "\<not> queued_in (upd_ctx ?part ctx' (upd_pcb i (\<lambda>b. b\<lparr>pcb_priority := q\<rparr>) s)) i"
      using False where_queued e(2) by (simp add: queued_in_def in_ready_ids)
    with e(1) False where_queued show ?thesis by simp
  qed
qed

subsection \<open>Examples\<close>

lemma part_ok_code [code]:
  "part_ok pool part ctx c \<longleftrightarrow> domain_ok ctx pool
     \<and> list_all (\<lambda>r. list_all (\<lambda>i. pcb_partition_id (pool i) = part) (ready ctx r)) [0..<32]
     \<and> running_in c pool \<and> (c \<noteq> MAXRTOS_INVALID_PROCESS_ID \<longrightarrow> pcb_partition_id (pool c) = part)"
  unfolding list_all_prios by (auto simp: part_ok_def Ball_set)

lemma sched_ok_code [code]:
  "sched_ok pool ctxs cur \<longleftrightarrow>
     list_all (\<lambda>i. allocated pool i \<longrightarrow> pcb_ok (pool i) \<and> pcb_id (pool i) = i \<and>
       (pcb_state (pool i) = MAXRTOS_PROCESS_STATE_RUNNING \<longrightarrow> cur (pcb_partition_id (pool i)) = i)) (ids_below 16)
     \<and> list_all (\<lambda>part. part_ok pool part (ctxs part) (cur part)) (ids_below 8)"
proof -
  have "allocated pool i \<Longrightarrow> i < 16" for i by (simp add: allocated_def)
  then show ?thesis unfolding list_all_iff set_ids_below_16 set_ids_below_8 Ball_def
    by (auto simp: sched_ok_def)
qed

definition blank_fifo :: maxrtos_kernel_fifo_t where
  "blank_fifo = \<lparr>fifo_buffer = 0, fifo_buffer_capacity_bytes = 0, fifo_message_size = 0, fifo_capacity = 0,
     fifo_head = 0, fifo_count = 0\<rparr>"

text \<open>A state with nothing allocated, as after the pools' initialisation.\<close>

definition blank_state :: kstate where
  "blank_state = \<lparr>process_pool = (\<lambda>_. example_pcb MAXRTOS_PROCESS_STATE_UNUSED 0),
     scheduler_ctx = (\<lambda>_. empty_ctx), current_id = (\<lambda>_. MAXRTOS_INVALID_PROCESS_ID), halted = (\<lambda>_. False),
     s_current_tick = 0, s_pending_misses = 0, s_next_due = 0,
     waitlists = (\<lambda>_. \<lparr>wl_items = (\<lambda>_. 0), wl_count = 0\<rparr>),
     s_mutex_pool = (\<lambda>_. \<lparr>mtx_in_use = False, mtx_partition_id = MAXRTOS_INVALID_PARTITION_ID,
        mtx_owner = MAXRTOS_INVALID_PROCESS_ID\<rparr>),
     s_semaphore_pool = (\<lambda>_. \<lparr>sem_in_use = False, sem_partition_id = MAXRTOS_INVALID_PARTITION_ID,
        sem_count = 0, sem_max = 0\<rparr>),
     s_buffer_pool = (\<lambda>_. \<lparr>buf_in_use = False, buf_partition_id = MAXRTOS_INVALID_PARTITION_ID,
        buf_discipline = MAXRTOS_QUEUING_FIFO, buf_fifo = blank_fifo\<rparr>),
     s_port_pool = (\<lambda>_. \<lparr>qp_in_use = False, qp_sender_mask = 0, qp_receiver_mask = 0, qp_fifo = blank_fifo\<rparr>),
     s_sampling_port_pool = (\<lambda>_. \<lparr>sp_in_use = False, sp_writer_mask = 0, sp_reader_mask = 0, sp_storage = 0,
        sp_message_size = 0, sp_has_message = False\<rparr>),
     mem = (\<lambda>_. 0), buffer_storage = (\<lambda>i. 0x20000000 + 512 * i)\<rparr>"

text \<open>Partition 0 runs process 9 (priority 3); 2 (priority 1) and 5 (priority 3) are queued.\<close>

definition example_state :: kstate where
  "example_state = blank_state\<lparr>process_pool := example_pool,
     scheduler_ctx := (\<lambda>p. if p = 0 then example_ctx else empty_ctx),
     current_id := (\<lambda>p. if p = 0 then 9 else MAXRTOS_INVALID_PROCESS_ID)\<rparr>"

lemma example_state_inv: "sched_inv example_state"
  by code_simp

lemma example_allocated: "allocated (process_pool example_state) 5" "allocated (process_pool example_state) 9"
  by code_simp+

lemma partition_table_init_invariant_witness:
  "case maxrtos_partition_table_init PTR blank_state of (status, s') \<Rightarrow> status = MAXRTOS_OK \<and> sched_inv s'"
  using partition_table_init_invariant[of blank_state]
  by (auto simp: blank_state_def allocated_def example_pcb_def split: prod.splits)

lemma partition_operations_keep_invariant_witness:
  "sched_inv (snd (snd (maxrtos_partition_dispatch PTR 0 PTR example_state)))"
  using partition_operations_keep_invariant[OF example_state_inv] by blast

lemma partition_select_isolated_witness:
  "scheduler_ctx (snd (snd (maxrtos_partition_dispatch PTR 0 PTR example_state))) 3 = empty_ctx"
  using partition_select_isolated[OF example_state_inv, where yield = False and tablep = PTR and part = 0 and outp = PTR]
  by (auto simp: example_state_def split: prod.splits)

lemma halted_partition_not_scheduled_witness:
  "maxrtos_partition_dispatch PTR 2 PTR (example_state\<lparr>halted := (\<lambda>_. True)\<rparr>)
    = (MAXRTOS_ERR_PARTITION_HALTED, None, example_state\<lparr>halted := (\<lambda>_. True)\<rparr>)"
  using halted_partition_not_scheduled[of "example_state\<lparr>halted := (\<lambda>_. True)\<rparr>" 2] by simp

lemma set_process_priority_keeps_process_witness:
  "case maxrtos_partition_set_process_priority PTR 5 1 example_state of (status, s') \<Rightarrow>
    status = MAXRTOS_OK \<and> pcb_priority (process_pool s' 5) = 1 \<and> queued_in s' 5"
proof -
  have "fst (maxrtos_partition_set_process_priority PTR 5 1 example_state) = MAXRTOS_OK"
    "queued_in example_state 5" by code_simp+
  then show ?thesis
    using set_process_priority_keeps_process[OF example_state_inv _ example_allocated(1), of 1]
    by (auto split: prod.splits)
qed

end
