(* ===== verification/Timing_Core.thy ===== *)
theory Timing_Core
  imports Partition
begin

text \<open>
  The clock of tick.c (\<open>maxrtos_kernel_tick_now\<close>, \<open>tick_after\<close>, \<open>tick_reset\<close>) and the due bound and
  deadline arming of timing.c: \<open>s_next_due\<close> is a lower bound on the next tick at which a time-out,
  release or deadline can be due, so that the tick handler scans the process pool only then. The
  invariant \<open>due_ok\<close> states it, and the operations that set a wake tick or a deadline keep it.
\<close>

definition maxrtos_kernel_timing_reset :: "kstate \<Rightarrow> kstate" where
  [op_defs]: "maxrtos_kernel_timing_reset s = s\<lparr>s_pending_misses := 0, s_next_due := 0\<rparr>"

definition maxrtos_process_pool_init :: "kstate \<Rightarrow> kstate" where
  [op_defs]: "maxrtos_process_pool_init s =
     (let s1 = maxrtos_kernel_timing_reset s in s1\<lparr>process_pool := process_slots_init (process_pool s1)\<rparr>)"

definition maxrtos_kernel_timing_note_due :: "u32 \<Rightarrow> kstate \<Rightarrow> kstate" where
  [op_defs]: "maxrtos_kernel_timing_note_due tick s =
     (if tick \<noteq> MAXRTOS_TICK_NONE \<and> tick < s_next_due s then s\<lparr>s_next_due := tick\<rparr> else s)"

definition maxrtos_kernel_timing_is_due :: "u32 \<Rightarrow> kstate \<Rightarrow> bool" where
  [op_defs]: "maxrtos_kernel_timing_is_due now s \<longleftrightarrow> now \<ge> s_next_due s"

definition refresh_due_step :: "kstate \<Rightarrow> u32 \<Rightarrow> u32 \<Rightarrow> u32" where
  [op_defs]: "refresh_due_step s i earliest =
     (case get_pcb i s of
        None \<Rightarrow> earliest
      | Some pcb \<Rightarrow>
          let e1 = (if pcb_wake_tick pcb < earliest then pcb_wake_tick pcb else earliest)
          in if pcb_deadline_time pcb < e1 then pcb_deadline_time pcb else e1)"

definition maxrtos_kernel_timing_refresh_due :: "kstate \<Rightarrow> kstate" where
  [op_defs]: "maxrtos_kernel_timing_refresh_due s =
     s\<lparr>s_next_due := fold (refresh_due_step s) (ids_below MAXRTOS_MAX_PROCESSES) MAXRTOS_TICK_NONE\<rparr>"

definition arm_deadline :: "u32 \<Rightarrow> kstate \<Rightarrow> kstate" where
  [op_defs]: "arm_deadline i s =
     (let pcb = process_pool s i in
      if pcb_time_capacity pcb > 0 then
        let deadline = pcb_release_time pcb + pcb_time_capacity pcb in
        maxrtos_kernel_timing_note_due deadline (upd_pcb i (\<lambda>b. b\<lparr>pcb_deadline_time := deadline\<rparr>) s)
      else upd_pcb i (\<lambda>b. b\<lparr>pcb_deadline_time := MAXRTOS_TICK_NONE\<rparr>) s)"

text \<open>The pointer argument is the identifier whose slot it points at, \<open>None\<close> for NULL.\<close>

definition maxrtos_process_rearm_timing :: "u32 option \<Rightarrow> u32 \<Rightarrow> kstate \<Rightarrow> kstate" where
  [op_defs]: "maxrtos_process_rearm_timing pcbp now s =
     (case pcbp of
        None \<Rightarrow> s
      | Some i \<Rightarrow> arm_deadline i (upd_pcb i (\<lambda>b. b\<lparr>pcb_periodic_waiting := False,
          pcb_timed_waiting := False, pcb_release_time := now\<rparr>) s))"

definition maxrtos_kernel_tick_after :: "u32 \<Rightarrow> ptr \<Rightarrow> kstate \<Rightarrow> maxrtos_status \<times> u32 option" where
  [op_defs]: "maxrtos_kernel_tick_after timeout outp s =
     (if outp \<noteq> NULL then
        if timeout = MAXRTOS_TIMEOUT_INFINITE then (MAXRTOS_OK, Some MAXRTOS_TICK_NONE)
        else if timeout \<ge> MAXRTOS_TICK_NONE - s_current_tick s then (MAXRTOS_ERR_OVERFLOW, None)
        else (MAXRTOS_OK, Some (s_current_tick s + timeout))
      else (MAXRTOS_ERR_INVALID_ARG, None))"

definition maxrtos_kernel_tick_now :: "kstate \<Rightarrow> u32" where
  [op_defs]: "maxrtos_kernel_tick_now s = s_current_tick s"

definition maxrtos_kernel_tick_reset :: "kstate \<Rightarrow> kstate" where
  [op_defs]: "maxrtos_kernel_tick_reset s = maxrtos_kernel_timing_note_due 0 (s\<lparr>s_current_tick := 0\<rparr>)"

definition maxrtos_process_set_timing :: "u32 \<Rightarrow> u32 \<Rightarrow> u32 \<Rightarrow> kstate \<Rightarrow> maxrtos_status \<times> kstate" where
  [op_defs]: "maxrtos_process_set_timing i period_ticks time_capacity_ticks s =
     (case get_pcb i s of
        None \<Rightarrow> (MAXRTOS_ERR_INVALID_ID, s)
      | Some pcb \<Rightarrow>
          if period_ticks > 0 \<and> time_capacity_ticks > period_ticks then (MAXRTOS_ERR_INVALID_ARG, s)
          else
            let s1 = upd_pcb i (\<lambda>b. b\<lparr>pcb_period := period_ticks, pcb_time_capacity := time_capacity_ticks\<rparr>) s
            in (MAXRTOS_OK, maxrtos_process_rearm_timing (Some i) (maxrtos_kernel_tick_now s1) s1))"

definition maxrtos_kernel_rearm_all_timing :: "kstate \<Rightarrow> kstate" where
  [op_defs]: "maxrtos_kernel_rearm_all_timing s =
     fold (\<lambda>i s. case get_pcb i s of None \<Rightarrow> s | Some _ \<Rightarrow> maxrtos_process_rearm_timing (Some i) 0 s)
       (ids_below MAXRTOS_MAX_PROCESSES) s"

subsection \<open>The due bound\<close>

definition due_ok :: "kstate \<Rightarrow> bool" where
  "due_ok s \<longleftrightarrow> (\<forall>i. allocated (process_pool s) i \<longrightarrow>
     s_next_due s \<le> pcb_wake_tick (process_pool s i) \<and> s_next_due s \<le> pcb_deadline_time (process_pool s i))"

lemma tick_none_max [simp]: "(x :: u32) \<le> MAXRTOS_TICK_NONE"
  using unat_le_max_32[of x] by (simp add: word_le_nat_alt)

lemma note_due_fields [simp]:
  "process_pool (maxrtos_kernel_timing_note_due t s) = process_pool s"
  "scheduler_ctx (maxrtos_kernel_timing_note_due t s) = scheduler_ctx s"
  "current_id (maxrtos_kernel_timing_note_due t s) = current_id s"
  "halted (maxrtos_kernel_timing_note_due t s) = halted s"
  "s_current_tick (maxrtos_kernel_timing_note_due t s) = s_current_tick s"
  "s_pending_misses (maxrtos_kernel_timing_note_due t s) = s_pending_misses s"
  "waitlists (maxrtos_kernel_timing_note_due t s) = waitlists s"
  "s_mutex_pool (maxrtos_kernel_timing_note_due t s) = s_mutex_pool s"
  "s_semaphore_pool (maxrtos_kernel_timing_note_due t s) = s_semaphore_pool s"
  "s_buffer_pool (maxrtos_kernel_timing_note_due t s) = s_buffer_pool s"
  "s_port_pool (maxrtos_kernel_timing_note_due t s) = s_port_pool s"
  "s_sampling_port_pool (maxrtos_kernel_timing_note_due t s) = s_sampling_port_pool s"
  "mem (maxrtos_kernel_timing_note_due t s) = mem s"
  "buffer_storage (maxrtos_kernel_timing_note_due t s) = buffer_storage s"
  by (simp_all add: maxrtos_kernel_timing_note_due_def)

lemma note_due_le: "s_next_due (maxrtos_kernel_timing_note_due t s) \<le> t"
  "s_next_due (maxrtos_kernel_timing_note_due t s) \<le> s_next_due s"
  by (auto simp: maxrtos_kernel_timing_note_due_def not_less)

text \<open>Setting a wake tick or a deadline and noting it.\<close>

lemma due_ok_note:
  assumes "due_ok s"
    and "\<And>i. allocated (process_pool s') i \<Longrightarrow> allocated (process_pool s) i"
    and "\<And>i. allocated (process_pool s) i \<Longrightarrow>
      pcb_wake_tick (process_pool s' i) \<in> {t, MAXRTOS_TICK_NONE, pcb_wake_tick (process_pool s i)}
      \<and> pcb_deadline_time (process_pool s' i) \<in> {t, MAXRTOS_TICK_NONE, pcb_deadline_time (process_pool s i)}"
    and "s_next_due s' = s_next_due s"
  shows "due_ok (maxrtos_kernel_timing_note_due t s')"
  unfolding due_ok_def note_due_fields
proof (intro allI impI)
  fix i assume "allocated (process_pool s') i"
  then have i: "allocated (process_pool s) i" by (rule assms(2))
  have le: "s_next_due (maxrtos_kernel_timing_note_due t s') \<le> t"
    "s_next_due (maxrtos_kernel_timing_note_due t s') \<le> s_next_due s"
    using note_due_le[of t s'] assms(4) by auto
  moreover have "s_next_due s \<le> pcb_wake_tick (process_pool s i)" "s_next_due s \<le> pcb_deadline_time (process_pool s i)"
    using assms(1) i by (auto simp: due_ok_def)
  ultimately show "s_next_due (maxrtos_kernel_timing_note_due t s') \<le> pcb_wake_tick (process_pool s' i)
      \<and> s_next_due (maxrtos_kernel_timing_note_due t s') \<le> pcb_deadline_time (process_pool s' i)"
    using assms(3)[OF i] by auto
qed

lemma due_ok_cong:
  assumes "due_ok s" "s_next_due s' = s_next_due s"
    and "\<And>i. allocated (process_pool s') i \<Longrightarrow> allocated (process_pool s) i
      \<and> pcb_wake_tick (process_pool s' i) \<in> {MAXRTOS_TICK_NONE, pcb_wake_tick (process_pool s i)}
      \<and> pcb_deadline_time (process_pool s' i) \<in> {MAXRTOS_TICK_NONE, pcb_deadline_time (process_pool s i)}"
  shows "due_ok s'"
  using assms by (fastforce simp: due_ok_def)

lemma refresh_due_step_le:
  "refresh_due_step s i e \<le> e"
  "allocated (process_pool s) i \<Longrightarrow> refresh_due_step s i e \<le> pcb_wake_tick (process_pool s i)
     \<and> refresh_due_step s i e \<le> pcb_deadline_time (process_pool s i)"
  "refresh_due_step s i e = e \<or> allocated (process_pool s) i
     \<and> refresh_due_step s i e \<in> {pcb_wake_tick (process_pool s i), pcb_deadline_time (process_pool s i)}"
  by (auto simp: refresh_due_step_def process_get_eq Let_def)

lemma refresh_due_fold:
  "fold (refresh_due_step s) is e \<le> e
   \<and> (\<forall>i \<in> set is. allocated (process_pool s) i \<longrightarrow> fold (refresh_due_step s) is e \<le> pcb_wake_tick (process_pool s i)
        \<and> fold (refresh_due_step s) is e \<le> pcb_deadline_time (process_pool s i))
   \<and> (fold (refresh_due_step s) is e = e \<or> (\<exists>i. allocated (process_pool s) i
        \<and> fold (refresh_due_step s) is e \<in> {pcb_wake_tick (process_pool s i), pcb_deadline_time (process_pool s i)}))"
proof (induction "is" arbitrary: e)
  case (Cons i "is")
  note step = refresh_due_step_le(1)[of s i e] refresh_due_step_le(2)[of s i e] refresh_due_step_le(3)[of s i e]
  note IH = Cons.IH[of "refresh_due_step s i e"]
  show ?case
  proof (intro conjI)
    show "fold (refresh_due_step s) (i # is) e \<le> e" using IH step(1) by auto
    show "\<forall>j \<in> set (i # is). allocated (process_pool s) j \<longrightarrow>
        fold (refresh_due_step s) (i # is) e \<le> pcb_wake_tick (process_pool s j)
        \<and> fold (refresh_due_step s) (i # is) e \<le> pcb_deadline_time (process_pool s j)"
      using IH step(2) by auto
    define e1 where "e1 = refresh_due_step s i e"
    define F where "F = fold (refresh_due_step s) is e1"
    have "F = e1 \<or> (\<exists>i. allocated (process_pool s) i
        \<and> F \<in> {pcb_wake_tick (process_pool s i), pcb_deadline_time (process_pool s i)})"
      using IH unfolding F_def e1_def by (elim conjE)
    moreover have "e1 = e \<or> (\<exists>i. allocated (process_pool s) i
        \<and> e1 \<in> {pcb_wake_tick (process_pool s i), pcb_deadline_time (process_pool s i)})"
      using step(3) unfolding e1_def by blast
    ultimately have "F = e \<or> (\<exists>i. allocated (process_pool s) i
        \<and> F \<in> {pcb_wake_tick (process_pool s i), pcb_deadline_time (process_pool s i)})" by metis
    then show "fold (refresh_due_step s) (i # is) e = e \<or> (\<exists>j. allocated (process_pool s) j
        \<and> fold (refresh_due_step s) (i # is) e \<in> {pcb_wake_tick (process_pool s j), pcb_deadline_time (process_pool s j)})"
      by (simp add: F_def e1_def)
  qed
qed simp

lemma refresh_due_fields [simp]:
  "process_pool (maxrtos_kernel_timing_refresh_due s) = process_pool s"
  "scheduler_ctx (maxrtos_kernel_timing_refresh_due s) = scheduler_ctx s"
  "current_id (maxrtos_kernel_timing_refresh_due s) = current_id s"
  "halted (maxrtos_kernel_timing_refresh_due s) = halted s"
  "waitlists (maxrtos_kernel_timing_refresh_due s) = waitlists s"
  "s_current_tick (maxrtos_kernel_timing_refresh_due s) = s_current_tick s"
  by (simp_all add: maxrtos_kernel_timing_refresh_due_def)

lemma refresh_due_establishes: "due_ok (maxrtos_kernel_timing_refresh_due s)"
proof -
  have "i \<in> set (ids_below 16)" if "allocated (process_pool s) i" for i
    using that by (simp add: allocated_def)
  then show ?thesis
    using refresh_due_fold[of s "ids_below 16" MAXRTOS_TICK_NONE]
    by (simp add: due_ok_def maxrtos_kernel_timing_refresh_due_def)
qed

text \<open>What arming a deadline touches.\<close>

lemma arm_deadline_pool:
  "process_pool (arm_deadline i s) j = (if j = i then (process_pool s i)\<lparr>pcb_deadline_time :=
     (if pcb_time_capacity (process_pool s i) > 0
      then pcb_release_time (process_pool s i) + pcb_time_capacity (process_pool s i) else MAXRTOS_TICK_NONE)\<rparr>
   else process_pool s j)"
  by (simp add: arm_deadline_def Let_def)

lemma arm_deadline_fields [simp]:
  "scheduler_ctx (arm_deadline i s) = scheduler_ctx s"
  "current_id (arm_deadline i s) = current_id s"
  "halted (arm_deadline i s) = halted s"
  "s_current_tick (arm_deadline i s) = s_current_tick s"
  "s_pending_misses (arm_deadline i s) = s_pending_misses s"
  "waitlists (arm_deadline i s) = waitlists s"
  "s_mutex_pool (arm_deadline i s) = s_mutex_pool s"
  "s_semaphore_pool (arm_deadline i s) = s_semaphore_pool s"
  "s_buffer_pool (arm_deadline i s) = s_buffer_pool s"
  "s_port_pool (arm_deadline i s) = s_port_pool s"
  "s_sampling_port_pool (arm_deadline i s) = s_sampling_port_pool s"
  "mem (arm_deadline i s) = mem s"
  "buffer_storage (arm_deadline i s) = buffer_storage s"
  by (simp_all add: arm_deadline_def Let_def)

lemma arm_deadline_due_ok:
  assumes "due_ok s"
  shows "due_ok (arm_deadline i s)"
proof (cases "pcb_time_capacity (process_pool s i) > 0")
  case True
  let ?d = "pcb_release_time (process_pool s i) + pcb_time_capacity (process_pool s i)"
  from True have e: "arm_deadline i s = maxrtos_kernel_timing_note_due ?d (upd_pcb i (\<lambda>b. b\<lparr>pcb_deadline_time := ?d\<rparr>) s)"
    by (simp add: arm_deadline_def Let_def)
  show ?thesis
    unfolding e by (rule due_ok_note[OF assms]) (auto simp: allocated_def split: if_splits)
next
  case False
  then have e: "arm_deadline i s = upd_pcb i (\<lambda>b. b\<lparr>pcb_deadline_time := MAXRTOS_TICK_NONE\<rparr>) s"
    by (simp add: arm_deadline_def Let_def)
  show ?thesis
    unfolding e by (rule due_ok_cong[OF assms]) (auto simp: allocated_def split: if_splits)
qed

lemma rearm_timing_due_ok:
  assumes "due_ok s"
  shows "due_ok (maxrtos_process_rearm_timing pcbp now s)"
proof (cases pcbp)
  case (Some i)
  have "due_ok (upd_pcb i (\<lambda>b. b\<lparr>pcb_periodic_waiting := False, pcb_timed_waiting := False, pcb_release_time := now\<rparr>) s)"
    by (rule due_ok_cong[OF assms]) (auto simp: allocated_def split: if_splits)
  from arm_deadline_due_ok[OF this, of i] Some show ?thesis
    by (simp add: maxrtos_process_rearm_timing_def)
qed (use assms in \<open>simp add: maxrtos_process_rearm_timing_def\<close>)

text \<open>A relative time-out becomes an absolute tick without wrapping.\<close>

lemma tick_after_unat:
  assumes "maxrtos_kernel_tick_after timeout PTR s = (MAXRTOS_OK, Some w)" "timeout \<noteq> MAXRTOS_TIMEOUT_INFINITE"
  shows "unat w = unat (s_current_tick s) + unat timeout" "w \<noteq> MAXRTOS_TICK_NONE"
proof -
  have u: "unat (MAXRTOS_TICK_NONE - s_current_tick s) = unat MAXRTOS_TICK_NONE - unat (s_current_tick s)"
    using unat_le_max_32[of "s_current_tick s"] by (simp add: unat_sub word_le_nat_alt)
  from assms have w: "w = s_current_tick s + timeout" and lt: "\<not> timeout \<ge> MAXRTOS_TICK_NONE - s_current_tick s"
    by (auto simp: maxrtos_kernel_tick_after_def split: if_splits)
  from lt u have sum: "unat (s_current_tick s) + unat timeout < unat MAXRTOS_TICK_NONE"
    by (simp add: word_le_nat_alt)
  then show "unat w = unat (s_current_tick s) + unat timeout"
    unfolding w by (simp add: unat_plus_if')
  with sum show "w \<noteq> MAXRTOS_TICK_NONE" by auto
qed

text \<open>A time capacity that reaches past the end of the tick counter: the deadline lies before the release.\<close>

lemma arm_deadline_wraps:
  assumes "pcb_time_capacity (process_pool s i) > 0"
    "2 ^ 32 \<le> unat (pcb_release_time (process_pool s i)) + unat (pcb_time_capacity (process_pool s i))"
  shows "pcb_deadline_time (process_pool (arm_deadline i s) i) < pcb_release_time (process_pool s i)"
proof -
  have "pcb_release_time (process_pool s i) + pcb_time_capacity (process_pool s i) < pcb_release_time (process_pool s i)"
    using assms(2) unat_less_32[of "pcb_time_capacity (process_pool s i)"]
    by (simp add: word_less_nat_alt unat_plus_if')
  then show ?thesis using assms(1) by (simp add: op_defs Let_def)
qed

end
