(* ===== verification/Ipc_Block.thy ===== *)
theory Ipc_Block
  imports Timing_Core
begin

text \<open>
  Blocking, waking and resolving processes on wait lists (ipc_block.c, less the expiry of
  time-outs, which calls the mutexes and follows them). A \<open>waitlist\<close> argument is a reference,
  \<open>None\<close> for NULL; the pending operation is copied as in C. The kernel invariant \<open>kernel_inv\<close> joins
  the scheduling invariant, the agreement of wait lists and control blocks, and the due bound.
\<close>

definition maxrtos_ipc_clear_blocked_state :: "u32 \<Rightarrow> kstate \<Rightarrow> maxrtos_ipc_operation_t \<times> kstate" where
  "maxrtos_ipc_clear_blocked_state i s =
     (pcb_ipc_operation (process_pool s i),
      upd_pcb i (\<lambda>b. b\<lparr>pcb_ipc_operation := MAXRTOS_IPC_OP_NONE, pcb_waitlist := None,
        pcb_wake_tick := MAXRTOS_TICK_NONE\<rparr>) s)"

definition maxrtos_ipc_block_current ::
    "ptr \<Rightarrow> u32 \<Rightarrow> waitlist_ref option \<Rightarrow> u32 \<Rightarrow> maxrtos_ipc_operation_t option \<Rightarrow> ptr \<Rightarrow> kstate \<Rightarrow>
     maxrtos_status \<times> u32 option \<times> kstate"
where
  "maxrtos_ipc_block_current tablep current waitlist wake_tick opp outp s =
     (case (waitlist, opp) of
        (Some w, Some oper) \<Rightarrow>
          if tablep \<noteq> NULL \<and> outp \<noteq> NULL then
            (case get_pcb current s of
               None \<Rightarrow> (MAXRTOS_ERR_INVALID_ID, None, s)
             | Some pcb \<Rightarrow>
                 if pcb_state pcb \<noteq> MAXRTOS_PROCESS_STATE_RUNNING then (MAXRTOS_ERR_INVALID_STATE, None, s)
                 else
                   let s1 = upd_pcb current (\<lambda>b. b\<lparr>pcb_ipc_operation := oper\<rparr>) s in
                   (case maxrtos_waitlist_push PTR current (waitlists s1 w) of
                      (status, l) \<Rightarrow>
                        let s2 = upd_waitlist w l s1 in
                        if status = MAXRTOS_OK then
                          let s3 = maxrtos_kernel_timing_note_due wake_tick
                                (upd_pcb current (\<lambda>b. b\<lparr>pcb_waitlist := Some w, pcb_wake_tick := wake_tick\<rparr>) s2) in
                          (case maxrtos_partition_block_and_dispatch tablep (pcb_partition_id pcb) current outp s3 of
                             (status', out, s4) \<Rightarrow>
                               if status' \<noteq> MAXRTOS_OK then
                                 let s5 = upd_pcb current (\<lambda>b. b\<lparr>pcb_waitlist := None,
                                        pcb_wake_tick := MAXRTOS_TICK_NONE, pcb_ipc_operation := MAXRTOS_IPC_OP_NONE\<rparr>) s4 in
                                 (status', out,
                                  upd_waitlist w (snd (maxrtos_waitlist_remove PTR current (waitlists s5 w))) s5)
                               else (status', out, s4))
                        else (status, None, s2)))
          else (MAXRTOS_ERR_INVALID_ARG, None, s)
      | _ \<Rightarrow> (MAXRTOS_ERR_INVALID_ARG, None, s))"

definition maxrtos_ipc_wake_one ::
    "waitlist_ref option \<Rightarrow> ptr \<Rightarrow> ptr \<Rightarrow> kstate \<Rightarrow>
     maxrtos_status \<times> u32 option \<times> maxrtos_ipc_operation_t option \<times> kstate"
where
  "maxrtos_ipc_wake_one waitlist outp opp s =
     (case waitlist of
        Some w \<Rightarrow>
          if outp \<noteq> NULL \<and> opp \<noteq> NULL then
            (case maxrtos_waitlist_pop_front PTR outp (waitlists s w) of
               (MAXRTOS_OK, Some i, l) \<Rightarrow>
                 let s1 = upd_waitlist w l s in
                 (case get_pcb i s1 of
                    None \<Rightarrow> (MAXRTOS_ERR_INVALID_ID, Some i, None, s1)
                  | Some _ \<Rightarrow>
                      (case maxrtos_ipc_clear_blocked_state i s1 of (oper, s2) \<Rightarrow> (MAXRTOS_OK, Some i, Some oper, s2)))
             | (status, out, l) \<Rightarrow> (status, out, None, upd_waitlist w l s))
          else (MAXRTOS_ERR_INVALID_ARG, None, None, s)
      | None \<Rightarrow> (MAXRTOS_ERR_INVALID_ARG, None, None, s))"

definition maxrtos_ipc_timeout_current ::
    "waitlist_ref option \<Rightarrow> u32 \<Rightarrow> ptr \<Rightarrow> kstate \<Rightarrow> maxrtos_status \<times> maxrtos_ipc_operation_t option \<times> kstate"
where
  "maxrtos_ipc_timeout_current waitlist i opp s =
     (case waitlist of
        Some w \<Rightarrow>
          if opp \<noteq> NULL then
            (case maxrtos_waitlist_remove PTR i (waitlists s w) of
               (removed, l) \<Rightarrow>
                 let s1 = upd_waitlist w l s in
                 if \<not> removed then (MAXRTOS_ERR_NOT_FOUND, None, s1)
                 else
                   (case get_pcb i s1 of
                      None \<Rightarrow> (MAXRTOS_ERR_INVALID_ID, None, s1)
                    | Some _ \<Rightarrow>
                        (case maxrtos_ipc_clear_blocked_state i s1 of (oper, s2) \<Rightarrow> (MAXRTOS_OK, Some oper, s2))))
          else (MAXRTOS_ERR_INVALID_ARG, None, s)
      | None \<Rightarrow> (MAXRTOS_ERR_INVALID_ARG, None, s))"

definition maxrtos_ipc_resolve :: "ptr \<Rightarrow> u32 \<Rightarrow> maxrtos_status \<Rightarrow> kstate \<Rightarrow> maxrtos_status \<times> kstate" where
  "maxrtos_ipc_resolve tablep i result s =
     (if tablep \<noteq> NULL then
        (case get_pcb i s of
           None \<Rightarrow> (MAXRTOS_ERR_INVALID_ID, s)
         | Some pcb \<Rightarrow>
             if pcb_state pcb \<noteq> MAXRTOS_PROCESS_STATE_BLOCKED then (MAXRTOS_ERR_INVALID_STATE, s)
             else
               (case maxrtos_partition_ready_process tablep (pcb_partition_id pcb) i s of
                  (status, s1) \<Rightarrow>
                    if status = MAXRTOS_OK
                    then (status, upd_pcb i (\<lambda>b. b\<lparr>pcb_ipc_result := result, pcb_ipc_result_pending := True\<rparr>) s1)
                    else (status, s1)))
      else (MAXRTOS_ERR_INVALID_ARG, s))"

subsection \<open>Wait lists and control blocks agree\<close>

text \<open>
  A process is on a wait list exactly if its control block names the list, it is on it once, and
  it is BLOCKED.
\<close>

definition wait_ok :: "pool \<Rightarrow> (waitlist_ref \<Rightarrow> maxrtos_waitlist_t) \<Rightarrow> bool" where
  "wait_ok pool wls \<longleftrightarrow>
     (\<forall>w. wl_wf (wls w) \<and> distinct (wl_list (wls w))
        \<and> (\<forall>i \<in> set (wl_list (wls w)). allocated pool i \<and> pcb_state (pool i) = MAXRTOS_PROCESS_STATE_BLOCKED
             \<and> pcb_waitlist (pool i) = Some w))
     \<and> (\<forall>i w. allocated pool i \<and> pcb_waitlist (pool i) = Some w \<longrightarrow> i \<in> set (wl_list (wls w)))"

definition kernel_inv :: "kstate \<Rightarrow> bool" where
  "kernel_inv s \<longleftrightarrow> sched_inv s \<and> wait_ok (process_pool s) (waitlists s) \<and> due_ok s"

lemma kernel_invD:
  "kernel_inv s \<Longrightarrow> sched_inv s" "kernel_inv s \<Longrightarrow> wait_ok (process_pool s) (waitlists s)" "kernel_inv s \<Longrightarrow> due_ok s"
  by (simp_all add: kernel_inv_def)

lemma wait_okD:
  assumes "wait_ok pool wls"
  shows "wl_wf (wls w)" "distinct (wl_list (wls w))"
    and "i \<in> set (wl_list (wls w)) \<Longrightarrow> allocated pool i"
    and "i \<in> set (wl_list (wls w)) \<Longrightarrow> pcb_state (pool i) = MAXRTOS_PROCESS_STATE_BLOCKED"
    and "i \<in> set (wl_list (wls w)) \<Longrightarrow> pcb_waitlist (pool i) = Some w"
    and "allocated pool i \<Longrightarrow> pcb_waitlist (pool i) = Some w \<Longrightarrow> i \<in> set (wl_list (wls w))"
  using assms unfolding wait_ok_def by blast+

lemma wait_ok_not_blocked:
  assumes "wait_ok pool wls" "allocated pool i" "pcb_state (pool i) \<noteq> MAXRTOS_PROCESS_STATE_BLOCKED"
  shows "pcb_waitlist (pool i) = None"
proof (cases "pcb_waitlist (pool i)")
  case (Some w)
  with wait_okD(4)[OF assms(1) wait_okD(6)[OF assms(1,2)]] assms(3) show ?thesis by simp
qed

text \<open>A step that leaves waiting processes alone.\<close>

lemma wait_ok_step:
  assumes "wait_ok pool wls"
    and "\<And>i. allocated pool' i \<longleftrightarrow> allocated pool i"
    and "\<And>i. allocated pool i \<Longrightarrow> pcb_waitlist (pool' i) = pcb_waitlist (pool i)"
    and "\<And>i. allocated pool i \<Longrightarrow> pcb_waitlist (pool i) \<noteq> None \<Longrightarrow> pcb_state (pool' i) = pcb_state (pool i)"
  shows "wait_ok pool' wls"
  unfolding wait_ok_def
proof (intro conjI allI impI ballI)
  fix w show "wl_wf (wls w)" "distinct (wl_list (wls w))" using wait_okD(1,2)[OF assms(1)] by auto
  fix i assume i: "i \<in> set (wl_list (wls w))"
  note old = wait_okD(3-5)[OF assms(1) i]
  show "allocated pool' i" "pcb_state (pool' i) = MAXRTOS_PROCESS_STATE_BLOCKED" "pcb_waitlist (pool' i) = Some w"
    using old assms(2-4)[of i] by simp_all
next
  fix i w assume "allocated pool' i \<and> pcb_waitlist (pool' i) = Some w"
  with assms(2,3)[of i] wait_okD(6)[OF assms(1)] show "i \<in> set (wl_list (wls w))" by simp
qed

text \<open>A process joins a list, or leaves the list it is on.\<close>

lemma wait_ok_join:
  assumes ok: "wait_ok pool wls" and i: "allocated pool i" "pcb_waitlist (pool i) = None"
    and pool': "\<And>j. allocated pool' j \<longleftrightarrow> allocated pool j"
      "\<And>j. j \<noteq> i \<Longrightarrow> pcb_waitlist (pool' j) = pcb_waitlist (pool j)"
      "\<And>j. j \<noteq> i \<Longrightarrow> pcb_waitlist (pool j) \<noteq> None \<Longrightarrow> pcb_state (pool' j) = pcb_state (pool j)"
      "pcb_waitlist (pool' i) = Some w" "pcb_state (pool' i) = MAXRTOS_PROCESS_STATE_BLOCKED"
    and l: "wl_wf l" "wl_list l = wl_list (wls w) @ [i]"
  shows "wait_ok pool' (wls(w := l))"
proof -
  have nin: "i \<notin> set (wl_list (wls v))" for v using wait_okD(5)[OF ok, of i v] i(2) by auto
  show ?thesis
    unfolding wait_ok_def
  proof (intro conjI allI impI ballI)
    fix v show "wl_wf ((wls(w := l)) v)" using l(1) wait_okD(1)[OF ok] by simp
    show "distinct (wl_list ((wls(w := l)) v))" using l(2) wait_okD(2)[OF ok] nin by simp
    fix j assume j: "j \<in> set (wl_list ((wls(w := l)) v))"
    then consider "j = i" "v = w" | "j \<noteq> i" "j \<in> set (wl_list (wls v))"
      using l(2) nin[of v] by (auto split: if_splits)
    then show "allocated pool' j" "pcb_state (pool' j) = MAXRTOS_PROCESS_STATE_BLOCKED"
      "pcb_waitlist (pool' j) = Some v"
      using i pool' wait_okD(3,4,5)[OF ok, of j v] by (cases; simp)+
  next
    fix j v assume j: "allocated pool' j \<and> pcb_waitlist (pool' j) = Some v"
    show "j \<in> set (wl_list ((wls(w := l)) v))"
    proof (cases "j = i")
      case True
      with j pool'(4) l(2) show ?thesis by simp
    next
      case False
      with j pool' wait_okD(6)[OF ok, of j v] l(2) show ?thesis by auto
    qed
  qed
qed

lemma wait_ok_leave:
  assumes ok: "wait_ok pool wls" and i: "i \<in> set (wl_list (wls w))"
    and pool': "\<And>j. j \<noteq> i \<Longrightarrow> pool' j = pool j" "pcb_waitlist (pool' i) = None"
      "pcb_state (pool' i) = pcb_state (pool i)"
    and l: "wl_wf l" "wl_list l = remove1 i (wl_list (wls w))"
  shows "wait_ok pool' (wls(w := l))"
proof -
  have al: "allocated pool' j \<longleftrightarrow> allocated pool j" for j
    using pool'(1)[of j] pool'(3) by (cases "j = i") (auto simp: allocated_def)
  have only: "i \<in> set (wl_list (wls v)) \<longleftrightarrow> v = w" for v
    using wait_okD(5)[OF ok, of i v] wait_okD(5)[OF ok i] i by auto
  have set_l: "set (wl_list l) = set (wl_list (wls w)) - {i}"
    using l(2) wait_okD(2)[OF ok, of w] by simp
  show ?thesis
    unfolding wait_ok_def
  proof (intro conjI allI impI ballI)
    fix v show "wl_wf ((wls(w := l)) v)" using l(1) wait_okD(1)[OF ok] by simp
    show "distinct (wl_list ((wls(w := l)) v))" using l(2) wait_okD(2)[OF ok] by simp
    fix j assume j: "j \<in> set (wl_list ((wls(w := l)) v))"
    then have "j \<noteq> i" "j \<in> set (wl_list (wls v))"
      using set_l only[of v] by (auto split: if_splits)
    then show "allocated pool' j" "pcb_state (pool' j) = MAXRTOS_PROCESS_STATE_BLOCKED"
      "pcb_waitlist (pool' j) = Some v"
      using al pool'(1) wait_okD(3,4,5)[OF ok, of j v] by simp_all
  next
    fix j v assume j: "allocated pool' j \<and> pcb_waitlist (pool' j) = Some v"
    then have "j \<noteq> i" using pool'(2) by auto
    with j al pool'(1) wait_okD(6)[OF ok, of j v] set_l show "j \<in> set (wl_list ((wls(w := l)) v))" by auto
  qed
qed

subsection \<open>The primitives keep the kernel invariant\<close>

text \<open>Everything but processes, queues, wait lists and the due bound stays.\<close>

definition only_ipc :: "kstate \<Rightarrow> kstate \<Rightarrow> bool" where
  "only_ipc s s' \<longleftrightarrow> halted s' = halted s \<and> s_current_tick s' = s_current_tick s
    \<and> s_pending_misses s' = s_pending_misses s
    \<and> s_mutex_pool s' = s_mutex_pool s \<and> s_semaphore_pool s' = s_semaphore_pool s
    \<and> s_buffer_pool s' = s_buffer_pool s \<and> s_port_pool s' = s_port_pool s
    \<and> s_sampling_port_pool s' = s_sampling_port_pool s \<and> mem s' = mem s \<and> buffer_storage s' = buffer_storage s"

lemma only_ipc_refl [simp]: "only_ipc s s"
  by (simp add: only_ipc_def)

lemma only_ipc_trans: "only_ipc s t \<Longrightarrow> only_ipc t u \<Longrightarrow> only_ipc s u"
  by (simp add: only_ipc_def)

lemma only_scheduling_ipc: "only_scheduling s s' \<Longrightarrow> only_ipc s s'"
  by (simp add: only_scheduling_iff only_ipc_def)

lemma only_ipc_upd [simp]:
  "only_ipc s (upd_pcb i f t) = only_ipc s t"
  "only_ipc s (upd_waitlist w l t) = only_ipc s t"
  "only_ipc s (maxrtos_kernel_timing_note_due tick t) = only_ipc s t"
  by (simp_all add: only_ipc_def)

lemma kernel_inv_step:
  assumes inv: "kernel_inv s" and sched: "sched_inv s'" and only: "only_scheduling s s'"
    and pool': "\<And>i. allocated (process_pool s') i \<longleftrightarrow> allocated (process_pool s) i"
      "\<And>i. pcb_waitlist (process_pool s' i) = pcb_waitlist (process_pool s i)"
      "\<And>i. allocated (process_pool s) i \<Longrightarrow> pcb_waitlist (process_pool s i) \<noteq> None \<Longrightarrow>
         pcb_state (process_pool s' i) = pcb_state (process_pool s i)"
      "\<And>i. pcb_wake_tick (process_pool s' i) = pcb_wake_tick (process_pool s i)"
      "\<And>i. pcb_deadline_time (process_pool s' i) = pcb_deadline_time (process_pool s i)"
  shows "kernel_inv s'"
proof -
  have "waitlists s' = waitlists s" "s_next_due s' = s_next_due s"
    using only by (simp_all add: only_scheduling_iff)
  moreover have "wait_ok (process_pool s') (waitlists s)"
    by (rule wait_ok_step[OF kernel_invD(2)[OF inv] pool'(1,2,3)])
  moreover have "due_ok s'"
    by (rule due_ok_cong[OF kernel_invD(3)[OF inv] calculation(2)]) (use pool'(1,4,5) in simp)
  ultimately show ?thesis using sched by (simp add: kernel_inv_def)
qed

lemma kernel_inv_set_priority:
  assumes "kernel_inv s"
  shows "kernel_inv (snd (maxrtos_partition_set_process_priority tablep i q s))"
proof -
  from set_priority_inv[OF kernel_invD(1)[OF assms], of tablep i q] obtain q' where
    r: "sched_inv (snd (maxrtos_partition_set_process_priority tablep i q s))"
    "only_scheduling s (snd (maxrtos_partition_set_process_priority tablep i q s))"
    "process_pool (snd (maxrtos_partition_set_process_priority tablep i q s))
      = (process_pool s)(i := (process_pool s i)\<lparr>pcb_priority := q'\<rparr>)" by blast
  show ?thesis
    by (rule kernel_inv_step[OF assms r(1,2)]) (auto simp: r(3) allocated_def)
qed

lemma selected_pool_fields:
  "pcb_waitlist (selected_pool c out pool i) = pcb_waitlist (pool i)"
  "pcb_wake_tick (selected_pool c out pool i) = pcb_wake_tick (pool i)"
  "pcb_deadline_time (selected_pool c out pool i) = pcb_deadline_time (pool i)"
  by (simp_all add: selected_pool_def split: option.splits)

lemma kernel_inv_select:
  assumes inv: "kernel_inv s"
  shows "kernel_inv (snd (snd (maxrtos_partition_select tablep part outp yield s)))"
proof (cases "tablep \<noteq> NULL \<and> outp \<noteq> NULL \<and> part < of_nat MAXRTOS_MAX_PARTITIONS \<and> \<not> halted s part")
  case True
  then have ptrs: "tablep = PTR" "outp = PTR" by (auto intro: ptr.exhaust)
  let ?c = "current_id s part" and ?s' = "snd (snd (maxrtos_partition_select tablep part outp yield s))"
  note ok = kernel_invD(1)[OF inv]
  from True partition_select_eq[OF ok, of part yield] obtain st out ctx' where e:
    "maxrtos_partition_select PTR part PTR yield s =
      (st, out, (upd_ctx part ctx' s)\<lparr>process_pool := selected_pool ?c out (process_pool s),
         current_id := (current_id s)(part := case out of None \<Rightarrow> ?c | Some n \<Rightarrow> n)\<rparr>)"
    "select_spec yield (running_of ?c (process_pool s)) (ready (scheduler_ctx s part)) = (st, out, ready ctx')"
    by blast
  have pool: "process_pool ?s' = selected_pool ?c out (process_pool s)" by (simp add: ptrs e(1))
  from True have p: "part_ok (process_pool s) part (scheduler_ctx s part) ?c"
    using sched_okD(3)[OF ok[unfolded sched_inv_def]] by simp
  have who: "process_pool ?s' i = process_pool s i \<or> allocated (process_pool s) i
      \<and> pcb_state (process_pool s i) \<in> {MAXRTOS_PROCESS_STATE_READY, MAXRTOS_PROCESS_STATE_RUNNING}
      \<and> pcb_state (process_pool ?s' i) \<noteq> MAXRTOS_PROCESS_STATE_UNUSED" for i
  proof -
    have "out = Some i \<Longrightarrow> i = ?c \<or> allocated (process_pool s) i
        \<and> pcb_state (process_pool s i) = MAXRTOS_PROCESS_STATE_READY"
      using select_spec_members[OF part_okD(1,2)[OF p] e(2), of i] domain_okD(1,2)[OF part_okD(1)[OF p]] by blast
    then show ?thesis
      using part_okD(2)[OF p] unfolding pool
      by (auto simp: selected_pool_def running_in_def split: option.splits)
  qed
  have al: "allocated (process_pool ?s') i \<longleftrightarrow> allocated (process_pool s) i" for i
    using who[of i] by (auto simp: allocated_def)
  have st: "pcb_state (process_pool ?s' i) = pcb_state (process_pool s i)"
    if "allocated (process_pool s) i" "pcb_waitlist (process_pool s i) \<noteq> None" for i
  proof -
    have "pcb_state (process_pool s i) = MAXRTOS_PROCESS_STATE_BLOCKED"
      using wait_ok_not_blocked[OF kernel_invD(2)[OF inv] that(1)] that(2) by auto
    with who[of i] show ?thesis by auto
  qed
  show ?thesis
    by (rule kernel_inv_step[OF inv]) (use partition_select_inv[OF ok] al st in \<open>simp_all add: pool selected_pool_fields\<close>)
qed (use inv in \<open>auto simp: maxrtos_partition_select_def\<close>)

text \<open>
  Resolving a process that has left its wait list. It becomes READY whatever happens; if its
  ready queue is full it is not queued and its result is not recorded.
\<close>

lemma resolve_eq:
  assumes inv: "sched_inv s"
  shows "maxrtos_ipc_resolve PTR i result s =
    (if \<not> allocated (process_pool s) i then (MAXRTOS_ERR_INVALID_ID, s)
     else if pcb_state (process_pool s i) \<noteq> MAXRTOS_PROCESS_STATE_BLOCKED then (MAXRTOS_ERR_INVALID_STATE, s)
     else case maxrtos_partition_ready_process PTR (pcb_partition_id (process_pool s i)) i s of
       (status, s1) \<Rightarrow> if status = MAXRTOS_OK
         then (status, upd_pcb i (\<lambda>b. b\<lparr>pcb_ipc_result := result, pcb_ipc_result_pending := True\<rparr>) s1)
         else (status, s1))"
  by (simp add: maxrtos_ipc_resolve_def process_get_eq)

lemma sched_inv_upd_pcb:
  assumes "sched_inv s" "\<And>b. pcb_state (f b) = pcb_state b \<and> pcb_partition_id (f b) = pcb_partition_id b
     \<and> pcb_priority (f b) = pcb_priority b \<and> pcb_base_priority (f b) = pcb_base_priority b
     \<and> pcb_id (f b) = pcb_id b"
  shows "sched_inv (upd_pcb i f s)"
  using same_sched_ok[OF assms(1)[unfolded sched_inv_def], of "(process_pool s)(i := f (process_pool s i))"] assms(2)
  by (simp add: sched_inv_def same_sched_def)

lemma resolve_step:
  assumes inv: "kernel_inv s" and free: "allocated (process_pool s) i \<Longrightarrow> pcb_waitlist (process_pool s i) = None"
  shows "kernel_inv (snd (maxrtos_ipc_resolve tablep i result s))
    \<and> only_scheduling s (snd (maxrtos_ipc_resolve tablep i result s))"
proof (cases "tablep = PTR \<and> allocated (process_pool s) i \<and> pcb_state (process_pool s i) = MAXRTOS_PROCESS_STATE_BLOCKED")
  case False
  with inv show ?thesis
    by (cases tablep) (auto simp: maxrtos_ipc_resolve_def process_get_eq)
next
  case True
  let ?r = "maxrtos_partition_ready_process PTR (pcb_partition_id (process_pool s i)) i s"
  from True partition_ready_inv[OF kernel_invD(1)[OF inv], of i] have r:
    "sched_inv (snd ?r)" "only_scheduling s (snd ?r)"
    "process_pool (snd ?r) = set_pcb_state i MAXRTOS_PROCESS_STATE_READY (process_pool s)" by simp_all
  have k: "kernel_inv (snd ?r)"
    using True free by (intro kernel_inv_step[OF inv r(1,2)]) (auto simp: r(3) allocated_def)
  obtain st s1 where e: "?r = (st, s1)" by (rule prod.exhaust)
  let ?s' = "upd_pcb i (\<lambda>b. b\<lparr>pcb_ipc_result := result, pcb_ipc_result_pending := True\<rparr>) s1"
  have "kernel_inv ?s'"
    using k e by (intro kernel_inv_step[OF k[unfolded e snd_conv]] sched_inv_upd_pcb)
      (auto simp: kernel_inv_def only_scheduling_iff allocated_def)
  moreover have "only_scheduling s ?s'" using r(2) e by (simp add: only_scheduling_iff)
  moreover have "snd (maxrtos_ipc_resolve tablep i result s) = (if st = MAXRTOS_OK then ?s' else s1)"
    using True e resolve_eq[OF kernel_invD(1)[OF inv], of i result] by simp
  ultimately show ?thesis using k r(2) e by simp
qed

lemma clear_blocked_state_eq:
  "maxrtos_ipc_clear_blocked_state i s = (pcb_ipc_operation (process_pool s i),
     upd_pcb i (\<lambda>b. b\<lparr>pcb_ipc_operation := MAXRTOS_IPC_OP_NONE, pcb_waitlist := None,
        pcb_wake_tick := MAXRTOS_TICK_NONE\<rparr>) s)"
  by (simp add: maxrtos_ipc_clear_blocked_state_def)

text \<open>A process leaves its wait list: the common effect of waking and of timing out.\<close>

definition left_list :: "waitlist_ref \<Rightarrow> u32 \<Rightarrow> kstate \<Rightarrow> kstate \<Rightarrow> bool" where
  "left_list w i s s' \<longleftrightarrow> i \<in> set (wl_list (waitlists s w))
     \<and> wl_list (waitlists s' w) = remove1 i (wl_list (waitlists s w))
     \<and> (\<forall>v. v \<noteq> w \<longrightarrow> waitlists s' v = waitlists s v)
     \<and> process_pool s' = (process_pool s)(i := (process_pool s i)\<lparr>pcb_ipc_operation := MAXRTOS_IPC_OP_NONE,
          pcb_waitlist := None, pcb_wake_tick := MAXRTOS_TICK_NONE\<rparr>)
     \<and> scheduler_ctx s' = scheduler_ctx s \<and> current_id s' = current_id s \<and> only_ipc s s'
     \<and> s_next_due s' = s_next_due s"

lemma left_list_kernel_inv:
  assumes inv: "kernel_inv s" and left: "left_list w i s s'" and wf: "wl_wf (waitlists s' w)"
  shows "kernel_inv s'"
proof -
  have wls: "waitlists s' = (waitlists s)(w := waitlists s' w)"
    using left by (auto simp: left_list_def fun_eq_iff)
  have "sched_inv s'"
    using same_sched_ok[OF kernel_invD(1)[OF inv, unfolded sched_inv_def], of "process_pool s'"] left
    by (simp add: sched_inv_def left_list_def same_sched_def)
  moreover have "wait_ok (process_pool s') (waitlists s')"
    by (subst wls, rule wait_ok_leave[OF kernel_invD(2)[OF inv], of i])
      (use left wf in \<open>auto simp: left_list_def\<close>)
  moreover have "due_ok s'"
    by (rule due_ok_cong[OF kernel_invD(3)[OF inv]]) (use left in \<open>auto simp: left_list_def allocated_def split: if_splits\<close>)
  ultimately show ?thesis by (simp add: kernel_inv_def)
qed

lemma left_list_facts:
  assumes inv: "kernel_inv s" and left: "left_list w i s s'"
  shows "allocated (process_pool s') i" "pcb_state (process_pool s' i) = MAXRTOS_PROCESS_STATE_BLOCKED"
    "pcb_waitlist (process_pool s' i) = None" "allocated (process_pool s) i"
proof -
  have "i \<in> set (wl_list (waitlists s w))" using left by (simp add: left_list_def)
  note old = wait_okD(3,4)[OF kernel_invD(2)[OF inv] this]
  have p: "process_pool s' = (process_pool s)(i := (process_pool s i)\<lparr>pcb_ipc_operation := MAXRTOS_IPC_OP_NONE,
          pcb_waitlist := None, pcb_wake_tick := MAXRTOS_TICK_NONE\<rparr>)"
    using left by (simp add: left_list_def)
  show "allocated (process_pool s') i" "pcb_state (process_pool s' i) = MAXRTOS_PROCESS_STATE_BLOCKED"
    "pcb_waitlist (process_pool s' i) = None" "allocated (process_pool s) i"
    using old by (simp_all add: p allocated_def)
qed

text \<open>Taking one named process off a list.\<close>

lemma timeout_current_eq:
  assumes inv: "kernel_inv s"
  shows "i \<in> set (wl_list (waitlists s w)) \<Longrightarrow>
      \<exists>s'. maxrtos_ipc_timeout_current (Some w) i PTR s = (MAXRTOS_OK, Some (pcb_ipc_operation (process_pool s i)), s')
        \<and> left_list w i s s' \<and> kernel_inv s'"
    and "i \<notin> set (wl_list (waitlists s w)) \<Longrightarrow>
      \<exists>s'. maxrtos_ipc_timeout_current (Some w) i PTR s = (MAXRTOS_ERR_NOT_FOUND, None, s') \<and> s' = s"
proof -
  let ?r = "maxrtos_waitlist_remove PTR i (waitlists s w)"
  note wk = kernel_invD(2)[OF inv]
  note rem = waitlist_remove_cases[OF wait_okD(1)[OF wk, of w], of i]
  {
    assume i: "i \<in> set (wl_list (waitlists s w))"
    note al = wait_okD(3)[OF wk i]
    let ?s' = "upd_pcb i (\<lambda>b. b\<lparr>pcb_ipc_operation := MAXRTOS_IPC_OP_NONE, pcb_waitlist := None,
        pcb_wake_tick := MAXRTOS_TICK_NONE\<rparr>) (upd_waitlist w (snd ?r) s)"
    have "maxrtos_ipc_timeout_current (Some w) i PTR s = (MAXRTOS_OK, Some (pcb_ipc_operation (process_pool s i)), ?s')"
      using i rem al by (cases ?r) (simp add: maxrtos_ipc_timeout_current_def process_get_eq clear_blocked_state_eq)
    moreover have left: "left_list w i s ?s'" using i rem by (simp add: left_list_def only_ipc_def)
    moreover have "kernel_inv ?s'" by (rule left_list_kernel_inv[OF inv left]) (use rem in simp)
    ultimately show "\<exists>s'. maxrtos_ipc_timeout_current (Some w) i PTR s
        = (MAXRTOS_OK, Some (pcb_ipc_operation (process_pool s i)), s') \<and> left_list w i s s' \<and> kernel_inv s'" by blast
  next
    assume i: "i \<notin> set (wl_list (waitlists s w))"
    have "waitlist_find 0 (wl_count (waitlists s w)) (wl_items (waitlists s w)) i = None"
      using i rem by (auto simp: maxrtos_waitlist_remove_def split: option.splits)
    then have "?r = (False, waitlists s w)" by (simp add: maxrtos_waitlist_remove_def)
    then show "\<exists>s'. maxrtos_ipc_timeout_current (Some w) i PTR s = (MAXRTOS_ERR_NOT_FOUND, None, s') \<and> s' = s"
      by (simp add: maxrtos_ipc_timeout_current_def upd_waitlist_def)
  }
qed

text \<open>Waking the first process of a list.\<close>

lemma wake_one_eq:
  assumes inv: "kernel_inv s"
  shows "wl_list (waitlists s w) = i # rest \<Longrightarrow>
      \<exists>s'. maxrtos_ipc_wake_one (Some w) PTR PTR s
        = (MAXRTOS_OK, Some i, Some (pcb_ipc_operation (process_pool s i)), s')
        \<and> left_list w i s s' \<and> kernel_inv s'"
    and "wl_list (waitlists s w) = [] \<Longrightarrow>
      maxrtos_ipc_wake_one (Some w) PTR PTR s = (MAXRTOS_ERR_QUEUE_EMPTY, None, None, s)"
proof -
  let ?r = "maxrtos_waitlist_pop_front PTR PTR (waitlists s w)"
  note wk = kernel_invD(2)[OF inv]
  {
    assume l: "wl_list (waitlists s w) = i # rest"
    note pop = waitlist_pop_front_ok[OF l wait_okD(1)[OF wk]]
    have i: "i \<in> set (wl_list (waitlists s w))" using l by simp
    note al = wait_okD(3)[OF wk i]
    obtain l' where r: "?r = (MAXRTOS_OK, Some i, l')" using pop by (cases ?r) auto
    let ?s' = "upd_pcb i (\<lambda>b. b\<lparr>pcb_ipc_operation := MAXRTOS_IPC_OP_NONE, pcb_waitlist := None,
        pcb_wake_tick := MAXRTOS_TICK_NONE\<rparr>) (upd_waitlist w l' s)"
    have "maxrtos_ipc_wake_one (Some w) PTR PTR s
        = (MAXRTOS_OK, Some i, Some (pcb_ipc_operation (process_pool s i)), ?s')"
      using r al by (simp add: maxrtos_ipc_wake_one_def process_get_eq clear_blocked_state_eq)
    moreover have left: "left_list w i s ?s'" using l pop r by (simp add: left_list_def only_ipc_def)
    moreover have "kernel_inv ?s'" by (rule left_list_kernel_inv[OF inv left]) (use pop r in simp)
    ultimately show "\<exists>s'. maxrtos_ipc_wake_one (Some w) PTR PTR s
        = (MAXRTOS_OK, Some i, Some (pcb_ipc_operation (process_pool s i)), s')
        \<and> left_list w i s s' \<and> kernel_inv s'" by blast
  next
    assume "wl_list (waitlists s w) = []"
    then have "wl_count (waitlists s w) = 0" using length_wl_list[of "waitlists s w"] by simp
    then show "maxrtos_ipc_wake_one (Some w) PTR PTR s = (MAXRTOS_ERR_QUEUE_EMPTY, None, None, s)"
      by (simp add: maxrtos_ipc_wake_one_def maxrtos_waitlist_pop_front_def upd_waitlist_def)
  }
qed

lemma top_priority_member:
  "top_priority ctx = Some p \<Longrightarrow> p \<le> 31 \<and> hd (ready ctx p) \<in> set (ready ctx p)"
  using top_priority_SomeD[of ctx p] by auto

lemma wait_ok_same_lists:
  assumes "wait_ok pool wls" "\<And>w. wl_list (wls' w) = wl_list (wls w)" "\<And>w. wl_wf (wls w) \<Longrightarrow> wl_wf (wls' w)"
  shows "wait_ok pool wls'"
  using assms(1)[unfolded wait_ok_def] assms(3) unfolding wait_ok_def assms(2) by blast

text \<open>The first process of some ready queue leaves it.\<close>

definition dequeued :: "u32 \<Rightarrow> maxrtos_scheduler_context_t \<Rightarrow> maxrtos_scheduler_context_t \<Rightarrow> bool" where
  "dequeued n ctx ctx' \<longleftrightarrow> (\<exists>p \<le> 31. ready ctx p = n # ready ctx' p \<and> (\<forall>r. r \<noteq> p \<longrightarrow> ready ctx' r = ready ctx r))"

lemma dequeued_pop:
  assumes "ctx_wf ctx" "top_priority ctx = Some p"
  shows "dequeued (hd (ready ctx p)) ctx (maxrtos_scheduler_pop p ctx)"
proof -
  from top_priority_SomeD[OF assms(2)] obtain n as where n: "p \<le> 31" "ready ctx p = n # as"
    by (metis list.exhaust)
  from pop_ok(3)[OF assms(1) n] n show ?thesis by (auto simp: dequeued_def intro!: exI[of _ p])
qed

text \<open>Blocking the running process on a wait list, on every branch.\<close>

definition blocked_on ::
    "waitlist_ref \<Rightarrow> u32 \<Rightarrow> u32 \<Rightarrow> maxrtos_ipc_operation_t \<Rightarrow> u32 \<Rightarrow> kstate \<Rightarrow> kstate \<Rightarrow> bool" where
  "blocked_on w i wake oper n s s' \<longleftrightarrow>
     wl_list (waitlists s' w) = wl_list (waitlists s w) @ [i]
     \<and> (\<forall>v. v \<noteq> w \<longrightarrow> waitlists s' v = waitlists s v)
     \<and> process_pool s' = set_pcb_state n MAXRTOS_PROCESS_STATE_RUNNING
          ((process_pool s)(i := (process_pool s i)\<lparr>pcb_ipc_operation := oper, pcb_waitlist := Some w,
             pcb_wake_tick := wake, pcb_state := MAXRTOS_PROCESS_STATE_BLOCKED\<rparr>))
     \<and> n \<noteq> i \<and> allocated (process_pool s) n \<and> pcb_partition_id (process_pool s n) = pcb_partition_id (process_pool s i)
     \<and> current_id s' = (current_id s)(pcb_partition_id (process_pool s i) := n)
     \<and> (\<forall>p. p \<noteq> pcb_partition_id (process_pool s i) \<longrightarrow> scheduler_ctx s' p = scheduler_ctx s p)
     \<and> dequeued n (scheduler_ctx s (pcb_partition_id (process_pool s i)))
          (scheduler_ctx s' (pcb_partition_id (process_pool s i)))"

definition not_blocked :: "u32 \<Rightarrow> kstate \<Rightarrow> kstate \<Rightarrow> bool" where
  "not_blocked i s s' \<longleftrightarrow> (\<forall>v. wl_list (waitlists s' v) = wl_list (waitlists s v))
     \<and> (\<exists>oper tick. process_pool s' = (process_pool s)(i := (process_pool s i)\<lparr>pcb_ipc_operation := oper,
            pcb_waitlist := None, pcb_wake_tick := tick\<rparr>))
     \<and> scheduler_ctx s' = scheduler_ctx s \<and> current_id s' = current_id s"

lemma block_current_outcome:
  assumes inv: "kernel_inv s" and i: "allocated (process_pool s) i"
    "pcb_state (process_pool s i) = MAXRTOS_PROCESS_STATE_RUNNING"
  defines "part \<equiv> pcb_partition_id (process_pool s i)"
  shows "\<exists>s'. kernel_inv s' \<and> only_ipc s s' \<and> maxrtos_ipc_block_current PTR i (Some w) wake (Some oper) PTR s =
    (if MAXRTOS_WAITLIST_MAX \<le> length (wl_list (waitlists s w)) then (MAXRTOS_ERR_POOL_FULL, None, s')
     else if halted s part then (MAXRTOS_ERR_PARTITION_HALTED, None, s')
     else case top_priority (scheduler_ctx s part) of
       None \<Rightarrow> (MAXRTOS_ERR_QUEUE_EMPTY, None, s')
     | Some p \<Rightarrow> (MAXRTOS_OK, Some (hd (ready (scheduler_ctx s part) p)), s'))
    \<and> (if length (wl_list (waitlists s w)) < MAXRTOS_WAITLIST_MAX \<and> \<not> halted s part
          \<and> top_priority (scheduler_ctx s part) \<noteq> None
       then blocked_on w i wake oper (hd (ready (scheduler_ctx s part) (the (top_priority (scheduler_ctx s part))))) s s'
       else not_blocked i s s')"
proof -
  note sk = kernel_invD(1)[OF inv] and wk = kernel_invD(2)[OF inv] and dk = kernel_invD(3)[OF inv]
  have none: "pcb_waitlist (process_pool s i) = None"
    using wait_ok_not_blocked[OF wk i(1)] i(2) by simp
  let ?f1 = "\<lambda>b :: pcb. b\<lparr>pcb_ipc_operation := oper\<rparr>"
  let ?s1 = "upd_pcb i ?f1 s"
  let ?push = "maxrtos_waitlist_push PTR i (waitlists s w)"
  show ?thesis
  proof (cases "MAXRTOS_WAITLIST_MAX \<le> length (wl_list (waitlists s w))")
    case True
    then have push: "?push = (MAXRTOS_ERR_POOL_FULL, waitlists s w)" by (simp add: maxrtos_waitlist_push_def)
    have k: "kernel_inv ?s1"
      by (rule kernel_inv_step[OF inv sched_inv_upd_pcb[OF sk]]) (auto simp: only_scheduling_iff allocated_def)
    have "maxrtos_ipc_block_current PTR i (Some w) wake (Some oper) PTR s = (MAXRTOS_ERR_POOL_FULL, None, ?s1)"
      using push i by (simp add: maxrtos_ipc_block_current_def process_get_eq Let_def)
    moreover have "not_blocked i s ?s1"
      using none by (auto simp: not_blocked_def intro!: exI[of _ oper] exI[of _ "pcb_wake_tick (process_pool s i)"])
    ultimately show ?thesis using k True by (intro exI[of _ ?s1]) simp
  next
    case False
    then have room: "wl_count (waitlists s w) < MAXRTOS_WAITLIST_MAX" by simp
    obtain l where push: "?push = (MAXRTOS_OK, l)" "wl_list l = wl_list (waitlists s w) @ [i]" "wl_wf l"
      using waitlist_push_ok[OF room, of i] by (cases ?push) auto
    let ?s2 = "upd_pcb i (\<lambda>b. b\<lparr>pcb_waitlist := Some w, pcb_wake_tick := wake\<rparr>) (upd_waitlist w l ?s1)"
    let ?s3 = "maxrtos_kernel_timing_note_due wake ?s2"
    have p3: "process_pool ?s3 = (process_pool s)(i := (process_pool s i)\<lparr>pcb_ipc_operation := oper,
        pcb_waitlist := Some w, pcb_wake_tick := wake\<rparr>)" by simp
    have s3: "sched_inv ?s3"
      using same_sched_ok[OF sk[unfolded sched_inv_def], of "process_pool ?s3"]
      by (simp add: sched_inv_def same_sched_def)
    have i3: "allocated (process_pool ?s3) i" "pcb_state (process_pool ?s3 i) = MAXRTOS_PROCESS_STATE_RUNNING"
      using i by (simp_all add: allocated_def)
    have d3: "due_ok ?s3"
      by (rule due_ok_note[OF dk]) (auto simp: allocated_def split: if_splits)
    let ?b = "maxrtos_partition_block_and_dispatch PTR part i PTR ?s3"
    have b: "?b = (if halted s part then (MAXRTOS_ERR_PARTITION_HALTED, None, ?s3)
       else case top_priority (scheduler_ctx s part) of
         None \<Rightarrow> (MAXRTOS_ERR_QUEUE_EMPTY, None, ?s3)
       | Some p \<Rightarrow> let n = hd (ready (scheduler_ctx s part) p) in
          (MAXRTOS_OK, Some n,
           (upd_ctx part (maxrtos_scheduler_pop p (scheduler_ctx s part)) ?s3)\<lparr>
              process_pool := set_pcb_state n MAXRTOS_PROCESS_STATE_RUNNING
                (set_pcb_state i MAXRTOS_PROCESS_STATE_BLOCKED (process_pool ?s3)),
              current_id := (current_id s)(part := n)\<rparr>))"
    proof -
      have f: "pcb_partition_id (process_pool ?s3 i) = part" "halted ?s3 = halted s"
        "scheduler_ctx ?s3 = scheduler_ctx s" "current_id ?s3 = current_id s"
        by (simp_all add: part_def)
      show ?thesis using partition_block_eq[OF s3 i3] unfolding f .
    qed
    have code: "maxrtos_ipc_block_current PTR i (Some w) wake (Some oper) PTR s =
       (case ?b of (status', out, s4) \<Rightarrow>
          if status' \<noteq> MAXRTOS_OK then
            let s5 = upd_pcb i (\<lambda>b. b\<lparr>pcb_waitlist := None,
                   pcb_wake_tick := MAXRTOS_TICK_NONE, pcb_ipc_operation := MAXRTOS_IPC_OP_NONE\<rparr>) s4 in
            (status', out, upd_waitlist w (snd (maxrtos_waitlist_remove PTR i (waitlists s5 w))) s5)
          else (status', out, s4))"
      using push i by (simp add: maxrtos_ipc_block_current_def process_get_eq Let_def part_def)
    have nin: "i \<notin> set (wl_list (waitlists s w))" using wait_okD(5)[OF wk, of i w] none by auto
    let ?l' = "snd (maxrtos_waitlist_remove PTR i l)"
    have l': "wl_list ?l' = wl_list (waitlists s w)" "wl_wf ?l'"
      using waitlist_remove_cases[OF push(3), of i] push(2) nin by (simp_all add: remove1_append)
    let ?s5 = "upd_pcb i (\<lambda>b. b\<lparr>pcb_waitlist := None,
       pcb_wake_tick := MAXRTOS_TICK_NONE, pcb_ipc_operation := MAXRTOS_IPC_OP_NONE\<rparr>) ?s3"
    let ?s6 = "upd_waitlist w ?l' ?s5"
    have k6: "kernel_inv ?s6"
    proof -
      have "sched_inv ?s6"
        using same_sched_ok[OF sk[unfolded sched_inv_def], of "process_pool ?s6"]
        by (simp add: sched_inv_def same_sched_def)
      moreover have "wait_ok (process_pool ?s6) (waitlists s)"
        by (rule wait_ok_step[OF wk]) (simp_all add: none allocated_def)
      then have "wait_ok (process_pool ?s6) (waitlists ?s6)"
        by (rule wait_ok_same_lists) (use l' in auto)
      moreover have "due_ok ?s6"
        by (rule due_ok_cong[OF d3]) (auto simp: allocated_def split: if_splits)
      ultimately show ?thesis by (simp add: kernel_inv_def)
    qed
    have n6: "not_blocked i s ?s6"
      using l' by (auto simp: not_blocked_def intro!: exI[of _ MAXRTOS_IPC_OP_NONE] exI[of _ MAXRTOS_TICK_NONE])
    have o6: "only_ipc s ?s6" by simp
    show ?thesis
    proof (cases "halted s part \<or> top_priority (scheduler_ctx s part) = None")
      case True
      have w5: "waitlists ?s5 w = l" by simp
      from True show ?thesis
        unfolding code b using False k6 n6 o6 by (intro exI[of _ ?s6]) (auto simp: Let_def w5 simp del: upd_pcb_fields upd_waitlist_fields)
    next
      case F2: False
      then obtain p where p: "top_priority (scheduler_ctx s part) = Some p" by auto
      let ?n = "hd (ready (scheduler_ctx s part) p)"
      let ?s4 = "(upd_ctx part (maxrtos_scheduler_pop p (scheduler_ctx s part)) ?s3)\<lparr>
              process_pool := set_pcb_state ?n MAXRTOS_PROCESS_STATE_RUNNING
                (set_pcb_state i MAXRTOS_PROCESS_STATE_BLOCKED (process_pool ?s3)),
              current_id := (current_id s)(part := ?n)\<rparr>"
      have be: "?b = (MAXRTOS_OK, Some ?n, ?s4)" unfolding b using F2 p by (simp add: Let_def)
      have sc4: "sched_inv ?s4" "only_scheduling ?s3 ?s4"
        using partition_block_inv[OF s3 i3] be by (simp_all add: part_def)
      have part: "part < of_nat MAXRTOS_MAX_PARTITIONS"
        using sched_okD(1)[OF sk[unfolded sched_inv_def] i(1)] by (simp add: pcb_ok_def part_def)
      have domain_wf: "ctx_wf (scheduler_ctx s part)"
        using part_okD(1)[OF sched_okD(3)[OF sk[unfolded sched_inv_def] part]] by (simp add: domain_ok_def)
      have n: "allocated (process_pool s) ?n" "pcb_state (process_pool s ?n) = MAXRTOS_PROCESS_STATE_READY"
        using domain_okD(1,2)[OF part_okD(1)[OF sched_okD(3)[OF sk[unfolded sched_inv_def] part]]] top_priority_member[OF p]
        by auto
      have npart: "pcb_partition_id (process_pool s ?n) = part"
        using part_okD(3)[OF sched_okD(3)[OF sk[unfolded sched_inv_def] part]] top_priority_member[OF p] by blast
      have nn: "?n \<noteq> i" "pcb_waitlist (process_pool s ?n) = None"
        using n(2) i(2) wait_ok_not_blocked[OF wk n(1)] by auto
      have "wait_ok (process_pool ?s4) ((waitlists s)(w := l))"
        by (rule wait_ok_join[OF wk i(1) none])
          (use push nn n i in \<open>auto simp: allocated_def\<close>)
      moreover have "due_ok ?s4"
        by (rule due_ok_cong[OF d3]) (use n i in \<open>auto simp: allocated_def split: if_splits\<close>)
      ultimately have "kernel_inv ?s4" using sc4(1) by (simp add: kernel_inv_def)
      moreover have "only_ipc s ?s4" by (simp add: only_ipc_def)
      moreover have "blocked_on w i wake oper ?n s ?s4"
        using push(2) nn(1) n(1) npart dequeued_pop[OF _ p] domain_wf
        by (simp add: blocked_on_def part_def set_pcb_state_def)
      ultimately show ?thesis
        unfolding code be using False F2 p by (intro exI[of _ ?s4]) simp
    qed
  qed
qed

lemma block_current_inv:
  assumes inv: "kernel_inv s"
  shows "kernel_inv (snd (snd (maxrtos_ipc_block_current tablep i wl wake opp outp s)))
    \<and> only_ipc s (snd (snd (maxrtos_ipc_block_current tablep i wl wake opp outp s)))"
proof (cases "wl \<noteq> None \<and> opp \<noteq> None \<and> tablep \<noteq> NULL \<and> outp \<noteq> NULL \<and> allocated (process_pool s) i
    \<and> pcb_state (process_pool s i) = MAXRTOS_PROCESS_STATE_RUNNING")
  case True
  then obtain w oper where wo: "wl = Some w" "opp = Some oper" by auto
  from True have ptrs: "tablep = PTR" "outp = PTR" by (auto intro: ptr.exhaust)
  from True have i: "allocated (process_pool s) i" "pcb_state (process_pool s i) = MAXRTOS_PROCESS_STATE_RUNNING"
    by simp_all
  from block_current_outcome[OF inv i, of w wake oper] show ?thesis
    unfolding wo ptrs by (auto split: option.splits if_splits)
next
  case False
  with inv show ?thesis
    by (auto simp: maxrtos_ipc_block_current_def process_get_eq split: option.splits)
qed

text \<open>
  C19. Consistency of blocking: the IPC primitives keep the kernel invariant. Whatever the
  arguments and the outcome, after \<open>maxrtos_ipc_block_current\<close> every process on a wait list is
  BLOCKED and names that list, no list holds a process twice, and every armed time-out is covered
  by the due bound; the same holds after a process leaves a list by waking or by a time-out, and
  after it is then resolved.
\<close>

theorem ipc_primitives_keep_invariant:
  assumes "kernel_inv s"
  shows "kernel_inv (snd (snd (maxrtos_ipc_block_current tablep i wl wake opp outp s)))
    \<and> (case maxrtos_ipc_wake_one (Some w) PTR PTR s of (status, out, op', s') \<Rightarrow>
         kernel_inv s' \<and> (status = MAXRTOS_OK \<longrightarrow> kernel_inv (snd (maxrtos_ipc_resolve tablep (the out) result s'))))
    \<and> (case maxrtos_ipc_timeout_current (Some w) j PTR s of (status, op', s') \<Rightarrow>
         kernel_inv s' \<and> (status = MAXRTOS_OK \<longrightarrow> kernel_inv (snd (maxrtos_ipc_resolve tablep j result s'))))"
proof (intro conjI)
  show "kernel_inv (snd (snd (maxrtos_ipc_block_current tablep i wl wake opp outp s)))"
    using block_current_inv[OF assms] by simp
  show "case maxrtos_ipc_wake_one (Some w) PTR PTR s of (status, out, op', s') \<Rightarrow>
      kernel_inv s' \<and> (status = MAXRTOS_OK \<longrightarrow> kernel_inv (snd (maxrtos_ipc_resolve tablep (the out) result s')))"
  proof (cases "wl_list (waitlists s w)")
    case Nil
    with wake_one_eq(2)[OF assms Nil] assms show ?thesis by simp
  next
    case (Cons k rest)
    from wake_one_eq(1)[OF assms Cons] obtain s' where
      "maxrtos_ipc_wake_one (Some w) PTR PTR s = (MAXRTOS_OK, Some k, Some (pcb_ipc_operation (process_pool s k)), s')"
      "left_list w k s s'" "kernel_inv s'" by blast
    with left_list_facts[OF assms, of w k s'] resolve_step[of s' k tablep result] show ?thesis by simp
  qed
  show "case maxrtos_ipc_timeout_current (Some w) j PTR s of (status, op', s') \<Rightarrow>
      kernel_inv s' \<and> (status = MAXRTOS_OK \<longrightarrow> kernel_inv (snd (maxrtos_ipc_resolve tablep j result s')))"
  proof (cases "j \<in> set (wl_list (waitlists s w))")
    case True
    from timeout_current_eq(1)[OF assms True] obtain s' where
      "maxrtos_ipc_timeout_current (Some w) j PTR s = (MAXRTOS_OK, Some (pcb_ipc_operation (process_pool s j)), s')"
      "left_list w j s s'" "kernel_inv s'" by blast
    with left_list_facts[OF assms, of w j s'] resolve_step[of s' j tablep result] show ?thesis by simp
  next
    case False
    with timeout_current_eq(2)[OF assms False] assms show ?thesis by auto
  qed
qed

lemma example_kernel_inv: "kernel_inv example_state"
proof -
  have "wait_ok (process_pool example_state) (waitlists example_state)"
    by (simp add: wait_ok_def example_state_def blank_state_def wl_wf_def wl_list_def example_pool_def example_pcb_def)
  moreover have "due_ok example_state"
    by (simp add: due_ok_def example_state_def blank_state_def)
  ultimately show ?thesis using example_state_inv by (simp add: kernel_inv_def)
qed

lemma ipc_primitives_keep_invariant_witness:
  "kernel_inv (snd (snd (maxrtos_ipc_block_current PTR 9 (Some (WL_Mutex 0)) 100
     (Some (MAXRTOS_IPC_OP_MUTEX_LOCK 0)) PTR example_state)))"
  using ipc_primitives_keep_invariant[OF example_kernel_inv] by blast

end
