(* ===== verification/Ipc_Priority.thy ===== *)
theory Ipc_Priority
  imports Ipc_Block
begin

text \<open>
  Priority-ordered waiter selection (ipc_priority.c): a scan of the wait list for the most urgent
  waiter, the longest waiting one among equals. The scan is shown to compute \<open>best_waiter\<close>.
\<close>

text \<open>One round of the loop: \<open>best_id\<close> and \<open>best_priority\<close> after looking at entry \<open>index\<close>.\<close>

definition take_best_step :: "kstate \<Rightarrow> waitlist_ref \<Rightarrow> nat \<Rightarrow> u32 \<times> nat \<Rightarrow> u32 \<times> nat" where
  "take_best_step s w index = (\<lambda>(best_id, best_priority).
     let i = (case maxrtos_waitlist_get PTR index PTR (waitlists s w) of
                (MAXRTOS_OK, out) \<Rightarrow> out_val MAXRTOS_INVALID_PROCESS_ID out
              | _ \<Rightarrow> MAXRTOS_INVALID_PROCESS_ID);
         pcb = (case maxrtos_waitlist_get PTR index PTR (waitlists s w) of
                  (MAXRTOS_OK, _) \<Rightarrow> get_pcb i s | _ \<Rightarrow> None)
     in case pcb of
          None \<Rightarrow> (best_id, best_priority)
        | Some b \<Rightarrow>
            if best_id = MAXRTOS_INVALID_PROCESS_ID \<or> unat (pcb_priority b) < best_priority
            then (i, unat (pcb_priority b)) else (best_id, best_priority))"

definition maxrtos_ipc_take_best_waiter_op ::
    "waitlist_ref option \<Rightarrow> ptr \<Rightarrow> ptr \<Rightarrow> kstate \<Rightarrow>
     maxrtos_status \<times> u32 option \<times> maxrtos_ipc_operation_t option \<times> kstate"
where
  "maxrtos_ipc_take_best_waiter_op waitlist outp opp s =
     (case waitlist of
        Some w \<Rightarrow>
          if outp \<noteq> NULL \<and> opp \<noteq> NULL then
            (case fold (take_best_step s w) [0..<maxrtos_waitlist_count PTR (waitlists s w)]
                    (MAXRTOS_INVALID_PROCESS_ID, 0) of
               (best_id, _) \<Rightarrow>
                 if best_id \<noteq> MAXRTOS_INVALID_PROCESS_ID then
                   (case maxrtos_ipc_timeout_current waitlist best_id opp s of
                      (status, oper, s1) \<Rightarrow>
                        (status, if status = MAXRTOS_OK then Some best_id else None, oper, s1))
                 else (MAXRTOS_ERR_QUEUE_EMPTY, None, None, s))
          else (MAXRTOS_ERR_INVALID_ARG, None, None, s)
      | None \<Rightarrow> (MAXRTOS_ERR_INVALID_ARG, None, None, s))"

definition maxrtos_ipc_take_best_waiter ::
    "waitlist_ref option \<Rightarrow> ptr \<Rightarrow> kstate \<Rightarrow> maxrtos_status \<times> u32 option \<times> kstate" where
  "maxrtos_ipc_take_best_waiter waitlist outp s =
     (case maxrtos_ipc_take_best_waiter_op waitlist outp PTR s of (status, out, _, s1) \<Rightarrow> (status, out, s1))"

subsection \<open>The best waiter\<close>

text \<open>The first element of least priority number.\<close>

fun best_waiter :: "pool \<Rightarrow> u32 list \<Rightarrow> u32 option" where
  "best_waiter pool [] = None"
| "best_waiter pool (i # is) =
     (case best_waiter pool is of
        None \<Rightarrow> Some i
      | Some j \<Rightarrow> if pcb_priority (pool j) < pcb_priority (pool i) then Some j else Some i)"

lemma best_waiter_None [simp]: "best_waiter pool is = None \<longleftrightarrow> is = []"
  by (cases "is") (auto split: option.splits)

lemma best_waiter_Some:
  "best_waiter pool is = Some b \<Longrightarrow> b \<in> set is \<and> (\<forall>j \<in> set is. pcb_priority (pool b) \<le> pcb_priority (pool j))
   \<and> (\<exists>k < length is. is ! k = b \<and> (\<forall>j < k. pcb_priority (pool b) < pcb_priority (pool (is ! j))))"
proof (induction "is" arbitrary: b)
  case (Cons i "is")
  show ?case
  proof (cases "best_waiter pool is")
    case None
    with Cons.prems show ?thesis by auto
  next
    case (Some j)
    note IH = Cons.IH[OF Some]
    show ?thesis
    proof (cases "pcb_priority (pool j) < pcb_priority (pool i)")
      case True
      with Some Cons.prems have b: "b = j" by simp
      from IH obtain k where k: "k < length is" "is ! k = j"
        "\<forall>l < k. pcb_priority (pool j) < pcb_priority (pool (is ! l))" by blast
      have "\<forall>l < Suc k. pcb_priority (pool j) < pcb_priority (pool ((i # is) ! l))"
        using k(3) True by (auto simp: nth_Cons' less_Suc_eq_0_disj)
      with k True IH b show ?thesis by (auto intro!: exI[of _ "Suc k"])
    next
      case False
      with Some Cons.prems have "b = i" by simp
      with False IH show ?thesis by (auto simp: not_less intro: order.trans intro!: exI[of _ 0])
    qed
  qed
qed simp

text \<open>The scan computes it, when every entry is an allocated process.\<close>

lemma take_best_scan:
  assumes "\<And>k. k \<in> set ks \<Longrightarrow> k < wl_count (waitlists s w) \<and> allocated (process_pool s) (wl_items (waitlists s w) k)"
    and "b \<noteq> MAXRTOS_INVALID_PROCESS_ID"
  shows "fst (fold (take_best_step s w) ks (b, unat (pcb_priority (process_pool s b)))) =
    (case best_waiter (process_pool s) (map (wl_items (waitlists s w)) ks) of
       None \<Rightarrow> b
     | Some j \<Rightarrow> if pcb_priority (process_pool s j) < pcb_priority (process_pool s b) then j else b)"
  using assms
proof (induction ks arbitrary: b)
  case (Cons k ks)
  let ?i = "wl_items (waitlists s w) k" and ?pool = "process_pool s"
  from Cons.prems(1)[of k] have k: "k < wl_count (waitlists s w)" "allocated ?pool ?i" by auto
  then have iv: "?i \<noteq> MAXRTOS_INVALID_PROCESS_ID" by auto
  have step: "take_best_step s w k (b, unat (pcb_priority (?pool b))) =
      (if pcb_priority (?pool ?i) < pcb_priority (?pool b) then (?i, unat (pcb_priority (?pool ?i)))
       else (b, unat (pcb_priority (?pool b))))"
    using k Cons.prems(2)
    by (simp add: take_best_step_def maxrtos_waitlist_get_def process_get_eq Let_def word_less_nat_alt)
  have rest: "\<And>k. k \<in> set ks \<Longrightarrow> k < wl_count (waitlists s w) \<and> allocated ?pool (wl_items (waitlists s w) k)"
    using Cons.prems(1) by simp
  show ?case
  proof (cases "pcb_priority (?pool ?i) < pcb_priority (?pool b)")
    case True
    with Cons.IH[OF rest iv] step show ?thesis
      by (auto simp: not_less split: option.splits dest: less_le_trans le_less_trans)
  next
    case False
    with Cons.IH[OF rest Cons.prems(2)] step show ?thesis
      by (auto simp: not_less split: option.splits dest: less_le_trans le_less_trans)
  qed
qed simp

lemma take_best_fold:
  assumes "wait_ok (process_pool s) (waitlists s)"
  shows "fst (fold (take_best_step s w) [0..<wl_count (waitlists s w)] (MAXRTOS_INVALID_PROCESS_ID, 0)) =
    (case best_waiter (process_pool s) (wl_list (waitlists s w)) of None \<Rightarrow> MAXRTOS_INVALID_PROCESS_ID | Some j \<Rightarrow> j)"
proof (cases "wl_count (waitlists s w)")
  case 0
  then show ?thesis by (simp add: wl_list_def)
next
  case (Suc n)
  let ?l = "waitlists s w" and ?pool = "process_pool s"
  have all: "allocated ?pool (wl_items ?l k)" if "k < wl_count ?l" for k
    using wait_okD(3)[OF assms, of "wl_items ?l k" w] that by (auto simp: wl_list_def)
  have first: "take_best_step s w 0 (MAXRTOS_INVALID_PROCESS_ID, 0)
      = (wl_items ?l 0, unat (pcb_priority (?pool (wl_items ?l 0))))"
    using Suc all[of 0] by (simp add: take_best_step_def maxrtos_waitlist_get_def process_get_eq Let_def)
  have ks: "[0..<wl_count ?l] = 0 # [1..<wl_count ?l]" using Suc by (simp add: upt_conv_Cons)
  have iv: "wl_items ?l 0 \<noteq> MAXRTOS_INVALID_PROCESS_ID" using all[of 0] Suc by auto
  have "fst (fold (take_best_step s w) [1..<wl_count ?l] (wl_items ?l 0, unat (pcb_priority (?pool (wl_items ?l 0))))) =
    (case best_waiter ?pool (map (wl_items ?l) [1..<wl_count ?l]) of
       None \<Rightarrow> wl_items ?l 0
     | Some j \<Rightarrow> if pcb_priority (?pool j) < pcb_priority (?pool (wl_items ?l 0)) then j else wl_items ?l 0)"
    by (rule take_best_scan[OF _ iv]) (use all in auto)
  then show ?thesis
    unfolding wl_list_def ks by (simp add: first split: option.splits)
qed

lemma take_best_eq:
  assumes inv: "kernel_inv s"
  shows "best_waiter (process_pool s) (wl_list (waitlists s w)) = Some i \<Longrightarrow>
      \<exists>s'. maxrtos_ipc_take_best_waiter_op (Some w) PTR PTR s
          = (MAXRTOS_OK, Some i, Some (pcb_ipc_operation (process_pool s i)), s')
        \<and> left_list w i s s' \<and> kernel_inv s'"
    and "wl_list (waitlists s w) = [] \<Longrightarrow>
      maxrtos_ipc_take_best_waiter_op (Some w) PTR PTR s = (MAXRTOS_ERR_QUEUE_EMPTY, None, None, s)"
proof -
  let ?fold = "fold (take_best_step s w) [0..<wl_count (waitlists s w)] (MAXRTOS_INVALID_PROCESS_ID, 0)"
  note f = take_best_fold[OF kernel_invD(2)[OF inv], of w]
  {
    assume b: "best_waiter (process_pool s) (wl_list (waitlists s w)) = Some i"
    then have i: "i \<in> set (wl_list (waitlists s w))" using best_waiter_Some by blast
    then have iv: "i \<noteq> MAXRTOS_INVALID_PROCESS_ID"
      using wait_okD(3)[OF kernel_invD(2)[OF inv] i] by auto
    from timeout_current_eq(1)[OF inv i] f b iv
    show "\<exists>s'. maxrtos_ipc_take_best_waiter_op (Some w) PTR PTR s
          = (MAXRTOS_OK, Some i, Some (pcb_ipc_operation (process_pool s i)), s')
        \<and> left_list w i s s' \<and> kernel_inv s'"
      by (cases ?fold) (auto simp: maxrtos_ipc_take_best_waiter_op_def maxrtos_waitlist_count_def)
  next
    assume l: "wl_list (waitlists s w) = []"
    with f show "maxrtos_ipc_take_best_waiter_op (Some w) PTR PTR s = (MAXRTOS_ERR_QUEUE_EMPTY, None, None, s)"
      by (cases ?fold) (simp add: maxrtos_ipc_take_best_waiter_op_def maxrtos_waitlist_count_def)
  }
qed

text \<open>
  Waiter selection: under the kernel invariant, \<open>maxrtos_ipc_take_best_waiter_op\<close> fails only on
  an empty list, changing nothing; otherwise it takes out exactly one process, the longest waiting
  of those with the most urgent priority, clears its wait and hands back the operation it was
  blocked in. The rest of the list keeps its order.
\<close>

lemma take_best_waiter_spec:
  fixes w
  assumes "kernel_inv s"
  defines "l \<equiv> \<lambda>s. wl_list (waitlists s w)"
  shows "case maxrtos_ipc_take_best_waiter_op (Some w) PTR PTR s of (status, out, oper, s') \<Rightarrow>
    kernel_inv s' \<and>
    (if l s = [] then status = MAXRTOS_ERR_QUEUE_EMPTY \<and> out = None \<and> s' = s
     else status = MAXRTOS_OK \<and> (\<exists>k < length (l s). out = Some (l s ! k)
       \<and> (\<forall>j \<in> set (l s). pcb_priority (process_pool s (l s ! k)) \<le> pcb_priority (process_pool s j))
       \<and> (\<forall>j < k. pcb_priority (process_pool s (l s ! k)) < pcb_priority (process_pool s (l s ! j)))
       \<and> l s' = remove1 (l s ! k) (l s) \<and> pcb_waitlist (process_pool s' (l s ! k)) = None
       \<and> oper = Some (pcb_ipc_operation (process_pool s (l s ! k)))))"
proof (cases "best_waiter (process_pool s) (l s)")
  case None
  with take_best_eq(2)[OF assms(1), of w] assms(1) show ?thesis by (simp add: l_def)
next
  case (Some b)
  then have ne: "l s \<noteq> []" by auto
  from take_best_eq(1)[OF assms(1) Some[unfolded l_def]] obtain s' where r:
    "maxrtos_ipc_take_best_waiter_op (Some w) PTR PTR s
      = (MAXRTOS_OK, Some b, Some (pcb_ipc_operation (process_pool s b)), s')"
    "left_list w b s s'" "kernel_inv s'" by blast
  from best_waiter_Some[OF Some] obtain k where k: "k < length (l s)" "l s ! k = b"
    "\<forall>j < k. pcb_priority (process_pool s b) < pcb_priority (process_pool s (l s ! j))"
    "\<forall>j \<in> set (l s). pcb_priority (process_pool s b) \<le> pcb_priority (process_pool s j)" by blast
  from left_list_facts[OF assms(1) r(2)] r(2) have "pcb_waitlist (process_pool s' b) = None" "l s' = remove1 b (l s)"
    by (simp_all add: left_list_def l_def)
  with k r ne show ?thesis by (auto intro!: exI[of _ k])
qed

text \<open>Process 9 has blocked on semaphore 1 with a time-out at tick 100.\<close>

definition example_waiting :: kstate where
  "example_waiting = snd (snd (maxrtos_ipc_block_current PTR 9 (Some (WL_Semaphore 1)) 100
     (Some (MAXRTOS_IPC_OP_SEMAPHORE_WAIT 1)) PTR example_state))"

lemma example_waiting_inv: "kernel_inv example_waiting"
  unfolding example_waiting_def using block_current_inv[OF example_kernel_inv] by blast

lemma take_best_waiter_spec_witness:
  "case maxrtos_ipc_take_best_waiter_op (Some (WL_Semaphore 1)) PTR PTR example_waiting of (status, out, oper, s') \<Rightarrow>
    status = MAXRTOS_OK \<and> out = Some 9 \<and> kernel_inv s'"
proof -
  have "wl_list (waitlists example_waiting (WL_Semaphore 1)) = [9]" by code_simp
  with take_best_waiter_spec[OF example_waiting_inv, of "WL_Semaphore 1"] show ?thesis
    by (auto split: prod.splits)
qed

end
