(* ===== verification/Ipc_Contract.thy ===== *)
theory Ipc_Contract
  imports Ipc_Priority
begin

text \<open>
  The contract between the IPC services (ipc_block.c, ipc_priority.c, the priority changes of
  partition.c) and the primitives built on them: an assertion that every service keeps, and that
  of the object pools sees at most which entries are in use, is kept by every operation of mutexes,
  semaphores, buffers and queuing ports. \<open>off\<close> is what is known of a process just taken off a wait
  list, and what resuming one asks for. The primitives prove this once each, inside the locale;
  the interpretations here provide it for the kernel invariant, for the clock and halt flags, and
  for the configuration of the processes.
\<close>

definition off_lists :: "pool \<Rightarrow> u32 \<Rightarrow> bool" where
  "off_lists pool i \<longleftrightarrow> (allocated pool i \<longrightarrow> pcb_waitlist (pool i) = None)"

text \<open>The pool entry a wait list belongs to is in use.\<close>

fun object_in_use :: "kstate \<Rightarrow> waitlist_ref \<Rightarrow> bool" where
  "object_in_use s (WL_Mutex i) = mtx_in_use (s_mutex_pool s i)"
| "object_in_use s (WL_Semaphore i) = sem_in_use (s_semaphore_pool s i)"
| "object_in_use s (WL_Buffer_Receivers i) = buf_in_use (s_buffer_pool s i)"
| "object_in_use s (WL_Buffer_Senders i) = buf_in_use (s_buffer_pool s i)"
| "object_in_use s (WL_Port_Receivers i) = qp_in_use (s_port_pool s i)"
| "object_in_use s (WL_Port_Senders i) = qp_in_use (s_port_pool s i)"

definition waitlist_reset :: "waitlist_ref \<Rightarrow> kstate \<Rightarrow> kstate" where
  "waitlist_reset w s = upd_waitlist w (snd (maxrtos_waitlist_init PTR (waitlists s w))) s"

subsection \<open>No service answers PENDING\<close>

text \<open>A blocking call answers PENDING exactly when the process was blocked; no service it uses does.\<close>

lemma add_process_not_pending: "fst (maxrtos_scheduler_add_process ctxp i pool ctx) \<noteq> MAXRTOS_PENDING"
  by (simp add: maxrtos_scheduler_add_process_def maxrtos_scheduler_enqueue_def maxrtos_scheduler_queue_push_def
      prod.case_eq_if Let_def split: option.split)

lemma resolve_not_pending: "fst (maxrtos_ipc_resolve tablep i result s) \<noteq> MAXRTOS_PENDING"
  using add_process_not_pending
  by (simp add: maxrtos_ipc_resolve_def maxrtos_partition_ready_process_def process_set_state_eq process_get_eq
      prod.case_eq_if Let_def split: option.split)

lemma set_priority_not_pending: "fst (maxrtos_partition_set_process_priority tablep i q s) \<noteq> MAXRTOS_PENDING"
  using add_process_not_pending
  by (simp add: maxrtos_partition_set_process_priority_def prod.case_eq_if Let_def split: option.split)

lemma tick_after_not_pending: "fst (maxrtos_kernel_tick_after d outp s) \<noteq> MAXRTOS_PENDING"
  by (simp add: maxrtos_kernel_tick_after_def Let_def)

lemma block_current_not_pending: "fst (maxrtos_ipc_block_current tablep i wl wake opp outp s) \<noteq> MAXRTOS_PENDING"
proof -
  have n: "fst (maxrtos_scheduler_next c q ctx) \<noteq> MAXRTOS_PENDING" for c q ctx
    by (simp add: maxrtos_scheduler_next_def Let_def)
  have t: "fst (maxrtos_scheduler_take_next c q ctx) \<noteq> MAXRTOS_PENDING" for c q ctx
    using n by (simp add: maxrtos_scheduler_take_next_def prod.case_eq_if Let_def)
  have k: "fst (maxrtos_kernel_block_and_dispatch c j q ctx pool) \<noteq> MAXRTOS_PENDING" for c j q ctx pool
    using n t by (auto simp: maxrtos_kernel_block_and_dispatch_def split: option.split maxrtos_status.split prod.split) (metis fst_conv)+
  have b: "fst (maxrtos_partition_block_and_dispatch tp p j q s) \<noteq> MAXRTOS_PENDING" for tp p j q s
    using k by (simp add: maxrtos_partition_block_and_dispatch_def prod.case_eq_if Let_def)
  have w: "fst (maxrtos_waitlist_push lp j l) \<noteq> MAXRTOS_PENDING" for lp j l
    by (simp add: maxrtos_waitlist_push_def)
  show ?thesis
    using b w by (simp add: maxrtos_ipc_block_current_def prod.case_eq_if Let_def split: option.split)
qed

subsection \<open>The contract\<close>

text \<open>What priority inheritance alone relies on.\<close>

locale priority_invariant =
  fixes I :: "kstate \<Rightarrow> bool"
  assumes priority_step: "I s \<Longrightarrow> I (snd (maxrtos_partition_set_process_priority tablep i q s))"

text \<open>What waking and resuming processes rely on.\<close>

locale wake_invariant =
  fixes I :: "kstate \<Rightarrow> bool" and off :: "pool \<Rightarrow> u32 \<Rightarrow> bool"
  assumes set_priority: "I s \<Longrightarrow> I (snd (maxrtos_partition_set_process_priority tablep i q s))"
    and wake: "I s \<Longrightarrow> maxrtos_ipc_wake_one wl outp operp s = (status, out, oper, s') \<Longrightarrow>
      I s' \<and> (status = MAXRTOS_OK \<longrightarrow> (\<exists>i. out = Some i \<and> off (process_pool s') i))"
    and best: "I s \<Longrightarrow> maxrtos_ipc_take_best_waiter_op wl outp operp s = (status, out, oper, s') \<Longrightarrow>
      I s' \<and> (status = MAXRTOS_OK \<longrightarrow> (\<exists>i. out = Some i \<and> off (process_pool s') i))"
    and resolve: "I s \<Longrightarrow> off (process_pool s) i \<Longrightarrow> I (snd (maxrtos_ipc_resolve tablep i result s))"
    and mutexes: "I s \<Longrightarrow> (\<And>i. mtx_in_use (mutexes i) = mtx_in_use (s_mutex_pool s i)) \<Longrightarrow> I (s\<lparr>s_mutex_pool := mutexes\<rparr>)"
    and semaphores: "I s \<Longrightarrow> (\<And>i. sem_in_use (semaphores i) = sem_in_use (s_semaphore_pool s i)) \<Longrightarrow> I (s\<lparr>s_semaphore_pool := semaphores\<rparr>)"
    and buffers: "I s \<Longrightarrow> (\<And>i. buf_in_use (buffers i) = buf_in_use (s_buffer_pool s i)) \<Longrightarrow> I (s\<lparr>s_buffer_pool := buffers\<rparr>)"
    and ports: "I s \<Longrightarrow> (\<And>i. qp_in_use (ports i) = qp_in_use (s_port_pool s i)) \<Longrightarrow> I (s\<lparr>s_port_pool := ports\<rparr>)"
    and bytes: "I s \<Longrightarrow> I (s\<lparr>mem := bytes\<rparr>)"

sublocale wake_invariant \<subseteq> prio: priority_invariant I
  by unfold_locales (rule set_priority)

text \<open>
  A call that may block: \<open>B i s out\<close> holds once process \<open>i\<close> is blocked and \<open>out\<close> runs instead.
\<close>

locale blocking_invariant = wake_invariant +
  fixes B :: "u32 \<Rightarrow> kstate \<Rightarrow> u32 option \<Rightarrow> bool"
  assumes blocks: "I s \<Longrightarrow> (\<And>w. wl = Some w \<Longrightarrow> object_in_use s w) \<Longrightarrow>
      maxrtos_ipc_block_current tablep i wl wake opp outp s = (status, out, s') \<Longrightarrow>
      if status = MAXRTOS_OK then B i s' out else I s'"

text \<open>An assertion that holds whether or not the call blocked.\<close>

locale ipc_invariant = wake_invariant +
  assumes block: "I s \<Longrightarrow> (\<And>w. wl = Some w \<Longrightarrow> object_in_use s w) \<Longrightarrow>
      I (snd (snd (maxrtos_ipc_block_current tablep i wl wake opp outp s)))"

sublocale ipc_invariant \<subseteq> blocking: blocking_invariant I off "\<lambda>_ s _. I s"
proof (unfold_locales, goal_cases)
  case (1 s wl tablep i wake opp outp status out s')
  have "I (snd (snd (maxrtos_ipc_block_current tablep i wl wake opp outp s)))" by (rule block[OF 1(1,2)])
  with 1(3) show ?case by simp
qed

context wake_invariant
begin

lemma best_waiter_inv:
  assumes "I s" "maxrtos_ipc_take_best_waiter w outp s = (status, out, s')"
  shows "I s'" "status = MAXRTOS_OK \<Longrightarrow> \<exists>i. out = Some i \<and> off (process_pool s') i"
proof -
  obtain st ou oper s1 where r: "maxrtos_ipc_take_best_waiter_op w outp PTR s = (st, ou, oper, s1)"
    by (metis prod_cases4)
  with assms(2) have "st = status" "ou = out" "s1 = s'" by (simp_all add: maxrtos_ipc_take_best_waiter_def)
  with best[OF assms(1) r] show "I s'" "status = MAXRTOS_OK \<Longrightarrow> \<exists>i. out = Some i \<and> off (process_pool s') i" by auto
qed

end

lemma left_list_off: "kernel_inv s \<Longrightarrow> left_list w i s s' \<Longrightarrow> off_lists (process_pool s') i"
  using left_list_facts by (simp add: off_lists_def)

subsection \<open>What a step of a primitive looks like\<close>

lemma wake_one_cases:
  assumes "kernel_inv s" "maxrtos_ipc_wake_one wl outp operp s = (status, out, oper, s')"
  shows "(s' = s \<and> status \<noteq> MAXRTOS_OK) \<or>
    (\<exists>w i. wl = Some w \<and> status = MAXRTOS_OK \<and> out = Some i
       \<and> oper = Some (pcb_ipc_operation (process_pool s i)) \<and> left_list w i s s' \<and> kernel_inv s')"
proof (cases "wl \<noteq> None \<and> outp = PTR \<and> operp = PTR")
  case True
  then obtain w where w: "wl = Some w" by auto
  with True assms(2) have r: "maxrtos_ipc_wake_one (Some w) PTR PTR s = (status, out, oper, s')" by simp
  show ?thesis
  proof (cases "wl_list (waitlists s w)")
    case Nil
    with wake_one_eq(2)[OF assms(1), of w] r show ?thesis by simp
  next
    case (Cons i rest)
    from wake_one_eq(1)[OF assms(1) this] r w show ?thesis by auto
  qed
next
  case False
  with assms(2) have "s' = s \<and> status \<noteq> MAXRTOS_OK"
    by (cases wl; cases outp; cases operp) (auto simp: maxrtos_ipc_wake_one_def)
  then show ?thesis ..
qed

lemma take_best_cases:
  assumes "kernel_inv s" "maxrtos_ipc_take_best_waiter_op wl outp operp s = (status, out, oper, s')"
  shows "(s' = s \<and> status \<noteq> MAXRTOS_OK) \<or>
    (\<exists>w i. wl = Some w \<and> status = MAXRTOS_OK \<and> out = Some i
       \<and> oper = Some (pcb_ipc_operation (process_pool s i)) \<and> left_list w i s s' \<and> kernel_inv s')"
proof (cases "wl \<noteq> None \<and> outp = PTR \<and> operp = PTR")
  case True
  then obtain w where w: "wl = Some w" by auto
  with True assms(2) have r: "maxrtos_ipc_take_best_waiter_op (Some w) PTR PTR s = (status, out, oper, s')" by simp
  show ?thesis
  proof (cases "best_waiter (process_pool s) (wl_list (waitlists s w))")
    case None
    with take_best_eq(2)[OF assms(1), of w] r show ?thesis by simp
  next
    case (Some i)
    from take_best_eq(1)[OF assms(1) this] r w show ?thesis by auto
  qed
next
  case False
  with assms(2) have "s' = s \<and> status \<noteq> MAXRTOS_OK"
    by (cases wl; cases outp; cases operp) (auto simp: maxrtos_ipc_take_best_waiter_op_def)
  then show ?thesis ..
qed

lemma kernel_inv_pools [simp]:
  "kernel_inv (s\<lparr>s_mutex_pool := mutexes\<rparr>) = kernel_inv s"
  "kernel_inv (s\<lparr>s_semaphore_pool := semaphores\<rparr>) = kernel_inv s"
  "kernel_inv (s\<lparr>s_buffer_pool := buffers\<rparr>) = kernel_inv s"
  "kernel_inv (s\<lparr>s_port_pool := ports\<rparr>) = kernel_inv s"
  "kernel_inv (s\<lparr>s_sampling_port_pool := sports\<rparr>) = kernel_inv s"
  "kernel_inv (s\<lparr>mem := bytes\<rparr>) = kernel_inv s"
  by (simp_all add: kernel_inv_def sched_inv_def due_ok_def)

interpretation kernel: ipc_invariant kernel_inv off_lists
proof (unfold_locales, goal_cases)
  case (1 s tablep i q)
  then show ?case by (rule kernel_inv_set_priority)
next
  case (10 s wl tablep i wake opp outp)
  then show ?case using block_current_inv by blast
next
  case (2 s wl outp operp status out oper s')
  from wake_one_cases[OF this] this(1) left_list_off[OF this(1)] show ?case by auto
next
  case (3 s wl outp operp status out oper s')
  from take_best_cases[OF this] this(1) left_list_off[OF this(1)] show ?case by auto
next
  case (4 s i tablep result)
  then show ?case using resolve_step by (simp add: off_lists_def)
qed simp_all

lemma block_current_lists:
  assumes "kernel_inv s" "wl \<noteq> Some v"
  shows "wl_list (waitlists (snd (snd (maxrtos_ipc_block_current tablep i wl wake opp outp s))) v) = wl_list (waitlists s v)"
proof (cases "wl \<noteq> None \<and> opp \<noteq> None \<and> tablep \<noteq> NULL \<and> outp \<noteq> NULL \<and> allocated (process_pool s) i
    \<and> pcb_state (process_pool s i) = MAXRTOS_PROCESS_STATE_RUNNING")
  case True
  then obtain w oper where wo: "wl = Some w" "opp = Some oper" by auto
  from True have ptrs: "tablep = PTR" "outp = PTR" by (auto intro: ptr.exhaust)
  from True block_current_outcome[OF assms(1), of i w wake oper] show ?thesis
    unfolding wo ptrs using assms(2) wo
    by (auto simp: blocked_on_def not_blocked_def split: option.splits if_splits)
next
  case False
  then show ?thesis by (auto simp: maxrtos_ipc_block_current_def process_get_eq split: option.splits)
qed

subsection \<open>Waiting processes wait for objects in use\<close>

definition pools_ok :: "kstate \<Rightarrow> bool" where
  "pools_ok s \<longleftrightarrow> (\<forall>w. wl_list (waitlists s w) \<noteq> [] \<longrightarrow> object_in_use s w)"

lemma object_in_use_cong:
  "s_mutex_pool s' = s_mutex_pool s \<Longrightarrow> s_semaphore_pool s' = s_semaphore_pool s \<Longrightarrow>
   s_buffer_pool s' = s_buffer_pool s \<Longrightarrow> s_port_pool s' = s_port_pool s \<Longrightarrow> object_in_use s' w = object_in_use s w"
  by (cases w) simp_all

lemma pools_ok_scheduling: "pools_ok s \<Longrightarrow> only_scheduling s s' \<Longrightarrow> pools_ok s'"
  using object_in_use_cong[of s' s] by (simp add: pools_ok_def only_scheduling_iff)

lemma pools_ok_lists:
  assumes "pools_ok s" "only_ipc s s'"
    and "\<And>w. wl_list (waitlists s' w) \<noteq> [] \<Longrightarrow> wl_list (waitlists s w) \<noteq> [] \<or> object_in_use s w"
  shows "pools_ok s'"
  using assms object_in_use_cong[of s' s] by (auto simp: pools_ok_def only_ipc_def)

lemma left_list_pools: "pools_ok s \<Longrightarrow> left_list w i s s' \<Longrightarrow> pools_ok s'"
proof (rule pools_ok_lists)
  fix v assume "left_list w i s s'" "wl_list (waitlists s' v) \<noteq> []"
  then show "wl_list (waitlists s v) \<noteq> [] \<or> object_in_use s v" by (cases "v = w") (auto simp: left_list_def)
qed (simp_all add: left_list_def)

interpretation pools: ipc_invariant "\<lambda>s. kernel_inv s \<and> pools_ok s" off_lists
proof (unfold_locales, goal_cases)
  case (1 s tablep i q)
  then show ?case
    using kernel_inv_set_priority set_priority_inv[OF kernel_invD(1), of s tablep i q] pools_ok_scheduling by blast
next
  case (10 s wl tablep i wake opp outp)
  let ?s' = "snd (snd (maxrtos_ipc_block_current tablep i wl wake opp outp s))"
  from 10 have k: "kernel_inv s" and p: "pools_ok s" by auto
  note b = block_current_inv[OF k, of tablep i wl wake opp outp]
  show ?case
  proof (intro conjI conjunct1[OF b] pools_ok_lists[OF p conjunct2[OF b]])
    fix v assume ne: "wl_list (waitlists ?s' v) \<noteq> []"
    show "wl_list (waitlists s v) \<noteq> [] \<or> object_in_use s v"
    proof (cases "wl = Some v")
      case False
      with ne show ?thesis using block_current_lists[OF k, where v = v and wl = wl] by simp
    qed (use 10(2) in simp)
  qed
next
  case (2 s wl outp operp status out oper s')
  then have k: "kernel_inv s" and c: "pools_ok s" by auto
  from wake_one_cases[OF k 2(2)] k c left_list_off[OF k] left_list_pools[OF c] show ?case by auto
next
  case (3 s wl outp operp status out oper s')
  then have k: "kernel_inv s" and c: "pools_ok s" by auto
  from take_best_cases[OF k 3(2)] k c left_list_off[OF k] left_list_pools[OF c] show ?case by auto
next
  case (4 s i tablep result)
  then show ?case
    using resolve_step[of s i tablep result] pools_ok_scheduling by (auto simp: off_lists_def)
next
  case (5 s mutexes)
  then have "object_in_use (s\<lparr>s_mutex_pool := mutexes\<rparr>) w = object_in_use s w" for w by (cases w) simp_all
  with 5 show ?case by (simp add: pools_ok_def)
next
  case (6 s semaphores)
  then have "object_in_use (s\<lparr>s_semaphore_pool := semaphores\<rparr>) w = object_in_use s w" for w by (cases w) simp_all
  with 6 show ?case by (simp add: pools_ok_def)
next
  case (7 s buffers)
  then have "object_in_use (s\<lparr>s_buffer_pool := buffers\<rparr>) w = object_in_use s w" for w by (cases w) simp_all
  with 7 show ?case by (simp add: pools_ok_def)
next
  case (8 s ports)
  then have "object_in_use (s\<lparr>s_port_pool := ports\<rparr>) w = object_in_use s w" for w by (cases w) simp_all
  with 8 show ?case by (simp add: pools_ok_def)
next
  case (9 s bytes)
  have "object_in_use (s\<lparr>mem := bytes\<rparr>) w = object_in_use s w" for w by (cases w) simp_all
  with 9 show ?case by (simp add: pools_ok_def)
qed

lemma find_member: "find P xs = Some x \<Longrightarrow> P x \<and> x \<in> set xs"
  by (induction xs) (auto split: if_splits)

text \<open>Creating an object empties the wait lists of a free entry, which are empty already.\<close>

lemma waitlist_reset_facts [simp]:
  "process_pool (waitlist_reset w s) = process_pool s" "scheduler_ctx (waitlist_reset w s) = scheduler_ctx s"
  "current_id (waitlist_reset w s) = current_id s" "s_next_due (waitlist_reset w s) = s_next_due s"
  "s_mutex_pool (waitlist_reset w s) = s_mutex_pool s" "s_semaphore_pool (waitlist_reset w s) = s_semaphore_pool s"
  "s_buffer_pool (waitlist_reset w s) = s_buffer_pool s" "s_port_pool (waitlist_reset w s) = s_port_pool s"
  "wl_list (waitlists (waitlist_reset w s) v) = (if v = w then [] else wl_list (waitlists s v))"
  "only_ipc s0 (waitlist_reset w s) = only_ipc s0 s"
  by (simp_all add: waitlist_reset_def maxrtos_waitlist_init_def wl_list_def)

lemma waitlist_reset_wf: "wl_wf (waitlists s v) \<Longrightarrow> wl_wf (waitlists (waitlist_reset w s) v)"
  by (simp add: waitlist_reset_def maxrtos_waitlist_init_def wl_wf_def)

lemma waitlist_reset_inv:
  assumes "kernel_inv s" "wl_list (waitlists s w) = []"
  shows "kernel_inv (waitlist_reset w s)"
proof -
  have "wait_ok (process_pool s) (waitlists (waitlist_reset w s))"
    by (rule wait_ok_same_lists[OF kernel_invD(2)[OF assms(1)]]) (use assms(2) waitlist_reset_wf in auto)
  with assms(1) show ?thesis by (simp add: kernel_inv_def sched_inv_def due_ok_def)
qed

subsection \<open>Clock and halt flags\<close>

text \<open>Blocking, waking and priority changes never touch the clock, the halt flags or the misses.\<close>

definition same_clock :: "kstate \<Rightarrow> kstate \<Rightarrow> bool" where
  "same_clock s0 s \<longleftrightarrow> halted s = halted s0 \<and> s_current_tick s = s_current_tick s0
     \<and> s_pending_misses s = s_pending_misses s0 \<and> buffer_storage s = buffer_storage s0"

lemma only_ipc_clock: "only_ipc s s' \<Longrightarrow> same_clock s0 s \<Longrightarrow> same_clock s0 s'"
  by (simp add: only_ipc_def same_clock_def)

interpretation clock: ipc_invariant "\<lambda>s. kernel_inv s \<and> same_clock s0 s" off_lists for s0
proof (unfold_locales, goal_cases)
  case (1 s tablep i q)
  then show ?case
    using kernel_inv_set_priority set_priority_inv[OF kernel_invD(1), of s tablep i q]
    by (auto intro: only_ipc_clock only_scheduling_ipc)
next
  case (10 s wl tablep i wake opp outp)
  then show ?case using block_current_inv by (blast intro: only_ipc_clock)
next
  case (2 s wl outp operp status out oper s')
  then have k: "kernel_inv s" and c: "same_clock s0 s" by auto
  from wake_one_cases[OF k 2(2)] k c left_list_off[OF k] show ?case
    by (auto simp: left_list_def intro: only_ipc_clock)
next
  case (3 s wl outp operp status out oper s')
  then have k: "kernel_inv s" and c: "same_clock s0 s" by auto
  from take_best_cases[OF k 3(2)] k c left_list_off[OF k] show ?case
    by (auto simp: left_list_def intro: only_ipc_clock)
next
  case (4 s i tablep result)
  then show ?case
    using resolve_step[of s i tablep result] by (auto simp: off_lists_def intro: only_ipc_clock only_scheduling_ipc)
qed (simp_all add: same_clock_def)

subsection \<open>Process configuration\<close>

definition pcb_config where
  "pcb_config b = (pcb_id b, pcb_partition_id b, pcb_base_priority b, pcb_stack_base b, pcb_stack_size b,
     pcb_entry b, pcb_entry_arg b, pcb_period b, pcb_time_capacity b, pcb_release_time b, pcb_deadline_time b,
     pcb_periodic_waiting b, pcb_timed_waiting b, pcb_deadline_misses b)"

definition same_config :: "kstate \<Rightarrow> kstate \<Rightarrow> bool" where
  "same_config s0 s \<longleftrightarrow> (\<forall>i. allocated (process_pool s) i = allocated (process_pool s0) i
     \<and> pcb_config (process_pool s i) = pcb_config (process_pool s0 i))"

lemma same_config_refl [simp]: "same_config s s"
  by (simp add: same_config_def)

lemma same_config_trans: "same_config s0 s \<Longrightarrow> same_config s s' \<Longrightarrow> same_config s0 s'"
  by (simp add: same_config_def)

lemma pcb_config_upd [simp]:
  "pcb_config (b\<lparr>pcb_state := st\<rparr>) = pcb_config b"
  "pcb_config (b\<lparr>pcb_priority := q\<rparr>) = pcb_config b"
  "pcb_config (b\<lparr>pcb_wake_tick := t\<rparr>) = pcb_config b"
  "pcb_config (b\<lparr>pcb_waitlist := w\<rparr>) = pcb_config b"
  "pcb_config (b\<lparr>pcb_ipc_operation := oper\<rparr>) = pcb_config b"
  "pcb_config (b\<lparr>pcb_ipc_result := r\<rparr>) = pcb_config b"
  "pcb_config (b\<lparr>pcb_ipc_result_pending := p\<rparr>) = pcb_config b"
  by (simp_all add: pcb_config_def)

lemma same_config_upd:
  assumes "process_pool s' = (process_pool s)(i := b)" "pcb_config b = pcb_config (process_pool s i)"
    and "pcb_state b = MAXRTOS_PROCESS_STATE_UNUSED \<longleftrightarrow> pcb_state (process_pool s i) = MAXRTOS_PROCESS_STATE_UNUSED"
  shows "same_config s s'"
  unfolding same_config_def assms(1) using assms(2,3) by (auto simp: allocated_def)

lemma resolve_pool:
  assumes "kernel_inv s"
  shows "process_pool (snd (maxrtos_ipc_resolve tablep i result s)) = process_pool s \<or>
    (allocated (process_pool s) i \<and> pcb_state (process_pool s i) = MAXRTOS_PROCESS_STATE_BLOCKED
     \<and> process_pool (snd (maxrtos_ipc_resolve tablep i result s)) \<in>
         {set_pcb_state i MAXRTOS_PROCESS_STATE_READY (process_pool s),
          (process_pool s)(i := (process_pool s i)\<lparr>pcb_state := MAXRTOS_PROCESS_STATE_READY,
             pcb_ipc_result := result, pcb_ipc_result_pending := True\<rparr>)})"
proof (cases "tablep = PTR \<and> allocated (process_pool s) i \<and> pcb_state (process_pool s i) = MAXRTOS_PROCESS_STATE_BLOCKED")
  case False
  then show ?thesis by (cases tablep) (auto simp: maxrtos_ipc_resolve_def process_get_eq)
next
  case True
  obtain st s1 where r: "maxrtos_partition_ready_process PTR (pcb_partition_id (process_pool s i)) i s = (st, s1)"
    by (rule prod.exhaust)
  with True partition_ready_inv[OF kernel_invD(1)[OF assms], of i]
  have "process_pool s1 = set_pcb_state i MAXRTOS_PROCESS_STATE_READY (process_pool s)" by simp
  with True r show ?thesis by (auto simp: resolve_eq[OF kernel_invD(1)[OF assms]] set_pcb_state_def)
qed

lemma blocked_on_config:
  "blocked_on w i wake oper n s s' \<Longrightarrow> allocated (process_pool s) i \<Longrightarrow> same_config s s'"
  by (auto simp: blocked_on_def same_config_def allocated_def split: if_splits)

lemma not_blocked_config: "not_blocked i s s' \<Longrightarrow> same_config s s'"
  by (auto simp: not_blocked_def intro: same_config_upd)

lemma left_list_config: "left_list w i s s' \<Longrightarrow> same_config s s'"
  by (auto simp: left_list_def intro: same_config_upd)

lemma block_current_config:
  assumes inv: "kernel_inv s"
  shows "same_config s (snd (snd (maxrtos_ipc_block_current tablep i wl wake opp outp s)))"
proof (cases "wl \<noteq> None \<and> opp \<noteq> None \<and> tablep \<noteq> NULL \<and> outp \<noteq> NULL \<and> allocated (process_pool s) i
    \<and> pcb_state (process_pool s i) = MAXRTOS_PROCESS_STATE_RUNNING")
  case True
  then obtain w oper where wo: "wl = Some w" "opp = Some oper" by auto
  from True have ptrs: "tablep = PTR" "outp = PTR" by (auto intro: ptr.exhaust)
  from True have i: "allocated (process_pool s) i" "pcb_state (process_pool s i) = MAXRTOS_PROCESS_STATE_RUNNING"
    by simp_all
  from block_current_outcome[OF inv i, of w wake oper] show ?thesis
    unfolding wo ptrs
    by (auto dest: blocked_on_config[OF _ i(1)] not_blocked_config split: option.splits if_splits)
next
  case False
  then show ?thesis
    by (auto simp: maxrtos_ipc_block_current_def process_get_eq split: option.splits)
qed

interpretation config: ipc_invariant "\<lambda>s. kernel_inv s \<and> same_config s0 s" off_lists for s0
proof (unfold_locales, goal_cases)
  case (1 s tablep i q)
  from set_priority_inv[OF kernel_invD(1), of s tablep i q] 1 obtain q' where
    "process_pool (snd (maxrtos_partition_set_process_priority tablep i q s))
      = (process_pool s)(i := (process_pool s i)\<lparr>pcb_priority := q'\<rparr>)" by blast
  then have "same_config s (snd (maxrtos_partition_set_process_priority tablep i q s))"
    by (rule same_config_upd) simp_all
  with 1 kernel_inv_set_priority show ?case by (auto intro: same_config_trans)
next
  case (10 s wl tablep i wake opp outp)
  then show ?case using block_current_inv block_current_config by (blast intro: same_config_trans)
next
  case (2 s wl outp operp status out oper s')
  then have k: "kernel_inv s" and c: "same_config s0 s" by auto
  from wake_one_cases[OF k 2(2)] k c left_list_off[OF k] show ?case
    by (auto intro: same_config_trans left_list_config)
next
  case (3 s wl outp operp status out oper s')
  then have k: "kernel_inv s" and c: "same_config s0 s" by auto
  from take_best_cases[OF k 3(2)] k c left_list_off[OF k] show ?case
    by (auto intro: same_config_trans left_list_config)
next
  case (4 s i tablep result)
  then have k: "kernel_inv s" by simp
  note p = resolve_pool[OF k, of tablep i result]
  have "same_config s (snd (maxrtos_ipc_resolve tablep i result s))"
  proof (cases "process_pool (snd (maxrtos_ipc_resolve tablep i result s)) = process_pool s")
    case True
    then show ?thesis by (simp add: same_config_def)
  next
    case False
    with p have b: "pcb_state (process_pool s i) = MAXRTOS_PROCESS_STATE_BLOCKED"
      and d: "process_pool (snd (maxrtos_ipc_resolve tablep i result s))
          = (process_pool s)(i := (process_pool s i)\<lparr>pcb_state := MAXRTOS_PROCESS_STATE_READY\<rparr>)
        \<or> process_pool (snd (maxrtos_ipc_resolve tablep i result s))
          = (process_pool s)(i := (process_pool s i)\<lparr>pcb_state := MAXRTOS_PROCESS_STATE_READY,
             pcb_ipc_result := result, pcb_ipc_result_pending := True\<rparr>)"
      by (simp_all add: set_pcb_state_def)
    from d show ?thesis
      by (elim disjE) (rule same_config_upd, assumption, simp, simp add: b)+
  qed
  with 4 show ?case
    using resolve_step[of s i tablep result] by (auto simp: off_lists_def intro: same_config_trans)
qed (simp_all add: same_config_def)

subsection \<open>Resuming a blocked process\<close>

text \<open>
  The outcome of \<open>maxrtos_ipc_resolve\<close> on a process that has left its wait list: it joins the tail
  of its ready queue with its result, or that queue is full and it is READY without being queued.
\<close>

definition has_room :: "kstate \<Rightarrow> u32 \<Rightarrow> bool" where
  "has_room s i \<longleftrightarrow> length (ready (scheduler_ctx s (pcb_partition_id (process_pool s i)))
     (unat (pcb_priority (process_pool s i)))) < MAXRTOS_MAX_READY_PER_PRIORITY"

definition resumed :: "u32 \<Rightarrow> maxrtos_status \<Rightarrow> kstate \<Rightarrow> kstate \<Rightarrow> bool" where
  "resumed i result s s' \<longleftrightarrow> only_scheduling s s' \<and> current_id s' = current_id s
     \<and> (let part = pcb_partition_id (process_pool s i); p = unat (pcb_priority (process_pool s i)) in
         process_pool s' = (process_pool s)(i := (process_pool s i)\<lparr>pcb_state := MAXRTOS_PROCESS_STATE_READY,
           pcb_ipc_result := result, pcb_ipc_result_pending := True\<rparr>)
         \<and> ready (scheduler_ctx s' part) = (ready (scheduler_ctx s part))(p := ready (scheduler_ctx s part) p @ [i])
         \<and> (\<forall>q. q \<noteq> part \<longrightarrow> scheduler_ctx s' q = scheduler_ctx s q))"

definition lost :: "u32 \<Rightarrow> kstate \<Rightarrow> kstate \<Rightarrow> bool" where
  "lost i s s' \<longleftrightarrow> s' = upd_pcb i (\<lambda>b. b\<lparr>pcb_state := MAXRTOS_PROCESS_STATE_READY\<rparr>) s"

lemma resolve_outcome:
  assumes inv: "sched_inv s" and i: "allocated (process_pool s) i"
    "pcb_state (process_pool s i) = MAXRTOS_PROCESS_STATE_BLOCKED"
  shows "has_room s i \<Longrightarrow> \<exists>s'. maxrtos_ipc_resolve PTR i result s = (MAXRTOS_OK, s') \<and> resumed i result s s'"
    and "\<not> has_room s i \<Longrightarrow> \<exists>s'. maxrtos_ipc_resolve PTR i result s = (MAXRTOS_ERR_QUEUE_FULL, s') \<and> lost i s s'"
proof -
  let ?part = "pcb_partition_id (process_pool s i)"
  have nr: "pcb_state (process_pool s i) \<noteq> MAXRTOS_PROCESS_STATE_READY" using i(2) by simp
  {
    assume "has_room s i"
    with partition_ready_eq(1)[OF inv i(1) nr] obtain ctx' where c:
      "maxrtos_partition_ready_process PTR ?part i s
        = (MAXRTOS_OK, upd_ctx ?part ctx' (upd_pcb i (\<lambda>b. b\<lparr>pcb_state := MAXRTOS_PROCESS_STATE_READY\<rparr>) s))"
      "ready ctx' = (ready (scheduler_ctx s ?part))(unat (pcb_priority (process_pool s i)) :=
          ready (scheduler_ctx s ?part) (unat (pcb_priority (process_pool s i))) @ [i])"
      unfolding has_room_def by blast
    then show "\<exists>s'. maxrtos_ipc_resolve PTR i result s = (MAXRTOS_OK, s') \<and> resumed i result s s'"
      using i by (simp add: resolve_eq[OF inv] resumed_def only_scheduling_iff Let_def)
  next
    assume "\<not> has_room s i"
    with partition_ready_eq(2)[OF inv i(1) nr] i
    show "\<exists>s'. maxrtos_ipc_resolve PTR i result s = (MAXRTOS_ERR_QUEUE_FULL, s') \<and> lost i s s'"
      by (simp add: resolve_eq[OF inv] has_room_def lost_def not_less)
  }
qed

lemma left_list_same:
  assumes "left_list w i s s'"
  shows "has_room s' i = has_room s i" "pcb_priority (process_pool s' j) = pcb_priority (process_pool s j)"
    "pcb_partition_id (process_pool s' j) = pcb_partition_id (process_pool s j)"
    "pcb_state (process_pool s' j) = pcb_state (process_pool s j)"
    "wl_list (waitlists s' w) = remove1 i (wl_list (waitlists s w))" "v \<noteq> w \<Longrightarrow> waitlists s' v = waitlists s v"
    "i \<in> set (wl_list (waitlists s w))"
  using assms by (simp_all add: left_list_def has_room_def)

lemma blocked_on_same:
  assumes "blocked_on w i wake oper n s s'"
  shows "pcb_priority (process_pool s' j) = pcb_priority (process_pool s j)"
    "pcb_state (process_pool s' i) = MAXRTOS_PROCESS_STATE_BLOCKED"
    "pcb_state (process_pool s' n) = MAXRTOS_PROCESS_STATE_RUNNING"
    "pcb_ipc_operation (process_pool s' i) = oper" "pcb_wake_tick (process_pool s' i) = wake"
    "wl_list (waitlists s' w) = wl_list (waitlists s w) @ [i]" "v \<noteq> w \<Longrightarrow> waitlists s' v = waitlists s v"
  using assms by (auto simp: blocked_on_def)

text \<open>When blocking reports success, the process is blocked; what failure leaves behind.\<close>

lemma block_current_cases:
  assumes inv: "kernel_inv s"
    and r: "maxrtos_ipc_block_current tablep i (Some w) wake (Some oper) outp s = (status, out, s')"
  shows "status = MAXRTOS_OK \<Longrightarrow> \<exists>n. out = Some n \<and> blocked_on w i wake oper n s s'"
    and "status \<noteq> MAXRTOS_OK \<Longrightarrow> out = None \<and> (s' = s \<or> not_blocked i s s')"
    and "status \<in> {MAXRTOS_OK, MAXRTOS_ERR_POOL_FULL, MAXRTOS_ERR_PARTITION_HALTED, MAXRTOS_ERR_QUEUE_EMPTY,
      MAXRTOS_ERR_INVALID_ID, MAXRTOS_ERR_INVALID_STATE, MAXRTOS_ERR_INVALID_ARG}"
proof -
  have "(status = MAXRTOS_OK \<longrightarrow> (\<exists>n. out = Some n \<and> blocked_on w i wake oper n s s'))
    \<and> (status \<noteq> MAXRTOS_OK \<longrightarrow> out = None \<and> (s' = s \<or> not_blocked i s s'))
    \<and> status \<in> {MAXRTOS_OK, MAXRTOS_ERR_POOL_FULL, MAXRTOS_ERR_PARTITION_HALTED, MAXRTOS_ERR_QUEUE_EMPTY,
      MAXRTOS_ERR_INVALID_ID, MAXRTOS_ERR_INVALID_STATE, MAXRTOS_ERR_INVALID_ARG}"
  proof (cases "tablep \<noteq> NULL \<and> outp \<noteq> NULL \<and> allocated (process_pool s) i
      \<and> pcb_state (process_pool s i) = MAXRTOS_PROCESS_STATE_RUNNING")
    case True
    then have ptrs: "tablep = PTR" "outp = PTR" by (auto intro: ptr.exhaust)
    from True block_current_outcome[OF inv, of i w wake oper] r show ?thesis
      unfolding ptrs by (auto split: option.splits if_splits)
  next
    case False
    with r show ?thesis by (auto simp: maxrtos_ipc_block_current_def process_get_eq split: if_splits)
  qed
  then show "status = MAXRTOS_OK \<Longrightarrow> \<exists>n. out = Some n \<and> blocked_on w i wake oper n s s'"
    and "status \<noteq> MAXRTOS_OK \<Longrightarrow> out = None \<and> (s' = s \<or> not_blocked i s s')"
    and "status \<in> {MAXRTOS_OK, MAXRTOS_ERR_POOL_FULL, MAXRTOS_ERR_PARTITION_HALTED, MAXRTOS_ERR_QUEUE_EMPTY,
      MAXRTOS_ERR_INVALID_ID, MAXRTOS_ERR_INVALID_STATE, MAXRTOS_ERR_INVALID_ARG}" by simp_all
qed

subsection \<open>An example with a full ready queue\<close>

text \<open>
  A crowded partition: 0 to 7 fill the ready queue of priority 3, process 8 of the same priority
  waits on \<open>w\<close> in operation \<open>oper\<close>, and 9 runs.
\<close>

definition crowded_pool :: "waitlist_ref \<Rightarrow> maxrtos_ipc_operation_t \<Rightarrow> pool" where
  "crowded_pool w oper = (\<lambda>i. (if i < 8 then example_pcb MAXRTOS_PROCESS_STATE_READY 3
     else if i = 8 then (example_pcb MAXRTOS_PROCESS_STATE_BLOCKED 3)\<lparr>pcb_waitlist := Some w, pcb_ipc_operation := oper\<rparr>
     else if i = 9 then example_pcb MAXRTOS_PROCESS_STATE_RUNNING 3
     else example_pcb MAXRTOS_PROCESS_STATE_UNUSED 0)\<lparr>pcb_id := i\<rparr>)"

definition crowded_state :: "waitlist_ref \<Rightarrow> maxrtos_ipc_operation_t \<Rightarrow> kstate" where
  "crowded_state w oper = blank_state\<lparr>process_pool := crowded_pool w oper,
     scheduler_ctx := (\<lambda>p. if p = 0 then fold (\<lambda>i c. snd (maxrtos_scheduler_enqueue PTR i 3 c)) (ids_below 8) empty_ctx
       else empty_ctx),
     current_id := (\<lambda>p. if p = 0 then 9 else MAXRTOS_INVALID_PROCESS_ID),
     waitlists := (waitlists blank_state)(w := \<lparr>wl_items = (\<lambda>_. 8), wl_count = 1\<rparr>)\<rparr>"

lemma fold_enqueue:
  assumes "ctx_wf ctx" "unat p \<le> 31" "length (ready ctx (unat p)) + length is \<le> MAXRTOS_MAX_READY_PER_PRIORITY"
  shows "ctx_wf (fold (\<lambda>i c. snd (maxrtos_scheduler_enqueue PTR i p c)) is ctx)
    \<and> ready (fold (\<lambda>i c. snd (maxrtos_scheduler_enqueue PTR i p c)) is ctx)
        = (ready ctx)(unat p := ready ctx (unat p) @ is)"
  using assms
proof (induction "is" arbitrary: ctx)
  case (Cons i "is")
  from enqueue_ok[OF Cons.prems(1), of p i] Cons.prems obtain ctx' where c:
    "maxrtos_scheduler_enqueue PTR i p ctx = (MAXRTOS_OK, ctx')" "ctx_wf ctx'"
    "ready ctx' = (ready ctx)(unat p := ready ctx (unat p) @ [i])" by (auto simp: word_le_nat_alt)
  from Cons.IH[OF c(2) Cons.prems(2)] Cons.prems(3) c show ?case by (auto simp: fun_eq_iff)
qed simp

lemma ready_empty_ctx [simp]: "ready empty_ctx = (\<lambda>_. [])"
  by (rule ext) (simp add: ready_def empty_ctx_def rq_list_def)

lemma crowded_ctx:
  "ctx_wf (fold (\<lambda>i c. snd (maxrtos_scheduler_enqueue PTR i 3 c)) (ids_below 8) empty_ctx)"
  "ready (fold (\<lambda>i c. snd (maxrtos_scheduler_enqueue PTR i 3 c)) (ids_below 8) empty_ctx) = (\<lambda>_. [])(3 := ids_below 8)"
  using fold_enqueue[OF empty_ctx_wf, of 3 "ids_below 8"] by (simp_all add: ids_below_def)

lemma crowded_inv: "kernel_inv (crowded_state w oper)"
proof -
  let ?pool = "crowded_pool w oper"
  have al: "allocated ?pool i \<longleftrightarrow> i \<le> 9" for i
  proof -
    have "i \<le> 9 \<longleftrightarrow> i < 8 \<or> i = 8 \<or> i = 9" by (simp add: word_le_nat_alt word_less_nat_alt word_unat_eq_iff) linarith
    then show ?thesis by (auto simp: allocated_def crowded_pool_def example_pcb_def word_less_nat_alt)
  qed
  have le: "i < 8 \<Longrightarrow> i \<le> (9 :: u32)" for i by (simp add: word_le_nat_alt word_less_nat_alt)
  have "sched_ok ?pool (scheduler_ctx (crowded_state w oper)) (current_id (crowded_state w oper))"
    unfolding sched_ok_def
  proof (intro conjI allI impI)
    fix i show "pcb_ok (?pool i)" by (simp add: crowded_pool_def pcb_ok_def example_pcb_def)
  next
    fix i show "pcb_id (?pool i) = i" by (simp add: crowded_pool_def)
  next
    fix i assume "allocated ?pool i \<and> pcb_state (?pool i) = MAXRTOS_PROCESS_STATE_RUNNING"
    then show "current_id (crowded_state w oper) (pcb_partition_id (?pool i)) = i"
      by (auto simp: crowded_pool_def example_pcb_def crowded_state_def split: if_splits)
  next
    fix part :: u32 assume "part < of_nat MAXRTOS_MAX_PARTITIONS"
    show "part_ok ?pool part (scheduler_ctx (crowded_state w oper) part) (current_id (crowded_state w oper) part)"
    proof (cases "part = 0")
      case True
      have "domain_ok (scheduler_ctx (crowded_state w oper) 0) ?pool"
        using al le by (auto simp: domain_ok_def crowded_state_def crowded_ctx crowded_pool_def example_pcb_def
          distinct_ids_below)
      then show ?thesis
        using True al by (auto simp: part_ok_def crowded_state_def crowded_ctx running_in_def crowded_pool_def
          example_pcb_def split: if_splits)
    next
      case False
      then show ?thesis by (simp add: part_ok_def crowded_state_def domain_ok_def empty_ctx_wf running_in_def)
    qed
  qed
  then have "sched_inv (crowded_state w oper)" by (simp add: sched_inv_def crowded_state_def)
  moreover have "wait_ok (crowded_pool w oper) (waitlists (crowded_state w oper))"
    by (auto simp: wait_ok_def crowded_state_def blank_state_def wl_wf_def wl_list_def crowded_pool_def example_pcb_def
      allocated_def)
  moreover have "due_ok (crowded_state w oper)" by (simp add: due_ok_def crowded_state_def blank_state_def)
  ultimately show ?thesis by (simp add: kernel_inv_def crowded_state_def)
qed

lemma crowded_facts:
  "\<not> has_room (crowded_state w oper) 8"
  "best_waiter (process_pool (crowded_state w oper)) (wl_list (waitlists (crowded_state w oper) w)) = Some 8"
  "wl_list (waitlists (crowded_state w oper) w) = [8]"
  "pcb_ipc_operation (process_pool (crowded_state w oper) 8) = oper"
  "allocated (process_pool (crowded_state w oper)) 9" "pcb_partition_id (process_pool (crowded_state w oper) j) = 0"
  "pcb_state (process_pool (crowded_state w oper) 9) = MAXRTOS_PROCESS_STATE_RUNNING"
  using crowded_ctx(2) distinct_ids_below[of 8]
  by (simp_all add: has_room_def crowded_state_def crowded_pool_def example_pcb_def wl_list_def allocated_def)
    (simp add: ids_below_def)

lemma example_pools_ok: "pools_ok example_state"
  by (simp add: pools_ok_def example_state_def blank_state_def wl_list_def)

subsection \<open>The services leave the object pools and messages alone\<close>

definition pools_of where
  "pools_of s = (s_mutex_pool s, s_semaphore_pool s, s_buffer_pool s, s_port_pool s, s_sampling_port_pool s, mem s,
     buffer_storage s, s_current_tick s)"

lemma pools_of_upd [simp]:
  "pools_of (upd_pcb i f s) = pools_of s" "pools_of (upd_waitlist w l s) = pools_of s" "pools_of (upd_ctx p c s) = pools_of s"
  "pools_of (maxrtos_kernel_timing_note_due t s) = pools_of s"
  "pools_of (s\<lparr>process_pool := pool\<rparr>) = pools_of s" "pools_of (s\<lparr>current_id := cur\<rparr>) = pools_of s"
  by (simp_all add: pools_of_def)

lemma resolve_pools: "pools_of (snd (maxrtos_ipc_resolve tablep i result s)) = pools_of s"
proof -
  have "pools_of (snd (maxrtos_partition_ready_process tp part i s)) = pools_of s" for tp part
    by (simp add: maxrtos_partition_ready_process_def Let_def split: prod.split option.split)
  then show ?thesis
    by (auto simp: maxrtos_ipc_resolve_def split: prod.split option.split) (metis snd_conv)+
qed

lemma wake_one_pools: "maxrtos_ipc_wake_one w outp opp s = (status, out, oper, s') \<Longrightarrow> pools_of s' = pools_of s"
  by (auto simp: maxrtos_ipc_wake_one_def clear_blocked_state_eq Let_def
    split: option.splits if_splits prod.splits maxrtos_status.splits)

lemma timeout_current_pools: "maxrtos_ipc_timeout_current w i opp s = (status, oper, s') \<Longrightarrow> pools_of s' = pools_of s"
  by (auto simp: maxrtos_ipc_timeout_current_def clear_blocked_state_eq Let_def split: option.splits prod.splits if_splits)

lemma take_best_pools: "maxrtos_ipc_take_best_waiter_op w outp opp s = (status, out, oper, s') \<Longrightarrow> pools_of s' = pools_of s"
  by (auto simp: maxrtos_ipc_take_best_waiter_op_def dest: timeout_current_pools split: option.splits if_splits prod.splits)

end
