(* ===== verification/Mutex.thy ===== *)
theory Mutex
  imports Ipc_Contract
begin

text \<open>
  Intra-partition mutexes with priority inheritance (mutex.c). A mutex pointer is the index of its
  pool entry. The chain walk of \<open>maxrtos_mutex_refresh_chain\<close> is bounded by the code
  (\<open>MAXRTOS_MAX_MUTEXES + 1\<close> rounds), and the model recurses on the rounds left, so no fuel is added.
\<close>

abbreviation (input) MAXRTOS_MUTEX_NO_CLAIM :: u8 where "MAXRTOS_MUTEX_NO_CLAIM \<equiv> 0xFF"

definition upd_mutex :: "u32 \<Rightarrow> (maxrtos_mutex_t \<Rightarrow> maxrtos_mutex_t) \<Rightarrow> kstate \<Rightarrow> kstate" where
  "upd_mutex i f s = s\<lparr>s_mutex_pool := (s_mutex_pool s)(i := f (s_mutex_pool s i))\<rparr>"

definition maxrtos_mutex_pool_init :: "kstate \<Rightarrow> kstate" where
  "maxrtos_mutex_pool_init s =
     fold (\<lambda>i s. waitlist_reset (WL_Mutex i) (upd_mutex i (\<lambda>m. m\<lparr>mtx_in_use := False,
         mtx_partition_id := MAXRTOS_INVALID_PARTITION_ID, mtx_owner := MAXRTOS_INVALID_PROCESS_ID\<rparr>) s))
       (ids_below MAXRTOS_MAX_MUTEXES) s"

definition maxrtos_mutex_get :: "u32 \<Rightarrow> kstate \<Rightarrow> maxrtos_mutex_t option" where
  "maxrtos_mutex_get i s =
     (if i < of_nat MAXRTOS_MAX_MUTEXES \<and> mtx_in_use (s_mutex_pool s i) then Some (s_mutex_pool s i) else None)"

definition maxrtos_mutex_create :: "u32 \<Rightarrow> ptr \<Rightarrow> kstate \<Rightarrow> maxrtos_status \<times> u32 option \<times> kstate" where
  "maxrtos_mutex_create partition_id outp s =
     (if outp \<noteq> NULL \<and> partition_id < of_nat MAXRTOS_MAX_PARTITIONS then
        (case find (\<lambda>i. \<not> mtx_in_use (s_mutex_pool s i)) (ids_below MAXRTOS_MAX_MUTEXES) of
           None \<Rightarrow> (MAXRTOS_ERR_POOL_FULL, None, s)
         | Some i \<Rightarrow>
             (MAXRTOS_OK, Some i,
              waitlist_reset (WL_Mutex i) (upd_mutex i (\<lambda>m. m\<lparr>mtx_in_use := True,
                mtx_partition_id := partition_id, mtx_owner := MAXRTOS_INVALID_PROCESS_ID\<rparr>) s)))
      else (MAXRTOS_ERR_INVALID_ARG, None, s))"

text \<open>The inner loop of \<open>maxrtos_mutex_wanted_priority\<close>: the waiters of one mutex.\<close>

definition wanted_step :: "kstate \<Rightarrow> u32 \<Rightarrow> nat \<Rightarrow> u8 \<Rightarrow> u8" where
  "wanted_step s i w wanted =
     (case maxrtos_waitlist_get PTR w PTR (waitlists s (WL_Mutex i)) of
        (MAXRTOS_OK, Some waiter_id) \<Rightarrow>
          (case get_pcb waiter_id s of
             Some waiter \<Rightarrow> if pcb_priority waiter < wanted then pcb_priority waiter else wanted
           | None \<Rightarrow> wanted)
      | _ \<Rightarrow> wanted)"

definition maxrtos_mutex_wanted_priority :: "u32 \<Rightarrow> pcb \<Rightarrow> u8 \<Rightarrow> kstate \<Rightarrow> u8" where
  "maxrtos_mutex_wanted_priority pid pcb claim s =
     fold (\<lambda>i wanted.
         if mtx_in_use (s_mutex_pool s i) \<and> mtx_owner (s_mutex_pool s i) = pid
         then fold (wanted_step s i) [0..<maxrtos_waitlist_count PTR (waitlists s (WL_Mutex i))] wanted
         else wanted)
       (ids_below MAXRTOS_MAX_MUTEXES)
       (if pcb_base_priority pcb < claim then pcb_base_priority pcb else claim)"

definition maxrtos_kernel_mutex_owner :: "u32 \<Rightarrow> kstate \<Rightarrow> u32" where
  "maxrtos_kernel_mutex_owner i s =
     (case maxrtos_mutex_get i s of Some mutex \<Rightarrow> mtx_owner mutex | None \<Rightarrow> MAXRTOS_INVALID_PROCESS_ID)"

text \<open>The loop of \<open>maxrtos_mutex_refresh_chain\<close> with the number of rounds left.\<close>

primrec refresh_chain_loop :: "nat \<Rightarrow> ptr \<Rightarrow> u32 \<Rightarrow> u8 \<Rightarrow> maxrtos_status \<Rightarrow> kstate \<Rightarrow> maxrtos_status \<times> kstate" where
  "refresh_chain_loop 0 tablep current extra status s = (status, s)"
| "refresh_chain_loop (Suc rounds) tablep current extra status s =
     (if current \<noteq> MAXRTOS_INVALID_PROCESS_ID \<and> status = MAXRTOS_OK then
        (case get_pcb current s of
           None \<Rightarrow> refresh_chain_loop rounds tablep MAXRTOS_INVALID_PROCESS_ID MAXRTOS_MUTEX_NO_CLAIM status s
         | Some pcb \<Rightarrow>
             (case maxrtos_partition_set_process_priority tablep current
                     (maxrtos_mutex_wanted_priority current pcb extra s) s of
                (status', s1) \<Rightarrow>
                  let pcb1 = process_pool s1 current;
                      next = (if status' = MAXRTOS_OK \<and> pcb_state pcb1 = MAXRTOS_PROCESS_STATE_BLOCKED
                              then (case pcb_ipc_operation pcb1 of
                                      MAXRTOS_IPC_OP_MUTEX_LOCK m \<Rightarrow> maxrtos_kernel_mutex_owner m s1
                                    | _ \<Rightarrow> MAXRTOS_INVALID_PROCESS_ID)
                              else MAXRTOS_INVALID_PROCESS_ID)
                  in refresh_chain_loop rounds tablep next MAXRTOS_MUTEX_NO_CLAIM status' s1))
      else (status, s))"

definition maxrtos_mutex_refresh_chain :: "ptr \<Rightarrow> u32 \<Rightarrow> u8 \<Rightarrow> kstate \<Rightarrow> maxrtos_status \<times> kstate" where
  "maxrtos_mutex_refresh_chain tablep owner claim s =
     refresh_chain_loop (MAXRTOS_MAX_MUTEXES + 1) tablep owner claim MAXRTOS_OK s"

definition maxrtos_mutex_hand_off :: "u32 \<Rightarrow> ptr \<Rightarrow> kstate \<Rightarrow> maxrtos_status \<times> kstate" where
  "maxrtos_mutex_hand_off i tablep s =
     (let previous_owner = mtx_owner (s_mutex_pool s i);
          s1 = upd_mutex i (\<lambda>m. m\<lparr>mtx_owner := MAXRTOS_INVALID_PROCESS_ID\<rparr>) s;
          (status, s2) =
            (case maxrtos_ipc_take_best_waiter (Some (WL_Mutex i)) PTR s1 of
               (MAXRTOS_OK, Some next_owner, s') \<Rightarrow>
                 (case maxrtos_ipc_resolve tablep next_owner MAXRTOS_OK
                         (upd_mutex i (\<lambda>m. m\<lparr>mtx_owner := next_owner\<rparr>) s') of
                    (status, s'') \<Rightarrow>
                      if status \<noteq> MAXRTOS_OK
                      then (status, upd_mutex i (\<lambda>m. m\<lparr>mtx_owner := MAXRTOS_INVALID_PROCESS_ID\<rparr>) s'')
                      else (status, s''))
             | (_, _, s') \<Rightarrow> (MAXRTOS_OK, s'))
      in (status, snd (maxrtos_mutex_refresh_chain tablep previous_owner MAXRTOS_MUTEX_NO_CLAIM s2)))"

definition maxrtos_kernel_mutex_lock ::
    "u32 \<Rightarrow> u32 \<Rightarrow> ptr \<Rightarrow> u32 \<Rightarrow> ptr \<Rightarrow> kstate \<Rightarrow> maxrtos_status \<times> u32 option \<times> kstate"
where
  "maxrtos_kernel_mutex_lock i timeout tablep current outp s =
     (if tablep \<noteq> NULL \<and> outp \<noteq> NULL then
        (case (maxrtos_mutex_get i s, get_pcb current s) of
           (Some mutex, Some pcb) \<Rightarrow>
             if mtx_partition_id mutex \<noteq> pcb_partition_id pcb then (MAXRTOS_ERR_INVALID_ID, None, s)
             else if mtx_owner mutex = current then (MAXRTOS_ERR_INVALID_STATE, None, s)
             else if mtx_owner mutex = MAXRTOS_INVALID_PROCESS_ID
             then (MAXRTOS_OK, None, upd_mutex i (\<lambda>m. m\<lparr>mtx_owner := current\<rparr>) s)
             else if timeout = 0 then (MAXRTOS_ERR_TIMEOUT, None, s)
             else
               (case maxrtos_kernel_tick_after timeout PTR s of
                  (status0, wake) \<Rightarrow>
                    let (status1, s1) =
                          (if status0 = MAXRTOS_OK
                           then maxrtos_mutex_refresh_chain tablep (mtx_owner mutex) (pcb_priority pcb) s
                           else (status0, s));
                        (status2, out, s2) =
                          (if status1 = MAXRTOS_OK then
                             (case maxrtos_ipc_block_current tablep current (Some (WL_Mutex i))
                                     (out_val MAXRTOS_TICK_NONE wake)
                                     (Some (MAXRTOS_IPC_OP_MUTEX_LOCK i)) outp s1 of
                                (st, out, s') \<Rightarrow>
                                  (if st = MAXRTOS_OK then MAXRTOS_PENDING
                                   else if st = MAXRTOS_ERR_QUEUE_EMPTY then MAXRTOS_ERR_TIMEOUT
                                   else st, out, s'))
                           else (status1, None, s1))
                    in if status2 \<noteq> MAXRTOS_PENDING
                       then (status2, out, snd (maxrtos_mutex_refresh_chain tablep
                               (mtx_owner (s_mutex_pool s2 i)) MAXRTOS_MUTEX_NO_CLAIM s2))
                       else (status2, out, s2))
         | _ \<Rightarrow> (MAXRTOS_ERR_INVALID_ID, None, s))
      else (MAXRTOS_ERR_INVALID_ARG, None, s))"

definition maxrtos_kernel_mutex_unlock :: "u32 \<Rightarrow> ptr \<Rightarrow> u32 \<Rightarrow> kstate \<Rightarrow> maxrtos_status \<times> kstate" where
  "maxrtos_kernel_mutex_unlock i tablep current s =
     (if tablep \<noteq> NULL then
        (case (maxrtos_mutex_get i s, get_pcb current s) of
           (Some mutex, Some pcb) \<Rightarrow>
             if mtx_partition_id mutex \<noteq> pcb_partition_id pcb then (MAXRTOS_ERR_INVALID_ID, s)
             else if mtx_owner mutex \<noteq> current then (MAXRTOS_ERR_INVALID_STATE, s)
             else maxrtos_mutex_hand_off i tablep s
         | _ \<Rightarrow> (MAXRTOS_ERR_INVALID_ID, s))
      else (MAXRTOS_ERR_INVALID_ARG, s))"

definition maxrtos_kernel_mutex_release_all :: "ptr \<Rightarrow> u32 \<Rightarrow> kstate \<Rightarrow> kstate" where
  "maxrtos_kernel_mutex_release_all tablep pid s =
     (if tablep \<noteq> NULL then
        fold (\<lambda>i s. if mtx_in_use (s_mutex_pool s i) \<and> mtx_owner (s_mutex_pool s i) = pid
                    then snd (maxrtos_mutex_hand_off i tablep s) else s)
          (ids_below MAXRTOS_MAX_MUTEXES) s
      else s)"

definition maxrtos_kernel_mutex_refresh_priorities :: "ptr \<Rightarrow> kstate \<Rightarrow> kstate" where
  "maxrtos_kernel_mutex_refresh_priorities tablep s =
     (if tablep \<noteq> NULL then
        fold (\<lambda>i s. if mtx_in_use (s_mutex_pool s i) \<and> mtx_owner (s_mutex_pool s i) \<noteq> MAXRTOS_INVALID_PROCESS_ID
                    then snd (maxrtos_mutex_refresh_chain tablep (mtx_owner (s_mutex_pool s i)) MAXRTOS_MUTEX_NO_CLAIM s)
                    else s)
          (ids_below MAXRTOS_MAX_MUTEXES) s
      else s)"

subsection \<open>What every mutex operation keeps\<close>

lemma upd_mutex_fields [simp]:
  "process_pool (upd_mutex i f s) = process_pool s" "scheduler_ctx (upd_mutex i f s) = scheduler_ctx s"
  "waitlists (upd_mutex i f s) = waitlists s"
  by (simp_all add: upd_mutex_def)

lemma set_priority_mutexes:
  "s_mutex_pool (snd (maxrtos_partition_set_process_priority tablep i q s)) = s_mutex_pool s"
  by (auto simp: maxrtos_partition_set_process_priority_def Let_def split: option.split prod.split)

lemma refresh_chain_mutexes: "s_mutex_pool (snd (maxrtos_mutex_refresh_chain tablep i claim s)) = s_mutex_pool s"
proof -
  have "s_mutex_pool (snd (refresh_chain_loop n tablep current extra status s)) = s_mutex_pool s"
    for n current extra status s
  proof (induction n arbitrary: current extra status s)
    case (Suc n)
    obtain st s1 where r: "maxrtos_partition_set_process_priority tablep current
        (maxrtos_mutex_wanted_priority current (process_pool s current) extra s) s = (st, s1)"
      by (rule prod.exhaust)
    have "s_mutex_pool s1 = s_mutex_pool s"
      using set_priority_mutexes[of tablep current
          "maxrtos_mutex_wanted_priority current (process_pool s current) extra s" s] r by simp
    with Suc r show ?case by (simp add: Let_def process_get_eq)
  qed simp
  then show ?thesis unfolding maxrtos_mutex_refresh_chain_def .
qed

context priority_invariant
begin

lemma refresh_chain_loop_inv: "I s \<Longrightarrow> I (snd (refresh_chain_loop n tablep current extra status s))"
proof (induction n arbitrary: current extra status s)
  case (Suc n)
  obtain st s1 where r: "maxrtos_partition_set_process_priority tablep current
      (maxrtos_mutex_wanted_priority current (process_pool s current) extra s) s = (st, s1)"
    by (rule prod.exhaust)
  have "I s1"
    using priority_step[OF Suc.prems, of tablep current
        "maxrtos_mutex_wanted_priority current (process_pool s current) extra s"] r by simp
  with Suc r show ?case by (simp add: Let_def process_get_eq)
qed simp

lemma refresh_chain_inv: "I s \<Longrightarrow> I (snd (maxrtos_mutex_refresh_chain tablep i claim s))"
  unfolding maxrtos_mutex_refresh_chain_def by (rule refresh_chain_loop_inv)

lemma mutex_refresh_priorities_inv: "I s \<Longrightarrow> I (maxrtos_kernel_mutex_refresh_priorities tablep s)"
  unfolding maxrtos_kernel_mutex_refresh_priorities_def by (simp add: fold_invariant refresh_chain_inv)

end

context wake_invariant
begin

lemma upd_mutex_inv: "I s \<Longrightarrow> (\<And>m. mtx_in_use (f m) = mtx_in_use m) \<Longrightarrow> I (upd_mutex i f s)"
  unfolding upd_mutex_def by (rule mutexes) simp_all

lemma hand_off_inv:
  assumes "I s"
  shows "I (snd (maxrtos_mutex_hand_off i tablep s))"
proof -
  let ?s1 = "upd_mutex i (\<lambda>m. m\<lparr>mtx_owner := MAXRTOS_INVALID_PROCESS_ID\<rparr>) s"
  obtain st out s2 where r: "maxrtos_ipc_take_best_waiter (Some (WL_Mutex i)) PTR ?s1 = (st, out, s2)"
    by (rule prod_cases3)
  have I1: "I ?s1" by (rule upd_mutex_inv[OF assms]) simp
  note b = best_waiter_inv[OF I1 r]
  show ?thesis
  proof (cases "st = MAXRTOS_OK")
    case False
    with r b(1) show ?thesis
      by (cases st) (simp_all add: maxrtos_mutex_hand_off_def Let_def prio.refresh_chain_inv)
  next
    case True
    from b(2)[OF this] obtain n where n: "out = Some n" "off (process_pool s2) n" by auto
    let ?s3 = "upd_mutex i (\<lambda>m. m\<lparr>mtx_owner := n\<rparr>) s2"
    obtain st' s4 where r': "maxrtos_ipc_resolve tablep n MAXRTOS_OK ?s3 = (st', s4)" by (rule prod.exhaust)
    have "I ?s3" by (rule upd_mutex_inv[OF b(1)]) simp
    then have "I s4"
      using resolve[of ?s3 n tablep MAXRTOS_OK] n(2) r' by simp
    with r r' True n(1) show ?thesis
      by (simp add: maxrtos_mutex_hand_off_def Let_def prio.refresh_chain_inv upd_mutex_inv)
  qed
qed

lemma mutex_unlock_inv:
  assumes "I s"
  shows "I (snd (maxrtos_kernel_mutex_unlock i tablep current s))"
  using assms by (simp add: maxrtos_kernel_mutex_unlock_def hand_off_inv split: option.split)

lemma mutex_release_all_inv: "I s \<Longrightarrow> I (maxrtos_kernel_mutex_release_all tablep pid s)"
  unfolding maxrtos_kernel_mutex_release_all_def by (simp add: fold_invariant hand_off_inv)

end

lemma refresh_chain_not_pending:
  "fst (maxrtos_mutex_refresh_chain tablep current extra s) \<noteq> MAXRTOS_PENDING"
proof -
  have "status \<noteq> MAXRTOS_PENDING \<Longrightarrow> fst (refresh_chain_loop n tablep current extra status s) \<noteq> MAXRTOS_PENDING"
    for n current extra status s
  proof (induction n arbitrary: current extra status s)
    case (Suc n)
    then show ?case
      using set_priority_not_pending by (simp add: Let_def process_get_eq prod.case_eq_if)
  qed simp
  then show ?thesis by (simp add: maxrtos_mutex_refresh_chain_def)
qed

context blocking_invariant
begin

lemma mutex_lock_outcome:
  assumes "I s" "maxrtos_kernel_mutex_lock i timeout tablep current outp s = (status, out, s')"
  shows "if status = MAXRTOS_PENDING then B current s' out else I s'"
proof (cases "tablep \<noteq> NULL \<and> outp \<noteq> NULL \<and> maxrtos_mutex_get i s \<noteq> None \<and> allocated (process_pool s) current")
  case False
  with assms show ?thesis by (auto simp: maxrtos_kernel_mutex_lock_def process_get_eq split: option.splits if_splits)
next
  case True
  then obtain m where m: "maxrtos_mutex_get i s = Some m" by auto
  obtain st0 wake where t: "maxrtos_kernel_tick_after timeout PTR s = (st0, wake)" by (rule prod.exhaust)
  obtain st1 s1 where c: "maxrtos_mutex_refresh_chain tablep (mtx_owner m) (pcb_priority (process_pool s current)) s = (st1, s1)"
    by (rule prod.exhaust)
  obtain st2 out2 s2 where b: "maxrtos_ipc_block_current tablep current (Some (WL_Mutex i))
      (out_val MAXRTOS_TICK_NONE wake) (Some (MAXRTOS_IPC_OP_MUTEX_LOCK i)) outp s1 = (st2, out2, s2)"
    by (rule prod_cases3)
  from prio.refresh_chain_inv[OF assms(1)] c have I1: "I s1" by (metis snd_conv)
  have "mtx_in_use (s_mutex_pool s1 i)"
    using m refresh_chain_mutexes[of tablep "mtx_owner m" "pcb_priority (process_pool s current)" s] c
    by (simp add: maxrtos_mutex_get_def split: if_splits)
  then have I2: "if st2 = MAXRTOS_OK then B current s2 out2 else I s2" using blocks[OF I1 _ b] by simp
  have np: "st0 \<noteq> MAXRTOS_PENDING" "st1 \<noteq> MAXRTOS_PENDING" "st2 \<noteq> MAXRTOS_PENDING"
    using tick_after_not_pending[of timeout PTR s] block_current_not_pending[of tablep current "Some (WL_Mutex i)"
        "out_val MAXRTOS_TICK_NONE wake" "Some (MAXRTOS_IPC_OP_MUTEX_LOCK i)" outp s1]
      refresh_chain_not_pending[of tablep "mtx_owner m" "pcb_priority (process_pool s current)" s] t c b by simp_all
  from True m t c b assms I1 I2 np show ?thesis
    by (auto simp: maxrtos_kernel_mutex_lock_def process_get_eq upd_mutex_inv prio.refresh_chain_inv Let_def split: if_splits)
qed

end

context ipc_invariant
begin

lemma mutex_lock_inv: "I s \<Longrightarrow> I (snd (snd (maxrtos_kernel_mutex_lock i timeout tablep current outp s)))"
  by (cases "maxrtos_kernel_mutex_lock i timeout tablep current outp s")
    (auto dest: blocking.mutex_lock_outcome split: if_splits)

end

subsection \<open>The priority an owner is asked to run at\<close>

definition owns_mutex :: "kstate \<Rightarrow> u32 \<Rightarrow> u32 \<Rightarrow> bool" where
  "owns_mutex s pid m \<longleftrightarrow> m < of_nat MAXRTOS_MAX_MUTEXES \<and> mtx_in_use (s_mutex_pool s m) \<and> mtx_owner (s_mutex_pool s m) = pid"

definition mutex_waiter :: "kstate \<Rightarrow> u32 \<Rightarrow> u32 \<Rightarrow> bool" where
  "mutex_waiter s pid k \<longleftrightarrow> (\<exists>m. owns_mutex s pid m \<and> k \<in> set (wl_list (waitlists s (WL_Mutex m))))"

lemma wanted_step_eq:
  assumes "wait_ok (process_pool s) (waitlists s)" "w < wl_count (waitlists s (WL_Mutex i))"
  shows "wanted_step s i w wanted = min wanted (pcb_priority (process_pool s (wl_list (waitlists s (WL_Mutex i)) ! w)))"
proof -
  let ?l = "waitlists s (WL_Mutex i)"
  have nth: "wl_list ?l ! w = wl_items ?l w" using assms(2) by (simp add: wl_list_def)
  then have "wl_items ?l w \<in> set (wl_list ?l)" using assms(2) by (metis length_wl_list nth_mem)
  then have "allocated (process_pool s) (wl_items ?l w)" by (rule wait_okD(3)[OF assms(1)])
  then show ?thesis
    using assms(2) by (auto simp: wanted_step_def maxrtos_waitlist_get_def process_get_eq nth min_def not_less)
qed

lemma wanted_fold:
  assumes "wait_ok (process_pool s) (waitlists s)"
  shows "fold (wanted_step s i) [0..<maxrtos_waitlist_count PTR (waitlists s (WL_Mutex i))] wanted
    = fold (\<lambda>k p. min p (pcb_priority (process_pool s k))) (wl_list (waitlists s (WL_Mutex i))) wanted"
proof -
  let ?l = "waitlists s (WL_Mutex i)"
  have "fold (wanted_step s i) [0..<wl_count ?l] wanted
      = fold (\<lambda>w p. min p (pcb_priority (process_pool s (wl_items ?l w)))) [0..<wl_count ?l] wanted"
    by (rule fold_cong) (auto simp: wanted_step_eq[OF assms] wl_list_def)
  then show ?thesis by (simp add: wl_list_def fold_map comp_def maxrtos_waitlist_count_def)
qed

lemma fold_min_spec:
  "fold (\<lambda>k p. min p (f k)) ks (a :: u8) \<le> a
   \<and> (\<forall>k \<in> set ks. fold (\<lambda>k p. min p (f k)) ks a \<le> f k)
   \<and> fold (\<lambda>k p. min p (f k)) ks a \<in> insert a (f ` set ks)"
proof (induction ks arbitrary: a)
  case (Cons k ks)
  define F where "F = fold (\<lambda>k p. min p (f k)) ks (min a (f k))"
  have "F \<le> min a (f k)" "\<forall>j \<in> set ks. F \<le> f j" "F \<in> insert (min a (f k)) (f ` set ks)"
    using Cons.IH[of "min a (f k)"] unfolding F_def by blast+
  moreover have "min a (f k) \<in> {a, f k}" by (simp add: min_def)
  ultimately have "F \<le> a \<and> (\<forall>j \<in> set (k # ks). F \<le> f j) \<and> F \<in> insert a (f ` set (k # ks))" by auto
  then show ?case by (simp add: F_def)
qed simp

lemma wanted_priority_fold:
  assumes "wait_ok (process_pool s) (waitlists s)"
  shows "maxrtos_mutex_wanted_priority pid b claim s
    = fold (\<lambda>k p. min p (pcb_priority (process_pool s k)))
        (concat (map (\<lambda>m. wl_list (waitlists s (WL_Mutex m)))
           (filter (\<lambda>m. mtx_in_use (s_mutex_pool s m) \<and> mtx_owner (s_mutex_pool s m) = pid) (ids_below MAXRTOS_MAX_MUTEXES))))
        (min (pcb_base_priority b) claim)"
proof -
  let ?f = "\<lambda>k p. min p (pcb_priority (process_pool s k))"
  have "fold (\<lambda>i wanted. if mtx_in_use (s_mutex_pool s i) \<and> mtx_owner (s_mutex_pool s i) = pid
         then fold (wanted_step s i) [0..<maxrtos_waitlist_count PTR (waitlists s (WL_Mutex i))] wanted else wanted) ms a
    = fold ?f (concat (map (\<lambda>m. wl_list (waitlists s (WL_Mutex m)))
        (filter (\<lambda>m. mtx_in_use (s_mutex_pool s m) \<and> mtx_owner (s_mutex_pool s m) = pid) ms))) a" for ms a
    by (induction ms arbitrary: a) (simp_all add: wanted_fold[OF assms])
  moreover have "(if pcb_base_priority b < claim then pcb_base_priority b else claim) = min (pcb_base_priority b) claim"
    by (auto simp: min_def)
  ultimately show ?thesis unfolding maxrtos_mutex_wanted_priority_def by simp
qed

lemma mutex_waiters_concat:
  "set (concat (map (\<lambda>m. wl_list (waitlists s (WL_Mutex m)))
     (filter (\<lambda>m. mtx_in_use (s_mutex_pool s m) \<and> mtx_owner (s_mutex_pool s m) = pid) (ids_below MAXRTOS_MAX_MUTEXES))))
   = {k. mutex_waiter s pid k}"
  by (auto simp: mutex_waiter_def owns_mutex_def)

text \<open>
  The inherited priority: under the kernel invariant, \<open>maxrtos_mutex_wanted_priority\<close>, which
  scans the wait lists of the mutexes a process owns, computes the most urgent of its base
  priority, the claim, and the effective priorities of all processes waiting on a mutex it owns.
\<close>

lemma mutex_wanted_priority_is_minimum:
  assumes "kernel_inv s"
  shows "maxrtos_mutex_wanted_priority pid b claim s
    = Min ({pcb_base_priority b, claim} \<union> {pcb_priority (process_pool s k) |k. mutex_waiter s pid k})"
proof -
  define ks where "ks = concat (map (\<lambda>m. wl_list (waitlists s (WL_Mutex m)))
     (filter (\<lambda>m. mtx_in_use (s_mutex_pool s m) \<and> mtx_owner (s_mutex_pool s m) = pid) (ids_below MAXRTOS_MAX_MUTEXES)))"
  have ks: "set ks = {k. mutex_waiter s pid k}" unfolding ks_def by (rule mutex_waiters_concat)
  have w: "maxrtos_mutex_wanted_priority pid b claim s
    = fold (\<lambda>k p. min p (pcb_priority (process_pool s k))) ks (min (pcb_base_priority b) claim)"
    unfolding ks_def by (rule wanted_priority_fold[OF kernel_invD(2)[OF assms]])
  have img: "{pcb_priority (process_pool s k) |k. mutex_waiter s pid k} = (\<lambda>k. pcb_priority (process_pool s k)) ` set ks"
    unfolding ks by auto
  show ?thesis
    unfolding w img
    by (rule Min_eqI[symmetric])
      (use fold_min_spec[of "\<lambda>k. pcb_priority (process_pool s k)" ks "min (pcb_base_priority b) claim"] in
        \<open>auto simp: min_def split: if_splits\<close>)
qed

lemma wanted_priority_le:
  assumes "kernel_inv s"
  shows "maxrtos_mutex_wanted_priority pid b claim s \<le> pcb_base_priority b"
    "maxrtos_mutex_wanted_priority pid b claim s \<le> claim"
    "mutex_waiter s pid k \<Longrightarrow> maxrtos_mutex_wanted_priority pid b claim s \<le> pcb_priority (process_pool s k)"
  using fold_min_spec[of "\<lambda>k. pcb_priority (process_pool s k)" _ "min (pcb_base_priority b) claim"]
    mutex_waiters_concat[of s pid]
  unfolding wanted_priority_fold[OF kernel_invD(2)[OF assms]]
  by (simp_all only: mem_Collect_eq min.bounded_iff)

subsection \<open>Priority inheritance along a chain of owners\<close>

lemma set_priority_step:
  assumes "kernel_inv s" "maxrtos_partition_set_process_priority PTR i q s = (MAXRTOS_OK, s1)"
  shows "kernel_inv s1" "process_pool s1 = (process_pool s)(i := (process_pool s i)\<lparr>pcb_priority := q\<rparr>)"
    "s_mutex_pool s1 = s_mutex_pool s" "waitlists s1 = waitlists s"
  using kernel_inv_set_priority[OF assms(1), of PTR i q] set_priority_inv[OF kernel_invD(1)[OF assms(1)], of PTR i q] assms(2)
  by (auto simp: only_scheduling_iff)

text \<open>\<open>i\<close> waits for a mutex that \<open>j\<close> owns.\<close>

definition waits_for :: "kstate \<Rightarrow> u32 \<Rightarrow> u32 \<Rightarrow> bool" where
  "waits_for s i j \<longleftrightarrow> (\<exists>m. pcb_state (process_pool s i) = MAXRTOS_PROCESS_STATE_BLOCKED
     \<and> pcb_ipc_operation (process_pool s i) = MAXRTOS_IPC_OP_MUTEX_LOCK m
     \<and> owns_mutex s j m \<and> i \<in> set (wl_list (waitlists s (WL_Mutex m))) \<and> allocated (process_pool s) j)"

definition mutex_blocked :: "pcb \<Rightarrow> bool" where
  "mutex_blocked b \<longleftrightarrow> pcb_state b = MAXRTOS_PROCESS_STATE_BLOCKED
     \<and> (case pcb_ipc_operation b of MAXRTOS_IPC_OP_MUTEX_LOCK m \<Rightarrow> True | _ \<Rightarrow> False)"

text \<open>A chain of owners: each waits for the next, the last one does not wait for a mutex.\<close>

fun owner_chain :: "kstate \<Rightarrow> u32 list \<Rightarrow> bool" where
  "owner_chain s [] \<longleftrightarrow> False"
| "owner_chain s [i] \<longleftrightarrow> allocated (process_pool s) i \<and> \<not> mutex_blocked (process_pool s i)"
| "owner_chain s (i # j # is) \<longleftrightarrow> allocated (process_pool s) i \<and> waits_for s i j \<and> owner_chain s (j # is)"

lemma waits_for_cong:
  assumes "process_pool s1 = (process_pool s)(k := (process_pool s k)\<lparr>pcb_priority := q\<rparr>)"
    "s_mutex_pool s1 = s_mutex_pool s" "waitlists s1 = waitlists s"
  shows "waits_for s1 i j = waits_for s i j" "owner_chain s1 is = owner_chain s is"
    "mutex_waiter s1 i j = mutex_waiter s i j"
proof -
  show w: "waits_for s1 i j = waits_for s i j" for i j
    using assms by (simp add: waits_for_def owns_mutex_def allocated_def)
  show "mutex_waiter s1 i j = mutex_waiter s i j"
    using assms by (simp add: mutex_waiter_def owns_mutex_def)
  show "owner_chain s1 is = owner_chain s is"
    by (induction "is" rule: induct_list012)
      (use w assms in \<open>simp_all add: allocated_def mutex_blocked_def\<close>)
qed

lemma waits_for_owner:
  assumes "waits_for s i j"
  shows "mutex_waiter s j i" "\<exists>m. pcb_ipc_operation (process_pool s i) = MAXRTOS_IPC_OP_MUTEX_LOCK m
    \<and> maxrtos_kernel_mutex_owner m s = j" "pcb_state (process_pool s i) = MAXRTOS_PROCESS_STATE_BLOCKED"
  using assms by (auto simp: waits_for_def owns_mutex_def mutex_waiter_def maxrtos_kernel_mutex_owner_def maxrtos_mutex_get_def)

lemma refresh_chain_loop_stop:
  "status \<noteq> MAXRTOS_OK \<or> current = MAXRTOS_INVALID_PROCESS_ID \<Longrightarrow>
   refresh_chain_loop n tablep current extra status s = (status, s)"
  by (cases n) auto

definition chain_next :: "u32 \<Rightarrow> kstate \<Rightarrow> u32" where
  "chain_next i s = (if pcb_state (process_pool s i) = MAXRTOS_PROCESS_STATE_BLOCKED
     then (case pcb_ipc_operation (process_pool s i) of
             MAXRTOS_IPC_OP_MUTEX_LOCK m \<Rightarrow> maxrtos_kernel_mutex_owner m s
           | _ \<Rightarrow> MAXRTOS_INVALID_PROCESS_ID)
     else MAXRTOS_INVALID_PROCESS_ID)"

lemma refresh_chain_loop_step:
  assumes "allocated (process_pool s) i"
    "maxrtos_partition_set_process_priority PTR i (maxrtos_mutex_wanted_priority i (process_pool s i) extra s) s = (st, s1)"
  shows "refresh_chain_loop (Suc n) PTR i extra MAXRTOS_OK s =
    (if st = MAXRTOS_OK then refresh_chain_loop n PTR (chain_next i s1) MAXRTOS_MUTEX_NO_CLAIM MAXRTOS_OK s1 else (st, s1))"
proof -
  have "i \<noteq> MAXRTOS_INVALID_PROCESS_ID" using assms(1) by (auto simp: allocated_def)
  then show ?thesis
    using assms by (simp add: process_get_eq Let_def chain_next_def refresh_chain_loop_stop del: refresh_chain_loop.simps(1))
qed

lemma refresh_chain_loop_inherits:
  assumes "kernel_inv s" "owner_chain s (i # is)" "distinct (i # is)" "length (i # is) \<le> n"
    and "extra \<le> c \<or> (\<exists>k. mutex_waiter s i k \<and> pcb_priority (process_pool s k) \<le> c)"
    and "refresh_chain_loop n PTR i extra MAXRTOS_OK s = (MAXRTOS_OK, s')"
  shows "(\<forall>j \<in> set (i # is). pcb_priority (process_pool s' j) \<le> c)
    \<and> (\<forall>j. j \<notin> set (i # is) \<longrightarrow> process_pool s' j = process_pool s j)
    \<and> s_mutex_pool s' = s_mutex_pool s \<and> waitlists s' = waitlists s"
  using assms
proof (induction "is" arbitrary: n i s extra)
  case (Nil n i s extra)
  then obtain n' where n: "n = Suc n'" by (cases n) auto
  have i: "allocated (process_pool s) i" "\<not> mutex_blocked (process_pool s i)" using Nil.prems(2) by auto
  let ?q = "maxrtos_mutex_wanted_priority i (process_pool s i) extra s"
  obtain st s1 where r: "maxrtos_partition_set_process_priority PTR i ?q s = (st, s1)" by (rule prod.exhaust)
  from set_priority_inv[OF kernel_invD(1)[OF Nil.prems(1)], of PTR i ?q] r
  have b1: "\<not> mutex_blocked (process_pool s1 i)" using i(2) by (auto simp: mutex_blocked_def)
  have "chain_next i s1 = MAXRTOS_INVALID_PROCESS_ID"
    using b1 by (auto simp: chain_next_def mutex_blocked_def split: maxrtos_ipc_operation_t.splits)
  then have e: "refresh_chain_loop n PTR i extra MAXRTOS_OK s = (st, s1)"
    unfolding n refresh_chain_loop_step[OF i(1) r] by (simp add: refresh_chain_loop_stop)
  with Nil.prems(6) have ok: "st = MAXRTOS_OK" "s' = s1" by auto
  note f = set_priority_step[OF Nil.prems(1) r[unfolded ok(1)]]
  have "?q \<le> c" using Nil.prems(5) wanted_priority_le[OF Nil.prems(1)] order_trans by metis
  then show ?case using f ok by auto
next
  case (Cons j "is" n i s extra)
  then obtain n' where n: "n = Suc n'" by (cases n) auto
  have i: "allocated (process_pool s) i" "waits_for s i j" "owner_chain s (j # is)" using Cons.prems(2) by auto
  let ?q = "maxrtos_mutex_wanted_priority i (process_pool s i) extra s"
  obtain st s1 where r: "maxrtos_partition_set_process_priority PTR i ?q s = (st, s1)" by (rule prod.exhaust)
  note e = refresh_chain_loop_step[OF i(1) r, of n'] Cons.prems(6)[unfolded n]
  then have ok: "st = MAXRTOS_OK" by (metis fst_conv)
  note f = set_priority_step[OF Cons.prems(1) r[unfolded ok]]
  note cong = waits_for_cong[OF f(2-4)]
  have q: "?q \<le> c" using Cons.prems(5) wanted_priority_le[OF Cons.prems(1)] order_trans by metis
  have w1: "waits_for s1 i j" using i(2) cong(1) by simp
  obtain m where m: "pcb_ipc_operation (process_pool s1 i) = MAXRTOS_IPC_OP_MUTEX_LOCK m"
    "maxrtos_kernel_mutex_owner m s1 = j" using waits_for_owner(2)[OF w1] by blast
  have rest: "refresh_chain_loop n' PTR j MAXRTOS_MUTEX_NO_CLAIM MAXRTOS_OK s1 = (MAXRTOS_OK, s')"
    using e ok m waits_for_owner(3)[OF w1] by (simp add: chain_next_def)
  have "\<exists>k. mutex_waiter s1 j k \<and> pcb_priority (process_pool s1 k) \<le> c"
    using waits_for_owner(1)[OF w1] f(2) q by (intro exI[of _ i]) simp
  from Cons.IH[OF f(1) _ _ _ disjI2[OF this] rest] Cons.prems(3,4) i(3) cong(2) n
  have IH: "\<forall>k \<in> set (j # is). pcb_priority (process_pool s' k) \<le> c"
    "\<forall>k. k \<notin> set (j # is) \<longrightarrow> process_pool s' k = process_pool s1 k"
    "s_mutex_pool s' = s_mutex_pool s1" "waitlists s' = waitlists s1" by simp_all
  have "pcb_priority (process_pool s' i) \<le> c"
    using IH(2) Cons.prems(3) f(2) q by auto
  with IH f show ?case by auto
qed

text \<open>
  The bound of the walk is enough: the owners after the first own distinct mutexes, of which there
  are \<open>MAXRTOS_MAX_MUTEXES\<close>.
\<close>

lemma owner_chain_length:
  assumes "owner_chain s (i # is)" "distinct (i # is)"
  shows "length (i # is) \<le> MAXRTOS_MAX_MUTEXES + 1"
proof -
  have own: "\<forall>j \<in> set is. \<exists>m. owns_mutex s j m"
    using assms(1)
  proof (induction "is" arbitrary: i)
    case (Cons j "is")
    then have "waits_for s i j" "owner_chain s (j # is)" by auto
    with Cons.IH[of j] show ?case by (auto simp: waits_for_def)
  qed simp
  then obtain f where f: "\<forall>j \<in> set is. owns_mutex s j (f j)" by metis
  have "inj_on f (set is)" 
    by (rule inj_on_inverseI[where g = "\<lambda>m. mtx_owner (s_mutex_pool s m)"]) (use f in \<open>simp add: owns_mutex_def\<close>)
  moreover have "f ` set is \<subseteq> set (ids_below MAXRTOS_MAX_MUTEXES)" using f by (auto simp: owns_mutex_def)
  ultimately have "card (set is) \<le> card (set (ids_below MAXRTOS_MAX_MUTEXES))"
    by (metis List.finite_set card_image card_mono)
  also have "\<dots> \<le> MAXRTOS_MAX_MUTEXES"
    using card_length[of "ids_below MAXRTOS_MAX_MUTEXES"] by (simp add: ids_below_def)
  finally show ?thesis using assms(2) by (simp add: distinct_card)
qed

subsection \<open>Locking and unlocking\<close>

definition same_but_priority :: "kstate \<Rightarrow> kstate \<Rightarrow> bool" where
  "same_but_priority s s' \<longleftrightarrow> (\<forall>j. \<exists>q. process_pool s' j = (process_pool s j)\<lparr>pcb_priority := q\<rparr>)
     \<and> only_scheduling s s' \<and> current_id s' = current_id s \<and> (\<forall>j. queued_in s' j = queued_in s j)"

lemma same_but_priority_refl [simp]: "same_but_priority s s"
proof -
  have "\<exists>q. process_pool s j = (process_pool s j)\<lparr>pcb_priority := q\<rparr>" for j
    by (rule exI[of _ "pcb_priority (process_pool s j)"]) simp
  then show ?thesis by (simp add: same_but_priority_def)
qed

lemma same_but_priority_trans:
  assumes "same_but_priority s t" "same_but_priority t u"
  shows "same_but_priority s u"
proof -
  have "\<exists>q. process_pool u j = (process_pool s j)\<lparr>pcb_priority := q\<rparr>" for j
  proof -
    obtain q where q: "process_pool t j = (process_pool s j)\<lparr>pcb_priority := q\<rparr>"
      using assms(1) by (auto simp: same_but_priority_def)
    obtain q' where "process_pool u j = (process_pool t j)\<lparr>pcb_priority := q'\<rparr>"
      using assms(2) by (auto simp: same_but_priority_def)
    then show ?thesis unfolding q by (intro exI[of _ q']) simp
  qed
  with assms show ?thesis by (auto simp: same_but_priority_def intro: only_scheduling_trans)
qed

lemma same_but_priority_pcb:
  assumes "same_but_priority s s'"
  shows "pcb_state (process_pool s' j) = pcb_state (process_pool s j)"
    "pcb_waitlist (process_pool s' j) = pcb_waitlist (process_pool s j)"
    "pcb_ipc_result (process_pool s' j) = pcb_ipc_result (process_pool s j)"
    "pcb_ipc_result_pending (process_pool s' j) = pcb_ipc_result_pending (process_pool s j)"
    "allocated (process_pool s') j = allocated (process_pool s) j"
    "s_mutex_pool s' = s_mutex_pool s" "waitlists s' = waitlists s"
proof -
  obtain q where "process_pool s' j = (process_pool s j)\<lparr>pcb_priority := q\<rparr>"
    using assms by (auto simp: same_but_priority_def)
  then show "pcb_state (process_pool s' j) = pcb_state (process_pool s j)"
    "pcb_waitlist (process_pool s' j) = pcb_waitlist (process_pool s j)"
    "pcb_ipc_result (process_pool s' j) = pcb_ipc_result (process_pool s j)"
    "pcb_ipc_result_pending (process_pool s' j) = pcb_ipc_result_pending (process_pool s j)"
    "allocated (process_pool s') j = allocated (process_pool s) j"
    by (simp_all add: allocated_def)
  show "s_mutex_pool s' = s_mutex_pool s" "waitlists s' = waitlists s"
    using assms by (simp_all add: same_but_priority_def only_scheduling_iff)
qed

lemma set_priority_same:
  assumes "sched_inv s"
  shows "same_but_priority s (snd (maxrtos_partition_set_process_priority tablep i q s))"
proof -
  let ?s' = "snd (maxrtos_partition_set_process_priority tablep i q s)"
  note inv = set_priority_inv[OF assms, of tablep i q]
  then obtain q' where q': "process_pool ?s' = (process_pool s)(i := (process_pool s i)\<lparr>pcb_priority := q'\<rparr>)" by blast
  have "\<exists>p. process_pool ?s' j = (process_pool s j)\<lparr>pcb_priority := p\<rparr>" for j
    unfolding q' by (cases "j = i") (auto intro: exI[of _ "pcb_priority (process_pool s j)"])
  with inv set_priority_queued_in[OF assms] show ?thesis by (simp add: same_but_priority_def)
qed

text \<open>Inheritance alone: whatever it visits, only priorities and queue positions change.\<close>

interpretation inheritance: priority_invariant "\<lambda>s. sched_inv s \<and> same_but_priority s0 s" for s0
  by unfold_locales (use set_priority_inv set_priority_same same_but_priority_trans in blast)

lemma refresh_chain_loop_same:
  "kernel_inv s \<Longrightarrow> same_but_priority s (snd (refresh_chain_loop n tablep current extra status s))"
  using inheritance.refresh_chain_loop_inv[of s s] by (simp add: kernel_invD)

lemma refresh_chain_same:
  "kernel_inv s \<Longrightarrow> same_but_priority s (snd (maxrtos_mutex_refresh_chain tablep i claim s))"
  unfolding maxrtos_mutex_refresh_chain_def by (rule refresh_chain_loop_same)

lemma set_priority_status:
  assumes "kernel_inv s"
  shows "fst (maxrtos_partition_set_process_priority tablep i q s)
    \<in> {MAXRTOS_OK, MAXRTOS_ERR_QUEUE_FULL, MAXRTOS_ERR_INVALID_ARG, MAXRTOS_ERR_INVALID_ID}"
proof (cases "tablep = PTR \<and> q \<le> of_nat MAXRTOS_MAX_PRIORITY \<and> allocated (process_pool s) i")
  case False
  then show ?thesis
    by (cases tablep) (auto simp: maxrtos_partition_set_process_priority_def process_get_eq)
next
  case True
  then have t: "tablep = PTR" and q: "q \<le> of_nat MAXRTOS_MAX_PRIORITY" and i: "allocated (process_pool s) i" by auto
  let ?part = "pcb_partition_id (process_pool s i)"
  show ?thesis
  proof (cases "i \<in> set (ready (scheduler_ctx s ?part) (unat (pcb_priority (process_pool s i))))")
    case True
    from set_priority_queued[OF kernel_invD(1)[OF assms] q i True] obtain ctx' q' where
      "maxrtos_partition_set_process_priority PTR i q s = (if q' = q then MAXRTOS_OK else MAXRTOS_ERR_QUEUE_FULL,
        upd_ctx ?part ctx' (upd_pcb i (\<lambda>b. b\<lparr>pcb_priority := q'\<rparr>) s))" by blast
    then show ?thesis unfolding t by simp
  next
    case False
    from set_priority_unqueued[OF kernel_invD(1)[OF assms] q i False] obtain ctx' where
      "maxrtos_partition_set_process_priority PTR i q s
        = (MAXRTOS_OK, upd_ctx ?part ctx' (upd_pcb i (\<lambda>b. b\<lparr>pcb_priority := q\<rparr>) s))" by blast
    then show ?thesis unfolding t by simp
  qed
qed

lemma refresh_chain_status:
  assumes "kernel_inv s"
  shows "fst (maxrtos_mutex_refresh_chain tablep i claim s)
    \<in> {MAXRTOS_OK, MAXRTOS_ERR_QUEUE_FULL, MAXRTOS_ERR_INVALID_ARG, MAXRTOS_ERR_INVALID_ID}" (is "_ \<in> ?S")
proof -
  have "kernel_inv s \<Longrightarrow> status \<in> ?S \<Longrightarrow> fst (refresh_chain_loop n tablep current extra status s) \<in> ?S"
    for n current extra status s
  proof (induction n arbitrary: current extra status s)
    case (Suc n)
    obtain st s1 where r: "maxrtos_partition_set_process_priority tablep current
        (maxrtos_mutex_wanted_priority current (process_pool s current) extra s) s = (st, s1)"
      by (rule prod.exhaust)
    have k: "kernel_inv s1" and st: "st \<in> ?S"
      using kernel_inv_set_priority[OF Suc.prems(1), of tablep current
          "maxrtos_mutex_wanted_priority current (process_pool s current) extra s"]
        set_priority_status[OF Suc.prems(1), of tablep current
          "maxrtos_mutex_wanted_priority current (process_pool s current) extra s"] r by simp_all
    note IH = Suc.IH[OF k st] Suc.IH[OF Suc.prems]
    from Suc.prems(2) IH r show ?case
      unfolding refresh_chain_loop.simps process_get_eq Let_def
      by (cases "current \<noteq> MAXRTOS_INVALID_PROCESS_ID \<and> status = MAXRTOS_OK";
          cases "allocated (process_pool s) current") (simp_all only: if_True if_False simp_thms option.case prod.case fst_conv)
  qed simp
  from this[OF assms, of MAXRTOS_OK] show ?thesis unfolding maxrtos_mutex_refresh_chain_def by simp
qed

text \<open>
  C12. Priority inheritance: when \<open>maxrtos_kernel_mutex_lock\<close> makes the caller wait, the owner of the
  mutex and, if the owner itself waits for a mutex, every further owner down the chain runs at
  least as urgently as the caller, for every chain without a deadlock cycle: the walk's bound of
  \<open>MAXRTOS_MAX_MUTEXES + 1\<close> rounds is never what stops it. The caller is BLOCKED at the end of the
  mutex's wait list, with its operation recorded for the chain walks of later callers.
\<close>

theorem mutex_lock_inherits_priority:
  assumes "kernel_inv s" "owner_chain s (mtx_owner (s_mutex_pool s i) # owners)"
    "distinct (mtx_owner (s_mutex_pool s i) # owners)"
    "maxrtos_kernel_mutex_lock i timeout PTR current PTR s = (MAXRTOS_PENDING, out, s')"
  shows "(\<forall>j \<in> set (mtx_owner (s_mutex_pool s i) # owners).
        pcb_priority (process_pool s' j) \<le> pcb_priority (process_pool s current))
    \<and> s_mutex_pool s' = s_mutex_pool s
    \<and> wl_list (waitlists s' (WL_Mutex i)) = wl_list (waitlists s (WL_Mutex i)) @ [current]
    \<and> pcb_state (process_pool s' current) = MAXRTOS_PROCESS_STATE_BLOCKED
    \<and> pcb_ipc_operation (process_pool s' current) = MAXRTOS_IPC_OP_MUTEX_LOCK i"
proof -
  let ?o = "mtx_owner (s_mutex_pool s i)" and ?c = "pcb_priority (process_pool s current)"
  from assms(4) obtain m where g: "maxrtos_mutex_get i s = Some m" "allocated (process_pool s) current"
    by (cases "maxrtos_mutex_get i s"; cases "allocated (process_pool s) current")
      (simp_all add: maxrtos_kernel_mutex_lock_def process_get_eq)
  then have m: "m = s_mutex_pool s i" by (simp add: maxrtos_mutex_get_def split: if_splits)
  obtain st0 wake where t: "maxrtos_kernel_tick_after timeout PTR s = (st0, wake)" by (rule prod.exhaust)
  obtain st1 s1 where c: "maxrtos_mutex_refresh_chain PTR ?o ?c s = (st1, s1)" by (rule prod.exhaust)
  obtain st2 ou s2 where b: "maxrtos_ipc_block_current PTR current (Some (WL_Mutex i))
      (out_val MAXRTOS_TICK_NONE wake) (Some (MAXRTOS_IPC_OP_MUTEX_LOCK i)) PTR s1 = (st2, ou, s2)"
    by (rule prod_cases3)
  have st0: "st0 \<noteq> MAXRTOS_PENDING" using t by (auto simp: maxrtos_kernel_tick_after_def split: if_splits)
  have k1: "kernel_inv s1" using kernel.prio.refresh_chain_inv[OF assms(1), of PTR ?o ?c] c by simp
  note bc = block_current_cases[OF k1 b]
  have st1: "st1 \<noteq> MAXRTOS_PENDING" using refresh_chain_status[OF assms(1), of PTR ?o ?c] c by auto
  have st2: "st2 \<noteq> MAXRTOS_PENDING" using bc(3) by auto
  have r: "st0 = MAXRTOS_OK" "st1 = MAXRTOS_OK" "st2 = MAXRTOS_OK" "s' = s2"
    using assms(4) g t c b st0 st1 st2 m
    by (simp_all add: maxrtos_kernel_mutex_lock_def process_get_eq Let_def split: if_splits)
  have loop: "refresh_chain_loop (MAXRTOS_MAX_MUTEXES + 1) PTR ?o ?c MAXRTOS_OK s = (MAXRTOS_OK, s1)"
    using c r(2) unfolding maxrtos_mutex_refresh_chain_def by simp
  note inh = refresh_chain_loop_inherits[OF assms(1-3) owner_chain_length[OF assms(2,3)] disjI1[OF order_refl] loop]
  from bc(1)[OF r(3)] obtain n where n:
    "blocked_on (WL_Mutex i) current (out_val MAXRTOS_TICK_NONE wake) (MAXRTOS_IPC_OP_MUTEX_LOCK i) n s1 s2" by blast
  note bo = blocked_on_same[OF n]
  have pool: "s_mutex_pool s2 = s_mutex_pool s1"
    using block_current_inv[OF k1, of PTR current "Some (WL_Mutex i)" "out_val MAXRTOS_TICK_NONE wake"
      "Some (MAXRTOS_IPC_OP_MUTEX_LOCK i)" PTR] b by (simp add: only_ipc_def)
  from inh bo pool r(4) show ?thesis by simp
qed

text \<open>
  C33. Locking without waiting: a process that names no mutex of its own partition gets INVALID_ID,
  one that already owns it INVALID_STATE, a free mutex becomes the caller's, and a poll (time-out
  zero) of a mutex that another process owns gets TIMEOUT; apart from the new owner nothing
  changes. Unlocking is refused to everybody but the owner.
\<close>

theorem mutex_ownership_rules:
  assumes "allocated (process_pool s) current" "m = s_mutex_pool s i"
  defines "known \<equiv> i < of_nat MAXRTOS_MAX_MUTEXES \<and> mtx_in_use m
      \<and> mtx_partition_id m = pcb_partition_id (process_pool s current)"
  shows "maxrtos_kernel_mutex_lock i 0 PTR current PTR s =
      (if \<not> known then (MAXRTOS_ERR_INVALID_ID, None, s)
       else if mtx_owner m = current then (MAXRTOS_ERR_INVALID_STATE, None, s)
       else if mtx_owner m = MAXRTOS_INVALID_PROCESS_ID
       then (MAXRTOS_OK, None, s\<lparr>s_mutex_pool := (s_mutex_pool s)(i := m\<lparr>mtx_owner := current\<rparr>)\<rparr>)
       else (MAXRTOS_ERR_TIMEOUT, None, s))
    \<and> (\<not> known \<longrightarrow> maxrtos_kernel_mutex_lock i timeout PTR current PTR s = (MAXRTOS_ERR_INVALID_ID, None, s)
       \<and> maxrtos_kernel_mutex_unlock i PTR current s = (MAXRTOS_ERR_INVALID_ID, s))
    \<and> (known \<and> mtx_owner m \<noteq> current \<longrightarrow>
       maxrtos_kernel_mutex_unlock i PTR current s = (MAXRTOS_ERR_INVALID_STATE, s))"
  using assms(1,2)
  by (auto simp: known_def maxrtos_kernel_mutex_lock_def maxrtos_kernel_mutex_unlock_def maxrtos_mutex_get_def
    process_get_eq upd_mutex_def)

text \<open>
  C25. Unlocking hands over: when the owner unlocks, a mutex without waiters becomes free;
  otherwise its longest waiting process of most urgent priority leaves the wait list, the others
  keep their order, and it becomes the owner and READY with the result OK. The one exception is
  a full ready queue: then the call reports QUEUE_FULL and the mutex is left free although
  processes may still be waiting for it.
\<close>

theorem mutex_unlock_hands_over:
  assumes "kernel_inv s" "allocated (process_pool s) current" "i < of_nat MAXRTOS_MAX_MUTEXES"
    "mtx_in_use (s_mutex_pool s i)" "mtx_owner (s_mutex_pool s i) = current"
    "mtx_partition_id (s_mutex_pool s i) = pcb_partition_id (process_pool s current)"
  shows "case maxrtos_kernel_mutex_unlock i PTR current s of (status, s') \<Rightarrow>
    kernel_inv s' \<and>
    (case best_waiter (process_pool s) (wl_list (waitlists s (WL_Mutex i))) of
       None \<Rightarrow> status = MAXRTOS_OK \<and> mtx_owner (s_mutex_pool s' i) = MAXRTOS_INVALID_PROCESS_ID
     | Some b \<Rightarrow>
         wl_list (waitlists s' (WL_Mutex i)) = remove1 b (wl_list (waitlists s (WL_Mutex i)))
         \<and> pcb_state (process_pool s' b) = MAXRTOS_PROCESS_STATE_READY
         \<and> (if has_room s b
            then status = MAXRTOS_OK \<and> mtx_owner (s_mutex_pool s' i) = b
              \<and> pcb_ipc_result (process_pool s' b) = MAXRTOS_OK \<and> pcb_ipc_result_pending (process_pool s' b)
            else status = MAXRTOS_ERR_QUEUE_FULL \<and> mtx_owner (s_mutex_pool s' i) = MAXRTOS_INVALID_PROCESS_ID))"
proof -
  let ?w = "WL_Mutex i" and ?l = "wl_list (waitlists s (WL_Mutex i))"
  define free where "free = (\<lambda>m :: maxrtos_mutex_t. m\<lparr>mtx_owner := MAXRTOS_INVALID_PROCESS_ID\<rparr>)"
  let ?s1 = "upd_mutex i free s"
  have f1: "process_pool ?s1 = process_pool s" "waitlists ?s1 = waitlists s" "scheduler_ctx ?s1 = scheduler_ctx s"
    "mtx_owner (s_mutex_pool ?s1 i) = MAXRTOS_INVALID_PROCESS_ID" "has_room ?s1 = has_room s"
    by (simp_all add: upd_mutex_def free_def has_room_def fun_eq_iff)
  have k1: "kernel_inv ?s1" by (rule kernel.upd_mutex_inv[OF assms(1)]) (simp add: free_def)
  have code: "maxrtos_kernel_mutex_unlock i PTR current s = maxrtos_mutex_hand_off i PTR s"
    using assms by (simp add: maxrtos_kernel_mutex_unlock_def maxrtos_mutex_get_def process_get_eq)
  have k: "kernel_inv (snd (maxrtos_mutex_hand_off i PTR s))" by (rule kernel.hand_off_inv[OF assms(1)])
  show ?thesis
  proof (cases "best_waiter (process_pool s) ?l")
    case None
    then have "maxrtos_ipc_take_best_waiter (Some ?w) PTR ?s1 = (MAXRTOS_ERR_QUEUE_EMPTY, None, ?s1)"
      using take_best_eq(2)[OF k1, of ?w] f1 by (simp add: maxrtos_ipc_take_best_waiter_def)
    moreover note refresh_chain_same[OF k1, of PTR current MAXRTOS_MUTEX_NO_CLAIM]
    ultimately show ?thesis
      using None k assms(5) f1 unfolding code
      by (simp add: maxrtos_mutex_hand_off_def Let_def free_def[symmetric] same_but_priority_pcb)
  next
    case (Some b)
    with take_best_eq(1)[OF k1, of ?w b] f1 obtain s2 where t:
      "maxrtos_ipc_take_best_waiter (Some ?w) PTR ?s1 = (MAXRTOS_OK, Some b, s2)" "left_list ?w b ?s1 s2" "kernel_inv s2"
      by (auto simp: maxrtos_ipc_take_best_waiter_def)
    define own where "own = (\<lambda>m :: maxrtos_mutex_t. m\<lparr>mtx_owner := b\<rparr>)"
    let ?s3 = "upd_mutex i own s2"
    have k3: "kernel_inv ?s3" by (rule kernel.upd_mutex_inv[OF t(3)]) (simp add: own_def)
    have i3: "allocated (process_pool ?s3) b" "pcb_state (process_pool ?s3 b) = MAXRTOS_PROCESS_STATE_BLOCKED"
      "mtx_owner (s_mutex_pool ?s3 i) = b" "waitlists ?s3 = waitlists s2" "has_room ?s3 b = has_room s b"
      using left_list_facts[OF k1 t(2)] left_list_same(1)[OF t(2)] f1
      by (simp_all add: upd_mutex_def own_def has_room_def)
    have off: "off_lists (process_pool ?s3) b" using left_list_off[OF k1 t(2)] by simp
    have l: "wl_list (waitlists s2 ?w) = remove1 b ?l" using left_list_same(5)[OF t(2)] f1 by simp
    note ro = resolve_outcome[OF kernel_invD(1)[OF k3] i3(1,2), of MAXRTOS_OK]
    show ?thesis
    proof (cases "has_room s b")
      case True
      with ro(1) i3(5) obtain s4 where r: "maxrtos_ipc_resolve PTR b MAXRTOS_OK ?s3 = (MAXRTOS_OK, s4)"
        "resumed b MAXRTOS_OK ?s3 s4" by auto
      have k4: "kernel_inv s4" using kernel.resolve[OF k3 off, of PTR MAXRTOS_OK] r(1) by simp
      note same = same_but_priority_pcb[OF refresh_chain_same[OF k4, of PTR current MAXRTOS_MUTEX_NO_CLAIM]]
      from r(2) have s4: "waitlists s4 = waitlists s2" "mtx_owner (s_mutex_pool s4 i) = b"
        "pcb_state (process_pool s4 b) = MAXRTOS_PROCESS_STATE_READY" "pcb_ipc_result (process_pool s4 b) = MAXRTOS_OK"
        "pcb_ipc_result_pending (process_pool s4 b)"
        using i3 by (simp_all add: resumed_def only_scheduling_iff Let_def)
      show ?thesis
        using Some k assms(5) t(1) r(1) True l s4 unfolding code
        by (simp add: maxrtos_mutex_hand_off_def Let_def free_def[symmetric] own_def[symmetric] same)
    next
      case False
      with ro(2) i3(5) obtain s4 where r: "maxrtos_ipc_resolve PTR b MAXRTOS_OK ?s3 = (MAXRTOS_ERR_QUEUE_FULL, s4)"
        "lost b ?s3 s4" by auto
      have k4: "kernel_inv (upd_mutex i free s4)"
        using kernel.resolve[OF k3 off, of PTR MAXRTOS_OK] r(1) kernel.upd_mutex_inv[of s4 free i] by (simp add: free_def)
      note same = same_but_priority_pcb[OF refresh_chain_same[OF k4, of PTR current MAXRTOS_MUTEX_NO_CLAIM]]
      from r(2) have s4: "waitlists (upd_mutex i free s4) = waitlists s2"
        "mtx_owner (s_mutex_pool (upd_mutex i free s4) i) = MAXRTOS_INVALID_PROCESS_ID"
        "pcb_state (process_pool (upd_mutex i free s4) b) = MAXRTOS_PROCESS_STATE_READY"
        using i3 by (simp_all add: lost_def upd_mutex_def free_def)
      show ?thesis
        using Some k assms(5) t(1) r(1) False l s4 unfolding code
        by (simp add: maxrtos_mutex_hand_off_def Let_def free_def[symmetric] own_def[symmetric] same)
    qed
  qed
qed

subsection \<open>Creation, and what all operations keep\<close>

lemma mutex_create_cases:
  assumes "maxrtos_mutex_create part outp s = (status, out, s')"
  shows "(status \<noteq> MAXRTOS_OK \<and> out = None \<and> s' = s) \<or>
    (\<exists>i. status = MAXRTOS_OK \<and> out = Some i \<and> i < of_nat MAXRTOS_MAX_MUTEXES \<and> \<not> mtx_in_use (s_mutex_pool s i)
       \<and> s' = waitlist_reset (WL_Mutex i) (upd_mutex i (\<lambda>m. m\<lparr>mtx_in_use := True,
                mtx_partition_id := part, mtx_owner := MAXRTOS_INVALID_PROCESS_ID\<rparr>) s))"
proof (cases "find (\<lambda>i. \<not> mtx_in_use (s_mutex_pool s i)) (ids_below MAXRTOS_MAX_MUTEXES)")
  case None
  with assms show ?thesis by (auto simp: maxrtos_mutex_create_def split: if_splits)
next
  case (Some i)
  from find_member[OF Some] have i: "\<not> mtx_in_use (s_mutex_pool s i)" "i < of_nat MAXRTOS_MAX_MUTEXES" by simp_all
  have "(status, out, s') = (if outp \<noteq> NULL \<and> part < of_nat MAXRTOS_MAX_PARTITIONS
    then (MAXRTOS_OK, Some i, waitlist_reset (WL_Mutex i) (upd_mutex i (\<lambda>m. m\<lparr>mtx_in_use := True,
        mtx_partition_id := part, mtx_owner := MAXRTOS_INVALID_PROCESS_ID\<rparr>) s))
    else (MAXRTOS_ERR_INVALID_ARG, None, s))"
    unfolding assms[symmetric] maxrtos_mutex_create_def Some by simp
  with i show ?thesis by (simp split: if_splits)
qed

lemma mutex_create_inv:
  assumes "kernel_inv s" "pools_ok s"
  shows "kernel_inv (snd (snd (maxrtos_mutex_create part outp s))) \<and> pools_ok (snd (snd (maxrtos_mutex_create part outp s)))"
proof -
  obtain status out s' where r: "maxrtos_mutex_create part outp s = (status, out, s')" by (rule prod_cases3)
  show ?thesis
  proof (cases "s' = s")
    case False
    define f where "f = (\<lambda>m :: maxrtos_mutex_t. m\<lparr>mtx_in_use := True, mtx_partition_id := part,
      mtx_owner := MAXRTOS_INVALID_PROCESS_ID\<rparr>)"
    from mutex_create_cases[OF r] False obtain i where i: "\<not> mtx_in_use (s_mutex_pool s i)"
      "s' = waitlist_reset (WL_Mutex i) (upd_mutex i f s)" by (auto simp: f_def)
    have "wl_list (waitlists s (WL_Mutex i)) = []"
      using assms(2) i(1) unfolding pools_ok_def by (metis object_in_use.simps(1))
    then have "kernel_inv s'"
      unfolding i(2) by (intro waitlist_reset_inv) (use assms(1) in \<open>simp_all add: upd_mutex_def\<close>)
    moreover have "object_in_use s' w" if "wl_list (waitlists s' w) \<noteq> []" for w
    proof -
      have "wl_list (waitlists s w) \<noteq> []" using that by (simp add: i(2) upd_mutex_def split: if_splits)
      then have "object_in_use s w" using assms(2) by (simp add: pools_ok_def)
      then show ?thesis using i(1) by (cases w) (auto simp: i(2) upd_mutex_def f_def)
    qed
    ultimately show ?thesis using r by (simp add: pools_ok_def)
  qed (use r assms in simp)
qed

text \<open>
  Every mutex operation keeps the kernel invariant and \<open>pools_ok\<close> (only objects in use have
  waiters), whatever its arguments and outcome; locking, unlocking, releasing and refreshing
  leave the clock, the halt flags and the configuration of every process alone.
\<close>

lemma mutex_operations_keep_invariant:
  assumes "kernel_inv s" "pools_ok s"
    and "s' \<in> {snd (snd (maxrtos_kernel_mutex_lock i timeout tablep current outp s)),
       snd (maxrtos_kernel_mutex_unlock i tablep current s),
       maxrtos_kernel_mutex_release_all tablep current s, maxrtos_kernel_mutex_refresh_priorities tablep s}"
  shows "kernel_inv s' \<and> pools_ok s' \<and> same_clock s s' \<and> same_config s s'
    \<and> kernel_inv (snd (snd (maxrtos_mutex_create part outp s)))
    \<and> pools_ok (snd (snd (maxrtos_mutex_create part outp s)))"
proof -
  have c: "kernel_inv s \<and> same_clock s s" and g: "kernel_inv s \<and> same_config s s" and p: "kernel_inv s \<and> pools_ok s"
    using assms by (simp_all add: same_clock_def)
  note lock = pools.mutex_lock_inv[OF p] clock.mutex_lock_inv[OF c] config.mutex_lock_inv[OF g]
    and unlock = pools.mutex_unlock_inv[OF p] clock.mutex_unlock_inv[OF c] config.mutex_unlock_inv[OF g]
    and rel = pools.mutex_release_all_inv[OF p] clock.mutex_release_all_inv[OF c] config.mutex_release_all_inv[OF g]
    and ref = pools.prio.mutex_refresh_priorities_inv[OF p] clock.prio.mutex_refresh_priorities_inv[OF c]
      config.prio.mutex_refresh_priorities_inv[OF g]
  from assms(3) have "kernel_inv s' \<and> pools_ok s' \<and> same_clock s s' \<and> same_config s s'"
    by (elim insertE emptyE) (simp_all only: lock unlock rel ref simp_thms)
  with mutex_create_inv[OF assms(1,2)] show ?thesis by simp
qed

text \<open>Process 9 owns mutex 0 of partition 0; the more urgent process 2 runs.\<close>

definition example_locked :: kstate where
  "example_locked = snd (snd (maxrtos_partition_dispatch PTR 0 PTR
     (snd (snd (maxrtos_kernel_mutex_lock 0 0 PTR 9 PTR (snd (snd (maxrtos_mutex_create 0 PTR example_state))))))))"

lemma example_locked_inv: "kernel_inv example_locked" "pools_ok example_locked"
proof -
  let ?s1 = "snd (snd (maxrtos_mutex_create 0 PTR example_state))"
  let ?s2 = "snd (snd (maxrtos_kernel_mutex_lock 0 0 PTR 9 PTR ?s1))"
  have "kernel_inv ?s1 \<and> pools_ok ?s1" by (rule mutex_create_inv[OF example_kernel_inv example_pools_ok])
  then have "kernel_inv ?s2 \<and> pools_ok ?s2" by (rule pools.mutex_lock_inv)
  then have k: "kernel_inv ?s2" and p: "pools_ok ?s2" by simp_all
  show "kernel_inv example_locked"
    unfolding example_locked_def maxrtos_partition_dispatch_def by (rule kernel_inv_select[OF k])
  show "pools_ok example_locked"
    unfolding example_locked_def maxrtos_partition_dispatch_def
    by (rule pools_ok_scheduling[OF p]) (use partition_select_inv[OF kernel_invD(1)[OF k]] in blast)
qed

lemma mutex_wanted_priority_is_minimum_witness:
  "maxrtos_mutex_wanted_priority 9 (process_pool example_locked 9) 1 example_locked
     = Min ({pcb_base_priority (process_pool example_locked 9), 1}
        \<union> {pcb_priority (process_pool example_locked k) |k. mutex_waiter example_locked 9 k})"
  by (rule mutex_wanted_priority_is_minimum[OF example_locked_inv(1)])

lemma mutex_lock_inherits_priority_witness:
  "pcb_priority (process_pool example_locked 9) = 3
   \<and> pcb_priority (process_pool (snd (snd (maxrtos_kernel_mutex_lock 0 50 PTR 2 PTR example_locked))) 9) \<le> 1"
proof -
  have p: "pcb_priority (process_pool example_locked 9) = 3" "pcb_priority (process_pool example_locked 2) = 1"
    by code_simp+
  have o: "mtx_owner (s_mutex_pool example_locked 0) = 9" by code_simp
  have c: "owner_chain example_locked [9]" by code_simp
  obtain st out s' where r: "maxrtos_kernel_mutex_lock 0 50 PTR 2 PTR example_locked = (st, out, s')"
    by (rule prod_cases3)
  have "fst (maxrtos_kernel_mutex_lock 0 50 PTR 2 PTR example_locked) = MAXRTOS_PENDING" by code_simp
  with r have r': "maxrtos_kernel_mutex_lock 0 50 PTR 2 PTR example_locked = (MAXRTOS_PENDING, out, s')" by simp
  from mutex_lock_inherits_priority[where owners = "[]", OF example_locked_inv(1) _ _ r'] o c p r show ?thesis by simp
qed

lemma mutex_ownership_rules_witness:
  "maxrtos_kernel_mutex_unlock 0 PTR 2 example_locked = (MAXRTOS_ERR_INVALID_STATE, example_locked)"
proof -
  have "allocated (process_pool example_locked) 2" "mtx_in_use (s_mutex_pool example_locked 0)"
    "mtx_partition_id (s_mutex_pool example_locked 0) = pcb_partition_id (process_pool example_locked 2)"
    "mtx_owner (s_mutex_pool example_locked 0) \<noteq> 2" by code_simp+
  with mutex_ownership_rules[of example_locked 2 "s_mutex_pool example_locked 0" 0] show ?thesis by simp
qed

lemma mutex_unlock_hands_over_witness:
  "kernel_inv (snd (maxrtos_kernel_mutex_unlock 0 PTR 9 example_locked))
   \<and> mtx_owner (s_mutex_pool (snd (maxrtos_kernel_mutex_unlock 0 PTR 9 example_locked)) 0) = MAXRTOS_INVALID_PROCESS_ID"
proof -
  have a: "allocated (process_pool example_locked) 9" "0 < (of_nat MAXRTOS_MAX_MUTEXES :: u32)"
    "mtx_in_use (s_mutex_pool example_locked 0)" "mtx_owner (s_mutex_pool example_locked 0) = 9"
    "mtx_partition_id (s_mutex_pool example_locked 0) = pcb_partition_id (process_pool example_locked 9)" by code_simp+
  have "best_waiter (process_pool example_locked) (wl_list (waitlists example_locked (WL_Mutex 0))) = None" by code_simp
  with mutex_unlock_hands_over[OF example_locked_inv(1) a] show ?thesis by (simp split: prod.splits)
qed

end
