(* ===== verification/Ipc_Timeouts.thy ===== *)
theory Ipc_Timeouts
  imports Mutex
begin

text \<open>
  Expiry of timed waits (\<open>maxrtos_ipc_expire_timeouts\<close> of ipc_block.c): every process on a wait list
  whose wake tick has come leaves the list and resumes with the result TIMEOUT, and the mutex
  owners that were raised for one of them fall back. The contract of the IPC services is extended
  by the one service the expiry uses beyond it.
\<close>

text \<open>The test of the loop, and its body for one identifier.\<close>

definition overdue :: "u32 \<Rightarrow> pcb \<Rightarrow> bool" where
  "overdue now pcb \<longleftrightarrow> pcb_state pcb = MAXRTOS_PROCESS_STATE_BLOCKED \<and> pcb_waitlist pcb \<noteq> None
     \<and> pcb_wake_tick pcb \<noteq> MAXRTOS_TICK_NONE \<and> now \<ge> pcb_wake_tick pcb"

definition is_mutex_lock :: "maxrtos_ipc_operation_t option \<Rightarrow> bool" where
  "is_mutex_lock oper = (case oper of Some (MAXRTOS_IPC_OP_MUTEX_LOCK _) \<Rightarrow> True | _ \<Rightarrow> False)"

definition expire_step :: "ptr \<Rightarrow> u32 \<Rightarrow> u32 \<Rightarrow> nat \<times> bool \<times> kstate \<Rightarrow> nat \<times> bool \<times> kstate" where
  "expire_step tablep now i = (\<lambda>(n, mutex_waiter_left, s).
     case get_pcb i s of
       None \<Rightarrow> (n, mutex_waiter_left, s)
     | Some pcb \<Rightarrow>
         if overdue now pcb then
           (case maxrtos_ipc_timeout_current (pcb_waitlist pcb) i PTR s of
              (MAXRTOS_OK, oper, s1) \<Rightarrow>
                (case maxrtos_ipc_resolve tablep i MAXRTOS_ERR_TIMEOUT s1 of
                   (MAXRTOS_OK, s2) \<Rightarrow> (n + 1, is_mutex_lock oper \<or> mutex_waiter_left, s2)
                 | (_, s2) \<Rightarrow> (n, mutex_waiter_left, s2))
            | (_, _, s1) \<Rightarrow> (n, mutex_waiter_left, s1))
         else (n, mutex_waiter_left, s))"

definition maxrtos_ipc_expire_timeouts :: "ptr \<Rightarrow> u32 \<Rightarrow> kstate \<Rightarrow> nat \<times> kstate" where
  "maxrtos_ipc_expire_timeouts tablep now s =
     (if tablep \<noteq> NULL then
        (case fold (expire_step tablep now) (ids_below MAXRTOS_MAX_PROCESSES) (0, False, s) of
           (n, mutex_waiter_left, s1) \<Rightarrow>
             (n, if mutex_waiter_left then maxrtos_kernel_mutex_refresh_priorities tablep s1 else s1))
      else (0, s))"

subsection \<open>What expiry keeps\<close>

locale timeout_invariant = wake_invariant +
  assumes timeout: "I s \<Longrightarrow> maxrtos_ipc_timeout_current wl i operp s = (status, oper, s') \<Longrightarrow>
    I s' \<and> (status = MAXRTOS_OK \<longrightarrow> off (process_pool s') i)"

context timeout_invariant
begin

lemma expire_step_inv:
  assumes "I s" "expire_step tablep now i (n, b, s) = (n', b', s')"
  shows "I s'"
proof (cases "allocated (process_pool s) i \<and> overdue now (process_pool s i)")
  case False
  then have "expire_step tablep now i (n, b, s) = (n, b, s)" by (auto simp: expire_step_def process_get_eq)
  with assms show ?thesis by simp
next
  case True
  obtain st oper s1 where t: "maxrtos_ipc_timeout_current (pcb_waitlist (process_pool s i)) i PTR s = (st, oper, s1)"
    by (rule prod_cases3)
  note I1 = timeout[OF assms(1) t]
  show ?thesis
  proof (cases "st = MAXRTOS_OK")
    case ok: True
    obtain st2 s2 where r: "maxrtos_ipc_resolve tablep i MAXRTOS_ERR_TIMEOUT s1 = (st2, s2)" by (rule prod.exhaust)
    have "I s2" using resolve[of s1 i tablep MAXRTOS_ERR_TIMEOUT] I1 ok r by simp
    moreover have "s' = s2" using assms(2) True t ok r by (cases st2) (simp_all add: expire_step_def process_get_eq)
    ultimately show ?thesis by simp
  next
    case False
    with assms(2) True t have "s' = s1" by (cases st) (simp_all add: expire_step_def process_get_eq)
    with I1 show ?thesis by simp
  qed
qed

lemma expire_fold_inv: "I s \<Longrightarrow> I (snd (snd (fold (expire_step tablep now) is (n, b, s))))"
proof (induction "is" arbitrary: n b s)
  case (Cons i "is")
  obtain n' b' s' where e: "expire_step tablep now i (n, b, s) = (n', b', s')" by (rule prod_cases3)
  from Cons.IH[OF expire_step_inv[OF Cons.prems e]] e show ?case by simp
qed simp

lemma expire_inv:
  assumes "I s"
  shows "I (snd (maxrtos_ipc_expire_timeouts tablep now s))"
proof -
  obtain n b s1 where e: "fold (expire_step tablep now) (ids_below MAXRTOS_MAX_PROCESSES) (0, False, s) = (n, b, s1)"
    by (rule prod_cases3)
  with expire_fold_inv[OF assms, of tablep now "ids_below MAXRTOS_MAX_PROCESSES" 0 False] have "I s1" by simp
  with e assms show ?thesis by (simp add: maxrtos_ipc_expire_timeouts_def prio.mutex_refresh_priorities_inv)
qed

end

lemma timeout_current_cases:
  assumes "kernel_inv s" "maxrtos_ipc_timeout_current wl i operp s = (status, oper, s')"
  shows "(s' = s \<and> status \<noteq> MAXRTOS_OK) \<or>
    (\<exists>w. wl = Some w \<and> status = MAXRTOS_OK \<and> oper = Some (pcb_ipc_operation (process_pool s i))
       \<and> left_list w i s s' \<and> kernel_inv s')"
proof (cases "wl \<noteq> None \<and> operp = PTR")
  case True
  then obtain w where w: "wl = Some w" by auto
  from timeout_current_eq[OF assms(1), of i w] assms(2) True w show ?thesis
    by (cases "i \<in> set (wl_list (waitlists s w))") auto
next
  case False
  then have "maxrtos_ipc_timeout_current wl i operp s = (MAXRTOS_ERR_INVALID_ARG, None, s)"
    by (cases operp; cases wl) (auto simp: maxrtos_ipc_timeout_current_def)
  with assms(2) show ?thesis by simp
qed

interpretation pools_expiry: timeout_invariant "\<lambda>s. kernel_inv s \<and> pools_ok s" off_lists
proof (unfold_locales, goal_cases)
  case (1 s wl i operp status oper s')
  then have k: "kernel_inv s" and p: "pools_ok s" by auto
  from timeout_current_cases[OF k 1(2)] show ?case
    using k p left_list_off[OF k] left_list_pools[OF p] by blast
qed

interpretation clock_expiry: timeout_invariant "\<lambda>s. kernel_inv s \<and> same_clock s0 s" off_lists for s0
proof (unfold_locales, goal_cases)
  case (1 s wl i operp status oper s')
  then have k: "kernel_inv s" and c: "same_clock s0 s" by auto
  from timeout_current_cases[OF k 1(2)] k c left_list_off[OF k] show ?case
    by (auto simp: left_list_def intro: only_ipc_clock)
qed

interpretation config_expiry: timeout_invariant "\<lambda>s. kernel_inv s \<and> same_config s0 s" off_lists for s0
proof (unfold_locales, goal_cases)
  case (1 s wl i operp status oper s')
  then have k: "kernel_inv s" and c: "same_config s0 s" by auto
  from timeout_current_cases[OF k 1(2)] k c left_list_off[OF k] show ?case
    by (auto intro: same_config_trans left_list_config)
qed


subsection \<open>The outcome of an expiry\<close>

text \<open>One overdue process: it leaves its list and becomes READY; everyone else is untouched.\<close>

definition expired :: "u32 \<Rightarrow> kstate \<Rightarrow> bool" where
  "expired i s' \<longleftrightarrow> pcb_state (process_pool s' i) = MAXRTOS_PROCESS_STATE_READY
     \<and> pcb_waitlist (process_pool s' i) = None \<and> pcb_wake_tick (process_pool s' i) = MAXRTOS_TICK_NONE
     \<and> pcb_ipc_operation (process_pool s' i) = MAXRTOS_IPC_OP_NONE
     \<and> (queued_in s' i \<longrightarrow> pcb_ipc_result (process_pool s' i) = MAXRTOS_ERR_TIMEOUT
          \<and> pcb_ipc_result_pending (process_pool s' i))"

abbreviation same_deadline :: "pcb \<Rightarrow> pcb \<Rightarrow> bool" where
  "same_deadline b b' \<equiv> pcb_partition_id b' = pcb_partition_id b \<and> pcb_deadline_time b' = pcb_deadline_time b
     \<and> pcb_deadline_misses b' = pcb_deadline_misses b \<and> pcb_periodic_waiting b' = pcb_periodic_waiting b
     \<and> pcb_timed_waiting b' = pcb_timed_waiting b"

text \<open>What is true once exactly the processes of \<open>L\<close> have been taken off their lists and resolved.\<close>

definition swept :: "u32 set \<Rightarrow> kstate \<Rightarrow> kstate \<Rightarrow> bool" where
  "swept L s s' \<longleftrightarrow> kernel_inv s' \<and> only_ipc s s' \<and> current_id s' = current_id s \<and> (\<forall>i \<in> L. expired i s')
     \<and> (\<forall>i. i \<notin> L \<longrightarrow> process_pool s' i = process_pool s i \<and> queued_in s' i = queued_in s i)
     \<and> (\<forall>w. wl_list (waitlists s' w) = filter (\<lambda>i. i \<notin> L) (wl_list (waitlists s w)))
     \<and> (\<forall>i. same_deadline (process_pool s i) (process_pool s' i))
     \<and> (L = {} \<longrightarrow> s' = s)"

lemma swept_empty: "kernel_inv s \<Longrightarrow> swept {} s s"
  by (simp add: swept_def)

lemma swept_trans:
  assumes "swept L s s1" "swept M s1 s2" "L \<inter> M = {}"
  shows "swept (L \<union> M) s s2"
proof -
  have "expired i s2" if "i \<in> L" for i
  proof -
    have "i \<notin> M" using that assms(3) by auto
    with assms(2) have "process_pool s2 i = process_pool s1 i" "queued_in s2 i = queued_in s1 i"
      by (simp_all add: swept_def)
    with assms(1) that show ?thesis by (simp add: swept_def expired_def)
  qed
  with assms(1,2) show ?thesis by (auto simp: swept_def conj_commute intro: only_ipc_trans)
qed

lemma queued_in_ready:
  assumes "sched_inv s" "allocated (process_pool s) i" "queued_in s i"
  shows "pcb_state (process_pool s i) = MAXRTOS_PROCESS_STATE_READY"
proof -
  note ok = assms(1)[unfolded sched_inv_def]
  from sched_okD(1)[OF ok assms(2)] have "pcb_partition_id (process_pool s i) < of_nat MAXRTOS_MAX_PARTITIONS"
    by (simp add: pcb_ok_def)
  from domain_okD(2)[OF part_okD(1)[OF sched_okD(3)[OF ok this]]] assms(3) show ?thesis
    by (auto simp: queued_in_def in_ready_ids)
qed

text \<open>Who is queued after a process has left a list, and after it was resolved.\<close>

lemma left_list_queued: "left_list w i s s' \<Longrightarrow> queued_in s' j = queued_in s j"
  by (simp add: left_list_def queued_in_def)

lemma resumed_queued:
  assumes "sched_inv s" "allocated (process_pool s) i" "resumed i result s s'"
  shows "queued_in s' j \<longleftrightarrow> j = i \<or> queued_in s j"
proof -
  from sched_okD(1)[OF assms(1)[unfolded sched_inv_def] assms(2)] have "unat (pcb_priority (process_pool s i)) \<le> 31"
    by (simp add: pcb_ok_def word_le_nat_alt)
  moreover have "j \<in> set (ready (scheduler_ctx s' part) r) \<longleftrightarrow> j \<in> set (ready (scheduler_ctx s part) r)
      \<or> j = i \<and> part = pcb_partition_id (process_pool s i) \<and> r = unat (pcb_priority (process_pool s i))" for part r
    using assms(3) by (cases "part = pcb_partition_id (process_pool s i)") (auto simp: resumed_def Let_def)
  moreover have "pcb_partition_id (process_pool s' j) = pcb_partition_id (process_pool s j)"
    using assms(3) by (simp add: resumed_def Let_def)
  ultimately show ?thesis unfolding queued_in_def in_ready_ids by metis
qed

lemma lost_queued: "lost i s s' \<Longrightarrow> queued_in s' j = queued_in s j"
  by (simp add: lost_def queued_in_def)

text \<open>
  Ready queues after the processes \<open>xs\<close> have been resolved one after the other: each joins the tail of
  the queue of its partition and priority while that queue has room. \<open>joins\<close> says so of all queues.
\<close>

definition joined :: "u32 list \<Rightarrow> kstate \<Rightarrow> u32 \<Rightarrow> nat \<Rightarrow> u32 list" where
  "joined xs s part r = ready (scheduler_ctx s part) r
     @ take (MAXRTOS_MAX_READY_PER_PRIORITY - length (ready (scheduler_ctx s part) r))
         (filter (\<lambda>i. pcb_partition_id (process_pool s i) = part \<and> unat (pcb_priority (process_pool s i)) = r) xs)"

definition joins :: "u32 list \<Rightarrow> kstate \<Rightarrow> kstate \<Rightarrow> bool" where
  "joins xs s s' \<longleftrightarrow> (\<forall>part r. ready (scheduler_ctx s' part) r = joined xs s part r)
     \<and> (\<forall>i. pcb_partition_id (process_pool s' i) = pcb_partition_id (process_pool s i)
          \<and> pcb_priority (process_pool s' i) = pcb_priority (process_pool s i))"

lemma joins_empty: "joins [] s s"
  by (simp add: joins_def joined_def)

lemma joins_trans:
  assumes "joins xs s s1" "joins ys s1 s2"
  shows "joins (xs @ ys) s s2"
proof -
  have "ready (scheduler_ctx s2 part) r = joined (xs @ ys) s part r" for part r
  proof -
    let ?R = "ready (scheduler_ctx s part) r"
    let ?c = "\<lambda>s i. pcb_partition_id (process_pool s i) = part \<and> unat (pcb_priority (process_pool s i)) = r"
    have c: "?c s1 = ?c s" using assms(1) by (simp add: joins_def)
    have "ready (scheduler_ctx s2 part) r = joined ys s1 part r" using assms(2) by (simp add: joins_def)
    also have "\<dots> = (?R @ take (8 - length ?R) (filter (?c s) xs))
        @ take (8 - length (?R @ take (8 - length ?R) (filter (?c s) xs))) (filter (?c s) ys)"
      using assms(1) unfolding joins_def joined_def c by simp
    also have "\<dots> = joined (xs @ ys) s part r"
      unfolding joined_def filter_append take_append append_assoc length_append length_take
      by (intro arg_cong2[where f = append] arg_cong2[where f = take] refl) linarith
    finally show ?thesis .
  qed
  with assms show ?thesis by (simp add: joins_def)
qed

lemma joined_cong: "(\<And>i. i \<in> set xs \<Longrightarrow> P i = Q i) \<Longrightarrow> joined (filter P xs) s = joined (filter Q xs) s"
  by (simp cong: filter_cong)

text \<open>A resolved process joins its queue if there is room, and leaves every queue as it is otherwise.\<close>

lemma resolve_joins:
  assumes "sched_inv s" "allocated (process_pool s) i" "pcb_state (process_pool s i) = MAXRTOS_PROCESS_STATE_BLOCKED"
  shows "joins [i] s (snd (maxrtos_ipc_resolve PTR i result s))"
proof (cases "has_room s i")
  case True
  from resolve_outcome(1)[OF assms True] obtain s' where r: "maxrtos_ipc_resolve PTR i result s = (MAXRTOS_OK, s')"
    "resumed i result s s'" by blast
  have "ready (scheduler_ctx s' part) q = joined [i] s part q" for part q
    using r(2) True by (cases "part = pcb_partition_id (process_pool s i)") (auto simp: resumed_def Let_def joined_def has_room_def)
  with r show ?thesis by (simp add: joins_def resumed_def Let_def)
next
  case False
  from resolve_outcome(2)[OF assms False] obtain s' where r: "maxrtos_ipc_resolve PTR i result s = (MAXRTOS_ERR_QUEUE_FULL, s')"
    "lost i s s'" by blast
  have "ready (scheduler_ctx s part) q = joined [i] s part q" for part q
    using False by (auto simp: joined_def has_room_def)
  with r show ?thesis by (simp add: joins_def lost_def)
qed

text \<open>A process of \<open>xs\<close> that was in no queue is queued afterwards exactly when its queue had room for it.\<close>

lemma joins_queued:
  assumes "sched_inv s" "joins xs s s'" "allocated (process_pool s) i" "\<not> queued_in s i"
  shows "queued_in s' i \<longleftrightarrow>
    i \<in> set (joined xs s (pcb_partition_id (process_pool s i)) (unat (pcb_priority (process_pool s i))))"
proof -
  from sched_okD(1)[OF assms(1)[unfolded sched_inv_def] assms(3)] have le: "unat (pcb_priority (process_pool s i)) \<le> 31"
    by (simp add: pcb_ok_def word_le_nat_alt)
  have "r = unat (pcb_priority (process_pool s i))"
    if "r \<le> 31" "i \<in> set (joined xs s (pcb_partition_id (process_pool s i)) r)" for r
    using that assms(4) by (auto simp: joined_def queued_in_def in_ready_ids dest: in_set_takeD)
  with le assms(2) show ?thesis unfolding joins_def queued_in_def in_ready_ids by metis
qed

lemma expire_step_outcome:
  assumes inv: "kernel_inv s" and i: "allocated (process_pool s) i" "overdue now (process_pool s i)"
  shows "\<exists>b' s'. expire_step PTR now i (n, b, s) = (if queued_in s' i then n + 1 else n, b', s')
    \<and> swept {i} s s' \<and> joins [i] s s'"
proof -
  note wk = kernel_invD(2)[OF inv]
  from i(2) obtain w where w: "pcb_waitlist (process_pool s i) = Some w" by (auto simp: overdue_def)
  from timeout_current_eq(1)[OF inv wait_okD(6)[OF wk i(1) w]] obtain s1 where t:
    "maxrtos_ipc_timeout_current (Some w) i PTR s = (MAXRTOS_OK, Some (pcb_ipc_operation (process_pool s i)), s1)"
    "left_list w i s s1" "kernel_inv s1" by blast
  note l = left_list_facts[OF inv t(2)]
  have pool1: "process_pool s1 = (process_pool s)(i := (process_pool s i)\<lparr>pcb_ipc_operation := MAXRTOS_IPC_OP_NONE,
          pcb_waitlist := None, pcb_wake_tick := MAXRTOS_TICK_NONE\<rparr>)" and oi: "only_ipc s s1" "current_id s1 = current_id s"
    using t(2) by (simp_all add: left_list_def)
  have lists: "wl_list (waitlists s1 v) = filter (\<lambda>j. j \<noteq> i) (wl_list (waitlists s v))" for v
  proof (cases "v = w")
    case True
    then show ?thesis using t(2) wait_okD(2)[OF wk, of w]
      by (simp add: left_list_def distinct_remove1_removeAll removeAll_filter_not_eq eq_commute)
  next
    case False
    then have "i \<notin> set (wl_list (waitlists s v))" using wait_okD(5)[OF wk, of i v] w by auto
    then have "filter (\<lambda>j. j \<noteq> i) (wl_list (waitlists s v)) = wl_list (waitlists s v)" by (auto intro: filter_True)
    with False t(2) show ?thesis by (simp add: left_list_def)
  qed
  have nq: "\<not> queued_in s1 i" using queued_in_ready[OF kernel_invD(1)[OF t(3)] l(1)] l(2) by auto
  have step: "expire_step PTR now i (n, b, s) = (case maxrtos_ipc_resolve PTR i MAXRTOS_ERR_TIMEOUT s1 of
      (MAXRTOS_OK, s2) \<Rightarrow> (n + 1, is_mutex_lock (Some (pcb_ipc_operation (process_pool s i))) \<or> b, s2)
    | (_, s2) \<Rightarrow> (n, b, s2))"
    using i t(1) w by (simp add: expire_step_def process_get_eq)
  have k: "kernel_inv (snd (maxrtos_ipc_resolve PTR i MAXRTOS_ERR_TIMEOUT s1))"
    using resolve_step[OF t(3), of i PTR MAXRTOS_ERR_TIMEOUT] l(3) by simp
  have j1: "joined [i] s1 = joined [i] s" "pcb_partition_id (process_pool s1 j) = pcb_partition_id (process_pool s j)"
    "pcb_priority (process_pool s1 j) = pcb_priority (process_pool s j)" for j
    using t(2) by (auto simp: left_list_def joined_def fun_eq_iff)
  have j: "joins [i] s (snd (maxrtos_ipc_resolve PTR i MAXRTOS_ERR_TIMEOUT s1))"
    using resolve_joins[OF kernel_invD(1)[OF t(3)] l(1,2), of MAXRTOS_ERR_TIMEOUT] j1 by (simp add: joins_def)
  show ?thesis
  proof (cases "has_room s1 i")
    case True
    from resolve_outcome(1)[OF kernel_invD(1)[OF t(3)] l(1,2) True] obtain s2 where
      r: "maxrtos_ipc_resolve PTR i MAXRTOS_ERR_TIMEOUT s1 = (MAXRTOS_OK, s2)" "resumed i MAXRTOS_ERR_TIMEOUT s1 s2"
      by blast
    note q = resumed_queued[OF kernel_invD(1)[OF t(3)] l(1) r(2)]
    have "expired i s2" "\<forall>j. j \<noteq> i \<longrightarrow> process_pool s2 j = process_pool s j" "same_deadline (process_pool s j) (process_pool s2 j)"
      "waitlists s2 = waitlists s1" "only_ipc s s2" "current_id s2 = current_id s" for j
      using r(2) pool1 oi by (auto simp: resumed_def expired_def Let_def only_scheduling_iff only_ipc_def)
    with step r q lists k j left_list_queued[OF t(2)] show ?thesis by (simp add: r(1) swept_def)
  next
    case False
    from resolve_outcome(2)[OF kernel_invD(1)[OF t(3)] l(1,2) False] obtain s2 where
      r: "maxrtos_ipc_resolve PTR i MAXRTOS_ERR_TIMEOUT s1 = (MAXRTOS_ERR_QUEUE_FULL, s2)" "lost i s1 s2" by blast
    note q = lost_queued[OF r(2)]
    have "expired i s2" "\<forall>j. j \<noteq> i \<longrightarrow> process_pool s2 j = process_pool s j" "same_deadline (process_pool s j) (process_pool s2 j)"
      "waitlists s2 = waitlists s1" "only_ipc s s2" "current_id s2 = current_id s" for j
      using r(2) pool1 oi nq q by (auto simp: lost_def expired_def)
    with step r q nq lists k j left_list_queued[OF t(2)] show ?thesis by (simp add: r(1) swept_def)
  qed
qed


abbreviation late :: "u32 \<Rightarrow> kstate \<Rightarrow> u32 \<Rightarrow> bool" where
  "late now s i \<equiv> allocated (process_pool s) i \<and> overdue now (process_pool s i)"

lemma expire_fold_outcome:
  assumes "kernel_inv s" "distinct is"
  shows "\<exists>b' s'. fold (expire_step PTR now) is (n, b, s)
      = (n + length (filter (\<lambda>i. late now s i \<and> queued_in s' i) is), b', s')
    \<and> swept {i \<in> set is. late now s i} s s' \<and> joins (filter (late now s) is) s s' \<and> ({i \<in> set is. late now s i} = {} \<longrightarrow> b' = b)"
  using assms
proof (induction "is" arbitrary: n b s)
  case Nil
  then show ?case by (simp add: swept_empty joins_empty)
next
  case (Cons i "is")
  then have d: "i \<notin> set is" "distinct is" by simp_all
  show ?case
  proof (cases "late now s i")
    case False
    then have f: "fold (expire_step PTR now) (i # is) (n, b, s) = fold (expire_step PTR now) is (n, b, s)"
      by (auto simp: expire_step_def process_get_eq)
    have "{j \<in> set (i # is). late now s j} = {j \<in> set is. late now s j}" using False by auto
    moreover have "filter (\<lambda>j. late now s j \<and> queued_in s' j) (i # is) = filter (\<lambda>j. late now s j \<and> queued_in s' j) is" for s'
      using False by auto
    moreover have "filter (late now s) (i # is) = filter (late now s) is" using False by auto
    ultimately show ?thesis unfolding f using Cons.IH[OF Cons.prems(1) d(2), of n b] by presburger
  next
    case True
    let ?L = "{j \<in> set is. late now s j}"
    from expire_step_outcome[OF Cons.prems(1) conjunct1[OF True] conjunct2[OF True], of n b] obtain b1 s1 where e:
      "expire_step PTR now i (n, b, s) = (if queued_in s1 i then n + 1 else n, b1, s1)" "swept {i} s s1"
      and j1: "joins [i] s s1" by blast
    then have k1: "kernel_inv s1" by (simp add: swept_def)
    from Cons.IH[OF k1 d(2), of "if queued_in s1 i then n + 1 else n" b1] obtain b2 s2 where f:
      "fold (expire_step PTR now) is (if queued_in s1 i then n + 1 else n, b1, s1)
        = ((if queued_in s1 i then n + 1 else n) + length (filter (\<lambda>j. late now s1 j \<and> queued_in s2 j) is), b2, s2)"
      "swept {j \<in> set is. late now s1 j} s1 s2" and j2: "joins (filter (late now s1) is) s1 s2" by blast
    have "late now s1 j \<longleftrightarrow> late now s j" if "j \<noteq> i" for j
      using e(2) that by (simp add: swept_def allocated_def)
    with d(1) have same: "j \<in> set is \<Longrightarrow> late now s1 j \<longleftrightarrow> late now s j" for j by metis
    then have L: "{j \<in> set is. late now s1 j} = ?L" by blast
    have c: "filter (\<lambda>j. late now s1 j \<and> queued_in s2 j) is = filter (\<lambda>j. late now s j \<and> queued_in s2 j) is"
      by (rule filter_cong[OF refl]) (use same in auto)
    have "queued_in s2 i = queued_in s1 i" using f(2) d(1) by (simp add: swept_def)
    then have "fold (expire_step PTR now) (i # is) (n, b, s)
        = (n + length (filter (\<lambda>j. late now s j \<and> queued_in s2 j) (i # is)), b2, s2)"
      using e(1) f(1) True c by simp
    moreover have "filter (late now s1) is = filter (late now s) is" by (rule filter_cong[OF refl]) (use same in auto)
    then have "joins (filter (late now s) (i # is)) s s2" using joins_trans[OF j1 j2] True by simp
    moreover have "swept ({i} \<union> ?L) s s2" using swept_trans[OF e(2) f(2)] d(1) unfolding L by simp
    moreover have "{i} \<union> ?L = {j \<in> set (i # is). late now s j}" using True by auto
    ultimately show ?thesis by (intro exI[of _ b2] exI[of _ s2]) auto
  qed
qed

lemma same_but_priority_expired: "same_but_priority s s' \<Longrightarrow> expired i s \<Longrightarrow> expired i s'"
proof -
  assume same: "same_but_priority s s'" and e: "expired i s"
  obtain q where "process_pool s' i = (process_pool s i)\<lparr>pcb_priority := q\<rparr>"
    using same by (auto simp: same_but_priority_def)
  with e same show ?thesis by (simp add: expired_def same_but_priority_def)
qed

text \<open>An expiry sweeps the overdue processes, then at most the priorities of mutex owners change.\<close>

lemma expire_outcome:
  assumes inv: "kernel_inv s" and r: "maxrtos_ipc_expire_timeouts PTR now s = (n, s')"
  defines "L \<equiv> {i. late now s i}"
  shows "\<exists>s1. swept L s s1 \<and> joins (filter (late now s) (ids_below 16)) s s1 \<and> same_but_priority s1 s' \<and> kernel_inv s' \<and> n = card {i \<in> L. queued_in s1 i} \<and> (L = {} \<longrightarrow> s' = s)"
proof -
  have L: "{i \<in> set (ids_below 16). late now s i} = L" by (auto simp: L_def allocated_def)
  from expire_fold_outcome[OF inv distinct_ids_below[of 16], of now 0 False] obtain b s1 where f:
    "fold (expire_step PTR now) (ids_below 16) (0, False, s)
      = (length (filter (\<lambda>i. late now s i \<and> queued_in s1 i) (ids_below 16)), b, s1)"
    "swept L s s1" "L = {} \<longrightarrow> b = False" and j: "joins (filter (late now s) (ids_below 16)) s s1" unfolding L by auto
  then have k1: "kernel_inv s1" by (simp add: swept_def)
  have s': "s' = (if b then maxrtos_kernel_mutex_refresh_priorities PTR s1 else s1)"
    and n: "n = length (filter (\<lambda>i. late now s i \<and> queued_in s1 i) (ids_below 16))"
    using r f(1) by (auto simp: maxrtos_ipc_expire_timeouts_def)
  have "same_but_priority s1 s'"
    unfolding s' using inheritance.mutex_refresh_priorities_inv[of s1 s1 PTR] kernel_invD(1)[OF k1] by simp
  moreover have "kernel_inv s'" unfolding s' using k1 by (simp add: kernel.prio.mutex_refresh_priorities_inv)
  moreover have "distinct (filter (\<lambda>i. late now s i \<and> queued_in s1 i) (ids_below 16))" by (simp add: distinct_ids_below)
  then have "n = card {i \<in> L. queued_in s1 i}"
    unfolding n by (subst distinct_card[symmetric]) (auto simp: L_def allocated_def intro!: arg_cong[where f = card])
  moreover have "L = {} \<longrightarrow> s' = s" using f(2,3) by (simp add: s' swept_def)
  ultimately show ?thesis using f(2) j by blast
qed

lemma swept_other:
  assumes "swept L s s1" "same_but_priority s1 s'" "i \<notin> L"
  shows "\<exists>q. process_pool s' i = (process_pool s i)\<lparr>pcb_priority := q\<rparr>" "queued_in s' i = queued_in s i"
proof -
  have "process_pool s1 i = process_pool s i" "queued_in s1 i = queued_in s i"
    using assms(1,3) by (auto simp: swept_def)
  moreover obtain q where "process_pool s' i = (process_pool s1 i)\<lparr>pcb_priority := q\<rparr>"
    using assms(2) by (auto simp: same_but_priority_def)
  ultimately show "\<exists>q. process_pool s' i = (process_pool s i)\<lparr>pcb_priority := q\<rparr>" "queued_in s' i = queued_in s i"
    using assms(2) by (auto simp: same_but_priority_def)
qed

lemma expire_not_late:
  assumes "kernel_inv s" "maxrtos_ipc_expire_timeouts PTR now s = (n, s')"
  shows "\<not> late now s' i"
proof -
  from expire_outcome[OF assms] obtain s1 where o: "swept {i. late now s i} s s1" "same_but_priority s1 s'" by blast
  show ?thesis
  proof (cases "late now s i")
    case True
    then have "expired i s'" using same_but_priority_expired[OF o(2)] o(1) by (simp add: swept_def)
    then show ?thesis by (simp add: expired_def overdue_def)
  next
    case False
    with swept_other(1)[OF o, of i] obtain q where "process_pool s' i = (process_pool s i)\<lparr>pcb_priority := q\<rparr>" by auto
    with False show ?thesis by (simp add: overdue_def allocated_def)
  qed
qed

text \<open>
  C26. No timed wait outlives its tick: at time \<open>now\<close> exactly the waiting processes with a finite wake
  tick at or before \<open>now\<close> leave their wait lists, in which the others keep their order. Each becomes
  READY and forgets its operation. In the order of their identifiers the expired processes are put
  into the ready queue of their partition and priority: such a process is queued exactly when that
  queue, with the expired processes of smaller identifier already in it, still had room (\<open>joined\<close>),
  and a queued one has the pending result TIMEOUT. The call returns how many were queued. Of every
  other process at most the priority changes, and none loses or gains a queue place. Afterwards
  nobody is overdue, and if nobody was, nothing happened at all.
\<close>

theorem expire_timeouts_spec:
  assumes "kernel_inv s" "maxrtos_ipc_expire_timeouts PTR now s = (n, s')"
  defines "L \<equiv> {i. late now s i}"
  shows "kernel_inv s' \<and> n = card {i \<in> L. queued_in s' i} \<and> (\<forall>i \<in> L. expired i s')
    \<and> (\<forall>i \<in> L. queued_in s' i \<longleftrightarrow> i \<in> set (joined (filter (late now s) (ids_below MAXRTOS_MAX_PROCESSES)) s
           (pcb_partition_id (process_pool s i)) (unat (pcb_priority (process_pool s i)))))
    \<and> (\<forall>i. i \<notin> L \<longrightarrow> (\<exists>q. process_pool s' i = (process_pool s i)\<lparr>pcb_priority := q\<rparr>) \<and> queued_in s' i = queued_in s i)
    \<and> (\<forall>w. wl_list (waitlists s' w) = filter (\<lambda>i. i \<notin> L) (wl_list (waitlists s w)))
    \<and> (\<forall>i. \<not> late now s' i) \<and> (L = {} \<longrightarrow> s' = s)"
proof -
  from expire_outcome[OF assms(1,2)] obtain s1 where o: "swept L s s1" "same_but_priority s1 s'" "kernel_inv s'"
    "n = card {i \<in> L. queued_in s1 i}" "L = {} \<longrightarrow> s' = s"
    and j: "joins (filter (late now s) (ids_below 16)) s s1" unfolding L_def by blast
  have q: "queued_in s' i = queued_in s1 i" for i using o(2) by (simp add: same_but_priority_def)
  have "queued_in s' i \<longleftrightarrow> i \<in> set (joined (filter (late now s) (ids_below 16)) s
           (pcb_partition_id (process_pool s i)) (unat (pcb_priority (process_pool s i))))" if "i \<in> L" for i
  proof -
    from that have al: "allocated (process_pool s) i" and b: "pcb_state (process_pool s i) = MAXRTOS_PROCESS_STATE_BLOCKED"
      by (simp_all add: L_def overdue_def)
    have "\<not> queued_in s i" using queued_in_ready[OF kernel_invD(1)[OF assms(1)] al] b by auto
    from joins_queued[OF kernel_invD(1)[OF assms(1)] j al this] show ?thesis unfolding q .
  qed
  with q o same_but_priority_expired[OF o(2)] swept_other[OF o(1,2)] expire_not_late[OF assms(1,2)]
    same_but_priority_pcb(7)[OF o(2)] show ?thesis by (simp add: swept_def)
qed

text \<open>Process 2 waits for the mutex of 9 until tick 50.\<close>

definition example_lock_wait :: kstate where
  "example_lock_wait = snd (snd (maxrtos_kernel_mutex_lock 0 50 PTR 2 PTR example_locked))"

lemma example_lock_wait_inv: "kernel_inv example_lock_wait" "pools_ok example_lock_wait"
  using pools.mutex_lock_inv[of example_locked 0 50 PTR 2 PTR] example_locked_inv
  by (simp_all add: example_lock_wait_def)

lemma expire_timeouts_spec_witness:
  "case maxrtos_ipc_expire_timeouts PTR 60 example_lock_wait of (n, s') \<Rightarrow>
    pcb_state (process_pool s' 2) = MAXRTOS_PROCESS_STATE_READY \<and> queued_in s' 2
    \<and> pcb_ipc_result (process_pool s' 2) = MAXRTOS_ERR_TIMEOUT \<and> wl_list (waitlists s' (WL_Mutex 0)) = []"
proof -
  obtain n s' where e: "maxrtos_ipc_expire_timeouts PTR 60 example_lock_wait = (n, s')" by (rule prod.exhaust)
  have l: "late 60 example_lock_wait 2" by code_simp
  have w: "wl_list (waitlists example_lock_wait (WL_Mutex 0)) = [2]" by code_simp
  have r: "2 \<in> set (joined (filter (late 60 example_lock_wait) (ids_below MAXRTOS_MAX_PROCESSES)) example_lock_wait
      (pcb_partition_id (process_pool example_lock_wait 2)) (unat (pcb_priority (process_pool example_lock_wait 2))))"
    by code_simp
  have "queued_in s' 2" using expire_timeouts_spec[OF example_lock_wait_inv(1) e] l r by blast
  then show ?thesis
    using expire_timeouts_spec[OF example_lock_wait_inv(1) e] l w by (simp add: e expired_def)
qed

end
