(* ===== verification/Semaphore.thy ===== *)
theory Semaphore
  imports Ipc_Contract
begin

text \<open>
  Intra-partition counting semaphores (semaphore.c): the pool, the count, and the hand-off of units
  to waiting processes. The status record of \<open>get_status\<close> is \<open>maxrtos_semaphore_status_t\<close>.
\<close>

record maxrtos_semaphore_status_t =
  sst_current_value :: u32
  sst_maximum_value :: u32
  sst_waiting :: u32

definition upd_semaphore :: "u32 \<Rightarrow> (maxrtos_semaphore_t \<Rightarrow> maxrtos_semaphore_t) \<Rightarrow> kstate \<Rightarrow> kstate" where
  "upd_semaphore i f s = s\<lparr>s_semaphore_pool := (s_semaphore_pool s)(i := f (s_semaphore_pool s i))\<rparr>"

definition maxrtos_semaphore_pool_init :: "kstate \<Rightarrow> kstate" where
  "maxrtos_semaphore_pool_init s =
     fold (\<lambda>i s. waitlist_reset (WL_Semaphore i) (upd_semaphore i (\<lambda>m. m\<lparr>sem_in_use := False,
         sem_partition_id := MAXRTOS_INVALID_PARTITION_ID, sem_count := 0, sem_max := 0\<rparr>) s))
       (ids_below MAXRTOS_MAX_SEMAPHORES) s"

definition maxrtos_semaphore_get :: "u32 \<Rightarrow> kstate \<Rightarrow> maxrtos_semaphore_t option" where
  "maxrtos_semaphore_get i s =
     (if i < of_nat MAXRTOS_MAX_SEMAPHORES \<and> sem_in_use (s_semaphore_pool s i)
      then Some (s_semaphore_pool s i) else None)"

definition maxrtos_semaphore_for_process :: "u32 \<Rightarrow> u32 \<Rightarrow> kstate \<Rightarrow> maxrtos_semaphore_t option" where
  "maxrtos_semaphore_for_process i pid s =
     (case get_pcb pid s of
        None \<Rightarrow> None
      | Some pcb \<Rightarrow>
          (case maxrtos_semaphore_get i s of
             None \<Rightarrow> None
           | Some semaphore \<Rightarrow> if sem_partition_id semaphore \<noteq> pcb_partition_id pcb then None else Some semaphore))"

definition maxrtos_semaphore_create ::
    "u32 \<Rightarrow> u32 \<Rightarrow> u32 \<Rightarrow> ptr \<Rightarrow> kstate \<Rightarrow> maxrtos_status \<times> u32 option \<times> kstate"
where
  "maxrtos_semaphore_create partition_id initial_value max_value outp s =
     (if outp \<noteq> NULL \<and> partition_id < of_nat MAXRTOS_MAX_PARTITIONS \<and> max_value > 0 \<and> initial_value \<le> max_value then
        (case find (\<lambda>i. \<not> sem_in_use (s_semaphore_pool s i)) (ids_below MAXRTOS_MAX_SEMAPHORES) of
           None \<Rightarrow> (MAXRTOS_ERR_POOL_FULL, None, s)
         | Some i \<Rightarrow>
             (MAXRTOS_OK, Some i,
              waitlist_reset (WL_Semaphore i) (upd_semaphore i (\<lambda>m. m\<lparr>sem_in_use := True,
                sem_partition_id := partition_id, sem_count := initial_value, sem_max := max_value\<rparr>) s)))
      else (MAXRTOS_ERR_INVALID_ARG, None, s))"

definition maxrtos_kernel_semaphore_wait ::
    "u32 \<Rightarrow> u32 \<Rightarrow> ptr \<Rightarrow> u32 \<Rightarrow> ptr \<Rightarrow> kstate \<Rightarrow> maxrtos_status \<times> u32 option \<times> kstate"
where
  "maxrtos_kernel_semaphore_wait i timeout tablep current outp s =
     (if tablep \<noteq> NULL \<and> outp \<noteq> NULL then
        (case maxrtos_semaphore_for_process i current s of
           None \<Rightarrow> (MAXRTOS_ERR_INVALID_ID, None, s)
         | Some semaphore \<Rightarrow>
             if sem_count semaphore > 0
             then (MAXRTOS_OK, None, upd_semaphore i (\<lambda>m. m\<lparr>sem_count := sem_count m - 1\<rparr>) s)
             else if timeout = 0 then (MAXRTOS_ERR_TIMEOUT, None, s)
             else
               (case maxrtos_kernel_tick_after timeout PTR s of
                  (status, wake) \<Rightarrow>
                    if status = MAXRTOS_OK then
                      (case maxrtos_ipc_block_current tablep current (Some (WL_Semaphore i))
                              (out_val MAXRTOS_TICK_NONE wake) (Some (MAXRTOS_IPC_OP_SEMAPHORE_WAIT i)) outp s of
                         (st, out, s') \<Rightarrow>
                           (if st = MAXRTOS_OK then MAXRTOS_PENDING
                            else if st = MAXRTOS_ERR_QUEUE_EMPTY then MAXRTOS_ERR_TIMEOUT
                            else st, out, s'))
                    else (status, None, s)))
      else (MAXRTOS_ERR_INVALID_ARG, None, s))"

definition maxrtos_kernel_semaphore_signal :: "u32 \<Rightarrow> ptr \<Rightarrow> u32 \<Rightarrow> kstate \<Rightarrow> maxrtos_status \<times> kstate" where
  "maxrtos_kernel_semaphore_signal i tablep current s =
     (if tablep \<noteq> NULL then
        (case maxrtos_semaphore_for_process i current s of
           None \<Rightarrow> (MAXRTOS_ERR_INVALID_ID, s)
         | Some semaphore \<Rightarrow>
             if maxrtos_waitlist_count PTR (waitlists s (WL_Semaphore i)) = 0 then
               (if sem_count semaphore \<ge> sem_max semaphore then (MAXRTOS_ERR_OVERFLOW, s)
                else (MAXRTOS_OK, upd_semaphore i (\<lambda>m. m\<lparr>sem_count := sem_count m + 1\<rparr>) s))
             else
               (case maxrtos_ipc_take_best_waiter (Some (WL_Semaphore i)) PTR s of
                  (status, out, s1) \<Rightarrow>
                    if status = MAXRTOS_OK then
                      (case maxrtos_ipc_resolve tablep (out_val MAXRTOS_INVALID_PROCESS_ID out) MAXRTOS_OK s1 of
                         (status', s2) \<Rightarrow>
                           if status' \<noteq> MAXRTOS_OK
                           then (status', upd_semaphore i (\<lambda>m. m\<lparr>sem_count := sem_count m + 1\<rparr>) s2)
                           else (status', s2))
                    else (status, s1)))
      else (MAXRTOS_ERR_INVALID_ARG, s))"

definition maxrtos_kernel_semaphore_get_status ::
    "u32 \<Rightarrow> u32 \<Rightarrow> ptr \<Rightarrow> kstate \<Rightarrow> maxrtos_status \<times> maxrtos_semaphore_status_t option"
where
  "maxrtos_kernel_semaphore_get_status i current outp s =
     (if outp \<noteq> NULL then
        (case maxrtos_semaphore_for_process i current s of
           None \<Rightarrow> (MAXRTOS_ERR_INVALID_ID, None)
         | Some semaphore \<Rightarrow>
             (MAXRTOS_OK, Some \<lparr>sst_current_value = sem_count semaphore, sst_maximum_value = sem_max semaphore,
                sst_waiting = of_nat (maxrtos_waitlist_count PTR (waitlists s (WL_Semaphore i)))\<rparr>))
      else (MAXRTOS_ERR_INVALID_ARG, None))"

definition maxrtos_kernel_semaphore_count :: "u32 \<Rightarrow> kstate \<Rightarrow> u32" where
  "maxrtos_kernel_semaphore_count i s =
     (case maxrtos_semaphore_get i s of Some semaphore \<Rightarrow> sem_count semaphore | None \<Rightarrow> 0)"

subsection \<open>What every semaphore operation keeps\<close>

lemma upd_semaphore_fields [simp]:
  "process_pool (upd_semaphore i f s) = process_pool s" "scheduler_ctx (upd_semaphore i f s) = scheduler_ctx s"
  "waitlists (upd_semaphore i f s) = waitlists s"
  by (simp_all add: upd_semaphore_def)

lemma semaphore_for_process_eq:
  "maxrtos_semaphore_for_process i pid s =
     (if allocated (process_pool s) pid \<and> i < of_nat MAXRTOS_MAX_SEMAPHORES \<and> sem_in_use (s_semaphore_pool s i)
         \<and> sem_partition_id (s_semaphore_pool s i) = pcb_partition_id (process_pool s pid)
      then Some (s_semaphore_pool s i) else None)"
  by (simp add: maxrtos_semaphore_for_process_def maxrtos_semaphore_get_def process_get_eq)

context wake_invariant
begin

lemma upd_semaphore_inv: "I s \<Longrightarrow> (\<And>m. sem_in_use (f m) = sem_in_use m) \<Longrightarrow> I (upd_semaphore i f s)"
  unfolding upd_semaphore_def by (rule semaphores) simp_all

lemma semaphore_signal_inv:
  assumes "I s"
  shows "I (snd (maxrtos_kernel_semaphore_signal i tablep current s))"
proof (cases "maxrtos_semaphore_for_process i current s")
  case None
  with assms show ?thesis by (simp add: maxrtos_kernel_semaphore_signal_def)
next
  case (Some m)
  obtain st out s1 where r: "maxrtos_ipc_take_best_waiter (Some (WL_Semaphore i)) PTR s = (st, out, s1)"
    by (rule prod_cases3)
  note b = best_waiter_inv[OF assms r]
  obtain st' s2 where r': "maxrtos_ipc_resolve tablep (out_val MAXRTOS_INVALID_PROCESS_ID out) MAXRTOS_OK s1 = (st', s2)"
    by (rule prod.exhaust)
  have "I s2" if st: "st = MAXRTOS_OK"
  proof -
    from b(2)[OF st] obtain j where "out = Some j" "off (process_pool s1) j" by blast
    with resolve[OF b(1), of j tablep MAXRTOS_OK] r' show ?thesis by simp
  qed
  with Some r r' b(1) assms show ?thesis
    by (simp add: maxrtos_kernel_semaphore_signal_def upd_semaphore_inv)
qed

end

context blocking_invariant
begin

lemma semaphore_wait_outcome:
  assumes "I s" "maxrtos_kernel_semaphore_wait i timeout tablep current outp s = (status, out, s')"
  shows "if status = MAXRTOS_PENDING then B current s' out else I s'"
proof (cases "maxrtos_semaphore_for_process i current s")
  case None
  with assms show ?thesis by (auto simp: maxrtos_kernel_semaphore_wait_def split: if_splits)
next
  case (Some m)
  then have use: "sem_in_use (s_semaphore_pool s i)" by (simp add: semaphore_for_process_eq split: if_splits)
  obtain st0 wake where t: "maxrtos_kernel_tick_after timeout PTR s = (st0, wake)" by (rule prod.exhaust)
  obtain st out1 s1 where b: "maxrtos_ipc_block_current tablep current (Some (WL_Semaphore i))
      (out_val MAXRTOS_TICK_NONE wake) (Some (MAXRTOS_IPC_OP_SEMAPHORE_WAIT i)) outp s = (st, out1, s1)"
    by (rule prod_cases3)
  have I1: "if st = MAXRTOS_OK then B current s1 out1 else I s1" using blocks[OF assms(1) _ b] use by simp
  have np: "st0 \<noteq> MAXRTOS_PENDING" "st \<noteq> MAXRTOS_PENDING"
    using tick_after_not_pending[of timeout PTR s] block_current_not_pending[of tablep current "Some (WL_Semaphore i)"
        "out_val MAXRTOS_TICK_NONE wake" "Some (MAXRTOS_IPC_OP_SEMAPHORE_WAIT i)" outp s] t b by simp_all
  from Some t b assms I1 np show ?thesis
    by (auto simp: maxrtos_kernel_semaphore_wait_def upd_semaphore_inv split: if_splits)
qed

end

context ipc_invariant
begin

lemma semaphore_wait_inv: "I s \<Longrightarrow> I (snd (snd (maxrtos_kernel_semaphore_wait i timeout tablep current outp s)))"
  by (cases "maxrtos_kernel_semaphore_wait i timeout tablep current outp s")
    (auto dest: blocking.semaphore_wait_outcome split: if_splits)

end

subsection \<open>Creation\<close>

lemma semaphore_create_cases:
  assumes "maxrtos_semaphore_create part init mx outp s = (status, out, s')"
  shows "(status \<noteq> MAXRTOS_OK \<and> out = None \<and> s' = s) \<or>
    (\<exists>i. status = MAXRTOS_OK \<and> out = Some i \<and> i < of_nat MAXRTOS_MAX_SEMAPHORES \<and> \<not> sem_in_use (s_semaphore_pool s i)
       \<and> 0 < mx \<and> init \<le> mx
       \<and> s' = waitlist_reset (WL_Semaphore i) (upd_semaphore i (\<lambda>m. m\<lparr>sem_in_use := True,
                sem_partition_id := part, sem_count := init, sem_max := mx\<rparr>) s))"
proof (cases "find (\<lambda>i. \<not> sem_in_use (s_semaphore_pool s i)) (ids_below MAXRTOS_MAX_SEMAPHORES)")
  case None
  with assms show ?thesis by (auto simp: maxrtos_semaphore_create_def split: if_splits)
next
  case (Some i)
  from find_member[OF Some] have i: "\<not> sem_in_use (s_semaphore_pool s i)" "i < of_nat MAXRTOS_MAX_SEMAPHORES" by simp_all
  have "(status, out, s') = (if outp \<noteq> NULL \<and> part < of_nat MAXRTOS_MAX_PARTITIONS \<and> mx > 0 \<and> init \<le> mx
    then (MAXRTOS_OK, Some i, waitlist_reset (WL_Semaphore i) (upd_semaphore i (\<lambda>m. m\<lparr>sem_in_use := True,
                sem_partition_id := part, sem_count := init, sem_max := mx\<rparr>) s))
    else (MAXRTOS_ERR_INVALID_ARG, None, s))"
    unfolding assms[symmetric] maxrtos_semaphore_create_def Some by simp
  with i show ?thesis by (simp split: if_splits)
qed

lemma semaphore_create_inv:
  assumes "kernel_inv s" "pools_ok s"
  shows "kernel_inv (snd (snd (maxrtos_semaphore_create part init mx outp s)))
    \<and> pools_ok (snd (snd (maxrtos_semaphore_create part init mx outp s)))"
proof -
  obtain status out s' where r: "maxrtos_semaphore_create part init mx outp s = (status, out, s')" by (rule prod_cases3)
  show ?thesis
  proof (cases "s' = s")
    case False
    define f where "f = (\<lambda>m :: maxrtos_semaphore_t. m\<lparr>sem_in_use := True,
                sem_partition_id := part, sem_count := init, sem_max := mx\<rparr>)"
    from semaphore_create_cases[OF r] False obtain i where i: "\<not> sem_in_use (s_semaphore_pool s i)"
      "s' = waitlist_reset (WL_Semaphore i) (upd_semaphore i f s)" by (auto simp: f_def)
    have "wl_list (waitlists s (WL_Semaphore i)) = []"
      using assms(2) i(1) unfolding pools_ok_def by (metis object_in_use.simps(2))
    then have "kernel_inv s'"
      unfolding i(2) by (intro waitlist_reset_inv) (use assms(1) in \<open>simp_all add: upd_semaphore_def\<close>)
    moreover have "object_in_use s' w" if "wl_list (waitlists s' w) \<noteq> []" for w
    proof -
      have "wl_list (waitlists s w) \<noteq> []" using that by (simp add: i(2) split: if_splits)
      then have "object_in_use s w" using assms(2) by (simp add: pools_ok_def)
      then show ?thesis using i(1) by (cases w) (auto simp: i(2) upd_semaphore_def f_def)
    qed
    ultimately show ?thesis using r by (simp add: pools_ok_def)
  qed (use r assms in simp)
qed

subsection \<open>Units\<close>

text \<open>
  What a semaphore promises: its count stays within its maximum, and a process waits only while no
  unit is available.
\<close>

definition semaphore_ok :: "kstate \<Rightarrow> u32 \<Rightarrow> bool" where
  "semaphore_ok s i \<longleftrightarrow> sem_count (s_semaphore_pool s i) \<le> sem_max (s_semaphore_pool s i)
     \<and> (wl_list (waitlists s (WL_Semaphore i)) \<noteq> [] \<longrightarrow> sem_count (s_semaphore_pool s i) = 0)"

lemma take_best_waiter_some:
  assumes "kernel_inv s" "best_waiter (process_pool s) (wl_list (waitlists s w)) = Some b"
  obtains s1 where "maxrtos_ipc_take_best_waiter (Some w) PTR s = (MAXRTOS_OK, Some b, s1)"
    "left_list w b s s1" "kernel_inv s1"
  using take_best_eq(1)[OF assms] by (auto simp: maxrtos_ipc_take_best_waiter_def)

lemma semaphore_signal_waiting:
  assumes inv: "kernel_inv s" and sem: "maxrtos_semaphore_for_process i current s \<noteq> None"
    and b: "best_waiter (process_pool s) (wl_list (waitlists s (WL_Semaphore i))) = Some b"
  shows "has_room s b \<Longrightarrow> \<exists>s1 s'. maxrtos_kernel_semaphore_signal i PTR current s = (MAXRTOS_OK, s')
      \<and> left_list (WL_Semaphore i) b s s1 \<and> resumed b MAXRTOS_OK s1 s'"
    and "\<not> has_room s b \<Longrightarrow> \<exists>s1. left_list (WL_Semaphore i) b s s1
      \<and> maxrtos_kernel_semaphore_signal i PTR current s = (MAXRTOS_ERR_QUEUE_FULL,
           upd_semaphore i (\<lambda>m. m\<lparr>sem_count := sem_count m + 1\<rparr>)
             (upd_pcb b (\<lambda>b. b\<lparr>pcb_state := MAXRTOS_PROCESS_STATE_READY\<rparr>) s1))"
proof -
  obtain m where m: "maxrtos_semaphore_for_process i current s = Some m" using sem by auto
  obtain s1 where t: "maxrtos_ipc_take_best_waiter (Some (WL_Semaphore i)) PTR s = (MAXRTOS_OK, Some b, s1)"
    "left_list (WL_Semaphore i) b s s1" "kernel_inv s1" using take_best_waiter_some[OF inv b] .
  have "wl_list (waitlists s (WL_Semaphore i)) \<noteq> []" using b by auto
  then have c: "wl_count (waitlists s (WL_Semaphore i)) \<noteq> 0" by (metis length_0_conv length_wl_list)
  have code: "maxrtos_kernel_semaphore_signal i PTR current s =
      (case maxrtos_ipc_resolve PTR b MAXRTOS_OK s1 of (status', s2) \<Rightarrow>
         if status' \<noteq> MAXRTOS_OK then (status', upd_semaphore i (\<lambda>m. m\<lparr>sem_count := sem_count m + 1\<rparr>) s2)
         else (status', s2))"
    using m t(1) c by (simp add: maxrtos_kernel_semaphore_signal_def maxrtos_waitlist_count_def)
  note facts = left_list_facts[OF inv t(2)]
  note ro = resolve_outcome[OF kernel_invD(1)[OF t(3)] facts(1,2), of MAXRTOS_OK]
  {
    assume "has_room s b"
    with ro(1) left_list_same(1)[OF t(2)] obtain s' where
      "maxrtos_ipc_resolve PTR b MAXRTOS_OK s1 = (MAXRTOS_OK, s')" "resumed b MAXRTOS_OK s1 s'" by auto
    with t(2) show "\<exists>s1 s'. maxrtos_kernel_semaphore_signal i PTR current s = (MAXRTOS_OK, s')
      \<and> left_list (WL_Semaphore i) b s s1 \<and> resumed b MAXRTOS_OK s1 s'" unfolding code by auto
  next
    assume "\<not> has_room s b"
    with ro(2) left_list_same(1)[OF t(2)] obtain s' where
      "maxrtos_ipc_resolve PTR b MAXRTOS_OK s1 = (MAXRTOS_ERR_QUEUE_FULL, s')" "lost b s1 s'" by auto
    with t(2) show "\<exists>s1. left_list (WL_Semaphore i) b s s1
      \<and> maxrtos_kernel_semaphore_signal i PTR current s = (MAXRTOS_ERR_QUEUE_FULL,
           upd_semaphore i (\<lambda>m. m\<lparr>sem_count := sem_count m + 1\<rparr>)
             (upd_pcb b (\<lambda>b. b\<lparr>pcb_state := MAXRTOS_PROCESS_STATE_READY\<rparr>) s1))"
      unfolding code by (auto simp: lost_def)
  }
qed

text \<open>
  C15. Semaphore units: for a semaphore of the caller's partition, a wait takes a unit if there is one
  and otherwise, as a poll, reports TIMEOUT. A signal with a waiter takes the best waiter off the list and makes it READY: if its ready queue has room (\<open>has_room\<close>), it
  gets the unit with the result OK and the count stays; if not, the signal reports QUEUE_FULL and
  the count goes up by one. Without waiters a signal raises the count, except at the maximum
  (OVERFLOW, no change).
\<close>

theorem semaphore_units:
  assumes "kernel_inv s" "maxrtos_semaphore_for_process i current s = Some m"
  shows "maxrtos_kernel_semaphore_wait i 0 PTR current PTR s =
      (if sem_count m = 0 then (MAXRTOS_ERR_TIMEOUT, None, s)
       else (MAXRTOS_OK, None, upd_semaphore i (\<lambda>m. m\<lparr>sem_count := sem_count m - 1\<rparr>) s))
    \<and> (case maxrtos_kernel_semaphore_signal i PTR current s of (status, s') \<Rightarrow>
      (case best_waiter (process_pool s) (wl_list (waitlists s (WL_Semaphore i))) of
         None \<Rightarrow>
           if sem_count m < sem_max m
           then status = MAXRTOS_OK \<and> s' = upd_semaphore i (\<lambda>m. m\<lparr>sem_count := sem_count m + 1\<rparr>) s
           else status = MAXRTOS_ERR_OVERFLOW \<and> s' = s
       | Some b \<Rightarrow>
           wl_list (waitlists s' (WL_Semaphore i)) = remove1 b (wl_list (waitlists s (WL_Semaphore i)))
           \<and> pcb_state (process_pool s' b) = MAXRTOS_PROCESS_STATE_READY
           \<and> (if has_room s b
              then status = MAXRTOS_OK \<and> s_semaphore_pool s' = s_semaphore_pool s
                \<and> pcb_ipc_result (process_pool s' b) = MAXRTOS_OK \<and> pcb_ipc_result_pending (process_pool s' b)
              else status = MAXRTOS_ERR_QUEUE_FULL \<and> sem_count (s_semaphore_pool s' i) = sem_count m + 1)))"
proof -
  have m: "m = s_semaphore_pool s i" using assms(2) by (simp add: semaphore_for_process_eq split: if_splits)
  have "maxrtos_kernel_semaphore_wait i 0 PTR current PTR s =
      (if sem_count m = 0 then (MAXRTOS_ERR_TIMEOUT, None, s)
       else (MAXRTOS_OK, None, upd_semaphore i (\<lambda>m. m\<lparr>sem_count := sem_count m - 1\<rparr>) s))"
    using assms(2) by (simp add: maxrtos_kernel_semaphore_wait_def word_neq_0_conv[symmetric])
  moreover have "case maxrtos_kernel_semaphore_signal i PTR current s of (status, s') \<Rightarrow>
      (case best_waiter (process_pool s) (wl_list (waitlists s (WL_Semaphore i))) of
         None \<Rightarrow>
           if sem_count m < sem_max m
           then status = MAXRTOS_OK \<and> s' = upd_semaphore i (\<lambda>m. m\<lparr>sem_count := sem_count m + 1\<rparr>) s
           else status = MAXRTOS_ERR_OVERFLOW \<and> s' = s
       | Some b \<Rightarrow>
           wl_list (waitlists s' (WL_Semaphore i)) = remove1 b (wl_list (waitlists s (WL_Semaphore i)))
           \<and> pcb_state (process_pool s' b) = MAXRTOS_PROCESS_STATE_READY
           \<and> (if has_room s b
              then status = MAXRTOS_OK \<and> s_semaphore_pool s' = s_semaphore_pool s
                \<and> pcb_ipc_result (process_pool s' b) = MAXRTOS_OK \<and> pcb_ipc_result_pending (process_pool s' b)
              else status = MAXRTOS_ERR_QUEUE_FULL \<and> sem_count (s_semaphore_pool s' i) = sem_count m + 1))"
  proof (cases "best_waiter (process_pool s) (wl_list (waitlists s (WL_Semaphore i)))")
    case None
    then have "wl_count (waitlists s (WL_Semaphore i)) = 0" by (metis best_waiter_None length_wl_list list.size(3))
    with None assms(2) show ?thesis
      by (simp add: maxrtos_kernel_semaphore_signal_def maxrtos_waitlist_count_def not_le)
  next
    case (Some b)
    show ?thesis
    proof (cases "has_room s b")
      case True
      from semaphore_signal_waiting(1)[OF assms(1) _ Some True] assms(2) obtain s1 s' where
        "maxrtos_kernel_semaphore_signal i PTR current s = (MAXRTOS_OK, s')" "left_list (WL_Semaphore i) b s s1"
        "resumed b MAXRTOS_OK s1 s'" by blast
      with Some True show ?thesis
        by (simp add: left_list_def only_ipc_def resumed_def only_scheduling_iff Let_def)
    next
      case False
      from semaphore_signal_waiting(2)[OF assms(1) _ Some False] assms(2) obtain s1 where
        "left_list (WL_Semaphore i) b s s1"
        "maxrtos_kernel_semaphore_signal i PTR current s = (MAXRTOS_ERR_QUEUE_FULL,
           upd_semaphore i (\<lambda>m. m\<lparr>sem_count := sem_count m + 1\<rparr>)
             (upd_pcb b (\<lambda>b. b\<lparr>pcb_state := MAXRTOS_PROCESS_STATE_READY\<rparr>) s1))" by blast
      with Some False m show ?thesis by (simp add: left_list_def only_ipc_def upd_semaphore_def)
    qed
  qed
  ultimately show ?thesis ..
qed

lemma upd_semaphore_pool: "s_semaphore_pool (upd_semaphore i f s) = (s_semaphore_pool s)(i := f (s_semaphore_pool s i))"
  by (simp add: upd_semaphore_def)

lemma semaphore_ok_cong:
  assumes "s_semaphore_pool s' j = s_semaphore_pool s j"
    "wl_list (waitlists s' (WL_Semaphore j)) \<noteq> [] \<Longrightarrow> wl_list (waitlists s (WL_Semaphore j)) \<noteq> []"
  shows "semaphore_ok s j \<Longrightarrow> semaphore_ok s' j"
  using assms by (auto simp: semaphore_ok_def)

lemma semaphore_wait_ok:
  assumes inv: "kernel_inv s" and ok: "semaphore_ok s j"
  shows "semaphore_ok (snd (snd (maxrtos_kernel_semaphore_wait i timeout tablep current outp s))) j"
proof (cases "maxrtos_semaphore_for_process i current s")
  case None
  with ok show ?thesis by (simp add: maxrtos_kernel_semaphore_wait_def)
next
  case (Some m)
  then have m: "m = s_semaphore_pool s i" by (simp add: semaphore_for_process_eq split: if_splits)
  obtain st0 wake where t: "maxrtos_kernel_tick_after timeout PTR s = (st0, wake)" by (rule prod.exhaust)
  obtain st out s1 where b: "maxrtos_ipc_block_current tablep current (Some (WL_Semaphore i))
      (out_val MAXRTOS_TICK_NONE wake) (Some (MAXRTOS_IPC_OP_SEMAPHORE_WAIT i)) outp s = (st, out, s1)"
    by (rule prod_cases3)
  note only = block_current_inv[OF inv, of tablep current "Some (WL_Semaphore i)" "out_val MAXRTOS_TICK_NONE wake"
    "Some (MAXRTOS_IPC_OP_SEMAPHORE_WAIT i)" outp, unfolded b snd_conv]
  show ?thesis
  proof (cases "sem_count m = 0")
    case True
    have "semaphore_ok s1 j"
    proof (cases "j = i")
      case True
      with \<open>sem_count m = 0\<close> only ok m show ?thesis by (simp add: semaphore_ok_def only_ipc_def)
    next
      case False
      with block_current_lists[OF inv, where v = "WL_Semaphore j" and wl = "Some (WL_Semaphore i)"] b
      have "wl_list (waitlists s1 (WL_Semaphore j)) = wl_list (waitlists s (WL_Semaphore j))"
        by (metis option.inject snd_conv waitlist_ref.inject(2))
      with only show ?thesis by (intro semaphore_ok_cong[OF _ _ ok]) (simp_all add: only_ipc_def)
    qed
    with True Some t b ok show ?thesis by (simp add: maxrtos_kernel_semaphore_wait_def)
  next
    case False
    have "semaphore_ok (upd_semaphore i (\<lambda>m. m\<lparr>sem_count := sem_count m - 1\<rparr>) s) j"
    proof (cases "j = i")
      case True
      have "sem_count m - 1 \<le> sem_count m" using False by (simp add: word_le_nat_alt unat_minus_one)
      also have "\<dots> \<le> sem_max m" using ok True m by (simp add: semaphore_ok_def)
      finally show ?thesis using ok True False m by (auto simp: semaphore_ok_def upd_semaphore_pool)
    qed (use ok in \<open>simp add: semaphore_ok_def upd_semaphore_pool\<close>)
    with False Some ok show ?thesis by (simp add: maxrtos_kernel_semaphore_wait_def word_neq_0_conv[symmetric])
  qed
qed

lemma semaphore_signal_ok:
  assumes inv: "kernel_inv s" and ok: "semaphore_ok s j"
    and room: "\<And>b. best_waiter (process_pool s) (wl_list (waitlists s (WL_Semaphore i))) = Some b \<Longrightarrow> has_room s b"
  shows "semaphore_ok (snd (maxrtos_kernel_semaphore_signal i tablep current s)) j"
proof (cases "tablep = PTR \<and> maxrtos_semaphore_for_process i current s \<noteq> None")
  case False
  with ok show ?thesis by (cases tablep) (auto simp: maxrtos_kernel_semaphore_signal_def)
next
  case True
  then obtain m where some: "maxrtos_semaphore_for_process i current s = Some m" and t: "tablep = PTR" by auto
  then have m: "m = s_semaphore_pool s i" by (simp add: semaphore_for_process_eq split: if_splits)
  show ?thesis
  proof (cases "best_waiter (process_pool s) (wl_list (waitlists s (WL_Semaphore i)))")
    case None
    then have l: "wl_list (waitlists s (WL_Semaphore i)) = []" by simp
    then have "wl_count (waitlists s (WL_Semaphore i)) = 0" by (metis length_wl_list list.size(3))
    then have code: "snd (maxrtos_kernel_semaphore_signal i PTR current s) = (if sem_count m < sem_max m
        then upd_semaphore i (\<lambda>m. m\<lparr>sem_count := sem_count m + 1\<rparr>) s else s)"
      using some by (simp add: maxrtos_kernel_semaphore_signal_def maxrtos_waitlist_count_def not_le)
    have "sem_count m < sem_max m \<Longrightarrow> sem_count m + 1 \<le> sem_max m" by (rule inc_le)
    with ok l m show ?thesis unfolding t code by (auto simp: semaphore_ok_def upd_semaphore_pool)
  next
    case (Some b)
    from semaphore_signal_waiting(1)[OF inv _ Some room[OF Some]] some obtain s1 s' where r:
      "maxrtos_kernel_semaphore_signal i PTR current s = (MAXRTOS_OK, s')" "left_list (WL_Semaphore i) b s s1"
      "resumed b MAXRTOS_OK s1 s'" by blast
    have pool: "s_semaphore_pool s' = s_semaphore_pool s" "waitlists s' = waitlists s1"
      using r(2,3) by (simp_all add: left_list_def only_ipc_def resumed_def only_scheduling_iff Let_def)
    have "wl_list (waitlists s' (WL_Semaphore j)) \<noteq> [] \<Longrightarrow> wl_list (waitlists s (WL_Semaphore j)) \<noteq> []"
      using left_list_same(5,6)[OF r(2)] pool(2) by (cases "j = i") auto
    with pool(1) show ?thesis unfolding t r(1) snd_conv by (intro semaphore_ok_cong[OF _ _ ok]) simp_all
  qed
qed

text \<open>
  C34. A semaphore's count stays within its maximum, and nobody waits while a unit is available:
  creation establishes this and every wait, with any time-out and outcome, and every signal keeps
  it for all semaphores, as long as the ready queue of a process to be woken has room.
\<close>

theorem semaphore_bounds_invariant:
  assumes "kernel_inv s" "semaphore_ok s j"
    and "\<And>b. best_waiter (process_pool s) (wl_list (waitlists s (WL_Semaphore i))) = Some b \<Longrightarrow> has_room s b"
  shows "semaphore_ok (snd (snd (maxrtos_kernel_semaphore_wait i timeout tablep current outp s))) j
    \<and> semaphore_ok (snd (maxrtos_kernel_semaphore_signal i tablep current s)) j
    \<and> (case maxrtos_semaphore_create part init mx PTR s of (status, out, s') \<Rightarrow>
         status = MAXRTOS_OK \<longrightarrow> semaphore_ok s' (the out))"
proof (intro conjI)
  show "case maxrtos_semaphore_create part init mx PTR s of (status, out, s') \<Rightarrow>
      status = MAXRTOS_OK \<longrightarrow> semaphore_ok s' (the out)"
  proof (cases "maxrtos_semaphore_create part init mx PTR s")
    case (fields status out s')
    from semaphore_create_cases[OF fields] fields show ?thesis
      by (auto simp: semaphore_ok_def upd_semaphore_pool)
  qed
qed (use assms in \<open>simp_all add: semaphore_wait_ok semaphore_signal_ok\<close>)

text \<open>
  C35. Without that room the bound fails: a signal that cannot queue the process it wakes reports
  QUEUE_FULL and counts the unit although a process was waiting, so that at the maximum the count
  exceeds it, where a signal without waiters reports OVERFLOW; and the process that left the
  wait list is READY but in no ready queue.
\<close>

theorem semaphore_signal_exceeds_maximum:
  assumes "kernel_inv s" "maxrtos_semaphore_for_process i current s = Some m"
    "best_waiter (process_pool s) (wl_list (waitlists s (WL_Semaphore i))) = Some b" "\<not> has_room s b"
    "sem_count m = sem_max m" "sem_max m < UINT32_MAX"
  shows "case maxrtos_kernel_semaphore_signal i PTR current s of (status, s') \<Rightarrow>
    status = MAXRTOS_ERR_QUEUE_FULL \<and> sem_max (s_semaphore_pool s' i) < sem_count (s_semaphore_pool s' i)
    \<and> pcb_state (process_pool s' b) = MAXRTOS_PROCESS_STATE_READY
    \<and> b \<notin> set (ready_ids (scheduler_ctx s' (pcb_partition_id (process_pool s b))))
    \<and> pcb_waitlist (process_pool s' b) = None"
proof -
  have m: "m = s_semaphore_pool s i" using assms(2) by (simp add: semaphore_for_process_eq split: if_splits)
  from semaphore_signal_waiting(2)[OF assms(1) _ assms(3,4)] assms(2) obtain s1 where r:
    "left_list (WL_Semaphore i) b s s1"
    "maxrtos_kernel_semaphore_signal i PTR current s = (MAXRTOS_ERR_QUEUE_FULL,
       upd_semaphore i (\<lambda>m. m\<lparr>sem_count := sem_count m + 1\<rparr>)
         (upd_pcb b (\<lambda>b. b\<lparr>pcb_state := MAXRTOS_PROCESS_STATE_READY\<rparr>) s1))" by blast
  have "unat (sem_max m + 1) = unat (sem_max m) + 1"
    using assms(6) by (simp add: word_less_nat_alt unat_plus_if')
  then have lt: "sem_max m < sem_max m + 1" by (simp add: word_less_nat_alt)
  have "b \<in> set (wl_list (waitlists s (WL_Semaphore i)))" using r(1) by (simp add: left_list_def)
  note bl = wait_okD(3,4)[OF kernel_invD(2)[OF assms(1)] this]
  let ?part = "pcb_partition_id (process_pool s b)"
  note ok = kernel_invD(1)[OF assms(1), unfolded sched_inv_def]
  have "?part < of_nat MAXRTOS_MAX_PARTITIONS" using sched_okD(1)[OF ok bl(1)] by (simp add: pcb_ok_def)
  note dom = part_okD(1)[OF sched_okD(3)[OF ok this]]
  have "b \<notin> set (ready_ids (scheduler_ctx s ?part))"
    using domain_okD(2)[OF dom] bl(2) by (auto simp: in_ready_ids)
  with r(1) lt assms(5) m show ?thesis
    unfolding r(2) by (simp add: left_list_def only_ipc_def upd_semaphore_def)
qed

text \<open>
  Every semaphore operation keeps the kernel invariant and \<open>pools_ok\<close>, whatever its arguments
  and outcome, and waiting and signalling leave the clock, the halt flags and the configuration of
  every process alone.
\<close>

lemma semaphore_operations_keep_invariant:
  assumes "kernel_inv s" "pools_ok s"
    and "s' \<in> {snd (snd (maxrtos_kernel_semaphore_wait i timeout tablep current outp s)),
       snd (maxrtos_kernel_semaphore_signal i tablep current s)}"
  shows "kernel_inv s' \<and> pools_ok s' \<and> same_clock s s' \<and> same_config s s'
    \<and> kernel_inv (snd (snd (maxrtos_semaphore_create part init mx outp s)))
    \<and> pools_ok (snd (snd (maxrtos_semaphore_create part init mx outp s)))"
proof -
  have c: "kernel_inv s \<and> same_clock s s" and g: "kernel_inv s \<and> same_config s s" and p: "kernel_inv s \<and> pools_ok s"
    using assms by (simp_all add: same_clock_def)
  note wait = pools.semaphore_wait_inv[OF p] clock.semaphore_wait_inv[OF c] config.semaphore_wait_inv[OF g]
    and signal = pools.semaphore_signal_inv[OF p] clock.semaphore_signal_inv[OF c] config.semaphore_signal_inv[OF g]
  from assms(3) have "kernel_inv s' \<and> pools_ok s' \<and> same_clock s s' \<and> same_config s s'"
    by (elim insertE emptyE) (simp_all only: wait signal simp_thms)
  with semaphore_create_inv[OF assms(1,2)] show ?thesis by simp
qed

subsection \<open>Examples\<close>

text \<open>Semaphore 0 of partition 0 has one unit, which process 9 takes before 2 preempts it and waits.\<close>

definition example_semaphore :: kstate where
  "example_semaphore = snd (snd (maxrtos_semaphore_create 0 1 1 PTR example_state))"

definition example_waits :: kstate where
  "example_waits = snd (snd (maxrtos_kernel_semaphore_wait 0 50 PTR 9 PTR
     (snd (snd (maxrtos_kernel_semaphore_wait 0 50 PTR 9 PTR example_semaphore)))))"

lemma example_semaphore_inv: "kernel_inv example_semaphore" "pools_ok example_semaphore"
  using semaphore_create_inv[OF example_kernel_inv example_pools_ok] by (simp_all add: example_semaphore_def)

lemma example_waits_inv: "kernel_inv example_waits"
  unfolding example_waits_def using example_semaphore_inv(1) by (intro kernel.semaphore_wait_inv)

lemma semaphore_units_witness:
  "case maxrtos_kernel_semaphore_signal 0 PTR 2 example_waits of (status, s') \<Rightarrow>
    status = MAXRTOS_OK \<and> wl_list (waitlists s' (WL_Semaphore 0)) = []
    \<and> pcb_state (process_pool s' 9) = MAXRTOS_PROCESS_STATE_READY"
proof -
  have "maxrtos_semaphore_for_process 0 2 example_waits \<noteq> None" by code_simp
  then obtain m where m: "maxrtos_semaphore_for_process 0 2 example_waits = Some m" by auto
  have "best_waiter (process_pool example_waits) (wl_list (waitlists example_waits (WL_Semaphore 0))) = Some 9"
    "wl_list (waitlists example_waits (WL_Semaphore 0)) = [9]" "has_room example_waits 9" by code_simp+
  with conjunct2[OF semaphore_units[OF example_waits_inv m]] show ?thesis by (simp split: prod.splits)
qed

lemma semaphore_bounds_invariant_witness:
  "semaphore_ok (snd (maxrtos_kernel_semaphore_signal 0 PTR 2 example_waits)) 0"
proof -
  have ok: "semaphore_ok example_waits 0" by code_simp
  have b: "best_waiter (process_pool example_waits) (wl_list (waitlists example_waits (WL_Semaphore 0))) = Some 9"
    "has_room example_waits 9" by code_simp+
  show ?thesis using semaphore_bounds_invariant[OF example_waits_inv ok, where i = 0] b by simp
qed

lemma semaphore_signal_exceeds_maximum_witness:
  "case maxrtos_kernel_semaphore_signal 0 PTR 9 ((crowded_state (WL_Semaphore 0) (MAXRTOS_IPC_OP_SEMAPHORE_WAIT 0))
      \<lparr>s_semaphore_pool := (\<lambda>_. \<lparr>sem_in_use = True, sem_partition_id = 0, sem_count = 1, sem_max = 1\<rparr>)\<rparr>) of (status, s') \<Rightarrow>
    status = MAXRTOS_ERR_QUEUE_FULL \<and> sem_max (s_semaphore_pool s' 0) < sem_count (s_semaphore_pool s' 0)"
proof -
  let ?c = "crowded_state (WL_Semaphore 0) (MAXRTOS_IPC_OP_SEMAPHORE_WAIT 0)"
  let ?m = "\<lparr>sem_in_use = True, sem_partition_id = 0, sem_count = 1, sem_max = 1\<rparr>"
  let ?s = "?c\<lparr>s_semaphore_pool := (\<lambda>_. ?m)\<rparr>"
  have k: "kernel_inv ?s" using crowded_inv by simp
  have m: "maxrtos_semaphore_for_process 0 9 ?s = Some ?m" by (simp add: semaphore_for_process_eq crowded_facts)
  have b: "best_waiter (process_pool ?s) (wl_list (waitlists ?s (WL_Semaphore 0))) = Some 8" by (simp add: crowded_facts)
  have f: "\<not> has_room ?s 8" using crowded_facts(1) by (simp add: has_room_def)
  from semaphore_signal_exceeds_maximum[OF k m b f] show ?thesis by (simp split: prod.splits)
qed

end
