(* ===== verification/Buffer.thy ===== *)
theory Buffer
  imports Ipc_Contract
begin

text \<open>
  Intra-partition message buffers (buffer.c). A buffer owns a message FIFO over its slot's static
  storage and two wait lists. Messages and receive buffers are addresses into the shared memory;
  a sender that finds a waiting receiver copies straight into the receiver's buffer.
\<close>

record maxrtos_buffer_status_t =
  bst_max_message_size :: u32
  bst_max_nb_message :: u32
  bst_nb_message :: u32
  bst_waiting_processes :: u32

definition upd_buffer :: "u32 \<Rightarrow> (maxrtos_buffer_t \<Rightarrow> maxrtos_buffer_t) \<Rightarrow> kstate \<Rightarrow> kstate" where
  "upd_buffer i f s = s\<lparr>s_buffer_pool := (s_buffer_pool s)(i := f (s_buffer_pool s i))\<rparr>"

definition maxrtos_buffer_wake_one ::
    "waitlist_ref option \<Rightarrow> maxrtos_queuing_discipline \<Rightarrow> ptr \<Rightarrow> ptr \<Rightarrow> kstate \<Rightarrow>
     maxrtos_status \<times> u32 option \<times> maxrtos_ipc_operation_t option \<times> kstate"
where
  "maxrtos_buffer_wake_one waitlist discipline outp opp s =
     (if discipline = MAXRTOS_QUEUING_PRIORITY
      then maxrtos_ipc_take_best_waiter_op waitlist outp opp s
      else maxrtos_ipc_wake_one waitlist outp opp s)"

definition maxrtos_buffer_pool_init :: "kstate \<Rightarrow> kstate" where
  "maxrtos_buffer_pool_init s =
     fold (\<lambda>i s. waitlist_reset (WL_Buffer_Senders i) (waitlist_reset (WL_Buffer_Receivers i)
         (upd_buffer i (\<lambda>b. b\<lparr>buf_in_use := False, buf_partition_id := MAXRTOS_INVALID_PARTITION_ID,
            buf_discipline := MAXRTOS_QUEUING_FIFO\<rparr>) s)))
       (ids_below MAXRTOS_MAX_BUFFERS) s"

definition maxrtos_buffer_get :: "u32 \<Rightarrow> kstate \<Rightarrow> maxrtos_buffer_t option" where
  "maxrtos_buffer_get i s =
     (if i < of_nat MAXRTOS_MAX_BUFFERS \<and> buf_in_use (s_buffer_pool s i) then Some (s_buffer_pool s i) else None)"

definition maxrtos_buffer_for_process :: "u32 \<Rightarrow> u32 \<Rightarrow> kstate \<Rightarrow> maxrtos_buffer_t option" where
  "maxrtos_buffer_for_process i pid s =
     (case get_pcb pid s of
        None \<Rightarrow> None
      | Some pcb \<Rightarrow>
          (case maxrtos_buffer_get i s of
             None \<Rightarrow> None
           | Some buffer \<Rightarrow> if buf_partition_id buffer \<noteq> pcb_partition_id pcb then None else Some buffer))"

text \<open>The size of the storage array of a pool entry, \<open>sizeof( s_buffer_pool[ i ].storage )\<close>.\<close>

abbreviation (input) buffer_storage_size :: u32 where
  "buffer_storage_size \<equiv> MAXRTOS_MAX_BUFFER_CAPACITY * MAXRTOS_MAX_BUFFER_MESSAGE_SIZE"

text \<open>One round of the loop of \<open>maxrtos_buffer_create\<close>: the status so far, the result, the state.\<close>

definition buffer_create_step ::
    "u32 \<Rightarrow> u32 \<Rightarrow> u32 \<Rightarrow> maxrtos_queuing_discipline \<Rightarrow> u32 \<Rightarrow>
     maxrtos_status \<times> u32 option \<times> kstate \<Rightarrow> maxrtos_status \<times> u32 option \<times> kstate"
where
  "buffer_create_step partition_id max_message_size max_nb_message discipline i = (\<lambda>(status, out, s).
     if status \<noteq> MAXRTOS_OK \<and> \<not> buf_in_use (s_buffer_pool s i) then
       (case maxrtos_kernel_fifo_init PTR (buffer_storage s i) buffer_storage_size max_message_size
               max_nb_message (buf_fifo (s_buffer_pool s i)) of
          (st, f) \<Rightarrow>
            let s1 = upd_buffer i (\<lambda>b. b\<lparr>buf_fifo := f\<rparr>) s in
            if st = MAXRTOS_OK then
              (st, Some i,
               waitlist_reset (WL_Buffer_Senders i) (waitlist_reset (WL_Buffer_Receivers i)
                 (upd_buffer i (\<lambda>b. b\<lparr>buf_in_use := True, buf_partition_id := partition_id,
                    buf_discipline := discipline\<rparr>) s1)))
            else (st, out, s1))
     else (status, out, s))"

definition maxrtos_buffer_create ::
    "u32 \<Rightarrow> u32 \<Rightarrow> u32 \<Rightarrow> maxrtos_queuing_discipline \<Rightarrow> ptr \<Rightarrow> kstate \<Rightarrow>
     maxrtos_status \<times> u32 option \<times> kstate"
where
  "maxrtos_buffer_create partition_id max_message_size max_nb_message discipline outp s =
     (if outp \<noteq> NULL \<and> partition_id < of_nat MAXRTOS_MAX_PARTITIONS \<and> max_message_size > 0
         \<and> max_message_size \<le> MAXRTOS_MAX_BUFFER_MESSAGE_SIZE \<and> max_nb_message > 0
         \<and> max_nb_message \<le> MAXRTOS_MAX_BUFFER_CAPACITY
      then fold (buffer_create_step partition_id max_message_size max_nb_message discipline)
             (ids_below MAXRTOS_MAX_BUFFERS) (MAXRTOS_ERR_POOL_FULL, None, s)
      else (MAXRTOS_ERR_INVALID_ARG, None, s))"

text \<open>A push to, and a pop from, the FIFO of a buffer, which both live in the kernel state.\<close>

definition buffer_push :: "u32 \<Rightarrow> u32 \<Rightarrow> u32 \<Rightarrow> kstate \<Rightarrow> maxrtos_status \<times> kstate" where
  "buffer_push i message message_size s =
     (case maxrtos_kernel_fifo_push PTR message message_size (buf_fifo (s_buffer_pool s i)) (mem s) of
        (status, f, m) \<Rightarrow> (status, (upd_buffer i (\<lambda>b. b\<lparr>buf_fifo := f\<rparr>) s)\<lparr>mem := m\<rparr>))"

definition buffer_pop :: "u32 \<Rightarrow> u32 \<Rightarrow> u32 \<Rightarrow> kstate \<Rightarrow> maxrtos_status \<times> kstate" where
  "buffer_pop i out_message buffer_size s =
     (case maxrtos_kernel_fifo_pop PTR out_message buffer_size (buf_fifo (s_buffer_pool s i)) (mem s) of
        (status, f, m) \<Rightarrow> (status, (upd_buffer i (\<lambda>b. b\<lparr>buf_fifo := f\<rparr>) s)\<lparr>mem := m\<rparr>))"

text \<open>The first half of \<open>maxrtos_kernel_buffer_send\<close>: the message goes to a waiting receiver or into the FIFO.\<close>

definition buffer_deliver :: "u32 \<Rightarrow> u32 \<Rightarrow> u32 \<Rightarrow> ptr \<Rightarrow> kstate \<Rightarrow> maxrtos_status \<times> kstate" where
  "buffer_deliver i message message_size tablep s =
     (case maxrtos_buffer_wake_one (Some (WL_Buffer_Receivers i)) (buf_discipline (s_buffer_pool s i)) PTR PTR s of
        (MAXRTOS_OK, Some receiver_id, receiver_op, s1) \<Rightarrow>
          (case receiver_op of
             Some (MAXRTOS_IPC_OP_BUFFER_RECEIVE _ out_message buffer_size) \<Rightarrow>
               if buffer_size \<ge> message_size
               then maxrtos_ipc_resolve tablep receiver_id MAXRTOS_OK
                      (s1\<lparr>mem := memcpy (mem s1) out_message message message_size\<rparr>)
               else buffer_push i message message_size
                      (snd (maxrtos_ipc_resolve tablep receiver_id MAXRTOS_ERR_INVALID_STATE s1))
           | _ \<Rightarrow> buffer_push i message message_size
                    (snd (maxrtos_ipc_resolve tablep receiver_id MAXRTOS_ERR_INVALID_STATE s1)))
      | (_, _, _, s1) \<Rightarrow> buffer_push i message message_size s1)"

definition maxrtos_kernel_buffer_send ::
    "u32 \<Rightarrow> u32 \<Rightarrow> u32 \<Rightarrow> u32 \<Rightarrow> ptr \<Rightarrow> u32 \<Rightarrow> ptr \<Rightarrow> kstate \<Rightarrow> maxrtos_status \<times> u32 option \<times> kstate"
where
  "maxrtos_kernel_buffer_send i message message_size timeout tablep current outp s =
     (if message \<noteq> 0 \<and> tablep \<noteq> NULL \<and> outp \<noteq> NULL then
        (case maxrtos_buffer_for_process i current s of
           None \<Rightarrow> (MAXRTOS_ERR_INVALID_ID, None, s)
         | Some buffer \<Rightarrow>
             if message_size \<noteq> fifo_message_size (buf_fifo buffer) then (MAXRTOS_ERR_INVALID_ARG, None, s)
             else
               (case buffer_deliver i message message_size tablep s of
                  (status, s1) \<Rightarrow>
                    if status = MAXRTOS_ERR_QUEUE_FULL \<and> timeout \<noteq> 0 then
                      (case maxrtos_kernel_tick_after timeout PTR s1 of
                         (status', wake) \<Rightarrow>
                           if status' = MAXRTOS_OK then
                             (case maxrtos_ipc_block_current tablep current (Some (WL_Buffer_Senders i))
                                     (out_val MAXRTOS_TICK_NONE wake)
                                     (Some (MAXRTOS_IPC_OP_BUFFER_SEND i message message_size)) outp s1 of
                                (st, out, s2) \<Rightarrow>
                                  (if st = MAXRTOS_OK then MAXRTOS_PENDING
                                   else if st = MAXRTOS_ERR_QUEUE_EMPTY then MAXRTOS_ERR_QUEUE_FULL
                                   else st, out, s2))
                           else (status', None, s1))
                    else (status, None, s1)))
      else (MAXRTOS_ERR_INVALID_ARG, None, s))"

text \<open>A slot was freed: admit one blocked sender.\<close>

definition buffer_admit :: "u32 \<Rightarrow> ptr \<Rightarrow> kstate \<Rightarrow> kstate" where
  "buffer_admit i tablep s =
     (case maxrtos_buffer_wake_one (Some (WL_Buffer_Senders i)) (buf_discipline (s_buffer_pool s i)) PTR PTR s of
        (MAXRTOS_OK, Some sender_id, sender_op, s1) \<Rightarrow>
          (case (case sender_op of
                   Some (MAXRTOS_IPC_OP_BUFFER_SEND _ message message_size) \<Rightarrow> buffer_push i message message_size s1
                 | _ \<Rightarrow> (MAXRTOS_ERR_INVALID_STATE, s1)) of
             (sender_result, s2) \<Rightarrow> snd (maxrtos_ipc_resolve tablep sender_id sender_result s2))
      | (_, _, _, s1) \<Rightarrow> s1)"

definition maxrtos_kernel_buffer_receive ::
    "u32 \<Rightarrow> u32 \<Rightarrow> u32 \<Rightarrow> u32 \<Rightarrow> ptr \<Rightarrow> u32 \<Rightarrow> ptr \<Rightarrow> kstate \<Rightarrow> maxrtos_status \<times> u32 option \<times> kstate"
where
  "maxrtos_kernel_buffer_receive i out_message buffer_size timeout tablep current outp s =
     (if out_message \<noteq> 0 \<and> tablep \<noteq> NULL \<and> outp \<noteq> NULL then
        (case maxrtos_buffer_for_process i current s of
           None \<Rightarrow> (MAXRTOS_ERR_INVALID_ID, None, s)
         | Some buffer \<Rightarrow>
             (case buffer_pop i out_message buffer_size s of
                (status, s1) \<Rightarrow>
                  if status = MAXRTOS_OK then (status, None, buffer_admit i tablep s1)
                  else if status = MAXRTOS_ERR_QUEUE_EMPTY \<and> timeout \<noteq> 0 then
                    (case maxrtos_kernel_tick_after timeout PTR s1 of
                       (status', wake) \<Rightarrow>
                         if status' = MAXRTOS_OK then
                           (case maxrtos_ipc_block_current tablep current (Some (WL_Buffer_Receivers i))
                                   (out_val MAXRTOS_TICK_NONE wake)
                                   (Some (MAXRTOS_IPC_OP_BUFFER_RECEIVE i out_message buffer_size)) outp s1 of
                              (st, out, s2) \<Rightarrow> (if st = MAXRTOS_OK then MAXRTOS_PENDING else st, out, s2))
                         else (status', None, s1))
                  else (status, None, s1)))
      else (MAXRTOS_ERR_INVALID_ARG, None, s))"

definition maxrtos_kernel_buffer_get_status ::
    "u32 \<Rightarrow> u32 \<Rightarrow> ptr \<Rightarrow> kstate \<Rightarrow> maxrtos_status \<times> maxrtos_buffer_status_t option"
where
  "maxrtos_kernel_buffer_get_status i current outp s =
     (if outp \<noteq> NULL then
        (case maxrtos_buffer_for_process i current s of
           None \<Rightarrow> (MAXRTOS_ERR_INVALID_ID, None)
         | Some buffer \<Rightarrow>
             (MAXRTOS_OK, Some \<lparr>bst_max_message_size = fifo_message_size (buf_fifo buffer),
                bst_max_nb_message = fifo_capacity (buf_fifo buffer),
                bst_nb_message = maxrtos_kernel_fifo_count PTR (buf_fifo buffer),
                bst_waiting_processes = of_nat (maxrtos_waitlist_count PTR (waitlists s (WL_Buffer_Senders i))
                  + maxrtos_waitlist_count PTR (waitlists s (WL_Buffer_Receivers i)))\<rparr>))
      else (MAXRTOS_ERR_INVALID_ARG, None))"

subsection \<open>What every buffer operation keeps\<close>

lemma buffer_for_process_eq:
  "maxrtos_buffer_for_process i pid s =
     (if allocated (process_pool s) pid \<and> i < of_nat MAXRTOS_MAX_BUFFERS \<and> buf_in_use (s_buffer_pool s i)
         \<and> buf_partition_id (s_buffer_pool s i) = pcb_partition_id (process_pool s pid)
      then Some (s_buffer_pool s i) else None)"
  by (simp add: maxrtos_buffer_for_process_def maxrtos_buffer_get_def process_get_eq)

context wake_invariant
begin

lemma buffer_wake_inv:
  assumes "I s" "maxrtos_buffer_wake_one w d outp opp s = (status, out, oper, s')"
  shows "I s' \<and> (status = MAXRTOS_OK \<longrightarrow> (\<exists>i. out = Some i \<and> off (process_pool s') i))"
proof (cases "d = MAXRTOS_QUEUING_PRIORITY")
  case True
  with assms(2) have "maxrtos_ipc_take_best_waiter_op w outp opp s = (status, out, oper, s')"
    by (simp add: maxrtos_buffer_wake_one_def)
  then show ?thesis by (rule best[OF assms(1)])
next
  case False
  with assms(2) have "maxrtos_ipc_wake_one w outp opp s = (status, out, oper, s')"
    by (simp add: maxrtos_buffer_wake_one_def)
  then show ?thesis by (rule wake[OF assms(1)])
qed

lemma upd_buffer_inv: "I s \<Longrightarrow> (\<And>b. buf_in_use (f b) = buf_in_use b) \<Longrightarrow> I (upd_buffer i f s)"
  unfolding upd_buffer_def by (rule buffers) simp_all

lemma buffer_push_inv:
  assumes "I s"
  shows "I (snd (buffer_push i message n s))"
proof (cases "maxrtos_kernel_fifo_push PTR message n (buf_fifo (s_buffer_pool s i)) (mem s)")
  case (fields st f m)
  have "I (upd_buffer i (\<lambda>b. b\<lparr>buf_fifo := f\<rparr>) s)" by (rule upd_buffer_inv[OF assms]) simp
  with fields show ?thesis by (simp add: buffer_push_def bytes)
qed

lemma buffer_pop_inv:
  assumes "I s"
  shows "I (snd (buffer_pop i out n s))"
proof (cases "maxrtos_kernel_fifo_pop PTR out n (buf_fifo (s_buffer_pool s i)) (mem s)")
  case (fields st f m)
  have "I (upd_buffer i (\<lambda>b. b\<lparr>buf_fifo := f\<rparr>) s)" by (rule upd_buffer_inv[OF assms]) simp
  with fields show ?thesis by (simp add: buffer_pop_def bytes)
qed

end

lemma buffer_push_pool [simp]: "process_pool (snd (buffer_push i message n s)) = process_pool s"
  "waitlists (snd (buffer_push i message n s)) = waitlists s"
  "buf_in_use (s_buffer_pool (snd (buffer_push i message n s)) j) = buf_in_use (s_buffer_pool s j)"
  by (simp_all add: buffer_push_def upd_buffer_def split: prod.split)

lemma buffer_pop_pool [simp]: "process_pool (snd (buffer_pop i out n s)) = process_pool s"
  "waitlists (snd (buffer_pop i out n s)) = waitlists s"
  "buf_in_use (s_buffer_pool (snd (buffer_pop i out n s)) j) = buf_in_use (s_buffer_pool s j)"
  by (simp_all add: buffer_pop_def upd_buffer_def split: prod.split)

lemma buffer_wake_pools: "maxrtos_buffer_wake_one w d outp opp s = (status, out, oper, s') \<Longrightarrow> pools_of s' = pools_of s"
  unfolding maxrtos_buffer_wake_one_def by (cases "d = MAXRTOS_QUEUING_PRIORITY") (simp_all add: take_best_pools wake_one_pools)

text \<open>The case split that \<open>buffer_deliver\<close> and \<open>buffer_admit\<close> make.\<close>

definition same_buffers_in_use :: "kstate \<Rightarrow> kstate \<Rightarrow> bool" where
  "same_buffers_in_use s s' \<longleftrightarrow> (\<forall>j. buf_in_use (s_buffer_pool s' j) = buf_in_use (s_buffer_pool s j))"

lemma buffers_pools: "pools_of s' = pools_of s \<Longrightarrow> s_buffer_pool s' = s_buffer_pool s"
  by (simp add: pools_of_def)

lemma buffer_deliver_in_use:
  "buf_in_use (s_buffer_pool (snd (buffer_deliver i message n tablep s)) j) = buf_in_use (s_buffer_pool s j)"
proof -
  obtain status out oper s1 where r: "maxrtos_buffer_wake_one (Some (WL_Buffer_Receivers i))
      (buf_discipline (s_buffer_pool s i)) PTR PTR s = (status, out, oper, s1)" by (metis prod_cases4)
  have s1: "s_buffer_pool s1 = s_buffer_pool s" using buffer_wake_pools[OF r] by (rule buffers_pools)
  have res: "s_buffer_pool (snd (maxrtos_ipc_resolve tablep k result t)) = s_buffer_pool t" for k result t
    by (rule buffers_pools[OF resolve_pools])
  show ?thesis
    unfolding buffer_deliver_def r
    by (simp add: s1 res split: maxrtos_status.split option.split maxrtos_ipc_operation_t.split)
qed

context wake_invariant
begin

lemma buffer_deliver_inv:
  assumes "I s"
  shows "I (snd (buffer_deliver i message n tablep s))"
proof -
  obtain status out oper s1 where r: "maxrtos_buffer_wake_one (Some (WL_Buffer_Receivers i))
      (buf_discipline (s_buffer_pool s i)) PTR PTR s = (status, out, oper, s1)" by (metis prod_cases4)
  note w = buffer_wake_inv[OF assms r]
  show ?thesis
  proof (cases "status = MAXRTOS_OK")
    case False
    with w show ?thesis unfolding buffer_deliver_def r by (cases status) (simp_all add: buffer_push_inv)
  next
    case True
    with w obtain k where k: "out = Some k" "off (process_pool s1) k" by blast
    have I1: "I s1" using w by blast
    have I2: "I (snd (maxrtos_ipc_resolve tablep k result (s1\<lparr>mem := m\<rparr>)))" for result m
      by (rule resolve) (use bytes[OF I1] k(2) in simp_all)
    have I3: "I (snd (maxrtos_ipc_resolve tablep k result s1))" for result
      by (rule resolve[OF I1 k(2)])
    show ?thesis
      unfolding buffer_deliver_def r True k(1)
      by (simp add: I2 buffer_push_inv[OF I3] split: option.split maxrtos_ipc_operation_t.split)
  qed
qed

lemma buffer_admit_inv:
  assumes "I s"
  shows "I (buffer_admit i tablep s)"
proof -
  obtain status out oper s1 where r: "maxrtos_buffer_wake_one (Some (WL_Buffer_Senders i))
      (buf_discipline (s_buffer_pool s i)) PTR PTR s = (status, out, oper, s1)" by (metis prod_cases4)
  note w = buffer_wake_inv[OF assms r]
  show ?thesis
  proof (cases "status = MAXRTOS_OK")
    case False
    with w show ?thesis unfolding buffer_admit_def r by (cases status) simp_all
  next
    case True
    with w obtain k where k: "out = Some k" "off (process_pool s1) k" by blast
    have I1: "I s1" using w by blast
    define q where "q = (case oper of Some (MAXRTOS_IPC_OP_BUFFER_SEND _ message message_size) \<Rightarrow>
      buffer_push i message message_size s1 | _ \<Rightarrow> (MAXRTOS_ERR_INVALID_STATE, s1))"
    have q: "I (snd q)" "process_pool (snd q) = process_pool s1"
      unfolding q_def by (simp_all add: I1 buffer_push_inv split: option.split maxrtos_ipc_operation_t.split)
    have "I (snd (maxrtos_ipc_resolve tablep k result (snd q)))" for result
      by (rule resolve[OF q(1)]) (simp add: q(2) k(2))
    then show ?thesis
      unfolding buffer_admit_def r True k(1) by (simp add: q_def[symmetric] split: prod.split) (metis snd_conv)
  qed
qed

end

lemma buffer_deliver_not_pending: "fst (buffer_deliver i message n tablep s) \<noteq> MAXRTOS_PENDING"
proof -
  have p: "fst (buffer_push i message n t) \<noteq> MAXRTOS_PENDING" for t
    by (simp add: buffer_push_def maxrtos_kernel_fifo_push_def prod.case_eq_if Let_def)
  show ?thesis
    using p resolve_not_pending unfolding buffer_deliver_def
    by (simp split: prod.split maxrtos_status.split option.split maxrtos_ipc_operation_t.split)
qed

lemma buffer_pop_not_pending: "fst (buffer_pop i message n t) \<noteq> MAXRTOS_PENDING"
  by (simp add: buffer_pop_def maxrtos_kernel_fifo_pop_def prod.case_eq_if)

context blocking_invariant
begin

lemma buffer_send_outcome:
  assumes "I s" "maxrtos_kernel_buffer_send i message n timeout tablep current outp s = (status, out, s')"
  shows "if status = MAXRTOS_PENDING then B current s' out else I s'"
proof (cases "maxrtos_buffer_for_process i current s")
  case None
  with assms show ?thesis by (auto simp: maxrtos_kernel_buffer_send_def split: if_splits)
next
  case (Some b)
  then have use: "buf_in_use (s_buffer_pool s i)" by (simp add: buffer_for_process_eq split: if_splits)
  obtain st1 s1 where d: "buffer_deliver i message n tablep s = (st1, s1)" by (rule prod.exhaust)
  obtain st2 wake where t: "maxrtos_kernel_tick_after timeout PTR s1 = (st2, wake)" by (rule prod.exhaust)
  obtain st3 out2 s2 where bl: "maxrtos_ipc_block_current tablep current (Some (WL_Buffer_Senders i))
      (out_val MAXRTOS_TICK_NONE wake) (Some (MAXRTOS_IPC_OP_BUFFER_SEND i message n)) outp s1 = (st3, out2, s2)"
    by (rule prod_cases3)
  have I1: "I s1" using buffer_deliver_inv[OF assms(1), of i message n tablep] d by simp
  have "buf_in_use (s_buffer_pool s1 i)" using buffer_deliver_in_use[of i message n tablep s i] d use by simp
  then have I2: "if st3 = MAXRTOS_OK then B current s2 out2 else I s2" using blocks[OF I1 _ bl] by simp
  have np: "st1 \<noteq> MAXRTOS_PENDING" "st2 \<noteq> MAXRTOS_PENDING" "st3 \<noteq> MAXRTOS_PENDING"
    using tick_after_not_pending[of timeout PTR s1] buffer_deliver_not_pending[of i message n tablep s]
      block_current_not_pending[of tablep current "Some (WL_Buffer_Senders i)" "out_val MAXRTOS_TICK_NONE wake"
        "Some (MAXRTOS_IPC_OP_BUFFER_SEND i message n)" outp s1] d t bl by simp_all
  from Some d t bl I1 I2 np assms show ?thesis
    by (cases "n = fifo_message_size (buf_fifo b)") (auto simp: maxrtos_kernel_buffer_send_def split: if_splits)
qed

lemma buffer_receive_outcome:
  assumes "I s" "maxrtos_kernel_buffer_receive i out_message n timeout tablep current outp s = (status, out, s')"
  shows "if status = MAXRTOS_PENDING then B current s' out else I s'"
proof (cases "maxrtos_buffer_for_process i current s")
  case None
  with assms show ?thesis by (auto simp: maxrtos_kernel_buffer_receive_def split: if_splits)
next
  case (Some b)
  then have use: "buf_in_use (s_buffer_pool s i)" by (simp add: buffer_for_process_eq split: if_splits)
  obtain st1 s1 where d: "buffer_pop i out_message n s = (st1, s1)" by (rule prod.exhaust)
  obtain st2 wake where t: "maxrtos_kernel_tick_after timeout PTR s1 = (st2, wake)" by (rule prod.exhaust)
  obtain st3 out2 s2 where bl: "maxrtos_ipc_block_current tablep current (Some (WL_Buffer_Receivers i))
      (out_val MAXRTOS_TICK_NONE wake) (Some (MAXRTOS_IPC_OP_BUFFER_RECEIVE i out_message n)) outp s1 = (st3, out2, s2)"
    by (rule prod_cases3)
  have I1: "I s1" using buffer_pop_inv[OF assms(1), of i out_message n] d by simp
  have "buf_in_use (s_buffer_pool s1 i)" using buffer_pop_pool(3)[of i out_message n s i] d use by simp
  then have I2: "if st3 = MAXRTOS_OK then B current s2 out2 else I s2" using blocks[OF I1 _ bl] by simp
  have np: "st1 \<noteq> MAXRTOS_PENDING" "st2 \<noteq> MAXRTOS_PENDING" "st3 \<noteq> MAXRTOS_PENDING"
    using tick_after_not_pending[of timeout PTR s1] buffer_pop_not_pending[of i out_message n s]
      block_current_not_pending[of tablep current "Some (WL_Buffer_Receivers i)" "out_val MAXRTOS_TICK_NONE wake"
        "Some (MAXRTOS_IPC_OP_BUFFER_RECEIVE i out_message n)" outp s1] d t bl by simp_all
  from Some d t bl I1 I2 np assms show ?thesis
    by (auto simp: maxrtos_kernel_buffer_receive_def buffer_admit_inv split: if_splits)
qed

end

context ipc_invariant
begin

lemma buffer_send_inv: "I s \<Longrightarrow> I (snd (snd (maxrtos_kernel_buffer_send i message n timeout tablep current outp s)))"
  by (cases "maxrtos_kernel_buffer_send i message n timeout tablep current outp s")
    (auto dest: blocking.buffer_send_outcome split: if_splits)

lemma buffer_receive_inv: "I s \<Longrightarrow> I (snd (snd (maxrtos_kernel_buffer_receive i out_message n timeout tablep current outp s)))"
  by (cases "maxrtos_kernel_buffer_receive i out_message n timeout tablep current outp s")
    (auto dest: blocking.buffer_receive_outcome split: if_splits)

end

subsection \<open>Creation\<close>

definition buffer_created ::
    "u32 \<Rightarrow> u32 \<Rightarrow> u32 \<Rightarrow> maxrtos_queuing_discipline \<Rightarrow> u32 \<Rightarrow> kstate \<Rightarrow> kstate" where
  "buffer_created part ms cap d i s = waitlist_reset (WL_Buffer_Senders i) (waitlist_reset (WL_Buffer_Receivers i)
     (upd_buffer i (\<lambda>b. b\<lparr>buf_fifo := \<lparr>fifo_buffer = buffer_storage s i, fifo_buffer_capacity_bytes = buffer_storage_size,
          fifo_message_size = ms, fifo_capacity = cap, fifo_head = 0, fifo_count = 0\<rparr>,
        buf_in_use := True, buf_partition_id := part, buf_discipline := d\<rparr>) s))"

lemma buffer_size_bounds:
  assumes "ms \<le> MAXRTOS_MAX_BUFFER_MESSAGE_SIZE" "cap \<le> MAXRTOS_MAX_BUFFER_CAPACITY"
  shows "unat ms * unat cap \<le> 512" "ms * cap \<le> buffer_storage_size"
proof -
  have "unat ms \<le> 64" "unat cap \<le> 8" using assms by (simp_all add: word_le_nat_alt)
  then show le: "unat ms * unat cap \<le> 512" using mult_le_mono[of "unat ms" 64 "unat cap" 8] by simp
  then have "unat (ms * cap) = unat ms * unat cap" by (simp add: unat_mult_lem[symmetric])
  with le show "ms * cap \<le> buffer_storage_size" by (simp add: word_le_nat_alt)
qed

lemma buffer_create_fold:
  assumes "0 < ms" "ms \<le> MAXRTOS_MAX_BUFFER_MESSAGE_SIZE" "0 < cap" "cap \<le> MAXRTOS_MAX_BUFFER_CAPACITY"
    "\<forall>i \<in> set is. buffer_storage s i \<noteq> 0"
  shows "fold (buffer_create_step part ms cap d) is (MAXRTOS_ERR_POOL_FULL, None, s) =
    (case find (\<lambda>i. \<not> buf_in_use (s_buffer_pool s i)) is of
       None \<Rightarrow> (MAXRTOS_ERR_POOL_FULL, None, s)
     | Some i \<Rightarrow> (MAXRTOS_OK, Some i, buffer_created part ms cap d i s))"
  using assms(5)
proof (induction "is")
  case (Cons i "is")
  have stop: "fold (buffer_create_step part ms cap d) is (MAXRTOS_OK, out, t) = (MAXRTOS_OK, out, t)" for out t
    by (induction "is") (simp_all add: buffer_create_step_def)
  show ?case
  proof (cases "buf_in_use (s_buffer_pool s i)")
    case True
    then have "buffer_create_step part ms cap d i (MAXRTOS_ERR_POOL_FULL, None, s) = (MAXRTOS_ERR_POOL_FULL, None, s)"
      by (simp add: buffer_create_step_def)
    with Cons.IH Cons.prems True show ?thesis by simp
  next
    case False
    have "maxrtos_kernel_fifo_init PTR (buffer_storage s i) buffer_storage_size ms cap (buf_fifo (s_buffer_pool s i))
      = (MAXRTOS_OK, \<lparr>fifo_buffer = buffer_storage s i, fifo_buffer_capacity_bytes = buffer_storage_size,
          fifo_message_size = ms, fifo_capacity = cap, fifo_head = 0, fifo_count = 0\<rparr>)"
      using assms(1-4) Cons.prems buffer_size_bounds(2)[OF assms(2,4)] by (simp add: maxrtos_kernel_fifo_init_def)
    then have "buffer_create_step part ms cap d i (MAXRTOS_ERR_POOL_FULL, None, s)
        = (MAXRTOS_OK, Some i, buffer_created part ms cap d i s)"
      using False by (simp add: buffer_create_step_def buffer_created_def upd_buffer_def)
    with False show ?thesis by (simp add: stop)
  qed
qed simp

lemma buffer_create_cases:
  assumes "\<forall>i < of_nat MAXRTOS_MAX_BUFFERS. buffer_storage s i \<noteq> 0" "maxrtos_buffer_create part ms cap d outp s = (status, out, s')"
  shows "(status \<noteq> MAXRTOS_OK \<and> out = None \<and> s' = s) \<or>
    (\<exists>i. status = MAXRTOS_OK \<and> out = Some i \<and> i < of_nat MAXRTOS_MAX_BUFFERS \<and> \<not> buf_in_use (s_buffer_pool s i)
       \<and> 0 < ms \<and> ms \<le> MAXRTOS_MAX_BUFFER_MESSAGE_SIZE \<and> 0 < cap \<and> cap \<le> MAXRTOS_MAX_BUFFER_CAPACITY
       \<and> s' = buffer_created part ms cap d i s)"
proof (cases "outp \<noteq> NULL \<and> part < of_nat MAXRTOS_MAX_PARTITIONS \<and> ms > 0
         \<and> ms \<le> MAXRTOS_MAX_BUFFER_MESSAGE_SIZE \<and> cap > 0 \<and> cap \<le> MAXRTOS_MAX_BUFFER_CAPACITY")
  case True
  then have p: "0 < ms" "ms \<le> MAXRTOS_MAX_BUFFER_MESSAGE_SIZE" "0 < cap" "cap \<le> MAXRTOS_MAX_BUFFER_CAPACITY" by auto
  have code: "(status, out, s') = (case find (\<lambda>i. \<not> buf_in_use (s_buffer_pool s i)) (ids_below MAXRTOS_MAX_BUFFERS) of
       None \<Rightarrow> (MAXRTOS_ERR_POOL_FULL, None, s)
     | Some i \<Rightarrow> (MAXRTOS_OK, Some i, buffer_created part ms cap d i s))"
    unfolding assms(2)[symmetric] maxrtos_buffer_create_def if_P[OF True] by (rule buffer_create_fold[OF p]) (use assms(1) in simp)
  show ?thesis
  proof (cases "find (\<lambda>i. \<not> buf_in_use (s_buffer_pool s i)) (ids_below MAXRTOS_MAX_BUFFERS)")
    case None
    with code show ?thesis by simp
  next
    case (Some i)
    from find_member[OF Some] have "\<not> buf_in_use (s_buffer_pool s i)" "i < of_nat MAXRTOS_MAX_BUFFERS" by simp_all
    with code Some p show ?thesis by simp
  qed
next
  case False
  have "maxrtos_buffer_create part ms cap d outp s = (MAXRTOS_ERR_INVALID_ARG, None, s)"
    unfolding maxrtos_buffer_create_def if_not_P[OF False] ..
  with assms(2) show ?thesis by simp
qed

lemma buffer_created_inv:
  assumes "kernel_inv s" "pools_ok s" "\<not> buf_in_use (s_buffer_pool s i)"
  shows "kernel_inv (buffer_created part ms cap d i s) \<and> pools_ok (buffer_created part ms cap d i s)"
proof -
  define f where "f = (\<lambda>b :: maxrtos_buffer_t. b\<lparr>buf_fifo := \<lparr>fifo_buffer = buffer_storage s i, fifo_buffer_capacity_bytes = buffer_storage_size,
          fifo_message_size = ms, fifo_capacity = cap, fifo_head = 0, fifo_count = 0\<rparr>,
        buf_in_use := True, buf_partition_id := part, buf_discipline := d\<rparr>)"
  have e: "buffer_created part ms cap d i s
      = waitlist_reset (WL_Buffer_Senders i) (waitlist_reset (WL_Buffer_Receivers i) (upd_buffer i f s))"
    by (simp add: buffer_created_def f_def)
  have empty: "wl_list (waitlists s (WL_Buffer_Receivers i)) = []" "wl_list (waitlists s (WL_Buffer_Senders i)) = []"
    using assms(2,3) unfolding pools_ok_def by (metis object_in_use.simps(3,4))+
  have "kernel_inv (buffer_created part ms cap d i s)"
    unfolding e by (intro waitlist_reset_inv) (use assms(1) empty in \<open>simp_all add: upd_buffer_def\<close>)
  moreover have "object_in_use (buffer_created part ms cap d i s) w"
    if "wl_list (waitlists (buffer_created part ms cap d i s) w) \<noteq> []" for w
  proof -
    have "wl_list (waitlists s w) \<noteq> []" using that by (simp add: e upd_buffer_def split: if_splits)
    then have "object_in_use s w" using assms(2) by (simp add: pools_ok_def)
    then show ?thesis using assms(3) by (cases w) (auto simp: e upd_buffer_def f_def)
  qed
  ultimately show ?thesis by (simp add: pools_ok_def)
qed

text \<open>
  Every buffer operation keeps the kernel invariant and \<open>pools_ok\<close>, whatever its arguments and
  outcome, and sending and receiving leave the clock, the halt flags and the configuration of
  every process alone.
\<close>

lemma buffer_operations_keep_invariant:
  assumes "kernel_inv s" "pools_ok s" "\<forall>i < of_nat MAXRTOS_MAX_BUFFERS. buffer_storage s i \<noteq> 0"
    and "s' \<in> {snd (snd (maxrtos_kernel_buffer_send i message n timeout tablep current outp s)),
       snd (snd (maxrtos_kernel_buffer_receive i message n timeout tablep current outp s))}"
  shows "kernel_inv s' \<and> pools_ok s' \<and> same_clock s s' \<and> same_config s s'
    \<and> kernel_inv (snd (snd (maxrtos_buffer_create part ms cap d outp s)))
    \<and> pools_ok (snd (snd (maxrtos_buffer_create part ms cap d outp s)))"
proof -
  have c: "kernel_inv s \<and> same_clock s s" and g: "kernel_inv s \<and> same_config s s" and p: "kernel_inv s \<and> pools_ok s"
    using assms by (simp_all add: same_clock_def)
  note send = pools.buffer_send_inv[OF p] clock.buffer_send_inv[OF c] config.buffer_send_inv[OF g]
    and receive = pools.buffer_receive_inv[OF p] clock.buffer_receive_inv[OF c] config.buffer_receive_inv[OF g]
  from assms(4) have 1: "kernel_inv s' \<and> pools_ok s' \<and> same_clock s s' \<and> same_config s s'"
    by (elim insertE emptyE) (simp_all only: send receive simp_thms)
  obtain status out t where r: "maxrtos_buffer_create part ms cap d outp s = (status, out, t)" by (rule prod_cases3)
  from buffer_create_cases[OF assms(3) r] have "kernel_inv t \<and> pools_ok t"
    using p buffer_created_inv[OF assms(1,2)] by auto
  with 1 r show ?thesis by simp
qed

subsection \<open>Delivery\<close>

text \<open>The waiter the discipline of a buffer picks.\<close>

definition next_waiter :: "maxrtos_queuing_discipline \<Rightarrow> pool \<Rightarrow> u32 list \<Rightarrow> u32 option" where
  "next_waiter d pool ids =
     (if d = MAXRTOS_QUEUING_PRIORITY then best_waiter pool ids else (case ids of [] \<Rightarrow> None | k # _ \<Rightarrow> Some k))"

lemma next_waiter_None [simp]: "next_waiter d pool ids = None \<longleftrightarrow> ids = []"
  by (simp add: next_waiter_def split: list.split)

lemma next_waiter_Nil [simp]: "next_waiter d pool [] = None"
  by simp

lemma buffer_wake_eq:
  assumes inv: "kernel_inv s"
  shows "next_waiter d (process_pool s) (wl_list (waitlists s w)) = Some k \<Longrightarrow>
      \<exists>s'. maxrtos_buffer_wake_one (Some w) d PTR PTR s
          = (MAXRTOS_OK, Some k, Some (pcb_ipc_operation (process_pool s k)), s') \<and> left_list w k s s' \<and> kernel_inv s'"
    and "wl_list (waitlists s w) = [] \<Longrightarrow>
      maxrtos_buffer_wake_one (Some w) d PTR PTR s = (MAXRTOS_ERR_QUEUE_EMPTY, None, None, s)"
  using take_best_eq[OF inv, of w] wake_one_eq[OF inv, of w]
  by (cases d; auto simp: next_waiter_def maxrtos_buffer_wake_one_def split: list.splits)+

lemma buffer_push_eq:
  assumes "fifo_wf (buf_fifo (s_buffer_pool s i))" "message \<noteq> 0" "n = fifo_message_size (buf_fifo (s_buffer_pool s i))"
  shows "fifo_count (buf_fifo (s_buffer_pool s i)) < fifo_capacity (buf_fifo (s_buffer_pool s i)) \<Longrightarrow>
      fst (buffer_push i message n s) = MAXRTOS_OK
      \<and> fifo_list (buf_fifo (s_buffer_pool (snd (buffer_push i message n s)) i)) (mem (snd (buffer_push i message n s)))
          = fifo_list (buf_fifo (s_buffer_pool s i)) (mem s) @ [mem_read (mem s) message (unat n)]
      \<and> fifo_wf (buf_fifo (s_buffer_pool (snd (buffer_push i message n s)) i))"
    and "\<not> fifo_count (buf_fifo (s_buffer_pool s i)) < fifo_capacity (buf_fifo (s_buffer_pool s i)) \<Longrightarrow>
      buffer_push i message n s = (MAXRTOS_ERR_QUEUE_FULL, s)"
proof -
  let ?f = "buf_fifo (s_buffer_pool s i)"
  {
    assume "fifo_count ?f < fifo_capacity ?f"
    from fifo_push_ok[OF assms(1) this assms(2), of "mem s"] assms(3)
    show "fst (buffer_push i message n s) = MAXRTOS_OK
      \<and> fifo_list (buf_fifo (s_buffer_pool (snd (buffer_push i message n s)) i)) (mem (snd (buffer_push i message n s)))
          = fifo_list ?f (mem s) @ [mem_read (mem s) message (unat n)]
      \<and> fifo_wf (buf_fifo (s_buffer_pool (snd (buffer_push i message n s)) i))"
      by (cases "maxrtos_kernel_fifo_push PTR message n ?f (mem s)") (simp add: buffer_push_def upd_buffer_def)
  next
    assume "\<not> fifo_count ?f < fifo_capacity ?f"
    with assms(1) have "fifo_count ?f = fifo_capacity ?f" by (simp add: fifo_wf_def)
    from fifo_push_full[OF this assms(2), of "mem s"] assms(3)
    show "buffer_push i message n s = (MAXRTOS_ERR_QUEUE_FULL, s)"
      by (simp add: buffer_push_def upd_buffer_def)
  }
qed

text \<open>Of processes, queues and lists only process \<open>k\<close> and the list \<open>w\<close> have changed, and the clock stands.\<close>

definition unqueued_only :: "u32 \<Rightarrow> waitlist_ref \<Rightarrow> kstate \<Rightarrow> kstate \<Rightarrow> bool" where
  "unqueued_only k w s s' \<longleftrightarrow> scheduler_ctx s' = scheduler_ctx s \<and> halted s' = halted s
     \<and> s_current_tick s' = s_current_tick s \<and> (\<forall>j. j \<noteq> k \<longrightarrow> process_pool s' j = process_pool s j)
     \<and> pcb_partition_id (process_pool s' k) = pcb_partition_id (process_pool s k)
     \<and> (\<forall>v. v \<noteq> w \<longrightarrow> waitlists s' v = waitlists s v)"

text \<open>Delivery to a waiting receiver, whether or not it can then be queued.\<close>

lemma buffer_deliver_direct:
  assumes inv: "kernel_inv s"
    and k: "next_waiter (buf_discipline (s_buffer_pool s i)) (process_pool s)
        (wl_list (waitlists s (WL_Buffer_Receivers i))) = Some k"
    and oper: "pcb_ipc_operation (process_pool s k) = MAXRTOS_IPC_OP_BUFFER_RECEIVE j out_message sz" "n \<le> sz"
  shows "case buffer_deliver i message n PTR s of (status, s') \<Rightarrow>
      mem s' = memcpy (mem s) out_message message n
      \<and> s_buffer_pool s' = s_buffer_pool s
      \<and> wl_list (waitlists s' (WL_Buffer_Receivers i)) = remove1 k (wl_list (waitlists s (WL_Buffer_Receivers i)))
      \<and> pcb_state (process_pool s' k) = MAXRTOS_PROCESS_STATE_READY
      \<and> (if has_room s k then status = MAXRTOS_OK \<and> pcb_ipc_result (process_pool s' k) = MAXRTOS_OK
           \<and> pcb_ipc_result_pending (process_pool s' k)
         else status = MAXRTOS_ERR_QUEUE_FULL \<and> unqueued_only k (WL_Buffer_Receivers i) s s')"
proof -
  from buffer_wake_eq(1)[OF inv k] obtain s1 where w:
    "maxrtos_buffer_wake_one (Some (WL_Buffer_Receivers i)) (buf_discipline (s_buffer_pool s i)) PTR PTR s
      = (MAXRTOS_OK, Some k, Some (pcb_ipc_operation (process_pool s k)), s1)"
    "left_list (WL_Buffer_Receivers i) k s s1" "kernel_inv s1" by blast
  let ?s2 = "s1\<lparr>mem := memcpy (mem s1) out_message message n\<rparr>"
  have code: "buffer_deliver i message n PTR s = maxrtos_ipc_resolve PTR k MAXRTOS_OK ?s2"
    unfolding buffer_deliver_def w(1) using oper by simp
  have f: "allocated (process_pool ?s2) k" "pcb_state (process_pool ?s2 k) = MAXRTOS_PROCESS_STATE_BLOCKED"
    "has_room ?s2 k = has_room s k" "s_buffer_pool ?s2 = s_buffer_pool s" "mem s1 = mem s"
    "wl_list (waitlists ?s2 (WL_Buffer_Receivers i)) = remove1 k (wl_list (waitlists s (WL_Buffer_Receivers i)))"
    using left_list_facts[OF inv w(2)] left_list_same(1)[OF w(2)] w(2)
    by (simp_all add: left_list_def only_ipc_def has_room_def)
  have k2: "sched_inv ?s2" using w(3) kernel_invD(1)[of ?s2] by simp
  note ro = resolve_outcome[OF k2 f(1,2), of MAXRTOS_OK]
  show ?thesis
  proof (cases "has_room s k")
    case True
    with ro(1) f(3) obtain s' where "maxrtos_ipc_resolve PTR k MAXRTOS_OK ?s2 = (MAXRTOS_OK, s')"
      "resumed k MAXRTOS_OK ?s2 s'" by auto
    with True f show ?thesis unfolding code by (simp add: resumed_def only_scheduling_iff Let_def)
  next
    case False
    with ro(2) f(3) obtain s' where "maxrtos_ipc_resolve PTR k MAXRTOS_OK ?s2 = (MAXRTOS_ERR_QUEUE_FULL, s')"
      "lost k ?s2 s'" by auto
    moreover have "unqueued_only k (WL_Buffer_Receivers i) s ?s2"
      using w(2) by (simp add: unqueued_only_def left_list_def only_ipc_def)
    ultimately show ?thesis using False f unfolding code by (simp add: lost_def unqueued_only_def)
  qed
qed

lemma buffer_deliver_queue:
  assumes "kernel_inv s" "wl_list (waitlists s (WL_Buffer_Receivers i)) = []"
  shows "buffer_deliver i message n PTR s = buffer_push i message n s"
  unfolding buffer_deliver_def buffer_wake_eq(2)[OF assms] by simp

text \<open>
  C16. Sending to a buffer without waiting, for a caller of the buffer's partition and a message of
  the buffer's size: without waiting receivers the message is appended to the buffer, or the call
  reports QUEUE_FULL and changes nothing; with a receiver waiting in an adequate receive call,
  the one the discipline picks gets the bytes in its own buffer, leaves the wait list and is
  READY with the result OK, and the FIFO is not touched, provided that its ready queue has room
  (\<open>has_room\<close>; what happens otherwise is C36).
\<close>

theorem buffer_send_delivers:
  assumes "kernel_inv s" "maxrtos_buffer_for_process i current s = Some b" "fifo_wf (buf_fifo b)"
    "message \<noteq> 0" "n = fifo_message_size (buf_fifo b)"
  shows "case maxrtos_kernel_buffer_send i message n 0 PTR current PTR s of (status, out, s') \<Rightarrow>
    (case next_waiter (buf_discipline b) (process_pool s) (wl_list (waitlists s (WL_Buffer_Receivers i))) of
       None \<Rightarrow>
         if fifo_count (buf_fifo b) < fifo_capacity (buf_fifo b)
         then status = MAXRTOS_OK \<and> fifo_list (buf_fifo (s_buffer_pool s' i)) (mem s')
             = fifo_list (buf_fifo b) (mem s) @ [mem_read (mem s) message (unat n)]
         else status = MAXRTOS_ERR_QUEUE_FULL \<and> s' = s
     | Some k \<Rightarrow>
         (\<forall>j out_message sz. pcb_ipc_operation (process_pool s k) = MAXRTOS_IPC_OP_BUFFER_RECEIVE j out_message sz
            \<and> n \<le> sz \<and> has_room s k \<longrightarrow>
            status = MAXRTOS_OK \<and> mem_read (mem s') out_message (unat n) = mem_read (mem s) message (unat n)
            \<and> wl_list (waitlists s' (WL_Buffer_Receivers i)) = remove1 k (wl_list (waitlists s (WL_Buffer_Receivers i)))
            \<and> pcb_state (process_pool s' k) = MAXRTOS_PROCESS_STATE_READY
            \<and> pcb_ipc_result (process_pool s' k) = MAXRTOS_OK \<and> s_buffer_pool s' = s_buffer_pool s))"
proof -
  from assms(2) have b: "b = s_buffer_pool s i" by (simp add: buffer_for_process_eq split: if_splits)
  obtain status s1 where d: "buffer_deliver i message n PTR s = (status, s1)" by (rule prod.exhaust)
  have code: "maxrtos_kernel_buffer_send i message n 0 PTR current PTR s = (status, None, s1)"
    using assms d by (simp add: maxrtos_kernel_buffer_send_def)
  show ?thesis
  proof (cases "next_waiter (buf_discipline b) (process_pool s) (wl_list (waitlists s (WL_Buffer_Receivers i)))")
    case None
    then have l: "wl_list (waitlists s (WL_Buffer_Receivers i)) = []" by simp
    have d': "(status, s1) = buffer_push i message n s" using d buffer_deliver_queue[OF assms(1) l] by simp
    note push = buffer_push_eq[of s i message n, OF assms(3)[unfolded b] assms(4) assms(5)[unfolded b]]
    from None show ?thesis
      unfolding code using push d' b by (cases "fifo_count (buf_fifo b) < fifo_capacity (buf_fifo b)") (auto dest: sym)
  next
    case (Some k)
    show ?thesis
      unfolding code prod.case Some option.case
    proof (intro allI impI)
      fix j out_message sz
      assume h: "pcb_ipc_operation (process_pool s k) = MAXRTOS_IPC_OP_BUFFER_RECEIVE j out_message sz
        \<and> n \<le> sz \<and> has_room s k"
      from buffer_deliver_direct[OF assms(1) Some[unfolded b], of j out_message sz n message] h d memcpy_read_dst
      show "status = MAXRTOS_OK \<and> mem_read (mem s1) out_message (unat n) = mem_read (mem s) message (unat n)
            \<and> wl_list (waitlists s1 (WL_Buffer_Receivers i)) = remove1 k (wl_list (waitlists s (WL_Buffer_Receivers i)))
            \<and> pcb_state (process_pool s1 k) = MAXRTOS_PROCESS_STATE_READY
            \<and> pcb_ipc_result (process_pool s1 k) = MAXRTOS_OK \<and> s_buffer_pool s1 = s_buffer_pool s" by simp
    qed
  qed
qed

text \<open>A pop that succeeds leaves a slot for the message of a blocked sender.\<close>

lemma buffer_pop_room:
  assumes "fifo_wf (buf_fifo (s_buffer_pool s i))" "buffer_pop i out n s = (MAXRTOS_OK, s1)"
  shows "fifo_wf (buf_fifo (s_buffer_pool s1 i))"
    "fifo_count (buf_fifo (s_buffer_pool s1 i)) < fifo_capacity (buf_fifo (s_buffer_pool s1 i))"
    "fifo_message_size (buf_fifo (s_buffer_pool s1 i)) = fifo_message_size (buf_fifo (s_buffer_pool s i))"
    "buf_discipline (s_buffer_pool s1 i) = buf_discipline (s_buffer_pool s i)"
proof -
  let ?f = "buf_fifo (s_buffer_pool s i)"
  let ?f' = "?f\<lparr>fifo_head := (fifo_head ?f + 1) mod fifo_capacity ?f, fifo_count := fifo_count ?f - 1\<rparr>"
  from assms(2) have nz: "fifo_count ?f \<noteq> 0" and s1: "s_buffer_pool s1 i = (s_buffer_pool s i)\<lparr>buf_fifo := ?f'\<rparr>"
    by (auto simp: buffer_pop_def maxrtos_kernel_fifo_pop_def upd_buffer_def split: if_splits)
  from assms(1) have le: "fifo_count ?f \<le> fifo_capacity ?f" and cap: "0 < fifo_capacity ?f" by (simp_all add: fifo_wf_def)
  have "fifo_count ?f - 1 < fifo_count ?f" using nz by (simp add: word_less_sub1 word_gt_0 measure_unat word_less_nat_alt)
  with le have lt: "fifo_count ?f - 1 < fifo_capacity ?f" by simp
  have "(fifo_head ?f + 1) mod fifo_capacity ?f < fifo_capacity ?f" using cap by (simp add: word_less_nat_alt unat_mod)
  with assms(1) lt show "fifo_wf (buf_fifo (s_buffer_pool s1 i))" by (simp add: s1 fifo_wf_def fifo_bytes_def)
  show "fifo_count (buf_fifo (s_buffer_pool s1 i)) < fifo_capacity (buf_fifo (s_buffer_pool s1 i))" using lt by (simp add: s1)
qed (use assms(2) in \<open>auto simp: buffer_pop_def maxrtos_kernel_fifo_pop_def upd_buffer_def split: if_splits\<close>)

text \<open>The sender that is next in line is admitted: its message joins the FIFO.\<close>

lemma buffer_admit_appends:
  assumes inv: "kernel_inv s" and wf: "fifo_wf (buf_fifo (s_buffer_pool s i))"
    and room: "fifo_count (buf_fifo (s_buffer_pool s i)) < fifo_capacity (buf_fifo (s_buffer_pool s i))"
    and k: "next_waiter (buf_discipline (s_buffer_pool s i)) (process_pool s)
        (wl_list (waitlists s (WL_Buffer_Senders i))) = Some k"
    and oper: "pcb_ipc_operation (process_pool s k) = MAXRTOS_IPC_OP_BUFFER_SEND j message n"
    and msg: "message \<noteq> 0" "n = fifo_message_size (buf_fifo (s_buffer_pool s i))"
  shows "fifo_list (buf_fifo (s_buffer_pool (buffer_admit i PTR s) i)) (mem (buffer_admit i PTR s))
    = fifo_list (buf_fifo (s_buffer_pool s i)) (mem s) @ [mem_read (mem s) message (unat n)]"
proof -
  from buffer_wake_eq(1)[OF inv k] obtain s1 where w:
    "maxrtos_buffer_wake_one (Some (WL_Buffer_Senders i)) (buf_discipline (s_buffer_pool s i)) PTR PTR s
      = (MAXRTOS_OK, Some k, Some (pcb_ipc_operation (process_pool s k)), s1)"
    "left_list (WL_Buffer_Senders i) k s s1" "kernel_inv s1" by blast
  have f: "s_buffer_pool s1 = s_buffer_pool s" "mem s1 = mem s" using w(2) by (simp_all add: left_list_def only_ipc_def)
  obtain st s2 where q: "buffer_push i message n s1 = (st, s2)" by (rule prod.exhaust)
  have push: "fifo_list (buf_fifo (s_buffer_pool s2 i)) (mem s2)
      = fifo_list (buf_fifo (s_buffer_pool s i)) (mem s) @ [mem_read (mem s) message (unat n)]"
    using buffer_push_eq(1)[of s1 i message n] wf room msg q f by simp
  have k2: "kernel_inv s2" using kernel.buffer_push_inv[OF w(3), of i message n] q by simp
  have "only_scheduling s2 (snd (maxrtos_ipc_resolve PTR k st s2))"
    using resolve_step[OF k2, of k PTR st] left_list_facts(3)[OF inv w(2)] buffer_push_pool(1)[of i message n s1] q by simp
  moreover have "buffer_admit i PTR s = snd (maxrtos_ipc_resolve PTR k st s2)"
    unfolding buffer_admit_def w(1) using oper q by simp
  ultimately show ?thesis using push by (simp add: only_scheduling_iff)
qed

text \<open>A process that is blocked has no queue place, and taking someone else out of a queue gives it none.\<close>

lemma blocked_not_queued:
  assumes "kernel_inv s" "i \<in> set (wl_list (waitlists s w))"
  shows "\<not> queued_in s i"
proof -
  note b = wait_okD(3,4)[OF kernel_invD(2)[OF assms(1)] assms(2)]
  note ok = kernel_invD(1)[OF assms(1), unfolded sched_inv_def]
  from sched_okD(1)[OF ok b(1)] have "pcb_partition_id (process_pool s i) < of_nat MAXRTOS_MAX_PARTITIONS"
    by (simp add: pcb_ok_def)
  from domain_okD(2)[OF part_okD(1)[OF sched_okD(3)[OF ok this]]] b(2) show ?thesis
    by (auto simp: queued_in_def in_ready_ids)
qed

lemma blocked_on_was_queued: "blocked_on w i wake oper n s s' \<Longrightarrow> queued_in s n"
  by (auto simp: blocked_on_def dequeued_def queued_in_def in_ready_ids)

lemma blocked_on_queued:
  assumes "blocked_on w i wake oper n s s'" "queued_in s' j"
  shows "queued_in s j"
proof -
  have part: "pcb_partition_id (process_pool s' l) = pcb_partition_id (process_pool s l)" for l
    using assms(1) by (simp add: blocked_on_def set_pcb_state_def)
  have "ready (scheduler_ctx s p) r = ready (scheduler_ctx s' p) r \<or> ready (scheduler_ctx s p) r = n # ready (scheduler_ctx s' p) r"
    for p r
    using assms(1) unfolding blocked_on_def dequeued_def by metis
  then have "x \<in> set (ready (scheduler_ctx s' p) r) \<Longrightarrow> x \<in> set (ready (scheduler_ctx s p) r)" for x p r
    by (metis list.set_intros(2))
  with assms(2) part show ?thesis unfolding queued_in_def in_ready_ids by metis
qed

text \<open>
  C36. A delivered message can be sent again. Suppose a sender that is running and may wait finds a
  receiver whose ready queue is full: the bytes are copied to the receiver, but the QUEUE_FULL of
  the ready queue is taken for a full buffer. The call then blocks the sender (PENDING) as a sender
  of the message that has already been delivered: the receiver is READY, without being queued, and
  has the bytes; the sender is BLOCKED at the tail of the senders with its message as operation; the
  FIFO is untouched. Whenever a later receive takes a message from the buffer while that sender is
  the next in line, it is admitted, and the bytes at its message address join the FIFO although
  they were delivered before.
\<close>

theorem buffer_send_duplicates_on_full_ready_queue:
  assumes "kernel_inv s" "maxrtos_buffer_for_process i current s = Some b" "message \<noteq> 0"
    "n = fifo_message_size (buf_fifo b)"
    "next_waiter (buf_discipline b) (process_pool s) (wl_list (waitlists s (WL_Buffer_Receivers i))) = Some k"
    "pcb_ipc_operation (process_pool s k) = MAXRTOS_IPC_OP_BUFFER_RECEIVE j out_message sz" "n \<le> sz" "\<not> has_room s k"
    and sender: "pcb_state (process_pool s current) = MAXRTOS_PROCESS_STATE_RUNNING"
      "pcb_partition_id (process_pool s k) = pcb_partition_id (process_pool s current)"
      "\<not> halted s (pcb_partition_id (process_pool s current))"
      "length (wl_list (waitlists s (WL_Buffer_Senders i))) < MAXRTOS_WAITLIST_MAX"
      "timeout \<noteq> 0" "timeout = MAXRTOS_TIMEOUT_INFINITE \<or> timeout < MAXRTOS_TICK_NONE - s_current_tick s"
  shows "case maxrtos_kernel_buffer_send i message n timeout PTR current PTR s of (status, out, s') \<Rightarrow>
    status = MAXRTOS_PENDING
    \<and> mem_read (mem s') out_message (unat n) = mem_read (mem s) message (unat n)
    \<and> pcb_state (process_pool s' k) = MAXRTOS_PROCESS_STATE_READY \<and> \<not> queued_in s' k
    \<and> pcb_state (process_pool s' current) = MAXRTOS_PROCESS_STATE_BLOCKED
    \<and> wl_list (waitlists s' (WL_Buffer_Senders i)) = wl_list (waitlists s (WL_Buffer_Senders i)) @ [current]
    \<and> pcb_ipc_operation (process_pool s' current) = MAXRTOS_IPC_OP_BUFFER_SEND i message n
    \<and> s_buffer_pool s' = s_buffer_pool s
    \<and> (\<forall>t r c out2 sz2 t1. kernel_inv t \<and> maxrtos_buffer_for_process i r t = Some c \<and> fifo_wf (buf_fifo c) \<and> out2 \<noteq> 0
         \<and> n = fifo_message_size (buf_fifo c) \<and> buffer_pop i out2 sz2 t = (MAXRTOS_OK, t1)
         \<and> next_waiter (buf_discipline c) (process_pool t) (wl_list (waitlists t (WL_Buffer_Senders i))) = Some current
         \<and> pcb_ipc_operation (process_pool t current) = MAXRTOS_IPC_OP_BUFFER_SEND i message n \<longrightarrow>
         (case maxrtos_kernel_buffer_receive i out2 sz2 wait PTR r PTR t of (status2, _, t2) \<Rightarrow>
            status2 = MAXRTOS_OK \<and> fifo_list (buf_fifo (s_buffer_pool t2 i)) (mem t2)
              = fifo_list (buf_fifo (s_buffer_pool t1 i)) (mem t1) @ [mem_read (mem t1) message (unat n)]))"
proof -
  from assms(2) have b: "b = s_buffer_pool s i" and al: "allocated (process_pool s) current"
    by (simp_all add: buffer_for_process_eq split: if_splits)
  have kl: "k \<in> set (wl_list (waitlists s (WL_Buffer_Receivers i)))"
    using assms(5) best_waiter_Some[of _ _ k] by (auto simp: next_waiter_def split: if_splits list.splits)
  note kb = wait_okD(3,4)[OF kernel_invD(2)[OF assms(1)] kl]
  have ck: "current \<noteq> k" using kb(2) sender(1) by auto
  obtain st s1 where d: "buffer_deliver i message n PTR s = (st, s1)" by (rule prod.exhaust)
  from buffer_deliver_direct[OF assms(1) assms(5)[unfolded b] assms(6,7), of message] d assms(8)
  have s1: "st = MAXRTOS_ERR_QUEUE_FULL" "mem s1 = memcpy (mem s) out_message message n" "s_buffer_pool s1 = s_buffer_pool s"
    "pcb_state (process_pool s1 k) = MAXRTOS_PROCESS_STATE_READY" "unqueued_only k (WL_Buffer_Receivers i) s s1" by simp_all
  note u = s1(5)[unfolded unqueued_only_def]
  have k1: "kernel_inv s1" using kernel.buffer_deliver_inv[OF assms(1), of i message n PTR] d by simp
  have c1: "process_pool s1 current = process_pool s current" using u ck by simp
  let ?part = "pcb_partition_id (process_pool s current)"
  obtain wake where t: "maxrtos_kernel_tick_after timeout PTR s1 = (MAXRTOS_OK, Some wake)"
    using sender(6) u by (cases "timeout = MAXRTOS_TIMEOUT_INFINITE") (simp_all add: maxrtos_kernel_tick_after_def not_le[symmetric])
  have "ready (scheduler_ctx s1 ?part) (unat (pcb_priority (process_pool s k))) \<noteq> []"
    using assms(8) sender(2) u by (auto simp: has_room_def)
  moreover have "unat (pcb_priority (process_pool s k)) \<le> 31"
    using sched_okD(1)[OF kernel_invD(1)[OF assms(1), unfolded sched_inv_def] kb(1)] by (simp add: pcb_ok_def word_le_nat_alt)
  ultimately have "top_priority (scheduler_ctx s1 ?part) \<noteq> None"
    by (auto simp: top_priority_def find_None_iff simp del: upt_Suc intro!: exI[of _ "unat (pcb_priority (process_pool s k))"])
  then obtain p where p: "top_priority (scheduler_ctx s1 ?part) = Some p" by blast
  from block_current_outcome[OF k1, of current "WL_Buffer_Senders i" wake "MAXRTOS_IPC_OP_BUFFER_SEND i message n"]
  obtain s2 nx where bl: "maxrtos_ipc_block_current PTR current (Some (WL_Buffer_Senders i)) wake
      (Some (MAXRTOS_IPC_OP_BUFFER_SEND i message n)) PTR s1 = (MAXRTOS_OK, Some nx, s2)" "kernel_inv s2" "only_ipc s1 s2"
    "blocked_on (WL_Buffer_Senders i) current wake (MAXRTOS_IPC_OP_BUFFER_SEND i message n) nx s1 s2"
    using al sender p u c1 by (auto simp: allocated_def)
  have code: "maxrtos_kernel_buffer_send i message n timeout PTR current PTR s = (MAXRTOS_PENDING, Some nx, s2)"
    using assms(2-4) sender(5) d s1(1) t bl(1) by (simp add: maxrtos_kernel_buffer_send_def)
  note same = blocked_on_same[OF bl(4)]
  have nk: "process_pool s2 k = process_pool s1 k \<or> k = nx"
    using bl(4) ck by (auto simp: blocked_on_def set_pcb_state_def)
  have q1: "\<not> queued_in s1 k" using blocked_not_queued[OF assms(1) kl] u by (simp add: queued_in_def)
  moreover have "k \<noteq> nx" using q1 blocked_on_was_queued[OF bl(4)] by auto
  ultimately have k2: "pcb_state (process_pool s2 k) = MAXRTOS_PROCESS_STATE_READY" "\<not> queued_in s2 k"
    using nk s1(4) blocked_on_queued[OF bl(4), of k] by auto
  have again: "case maxrtos_kernel_buffer_receive i out2 sz2 wait PTR r PTR t of (status2, _, t2) \<Rightarrow>
      status2 = MAXRTOS_OK \<and> fifo_list (buf_fifo (s_buffer_pool t2 i)) (mem t2)
        = fifo_list (buf_fifo (s_buffer_pool t1 i)) (mem t1) @ [mem_read (mem t1) message (unat n)]"
    if t: "kernel_inv t" "maxrtos_buffer_for_process i r t = Some c" "fifo_wf (buf_fifo c)" "out2 \<noteq> 0"
      "n = fifo_message_size (buf_fifo c)" "buffer_pop i out2 sz2 t = (MAXRTOS_OK, t1)"
      "next_waiter (buf_discipline c) (process_pool t) (wl_list (waitlists t (WL_Buffer_Senders i))) = Some current"
      "pcb_ipc_operation (process_pool t current) = MAXRTOS_IPC_OP_BUFFER_SEND i message n" for t r c out2 sz2 t1
  proof -
    from t(2) have c: "c = s_buffer_pool t i" by (simp add: buffer_for_process_eq split: if_splits)
    note pop = buffer_pop_room[OF t(3)[unfolded c] t(6)]
    have t1: "kernel_inv t1" "process_pool t1 = process_pool t" "waitlists t1 = waitlists t"
      using kernel.buffer_pop_inv[OF t(1), of i out2 sz2] buffer_pop_pool(1,2)[of i out2 sz2 t] t(6) by simp_all
    have "maxrtos_kernel_buffer_receive i out2 sz2 wait PTR r PTR t = (MAXRTOS_OK, None, buffer_admit i PTR t1)"
      using t(2,4,6) by (simp add: maxrtos_kernel_buffer_receive_def)
    with buffer_admit_appends[OF t1(1) pop(1,2), of current i message n] t(5,7,8) t1(2,3) pop(3,4) c assms(3)
    show ?thesis by simp
  qed
  have m: "mem s2 = mem s1" "s_buffer_pool s2 = s_buffer_pool s1" using bl(3) by (simp_all add: only_ipc_def)
  show ?thesis
    unfolding code prod.case
  proof (intro conjI allI impI, goal_cases)
    case 2
    show ?case by (simp add: m s1(2) memcpy_read_dst)
  next
    case 6
    show ?case using same(6) u by simp
  next
    case (9 t r c out2 sz2 t1)
    then show ?case by (elim conjE) (rule again)
  qed (use k2 same m s1(3) in simp_all)
qed

subsection \<open>Examples\<close>

text \<open>Buffer 0 of partition 0 holds two messages of four bytes; process 9 waits to receive one.\<close>

definition example_buffer :: kstate where
  "example_buffer = snd (snd (maxrtos_buffer_create 0 4 2 MAXRTOS_QUEUING_PRIORITY PTR
     (example_state\<lparr>mem := (\<lambda>a. ucast a)\<rparr>)))"

definition example_receiving :: kstate where
  "example_receiving = snd (snd (maxrtos_kernel_buffer_receive 0 0x20010000 4 50 PTR 9 PTR example_buffer))"

lemma example_receiving_inv: "kernel_inv example_receiving"
proof -
  have "\<not> buf_in_use (s_buffer_pool (example_state\<lparr>mem := (\<lambda>a. ucast a)\<rparr>) 0)"
    by (simp add: example_state_def blank_state_def)
  have st: "\<forall>i < of_nat MAXRTOS_MAX_BUFFERS. buffer_storage (example_state\<lparr>mem := (\<lambda>a. ucast a)\<rparr>) i \<noteq> 0"
  proof (intro allI impI)
    fix i :: u32 assume "i < of_nat MAXRTOS_MAX_BUFFERS"
    then have "i \<in> set (ids_below 8)" by simp
    moreover have "list_all (\<lambda>i. buffer_storage (example_state\<lparr>mem := (\<lambda>a. ucast a)\<rparr>) i \<noteq> 0) (ids_below 8)" by code_simp
    ultimately show "buffer_storage (example_state\<lparr>mem := (\<lambda>a. ucast a)\<rparr>) i \<noteq> 0" unfolding list_all_iff by blast
  qed
  have p: "pools_ok (example_state\<lparr>mem := (\<lambda>a. ucast a)\<rparr>)"
    using example_pools_ok by (simp add: pools_ok_def example_state_def blank_state_def wl_list_def)
  have k: "kernel_inv (example_state\<lparr>mem := (\<lambda>a. ucast a)\<rparr>)" using example_kernel_inv by simp
  have "kernel_inv example_buffer"
    unfolding example_buffer_def
    by (rule conjunct1[OF conjunct2[OF conjunct2[OF conjunct2[OF conjunct2[OF
      buffer_operations_keep_invariant[OF k p st insertI1]]]]]])
  then show ?thesis unfolding example_receiving_def by (rule kernel.buffer_receive_inv)
qed

lemma buffer_send_delivers_witness:
  "case maxrtos_kernel_buffer_send 0 0x10 4 0 PTR 2 PTR example_receiving of (status, out, s') \<Rightarrow>
    status = MAXRTOS_OK \<and> mem_read (mem s') 0x20010000 4 = [0x10, 0x11, 0x12, 0x13]"
proof -
  let ?s = example_receiving
  have "maxrtos_buffer_for_process 0 2 ?s \<noteq> None" by code_simp
  then obtain b where b: "maxrtos_buffer_for_process 0 2 ?s = Some b" by auto
  then have b': "b = s_buffer_pool ?s 0" by (simp add: buffer_for_process_eq split: if_splits)
  have "fifo_message_size (buf_fifo b) = 4" "fifo_capacity (buf_fifo b) = 2" "fifo_head (buf_fifo b) = 0"
    "fifo_count (buf_fifo b) = 0" unfolding b' by code_simp+
  then have wf: "fifo_wf (buf_fifo b)" by (simp add: fifo_wf_def fifo_bytes_def)
  have sz: "4 = fifo_message_size (buf_fifo b)" unfolding b' by code_simp
  have nx: "next_waiter (buf_discipline b) (process_pool ?s) (wl_list (waitlists ?s (WL_Buffer_Receivers 0))) = Some 9"
    unfolding b' by code_simp
  have o: "pcb_ipc_operation (process_pool ?s 9) = MAXRTOS_IPC_OP_BUFFER_RECEIVE 0 0x20010000 4" by code_simp
  have r: "has_room ?s 9" by code_simp
  have m: "mem_read (mem ?s) 0x10 4 = [0x10, 0x11, 0x12, 0x13]" by code_simp
  have n0: "(0x10 :: u32) \<noteq> 0" by simp
  from buffer_send_delivers[OF example_receiving_inv b wf n0 sz] nx o r m show ?thesis
    by (simp split: prod.splits)
qed

text \<open>
  Process 8 waits for a message in partition 0, whose ready queue of priority 3 is full, and 9 sends
  one and blocks. Once the buffer holds another message, process 0 receives that, and the message
  of 9, which 8 already has, joins the FIFO.
\<close>

definition example_crowded_buffer :: kstate where
  "example_crowded_buffer = (crowded_state (WL_Buffer_Receivers 0) (MAXRTOS_IPC_OP_BUFFER_RECEIVE 0 0x20010000 4))
    \<lparr>s_buffer_pool := (\<lambda>_. \<lparr>buf_in_use = True, buf_partition_id = 0, buf_discipline = MAXRTOS_QUEUING_FIFO,
       buf_fifo = blank_fifo\<lparr>fifo_buffer := 0x20020000, fifo_message_size := 4, fifo_capacity := 2\<rparr>\<rparr>)\<rparr>"

definition one_more_message :: "kstate \<Rightarrow> kstate" where
  "one_more_message s = upd_buffer 0 (\<lambda>b. b\<lparr>buf_fifo := (buf_fifo b)\<lparr>fifo_count := 1\<rparr>\<rparr>) s"

lemma buffer_send_duplicates_on_full_ready_queue_witness:
  "\<exists>out s'. maxrtos_kernel_buffer_send 0 0x10 4 50 PTR 9 PTR example_crowded_buffer = (MAXRTOS_PENDING, out, s')
    \<and> mem_read (mem s') 0x20010000 4 = mem_read (mem example_crowded_buffer) 0x10 4
    \<and> wl_list (waitlists s' (WL_Buffer_Senders 0)) = [9]
    \<and> (\<exists>t1 out2 t2. maxrtos_kernel_buffer_receive 0 0x20030000 4 0 PTR 0 PTR (one_more_message s') = (MAXRTOS_OK, out2, t2)
         \<and> buffer_pop 0 0x20030000 4 (one_more_message s') = (MAXRTOS_OK, t1)
         \<and> last (fifo_list (buf_fifo (s_buffer_pool t2 0)) (mem t2)) = mem_read (mem t1) 0x10 4)"
proof -
  let ?s = example_crowded_buffer
  let ?b = "s_buffer_pool ?s 0"
  have k: "kernel_inv ?s" using crowded_inv by (simp add: example_crowded_buffer_def)
  have b: "maxrtos_buffer_for_process 0 9 ?s = Some ?b"
    by (simp add: buffer_for_process_eq example_crowded_buffer_def crowded_facts)
  have nx: "next_waiter (buf_discipline ?b) (process_pool ?s) (wl_list (waitlists ?s (WL_Buffer_Receivers 0))) = Some 8"
    by (simp add: next_waiter_def example_crowded_buffer_def crowded_facts)
  have o: "pcb_ipc_operation (process_pool ?s 8) = MAXRTOS_IPC_OP_BUFFER_RECEIVE 0 0x20010000 4"
    by (simp add: example_crowded_buffer_def crowded_facts)
  have f: "\<not> has_room ?s 8" using crowded_facts(1) by (simp add: has_room_def example_crowded_buffer_def)
  have sz: "4 = fifo_message_size (buf_fifo ?b)" by (simp add: example_crowded_buffer_def)
  have r: "pcb_state (process_pool ?s 9) = MAXRTOS_PROCESS_STATE_RUNNING"
    "pcb_partition_id (process_pool ?s 8) = pcb_partition_id (process_pool ?s 9)"
    by (simp_all add: example_crowded_buffer_def crowded_facts)
  have live: "\<not> halted ?s (pcb_partition_id (process_pool ?s 9))" "(50 :: u32) < MAXRTOS_TICK_NONE - s_current_tick ?s"
    "wl_list (waitlists ?s (WL_Buffer_Senders 0)) = []" by code_simp+
  obtain st out s' where e: "maxrtos_kernel_buffer_send 0 0x10 4 50 PTR 9 PTR ?s = (st, out, s')" by (rule prod_cases3)
  have h: "(0x10 :: u32) \<noteq> 0" "(4 :: u32) \<le> 4" "length (wl_list (waitlists ?s (WL_Buffer_Senders 0))) < MAXRTOS_WAITLIST_MAX"
    "(50 :: u32) \<noteq> 0" "50 = MAXRTOS_TIMEOUT_INFINITE \<or> (50 :: u32) < MAXRTOS_TICK_NONE - s_current_tick ?s"
    using live by simp_all
  note dup = buffer_send_duplicates_on_full_ready_queue
    [OF k b h(1) sz nx o h(2) f r live(1) h(3-5), of 0, unfolded e prod.case]
  then have s': "st = MAXRTOS_PENDING" "mem_read (mem s') 0x20010000 (unat (4 :: u32)) = mem_read (mem ?s) 0x10 (unat (4 :: u32))"
    "wl_list (waitlists s' (WL_Buffer_Senders 0)) = wl_list (waitlists ?s (WL_Buffer_Senders 0)) @ [9]"
    "pcb_ipc_operation (process_pool s' 9) = MAXRTOS_IPC_OP_BUFFER_SEND 0 0x10 4" "s_buffer_pool s' = s_buffer_pool ?s"
    by - ((elim conjE, assumption)+)
  let ?t = "one_more_message s'"
  have k': "kernel_inv s' \<and> same_config ?s s'"
    using config.buffer_send_inv[of ?s ?s 0 "0x10" 4 50 PTR 9 PTR, OF conjI[OF k same_config_refl]] unfolding e snd_conv .
  have t: "kernel_inv ?t" using conjunct1[OF k'] by (simp add: one_more_message_def upd_buffer_def)
  have "allocated (process_pool ?s) 0" "pcb_partition_id (process_pool ?s 0) = 0"
    by (simp_all add: example_crowded_buffer_def crowded_facts) (simp add: crowded_state_def crowded_pool_def example_pcb_def allocated_def)
  then have al: "allocated (process_pool s') 0" "pcb_partition_id (process_pool s' 0) = 0"
    using conjunct2[OF k'] unfolding same_config_def pcb_config_def by (blast, metis prod.inject)
  have tb: "s_buffer_pool ?t 0 = ?b\<lparr>buf_fifo := (buf_fifo ?b)\<lparr>fifo_count := 1\<rparr>\<rparr>"
    by (simp add: one_more_message_def upd_buffer_def s'(5))
  have c: "maxrtos_buffer_for_process 0 0 ?t = Some (s_buffer_pool ?t 0)"
    using al by (simp add: buffer_for_process_eq one_more_message_def upd_buffer_def s'(5) example_crowded_buffer_def)
  have w: "fifo_wf (buf_fifo (s_buffer_pool ?t 0))" "4 = fifo_message_size (buf_fifo (s_buffer_pool ?t 0))"
    by (simp_all add: tb example_crowded_buffer_def fifo_wf_def fifo_bytes_def blank_fifo_def)
  obtain t1 where pop: "buffer_pop 0 0x20030000 4 ?t = (MAXRTOS_OK, t1)"
    using w by (simp add: buffer_pop_def maxrtos_kernel_fifo_pop_def tb)
  have nt: "next_waiter (buf_discipline (s_buffer_pool ?t 0)) (process_pool ?t) (wl_list (waitlists ?t (WL_Buffer_Senders 0))) = Some 9"
    "pcb_ipc_operation (process_pool ?t 9) = MAXRTOS_IPC_OP_BUFFER_SEND 0 0x10 4"
    using s'(3,4) live(3) by (simp_all add: tb one_more_message_def upd_buffer_def next_waiter_def example_crowded_buffer_def)
  obtain st2 out2 t2 where e2: "maxrtos_kernel_buffer_receive 0 0x20030000 4 0 PTR 0 PTR ?t = (st2, out2, t2)" by (rule prod_cases3)
  have pre: "kernel_inv ?t \<and> maxrtos_buffer_for_process 0 0 ?t = Some (s_buffer_pool ?t 0)
      \<and> fifo_wf (buf_fifo (s_buffer_pool ?t 0)) \<and> (0x20030000 :: u32) \<noteq> 0
      \<and> 4 = fifo_message_size (buf_fifo (s_buffer_pool ?t 0)) \<and> buffer_pop 0 0x20030000 4 ?t = (MAXRTOS_OK, t1)
      \<and> next_waiter (buf_discipline (s_buffer_pool ?t 0)) (process_pool ?t) (wl_list (waitlists ?t (WL_Buffer_Senders 0))) = Some 9
      \<and> pcb_ipc_operation (process_pool ?t 9) = MAXRTOS_IPC_OP_BUFFER_SEND 0 0x10 4"
    by (intro conjI t c w pop nt) simp
  note again = dup[THEN conjunct2, THEN conjunct2, THEN conjunct2, THEN conjunct2, THEN conjunct2, THEN conjunct2,
    THEN conjunct2, THEN conjunct2, rule_format, OF pre, unfolded e2 prod.case]
  have "st2 = MAXRTOS_OK \<and> fifo_list (buf_fifo (s_buffer_pool t2 0)) (mem t2)
      = fifo_list (buf_fifo (s_buffer_pool t1 0)) (mem t1) @ [mem_read (mem t1) 0x10 (unat (4 :: u32))]"
    using again by simp
  with e e2 pop s'(1-3) live(3) show ?thesis by simp
qed

end
