(* ===== verification/Queue_Port.thy ===== *)
theory Queue_Port
  imports Ipc_Contract
begin

text \<open>
  Inter-partition queuing ports (queue_port.c). A port is named by its pool index; the partitions
  that may send to it and receive from it are bit masks. Its FIFO uses storage that the creator
  supplies. Blocked receivers and senders are served in arrival order.
\<close>

record maxrtos_queue_port_status_t =
  qst_message_size :: u32
  qst_capacity :: u32
  qst_nb_message :: u32
  qst_waiting_receivers :: u32
  qst_waiting_senders :: u32

definition upd_port :: "u32 \<Rightarrow> (maxrtos_queue_port_t \<Rightarrow> maxrtos_queue_port_t) \<Rightarrow> kstate \<Rightarrow> kstate" where
  "upd_port i f s = s\<lparr>s_port_pool := (s_port_pool s)(i := f (s_port_pool s i))\<rparr>"

definition MAXRTOS_PARTITION_MASK_VALID :: "u32 \<Rightarrow> bool" where
  "MAXRTOS_PARTITION_MASK_VALID msk \<longleftrightarrow> drop_bit MAXRTOS_MAX_PARTITIONS msk = 0"

definition maxrtos_queue_port_pool_init :: "kstate \<Rightarrow> kstate" where
  "maxrtos_queue_port_pool_init s =
     fold (\<lambda>i s. waitlist_reset (WL_Port_Senders i) (waitlist_reset (WL_Port_Receivers i)
         (upd_port i (\<lambda>p. p\<lparr>qp_in_use := False, qp_sender_mask := 0, qp_receiver_mask := 0\<rparr>) s)))
       (ids_below MAXRTOS_MAX_QUEUE_PORTS) s"

definition maxrtos_queue_port_for_process ::
    "u32 \<Rightarrow> u32 \<Rightarrow> bool \<Rightarrow> bool \<Rightarrow> kstate \<Rightarrow> maxrtos_queue_port_t option"
where
  "maxrtos_queue_port_for_process i pid sending receiving s =
     (case get_pcb pid s of
        None \<Rightarrow> None
      | Some pcb \<Rightarrow>
          if pcb_partition_id pcb < of_nat MAXRTOS_MAX_PARTITIONS \<and> i < of_nat MAXRTOS_MAX_QUEUE_PORTS
             \<and> qp_in_use (s_port_pool s i) then
            let allowed0 = (if sending then qp_sender_mask (s_port_pool s i) else 0);
                allowed = (if receiving then allowed0 OR qp_receiver_mask (s_port_pool s i) else allowed0)
            in if allowed AND push_bit (unat (pcb_partition_id pcb)) 1 \<noteq> 0 then Some (s_port_pool s i) else None
          else None)"

text \<open>One round of the loop of \<open>maxrtos_queue_port_create\<close>; it ends at the first free slot.\<close>

definition port_create_step ::
    "u32 \<Rightarrow> u32 \<Rightarrow> u32 \<Rightarrow> u32 \<Rightarrow> u32 \<Rightarrow> u32 \<Rightarrow> u32 \<Rightarrow>
     maxrtos_status \<times> u32 option \<times> kstate \<Rightarrow> maxrtos_status \<times> u32 option \<times> kstate"
where
  "port_create_step storage storage_size message_size capacity sender_mask receiver_mask i = (\<lambda>(status, out, s).
     if status \<noteq> MAXRTOS_OK \<and> status \<noteq> MAXRTOS_ERR_INVALID_ARG \<and> \<not> qp_in_use (s_port_pool s i) then
       (case maxrtos_kernel_fifo_init PTR storage storage_size message_size capacity (qp_fifo (s_port_pool s i)) of
          (st, f) \<Rightarrow>
            let s1 = upd_port i (\<lambda>p. p\<lparr>qp_fifo := f\<rparr>) s in
            if st = MAXRTOS_OK then
              (st, Some i,
               waitlist_reset (WL_Port_Senders i) (waitlist_reset (WL_Port_Receivers i)
                 (upd_port i (\<lambda>p. p\<lparr>qp_in_use := True, qp_sender_mask := sender_mask,
                    qp_receiver_mask := receiver_mask\<rparr>) s1)))
            else (st, out, s1))
     else (status, out, s))"

definition maxrtos_queue_port_create ::
    "u32 \<Rightarrow> u32 \<Rightarrow> u32 \<Rightarrow> u32 \<Rightarrow> u32 \<Rightarrow> u32 \<Rightarrow> ptr \<Rightarrow> kstate \<Rightarrow> maxrtos_status \<times> u32 option \<times> kstate"
where
  "maxrtos_queue_port_create storage storage_size message_size capacity sender_mask receiver_mask outp s =
     (if storage \<noteq> 0 \<and> outp \<noteq> NULL \<and> sender_mask \<noteq> 0 \<and> receiver_mask \<noteq> 0
         \<and> MAXRTOS_PARTITION_MASK_VALID sender_mask \<and> MAXRTOS_PARTITION_MASK_VALID receiver_mask
      then fold (port_create_step storage storage_size message_size capacity sender_mask receiver_mask)
             (ids_below MAXRTOS_MAX_QUEUE_PORTS) (MAXRTOS_ERR_POOL_FULL, None, s)
      else (MAXRTOS_ERR_INVALID_ARG, None, s))"

definition maxrtos_kernel_queue_port_count :: "u32 \<Rightarrow> u32 \<Rightarrow> kstate \<Rightarrow> u32" where
  "maxrtos_kernel_queue_port_count i current s =
     (case maxrtos_queue_port_for_process i current True True s of
        None \<Rightarrow> 0
      | Some port \<Rightarrow> maxrtos_kernel_fifo_count PTR (qp_fifo port))"

definition maxrtos_kernel_queue_port_get_status ::
    "u32 \<Rightarrow> u32 \<Rightarrow> ptr \<Rightarrow> kstate \<Rightarrow> maxrtos_status \<times> maxrtos_queue_port_status_t option"
where
  "maxrtos_kernel_queue_port_get_status i current outp s =
     (if outp \<noteq> NULL then
        (case maxrtos_queue_port_for_process i current True True s of
           None \<Rightarrow> (MAXRTOS_ERR_INVALID_ID, None)
         | Some port \<Rightarrow>
             (MAXRTOS_OK, Some \<lparr>qst_message_size = fifo_message_size (qp_fifo port),
                qst_capacity = fifo_capacity (qp_fifo port),
                qst_nb_message = maxrtos_kernel_fifo_count PTR (qp_fifo port),
                qst_waiting_receivers = of_nat (maxrtos_waitlist_count PTR (waitlists s (WL_Port_Receivers i))),
                qst_waiting_senders = of_nat (maxrtos_waitlist_count PTR (waitlists s (WL_Port_Senders i)))\<rparr>))
      else (MAXRTOS_ERR_INVALID_ARG, None))"

definition port_push :: "u32 \<Rightarrow> u32 \<Rightarrow> u32 \<Rightarrow> kstate \<Rightarrow> maxrtos_status \<times> kstate" where
  "port_push i message message_size s =
     (case maxrtos_kernel_fifo_push PTR message message_size (qp_fifo (s_port_pool s i)) (mem s) of
        (status, f, m) \<Rightarrow> (status, (upd_port i (\<lambda>p. p\<lparr>qp_fifo := f\<rparr>) s)\<lparr>mem := m\<rparr>))"

definition port_pop :: "u32 \<Rightarrow> u32 \<Rightarrow> u32 \<Rightarrow> kstate \<Rightarrow> maxrtos_status \<times> kstate" where
  "port_pop i out_message buffer_size s =
     (case maxrtos_kernel_fifo_pop PTR out_message buffer_size (qp_fifo (s_port_pool s i)) (mem s) of
        (status, f, m) \<Rightarrow> (status, (upd_port i (\<lambda>p. p\<lparr>qp_fifo := f\<rparr>) s)\<lparr>mem := m\<rparr>))"

text \<open>The first half of a send: the message goes to a waiting receiver or into the FIFO.\<close>

definition port_deliver :: "u32 \<Rightarrow> u32 \<Rightarrow> u32 \<Rightarrow> ptr \<Rightarrow> kstate \<Rightarrow> maxrtos_status \<times> kstate" where
  "port_deliver i message message_size tablep s =
     (case maxrtos_ipc_wake_one (Some (WL_Port_Receivers i)) PTR PTR s of
        (MAXRTOS_OK, Some receiver_id, receiver_op, s1) \<Rightarrow>
          (case receiver_op of
             Some (MAXRTOS_IPC_OP_QUEUE_RECEIVE out_message buffer_size) \<Rightarrow>
               if buffer_size \<ge> message_size
               then maxrtos_ipc_resolve tablep receiver_id MAXRTOS_OK
                      (s1\<lparr>mem := memcpy (mem s1) out_message message message_size\<rparr>)
               else port_push i message message_size
                      (snd (maxrtos_ipc_resolve tablep receiver_id MAXRTOS_ERR_INVALID_STATE s1))
           | _ \<Rightarrow> port_push i message message_size
                    (snd (maxrtos_ipc_resolve tablep receiver_id MAXRTOS_ERR_INVALID_STATE s1)))
      | (_, _, _, s1) \<Rightarrow> port_push i message message_size s1)"

definition maxrtos_kernel_queue_port_send ::
    "u32 \<Rightarrow> u32 \<Rightarrow> u32 \<Rightarrow> u32 \<Rightarrow> ptr \<Rightarrow> u32 \<Rightarrow> ptr \<Rightarrow> kstate \<Rightarrow> maxrtos_status \<times> u32 option \<times> kstate"
where
  "maxrtos_kernel_queue_port_send i message message_size timeout tablep current outp s =
     (if message \<noteq> 0 \<and> tablep \<noteq> NULL \<and> outp \<noteq> NULL then
        (case maxrtos_queue_port_for_process i current True False s of
           None \<Rightarrow> (MAXRTOS_ERR_INVALID_ID, None, s)
         | Some port \<Rightarrow>
             if message_size = fifo_message_size (qp_fifo port) then
               (case port_deliver i message message_size tablep s of
                  (status, s1) \<Rightarrow>
                    if status = MAXRTOS_ERR_QUEUE_FULL \<and> timeout \<noteq> 0 then
                      (case maxrtos_kernel_tick_after timeout PTR s1 of
                         (status', wake) \<Rightarrow>
                           if status' = MAXRTOS_OK then
                             (case maxrtos_ipc_block_current tablep current (Some (WL_Port_Senders i))
                                     (out_val MAXRTOS_TICK_NONE wake)
                                     (Some (MAXRTOS_IPC_OP_QUEUE_SEND message message_size)) outp s1 of
                                (st, out, s2) \<Rightarrow>
                                  (if st = MAXRTOS_OK then MAXRTOS_PENDING
                                   else if st = MAXRTOS_ERR_QUEUE_EMPTY then MAXRTOS_ERR_QUEUE_FULL
                                   else st, out, s2))
                           else (status', None, s1))
                    else (status, None, s1))
             else (MAXRTOS_ERR_INVALID_ARG, None, s))
      else (MAXRTOS_ERR_INVALID_ARG, None, s))"

text \<open>A slot was freed: admit one blocked sender.\<close>

definition port_admit :: "u32 \<Rightarrow> ptr \<Rightarrow> kstate \<Rightarrow> kstate" where
  "port_admit i tablep s =
     (case maxrtos_ipc_wake_one (Some (WL_Port_Senders i)) PTR PTR s of
        (MAXRTOS_OK, Some sender_id, sender_op, s1) \<Rightarrow>
          (case (case sender_op of
                   Some (MAXRTOS_IPC_OP_QUEUE_SEND message message_size) \<Rightarrow> port_push i message message_size s1
                 | _ \<Rightarrow> (MAXRTOS_ERR_INVALID_STATE, s1)) of
             (sender_result, s2) \<Rightarrow> snd (maxrtos_ipc_resolve tablep sender_id sender_result s2))
      | (_, _, _, s1) \<Rightarrow> s1)"

definition maxrtos_kernel_queue_port_receive ::
    "u32 \<Rightarrow> u32 \<Rightarrow> u32 \<Rightarrow> u32 \<Rightarrow> ptr \<Rightarrow> u32 \<Rightarrow> ptr \<Rightarrow> kstate \<Rightarrow> maxrtos_status \<times> u32 option \<times> kstate"
where
  "maxrtos_kernel_queue_port_receive i out_message buffer_size timeout tablep current outp s =
     (if out_message \<noteq> 0 \<and> tablep \<noteq> NULL \<and> outp \<noteq> NULL then
        (case maxrtos_queue_port_for_process i current False True s of
           None \<Rightarrow> (MAXRTOS_ERR_INVALID_ID, None, s)
         | Some port \<Rightarrow>
             (case port_pop i out_message buffer_size s of
                (status, s1) \<Rightarrow>
                  if status = MAXRTOS_OK then (status, None, port_admit i tablep s1)
                  else if status = MAXRTOS_ERR_QUEUE_EMPTY \<and> timeout \<noteq> 0 then
                    (case maxrtos_kernel_tick_after timeout PTR s1 of
                       (status', wake) \<Rightarrow>
                         if status' = MAXRTOS_OK then
                           (case maxrtos_ipc_block_current tablep current (Some (WL_Port_Receivers i))
                                   (out_val MAXRTOS_TICK_NONE wake)
                                   (Some (MAXRTOS_IPC_OP_QUEUE_RECEIVE out_message buffer_size)) outp s1 of
                              (st, out, s2) \<Rightarrow> (if st = MAXRTOS_OK then MAXRTOS_PENDING else st, out, s2))
                         else (status', None, s1))
                  else (status, None, s1)))
      else (MAXRTOS_ERR_INVALID_ARG, None, s))"

subsection \<open>What every port operation keeps\<close>

lemma port_push_pool [simp]: "process_pool (snd (port_push i message n s)) = process_pool s"
  "waitlists (snd (port_push i message n s)) = waitlists s"
  "scheduler_ctx (snd (port_push i message n s)) = scheduler_ctx s"
  "qp_in_use (s_port_pool (snd (port_push i message n s)) j) = qp_in_use (s_port_pool s j)"
  by (simp_all add: port_push_def upd_port_def split: prod.split)

lemma port_pop_pool [simp]: "process_pool (snd (port_pop i out n s)) = process_pool s"
  "waitlists (snd (port_pop i out n s)) = waitlists s"
  "scheduler_ctx (snd (port_pop i out n s)) = scheduler_ctx s"
  "qp_in_use (s_port_pool (snd (port_pop i out n s)) j) = qp_in_use (s_port_pool s j)"
  by (simp_all add: port_pop_def upd_port_def split: prod.split)

lemma port_for_process_Some:
  "maxrtos_queue_port_for_process i pid sending receiving s = Some port \<Longrightarrow>
   port = s_port_pool s i \<and> qp_in_use (s_port_pool s i) \<and> allocated (process_pool s) pid"
  by (auto simp: maxrtos_queue_port_for_process_def process_get_eq Let_def split: if_splits)

lemma ports_pools: "pools_of s' = pools_of s \<Longrightarrow> s_port_pool s' = s_port_pool s \<and> mem s' = mem s"
  by (simp add: pools_of_def)

lemma port_deliver_in_use:
  "qp_in_use (s_port_pool (snd (port_deliver i message n tablep s)) j) = qp_in_use (s_port_pool s j)"
proof -
  obtain status out oper s1 where r: "maxrtos_ipc_wake_one (Some (WL_Port_Receivers i)) PTR PTR s = (status, out, oper, s1)"
    by (metis prod_cases4)
  have s1: "s_port_pool s1 = s_port_pool s" using wake_one_pools[OF r] ports_pools by blast
  have res: "s_port_pool (snd (maxrtos_ipc_resolve tablep k result t)) = s_port_pool t" for k result t
    using ports_pools[OF resolve_pools] by blast
  show ?thesis
    unfolding port_deliver_def r
    by (simp add: s1 res split: maxrtos_status.split option.split maxrtos_ipc_operation_t.split)
qed

context wake_invariant
begin

lemma upd_port_inv: "I s \<Longrightarrow> (\<And>p. qp_in_use (f p) = qp_in_use p) \<Longrightarrow> I (upd_port i f s)"
  unfolding upd_port_def by (rule ports) simp_all

lemma port_push_inv:
  assumes "I s"
  shows "I (snd (port_push i message n s))"
proof (cases "maxrtos_kernel_fifo_push PTR message n (qp_fifo (s_port_pool s i)) (mem s)")
  case (fields st f m)
  have "I (upd_port i (\<lambda>b. b\<lparr>qp_fifo := f\<rparr>) s)" by (rule upd_port_inv[OF assms]) simp
  with fields show ?thesis by (simp add: port_push_def bytes)
qed

lemma port_pop_inv:
  assumes "I s"
  shows "I (snd (port_pop i out n s))"
proof (cases "maxrtos_kernel_fifo_pop PTR out n (qp_fifo (s_port_pool s i)) (mem s)")
  case (fields st f m)
  have "I (upd_port i (\<lambda>b. b\<lparr>qp_fifo := f\<rparr>) s)" by (rule upd_port_inv[OF assms]) simp
  with fields show ?thesis by (simp add: port_pop_def bytes)
qed

lemma port_deliver_inv:
  assumes "I s"
  shows "I (snd (port_deliver i message n tablep s))"
proof -
  obtain status out oper s1 where r: "maxrtos_ipc_wake_one (Some (WL_Port_Receivers i)) PTR PTR s = (status, out, oper, s1)"
    by (metis prod_cases4)
  note w = wake[OF assms r]
  show ?thesis
  proof (cases "status = MAXRTOS_OK")
    case False
    with w show ?thesis unfolding port_deliver_def r by (cases status) (simp_all add: port_push_inv)
  next
    case True
    with w obtain k where k: "out = Some k" "off (process_pool s1) k" by blast
    have I1: "I s1" using w by blast
    have I2: "I (snd (maxrtos_ipc_resolve tablep k result (s1\<lparr>mem := m\<rparr>)))" for result m
      by (rule resolve) (use bytes[OF I1] k(2) in simp_all)
    have I3: "I (snd (maxrtos_ipc_resolve tablep k result s1))" for result
      by (rule resolve[OF I1 k(2)])
    show ?thesis
      unfolding port_deliver_def r True k(1)
      by (simp add: I2 port_push_inv[OF I3] split: option.split maxrtos_ipc_operation_t.split)
  qed
qed

lemma port_admit_inv:
  assumes "I s"
  shows "I (port_admit i tablep s)"
proof -
  obtain status out oper s1 where r: "maxrtos_ipc_wake_one (Some (WL_Port_Senders i)) PTR PTR s = (status, out, oper, s1)"
    by (metis prod_cases4)
  note w = wake[OF assms r]
  show ?thesis
  proof (cases "status = MAXRTOS_OK")
    case False
    with w show ?thesis unfolding port_admit_def r by (cases status) simp_all
  next
    case True
    with w obtain k where k: "out = Some k" "off (process_pool s1) k" by blast
    have I1: "I s1" using w by blast
    define q where "q = (case oper of Some (MAXRTOS_IPC_OP_QUEUE_SEND message message_size) \<Rightarrow>
      port_push i message message_size s1 | _ \<Rightarrow> (MAXRTOS_ERR_INVALID_STATE, s1))"
    have q: "I (snd q)" "process_pool (snd q) = process_pool s1"
      unfolding q_def by (simp_all add: I1 port_push_inv split: option.split maxrtos_ipc_operation_t.split)
    have "I (snd (maxrtos_ipc_resolve tablep k result (snd q)))" for result
      by (rule resolve[OF q(1)]) (simp add: q(2) k(2))
    then show ?thesis
      unfolding port_admit_def r True k(1) by (simp add: q_def[symmetric] split: prod.split) (metis snd_conv)
  qed
qed

end

lemma port_deliver_not_pending: "fst (port_deliver i message n tablep s) \<noteq> MAXRTOS_PENDING"
proof -
  have p: "fst (port_push i message n t) \<noteq> MAXRTOS_PENDING" for t
    by (simp add: port_push_def maxrtos_kernel_fifo_push_def prod.case_eq_if Let_def)
  show ?thesis
    using p resolve_not_pending unfolding port_deliver_def
    by (simp split: prod.split maxrtos_status.split option.split maxrtos_ipc_operation_t.split)
qed

lemma port_pop_not_pending: "fst (port_pop i message n t) \<noteq> MAXRTOS_PENDING"
  by (simp add: port_pop_def maxrtos_kernel_fifo_pop_def prod.case_eq_if)

context blocking_invariant
begin

lemma port_send_outcome:
  assumes "I s" "maxrtos_kernel_queue_port_send i message n timeout tablep current outp s = (status, out, s')"
  shows "if status = MAXRTOS_PENDING then B current s' out else I s'"
proof (cases "maxrtos_queue_port_for_process i current True False s")
  case None
  with assms show ?thesis by (auto simp: maxrtos_kernel_queue_port_send_def split: if_splits)
next
  case (Some b)
  note use = port_for_process_Some[OF Some]
  obtain st1 s1 where d: "port_deliver i message n tablep s = (st1, s1)" by (rule prod.exhaust)
  obtain st2 wake where t: "maxrtos_kernel_tick_after timeout PTR s1 = (st2, wake)" by (rule prod.exhaust)
  obtain st3 out2 s2 where bl: "maxrtos_ipc_block_current tablep current (Some (WL_Port_Senders i))
      (out_val MAXRTOS_TICK_NONE wake) (Some (MAXRTOS_IPC_OP_QUEUE_SEND message n)) outp s1 = (st3, out2, s2)"
    by (rule prod_cases3)
  have I1: "I s1" using port_deliver_inv[OF assms(1), of i message n tablep] d by simp
  have "qp_in_use (s_port_pool s1 i)" using port_deliver_in_use[of i message n tablep s i] d use by simp
  then have I2: "if st3 = MAXRTOS_OK then B current s2 out2 else I s2" using blocks[OF I1 _ bl] by simp
  have np: "st1 \<noteq> MAXRTOS_PENDING" "st2 \<noteq> MAXRTOS_PENDING" "st3 \<noteq> MAXRTOS_PENDING"
    using tick_after_not_pending[of timeout PTR s1] port_deliver_not_pending[of i message n tablep s]
      block_current_not_pending[of tablep current "Some (WL_Port_Senders i)" "out_val MAXRTOS_TICK_NONE wake"
        "Some (MAXRTOS_IPC_OP_QUEUE_SEND message n)" outp s1] d t bl by simp_all
  from Some d t bl I1 I2 np assms show ?thesis
    by (cases "n = fifo_message_size (qp_fifo b)") (auto simp: maxrtos_kernel_queue_port_send_def split: if_splits)
qed

lemma port_receive_outcome:
  assumes "I s" "maxrtos_kernel_queue_port_receive i out_message n timeout tablep current outp s = (status, out, s')"
  shows "if status = MAXRTOS_PENDING then B current s' out else I s'"
proof (cases "maxrtos_queue_port_for_process i current False True s")
  case None
  with assms show ?thesis by (auto simp: maxrtos_kernel_queue_port_receive_def split: if_splits)
next
  case (Some b)
  note use = port_for_process_Some[OF Some]
  obtain st1 s1 where d: "port_pop i out_message n s = (st1, s1)" by (rule prod.exhaust)
  obtain st2 wake where t: "maxrtos_kernel_tick_after timeout PTR s1 = (st2, wake)" by (rule prod.exhaust)
  obtain st3 out2 s2 where bl: "maxrtos_ipc_block_current tablep current (Some (WL_Port_Receivers i))
      (out_val MAXRTOS_TICK_NONE wake) (Some (MAXRTOS_IPC_OP_QUEUE_RECEIVE out_message n)) outp s1 = (st3, out2, s2)"
    by (rule prod_cases3)
  have I1: "I s1" using port_pop_inv[OF assms(1), of i out_message n] d by simp
  have "qp_in_use (s_port_pool s1 i)" using port_pop_pool(4)[of i out_message n s i] d use by simp
  then have I2: "if st3 = MAXRTOS_OK then B current s2 out2 else I s2" using blocks[OF I1 _ bl] by simp
  have np: "st1 \<noteq> MAXRTOS_PENDING" "st2 \<noteq> MAXRTOS_PENDING" "st3 \<noteq> MAXRTOS_PENDING"
    using tick_after_not_pending[of timeout PTR s1] port_pop_not_pending[of i out_message n s]
      block_current_not_pending[of tablep current "Some (WL_Port_Receivers i)" "out_val MAXRTOS_TICK_NONE wake"
        "Some (MAXRTOS_IPC_OP_QUEUE_RECEIVE out_message n)" outp s1] d t bl by simp_all
  from Some d t bl I1 I2 np assms show ?thesis
    by (auto simp: maxrtos_kernel_queue_port_receive_def port_admit_inv split: if_splits)
qed

end

context ipc_invariant
begin

lemma port_send_inv: "I s \<Longrightarrow> I (snd (snd (maxrtos_kernel_queue_port_send i message n timeout tablep current outp s)))"
  by (cases "maxrtos_kernel_queue_port_send i message n timeout tablep current outp s")
    (auto dest: blocking.port_send_outcome split: if_splits)

lemma port_receive_inv: "I s \<Longrightarrow> I (snd (snd (maxrtos_kernel_queue_port_receive i out_message n timeout tablep current outp s)))"
  by (cases "maxrtos_kernel_queue_port_receive i out_message n timeout tablep current outp s")
    (auto dest: blocking.port_receive_outcome split: if_splits)

end

subsection \<open>Creation\<close>

definition port_created :: "u32 \<Rightarrow> u32 \<Rightarrow> u32 \<Rightarrow> u32 \<Rightarrow> u32 \<Rightarrow> u32 \<Rightarrow> u32 \<Rightarrow> kstate \<Rightarrow> kstate" where
  "port_created storage sz ms cap snd_mask rcv_mask i s = waitlist_reset (WL_Port_Senders i) (waitlist_reset (WL_Port_Receivers i)
     (upd_port i (\<lambda>p. p\<lparr>qp_fifo := \<lparr>fifo_buffer = storage, fifo_buffer_capacity_bytes = sz,
          fifo_message_size = ms, fifo_capacity = cap, fifo_head = 0, fifo_count = 0\<rparr>,
        qp_in_use := True, qp_sender_mask := snd_mask, qp_receiver_mask := rcv_mask\<rparr>) s))"

lemma port_create_fold:
  assumes "storage \<noteq> 0"
  shows "fold (port_create_step storage sz ms cap snd_mask rcv_mask) is (MAXRTOS_ERR_POOL_FULL, None, s) =
    (case find (\<lambda>i. \<not> qp_in_use (s_port_pool s i)) is of
       None \<Rightarrow> (MAXRTOS_ERR_POOL_FULL, None, s)
     | Some i \<Rightarrow> if 0 < ms \<and> 0 < cap \<and> ms * cap \<le> sz
         then (MAXRTOS_OK, Some i, port_created storage sz ms cap snd_mask rcv_mask i s)
         else (MAXRTOS_ERR_INVALID_ARG, None, s))"
proof (induction "is")
  case (Cons i "is")
  have stop: "fold (port_create_step storage sz ms cap snd_mask rcv_mask) is (st, out, t) = (st, out, t)"
    if "st = MAXRTOS_OK \<or> st = MAXRTOS_ERR_INVALID_ARG" for st out t
    using that by (induction "is") (auto simp: port_create_step_def)
  show ?case
  proof (cases "qp_in_use (s_port_pool s i)")
    case True
    then have "port_create_step storage sz ms cap snd_mask rcv_mask i (MAXRTOS_ERR_POOL_FULL, None, s)
        = (MAXRTOS_ERR_POOL_FULL, None, s)"
      by (simp add: port_create_step_def)
    with Cons.IH True show ?thesis by simp
  next
    case False
    show ?thesis
    proof (cases "0 < ms \<and> 0 < cap \<and> ms * cap \<le> sz")
      case True
      then have "maxrtos_kernel_fifo_init PTR storage sz ms cap (qp_fifo (s_port_pool s i))
          = (MAXRTOS_OK, \<lparr>fifo_buffer = storage, fifo_buffer_capacity_bytes = sz,
             fifo_message_size = ms, fifo_capacity = cap, fifo_head = 0, fifo_count = 0\<rparr>)"
        using assms by (simp add: maxrtos_kernel_fifo_init_def)
      then have "port_create_step storage sz ms cap snd_mask rcv_mask i (MAXRTOS_ERR_POOL_FULL, None, s)
          = (MAXRTOS_OK, Some i, port_created storage sz ms cap snd_mask rcv_mask i s)"
        using False by (simp add: port_create_step_def port_created_def upd_port_def)
      with False True show ?thesis by (simp add: stop)
    next
      case bad: False
      then have "port_create_step storage sz ms cap snd_mask rcv_mask i (MAXRTOS_ERR_POOL_FULL, None, s)
          = (MAXRTOS_ERR_INVALID_ARG, None, s)"
        using False by (auto simp: port_create_step_def upd_port_def maxrtos_kernel_fifo_init_def)
      with False bad show ?thesis by (simp add: stop)
    qed
  qed
qed simp

lemma port_create_cases:
  assumes "maxrtos_queue_port_create storage sz ms cap snd_mask rcv_mask outp s = (status, out, s')"
  shows "(status \<noteq> MAXRTOS_OK \<and> out = None \<and> s' = s) \<or>
    (\<exists>i. status = MAXRTOS_OK \<and> out = Some i \<and> i < of_nat MAXRTOS_MAX_QUEUE_PORTS \<and> \<not> qp_in_use (s_port_pool s i)
       \<and> storage \<noteq> 0 \<and> 0 < ms \<and> 0 < cap \<and> ms * cap \<le> sz
       \<and> s' = port_created storage sz ms cap snd_mask rcv_mask i s)"
proof (cases "storage \<noteq> 0 \<and> outp \<noteq> NULL \<and> snd_mask \<noteq> 0 \<and> rcv_mask \<noteq> 0
         \<and> MAXRTOS_PARTITION_MASK_VALID snd_mask \<and> MAXRTOS_PARTITION_MASK_VALID rcv_mask")
  case True
  then have st: "storage \<noteq> 0" by simp
  have code: "(status, out, s') = (case find (\<lambda>i. \<not> qp_in_use (s_port_pool s i)) (ids_below MAXRTOS_MAX_QUEUE_PORTS) of
       None \<Rightarrow> (MAXRTOS_ERR_POOL_FULL, None, s)
     | Some i \<Rightarrow> if 0 < ms \<and> 0 < cap \<and> ms * cap \<le> sz
         then (MAXRTOS_OK, Some i, port_created storage sz ms cap snd_mask rcv_mask i s)
         else (MAXRTOS_ERR_INVALID_ARG, None, s))"
    unfolding assms[symmetric] maxrtos_queue_port_create_def if_P[OF True] by (rule port_create_fold[OF st])
  show ?thesis
  proof (cases "find (\<lambda>i. \<not> qp_in_use (s_port_pool s i)) (ids_below MAXRTOS_MAX_QUEUE_PORTS)")
    case None
    with code show ?thesis by simp
  next
    case (Some i)
    from find_member[OF Some] have "\<not> qp_in_use (s_port_pool s i)" "i < of_nat MAXRTOS_MAX_QUEUE_PORTS" by simp_all
    with code Some st show ?thesis by (simp split: if_splits)
  qed
next
  case False
  have "maxrtos_queue_port_create storage sz ms cap snd_mask rcv_mask outp s = (MAXRTOS_ERR_INVALID_ARG, None, s)"
    unfolding maxrtos_queue_port_create_def if_not_P[OF False] ..
  with assms show ?thesis by simp
qed

lemma port_created_inv:
  assumes "kernel_inv s" "pools_ok s" "\<not> qp_in_use (s_port_pool s i)"
  shows "kernel_inv (port_created storage sz ms cap snd_mask rcv_mask i s)
    \<and> pools_ok (port_created storage sz ms cap snd_mask rcv_mask i s)" (is "kernel_inv ?s' \<and> pools_ok ?s'")
proof -
  define f where "f = (\<lambda>p :: maxrtos_queue_port_t. p\<lparr>qp_fifo := \<lparr>fifo_buffer = storage, fifo_buffer_capacity_bytes = sz,
          fifo_message_size = ms, fifo_capacity = cap, fifo_head = 0, fifo_count = 0\<rparr>,
        qp_in_use := True, qp_sender_mask := snd_mask, qp_receiver_mask := rcv_mask\<rparr>)"
  have e: "?s' = waitlist_reset (WL_Port_Senders i) (waitlist_reset (WL_Port_Receivers i) (upd_port i f s))"
    by (simp add: port_created_def f_def)
  have empty: "wl_list (waitlists s (WL_Port_Receivers i)) = []" "wl_list (waitlists s (WL_Port_Senders i)) = []"
    using assms(2,3) unfolding pools_ok_def by (metis object_in_use.simps(5,6))+
  have "kernel_inv ?s'"
    unfolding e by (intro waitlist_reset_inv) (use assms(1) empty in \<open>simp_all add: upd_port_def\<close>)
  moreover have "object_in_use ?s' w" if "wl_list (waitlists ?s' w) \<noteq> []" for w
  proof -
    have "wl_list (waitlists s w) \<noteq> []" using that by (simp add: e upd_port_def split: if_splits)
    then have "object_in_use s w" using assms(2) by (simp add: pools_ok_def)
    then show ?thesis using assms(3) by (cases w) (auto simp: e upd_port_def f_def)
  qed
  ultimately show ?thesis by (simp add: pools_ok_def)
qed

text \<open>
  Every port operation keeps the kernel invariant and \<open>pools_ok\<close>, whatever its arguments and
  outcome, and sending and receiving leave the clock, the halt flags and the configuration of
  every process alone.
\<close>

lemma port_operations_keep_invariant:
  assumes "kernel_inv s" "pools_ok s"
    and "s' \<in> {snd (snd (maxrtos_kernel_queue_port_send i message n timeout tablep current outp s)),
       snd (snd (maxrtos_kernel_queue_port_receive i message n timeout tablep current outp s))}"
  shows "kernel_inv s' \<and> pools_ok s' \<and> same_clock s s' \<and> same_config s s'
    \<and> kernel_inv (snd (snd (maxrtos_queue_port_create storage sz ms cap snd_mask rcv_mask outp s)))
    \<and> pools_ok (snd (snd (maxrtos_queue_port_create storage sz ms cap snd_mask rcv_mask outp s)))"
proof -
  have c: "kernel_inv s \<and> same_clock s s" and g: "kernel_inv s \<and> same_config s s" and p: "kernel_inv s \<and> pools_ok s"
    using assms by (simp_all add: same_clock_def)
  note send = pools.port_send_inv[OF p] clock.port_send_inv[OF c] config.port_send_inv[OF g]
    and receive = pools.port_receive_inv[OF p] clock.port_receive_inv[OF c] config.port_receive_inv[OF g]
  from assms(3) have 1: "kernel_inv s' \<and> pools_ok s' \<and> same_clock s s' \<and> same_config s s'"
    by (elim insertE emptyE) (simp_all only: send receive simp_thms)
  obtain status out t where r: "maxrtos_queue_port_create storage sz ms cap snd_mask rcv_mask outp s = (status, out, t)"
    by (rule prod_cases3)
  from port_create_cases[OF r] have "kernel_inv t \<and> pools_ok t"
    using p port_created_inv[OF assms(1,2)] by auto
  with 1 r show ?thesis by simp
qed

subsection \<open>Access rights\<close>

definition in_mask :: "u32 \<Rightarrow> u32 \<Rightarrow> bool" where
  "in_mask part msk \<longleftrightarrow> part < of_nat MAXRTOS_MAX_PARTITIONS \<and> bit msk (unat part)"

text \<open>
  C37. Who may use a port: a process finds a queuing port exactly if the port exists and the
  process's partition is in the set that the operation asks for. Otherwise every operation is
  refused without any effect: sending and receiving report INVALID_ID and change nothing, the
  status query reveals nothing, and the count reads zero.
\<close>

theorem queue_port_access:
  fixes s :: kstate and i :: u32
  assumes "allocated (process_pool s) pid" "message \<noteq> 0" "tablep \<noteq> NULL" "outp \<noteq> NULL"
  defines "part \<equiv> pcb_partition_id (process_pool s pid)" and "port \<equiv> s_port_pool s i"
  defines "exists \<equiv> i < of_nat MAXRTOS_MAX_QUEUE_PORTS \<and> qp_in_use port"
  shows "(\<not> (exists \<and> in_mask part (qp_sender_mask port)) \<longrightarrow>
      maxrtos_kernel_queue_port_send i message n timeout tablep pid outp s = (MAXRTOS_ERR_INVALID_ID, None, s))
    \<and> (\<not> (exists \<and> in_mask part (qp_receiver_mask port)) \<longrightarrow>
      maxrtos_kernel_queue_port_receive i message n timeout tablep pid outp s = (MAXRTOS_ERR_INVALID_ID, None, s))
    \<and> (\<not> (exists \<and> in_mask part (qp_sender_mask port OR qp_receiver_mask port)) \<longrightarrow>
      maxrtos_kernel_queue_port_get_status i pid PTR s = (MAXRTOS_ERR_INVALID_ID, None)
      \<and> maxrtos_kernel_queue_port_count i pid s = 0)
    \<and> (maxrtos_queue_port_for_process i pid sending receiving s \<noteq> None \<longleftrightarrow> exists
      \<and> (sending \<and> in_mask part (qp_sender_mask port) \<or> receiving \<and> in_mask part (qp_receiver_mask port)))"
proof -
  have bits: "bit (a OR b) k \<longleftrightarrow> bit a k \<or> bit b k" for a b :: u32 and k by (simp add: bit_or_iff)
  have e: "maxrtos_queue_port_for_process i pid sending receiving s = (if exists \<and> part < of_nat MAXRTOS_MAX_PARTITIONS
      \<and> (sending \<and> bit (qp_sender_mask port) (unat part) \<or> receiving \<and> bit (qp_receiver_mask port) (unat part))
      then Some port else None)" for sending receiving
    using assms(1)
    by (auto simp: maxrtos_queue_port_for_process_def process_get_eq Let_def and_exp_eq_0_iff_not_bit bits exists_def
      part_def port_def)
  have none: "\<not> (exists \<and> in_mask part (qp_sender_mask port)) \<Longrightarrow> maxrtos_queue_port_for_process i pid True False s = None"
    "\<not> (exists \<and> in_mask part (qp_receiver_mask port)) \<Longrightarrow> maxrtos_queue_port_for_process i pid False True s = None"
    "\<not> (exists \<and> in_mask part (qp_sender_mask port OR qp_receiver_mask port)) \<Longrightarrow>
      maxrtos_queue_port_for_process i pid True True s = None"
    using e by (auto simp: in_mask_def bits)
  have "maxrtos_queue_port_for_process i pid sending receiving s \<noteq> None \<longleftrightarrow> exists
      \<and> (sending \<and> in_mask part (qp_sender_mask port) \<or> receiving \<and> in_mask part (qp_receiver_mask port))"
    unfolding e by (auto simp: in_mask_def)
  with assms(2-4) none show ?thesis
    by (simp add: maxrtos_kernel_queue_port_send_def maxrtos_kernel_queue_port_receive_def
      maxrtos_kernel_queue_port_get_status_def maxrtos_kernel_queue_port_count_def)
qed

subsection \<open>Order of messages\<close>

lemma apart_sym:
  assumes "apart a n b k" "k \<le> 2 ^ 32"
  shows "apart b k a n"
  unfolding apart_def
proof (intro allI impI)
  fix j assume j: "j < k"
  show "n \<le> unat (b + word_of_nat j - a)"
  proof (rule ccontr)
    assume "\<not> n \<le> unat (b + word_of_nat j - a)"
    then have "unat (b + word_of_nat j - a) < n" by simp
    then have "k \<le> unat (a + word_of_nat (unat (b + word_of_nat j - a)) - b)"
      using assms(1) unfolding apart_def by blast
    also have "a + word_of_nat (unat (b + word_of_nat j - a)) - b = word_of_nat j" by simp
    also have "unat (word_of_nat j :: u32) = j" by (rule unat_word_of_nat_32) (use j assms(2) in simp)
    finally show False using j by simp
  qed
qed

text \<open>Taking the oldest message, seen in the kernel state.\<close>

lemma port_pop_eq:
  fixes i :: u32 and s :: kstate
  defines "f \<equiv> qp_fifo (s_port_pool s i)"
  assumes "fifo_wf f" "fifo_list f (mem s) = a # as" "out \<noteq> 0" "fifo_message_size f \<le> n"
    and sep: "\<And>j. j < unat (fifo_capacity f) \<Longrightarrow>
      apart (fifo_addr f j) (unat (fifo_message_size f)) out (unat (fifo_message_size f))"
  shows "\<exists>f' s1. port_pop i out n s = (MAXRTOS_OK, s1) \<and> qp_fifo (s_port_pool s1 i) = f'
    \<and> mem_read (mem s1) out (unat (fifo_message_size f)) = a \<and> fifo_wf f' \<and> fifo_list f' (mem s1) = as
    \<and> fifo_message_size f' = fifo_message_size f \<and> fifo_capacity f' = fifo_capacity f
    \<and> fifo_count f' < fifo_capacity f' \<and> fifo_buffer f' = fifo_buffer f
    \<and> (\<forall>x k. apart x k out (unat (fifo_message_size f)) \<longrightarrow> mem_read (mem s1) x k = mem_read (mem s) x k)"
proof -
  note ok = fifo_pop_ok[OF assms(2-5) sep]
  obtain st f' m where r: "maxrtos_kernel_fifo_pop PTR out n f (mem s) = (st, f', m)" by (rule prod_cases3)
  have "fifo_count f \<noteq> 0" using assms(3) by (auto simp: fifo_list_def)
  with assms(4,5) r have e: "f' = f\<lparr>fifo_head := (fifo_head f + 1) mod fifo_capacity f, fifo_count := fifo_count f - 1\<rparr>"
    "m = memcpy (mem s) out (fifo_buffer f + fifo_head f * fifo_message_size f) (fifo_message_size f)"
    by (auto simp: maxrtos_kernel_fifo_pop_def)
  have st: "st = MAXRTOS_OK" using ok(1) r by simp
  have len: "unat (fifo_count f') = length as" using ok(4) r length_fifo_list[of f' m] by simp
  moreover have "unat (fifo_count f) = Suc (length as)" using assms(3) length_fifo_list[of f "mem s"] by simp
  ultimately have "fifo_count f' < fifo_capacity f'"
    using assms(2) e(1) by (simp add: fifo_wf_def word_less_nat_alt word_le_nat_alt)
  moreover have "mem_read m x k = mem_read (mem s) x k" if "apart x k out (unat (fifo_message_size f))" for x k
    unfolding e(2) by (rule memcpy_read_apart[OF that])
  ultimately show ?thesis
    using ok r st e(1) by (simp add: port_pop_def upd_port_def f_def[symmetric])
qed

lemma port_push_eq:
  fixes i :: u32 and s :: kstate
  defines "f \<equiv> qp_fifo (s_port_pool s i)"
  assumes "fifo_wf f" "fifo_count f < fifo_capacity f" "message \<noteq> 0"
  shows "\<exists>f' s1. port_push i message (fifo_message_size f) s = (MAXRTOS_OK, s1) \<and> qp_fifo (s_port_pool s1 i) = f'
    \<and> fifo_wf f' \<and> fifo_list f' (mem s1) = fifo_list f (mem s) @ [mem_read (mem s) message (unat (fifo_message_size f))]
    \<and> (\<forall>x. (\<forall>j < unat (fifo_capacity f). apart x (unat (fifo_message_size f)) (fifo_addr f j) (unat (fifo_message_size f)))
        \<longrightarrow> mem_read (mem s1) x (unat (fifo_message_size f)) = mem_read (mem s) x (unat (fifo_message_size f)))"
proof -
  note ok = fifo_push_ok[OF assms(2-4), of "mem s"]
  obtain st f' m where r: "maxrtos_kernel_fifo_push PTR message (fifo_message_size f) f (mem s) = (st, f', m)"
    by (rule prod_cases3)
  have e: "m = memcpy (mem s) (fifo_addr f (fifo_slot f (unat (fifo_count f)))) message (fifo_message_size f)"
    using r assms(3,4) fifo_tail_slot[OF assms(2,3)]
    by (simp add: maxrtos_kernel_fifo_push_def Let_def fifo_addr_word)
  have "mem_read m x (unat (fifo_message_size f)) = mem_read (mem s) x (unat (fifo_message_size f))"
    if "\<forall>j < unat (fifo_capacity f). apart x (unat (fifo_message_size f)) (fifo_addr f j) (unat (fifo_message_size f))" for x
    unfolding e using that fifo_slot_less[OF assms(2)] by (intro memcpy_read_apart) blast
  with ok r show ?thesis by (simp add: port_push_def upd_port_def f_def[symmetric])
qed

text \<open>
  C17. Order of a queuing port: when a receiver takes a message, it gets the oldest one, the others
  move up in order, and if a process is blocked sending to the port, the one that has waited
  longest is admitted: its message becomes the last of the queue, it leaves the wait list and is
  READY (with the result OK recorded, unless its ready queue is full). For well-formed storage
  that does not overlap the receive buffer, and a sender whose message does not overlap it.
\<close>

theorem queue_port_receive_in_order:
  fixes i :: u32 and s :: kstate
  defines "f \<equiv> qp_fifo (s_port_pool s i)" and "ms \<equiv> unat (fifo_message_size (qp_fifo (s_port_pool s i)))"
  assumes "kernel_inv s" "maxrtos_queue_port_for_process i current False True s \<noteq> None"
    "fifo_wf f" "fifo_list f (mem s) = a # as" "out_message \<noteq> 0" "fifo_message_size f \<le> n"
    and "\<And>j. j < unat (fifo_capacity f) \<Longrightarrow> apart (fifo_addr f j) ms out_message ms"
  shows "case maxrtos_kernel_queue_port_receive i out_message n timeout PTR current PTR s of (status, out, s') \<Rightarrow>
    status = MAXRTOS_OK \<and> kernel_inv s' \<and>
    (case wl_list (waitlists s (WL_Port_Senders i)) of
       [] \<Rightarrow> fifo_list (qp_fifo (s_port_pool s' i)) (mem s') = as \<and> mem_read (mem s') out_message ms = a
     | k # waiting \<Rightarrow>
         (\<forall>message. pcb_ipc_operation (process_pool s k) = MAXRTOS_IPC_OP_QUEUE_SEND message (fifo_message_size f)
            \<and> message \<noteq> 0 \<and> apart message ms out_message ms \<longrightarrow>
            fifo_list (qp_fifo (s_port_pool s' i)) (mem s') = as @ [mem_read (mem s) message ms]
            \<and> mem_read (mem s') out_message ms = a
            \<and> wl_list (waitlists s' (WL_Port_Senders i)) = waiting
            \<and> pcb_state (process_pool s' k) = MAXRTOS_PROCESS_STATE_READY
            \<and> (has_room s k \<longrightarrow> pcb_ipc_result (process_pool s' k) = MAXRTOS_OK
                 \<and> pcb_ipc_result_pending (process_pool s' k))))"
proof -
  have sep: "\<And>j. j < unat (fifo_capacity f) \<Longrightarrow> apart (fifo_addr f j) (unat (fifo_message_size f)) out_message
      (unat (fifo_message_size f))" using assms(9) by (simp add: ms_def f_def)
  from port_pop_eq[of s i a as out_message n, folded f_def, OF assms(5-8) sep] obtain f1 s1 where p:
    "port_pop i out_message n s = (MAXRTOS_OK, s1)" "qp_fifo (s_port_pool s1 i) = f1"
    "mem_read (mem s1) out_message ms = a" "fifo_wf f1" "fifo_list f1 (mem s1) = as"
    "fifo_message_size f1 = fifo_message_size f" "fifo_capacity f1 = fifo_capacity f"
    "fifo_count f1 < fifo_capacity f1" "fifo_buffer f1 = fifo_buffer f"
    "\<forall>x k. apart x k out_message ms \<longrightarrow> mem_read (mem s1) x k = mem_read (mem s) x k"
    by (auto simp: ms_def f_def)
  have same: "process_pool s1 = process_pool s" "waitlists s1 = waitlists s" "scheduler_ctx s1 = scheduler_ctx s"
    using port_pop_pool[of i out_message n s] p(1) by simp_all
  have code: "maxrtos_kernel_queue_port_receive i out_message n timeout PTR current PTR s
      = (MAXRTOS_OK, None, port_admit i PTR s1)"
    using assms(4,7) p(1) by (auto simp: maxrtos_kernel_queue_port_receive_def)
  have k1: "kernel_inv s1" using kernel.port_pop_inv[OF assms(3), of i out_message n] p(1) by simp
  have inv: "kernel_inv (port_admit i PTR s1)" by (rule kernel.port_admit_inv[OF k1])
  show ?thesis
  proof (cases "wl_list (waitlists s (WL_Port_Senders i))")
    case Nil
    with wake_one_eq(2)[OF k1, of "WL_Port_Senders i"] same have "port_admit i PTR s1 = s1" by (simp add: port_admit_def)
    with Nil p inv show ?thesis unfolding code by simp
  next
    case (Cons k waiting)
    with wake_one_eq(1)[OF k1, of "WL_Port_Senders i" k waiting] same obtain s2 where w:
      "maxrtos_ipc_wake_one (Some (WL_Port_Senders i)) PTR PTR s1
        = (MAXRTOS_OK, Some k, Some (pcb_ipc_operation (process_pool s k)), s2)"
      "left_list (WL_Port_Senders i) k s1 s2" "kernel_inv s2" by auto
    have s2: "s_port_pool s2 = s_port_pool s1" "mem s2 = mem s1" using ports_pools[OF wake_one_pools[OF w(1)]] by simp_all
    have main: "fifo_list (qp_fifo (s_port_pool (port_admit i PTR s1) i)) (mem (port_admit i PTR s1))
          = as @ [mem_read (mem s) message ms]
        \<and> mem_read (mem (port_admit i PTR s1)) out_message ms = a
        \<and> wl_list (waitlists (port_admit i PTR s1) (WL_Port_Senders i)) = waiting
        \<and> pcb_state (process_pool (port_admit i PTR s1) k) = MAXRTOS_PROCESS_STATE_READY
        \<and> (has_room s k \<longrightarrow> pcb_ipc_result (process_pool (port_admit i PTR s1) k) = MAXRTOS_OK
             \<and> pcb_ipc_result_pending (process_pool (port_admit i PTR s1) k))"
      if o: "pcb_ipc_operation (process_pool s k) = MAXRTOS_IPC_OP_QUEUE_SEND message (fifo_message_size f)"
        "message \<noteq> 0" "apart message ms out_message ms" for message
    proof -
      have f1: "qp_fifo (s_port_pool s2 i) = f1" using s2(1) p(2) by simp
      from port_push_eq[of s2 i message, unfolded f1, OF p(4,8) o(2)] obtain f3 s3 where q:
        "port_push i message (fifo_message_size f) s2 = (MAXRTOS_OK, s3)" "qp_fifo (s_port_pool s3 i) = f3"
        "fifo_list f3 (mem s3) = as @ [mem_read (mem s2) message ms]"
        "\<forall>x. (\<forall>j < unat (fifo_capacity f). apart x ms (fifo_addr f1 j) ms) \<longrightarrow> mem_read (mem s3) x ms = mem_read (mem s2) x ms"
        using p(5-7) s2(2) by (auto simp: ms_def f_def)
      have addr: "fifo_addr f1 j = fifo_addr f j" for j using p(6,9) by (simp add: fifo_addr_def)
      have "apart out_message ms (fifo_addr f j) ms" if "j < unat (fifo_capacity f)" for j
        by (rule apart_sym[OF assms(9)[OF that]]) (simp add: ms_def less_imp_le unat_less_32[simplified])
      then have out: "mem_read (mem s3) out_message ms = a" using q(4) p(3) s2(2) addr by auto
      have msg: "mem_read (mem s2) message ms = mem_read (mem s) message ms" using p(10) o(3) s2(2) by simp
      have k3: "kernel_inv s3" using kernel.port_push_inv[OF w(3), of i message "fifo_message_size f"] q(1) by simp
      have same3: "process_pool s3 = process_pool s2" "waitlists s3 = waitlists s2" "scheduler_ctx s3 = scheduler_ctx s2"
        using port_push_pool(1-3)[of i message "fifo_message_size f" s2] q(1) by simp_all
      have b3: "allocated (process_pool s3) k" "pcb_state (process_pool s3 k) = MAXRTOS_PROCESS_STATE_BLOCKED"
        "has_room s3 k = has_room s k" "wl_list (waitlists s3 (WL_Port_Senders i)) = waiting"
        using left_list_facts[OF k1 w(2)] left_list_same(1,5)[OF w(2)] same same3 Cons by (simp_all add: has_room_def)
      have admit: "port_admit i PTR s1 = snd (maxrtos_ipc_resolve PTR k MAXRTOS_OK s3)"
        unfolding port_admit_def w(1) using o(1) q(1) by simp
      note ro = resolve_outcome[OF kernel_invD(1)[OF k3] b3(1,2), of MAXRTOS_OK]
      have "pcb_state (process_pool (port_admit i PTR s1) k) = MAXRTOS_PROCESS_STATE_READY
        \<and> waitlists (port_admit i PTR s1) = waitlists s3 \<and> s_port_pool (port_admit i PTR s1) = s_port_pool s3
        \<and> mem (port_admit i PTR s1) = mem s3
        \<and> (has_room s k \<longrightarrow> pcb_ipc_result (process_pool (port_admit i PTR s1) k) = MAXRTOS_OK
             \<and> pcb_ipc_result_pending (process_pool (port_admit i PTR s1) k))"
      proof (cases "has_room s k")
        case True
        with ro(1) b3(3) obtain s' where "maxrtos_ipc_resolve PTR k MAXRTOS_OK s3 = (MAXRTOS_OK, s')"
          "resumed k MAXRTOS_OK s3 s'" by auto
        then show ?thesis unfolding admit by (simp add: resumed_def only_scheduling_iff Let_def)
      next
        case False
        with ro(2) b3(3) obtain s' where "maxrtos_ipc_resolve PTR k MAXRTOS_OK s3 = (MAXRTOS_ERR_QUEUE_FULL, s')"
          "lost k s3 s'" by auto
        with False show ?thesis unfolding admit by (simp add: lost_def)
      qed
      with q out msg b3(4) show ?thesis by simp
    qed
    show ?thesis unfolding code prod.case Cons list.case using inv main by blast
  qed
qed

subsection \<open>Examples\<close>

text \<open>
  Port 0 holds one message of four bytes; process 9 has sent one and is blocked sending a second,
  so process 2 runs.
\<close>

definition example_port :: kstate where
  "example_port = snd (snd (maxrtos_queue_port_create 0x10 4 4 1 1 3 PTR (example_state\<lparr>mem := (\<lambda>a. ucast a)\<rparr>)))"

definition example_sending :: kstate where
  "example_sending = snd (snd (maxrtos_kernel_queue_port_send 0 0x30 4 50 PTR 9 PTR
     (snd (snd (maxrtos_kernel_queue_port_send 0 0x20 4 50 PTR 9 PTR example_port)))))"

lemma example_sending_inv: "kernel_inv example_sending"
proof -
  have p: "pools_ok (example_state\<lparr>mem := (\<lambda>a. ucast a)\<rparr>)"
    using example_pools_ok by (simp add: pools_ok_def example_state_def blank_state_def wl_list_def)
  have k: "kernel_inv (example_state\<lparr>mem := (\<lambda>a. ucast a)\<rparr>)" using example_kernel_inv by simp
  have "kernel_inv example_port"
    unfolding example_port_def
    by (rule conjunct1[OF conjunct2[OF conjunct2[OF conjunct2[OF conjunct2[OF
      port_operations_keep_invariant[OF k p insertI1]]]]]])
  then show ?thesis unfolding example_sending_def by (intro kernel.port_send_inv)
qed

lemma queue_port_access_witness:
  "maxrtos_kernel_queue_port_send 0 0x20 4 50 PTR 9 PTR (example_port\<lparr>s_port_pool := (\<lambda>_. (s_port_pool example_port 0)
     \<lparr>qp_sender_mask := 2\<rparr>)\<rparr>)
   = (MAXRTOS_ERR_INVALID_ID, None, example_port\<lparr>s_port_pool := (\<lambda>_. (s_port_pool example_port 0)\<lparr>qp_sender_mask := 2\<rparr>)\<rparr>)"
proof -
  let ?s = "example_port\<lparr>s_port_pool := (\<lambda>_. (s_port_pool example_port 0)\<lparr>qp_sender_mask := 2\<rparr>)\<rparr>"
  have al: "allocated (process_pool ?s) 9" by code_simp
  have "pcb_partition_id (process_pool ?s 9) = 0" by code_simp
  then have "\<not> in_mask (pcb_partition_id (process_pool ?s 9)) (qp_sender_mask (s_port_pool ?s 0))"
    by (simp add: in_mask_def)
  with queue_port_access[OF al, of "0x20" PTR PTR 0] show ?thesis by simp
qed

lemma queue_port_receive_in_order_witness:
  "case maxrtos_kernel_queue_port_receive 0 0x40 4 0 PTR 2 PTR example_sending of (status, out, s') \<Rightarrow>
    status = MAXRTOS_OK \<and> mem_read (mem s') 0x40 4 = [0x20, 0x21, 0x22, 0x23]
    \<and> fifo_list (qp_fifo (s_port_pool s' 0)) (mem s') = [[0x30, 0x31, 0x32, 0x33]]"
proof -
  let ?s = "example_sending"
  let ?f = "qp_fifo (s_port_pool ?s 0)"
  have p: "maxrtos_queue_port_for_process 0 2 False True ?s \<noteq> None" by code_simp
  have f: "fifo_message_size ?f = 4" "fifo_capacity ?f = 1" "fifo_head ?f = 0" "fifo_count ?f = 1"
    "fifo_buffer ?f = 0x10" by code_simp+
  then have wf: "fifo_wf ?f" by (simp add: fifo_wf_def fifo_bytes_def)
  have l: "fifo_list ?f (mem ?s) = [0x20, 0x21, 0x22, 0x23] # []" by code_simp
  have w: "wl_list (waitlists ?s (WL_Port_Senders 0)) = [9]" by code_simp
  have o: "pcb_ipc_operation (process_pool ?s 9) = MAXRTOS_IPC_OP_QUEUE_SEND 0x30 4" by code_simp
  have m: "mem_read (mem ?s) 0x30 4 = [0x30, 0x31, 0x32, 0x33]" by code_simp
  have four: "i = 0 \<or> i = 1 \<or> i = 2 \<or> i = 3" if "i < (4 :: nat)" for i using that by linarith
  have ap: "apart 0x30 4 0x40 4" unfolding apart_def by (intro allI impI) (drule four, auto)
  have sep: "apart (fifo_addr ?f j) 4 0x40 4" if "j < 1" for j
    using that f unfolding apart_def by (intro allI impI) (drule four, auto simp: fifo_addr_def)
  have n0: "(0x40 :: u32) \<noteq> 0" by simp
  have ms: "unat (fifo_message_size ?f) = 4" "unat (fifo_capacity ?f) = 1" using f by simp_all
  have n4: "fifo_message_size ?f \<le> 4" using f by simp
  have sep': "apart (fifo_addr ?f j) (unat (fifo_message_size ?f)) 0x40 (unat (fifo_message_size ?f))"
    if "j < unat (fifo_capacity ?f)" for j using sep that by (simp only: ms)
  note th = queue_port_receive_in_order[where i = 0 and s = ?s and current = 2 and out_message = "0x40" and n = 4
      and timeout = 0, OF example_sending_inv p wf l n0 n4 sep', unfolded w list.case ms f(1)]
  obtain st out s' where r: "maxrtos_kernel_queue_port_receive 0 0x40 4 0 PTR 2 PTR ?s = (st, out, s')"
    by (rule prod_cases3)
  from th[unfolded r prod.case] o ap m show ?thesis unfolding r prod.case by auto
qed

text \<open>A receiver whose ready queue is full has got the message when the port answers QUEUE_FULL.\<close>

lemma port_deliver_full_ready_queue:
  assumes inv: "kernel_inv s" and k: "wl_list (waitlists s (WL_Port_Receivers i)) = k # rest"
    "pcb_ipc_operation (process_pool s k) = MAXRTOS_IPC_OP_QUEUE_RECEIVE out_message sz" "n \<le> sz" "\<not> has_room s k"
  shows "\<exists>s'. port_deliver i message n PTR s = (MAXRTOS_ERR_QUEUE_FULL, s') \<and> mem s' = memcpy (mem s) out_message message n"
proof -
  from wake_one_eq(1)[OF inv k(1)] obtain s1 where w:
    "maxrtos_ipc_wake_one (Some (WL_Port_Receivers i)) PTR PTR s
      = (MAXRTOS_OK, Some k, Some (pcb_ipc_operation (process_pool s k)), s1)"
    "left_list (WL_Port_Receivers i) k s s1" "kernel_inv s1" by blast
  let ?s2 = "s1\<lparr>mem := memcpy (mem s1) out_message message n\<rparr>"
  have f: "allocated (process_pool ?s2) k" "pcb_state (process_pool ?s2 k) = MAXRTOS_PROCESS_STATE_BLOCKED"
    "has_room ?s2 k = has_room s k" "mem s1 = mem s"
    using left_list_facts[OF inv w(2)] left_list_same(1)[OF w(2)] w(2)
    by (simp_all add: left_list_def only_ipc_def has_room_def)
  have k2: "sched_inv ?s2" using w(3) kernel_invD(1)[of ?s2] by simp
  from resolve_outcome(2)[OF k2 f(1,2), of MAXRTOS_OK] f k(4) obtain s3 where
    "maxrtos_ipc_resolve PTR k MAXRTOS_OK ?s2 = (MAXRTOS_ERR_QUEUE_FULL, s3)" "lost k ?s2 s3" by auto
  with f k(2,3) show ?thesis unfolding port_deliver_def w(1) by (auto simp: lost_def)
qed

end
