(* ===== verification/Timing.thy ===== *)
theory Timing
  imports Ipc_Timeouts Semaphore Buffer Queue_Port
begin

text \<open>
  The time services of timing.c: waiting for the next release point or for a delay, releasing the
  waiting processes, detecting deadline misses and handing them to the health monitor one by one.
  \<open>timer_ok\<close> is the invariant of the two waiting flags: a process that waits for time is on no wait
  list, does not run and is not queued.
\<close>

text \<open>
  The fallback both waits share when there is nothing else to run in the partition: the caller is
  blocked all the same, and the partition idles. It is written once here; in C the two bodies repeat it.
\<close>

definition wait_idle :: "u32 \<Rightarrow> pcb \<Rightarrow> maxrtos_status \<times> u32 option \<times> kstate \<Rightarrow> maxrtos_status \<times> u32 option \<times> kstate" where
  "wait_idle i pcb = (\<lambda>(status, out, s).
     if status = MAXRTOS_ERR_QUEUE_EMPTY then
       (case maxrtos_process_set_state i MAXRTOS_PROCESS_STATE_BLOCKED (process_pool s) of
          (status', pool) \<Rightarrow>
            (status', Some MAXRTOS_INVALID_PROCESS_ID,
             s\<lparr>process_pool := pool,
               current_id := (current_id s)(pcb_partition_id pcb := MAXRTOS_INVALID_PROCESS_ID)\<rparr>))
     else (status, out, s))"

definition maxrtos_kernel_periodic_wait :: "ptr \<Rightarrow> u32 \<Rightarrow> ptr \<Rightarrow> kstate \<Rightarrow> maxrtos_status \<times> u32 option \<times> kstate" where
  "maxrtos_kernel_periodic_wait tablep i outp s =
     (if tablep \<noteq> NULL \<and> outp \<noteq> NULL then
        (case get_pcb i s of
           None \<Rightarrow> (MAXRTOS_ERR_INVALID_ID, None, s)
         | Some pcb \<Rightarrow>
             if pcb_state pcb \<noteq> MAXRTOS_PROCESS_STATE_RUNNING \<or> pcb_period pcb = 0
             then (MAXRTOS_ERR_INVALID_STATE, None, s)
             else
               let now = maxrtos_kernel_tick_now s;
                   next_release = pcb_release_time pcb + pcb_period pcb;
                   s1 = upd_pcb i (\<lambda>b. b\<lparr>pcb_deadline_time := MAXRTOS_TICK_NONE\<rparr>) s
               in if now \<ge> next_release then
                    (MAXRTOS_OK, None, arm_deadline i (upd_pcb i (\<lambda>b. b\<lparr>pcb_release_time := next_release\<rparr>) s1))
                  else
                    (case wait_idle i pcb (maxrtos_partition_block_and_dispatch tablep (pcb_partition_id pcb) i outp s1) of
                       (status, out, s2) \<Rightarrow>
                         if status = MAXRTOS_OK then
                           (MAXRTOS_PENDING, out, maxrtos_kernel_timing_note_due next_release
                              (upd_pcb i (\<lambda>b. b\<lparr>pcb_periodic_waiting := True, pcb_wake_tick := next_release\<rparr>) s2))
                         else (status, out, arm_deadline i s2)))
      else (MAXRTOS_ERR_INVALID_ARG, None, s))"

definition maxrtos_kernel_timed_wait ::
    "ptr \<Rightarrow> u32 \<Rightarrow> u32 \<Rightarrow> ptr \<Rightarrow> kstate \<Rightarrow> maxrtos_status \<times> u32 option \<times> kstate"
where
  "maxrtos_kernel_timed_wait tablep i delay_ticks outp s =
     (if tablep \<noteq> NULL \<and> outp \<noteq> NULL \<and> delay_ticks \<noteq> MAXRTOS_TIMEOUT_INFINITE then
        (case get_pcb i s of
           None \<Rightarrow> (MAXRTOS_ERR_INVALID_ID, None, s)
         | Some pcb \<Rightarrow>
             if pcb_state pcb \<noteq> MAXRTOS_PROCESS_STATE_RUNNING then (MAXRTOS_ERR_INVALID_STATE, None, s)
             else if delay_ticks = 0 then (MAXRTOS_OK, None, s)
             else
               (case maxrtos_kernel_tick_after delay_ticks PTR s of
                  (status0, wake) \<Rightarrow>
                    if status0 = MAXRTOS_OK then
                      (case wait_idle i pcb (maxrtos_partition_block_and_dispatch tablep (pcb_partition_id pcb) i outp s) of
                         (status, out, s2) \<Rightarrow>
                           if status = MAXRTOS_OK then
                             let wake_tick = out_val MAXRTOS_TICK_NONE wake in
                             (MAXRTOS_PENDING, out, maxrtos_kernel_timing_note_due wake_tick
                                (upd_pcb i (\<lambda>b. b\<lparr>pcb_timed_waiting := True, pcb_wake_tick := wake_tick\<rparr>) s2))
                           else (status, out, s2))
                    else (status0, None, s)))
      else (MAXRTOS_ERR_INVALID_ARG, None, s))"

definition release_step :: "ptr \<Rightarrow> u32 \<Rightarrow> u32 \<Rightarrow> nat \<times> kstate \<Rightarrow> nat \<times> kstate" where
  "release_step tablep now i = (\<lambda>(n, s).
     case get_pcb i s of
       None \<Rightarrow> (n, s)
     | Some pcb \<Rightarrow>
         if pcb_state pcb = MAXRTOS_PROCESS_STATE_BLOCKED \<and> pcb_periodic_waiting pcb \<and> now \<ge> pcb_wake_tick pcb then
           (case maxrtos_ipc_resolve tablep i MAXRTOS_OK
                   (arm_deadline i (upd_pcb i (\<lambda>b. b\<lparr>pcb_release_time := pcb_wake_tick b,
                      pcb_wake_tick := MAXRTOS_TICK_NONE, pcb_periodic_waiting := False\<rparr>) s)) of
              (status, s1) \<Rightarrow> (if status = MAXRTOS_OK then n + 1 else n, s1))
         else if pcb_state pcb = MAXRTOS_PROCESS_STATE_BLOCKED \<and> pcb_timed_waiting pcb \<and> now \<ge> pcb_wake_tick pcb then
           (case maxrtos_ipc_resolve tablep i MAXRTOS_OK
                   (upd_pcb i (\<lambda>b. b\<lparr>pcb_wake_tick := MAXRTOS_TICK_NONE, pcb_timed_waiting := False\<rparr>) s) of
              (status, s1) \<Rightarrow> (if status = MAXRTOS_OK then n + 1 else n, s1))
         else (n, s))"

definition maxrtos_kernel_release_periodic :: "ptr \<Rightarrow> u32 \<Rightarrow> kstate \<Rightarrow> nat \<times> kstate" where
  "maxrtos_kernel_release_periodic tablep now s =
     fold (release_step tablep now) (ids_below MAXRTOS_MAX_PROCESSES) (0, s)"

text \<open>The table is not checked for NULL here: the model reads the halt flags of the state.\<close>

definition misses_deadline :: "u32 \<Rightarrow> kstate \<Rightarrow> u32 \<Rightarrow> bool" where
  "misses_deadline now s i \<longleftrightarrow> (case get_pcb i s of
     None \<Rightarrow> False
   | Some pcb \<Rightarrow> pcb_state pcb \<noteq> MAXRTOS_PROCESS_STATE_SUSPENDED \<and> pcb_deadline_time pcb \<noteq> MAXRTOS_TICK_NONE
       \<and> now \<ge> pcb_deadline_time pcb \<and> pcb_partition_id pcb < of_nat MAXRTOS_MAX_PARTITIONS
       \<and> \<not> halted s (pcb_partition_id pcb))"

definition check_deadline_step :: "u32 \<Rightarrow> u32 \<Rightarrow> nat \<times> kstate \<Rightarrow> nat \<times> kstate" where
  "check_deadline_step now i = (\<lambda>(misses, s).
     if misses_deadline now s i then
       let s1 = upd_pcb i (\<lambda>b. b\<lparr>pcb_deadline_time := MAXRTOS_TICK_NONE,
              pcb_deadline_misses := pcb_deadline_misses b + 1\<rparr>) s
       in (misses + 1, s1\<lparr>s_pending_misses := s_pending_misses s1 OR push_bit (unat i) 1\<rparr>)
     else (misses, s))"

definition maxrtos_kernel_check_deadlines :: "u32 \<Rightarrow> kstate \<Rightarrow> nat \<times> kstate" where
  "maxrtos_kernel_check_deadlines now s =
     fold (check_deadline_step now) (ids_below MAXRTOS_MAX_PROCESSES) (0, s)"

text \<open>
  The search of \<open>maxrtos_kernel_take_deadline_miss\<close> is a \<open>while\<close> loop that stops at the first set
  bit: \<open>None\<close> is a loop that does not end. A shift by 32 or more is undefined in C; the loop is
  entered only with a bit set.
\<close>

partial_function (option) miss_search :: "u32 \<Rightarrow> nat \<Rightarrow> nat option" where
  "miss_search pending i = (if pending AND push_bit i 1 = 0 then miss_search pending (i + 1) else Some i)"

definition maxrtos_kernel_take_deadline_miss :: "ptr \<Rightarrow> kstate \<Rightarrow> (bool \<times> u32 option \<times> kstate) option" where
  "maxrtos_kernel_take_deadline_miss outp s =
     (if outp \<noteq> NULL \<and> s_pending_misses s \<noteq> 0 then
        (case miss_search (s_pending_misses s) 0 of
           None \<Rightarrow> None
         | Some i \<Rightarrow> Some (True, Some (of_nat i),
             s\<lparr>s_pending_misses := s_pending_misses s AND NOT (push_bit i 1)\<rparr>))
      else Some (False, None, s))"

subsection \<open>Handing out deadline misses\<close>

lemma miss_search_from:
  assumes "k \<le> i" "bit pending i" "\<And>j. j < i \<Longrightarrow> \<not> bit pending j"
  shows "miss_search pending k = Some i"
  using assms(1)
proof (induction rule: inc_induct)
  case base
  with assms(2) show ?case by (subst miss_search.simps) (simp add: and_exp_eq_0_iff_not_bit)
next
  case (step k)
  with assms(3)[of k] show ?case by (subst miss_search.simps) (simp add: and_exp_eq_0_iff_not_bit)
qed

text \<open>
  The search for a pending miss ends: with a miss pending the call returns, reports the lowest
  process identifier whose bit is set, and clears that bit and no other, so that repeated calls
  hand out every pending miss once, lowest identifier first, and then answer \<open>false\<close> with the state
  unchanged. A mask with no bit set is the only one for which the loop itself would not stop, and
  it is never entered with it.
\<close>

lemma take_deadline_miss_returns:
  "(\<exists>r. maxrtos_kernel_take_deadline_miss outp s = Some r) \<and>
   (s_pending_misses s = 0 \<longrightarrow> maxrtos_kernel_take_deadline_miss outp s = Some (False, None, s)) \<and>
   (s_pending_misses s \<noteq> 0 \<longrightarrow> (\<exists>i < 32. bit (s_pending_misses s) i \<and> (\<forall>j < i. \<not> bit (s_pending_misses s) j)
     \<and> (\<exists>s'. maxrtos_kernel_take_deadline_miss PTR s = Some (True, Some (of_nat i), s')
          \<and> s' = s\<lparr>s_pending_misses := s_pending_misses s'\<rparr>
          \<and> (\<forall>j. bit (s_pending_misses s') j \<longleftrightarrow> bit (s_pending_misses s) j \<and> j \<noteq> i))))"
proof (cases "s_pending_misses s = 0")
  case True
  then show ?thesis by (auto simp: maxrtos_kernel_take_deadline_miss_def)
next
  case False
  let ?p = "s_pending_misses s"
  define i where "i = (LEAST i. bit ?p i)"
  from False obtain k where "bit ?p k" by (auto simp: bit_eq_iff)
  then have i: "bit ?p i" "\<And>j. j < i \<Longrightarrow> \<not> bit ?p j"
    unfolding i_def by (rule LeastI, blast dest: not_less_Least)
  have i32: "i < 32" using bit_imp_le_length[OF i(1)] by simp
  let ?s' = "s\<lparr>s_pending_misses := ?p AND NOT (push_bit i 1)\<rparr>"
  have t: "maxrtos_kernel_take_deadline_miss PTR s = Some (True, Some (of_nat i), ?s')"
    using False miss_search_from[OF _ i, of 0] by (simp add: maxrtos_kernel_take_deadline_miss_def)
  have b: "bit (s_pending_misses ?s') j \<longleftrightarrow> bit ?p j \<and> j \<noteq> i" for j
    using bit_imp_le_length[of ?p j]
    using i32 by (auto simp: bit_and_iff bit_not_iff bit_exp_iff possible_bit_word)
  have r: "\<exists>r. maxrtos_kernel_take_deadline_miss outp s = Some r"
    using t by (cases outp) (auto simp: maxrtos_kernel_take_deadline_miss_def)
  show ?thesis using False i i32 t b r by (auto intro!: exI[of _ i] exI[of _ ?s'])
qed

lemma take_deadline_miss_returns_witness:
  "\<exists>i s'. maxrtos_kernel_take_deadline_miss PTR (example_state\<lparr>s_pending_misses := 0x24\<rparr>) = Some (True, Some (of_nat i), s')
    \<and> i < 32 \<and> bit (0x24 :: u32) i"
proof -
  have "s_pending_misses (example_state\<lparr>s_pending_misses := 0x24\<rparr>) \<noteq> 0" by simp
  with take_deadline_miss_returns[of PTR "example_state\<lparr>s_pending_misses := 0x24\<rparr>"] show ?thesis by auto
qed

subsection \<open>Processes waiting for time\<close>

definition waits_for_time :: "pcb \<Rightarrow> bool" where
  "waits_for_time b \<longleftrightarrow> pcb_periodic_waiting b \<or> pcb_timed_waiting b"

abbreviation same_flags :: "pcb \<Rightarrow> pcb \<Rightarrow> bool" where
  "same_flags b b' \<equiv> pcb_periodic_waiting b' = pcb_periodic_waiting b \<and> pcb_timed_waiting b' = pcb_timed_waiting b"

definition timer_ok :: "kstate \<Rightarrow> bool" where
  "timer_ok s \<longleftrightarrow> (\<forall>i. allocated (process_pool s) i \<and> waits_for_time (process_pool s i) \<longrightarrow>
     pcb_waitlist (process_pool s i) = None \<and> pcb_state (process_pool s i) \<noteq> MAXRTOS_PROCESS_STATE_RUNNING
     \<and> \<not> queued_in s i \<and> \<not> (pcb_periodic_waiting (process_pool s i) \<and> pcb_timed_waiting (process_pool s i)))"

text \<open>On no wait list and not waiting for time.\<close>

definition off_timer :: "pool \<Rightarrow> u32 \<Rightarrow> bool" where
  "off_timer pool i \<longleftrightarrow> (allocated pool i \<longrightarrow> pcb_waitlist (pool i) = None \<and> \<not> waits_for_time (pool i))"

lemma timer_okD:
  assumes "timer_ok s" "allocated (process_pool s) i"
  shows "waits_for_time (process_pool s i) \<Longrightarrow> pcb_waitlist (process_pool s i) = None"
    and "pcb_waitlist (process_pool s i) \<noteq> None \<Longrightarrow> \<not> waits_for_time (process_pool s i)"
    and "pcb_state (process_pool s i) = MAXRTOS_PROCESS_STATE_RUNNING \<Longrightarrow> \<not> waits_for_time (process_pool s i)"
    and "queued_in s i \<Longrightarrow> \<not> waits_for_time (process_pool s i)"
  using assms by (auto simp: timer_ok_def)

text \<open>A step is harmless if it leaves every process that waits for time where it is.\<close>

lemma timer_ok_step:
  assumes "timer_ok s"
    and "\<And>i. allocated (process_pool s') i \<Longrightarrow> waits_for_time (process_pool s' i) \<Longrightarrow>
      allocated (process_pool s) i \<and> same_flags (process_pool s i) (process_pool s' i)
      \<and> pcb_waitlist (process_pool s' i) = pcb_waitlist (process_pool s i)
      \<and> (pcb_state (process_pool s' i) = MAXRTOS_PROCESS_STATE_RUNNING \<longrightarrow>
           pcb_state (process_pool s i) = MAXRTOS_PROCESS_STATE_RUNNING)
      \<and> (queued_in s' i \<longrightarrow> queued_in s i)"
  shows "timer_ok s'"
  using assms unfolding timer_ok_def waits_for_time_def by metis

lemma waits_for_time_upd [simp]:
  "waits_for_time (b\<lparr>pcb_state := st\<rparr>) = waits_for_time b"
  "waits_for_time (b\<lparr>pcb_priority := q\<rparr>) = waits_for_time b"
  "waits_for_time (b\<lparr>pcb_wake_tick := t\<rparr>) = waits_for_time b"
  "waits_for_time (b\<lparr>pcb_waitlist := w\<rparr>) = waits_for_time b"
  "waits_for_time (b\<lparr>pcb_deadline_time := t\<rparr>) = waits_for_time b"
  "waits_for_time (b\<lparr>pcb_release_time := t\<rparr>) = waits_for_time b"
  "waits_for_time (b\<lparr>pcb_deadline_misses := t\<rparr>) = waits_for_time b"
  "waits_for_time (b\<lparr>pcb_ipc_operation := oper\<rparr>) = waits_for_time b"
  "waits_for_time (b\<lparr>pcb_ipc_result := r\<rparr>) = waits_for_time b"
  "waits_for_time (b\<lparr>pcb_ipc_result_pending := p\<rparr>) = waits_for_time b"
  by (simp_all add: waits_for_time_def)

lemma queued_in_cong:
  "scheduler_ctx s' = scheduler_ctx s \<Longrightarrow> pcb_partition_id (process_pool s' i) = pcb_partition_id (process_pool s i) \<Longrightarrow>
   queued_in s' i = queued_in s i"
  by (simp add: queued_in_def)

lemma left_list_timer:
  assumes inv: "kernel_inv s" and t: "timer_ok s" and l: "left_list w i s s'"
  shows "timer_ok s'" "off_timer (process_pool s') i"
proof -
  note facts = left_list_facts[OF inv l]
  from l have p: "process_pool s' = (process_pool s)(i := (process_pool s i)\<lparr>pcb_ipc_operation := MAXRTOS_IPC_OP_NONE,
          pcb_waitlist := None, pcb_wake_tick := MAXRTOS_TICK_NONE\<rparr>)" and m: "i \<in> set (wl_list (waitlists s w))"
    by (simp_all add: left_list_def)
  have "\<not> waits_for_time (process_pool s i)"
    using timer_okD(2)[OF t facts(4)] wait_okD(5)[OF kernel_invD(2)[OF inv] m] by simp
  then have n: "\<not> waits_for_time (process_pool s' i)" by (simp add: p)
  show "timer_ok s'"
  proof (rule timer_ok_step[OF t])
    fix j assume j: "allocated (process_pool s') j" "waits_for_time (process_pool s' j)"
    with n have "j \<noteq> i" by auto
    with j p left_list_queued[OF l, of j] show "allocated (process_pool s) j \<and> same_flags (process_pool s j) (process_pool s' j)
      \<and> pcb_waitlist (process_pool s' j) = pcb_waitlist (process_pool s j)
      \<and> (pcb_state (process_pool s' j) = MAXRTOS_PROCESS_STATE_RUNNING \<longrightarrow>
           pcb_state (process_pool s j) = MAXRTOS_PROCESS_STATE_RUNNING)
      \<and> (queued_in s' j \<longrightarrow> queued_in s j)" by (simp add: allocated_def)
  qed
  show "off_timer (process_pool s') i" using n facts by (simp add: off_timer_def)
qed

lemma dequeued_subset:
  assumes "dequeued n ctx ctx'"
  shows "set (ready_ids ctx') \<subseteq> set (ready_ids ctx)" "n \<in> set (ready_ids ctx)"
proof -
  obtain p where p: "p \<le> 31" "ready ctx p = n # ready ctx' p" "\<And>r. r \<noteq> p \<Longrightarrow> ready ctx' r = ready ctx r"
    using assms by (auto simp: dequeued_def)
  have "set (ready ctx' r) \<subseteq> set (ready ctx r)" for r using p(2) p(3)[of r] by (cases "r = p") auto
  then show "set (ready_ids ctx') \<subseteq> set (ready_ids ctx)"
    unfolding in_ready_ids subset_iff by blast
  show "n \<in> set (ready_ids ctx)" unfolding in_ready_ids by (rule exI[of _ p]) (use p in simp)
qed

lemma blocked_on_timer:
  assumes inv: "kernel_inv s" and t: "timer_ok s" and b: "blocked_on w i wake oper n s s'"
    and i: "allocated (process_pool s) i" "pcb_state (process_pool s i) = MAXRTOS_PROCESS_STATE_RUNNING"
  shows "timer_ok s'"
proof (rule timer_ok_step[OF t])
  fix j assume j: "allocated (process_pool s') j" "waits_for_time (process_pool s' j)"
  let ?part = "pcb_partition_id (process_pool s i)"
  from b have p: "process_pool s' = set_pcb_state n MAXRTOS_PROCESS_STATE_RUNNING
          ((process_pool s)(i := (process_pool s i)\<lparr>pcb_ipc_operation := oper, pcb_waitlist := Some w,
             pcb_wake_tick := wake, pcb_state := MAXRTOS_PROCESS_STATE_BLOCKED\<rparr>))"
    and n: "allocated (process_pool s) n" "pcb_partition_id (process_pool s n) = ?part"
    and d: "dequeued n (scheduler_ctx s ?part) (scheduler_ctx s' ?part)"
    and o: "\<And>q. q \<noteq> ?part \<Longrightarrow> scheduler_ctx s' q = scheduler_ctx s q"
    by (simp_all add: blocked_on_def)
  note sub = dequeued_subset[OF d]
  have "\<not> waits_for_time (process_pool s n)"
    using timer_okD(4)[OF t n(1)] sub(2) n(2) by (simp add: queued_in_def)
  moreover have "\<not> waits_for_time (process_pool s i)" using timer_okD(3)[OF t i] .
  moreover have "waits_for_time (process_pool s' j) = waits_for_time (process_pool s j)" by (simp add: p)
  ultimately have ne: "j \<noteq> n" "j \<noteq> i" using j(2) by auto
  have "queued_in s' j \<longrightarrow> queued_in s j"
    using sub(1) o ne p by (cases "pcb_partition_id (process_pool s j) = ?part") (auto simp: queued_in_def)
  with ne j p show "allocated (process_pool s) j \<and> same_flags (process_pool s j) (process_pool s' j)
      \<and> pcb_waitlist (process_pool s' j) = pcb_waitlist (process_pool s j)
      \<and> (pcb_state (process_pool s' j) = MAXRTOS_PROCESS_STATE_RUNNING \<longrightarrow>
           pcb_state (process_pool s j) = MAXRTOS_PROCESS_STATE_RUNNING)
      \<and> (queued_in s' j \<longrightarrow> queued_in s j)" by (simp add: allocated_def)
qed

lemma not_blocked_timer:
  assumes t: "timer_ok s" and b: "not_blocked i s s'"
    and i: "allocated (process_pool s) i" "pcb_state (process_pool s i) = MAXRTOS_PROCESS_STATE_RUNNING"
  shows "timer_ok s'"
proof (rule timer_ok_step[OF t])
  fix j assume j: "allocated (process_pool s') j" "waits_for_time (process_pool s' j)"
  from b obtain oper tick where p: "process_pool s' = (process_pool s)(i := (process_pool s i)\<lparr>pcb_ipc_operation := oper,
            pcb_waitlist := None, pcb_wake_tick := tick\<rparr>)" and c: "scheduler_ctx s' = scheduler_ctx s"
    by (auto simp: not_blocked_def)
  have "j \<noteq> i" using timer_okD(3)[OF t i] j(2) p by auto
  with j p queued_in_cong[OF c, of j] show "allocated (process_pool s) j \<and> same_flags (process_pool s j) (process_pool s' j)
      \<and> pcb_waitlist (process_pool s' j) = pcb_waitlist (process_pool s j)
      \<and> (pcb_state (process_pool s' j) = MAXRTOS_PROCESS_STATE_RUNNING \<longrightarrow>
           pcb_state (process_pool s j) = MAXRTOS_PROCESS_STATE_RUNNING)
      \<and> (queued_in s' j \<longrightarrow> queued_in s j)" by (simp add: allocated_def)
qed

lemma resolve_timer:
  assumes inv: "kernel_inv s" and t: "timer_ok s" and off: "off_timer (process_pool s) i"
  shows "timer_ok (snd (maxrtos_ipc_resolve tablep i result s))"
proof (cases "tablep = PTR \<and> allocated (process_pool s) i \<and> pcb_state (process_pool s i) = MAXRTOS_PROCESS_STATE_BLOCKED")
  case False
  then have "snd (maxrtos_ipc_resolve tablep i result s) = s"
    by (cases tablep) (auto simp: maxrtos_ipc_resolve_def process_get_eq)
  with t show ?thesis by simp
next
  case True
  then have i: "allocated (process_pool s) i" "pcb_state (process_pool s i) = MAXRTOS_PROCESS_STATE_BLOCKED"
    and nw: "\<not> waits_for_time (process_pool s i)" using off by (simp_all add: off_timer_def)
  define s' where "s' = snd (maxrtos_ipc_resolve PTR i result s)"
  have rl: "resumed i result s s' \<or> lost i s s'"
    using resolve_outcome[OF kernel_invD(1)[OF inv] i, of result] by (cases "has_room s i") (auto simp: s'_def)
  have "timer_ok s'"
  proof (rule timer_ok_step[OF t])
    fix j assume j: "allocated (process_pool s') j" "waits_for_time (process_pool s' j)"
    have ne: "j \<noteq> i" using rl j(2) nw by (auto simp: resumed_def lost_def Let_def)
    have "queued_in s' j = queued_in s j"
      using rl resumed_queued[OF kernel_invD(1)[OF inv] i(1), of result s' j] lost_queued[of i s s' j] ne by auto
    moreover have "process_pool s' j = process_pool s j"
      using rl ne by (auto simp: resumed_def lost_def Let_def)
    ultimately show "allocated (process_pool s) j \<and> same_flags (process_pool s j) (process_pool s' j)
      \<and> pcb_waitlist (process_pool s' j) = pcb_waitlist (process_pool s j)
      \<and> (pcb_state (process_pool s' j) = MAXRTOS_PROCESS_STATE_RUNNING \<longrightarrow>
           pcb_state (process_pool s j) = MAXRTOS_PROCESS_STATE_RUNNING)
      \<and> (queued_in s' j \<longrightarrow> queued_in s j)" using j by (simp add: allocated_def)
  qed
  with True show ?thesis by (simp add: s'_def)
qed

lemma timer_ok_pools [simp]:
  "timer_ok (s\<lparr>s_mutex_pool := mutexes\<rparr>) = timer_ok s"
  "timer_ok (s\<lparr>s_semaphore_pool := semaphores\<rparr>) = timer_ok s"
  "timer_ok (s\<lparr>s_buffer_pool := buffers\<rparr>) = timer_ok s"
  "timer_ok (s\<lparr>s_port_pool := ports\<rparr>) = timer_ok s"
  "timer_ok (s\<lparr>s_sampling_port_pool := sports\<rparr>) = timer_ok s"
  "timer_ok (s\<lparr>mem := bytes\<rparr>) = timer_ok s"
  by (simp_all add: timer_ok_def queued_in_def)

interpretation timer: ipc_invariant "\<lambda>s. kernel_inv s \<and> timer_ok s" off_timer
proof (unfold_locales, goal_cases)
  case (1 s tablep i q)
  then have k: "kernel_inv s" and t: "timer_ok s" by auto
  let ?s' = "snd (maxrtos_partition_set_process_priority tablep i q s)"
  have same: "same_but_priority s ?s'" by (rule set_priority_same[OF kernel_invD(1)[OF k]])
  have "timer_ok ?s'"
  proof (rule timer_ok_step[OF t])
    fix j assume "allocated (process_pool ?s') j" "waits_for_time (process_pool ?s' j)"
    moreover obtain p where "process_pool ?s' j = (process_pool s j)\<lparr>pcb_priority := p\<rparr>"
      using same by (auto simp: same_but_priority_def)
    ultimately show "allocated (process_pool s) j \<and> same_flags (process_pool s j) (process_pool ?s' j)
      \<and> pcb_waitlist (process_pool ?s' j) = pcb_waitlist (process_pool s j)
      \<and> (pcb_state (process_pool ?s' j) = MAXRTOS_PROCESS_STATE_RUNNING \<longrightarrow>
           pcb_state (process_pool s j) = MAXRTOS_PROCESS_STATE_RUNNING)
      \<and> (queued_in ?s' j \<longrightarrow> queued_in s j)"
      using same by (simp add: same_but_priority_def allocated_def)
  qed
  with k show ?case by (simp add: kernel_inv_set_priority)
next
  case (10 s wl tablep i wake opp outp)
  then have k: "kernel_inv s" and t: "timer_ok s" by auto
  obtain st out s' where r: "maxrtos_ipc_block_current tablep i wl wake opp outp s = (st, out, s')" by (rule prod_cases3)
  have "timer_ok s'"
  proof (cases "wl \<noteq> None \<and> opp \<noteq> None \<and> tablep = PTR \<and> outp = PTR \<and> allocated (process_pool s) i
      \<and> pcb_state (process_pool s i) = MAXRTOS_PROCESS_STATE_RUNNING")
    case False
    then have "snd (snd (maxrtos_ipc_block_current tablep i wl wake opp outp s)) = s"
      by (cases tablep; cases outp; cases wl; cases opp; cases "allocated (process_pool s) i")
        (simp_all add: maxrtos_ipc_block_current_def process_get_eq)
    with t r show ?thesis by simp
  next
    case True
    then obtain w oper where wo: "wl = Some w" "opp = Some oper" by auto
    note c = block_current_cases[OF k r[unfolded wo]]
    show ?thesis
      using c(1,2) True t blocked_on_timer[OF k t] not_blocked_timer[OF t] by (cases "st = MAXRTOS_OK") blast+
  qed
  with block_current_inv[OF k, of tablep i wl wake opp outp] r show ?case by simp
next
  case (2 s wl outp operp status out oper s')
  then have k: "kernel_inv s" and t: "timer_ok s" by auto
  from wake_one_cases[OF k 2(2)] k t left_list_timer[OF k t] show ?case by blast
next
  case (3 s wl outp operp status out oper s')
  then have k: "kernel_inv s" and t: "timer_ok s" by auto
  from take_best_cases[OF k 3(2)] k t left_list_timer[OF k t] show ?case by blast
next
  case (4 s i tablep result)
  then show ?case using resolve_step[of s i tablep result] resolve_timer[of s i tablep result]
    by (simp add: off_timer_def)
qed simp_all

interpretation timer_expiry: timeout_invariant "\<lambda>s. kernel_inv s \<and> timer_ok s" off_timer
proof (unfold_locales, goal_cases)
  case (1 s wl i operp status oper s')
  then have k: "kernel_inv s" and t: "timer_ok s" by auto
  from timeout_current_cases[OF k 1(2)] k t left_list_timer[OF k t] show ?case by blast
qed


subsection \<open>Waiting\<close>

text \<open>Writing the timing fields of a control block.\<close>

lemma upd_timing_inv:
  assumes "kernel_inv s"
    and f: "\<And>b. pcb_state (f b) = pcb_state b \<and> pcb_partition_id (f b) = pcb_partition_id b
       \<and> pcb_priority (f b) = pcb_priority b \<and> pcb_base_priority (f b) = pcb_base_priority b \<and> pcb_id (f b) = pcb_id b
       \<and> pcb_waitlist (f b) = pcb_waitlist b"
    and t: "pcb_wake_tick (f (process_pool s i)) \<in> {t, MAXRTOS_TICK_NONE, pcb_wake_tick (process_pool s i)}"
      "pcb_deadline_time (f (process_pool s i)) \<in> {t, MAXRTOS_TICK_NONE, pcb_deadline_time (process_pool s i)}"
  shows "kernel_inv (maxrtos_kernel_timing_note_due t (upd_pcb i f s))"
proof -
  have "sched_inv (upd_pcb i f s)" by (rule sched_inv_upd_pcb[OF kernel_invD(1)[OF assms(1)]]) (use f in auto)
  then have "sched_inv (maxrtos_kernel_timing_note_due t (upd_pcb i f s))" by (simp add: sched_inv_def)
  moreover have "wait_ok (process_pool (upd_pcb i f s)) (waitlists s)"
    by (rule wait_ok_step[OF kernel_invD(2)[OF assms(1)]]) (simp_all add: f allocated_def)
  moreover have "due_ok (maxrtos_kernel_timing_note_due t (upd_pcb i f s))"
    by (rule due_ok_note[OF kernel_invD(3)[OF assms(1)]]) (use f t in \<open>auto simp: allocated_def split: if_splits\<close>)
  ultimately show ?thesis by (simp add: kernel_inv_def)
qed

lemma upd_timing_inv_none:
  assumes "kernel_inv s"
    and "\<And>b. pcb_state (f b) = pcb_state b \<and> pcb_partition_id (f b) = pcb_partition_id b
       \<and> pcb_priority (f b) = pcb_priority b \<and> pcb_base_priority (f b) = pcb_base_priority b \<and> pcb_id (f b) = pcb_id b
       \<and> pcb_waitlist (f b) = pcb_waitlist b"
    and "pcb_wake_tick (f (process_pool s i)) \<in> {MAXRTOS_TICK_NONE, pcb_wake_tick (process_pool s i)}"
      "pcb_deadline_time (f (process_pool s i)) \<in> {MAXRTOS_TICK_NONE, pcb_deadline_time (process_pool s i)}"
  shows "kernel_inv (upd_pcb i f s)"
  using upd_timing_inv[OF assms(1), of f i MAXRTOS_TICK_NONE] assms(2-4) by (auto simp: maxrtos_kernel_timing_note_due_def)

lemma arm_deadline_inv:
  assumes "kernel_inv s"
  shows "kernel_inv (arm_deadline i s)"
  using assms by (auto simp: arm_deadline_def Let_def intro!: upd_timing_inv upd_timing_inv_none)

lemma upd_timer:
  assumes "timer_ok s" "\<And>b. waits_for_time (f b) \<Longrightarrow> same_flags b (f b)"
    "\<And>b. pcb_waitlist (f b) = pcb_waitlist b \<and> pcb_state (f b) = pcb_state b \<and> pcb_partition_id (f b) = pcb_partition_id b"
  shows "timer_ok (upd_pcb i f s)"
  by (rule timer_ok_step[OF assms(1)]) (use assms(2,3) in \<open>auto simp: allocated_def queued_in_def split: if_splits\<close>)

lemma note_due_timer [simp]: "timer_ok (maxrtos_kernel_timing_note_due t s) = timer_ok s"
  by (simp add: timer_ok_def queued_in_def)

lemma arm_deadline_timer: "timer_ok s \<Longrightarrow> timer_ok (arm_deadline i s)"
  by (auto simp: arm_deadline_def Let_def intro!: upd_timer)

lemma note_due_queued [simp]: "queued_in (maxrtos_kernel_timing_note_due t s) j = queued_in s j"
  by (simp add: queued_in_def)

text \<open>
  The effect of giving up the processor to wait: \<open>i\<close> is BLOCKED and not queued, and its partition
  runs the head of its most urgent queue, or nobody.
\<close>

definition paused :: "u32 \<Rightarrow> u32 option \<Rightarrow> kstate \<Rightarrow> kstate \<Rightarrow> bool" where
  "paused i out s s' \<longleftrightarrow> (let part = pcb_partition_id (process_pool s i); ctx = scheduler_ctx s part in
     process_pool s' i = (process_pool s i)\<lparr>pcb_state := MAXRTOS_PROCESS_STATE_BLOCKED\<rparr> \<and> \<not> queued_in s' i
     \<and> only_scheduling s s'
     \<and> (\<forall>j. j \<noteq> i \<longrightarrow> process_pool s' j = (if out = Some j \<and> j \<noteq> MAXRTOS_INVALID_PROCESS_ID
          then (process_pool s j)\<lparr>pcb_state := MAXRTOS_PROCESS_STATE_RUNNING\<rparr> else process_pool s j))
     \<and> current_id s' = (current_id s)(part := out_val 0 out)
     \<and> out = Some (case top_priority ctx of None \<Rightarrow> MAXRTOS_INVALID_PROCESS_ID | Some p \<Rightarrow> hd (ready ctx p)))"

lemma wait_block_outcome:
  assumes inv: "kernel_inv s" and t: "timer_ok s" and i: "allocated (process_pool s) i"
    "pcb_state (process_pool s i) = MAXRTOS_PROCESS_STATE_RUNNING"
  defines "part \<equiv> pcb_partition_id (process_pool s i)"
  assumes b: "pcb_partition_id b = part"
  shows "\<exists>st out s'. wait_idle i b (maxrtos_partition_block_and_dispatch PTR part i PTR s) = (st, out, s')
    \<and> kernel_inv s' \<and> timer_ok s'
    \<and> (if halted s part then st = MAXRTOS_ERR_PARTITION_HALTED \<and> out = None \<and> s' = s
       else st = MAXRTOS_OK \<and> paused i out s s')"
proof -
  note sk = kernel_invD(1)[OF inv] and wk = kernel_invD(2)[OF inv]
  note eq = partition_block_eq[OF sk i]
  have part: "part < of_nat MAXRTOS_MAX_PARTITIONS"
    using sched_okD(1)[OF sk[unfolded sched_inv_def] i(1)] by (simp add: pcb_ok_def part_def)
  have nq: "\<not> queued_in s i" using queued_in_ready[OF sk i(1)] i(2) by auto
  have iv: "i \<noteq> MAXRTOS_INVALID_PROCESS_ID" using i(1) by auto
  show ?thesis
  proof (cases "halted s part")
    case True
    with inv t show ?thesis by (simp add: eq[folded part_def] wait_idle_def)
  next
    case live: False
    show ?thesis
    proof (cases "top_priority (scheduler_ctx s part)")
      case None
      let ?s' = "s\<lparr>process_pool := set_pcb_state i MAXRTOS_PROCESS_STATE_BLOCKED (process_pool s),
          current_id := (current_id s)(part := MAXRTOS_INVALID_PROCESS_ID)\<rparr>"
      have r: "wait_idle i b (maxrtos_partition_block_and_dispatch PTR part i PTR s)
          = (MAXRTOS_OK, Some MAXRTOS_INVALID_PROCESS_ID, ?s')"
        using live None i(1) b
        by (simp add: eq[folded part_def] wait_idle_def process_set_state_eq set_pcb_state_def)
      have "sched_inv ?s'"
        using sched_ok_block[OF sk[unfolded sched_inv_def] i] by (simp add: sched_inv_def part_def)
      then have "kernel_inv ?s'"
        by (rule kernel_inv_step[OF inv]) (use i wait_ok_not_blocked[OF wk i(1)] in \<open>auto simp: only_scheduling_iff allocated_def\<close>)
      moreover have "timer_ok ?s'"
        by (rule timer_ok_step[OF t]) (use i in \<open>auto simp: allocated_def queued_in_def split: if_splits\<close>)
      moreover have "paused i (Some MAXRTOS_INVALID_PROCESS_ID) s ?s'"
        using None nq by (simp add: paused_def part_def Let_def queued_in_def only_scheduling_iff)
      ultimately show ?thesis unfolding r using live by (intro exI) (auto simp: part_def)
    next
      case (Some p)
      let ?n = "hd (ready (scheduler_ctx s part) p)"
      let ?s' = "(upd_ctx part (maxrtos_scheduler_pop p (scheduler_ctx s part)) s)\<lparr>
            process_pool := set_pcb_state ?n MAXRTOS_PROCESS_STATE_RUNNING
              (set_pcb_state i MAXRTOS_PROCESS_STATE_BLOCKED (process_pool s)),
            current_id := (current_id s)(part := ?n)\<rparr>"
      have e: "maxrtos_partition_block_and_dispatch PTR part i PTR s = (MAXRTOS_OK, Some ?n, ?s')"
        using live Some by (simp add: eq[folded part_def] Let_def)
      then have r: "wait_idle i b (maxrtos_partition_block_and_dispatch PTR part i PTR s) = (MAXRTOS_OK, Some ?n, ?s')"
        by (simp add: wait_idle_def)
      note pk = sched_okD(3)[OF sk[unfolded sched_inv_def] part]
      have wf: "ctx_wf (scheduler_ctx s part)" using part_okD(1)[OF pk] by (simp add: domain_ok_def)
      note d = dequeued_subset[OF dequeued_pop[OF wf Some]]
      have n: "allocated (process_pool s) ?n" "pcb_state (process_pool s ?n) = MAXRTOS_PROCESS_STATE_READY"
        using domain_okD(1,2)[OF part_okD(1)[OF pk]] top_priority_member[OF Some] by auto
      have np: "pcb_partition_id (process_pool s ?n) = part"
        using part_okD(3)[OF pk] top_priority_member[OF Some] by blast
      have ne: "?n \<noteq> i" "?n \<noteq> MAXRTOS_INVALID_PROCESS_ID" using n i by auto
      have s': "sched_inv ?s'" "only_scheduling s ?s'"
        using partition_block_inv[OF sk i] e by (simp_all add: part_def)
      have k: "kernel_inv ?s'"
        by (rule kernel_inv_step[OF inv s'])
          (use i n wait_ok_not_blocked[OF wk i(1)] wait_ok_not_blocked[OF wk n(1)] in \<open>auto simp: allocated_def\<close>)
      have nw: "\<not> waits_for_time (process_pool s ?n)" "\<not> waits_for_time (process_pool s i)"
        using timer_okD(4)[OF t n(1)] timer_okD(3)[OF t i] d(2) np by (auto simp: queued_in_def)
      have qs: "queued_in s j" if "queued_in ?s' j" for j
        using that d(1) by (cases "pcb_partition_id (process_pool s j) = part") (auto simp: queued_in_def split: if_splits)
      have "timer_ok ?s'"
      proof (rule timer_ok_step[OF t], goal_cases)
        case (1 j)
        then have "j \<noteq> i" "j \<noteq> ?n" using nw ne by auto
        with 1 qs[of j] show ?case by (simp add: allocated_def)
      qed
      moreover have "paused i (Some ?n) s ?s'"
        using Some nq qs[of i] ne s'(2) by (auto simp: paused_def part_def[symmetric] Let_def)
      ultimately show ?thesis unfolding r using live k by (intro exI) (auto simp: part_def)
    qed
  qed
qed

text \<open>What being armed gives: the deadline of the current release, or none.\<close>

definition release_deadline :: "u32 \<Rightarrow> u32 \<Rightarrow> u32" where
  "release_deadline release cap = (if cap > 0 then release + cap else MAXRTOS_TICK_NONE)"

lemma start_waiting:
  assumes k: "kernel_inv s" and t: "timer_ok s" and i: "allocated (process_pool s) i"
    "pcb_waitlist (process_pool s i) = None" "pcb_state (process_pool s i) = MAXRTOS_PROCESS_STATE_BLOCKED" "\<not> queued_in s i" "\<not> waits_for_time (process_pool s i)"
    and f: "f = (\<lambda>b. b\<lparr>pcb_periodic_waiting := True, pcb_wake_tick := w\<rparr>) \<or> f = (\<lambda>b. b\<lparr>pcb_timed_waiting := True, pcb_wake_tick := w\<rparr>)"
  shows "kernel_inv (maxrtos_kernel_timing_note_due w (upd_pcb i f s))"
    "timer_ok (maxrtos_kernel_timing_note_due w (upd_pcb i f s))"
proof -
  show "kernel_inv (maxrtos_kernel_timing_note_due w (upd_pcb i f s))"
    by (rule upd_timing_inv[OF k]) (use f in auto)
  have "timer_ok (upd_pcb i f s)"
    unfolding timer_ok_def
  proof (intro allI impI)
    fix j assume j: "allocated (process_pool (upd_pcb i f s)) j \<and> waits_for_time (process_pool (upd_pcb i f s) j)"
    show "pcb_waitlist (process_pool (upd_pcb i f s) j) = None
      \<and> pcb_state (process_pool (upd_pcb i f s) j) \<noteq> MAXRTOS_PROCESS_STATE_RUNNING \<and> \<not> queued_in (upd_pcb i f s) j
      \<and> \<not> (pcb_periodic_waiting (process_pool (upd_pcb i f s) j) \<and> pcb_timed_waiting (process_pool (upd_pcb i f s) j))"
    proof (cases "j = i")
      case True
      with i f show ?thesis by (auto simp: queued_in_def waits_for_time_def)
    next
      case False
      with j t show ?thesis by (simp add: timer_ok_def allocated_def queued_in_def)
    qed
  qed
  then show "timer_ok (maxrtos_kernel_timing_note_due w (upd_pcb i f s))" by simp
qed

text \<open>The branches of the two waits, for a running caller.\<close>

lemma wait_for_time:
  assumes inv: "kernel_inv s" "timer_ok s" and i: "allocated (process_pool s) i"
    "pcb_state (process_pool s i) = MAXRTOS_PROCESS_STATE_RUNNING"
    and b: "pcb_partition_id b = pcb_partition_id (process_pool s i)"
    and f: "f = (\<lambda>b. b\<lparr>pcb_periodic_waiting := True, pcb_wake_tick := w\<rparr>) \<or> f = (\<lambda>b. b\<lparr>pcb_timed_waiting := True, pcb_wake_tick := w\<rparr>)"
  shows "\<exists>st out s'. wait_idle i b (maxrtos_partition_block_and_dispatch PTR (pcb_partition_id (process_pool s i)) i PTR s) = (st, out, s')
    \<and> (if halted s (pcb_partition_id (process_pool s i)) then st = MAXRTOS_ERR_PARTITION_HALTED \<and> out = None \<and> s' = s
       else st = MAXRTOS_OK \<and> paused i out s s' \<and> kernel_inv (maxrtos_kernel_timing_note_due w (upd_pcb i f s'))
         \<and> timer_ok (maxrtos_kernel_timing_note_due w (upd_pcb i f s')))"
proof (cases "halted s (pcb_partition_id (process_pool s i))")
  case True
  with wait_block_outcome[OF inv i b] show ?thesis by auto
next
  case False
  with wait_block_outcome[OF inv i b] obtain out s' where
    w: "wait_idle i b (maxrtos_partition_block_and_dispatch PTR (pcb_partition_id (process_pool s i)) i PTR s) = (MAXRTOS_OK, out, s')"
    "kernel_inv s'" "timer_ok s'" "paused i out s s'" by auto
  then have p: "process_pool s' i = (process_pool s i)\<lparr>pcb_state := MAXRTOS_PROCESS_STATE_BLOCKED\<rparr>" "\<not> queued_in s' i"
    by (simp_all add: paused_def Let_def)
  have "pcb_waitlist (process_pool s i) = None"
    using wait_ok_not_blocked[OF kernel_invD(2)[OF inv(1)] i(1)] i(2) by simp
  with p i(1) have "allocated (process_pool s') i" "pcb_waitlist (process_pool s' i) = None"
    "pcb_state (process_pool s' i) = MAXRTOS_PROCESS_STATE_BLOCKED" by (simp_all add: allocated_def)
  moreover have "\<not> waits_for_time (process_pool s' i)" using timer_okD(3)[OF inv(2) i] by (simp add: p(1))
  ultimately have "kernel_inv (maxrtos_kernel_timing_note_due w (upd_pcb i f s'))
      \<and> timer_ok (maxrtos_kernel_timing_note_due w (upd_pcb i f s'))"
    using start_waiting[OF w(2,3) _ _ _ p(2) _ f] by blast
  with w False show ?thesis by auto
qed

lemma periodic_wait_outcome:
  assumes inv: "kernel_inv s" "timer_ok s" and i: "allocated (process_pool s) i"
    "pcb_state (process_pool s i) = MAXRTOS_PROCESS_STATE_RUNNING" "pcb_period (process_pool s i) \<noteq> 0"
  defines "b \<equiv> process_pool s i"
  defines "next_release \<equiv> pcb_release_time b + pcb_period b"
  defines "s1 \<equiv> upd_pcb i (\<lambda>b. b\<lparr>pcb_deadline_time := MAXRTOS_TICK_NONE\<rparr>) s"
  shows "\<exists>out s2 s'. kernel_inv s' \<and> timer_ok s' \<and> maxrtos_kernel_periodic_wait PTR i PTR s =
    (if next_release \<le> s_current_tick s then (MAXRTOS_OK, None, s')
     else if halted s (pcb_partition_id b) then (MAXRTOS_ERR_PARTITION_HALTED, None, s')
     else (MAXRTOS_PENDING, out, s'))
    \<and> (if next_release \<le> s_current_tick s then s' = arm_deadline i (upd_pcb i (\<lambda>b. b\<lparr>pcb_release_time := next_release\<rparr>) s1)
       else if halted s (pcb_partition_id b) then s' = arm_deadline i s1
       else paused i out s1 s2 \<and> s' = maxrtos_kernel_timing_note_due next_release
                (upd_pcb i (\<lambda>b. b\<lparr>pcb_periodic_waiting := True, pcb_wake_tick := next_release\<rparr>) s2))"
proof -
  have k1: "kernel_inv s1" unfolding s1_def by (rule upd_timing_inv_none[OF inv(1)]) simp_all
  have t1: "timer_ok s1" unfolding s1_def by (rule upd_timer[OF inv(2)]) simp_all
  have i1: "allocated (process_pool s1) i" "pcb_state (process_pool s1 i) = MAXRTOS_PROCESS_STATE_RUNNING"
    "pcb_partition_id (process_pool s1 i) = pcb_partition_id b" "halted s1 = halted s"
    using i by (simp_all add: allocated_def s1_def b_def)
  have code: "maxrtos_kernel_periodic_wait PTR i PTR s =
    (if next_release \<le> s_current_tick s
     then (MAXRTOS_OK, None, arm_deadline i (upd_pcb i (\<lambda>b. b\<lparr>pcb_release_time := next_release\<rparr>) s1))
     else (case wait_idle i b (maxrtos_partition_block_and_dispatch PTR (pcb_partition_id b) i PTR s1) of
       (status, out, s2) \<Rightarrow> if status = MAXRTOS_OK
         then (MAXRTOS_PENDING, out, maxrtos_kernel_timing_note_due next_release
                (upd_pcb i (\<lambda>b. b\<lparr>pcb_periodic_waiting := True, pcb_wake_tick := next_release\<rparr>) s2))
         else (status, out, arm_deadline i s2)))"
    unfolding next_release_def b_def s1_def
    using i by (simp add: maxrtos_kernel_periodic_wait_def process_get_eq Let_def maxrtos_kernel_tick_now_def)
  show ?thesis
  proof (cases "next_release \<le> s_current_tick s")
    case True
    let ?s2 = "upd_pcb i (\<lambda>b. b\<lparr>pcb_release_time := next_release\<rparr>) s1"
    have "kernel_inv ?s2" "timer_ok ?s2"
      by (rule upd_timing_inv_none[OF k1]; simp) (rule upd_timer[OF t1]; simp)
    then show ?thesis using True
      by (intro exI[of _ None] exI[of _ s1] exI[of _ "arm_deadline i ?s2"]) (simp add: code arm_deadline_inv arm_deadline_timer)
  next
    case early: False
    from wait_for_time[OF k1 t1 i1(1,2), of b "\<lambda>b. b\<lparr>pcb_periodic_waiting := True, pcb_wake_tick := next_release\<rparr>" next_release]
      i1(3,4) obtain st out s2 where
      w: "wait_idle i b (maxrtos_partition_block_and_dispatch PTR (pcb_partition_id b) i PTR s1) = (st, out, s2)"
      "if halted s (pcb_partition_id b) then st = MAXRTOS_ERR_PARTITION_HALTED \<and> out = None \<and> s2 = s1
       else st = MAXRTOS_OK \<and> paused i out s1 s2
         \<and> kernel_inv (maxrtos_kernel_timing_note_due next_release
              (upd_pcb i (\<lambda>b. b\<lparr>pcb_periodic_waiting := True, pcb_wake_tick := next_release\<rparr>) s2))
         \<and> timer_ok (maxrtos_kernel_timing_note_due next_release
              (upd_pcb i (\<lambda>b. b\<lparr>pcb_periodic_waiting := True, pcb_wake_tick := next_release\<rparr>) s2))"
      by fastforce
    show ?thesis
    proof (cases "halted s (pcb_partition_id b)")
      case True
      with early w arm_deadline_inv[OF k1] arm_deadline_timer[OF t1] show ?thesis
        by (intro exI[of _ out] exI[of _ s2] exI[of _ "arm_deadline i s1"]) (simp add: code)
    next
      case False
      with early w show ?thesis
        by (intro exI[of _ out] exI[of _ s2] exI) (auto simp: code)
    qed
  qed
qed

text \<open>
  C38. Waiting for the next release: a running periodic process that calls \<open>periodic_wait\<close> closes its
  release. If the next release point is already due it starts that release at once, with the
  deadline of the new release, and keeps running. Otherwise it is BLOCKED and not queued, waits
  for the release point with no deadline armed, the due bound covers the release point, and its
  partition runs the head of its most urgent ready queue or idles. In a halted partition the call fails and the deadline of the
  open release stays armed. In all cases the kernel and timer invariants hold.
\<close>

theorem periodic_wait_spec:
  assumes "kernel_inv s" "timer_ok s" "allocated (process_pool s) i"
    "pcb_state (process_pool s i) = MAXRTOS_PROCESS_STATE_RUNNING" "pcb_period (process_pool s i) \<noteq> 0"
  defines "b \<equiv> process_pool s i"
  defines "next_release \<equiv> pcb_release_time b + pcb_period b"
  shows "case maxrtos_kernel_periodic_wait PTR i PTR s of (status, out, s') \<Rightarrow> kernel_inv s' \<and> timer_ok s' \<and>
    (if next_release \<le> s_current_tick s then
       status = MAXRTOS_OK \<and> out = None \<and> process_pool s' = (process_pool s)(i := b\<lparr>pcb_release_time := next_release,
         pcb_deadline_time := release_deadline next_release (pcb_time_capacity b)\<rparr>)
     else if halted s (pcb_partition_id b) then
       status = MAXRTOS_ERR_PARTITION_HALTED \<and> out = None \<and> process_pool s' = (process_pool s)(i :=
         b\<lparr>pcb_deadline_time := release_deadline (pcb_release_time b) (pcb_time_capacity b)\<rparr>)
     else status = MAXRTOS_PENDING \<and> s_next_due s' \<le> next_release \<and> current_id s' (pcb_partition_id b) \<noteq> i
       \<and> process_pool s' i = b\<lparr>pcb_deadline_time := MAXRTOS_TICK_NONE, pcb_state := MAXRTOS_PROCESS_STATE_BLOCKED,
            pcb_periodic_waiting := True, pcb_wake_tick := next_release\<rparr>
       \<and> \<not> queued_in s' i \<and> out = Some (case top_priority (scheduler_ctx s (pcb_partition_id b)) of
            None \<Rightarrow> MAXRTOS_INVALID_PROCESS_ID | Some p \<Rightarrow> hd (ready (scheduler_ctx s (pcb_partition_id b)) p)))"
proof -
  let ?s1 = "upd_pcb i (\<lambda>b. b\<lparr>pcb_deadline_time := MAXRTOS_TICK_NONE\<rparr>) s"
  from periodic_wait_outcome[OF assms(1-5)] obtain out s2 s' where o: "kernel_inv s'" "timer_ok s'"
    "maxrtos_kernel_periodic_wait PTR i PTR s = (if next_release \<le> s_current_tick s then (MAXRTOS_OK, None, s')
     else if halted s (pcb_partition_id b) then (MAXRTOS_ERR_PARTITION_HALTED, None, s') else (MAXRTOS_PENDING, out, s'))"
    "if next_release \<le> s_current_tick s then s' = arm_deadline i (upd_pcb i (\<lambda>b. b\<lparr>pcb_release_time := next_release\<rparr>) ?s1)
       else if halted s (pcb_partition_id b) then s' = arm_deadline i ?s1
       else paused i out ?s1 s2 \<and> s' = maxrtos_kernel_timing_note_due next_release
                (upd_pcb i (\<lambda>b. b\<lparr>pcb_periodic_waiting := True, pcb_wake_tick := next_release\<rparr>) s2)"
    unfolding b_def next_release_def by blast
  have late: "process_pool (arm_deadline i (upd_pcb i (\<lambda>b. b\<lparr>pcb_release_time := next_release\<rparr>) ?s1))
      = (process_pool s)(i := b\<lparr>pcb_release_time := next_release,
          pcb_deadline_time := release_deadline next_release (pcb_time_capacity b)\<rparr>)"
    "process_pool (arm_deadline i ?s1) = (process_pool s)(i :=
         b\<lparr>pcb_deadline_time := release_deadline (pcb_release_time b) (pcb_time_capacity b)\<rparr>)"
    by (rule ext; simp add: arm_deadline_pool release_deadline_def b_def)+
  have run: "current_id s' (pcb_partition_id (process_pool s' i)) \<noteq> i" if "pcb_state (process_pool s' i) = MAXRTOS_PROCESS_STATE_BLOCKED"
    "allocated (process_pool s') i"
  proof
    assume c: "current_id s' (pcb_partition_id (process_pool s' i)) = i"
    note ok = kernel_invD(1)[OF o(1), unfolded sched_inv_def]
    have "pcb_partition_id (process_pool s' i) < of_nat MAXRTOS_MAX_PARTITIONS"
      using sched_okD(1)[OF ok that(2)] by (simp add: pcb_ok_def)
    from part_okD(2)[OF sched_okD(3)[OF ok this]] c that show False by (auto simp: running_in_def)
  qed
  show ?thesis
  proof (cases "next_release \<le> s_current_tick s \<or> halted s (pcb_partition_id b)")
    case True
    with o late show ?thesis by auto
  next
    case False
    with o(4) have p: "paused i out ?s1 s2" "s' = maxrtos_kernel_timing_note_due next_release
                (upd_pcb i (\<lambda>b. b\<lparr>pcb_periodic_waiting := True, pcb_wake_tick := next_release\<rparr>) s2)" by auto
    then have pi: "process_pool s' i = b\<lparr>pcb_deadline_time := MAXRTOS_TICK_NONE, pcb_state := MAXRTOS_PROCESS_STATE_BLOCKED,
            pcb_periodic_waiting := True, pcb_wake_tick := next_release\<rparr>" "\<not> queued_in s' i"
      "out = Some (case top_priority (scheduler_ctx s (pcb_partition_id b)) of
            None \<Rightarrow> MAXRTOS_INVALID_PROCESS_ID | Some p \<Rightarrow> hd (ready (scheduler_ctx s (pcb_partition_id b)) p))"
      using queued_in_cong[of "upd_pcb i (\<lambda>b. b\<lparr>pcb_periodic_waiting := True, pcb_wake_tick := next_release\<rparr>) s2" s2 i]
      unfolding b_def by (simp_all add: paused_def Let_def)
    have "current_id s' (pcb_partition_id b) \<noteq> i" using run assms(3) by (simp add: allocated_def pi(1))
    moreover have "s_next_due s' \<le> next_release" unfolding p(2) by (rule note_due_le(1))
    ultimately show ?thesis using False o(1-3) pi by simp
  qed
qed

subsection \<open>Setting and restarting the timing of a process\<close>

lemma rearm_timing_inv:
  assumes "kernel_inv s" "timer_ok s"
  shows "kernel_inv (maxrtos_process_rearm_timing pcbp now s)" "timer_ok (maxrtos_process_rearm_timing pcbp now s)"
proof -
  have "kernel_inv (maxrtos_process_rearm_timing pcbp now s) \<and> timer_ok (maxrtos_process_rearm_timing pcbp now s)"
  proof (cases pcbp)
    case (Some i)
    let ?s1 = "upd_pcb i (\<lambda>b. b\<lparr>pcb_periodic_waiting := False, pcb_timed_waiting := False, pcb_release_time := now\<rparr>) s"
    have "kernel_inv ?s1" "timer_ok ?s1"
      by (rule upd_timing_inv_none[OF assms(1)]; simp) (rule upd_timer[OF assms(2)]; simp add: waits_for_time_def)
    with Some show ?thesis by (simp add: maxrtos_process_rearm_timing_def arm_deadline_inv arm_deadline_timer)
  qed (use assms in \<open>simp add: maxrtos_process_rearm_timing_def\<close>)
  then show "kernel_inv (maxrtos_process_rearm_timing pcbp now s)" "timer_ok (maxrtos_process_rearm_timing pcbp now s)"
    by simp_all
qed

lemma set_timing_inv:
  assumes "kernel_inv s" "timer_ok s"
  shows "kernel_inv (snd (maxrtos_process_set_timing i per cap s))" "timer_ok (snd (maxrtos_process_set_timing i per cap s))"
proof -
  let ?s1 = "upd_pcb i (\<lambda>b. b\<lparr>pcb_period := per, pcb_time_capacity := cap\<rparr>) s"
  have "kernel_inv ?s1" "timer_ok ?s1"
    by (rule upd_timing_inv_none[OF assms(1)]; simp) (rule upd_timer[OF assms(2)]; simp add: waits_for_time_def)
  then show "kernel_inv (snd (maxrtos_process_set_timing i per cap s))" "timer_ok (snd (maxrtos_process_set_timing i per cap s))"
    using assms by (simp_all add: maxrtos_process_set_timing_def Let_def rearm_timing_inv split: option.split)
qed

lemma rearm_all_inv:
  assumes "kernel_inv s" "timer_ok s"
  shows "kernel_inv (maxrtos_kernel_rearm_all_timing s) \<and> timer_ok (maxrtos_kernel_rearm_all_timing s)"
  unfolding maxrtos_kernel_rearm_all_timing_def
  by (rule fold_invariant[where Q = "\<lambda>_. True"]) (use assms in \<open>auto simp: rearm_timing_inv split: option.split\<close>)

lemma example_timer_ok: "timer_ok example_state"
  by (simp add: timer_ok_def waits_for_time_def example_state_def example_pool_def example_pcb_def)

text \<open>Process 9 is periodic with period 20 and time capacity 10.\<close>

definition example_periodic :: kstate where
  "example_periodic = snd (maxrtos_process_set_timing 9 20 10 example_state)"

lemma example_periodic_inv: "kernel_inv example_periodic" "timer_ok example_periodic"
  using set_timing_inv[OF example_kernel_inv example_timer_ok] by (simp_all add: example_periodic_def)

lemma periodic_wait_spec_witness:
  "case maxrtos_kernel_periodic_wait PTR 9 PTR example_periodic of (status, out, s') \<Rightarrow>
    status = MAXRTOS_PENDING \<and> s_next_due s' \<le> 20 \<and> timer_ok s'"
proof -
  have "allocated (process_pool example_periodic) 9"
    "pcb_state (process_pool example_periodic 9) = MAXRTOS_PROCESS_STATE_RUNNING"
    "pcb_period (process_pool example_periodic 9) \<noteq> 0" "pcb_period (process_pool example_periodic 9) = 20"
    "pcb_release_time (process_pool example_periodic 9) = 0" "s_current_tick example_periodic = 0"
    "\<not> halted example_periodic (pcb_partition_id (process_pool example_periodic 9))" by code_simp+
  with periodic_wait_spec[OF example_periodic_inv, of 9] show ?thesis by auto
qed

subsection \<open>The time services keep the invariants\<close>

lemma periodic_wait_inv:
  assumes "kernel_inv s" "timer_ok s"
  shows "kernel_inv (snd (snd (maxrtos_kernel_periodic_wait tablep i outp s)))
    \<and> timer_ok (snd (snd (maxrtos_kernel_periodic_wait tablep i outp s)))"
proof (cases "tablep = PTR \<and> outp = PTR \<and> allocated (process_pool s) i
    \<and> pcb_state (process_pool s i) = MAXRTOS_PROCESS_STATE_RUNNING \<and> pcb_period (process_pool s i) \<noteq> 0")
  case False
  then have "snd (snd (maxrtos_kernel_periodic_wait tablep i outp s)) = s"
    by (cases tablep; cases outp; cases "allocated (process_pool s) i")
      (auto simp: maxrtos_kernel_periodic_wait_def process_get_eq)
  with assms show ?thesis by simp
next
  case True
  with periodic_wait_outcome[OF assms, of i] show ?thesis by (auto split: if_splits)
qed

lemma timed_wait_outcome:
  assumes inv: "kernel_inv s" "timer_ok s" and i: "allocated (process_pool s) i"
    "pcb_state (process_pool s i) = MAXRTOS_PROCESS_STATE_RUNNING"
    and r: "maxrtos_kernel_timed_wait PTR i delay PTR s = (status, out, s')"
  shows "s' = s \<and> status \<noteq> MAXRTOS_PENDING \<or> status = MAXRTOS_PENDING
    \<and> (\<exists>wake s2. maxrtos_kernel_tick_after delay PTR s = (MAXRTOS_OK, Some wake) \<and> delay \<noteq> MAXRTOS_TIMEOUT_INFINITE
       \<and> paused i out s s2 \<and> kernel_inv s' \<and> timer_ok s'
       \<and> s' = maxrtos_kernel_timing_note_due wake
            (upd_pcb i (\<lambda>b. b\<lparr>pcb_timed_waiting := True, pcb_wake_tick := wake\<rparr>) s2))"
proof (cases "\<exists>wake. delay \<noteq> MAXRTOS_TIMEOUT_INFINITE \<and> delay \<noteq> 0
    \<and> maxrtos_kernel_tick_after delay PTR s = (MAXRTOS_OK, Some wake)")
  case False
  with r i show ?thesis
    by (auto simp: maxrtos_kernel_timed_wait_def process_get_eq maxrtos_kernel_tick_after_def split: if_splits)
next
  case True
  then obtain wake where w: "delay \<noteq> MAXRTOS_TIMEOUT_INFINITE" "delay \<noteq> 0"
    "maxrtos_kernel_tick_after delay PTR s = (MAXRTOS_OK, Some wake)" by blast
  from wait_for_time[OF inv i refl, of "\<lambda>b. b\<lparr>pcb_timed_waiting := True, pcb_wake_tick := wake\<rparr>" wake] obtain st out2 s2 where
    o: "wait_idle i (process_pool s i) (maxrtos_partition_block_and_dispatch PTR (pcb_partition_id (process_pool s i)) i PTR s) = (st, out2, s2)"
    "if halted s (pcb_partition_id (process_pool s i)) then st = MAXRTOS_ERR_PARTITION_HALTED \<and> out2 = None \<and> s2 = s
       else st = MAXRTOS_OK \<and> paused i out2 s s2
         \<and> kernel_inv (maxrtos_kernel_timing_note_due wake
              (upd_pcb i (\<lambda>b. b\<lparr>pcb_timed_waiting := True, pcb_wake_tick := wake\<rparr>) s2))
         \<and> timer_ok (maxrtos_kernel_timing_note_due wake
              (upd_pcb i (\<lambda>b. b\<lparr>pcb_timed_waiting := True, pcb_wake_tick := wake\<rparr>) s2))" by blast
  with r w i show ?thesis
    by (cases "halted s (pcb_partition_id (process_pool s i))")
      (auto simp: maxrtos_kernel_timed_wait_def process_get_eq)
qed

lemma timed_wait_inv:
  assumes "kernel_inv s" "timer_ok s"
  shows "kernel_inv (snd (snd (maxrtos_kernel_timed_wait tablep i delay outp s)))
    \<and> timer_ok (snd (snd (maxrtos_kernel_timed_wait tablep i delay outp s)))"
proof (cases "tablep = PTR \<and> outp = PTR \<and> allocated (process_pool s) i
    \<and> pcb_state (process_pool s i) = MAXRTOS_PROCESS_STATE_RUNNING")
  case False
  then have "snd (snd (maxrtos_kernel_timed_wait tablep i delay outp s)) = s"
    by (cases tablep; cases outp; cases "allocated (process_pool s) i")
      (auto simp: maxrtos_kernel_timed_wait_def process_get_eq)
  with assms show ?thesis by simp
next
  case True
  obtain st out s' where r: "maxrtos_kernel_timed_wait PTR i delay PTR s = (st, out, s')" by (rule prod_cases3)
  from True timed_wait_outcome[OF assms _ _ r] assms r show ?thesis by auto
qed

text \<open>Releases.\<close>

definition due_release :: "u32 \<Rightarrow> kstate \<Rightarrow> u32 \<Rightarrow> bool" where
  "due_release now s i \<longleftrightarrow> allocated (process_pool s) i
     \<and> pcb_state (process_pool s i) = MAXRTOS_PROCESS_STATE_BLOCKED
     \<and> waits_for_time (process_pool s i) \<and> now \<ge> pcb_wake_tick (process_pool s i)"

text \<open>The control block of a released process before it is made READY.\<close>

definition released :: "pcb \<Rightarrow> pcb" where
  "released b = (if pcb_periodic_waiting b
     then b\<lparr>pcb_release_time := pcb_wake_tick b, pcb_wake_tick := MAXRTOS_TICK_NONE, pcb_periodic_waiting := False,
            pcb_deadline_time := release_deadline (pcb_wake_tick b) (pcb_time_capacity b)\<rparr>
     else b\<lparr>pcb_wake_tick := MAXRTOS_TICK_NONE, pcb_timed_waiting := False\<rparr>)"

definition release_pcb :: "bool \<Rightarrow> pcb \<Rightarrow> pcb" where
  "release_pcb queued b = (if queued
     then (released b)\<lparr>pcb_state := MAXRTOS_PROCESS_STATE_READY, pcb_ipc_result := MAXRTOS_OK, pcb_ipc_result_pending := True\<rparr>
     else (released b)\<lparr>pcb_state := MAXRTOS_PROCESS_STATE_READY\<rparr>)"

text \<open>What is true once exactly the processes of \<open>L\<close> have been released.\<close>

definition released_all :: "u32 set \<Rightarrow> kstate \<Rightarrow> kstate \<Rightarrow> bool" where
  "released_all L s s' \<longleftrightarrow> kernel_inv s' \<and> timer_ok s' \<and> only_ipc s s' \<and> current_id s' = current_id s
     \<and> waitlists s' = waitlists s
     \<and> (\<forall>i \<in> L. process_pool s' i = release_pcb (queued_in s' i) (process_pool s i))
     \<and> (\<forall>i. i \<notin> L \<longrightarrow> process_pool s' i = process_pool s i \<and> queued_in s' i = queued_in s i)
     \<and> (L = {} \<longrightarrow> s' = s)"

lemma released_all_empty: "kernel_inv s \<Longrightarrow> timer_ok s \<Longrightarrow> released_all {} s s"
  by (simp add: released_all_def)

lemma released_all_trans:
  assumes "released_all L s s1" "released_all M s1 s2" "L \<inter> M = {}"
  shows "released_all (L \<union> M) s s2"
proof -
  have "process_pool s2 i = release_pcb (queued_in s2 i) (process_pool s i)" if "i \<in> L \<union> M" for i
  proof (cases "i \<in> M")
    case True
    with assms have "i \<notin> L" by auto
    with True assms(1,2) show ?thesis by (simp add: released_all_def)
  next
    case False
    with that assms(1,2) show ?thesis by (simp add: released_all_def)
  qed
  with assms(1,2) show ?thesis by (auto simp: released_all_def intro: only_ipc_trans)
qed

lemma release_step_outcome:
  assumes inv: "kernel_inv s" "timer_ok s" and d: "due_release now s i"
  shows "\<exists>s'. release_step PTR now i (n, s) = (if queued_in s' i then n + 1 else n, s') \<and> released_all {i} s s'
    \<and> joins [i] s s'"
proof -
  let ?b = "process_pool s i"
  define s1 where "s1 = (if pcb_periodic_waiting ?b
     then arm_deadline i (upd_pcb i (\<lambda>b. b\<lparr>pcb_release_time := pcb_wake_tick b,
                      pcb_wake_tick := MAXRTOS_TICK_NONE, pcb_periodic_waiting := False\<rparr>) s)
     else upd_pcb i (\<lambda>b. b\<lparr>pcb_wake_tick := MAXRTOS_TICK_NONE, pcb_timed_waiting := False\<rparr>) s)"
  from d have i: "allocated (process_pool s) i" "pcb_state ?b = MAXRTOS_PROCESS_STATE_BLOCKED" "waits_for_time ?b"
    "now \<ge> pcb_wake_tick ?b" by (auto simp: due_release_def)
  from inv(2) i have one: "\<not> (pcb_periodic_waiting ?b \<and> pcb_timed_waiting ?b)" and nw: "pcb_waitlist ?b = None"
    and nq: "\<not> queued_in s i" by (auto simp: timer_ok_def)
  have k1: "kernel_inv s1"
    using upd_timing_inv_none[OF inv(1), of "\<lambda>b. b\<lparr>pcb_release_time := pcb_wake_tick b,
        pcb_wake_tick := MAXRTOS_TICK_NONE, pcb_periodic_waiting := False\<rparr>" i]
      upd_timing_inv_none[OF inv(1), of "\<lambda>b. b\<lparr>pcb_wake_tick := MAXRTOS_TICK_NONE, pcb_timed_waiting := False\<rparr>" i]
    by (simp add: s1_def arm_deadline_inv)
  have p1: "process_pool s1 = (process_pool s)(i := released ?b)"
    by (rule ext) (simp add: s1_def arm_deadline_pool released_def release_deadline_def)
  have q1: "queued_in s1 j = queued_in s j" for j
    by (rule queued_in_cong) (simp_all add: s1_def arm_deadline_pool)
  have off: "\<not> waits_for_time (released ?b)" using one i(3) by (auto simp: released_def waits_for_time_def)
  have t1: "timer_ok s1"
  proof (rule timer_ok_step[OF inv(2)], unfold q1, goal_cases)
    case (1 j)
    with off have "j \<noteq> i" unfolding p1 by auto
    with 1 show ?case unfolding p1 by (simp add: allocated_def)
  qed
  have f1: "only_ipc s s1" "current_id s1 = current_id s" "waitlists s1 = waitlists s"
    by (simp_all add: s1_def only_ipc_def)
  have rb: "pcb_state (released ?b) = pcb_state ?b" "pcb_waitlist (released ?b) = pcb_waitlist ?b"
    by (simp_all add: released_def)
  have i1: "allocated (process_pool s1) i" "pcb_state (process_pool s1 i) = MAXRTOS_PROCESS_STATE_BLOCKED"
    unfolding p1 using i rb by (simp_all add: allocated_def)
  have code: "release_step PTR now i (n, s) = (case maxrtos_ipc_resolve PTR i MAXRTOS_OK s1 of
      (status, s2) \<Rightarrow> (if status = MAXRTOS_OK then n + 1 else n, s2))"
    using i by (auto simp: s1_def release_step_def process_get_eq waits_for_time_def)
  define s2 where "s2 = snd (maxrtos_ipc_resolve PTR i MAXRTOS_OK s1)"
  have k2: "kernel_inv s2" unfolding s2_def
    by (rule conjunct1[OF resolve_step[OF k1]]) (simp only: p1 fun_upd_same rb nw)
  have t2: "timer_ok s2" unfolding s2_def
    by (rule resolve_timer[OF k1 t1]) (simp only: off_timer_def p1 fun_upd_same rb nw off simp_thms)
  have c1: "scheduler_ctx s1 = scheduler_ctx s" "pcb_partition_id (process_pool s1 j) = pcb_partition_id (process_pool s j)"
    "pcb_priority (process_pool s1 j) = pcb_priority (process_pool s j)" for j
    unfolding p1 by (simp_all add: s1_def released_def)
  then have "joined [i] s1 = joined [i] s" by (simp add: joined_def fun_eq_iff)
  with resolve_joins[OF kernel_invD(1)[OF k1] i1, of MAXRTOS_OK] c1 have j: "joins [i] s s2"
    by (simp add: joins_def s2_def)
  show ?thesis
  proof (cases "has_room s1 i")
    case True
    from resolve_outcome(1)[OF kernel_invD(1)[OF k1] i1 True, of MAXRTOS_OK] have
      r: "maxrtos_ipc_resolve PTR i MAXRTOS_OK s1 = (MAXRTOS_OK, s2)" "resumed i MAXRTOS_OK s1 s2" by (auto simp: s2_def)
    have q: "queued_in s2 j \<longleftrightarrow> j = i \<or> queued_in s j" for j
      using resumed_queued[OF kernel_invD(1)[OF k1] i1(1) r(2)] q1 by simp
    have "process_pool s2 = (process_pool s1)(i := (process_pool s1 i)\<lparr>pcb_state := MAXRTOS_PROCESS_STATE_READY,
           pcb_ipc_result := MAXRTOS_OK, pcb_ipc_result_pending := True\<rparr>)" and o: "only_scheduling s1 s2"
      "current_id s2 = current_id s1" using r(2) by (simp_all only: resumed_def Let_def)
    then have p2: "process_pool s2 = (process_pool s)(i := release_pcb True ?b)"
      unfolding p1 by (simp add: release_pcb_def)
    have "only_ipc s s2" "waitlists s2 = waitlists s"
      using only_ipc_trans[OF f1(1) only_scheduling_ipc[OF o(1)]] o(1) f1(3) by (simp_all add: only_scheduling_iff)
    then have "released_all {i} s s2" using k2 t2 p2 q o(2) f1(2) by (simp add: released_all_def)
    then show ?thesis using q j by (intro exI[of _ s2]) (simp add: code r(1))
  next
    case False
    from resolve_outcome(2)[OF kernel_invD(1)[OF k1] i1 False, of MAXRTOS_OK] have
      r: "maxrtos_ipc_resolve PTR i MAXRTOS_OK s1 = (MAXRTOS_ERR_QUEUE_FULL, s2)" "lost i s1 s2" by (auto simp: s2_def)
    have q: "queued_in s2 j \<longleftrightarrow> queued_in s j" for j using lost_queued[OF r(2)] q1 by simp
    have s2: "s2 = upd_pcb i (\<lambda>b. b\<lparr>pcb_state := MAXRTOS_PROCESS_STATE_READY\<rparr>) s1" using r(2) by (simp only: lost_def)
    have p2: "process_pool s2 = (process_pool s)(i := release_pcb False ?b)"
      unfolding s2 upd_pcb_fields p1 by (simp add: release_pcb_def)
    have "only_ipc s s2" "waitlists s2 = waitlists s" "current_id s2 = current_id s"
      using f1 unfolding s2 only_ipc_upd upd_pcb_fields by simp_all
    then have "released_all {i} s s2" using k2 t2 p2 q nq by (simp add: released_all_def)
    then show ?thesis using q nq j by (intro exI[of _ s2]) (simp add: code r(1))
  qed
qed

lemma release_skip:
  assumes "\<not> due_release now s i"
  shows "release_step tablep now i (n, s) = (n, s)"
  using assms by (auto simp: release_step_def process_get_eq due_release_def waits_for_time_def)

lemma release_fold_outcome:
  assumes "kernel_inv s" "timer_ok s" "distinct is"
  shows "\<exists>s'. fold (release_step PTR now) is (n, s)
      = (n + length (filter (\<lambda>i. due_release now s i \<and> queued_in s' i) is), s')
    \<and> released_all {i \<in> set is. due_release now s i} s s' \<and> joins (filter (due_release now s) is) s s'"
  using assms
proof (induction "is" arbitrary: n s)
  case Nil
  then show ?case by (simp add: released_all_empty joins_empty)
next
  case (Cons i "is")
  then have d: "i \<notin> set is" "distinct is" by simp_all
  show ?case
  proof (cases "due_release now s i")
    case False
    then have f: "fold (release_step PTR now) (i # is) (n, s) = fold (release_step PTR now) is (n, s)"
      by (simp add: release_skip)
    have "{j \<in> set (i # is). due_release now s j} = {j \<in> set is. due_release now s j}" using False by auto
    moreover have "filter (\<lambda>j. due_release now s j \<and> queued_in s' j) (i # is)
        = filter (\<lambda>j. due_release now s j \<and> queued_in s' j) is" for s' using False by auto
    moreover have "filter (due_release now s) (i # is) = filter (due_release now s) is" using False by simp
    ultimately show ?thesis unfolding f using Cons.IH[OF Cons.prems(1,2) d(2), of n] by presburger
  next
    case True
    let ?L = "{j \<in> set is. due_release now s j}"
    from release_step_outcome[OF Cons.prems(1,2) True, of n] obtain s1 where e:
      "release_step PTR now i (n, s) = (if queued_in s1 i then n + 1 else n, s1)" "released_all {i} s s1"
      and j1: "joins [i] s s1" by blast
    then have k1: "kernel_inv s1" "timer_ok s1" by (simp_all add: released_all_def)
    from Cons.IH[OF k1 d(2), of "if queued_in s1 i then n + 1 else n"] obtain s2 where f:
      "fold (release_step PTR now) is (if queued_in s1 i then n + 1 else n, s1)
        = ((if queued_in s1 i then n + 1 else n) + length (filter (\<lambda>j. due_release now s1 j \<and> queued_in s2 j) is), s2)"
      "released_all {j \<in> set is. due_release now s1 j} s1 s2" and j2: "joins (filter (due_release now s1) is) s1 s2" by blast
    have "due_release now s1 j \<longleftrightarrow> due_release now s j" if "j \<noteq> i" for j
      using e(2) that by (simp add: released_all_def due_release_def allocated_def)
    with d(1) have same: "j \<in> set is \<Longrightarrow> due_release now s1 j \<longleftrightarrow> due_release now s j" for j by metis
    then have L: "{j \<in> set is. due_release now s1 j} = ?L" by blast
    have c: "filter (\<lambda>j. due_release now s1 j \<and> queued_in s2 j) is = filter (\<lambda>j. due_release now s j \<and> queued_in s2 j) is"
      by (rule filter_cong[OF refl]) (use same in auto)
    have "queued_in s2 i = queued_in s1 i" using f(2) d(1) by (simp add: released_all_def)
    then have "fold (release_step PTR now) (i # is) (n, s)
        = (n + length (filter (\<lambda>j. due_release now s j \<and> queued_in s2 j) (i # is)), s2)"
      using e(1) f(1) True c by simp
    moreover have "filter (due_release now s1) is = filter (due_release now s) is"
      by (rule filter_cong[OF refl]) (use same in auto)
    then have "joins (filter (due_release now s) (i # is)) s s2" using joins_trans[OF j1 j2] True by simp
    moreover have "released_all ({i} \<union> ?L) s s2" using released_all_trans[OF e(2) f(2)] d(1) unfolding L by simp
    moreover have "{i} \<union> ?L = {j \<in> set (i # is). due_release now s j}" using True by auto
    ultimately show ?thesis by (intro exI[of _ s2]) auto
  qed
qed

text \<open>
  C39. Releases: at time \<open>now\<close> exactly the BLOCKED processes that wait for a release or a delay and
  whose wake tick has come are released, and no other control block, wait list or object changes.
  A periodic process starts a new release at its wake tick (not at \<open>now\<close>, so a late tick does not
  shift the period) with the deadline of that release, and stops waiting. Every released process is
  READY. The ready queues change by the released processes alone: in the order of their identifiers
  they join the tail of the queue of their partition and priority as long as it has room (\<open>joined\<close>),
  so a released process is queued, with the result OK, exactly when its queue still had room. The
  call returns how many were queued. Afterwards nobody is left waiting for a tick that has come.
\<close>

theorem release_periodic_spec:
  assumes "kernel_inv s" "timer_ok s" "maxrtos_kernel_release_periodic PTR now s = (n, s')"
  shows "kernel_inv s' \<and> timer_ok s' \<and> n = card {i. due_release now s i \<and> queued_in s' i}
    \<and> (\<forall>i. process_pool s' i = (if due_release now s i then release_pcb (queued_in s' i) (process_pool s i)
           else process_pool s i))
    \<and> (\<forall>part r. ready (scheduler_ctx s' part) r = joined (filter (due_release now s) (ids_below MAXRTOS_MAX_PROCESSES)) s part r)
    \<and> (\<forall>i. queued_in s' i \<longleftrightarrow> (if due_release now s i
           then i \<in> set (joined (filter (due_release now s) (ids_below MAXRTOS_MAX_PROCESSES)) s
             (pcb_partition_id (process_pool s i)) (unat (pcb_priority (process_pool s i)))) else queued_in s i))
    \<and> only_ipc s s' \<and> waitlists s' = waitlists s \<and> (\<forall>i. \<not> due_release now s' i)"
proof -
  let ?L = "{i. due_release now s i}"
  have L: "{i \<in> set (ids_below 16). due_release now s i} = ?L" by (auto simp: due_release_def allocated_def)
  from release_fold_outcome[OF assms(1,2) distinct_ids_below[of 16], of now 0] have f:
    "n = length (filter (\<lambda>i. due_release now s i \<and> queued_in s' i) (ids_below 16))" "released_all ?L s s'"
    and j: "joins (filter (due_release now s) (ids_below 16)) s s'"
    using assms(3) unfolding L by (auto simp: maxrtos_kernel_release_periodic_def)
  have "distinct (filter (\<lambda>i. due_release now s i \<and> queued_in s' i) (ids_below 16))" by (simp add: distinct_ids_below)
  then have "n = card {i. due_release now s i \<and> queued_in s' i}"
    unfolding f(1) using L by (subst distinct_card[symmetric]) (auto intro!: arg_cong[where f = card])
  moreover have "\<not> due_release now s' i" for i
    using f(2) by (cases "due_release now s i") (auto simp: released_all_def due_release_def release_pcb_def allocated_def)
  moreover have "queued_in s' i \<longleftrightarrow> i \<in> set (joined (filter (due_release now s) (ids_below 16)) s
             (pcb_partition_id (process_pool s i)) (unat (pcb_priority (process_pool s i))))" if "due_release now s i" for i
    using joins_queued[OF kernel_invD(1)[OF assms(1)] j, of i] timer_okD(4)[OF assms(2), of i] that
    by (auto simp: due_release_def)
  ultimately show ?thesis using f(2) j by (simp add: released_all_def joins_def)
qed

lemma release_inv:
  assumes "kernel_inv s" "timer_ok s"
  shows "released_all {i. due_release now s i} s (snd (maxrtos_kernel_release_periodic PTR now s))"
proof -
  have L: "{i \<in> set (ids_below 16). due_release now s i} = {i. due_release now s i}"
    by (auto simp: due_release_def allocated_def)
  from release_fold_outcome[OF assms distinct_ids_below[of 16], of now 0] show ?thesis
    unfolding L by (auto simp: maxrtos_kernel_release_periodic_def)
qed

lemma release_periodic_spec_witness:
  "case maxrtos_kernel_release_periodic PTR 20 (snd (snd (maxrtos_kernel_periodic_wait PTR 9 PTR example_periodic))) of
     (n, s') \<Rightarrow> kernel_inv s' \<and> pcb_state (process_pool s' 9) = MAXRTOS_PROCESS_STATE_READY
       \<and> pcb_release_time (process_pool s' 9) = 20 \<and> pcb_deadline_time (process_pool s' 9) = 30 \<and> queued_in s' 9"
proof -
  let ?s = "snd (snd (maxrtos_kernel_periodic_wait PTR 9 PTR example_periodic))"
  obtain n s' where e: "maxrtos_kernel_release_periodic PTR 20 ?s = (n, s')" by (rule prod.exhaust)
  have k: "kernel_inv ?s" "timer_ok ?s" using periodic_wait_inv[OF example_periodic_inv] by simp_all
  have d: "due_release 20 ?s 9" by code_simp
  have b: "pcb_periodic_waiting (process_pool ?s 9)" "pcb_wake_tick (process_pool ?s 9) = 20"
    "pcb_time_capacity (process_pool ?s 9) = 10" by code_simp+
  have r: "9 \<in> set (joined (filter (due_release 20 ?s) (ids_below MAXRTOS_MAX_PROCESSES)) ?s
      (pcb_partition_id (process_pool ?s 9)) (unat (pcb_priority (process_pool ?s 9))))" by code_simp
  have "queued_in s' 9" using release_periodic_spec[OF k e] d r by presburger
  then show ?thesis
    using release_periodic_spec[OF k e] d b by (simp add: e release_pcb_def released_def release_deadline_def)
qed

text \<open>Deadline misses.\<close>

definition missed_all :: "u32 set \<Rightarrow> kstate \<Rightarrow> kstate \<Rightarrow> bool" where
  "missed_all L s s' \<longleftrightarrow>
     scheduler_ctx s' = scheduler_ctx s \<and> current_id s' = current_id s \<and> halted s' = halted s
     \<and> s_current_tick s' = s_current_tick s \<and> s_next_due s' = s_next_due s \<and> waitlists s' = waitlists s
     \<and> s_mutex_pool s' = s_mutex_pool s \<and> s_semaphore_pool s' = s_semaphore_pool s
     \<and> s_buffer_pool s' = s_buffer_pool s \<and> s_port_pool s' = s_port_pool s
     \<and> s_sampling_port_pool s' = s_sampling_port_pool s \<and> mem s' = mem s \<and> buffer_storage s' = buffer_storage s
     \<and> (\<forall>i. process_pool s' i = (if i \<in> L then (process_pool s i)\<lparr>pcb_deadline_time := MAXRTOS_TICK_NONE,
              pcb_deadline_misses := pcb_deadline_misses (process_pool s i) + 1\<rparr> else process_pool s i))
     \<and> (\<forall>j. bit (s_pending_misses s') j \<longleftrightarrow> bit (s_pending_misses s) j \<or> j \<in> unat ` L)"

lemma missed_allD:
  assumes "missed_all L s s'"
  shows "i \<in> L \<Longrightarrow> process_pool s' i = (process_pool s i)\<lparr>pcb_deadline_time := MAXRTOS_TICK_NONE,
       pcb_deadline_misses := pcb_deadline_misses (process_pool s i) + 1\<rparr>"
    and "i \<notin> L \<Longrightarrow> process_pool s' i = process_pool s i"
    and "bit (s_pending_misses s') j \<longleftrightarrow> bit (s_pending_misses s) j \<or> j \<in> unat ` L"
  using assms unfolding missed_all_def by simp_all

lemma missed_all_trans:
  assumes "missed_all L s s1" "missed_all M s1 s2" "L \<inter> M = {}"
  shows "missed_all (L \<union> M) s s2"
proof -
  note p = missed_allD[OF assms(1)] missed_allD[OF assms(2)]
  have "process_pool s2 i = (if i \<in> L \<union> M then (process_pool s i)\<lparr>pcb_deadline_time := MAXRTOS_TICK_NONE,
      pcb_deadline_misses := pcb_deadline_misses (process_pool s i) + 1\<rparr> else process_pool s i)" for i
  proof (cases "i \<in> M")
    case True
    with assms(3) have "i \<notin> L" by blast
    with True show ?thesis by (simp add: p(2,4))
  next
    case False
    then show ?thesis by (cases "i \<in> L") (simp_all add: p(1,2,5))
  qed
  moreover have "bit (s_pending_misses s2) j \<longleftrightarrow> bit (s_pending_misses s) j \<or> j \<in> unat ` (L \<union> M)" for j
    unfolding p(3,6) image_Un by blast
  ultimately show ?thesis using assms(1,2) unfolding missed_all_def by simp
qed

lemma missed_none:
  assumes "missed_all {} s s'"
  shows "s' = s"
proof (rule kstate.equality)
  show "process_pool s' = process_pool s" by (rule ext, rule missed_allD(2)[OF assms]) simp
  show "s_pending_misses s' = s_pending_misses s" by (rule bit_eqI) (simp add: missed_allD(3)[OF assms])
qed (use assms in \<open>simp_all add: missed_all_def\<close>)

lemma misses_deadline_eq:
  "misses_deadline now s i \<longleftrightarrow> allocated (process_pool s) i \<and> pcb_state (process_pool s i) \<noteq> MAXRTOS_PROCESS_STATE_SUSPENDED
     \<and> pcb_deadline_time (process_pool s i) \<noteq> MAXRTOS_TICK_NONE \<and> now \<ge> pcb_deadline_time (process_pool s i)
     \<and> pcb_partition_id (process_pool s i) < of_nat MAXRTOS_MAX_PARTITIONS
     \<and> \<not> halted s (pcb_partition_id (process_pool s i))"
  by (simp add: misses_deadline_def process_get_eq)

lemma check_deadline_hit:
  assumes "misses_deadline now s i"
  shows "\<exists>s'. check_deadline_step now i (n, s) = (n + 1, s') \<and> missed_all {i} s s'"
proof -
  have i: "unat i < 32" using assms by (simp add: misses_deadline_eq allocated_def word_less_nat_alt)
  have "bit (push_bit (unat i) 1 :: u32) j \<longleftrightarrow> j = unat i" for j
    using i by (auto simp: bit_exp_iff possible_bit_word)
  with assms show ?thesis
    by (auto simp: check_deadline_step_def missed_all_def Let_def bit_or_iff upd_pcb_def simp del: push_bit_of_1)
qed

lemma check_deadlines_fold:
  assumes "distinct is"
  shows "\<exists>s'. fold (check_deadline_step now) is (n, s) = (n + length (filter (misses_deadline now s) is), s')
    \<and> missed_all {i \<in> set is. misses_deadline now s i} s s'"
  using assms
proof (induction "is" arbitrary: n s)
  case Nil
  then show ?case by (simp add: missed_all_def)
next
  case (Cons i "is")
  then have d: "i \<notin> set is" "distinct is" by simp_all
  show ?case
  proof (cases "misses_deadline now s i")
    case False
    then have f: "fold (check_deadline_step now) (i # is) (n, s) = fold (check_deadline_step now) is (n, s)"
      by (simp add: check_deadline_step_def)
    have "{j \<in> set (i # is). misses_deadline now s j} = {j \<in> set is. misses_deadline now s j}" using False by auto
    with False Cons.IH[OF d(2), of n s] show ?thesis unfolding f by simp
  next
    case True
    from check_deadline_hit[OF True, of n] obtain s1 where e:
      "check_deadline_step now i (n, s) = (n + 1, s1)" "missed_all {i} s s1" by blast
    from Cons.IH[OF d(2), of "n + 1" s1] obtain s2 where f:
      "fold (check_deadline_step now) is (n + 1, s1) = (n + 1 + length (filter (misses_deadline now s1) is), s2)"
      "missed_all {j \<in> set is. misses_deadline now s1 j} s1 s2" by blast
    have same: "misses_deadline now s1 j \<longleftrightarrow> misses_deadline now s j" if "j \<in> set is" for j
    proof -
      have "j \<noteq> i" using that d(1) by auto
      then have "process_pool s1 j = process_pool s j" using missed_allD(2)[OF e(2)] by simp
      moreover have "halted s1 = halted s" using e(2) unfolding missed_all_def by simp
      ultimately show ?thesis by (simp add: misses_deadline_eq allocated_def)
    qed
    then have L: "{j \<in> set is. misses_deadline now s1 j} = {j \<in> set is. misses_deadline now s j}" by blast
    have c: "filter (misses_deadline now s1) is = filter (misses_deadline now s) is"
      by (rule filter_cong[OF refl]) (use same in auto)
    have "missed_all ({i} \<union> {j \<in> set is. misses_deadline now s j}) s s2"
      using missed_all_trans[OF e(2) f(2)] d(1) unfolding L by simp
    moreover have "{i} \<union> {j \<in> set is. misses_deadline now s j} = {j \<in> set (i # is). misses_deadline now s j}"
      using True by auto
    ultimately show ?thesis using e(1) f(1) True c by simp
  qed
qed

lemma check_deadlines_outcome:
  "missed_all {i. misses_deadline now s i} s (snd (maxrtos_kernel_check_deadlines now s))"
  "fst (maxrtos_kernel_check_deadlines now s) = card {i. misses_deadline now s i}"
proof -
  have L: "{i \<in> set (ids_below 16). misses_deadline now s i} = {i. misses_deadline now s i}"
    by (auto simp: misses_deadline_eq allocated_def)
  from check_deadlines_fold[OF distinct_ids_below[of 16], of now 0 s] have f:
    "missed_all {i. misses_deadline now s i} s (snd (maxrtos_kernel_check_deadlines now s))"
    "fst (maxrtos_kernel_check_deadlines now s) = length (filter (misses_deadline now s) (ids_below 16))"
    unfolding L by (auto simp: maxrtos_kernel_check_deadlines_def)
  then show "missed_all {i. misses_deadline now s i} s (snd (maxrtos_kernel_check_deadlines now s))" by simp
  have "distinct (filter (misses_deadline now s) (ids_below 16))" by (simp add: distinct_ids_below)
  then show "fst (maxrtos_kernel_check_deadlines now s) = card {i. misses_deadline now s i}"
    unfolding f(2) using L by (subst distinct_card[symmetric]) (auto intro!: arg_cong[where f = card])
qed

lemma missed_all_inv:
  assumes m: "missed_all L s s'" and inv: "kernel_inv s" "timer_ok s"
  shows "kernel_inv s'" "timer_ok s'"
proof -
  have b: "process_pool s' i = process_pool s i \<or> process_pool s' i = (process_pool s i)\<lparr>pcb_deadline_time := MAXRTOS_TICK_NONE,
       pcb_deadline_misses := pcb_deadline_misses (process_pool s i) + 1\<rparr>" for i
    using missed_allD(1,2)[OF m] by blast
  have pool: "pcb_state (process_pool s' i) = pcb_state (process_pool s i)"
    "pcb_partition_id (process_pool s' i) = pcb_partition_id (process_pool s i)"
    "pcb_priority (process_pool s' i) = pcb_priority (process_pool s i)"
    "pcb_base_priority (process_pool s' i) = pcb_base_priority (process_pool s i)"
    "pcb_waitlist (process_pool s' i) = pcb_waitlist (process_pool s i)"
    "pcb_wake_tick (process_pool s' i) = pcb_wake_tick (process_pool s i)"
    "same_flags (process_pool s i) (process_pool s' i)"
    "pcb_deadline_time (process_pool s' i) \<in> {MAXRTOS_TICK_NONE, pcb_deadline_time (process_pool s i)}"
    "pcb_id (process_pool s' i) = pcb_id (process_pool s i)" for i
    using b[of i] by (elim disjE; simp)+
  have f: "scheduler_ctx s' = scheduler_ctx s" "current_id s' = current_id s" "waitlists s' = waitlists s"
    "s_next_due s' = s_next_due s" using m unfolding missed_all_def by simp_all
  have al: "allocated (process_pool s') i = allocated (process_pool s) i" for i by (simp add: allocated_def pool(1))
  have "sched_inv s'"
    using same_sched_ok[OF kernel_invD(1)[OF inv(1), unfolded sched_inv_def], of "process_pool s'"] pool(1-4,9) f
    by (simp add: sched_inv_def same_sched_def)
  moreover have "wait_ok (process_pool s') (waitlists s)"
    by (rule wait_ok_step[OF kernel_invD(2)[OF inv(1)] al pool(5) pool(1)])
  moreover have "due_ok s'"
  proof (rule due_ok_cong[OF kernel_invD(3)[OF inv(1)] f(4)], goal_cases)
    case (1 i)
    then show ?case using al[of i] pool(6,8)[of i] by (intro conjI) simp_all
  qed
  ultimately show "kernel_inv s'" by (simp add: kernel_inv_def f(3))
  show "timer_ok s'"
  proof (rule timer_ok_step[OF inv(2)], goal_cases)
    case (1 i)
    then show ?case using al[of i] pool(1,5,7)[of i] queued_in_cong[OF f(1) pool(2), of i] by simp
  qed
qed

end
