(* ===== verification/Frame.thy ===== *)
theory Frame
  imports Prelude
begin

text \<open>
  The static major-frame schedule of frame.c. A schedule is an array of slots, each a partition
  and a duration; \<open>maxrtos_frame_partition_at_tick\<close> walks the slots to find the one that holds a
  tick. The specification is the time line of one major frame, the partition of every tick
  written out, and the lookup is shown to index it. The loops carry the accumulator of the code,
  a 32-bit tick count.
\<close>

record maxrtos_frame_slot_t =
  slot_partition_id :: u32
  slot_duration_ticks :: u32

record maxrtos_frame_schedule_t =
  sched_slots :: "nat \<Rightarrow> maxrtos_frame_slot_t"
  sched_slot_count :: nat
  sched_major_frame_length_ticks :: u32

text \<open>
  The validating loop of \<open>maxrtos_frame_init\<close> over the slots \<open>i, \<dots>, n - 1\<close>: the first invalid slot
  gives the error, a sum that would pass \<open>MAXRTOS_TICK_NONE\<close> is an overflow.
\<close>

primrec frame_check_slots ::
    "(nat \<Rightarrow> maxrtos_frame_slot_t) \<Rightarrow> nat list \<Rightarrow> u32 \<Rightarrow> maxrtos_status + u32" where
  "frame_check_slots slots [] major_frame_length_ticks = Inr major_frame_length_ticks"
| "frame_check_slots slots (i # is) major_frame_length_ticks =
     (if slot_partition_id (slots i) \<ge> of_nat MAXRTOS_MAX_PARTITIONS \<or> slot_duration_ticks (slots i) = 0
      then Inl MAXRTOS_ERR_INVALID_ARG
      else if major_frame_length_ticks > MAXRTOS_TICK_NONE - slot_duration_ticks (slots i)
      then Inl MAXRTOS_ERR_OVERFLOW
      else frame_check_slots slots is (major_frame_length_ticks + slot_duration_ticks (slots i)))"

definition maxrtos_frame_init ::
    "ptr \<Rightarrow> ptr \<Rightarrow> (nat \<Rightarrow> maxrtos_frame_slot_t) \<Rightarrow> nat \<Rightarrow> maxrtos_frame_schedule_t \<Rightarrow>
     maxrtos_status \<times> maxrtos_frame_schedule_t"
where
  [op_defs]: "maxrtos_frame_init schedp slotsp slots slot_count sched =
     (if schedp \<noteq> NULL \<and> slotsp \<noteq> NULL \<and> slot_count > 0 \<and> slot_count \<le> MAXRTOS_MAX_FRAME_SLOTS then
        (case frame_check_slots slots [0..<slot_count] 0 of
           Inl status \<Rightarrow> (status, sched)
         | Inr major \<Rightarrow>
             (MAXRTOS_OK,
              sched\<lparr>sched_slots := fold (\<lambda>i a. a(i := slots i)) [0..<slot_count] (sched_slots sched),
                    sched_slot_count := slot_count,
                    sched_major_frame_length_ticks := major\<rparr>))
      else (MAXRTOS_ERR_INVALID_ARG, sched))"

text \<open>The searching loop of the lookup, with the start tick of the current slot.\<close>

primrec frame_find_slot ::
    "(nat \<Rightarrow> maxrtos_frame_slot_t) \<Rightarrow> nat list \<Rightarrow> u32 \<Rightarrow> u32 \<Rightarrow> u32 option" where
  "frame_find_slot slots [] start reduced_tick = None"
| "frame_find_slot slots (i # is) start reduced_tick =
     (if reduced_tick \<ge> start \<and> reduced_tick < start + slot_duration_ticks (slots i)
      then Some (slot_partition_id (slots i))
      else frame_find_slot slots is (start + slot_duration_ticks (slots i)) reduced_tick)"

definition maxrtos_frame_partition_at_tick ::
    "ptr \<Rightarrow> maxrtos_frame_schedule_t \<Rightarrow> u32 \<Rightarrow> ptr \<Rightarrow> maxrtos_status \<times> u32 option"
where
  [op_defs]: "maxrtos_frame_partition_at_tick schedp sched tick outp =
     (if schedp \<noteq> NULL \<and> sched_major_frame_length_ticks sched > 0 \<and> sched_slot_count sched > 0
         \<and> outp \<noteq> NULL then
        (case frame_find_slot (sched_slots sched) [0..<sched_slot_count sched] 0
                (tick mod sched_major_frame_length_ticks sched) of
           Some pid \<Rightarrow> (MAXRTOS_OK, Some pid)
         | None \<Rightarrow> (MAXRTOS_ERR_INVALID_ARG, None))
      else (MAXRTOS_ERR_INVALID_ARG, None))"

subsection \<open>The time line of a major frame\<close>

definition slot_ticks :: "maxrtos_frame_slot_t \<Rightarrow> u32 list" where
  "slot_ticks s = replicate (unat (slot_duration_ticks s)) (slot_partition_id s)"

definition frame_timeline :: "maxrtos_frame_schedule_t \<Rightarrow> u32 list" where
  "frame_timeline sched = concat (map (\<lambda>i. slot_ticks (sched_slots sched i)) [0..<sched_slot_count sched])"

definition frame_slots_ok :: "(nat \<Rightarrow> maxrtos_frame_slot_t) \<Rightarrow> nat list \<Rightarrow> bool" where
  "frame_slots_ok slots is \<longleftrightarrow>
     (\<forall>i\<in>set is. slot_partition_id (slots i) < of_nat MAXRTOS_MAX_PARTITIONS \<and> 0 < slot_duration_ticks (slots i))"

definition frame_wf :: "maxrtos_frame_schedule_t \<Rightarrow> bool" where
  "frame_wf sched \<longleftrightarrow> 0 < sched_slot_count sched \<and> sched_slot_count sched \<le> MAXRTOS_MAX_FRAME_SLOTS
     \<and> frame_slots_ok (sched_slots sched) [0..<sched_slot_count sched]
     \<and> unat (sched_major_frame_length_ticks sched) = length (frame_timeline sched)"

text \<open>Configured bandwidth of a partition: the ticks its slots add up to.\<close>

definition partition_budget :: "maxrtos_frame_schedule_t \<Rightarrow> u32 \<Rightarrow> nat" where
  "partition_budget sched p =
     (\<Sum>i\<leftarrow>[0..<sched_slot_count sched].
        if slot_partition_id (sched_slots sched i) = p then unat (slot_duration_ticks (sched_slots sched i)) else 0)"

lemma length_slot_ticks [simp]: "length (slot_ticks s) = unat (slot_duration_ticks s)"
  by (simp add: slot_ticks_def)

lemma fold_copy: "fold (\<lambda>i a. a(i := f i)) is g x = (if x \<in> set is then f x else g x)"
  by (induction "is" arbitrary: g) auto

text \<open>What the validating loop accepts, and the sum it computes.\<close>

lemma frame_check_slots_iff:
  "(\<exists>major. frame_check_slots slots is acc = Inr major) \<longleftrightarrow>
     frame_slots_ok slots is
     \<and> unat acc + (\<Sum>i\<leftarrow>is. unat (slot_duration_ticks (slots i))) \<le> unat MAXRTOS_TICK_NONE"
proof (induction "is" arbitrary: acc)
  case Nil
  then show ?case using unat_less_32[of acc] by (simp add: frame_slots_ok_def)
next
  case (Cons i "is")
  let ?d = "slot_duration_ticks (slots i)"
  have d: "unat (MAXRTOS_TICK_NONE - ?d) = unat MAXRTOS_TICK_NONE - unat ?d"
    using unat_less_32[of ?d] by (simp add: unat_sub word_le_nat_alt)
  have sum: "unat (acc + ?d) = unat acc + unat ?d" if "\<not> acc > MAXRTOS_TICK_NONE - ?d"
    using that d unat_less_32[of ?d] by (simp add: word_less_nat_alt unat_plus_if')
  show ?case
  proof (cases "acc > MAXRTOS_TICK_NONE - ?d")
    case True
    then have "unat acc + unat ?d > unat MAXRTOS_TICK_NONE"
      using d unat_less_32[of ?d] by (simp add: word_less_nat_alt)
    with True show ?thesis by (auto simp: frame_slots_ok_def)
  next
    case False
    with sum[OF False] show ?thesis
      by (auto simp: Cons.IH frame_slots_ok_def word_neq_0_conv not_le add.assoc)
  qed
qed

lemma frame_check_slots_sum:
  "frame_check_slots slots is acc = Inr major \<Longrightarrow>
   unat major = unat acc + (\<Sum>i\<leftarrow>is. unat (slot_duration_ticks (slots i)))"
proof (induction "is" arbitrary: acc)
  case (Cons i "is")
  let ?d = "slot_duration_ticks (slots i)"
  from Cons.prems have ok: "\<not> acc > MAXRTOS_TICK_NONE - ?d"
    and rest: "frame_check_slots slots is (acc + ?d) = Inr major"
    by (auto split: if_splits)
  have "unat (MAXRTOS_TICK_NONE - ?d) = unat MAXRTOS_TICK_NONE - unat ?d"
    using unat_less_32[of ?d] by (simp add: unat_sub word_le_nat_alt)
  with ok have "unat (acc + ?d) = unat acc + unat ?d"
    using unat_less_32[of ?d] by (simp add: word_less_nat_alt unat_plus_if')
  with Cons.IH[OF rest] show ?case by simp
qed simp

lemma length_frame_timeline:
  "length (frame_timeline sched)
    = (\<Sum>i\<leftarrow>[0..<sched_slot_count sched]. unat (slot_duration_ticks (sched_slots sched i)))"
  by (simp add: frame_timeline_def length_concat o_def)

text \<open>The searching loop indexes the time line.\<close>

lemma frame_find_slot_nth:
  assumes "t < length (concat (map (\<lambda>i. slot_ticks (slots i)) is))"
    and "unat start + length (concat (map (\<lambda>i. slot_ticks (slots i)) is)) < 2 ^ 32"
    and "unat r = unat start + t"
  shows "frame_find_slot slots is start r = Some (concat (map (\<lambda>i. slot_ticks (slots i)) is) ! t)"
  using assms
proof (induction "is" arbitrary: start t)
  case (Cons i "is")
  let ?d = "slot_duration_ticks (slots i)"
  have sum: "unat (start + ?d) = unat start + unat ?d"
    using Cons.prems(2) by (simp add: unat_plus_if')
  show ?case
  proof (cases "t < unat ?d")
    case True
    then have "r \<ge> start \<and> r < start + ?d"
      using Cons.prems(3) sum by (simp add: word_le_nat_alt word_less_nat_alt)
    then show ?thesis using True by (simp add: nth_append slot_ticks_def)
  next
    case False
    then have nope: "\<not> (r \<ge> start \<and> r < start + ?d)"
      using Cons.prems(3) sum by (simp add: word_less_nat_alt)
    have "frame_find_slot slots is (start + ?d) r
        = Some (concat (map (\<lambda>i. slot_ticks (slots i)) is) ! (t - unat ?d))"
      using Cons.prems False sum by (intro Cons.IH) simp_all
    then show ?thesis
      unfolding frame_find_slot.simps if_not_P[OF nope] using False by (simp add: nth_append)
  qed
qed simp

lemma frame_timeline_pos:
  assumes "frame_wf sched"
  shows "0 < length (frame_timeline sched)"
  using assms by (cases "sched_slot_count sched")
    (auto simp: frame_wf_def frame_timeline_def frame_slots_ok_def upt_conv_Cons word_less_nat_alt simp del: upt_Suc)

lemma frame_timeline_partition:
  assumes "frame_wf sched"
  shows "frame_timeline sched ! (t mod length (frame_timeline sched)) < of_nat MAXRTOS_MAX_PARTITIONS"
proof -
  have "frame_timeline sched ! (t mod length (frame_timeline sched)) \<in> set (frame_timeline sched)"
    using frame_timeline_pos[OF assms] by (intro nth_mem mod_less_divisor)
  with assms show ?thesis by (auto simp: frame_timeline_def slot_ticks_def frame_wf_def frame_slots_ok_def split: if_splits)
qed

lemma frame_lookup_nth:
  assumes "frame_wf sched"
  shows "maxrtos_frame_partition_at_tick PTR sched tick PTR =
    (MAXRTOS_OK, Some (frame_timeline sched ! (unat tick mod length (frame_timeline sched))))"
proof -
  let ?L = "sched_major_frame_length_ticks sched"
  from assms have L: "unat ?L = length (frame_timeline sched)" by (simp add: frame_wf_def)
  from frame_timeline_pos[OF assms] L have pos: "0 < ?L" "0 < unat ?L" by (simp_all add: word_less_nat_alt)
  have "frame_find_slot (sched_slots sched) [0..<sched_slot_count sched] 0 (tick mod ?L)
      = Some (frame_timeline sched ! (unat tick mod length (frame_timeline sched)))"
    unfolding frame_timeline_def
    using pos(2) L unat_less_32[of ?L]
    by (intro frame_find_slot_nth) (simp_all add: unat_mod frame_timeline_def[symmetric])
  with assms pos show ?thesis by (simp add: op_defs frame_wf_def)
qed

lemma count_timeline:
  "length (filter (\<lambda>q. q = p) (concat (map (\<lambda>i. slot_ticks (slots i)) is)))
    = (\<Sum>i\<leftarrow>is. if slot_partition_id (slots i) = p then unat (slot_duration_ticks (slots i)) else 0)"
  by (induction "is") (simp_all add: slot_ticks_def)

lemma length_filter_nth:
  "length (filter P xs) = length (filter (\<lambda>i. P (xs ! i)) [0..<length xs])"
  by (subst (1) map_nth[symmetric]) (simp only: filter_map length_map o_def)

text \<open>
  Configuration: \<open>maxrtos_frame_init\<close> accepts a slot table exactly when it has 1 to 16 slots,
  every slot names a valid partition and lasts at least a tick, and the durations do not add up
  past \<open>MAXRTOS_TICK_NONE\<close>; it then stores a well-formed schedule whose time line is the slots laid
  end to end. Otherwise the schedule is left as it was.
\<close>

lemma frame_init_spec:
  defines "accepts \<equiv> \<lambda>slots n. 0 < n \<and> n \<le> MAXRTOS_MAX_FRAME_SLOTS \<and> frame_slots_ok slots [0..<n]
     \<and> (\<Sum>i\<leftarrow>[0..<n]. unat (slot_duration_ticks (slots i))) \<le> unat MAXRTOS_TICK_NONE"
  shows "case maxrtos_frame_init PTR PTR slots n sched of (status, sched') \<Rightarrow>
    (if accepts slots n
     then status = MAXRTOS_OK \<and> frame_wf sched'
       \<and> frame_timeline sched' = concat (map (\<lambda>i. slot_ticks (slots i)) [0..<n])
     else status \<in> {MAXRTOS_ERR_INVALID_ARG, MAXRTOS_ERR_OVERFLOW} \<and> sched' = sched)"
proof (cases "accepts slots n")
  case True
  then have n: "0 < n" "n \<le> MAXRTOS_MAX_FRAME_SLOTS" and ok: "frame_slots_ok slots [0..<n]"
    by (simp_all add: accepts_def)
  from True obtain major where major: "frame_check_slots slots [0..<n] 0 = Inr major"
    using frame_check_slots_iff[of slots "[0..<n]" 0] by (auto simp: accepts_def)
  let ?s = "sched\<lparr>sched_slots := fold (\<lambda>i a. a(i := slots i)) [0..<n] (sched_slots sched),
                  sched_slot_count := n, sched_major_frame_length_ticks := major\<rparr>"
  have tl: "frame_timeline ?s = concat (map (\<lambda>i. slot_ticks (slots i)) [0..<n])"
    unfolding frame_timeline_def by (intro arg_cong[of _ _ concat] map_cong) (auto simp: fold_copy)
  have "unat major = length (frame_timeline ?s)"
    unfolding tl using frame_check_slots_sum[OF major] by (simp add: length_concat o_def)
  with n ok have "frame_wf ?s"
    by (simp add: frame_wf_def frame_slots_ok_def fold_copy)
  with True tl n major show ?thesis by (simp add: op_defs)
next
  case False
  have err: "frame_check_slots slots is acc = Inl e \<Longrightarrow> e \<in> {MAXRTOS_ERR_INVALID_ARG, MAXRTOS_ERR_OVERFLOW}"
    for "is" acc e
    by (induction "is" arbitrary: acc) (auto split: if_splits)
  show ?thesis
  proof (cases "0 < n \<and> n \<le> MAXRTOS_MAX_FRAME_SLOTS")
    case True
    with False have "\<nexists>major. frame_check_slots slots [0..<n] 0 = Inr major"
      using frame_check_slots_iff[of slots "[0..<n]" 0] by (auto simp: accepts_def)
    then obtain e where "frame_check_slots slots [0..<n] 0 = Inl e" by (metis sum.exhaust)
    with err[OF this] True False show ?thesis by (simp add: op_defs)
  qed (use False in \<open>auto simp: op_defs\<close>)
qed

text \<open>
  The lookup is total and right on every well-formed schedule: for every 32-bit tick it
  returns the partition of the time line at the tick reduced modulo the major frame.
\<close>

lemma frame_partition_at_tick_timeline:
  assumes "frame_wf sched"
  shows "maxrtos_frame_partition_at_tick PTR sched tick PTR =
    (MAXRTOS_OK, Some (frame_timeline sched ! (unat tick mod length (frame_timeline sched))))"
  by (rule frame_lookup_nth[OF assms])

definition example_schedule :: maxrtos_frame_schedule_t where
  "example_schedule = \<lparr>
     sched_slots = (\<lambda>i. if i = 0 then \<lparr>slot_partition_id = 0, slot_duration_ticks = 2\<rparr>
       else if i = 1 then \<lparr>slot_partition_id = 3, slot_duration_ticks = 1\<rparr>
       else \<lparr>slot_partition_id = 0, slot_duration_ticks = 1\<rparr>),
     sched_slot_count = 3, sched_major_frame_length_ticks = 4\<rparr>"

lemma example_schedule_timeline: "frame_timeline example_schedule = [0, 0, 3, 0]"
  by code_simp

lemma example_schedule_wf: "frame_wf example_schedule"
  unfolding frame_wf_def example_schedule_timeline
  by (simp add: frame_slots_ok_def example_schedule_def)

lemma frame_partition_at_tick_timeline_witness:
  "maxrtos_frame_partition_at_tick PTR example_schedule 6 PTR = (MAXRTOS_OK, Some 3)"
  using frame_partition_at_tick_timeline[OF example_schedule_wf, of 6]
  by (simp add: example_schedule_timeline)

text \<open>
  C32. Bandwidth: in every major frame that fits before the tick counter wraps, a partition is the
  active one for exactly the ticks its slots add up to.
\<close>

theorem frame_bandwidth:
  fixes sched :: maxrtos_frame_schedule_t and k :: nat
  defines "L \<equiv> unat (sched_major_frame_length_ticks sched)"
  assumes "frame_wf sched" and "k * L + L \<le> 2 ^ 32"
  shows "length (filter (\<lambda>t. maxrtos_frame_partition_at_tick PTR sched (word_of_nat (k * L + t)) PTR
      = (MAXRTOS_OK, Some p)) [0..<L]) = partition_budget sched p"
proof -
  have len: "length (frame_timeline sched) = L" using assms by (simp add: frame_wf_def)
  have "unat (word_of_nat (k * L + t) :: u32) mod L = t" if "t < L" for t
    using that assms(3) by (subst unat_word_of_nat_32) simp_all
  then have "filter (\<lambda>t. maxrtos_frame_partition_at_tick PTR sched (word_of_nat (k * L + t)) PTR
      = (MAXRTOS_OK, Some p)) [0..<L] = filter (\<lambda>t. frame_timeline sched ! t = p) [0..<L]"
    using frame_lookup_nth[OF assms(2)] len by (intro filter_cong) simp_all
  then show ?thesis
    using length_filter_nth[of "\<lambda>q. q = p" "frame_timeline sched"] len
    by (simp add: frame_timeline_def count_timeline partition_budget_def)
qed

lemma frame_bandwidth_witness:
  "length (filter (\<lambda>t. maxrtos_frame_partition_at_tick PTR example_schedule (word_of_nat (5 * 4 + t)) PTR
      = (MAXRTOS_OK, Some 0)) [0..<4]) = 3"
proof -
  have L: "unat (sched_major_frame_length_ticks example_schedule) = 4"
    by (simp add: example_schedule_def)
  have "partition_budget example_schedule 0 = 3"
    by code_simp
  with frame_bandwidth[OF example_schedule_wf, of 5 0] L show ?thesis by simp
qed

end
