(* ===== verification/Tick.thy ===== *)
theory Tick
  imports Timing Frame
begin

text \<open>
  The tick handler (tick.c), the start of the scheduler (start_scheduler.c) and voluntary yield
  (yield.c). A tick looks up the partition of the major frame, expires time-outs, releases periodic
  processes and records deadline misses when the due bound says one of them can be due, and
  dispatches the partition.
\<close>

text \<open>The scans of a tick, in their order.\<close>

definition tick_scan :: "ptr \<Rightarrow> u32 \<Rightarrow> kstate \<Rightarrow> kstate" where
  "tick_scan tablep now s =
     (let s1 = snd (maxrtos_ipc_expire_timeouts tablep now s);
          s2 = snd (maxrtos_kernel_release_periodic tablep now s1);
          s3 = snd (maxrtos_kernel_check_deadlines now s2)
      in maxrtos_kernel_timing_refresh_due s3)"

definition maxrtos_kernel_on_tick ::
    "ptr \<Rightarrow> maxrtos_frame_schedule_t \<Rightarrow> ptr \<Rightarrow> ptr \<Rightarrow> kstate \<Rightarrow> maxrtos_status \<times> u32 option \<times> kstate"
where
  "maxrtos_kernel_on_tick schedp sched tablep outp s =
     (case maxrtos_frame_partition_at_tick schedp sched (s_current_tick s) PTR of
        (status, active) \<Rightarrow>
          let s1 = s\<lparr>s_current_tick := s_current_tick s + 1\<rparr>;
              s2 = (if maxrtos_kernel_timing_is_due (s_current_tick s1) s1
                    then tick_scan tablep (s_current_tick s1) s1 else s1)
          in if status = MAXRTOS_OK
             then maxrtos_partition_dispatch tablep (out_val MAXRTOS_INVALID_PARTITION_ID active) outp s2
             else (status, None, s2))"

definition maxrtos_kernel_start_scheduler ::
    "ptr \<Rightarrow> maxrtos_frame_schedule_t \<Rightarrow> ptr \<Rightarrow> ptr \<Rightarrow> kstate \<Rightarrow> maxrtos_status \<times> u32 option \<times> kstate"
where
  "maxrtos_kernel_start_scheduler schedp sched tablep outp s =
     (if schedp \<noteq> NULL \<and> tablep \<noteq> NULL \<and> outp \<noteq> NULL then
        (case maxrtos_kernel_on_tick schedp sched tablep PTR
                (maxrtos_kernel_rearm_all_timing (maxrtos_kernel_tick_reset s)) of
           (status, first, s1) \<Rightarrow>
             if status = MAXRTOS_OK then
               (case get_pcb (out_val MAXRTOS_INVALID_PROCESS_ID first) s1 of
                  None \<Rightarrow> (MAXRTOS_ERR_INVALID_ARG, None, s1)
                | Some _ \<Rightarrow> (status, first, s1))
             else (status, None, s1))
      else (MAXRTOS_ERR_INVALID_ARG, None, s))"

text \<open>\<open>maxrtos_kernel_yield\<close> also tells whether a context switch is needed.\<close>

definition maxrtos_kernel_yield ::
    "ptr \<Rightarrow> u32 \<Rightarrow> u32 \<Rightarrow> ptr \<Rightarrow> ptr \<Rightarrow> kstate \<Rightarrow> maxrtos_status \<times> (u32 \<times> bool) option \<times> kstate"
where
  "maxrtos_kernel_yield tablep partition_id current outp switchp s =
     (if tablep \<noteq> NULL \<and> outp \<noteq> NULL \<and> switchp \<noteq> NULL then
        (case maxrtos_partition_yield tablep partition_id PTR s of
           (status, next, s1) \<Rightarrow>
             if status = MAXRTOS_OK then
               let next_id = out_val MAXRTOS_INVALID_PROCESS_ID next
               in (status, Some (next_id, next_id \<noteq> current), s1)
             else (status, None, s1))
      else (MAXRTOS_ERR_INVALID_ARG, None, s))"

subsection \<open>What the scans leave\<close>

text \<open>Nothing on a wait list, waiting for time or under a deadline is past its tick.\<close>

definition nothing_due :: "u32 \<Rightarrow> kstate \<Rightarrow> bool" where
  "nothing_due now s \<longleftrightarrow> (\<forall>i. \<not> late now s i \<and> \<not> due_release now s i \<and> \<not> misses_deadline now s i)"

lemma nothing_due_bound:
  assumes "kernel_inv s" "\<not> maxrtos_kernel_timing_is_due now s"
  shows "nothing_due now s"
proof -
  have "now < pcb_wake_tick (process_pool s i) \<and> now < pcb_deadline_time (process_pool s i)"
    if "allocated (process_pool s) i" for i
    using assms that kernel_invD(3)[OF assms(1)]
    by (auto simp: due_ok_def maxrtos_kernel_timing_is_due_def not_le intro: less_le_trans)
  then show ?thesis
    by (auto simp: nothing_due_def overdue_def due_release_def misses_deadline_eq not_le[symmetric])
qed

lemma expire_timer:
  assumes "kernel_inv s" "timer_ok s"
  shows "kernel_inv (snd (maxrtos_ipc_expire_timeouts tablep now s)) \<and> timer_ok (snd (maxrtos_ipc_expire_timeouts tablep now s))"
  using timer_expiry.expire_inv[of s tablep now] assms by simp

lemma refresh_due_inv:
  assumes "kernel_inv s" "timer_ok s"
  shows "kernel_inv (maxrtos_kernel_timing_refresh_due s)" "timer_ok (maxrtos_kernel_timing_refresh_due s)"
  using assms refresh_due_establishes[of s]
  by (simp_all add: kernel_inv_def sched_inv_def timer_ok_def queued_in_def)

lemma tick_scan_inv:
  assumes "kernel_inv s" "timer_ok s"
  shows "kernel_inv (tick_scan PTR now s) \<and> timer_ok (tick_scan PTR now s) \<and> nothing_due now (tick_scan PTR now s)
    \<and> (nothing_due now s \<longrightarrow> tick_scan PTR now s = maxrtos_kernel_timing_refresh_due s)"
proof -
  obtain n1 s1 where e1: "maxrtos_ipc_expire_timeouts PTR now s = (n1, s1)" by (rule prod.exhaust)
  have k1: "kernel_inv s1" "timer_ok s1" using expire_timer[OF assms, of PTR now] e1 by simp_all
  note n1 = expire_not_late[OF assms(1) e1]
  let ?s2 = "snd (maxrtos_kernel_release_periodic PTR now s1)"
  have r: "released_all {i. due_release now s1 i} s1 ?s2" by (rule release_inv[OF k1])
  then have k2: "kernel_inv ?s2" "timer_ok ?s2" by (simp_all add: released_all_def)
  let ?s3 = "snd (maxrtos_kernel_check_deadlines now ?s2)"
  note m = check_deadlines_outcome(1)[of now ?s2]
  note k3 = missed_all_inv[OF m k2]
  have scan: "tick_scan PTR now s = maxrtos_kernel_timing_refresh_due ?s3" by (simp add: tick_scan_def e1)
  have "\<not> late now ?s3 i \<and> \<not> due_release now ?s3 i \<and> \<not> misses_deadline now ?s3 i" for i
  proof -
    have two: "\<not> late now ?s2 i \<and> \<not> due_release now ?s2 i"
    proof (cases "due_release now s1 i")
      case True
      then have "pcb_state (process_pool ?s2 i) = MAXRTOS_PROCESS_STATE_READY"
        using r by (simp add: released_all_def release_pcb_def)
      then show ?thesis by (simp add: overdue_def due_release_def)
    next
      case False
      then have "process_pool ?s2 i = process_pool s1 i" using r by (simp add: released_all_def)
      with False n1[of i] show ?thesis by (simp add: due_release_def allocated_def)
    qed
    show ?thesis
    proof (cases "misses_deadline now ?s2 i")
      case True
      then have "process_pool ?s3 i = (process_pool ?s2 i)\<lparr>pcb_deadline_time := MAXRTOS_TICK_NONE,
          pcb_deadline_misses := pcb_deadline_misses (process_pool ?s2 i) + 1\<rparr>" using missed_allD(1)[OF m] by simp
      with two show ?thesis by (simp add: overdue_def due_release_def misses_deadline_eq allocated_def)
    next
      case False
      then have "process_pool ?s3 i = process_pool ?s2 i" using missed_allD(2)[OF m] by simp
      moreover have "halted ?s3 = halted ?s2" using m unfolding missed_all_def by simp
      ultimately show ?thesis using two False by (simp add: overdue_def due_release_def misses_deadline_eq allocated_def)
    qed
  qed
  then have "nothing_due now (tick_scan PTR now s)"
    unfolding scan nothing_due_def by (simp add: due_release_def misses_deadline_eq)
  moreover have "tick_scan PTR now s = maxrtos_kernel_timing_refresh_due s" if "nothing_due now s"
  proof -
    have "s1 = s" using expire_outcome[OF assms(1) e1] that by (auto simp: nothing_due_def)
    moreover from this have "?s2 = s" using r that by (simp add: nothing_due_def released_all_def)
    moreover from this have "?s3 = s" using missed_none[of s] m that by (simp add: nothing_due_def)
    ultimately show ?thesis using scan by simp
  qed
  ultimately show ?thesis unfolding scan using refresh_due_inv[OF k3] by (simp add: scan[symmetric])
qed

text \<open>
  A process overruns at a tick if its deadline has passed, where a process that the tick releases has
  the deadline of its new release. Every overrun is recorded, in the mask that the deadline handler
  reads and in the counter of the process, and nothing else is.
\<close>

definition overruns :: "u32 \<Rightarrow> kstate \<Rightarrow> u32 \<Rightarrow> bool" where
  "overruns now s i \<longleftrightarrow> misses_deadline now (if due_release now s i then upd_pcb i released s else s) i"

definition recorded :: "u32 \<Rightarrow> kstate \<Rightarrow> kstate \<Rightarrow> bool" where
  "recorded now s s' \<longleftrightarrow>
     (\<forall>j. bit (s_pending_misses s') j \<longleftrightarrow> bit (s_pending_misses s) j \<or> (\<exists>i. unat i = j \<and> overruns now s i))
     \<and> (\<forall>i. pcb_deadline_misses (process_pool s' i) = pcb_deadline_misses (process_pool s i) + (if overruns now s i then 1 else 0))"

lemma recorded_nothing_due:
  assumes "nothing_due now s"
  shows "recorded now s s"
  using assms by (simp add: recorded_def overruns_def nothing_due_def)

lemma tick_scan_records:
  assumes inv: "kernel_inv s" "timer_ok s"
  shows "recorded now s (tick_scan PTR now s)"
proof -
  obtain n1 s1 where e1: "maxrtos_ipc_expire_timeouts PTR now s = (n1, s1)" by (rule prod.exhaust)
  from expire_outcome[OF inv(1) e1] obtain s0 where o: "swept {i. late now s i} s s0" "same_but_priority s0 s1" by blast
  have f1: "halted s1 = halted s" "s_pending_misses s1 = s_pending_misses s"
    using o by (simp_all add: swept_def same_but_priority_def only_ipc_def only_scheduling_iff)
  have k1: "kernel_inv s1" "timer_ok s1" using expire_timer[OF inv, of PTR now] e1 by simp_all
  have d1: "same_deadline (process_pool s i) (process_pool s1 i)" for i
  proof -
    obtain q where "process_pool s1 i = (process_pool s0 i)\<lparr>pcb_priority := q\<rparr>"
      using o(2) by (auto simp: same_but_priority_def)
    with o(1) show ?thesis by (simp add: swept_def)
  qed
  let ?s2 = "snd (maxrtos_kernel_release_periodic PTR now s1)"
  have r: "released_all {i. due_release now s1 i} s1 ?s2" by (rule release_inv[OF k1])
  have f2: "halted ?s2 = halted s" "s_pending_misses ?s2 = s_pending_misses s"
    using r f1 by (simp_all add: released_all_def only_ipc_def)
  have pool: "misses_deadline now ?s2 i \<longleftrightarrow> overruns now s i"
    "pcb_deadline_misses (process_pool ?s2 i) = pcb_deadline_misses (process_pool s i)" for i
  proof -
    have "(misses_deadline now ?s2 i \<longleftrightarrow> overruns now s i)
      \<and> pcb_deadline_misses (process_pool ?s2 i) = pcb_deadline_misses (process_pool s i)"
    proof (cases "late now s i")
      case True
      then have nd: "\<not> due_release now s i" using timer_okD(1)[OF inv(2), of i] by (auto simp: due_release_def overdue_def)
      have x: "expired i s1" using same_but_priority_expired[OF o(2)] o(1) True by (simp add: swept_def)
      then have "\<not> due_release now s1 i" by (simp add: expired_def due_release_def)
      with r have "process_pool ?s2 i = process_pool s1 i" by (simp add: released_all_def)
      with True x nd d1[of i] f2 show ?thesis
        by (simp add: overruns_def misses_deadline_eq allocated_def expired_def overdue_def)
    next
      case False
      with swept_other(1)[OF o, of i] obtain q where q: "process_pool s1 i = (process_pool s i)\<lparr>pcb_priority := q\<rparr>" by auto
      then have same: "due_release now s1 i = due_release now s i" by (simp add: due_release_def allocated_def)
      have "process_pool ?s2 i = (if due_release now s i then release_pcb (queued_in ?s2 i) (process_pool s1 i) else process_pool s1 i)"
        using r same by (simp add: released_all_def)
      with q f2 show ?thesis
        by (simp add: overruns_def misses_deadline_eq allocated_def due_release_def release_pcb_def released_def)
    qed
    then show "misses_deadline now ?s2 i \<longleftrightarrow> overruns now s i"
      "pcb_deadline_misses (process_pool ?s2 i) = pcb_deadline_misses (process_pool s i)" by blast+
  qed
  let ?s3 = "snd (maxrtos_kernel_check_deadlines now ?s2)"
  note m = check_deadlines_outcome(1)[of now ?s2, unfolded pool(1)]
  have "pcb_deadline_misses (process_pool ?s3 i) = pcb_deadline_misses (process_pool s i) + (if overruns now s i then 1 else 0)" for i
    using missed_allD(1)[OF m, of i] missed_allD(2)[OF m, of i] pool(2)[of i] by (cases "overruns now s i") simp_all
  moreover have "bit (s_pending_misses ?s3) j \<longleftrightarrow> bit (s_pending_misses s) j \<or> (\<exists>i. unat i = j \<and> overruns now s i)" for j
    unfolding missed_allD(3)[OF m] f2 by blast
  moreover have "tick_scan PTR now s = maxrtos_kernel_timing_refresh_due ?s3" by (simp add: tick_scan_def e1)
  ultimately show ?thesis by (simp add: recorded_def maxrtos_kernel_timing_refresh_due_def)
qed

subsection \<open>Dispatching\<close>

lemma select_next_due:
  "maxrtos_partition_select tablep part outp yield (s\<lparr>s_next_due := d\<rparr>) =
    (case maxrtos_partition_select tablep part outp yield s of (status, out, s') \<Rightarrow> (status, out, s'\<lparr>s_next_due := d\<rparr>))"
  by (auto simp: maxrtos_partition_select_def upd_ctx_def Let_def split: prod.splits if_splits)

text \<open>A selection changes no control block of a process that is neither READY and queued nor RUNNING.\<close>

lemma select_pool:
  fixes tablep part outp yield
  assumes inv: "kernel_inv s"
  defines "s' \<equiv> snd (snd (maxrtos_partition_select tablep part outp yield s))"
  shows "process_pool s' i = process_pool s i \<or>
      allocated (process_pool s) i \<and> (queued_in s i \<or> pcb_state (process_pool s i) = MAXRTOS_PROCESS_STATE_RUNNING)
      \<and> (\<exists>st. st \<noteq> MAXRTOS_PROCESS_STATE_UNUSED \<and> st \<noteq> MAXRTOS_PROCESS_STATE_BLOCKED
           \<and> st \<noteq> MAXRTOS_PROCESS_STATE_SUSPENDED \<and> process_pool s' i = (process_pool s i)\<lparr>pcb_state := st\<rparr>)"
    and "allocated (process_pool s) i \<Longrightarrow> queued_in s' i \<Longrightarrow>
      queued_in s i \<or> pcb_state (process_pool s i) = MAXRTOS_PROCESS_STATE_RUNNING"
    and "only_scheduling s s'"
proof -
  have "(process_pool s' i = process_pool s i \<or>
      allocated (process_pool s) i \<and> (queued_in s i \<or> pcb_state (process_pool s i) = MAXRTOS_PROCESS_STATE_RUNNING)
      \<and> (\<exists>st. st \<noteq> MAXRTOS_PROCESS_STATE_UNUSED \<and> st \<noteq> MAXRTOS_PROCESS_STATE_BLOCKED
           \<and> st \<noteq> MAXRTOS_PROCESS_STATE_SUSPENDED \<and> process_pool s' i = (process_pool s i)\<lparr>pcb_state := st\<rparr>))
    \<and> (allocated (process_pool s) i \<longrightarrow> queued_in s' i \<longrightarrow>
      queued_in s i \<or> pcb_state (process_pool s i) = MAXRTOS_PROCESS_STATE_RUNNING) \<and> only_scheduling s s'"
  proof (cases "tablep \<noteq> NULL \<and> outp \<noteq> NULL \<and> part < of_nat MAXRTOS_MAX_PARTITIONS \<and> \<not> halted s part")
    case False
    then have "s' = s" by (auto simp: s'_def maxrtos_partition_select_def)
    then show ?thesis by simp
  next
    case True
    then have ptrs: "tablep = PTR" "outp = PTR" by (auto intro: ptr.exhaust)
    let ?c = "current_id s part"
    note ok = kernel_invD(1)[OF inv]
    from True partition_select_eq[OF ok, of part yield] obtain st out ctx' where e:
      "maxrtos_partition_select PTR part PTR yield s =
        (st, out, (upd_ctx part ctx' s)\<lparr>process_pool := selected_pool ?c out (process_pool s),
           current_id := (current_id s)(part := case out of None \<Rightarrow> ?c | Some n \<Rightarrow> n)\<rparr>)"
      "select_spec yield (running_of ?c (process_pool s)) (ready (scheduler_ctx s part)) = (st, out, ready ctx')"
      by blast
    have s': "s' = (upd_ctx part ctx' s)\<lparr>process_pool := selected_pool ?c out (process_pool s),
           current_id := (current_id s)(part := case out of None \<Rightarrow> ?c | Some n \<Rightarrow> n)\<rparr>"
      by (simp add: s'_def ptrs e(1))
    from True have p: "part_ok (process_pool s) part (scheduler_ctx s part) ?c"
      using sched_okD(3)[OF ok[unfolded sched_inv_def]] by simp
    note mem = select_spec_members[OF part_okD(1,2)[OF p] e(2)]
    have run: "allocated (process_pool s) ?c \<and> pcb_state (process_pool s ?c) = MAXRTOS_PROCESS_STATE_RUNNING"
      if "?c \<noteq> MAXRTOS_INVALID_PROCESS_ID" using part_okD(2)[OF p] that by (simp add: running_in_def)
    have q: "allocated (process_pool s) j \<and> queued_in s j" if "r \<le> 31" "j \<in> set (ready (scheduler_ctx s part) r)" for j r
      using that domain_okD(1)[OF part_okD(1)[OF p] that(1)] part_okD(3)[OF p that(1)]
      by (auto simp: queued_in_def in_ready_ids)
    have pool: "process_pool s' i = process_pool s i \<or> (i = ?c \<or> out = Some i) \<and> ?c \<noteq> i \<or> i = ?c \<and> ?c \<noteq> MAXRTOS_INVALID_PROCESS_ID"
      by (auto simp: s' selected_pool_def split: option.splits)
    have upd: "process_pool s' i = process_pool s i \<or> (\<exists>st. (st = MAXRTOS_PROCESS_STATE_READY \<or> st = MAXRTOS_PROCESS_STATE_RUNNING)
        \<and> process_pool s' i = (process_pool s i)\<lparr>pcb_state := st\<rparr>)"
      by (auto simp: s' selected_pool_def split: option.splits)
    have who: "allocated (process_pool s) i \<and> (queued_in s i \<or> pcb_state (process_pool s i) = MAXRTOS_PROCESS_STATE_RUNNING)"
      if "process_pool s' i \<noteq> process_pool s i"
      using pool that mem[of i] run q by blast
    have "queued_in s i \<or> pcb_state (process_pool s i) = MAXRTOS_PROCESS_STATE_RUNNING"
      if "queued_in s' i"
    proof (cases "pcb_partition_id (process_pool s i) = part")
      case True
      moreover have "pcb_partition_id (process_pool s' i) = pcb_partition_id (process_pool s i)" using upd by auto
      ultimately have "i \<in> set (ready_ids (scheduler_ctx s' part))" using that by (simp only: queued_in_def)
      then obtain r where r: "r \<le> 31" "i \<in> set (ready ctx' r)" by (auto simp: s' in_ready_ids)
      with mem[of i i r] run q[OF r(1)] show ?thesis by blast
    next
      case False
      moreover have "pcb_partition_id (process_pool s' i) = pcb_partition_id (process_pool s i)" using upd by auto
      ultimately show ?thesis using that by (simp add: s' queued_in_def)
    qed
    moreover have "only_scheduling s s'" by (simp add: s')
    ultimately show ?thesis using upd who by blast
  qed
  then show "process_pool s' i = process_pool s i \<or>
      allocated (process_pool s) i \<and> (queued_in s i \<or> pcb_state (process_pool s i) = MAXRTOS_PROCESS_STATE_RUNNING)
      \<and> (\<exists>st. st \<noteq> MAXRTOS_PROCESS_STATE_UNUSED \<and> st \<noteq> MAXRTOS_PROCESS_STATE_BLOCKED
           \<and> st \<noteq> MAXRTOS_PROCESS_STATE_SUSPENDED \<and> process_pool s' i = (process_pool s i)\<lparr>pcb_state := st\<rparr>)"
    and "allocated (process_pool s) i \<Longrightarrow> queued_in s' i \<Longrightarrow>
      queued_in s i \<or> pcb_state (process_pool s i) = MAXRTOS_PROCESS_STATE_RUNNING"
    and "only_scheduling s s'" by blast+
qed

lemma select_inv:
  fixes tablep part outp yield
  assumes inv: "kernel_inv s" "timer_ok s"
  defines "s' \<equiv> snd (snd (maxrtos_partition_select tablep part outp yield s))"
  shows "kernel_inv s'" "timer_ok s'" "nothing_due now s \<Longrightarrow> nothing_due now s'"
proof -
  note pool = select_pool[OF inv(1), where tablep = tablep and part = part and outp = outp and yield = yield, folded s'_def]
  show "kernel_inv s'" unfolding s'_def by (rule kernel_inv_select[OF inv(1)])
  show "timer_ok s'"
  proof (rule timer_ok_step[OF inv(2)], goal_cases)
    case (1 i)
    have al: "allocated (process_pool s) i" using pool(1)[of i] 1(1) by (auto simp: allocated_def)
    have fl: "same_flags (process_pool s i) (process_pool s' i)" using pool(1)[of i] by auto
    with 1(2) have w: "waits_for_time (process_pool s i)" by (simp add: waits_for_time_def)
    with timer_okD(3,4)[OF inv(2) al] have n: "\<not> queued_in s i" "pcb_state (process_pool s i) \<noteq> MAXRTOS_PROCESS_STATE_RUNNING"
      by auto
    with pool(1)[of i] have "process_pool s' i = process_pool s i" by blast
    with n al pool(2)[of i] show ?case by auto
  qed
  assume d: "nothing_due now s"
  have "\<not> late now s' i \<and> \<not> due_release now s' i \<and> \<not> misses_deadline now s' i" for i
  proof (cases "process_pool s' i = process_pool s i")
    case True
    moreover have "halted s' = halted s" using pool(3) by (simp add: only_scheduling_iff)
    ultimately show ?thesis using d
      by (auto simp: nothing_due_def overdue_def due_release_def misses_deadline_eq allocated_def)
  next
    case False
    with pool(1)[of i] obtain st where st: "st \<noteq> MAXRTOS_PROCESS_STATE_BLOCKED"
      "process_pool s' i = (process_pool s i)\<lparr>pcb_state := st\<rparr>" "allocated (process_pool s) i"
      "queued_in s i \<or> pcb_state (process_pool s i) = MAXRTOS_PROCESS_STATE_RUNNING" by blast
    have "pcb_state (process_pool s i) \<noteq> MAXRTOS_PROCESS_STATE_SUSPENDED"
      using st(4) queued_in_ready[OF kernel_invD(1)[OF inv(1)] st(3)] by auto
    moreover have "halted s' = halted s" using pool(3) by (simp add: only_scheduling_iff)
    moreover have "\<not> misses_deadline now s i" using d by (simp add: nothing_due_def)
    ultimately show ?thesis using st(1-3) by (auto simp: overdue_def due_release_def misses_deadline_eq)
  qed
  then show "nothing_due now s'" by (simp add: nothing_due_def)
qed

lemma select_recorded:
  assumes inv: "kernel_inv s2" and r: "recorded now s s2"
  shows "recorded now s (snd (snd (maxrtos_partition_select tablep part outp yield s2)))"
proof -
  let ?s' = "snd (snd (maxrtos_partition_select tablep part outp yield s2))"
  note pool = select_pool[OF inv, where tablep = tablep and part = part and outp = outp and yield = yield]
  have "pcb_deadline_misses (process_pool ?s' i) = pcb_deadline_misses (process_pool s2 i)" for i
    using pool(1)[of i] by auto
  moreover have "s_pending_misses ?s' = s_pending_misses s2" using pool(3) by (simp add: only_scheduling_iff)
  ultimately show ?thesis using r by (simp add: recorded_def)
qed

subsection \<open>The tick\<close>

lemma tick_step:
  assumes inv: "kernel_inv s" "timer_ok s"
  defines "s1 \<equiv> s\<lparr>s_current_tick := s_current_tick s + 1\<rparr>"
  defines "s2 \<equiv> if maxrtos_kernel_timing_is_due (s_current_tick s1) s1 then tick_scan PTR (s_current_tick s1) s1 else s1"
  shows "kernel_inv s2 \<and> timer_ok s2 \<and> nothing_due (s_current_tick s + 1) s2 \<and> recorded (s_current_tick s + 1) s s2"
proof -
  let ?now = "s_current_tick s + 1"
  have k1: "kernel_inv s1" "timer_ok s1" and t: "s_current_tick s1 = ?now"
    using inv by (simp_all add: s1_def kernel_inv_def sched_inv_def due_ok_def timer_ok_def queued_in_def)
  have "recorded ?now s1 s' = recorded ?now s s'" for s'
    by (simp add: recorded_def overruns_def misses_deadline_eq due_release_def s1_def)
  with k1 tick_scan_inv[OF k1, of ?now] tick_scan_records[OF k1, of ?now] nothing_due_bound[OF k1(1), of ?now]
    recorded_nothing_due[of ?now s1] show ?thesis
    by (simp add: s2_def t)
qed

text \<open>The tick handler without the due bound: it scans at every tick.\<close>

definition on_tick_always ::
    "ptr \<Rightarrow> maxrtos_frame_schedule_t \<Rightarrow> ptr \<Rightarrow> ptr \<Rightarrow> kstate \<Rightarrow> maxrtos_status \<times> u32 option \<times> kstate"
where
  "on_tick_always schedp sched tablep outp s =
     (case maxrtos_frame_partition_at_tick schedp sched (s_current_tick s) PTR of
        (status, active) \<Rightarrow>
          let s1 = s\<lparr>s_current_tick := s_current_tick s + 1\<rparr>; s2 = tick_scan tablep (s_current_tick s1) s1
          in if status = MAXRTOS_OK
             then maxrtos_partition_dispatch tablep (out_val MAXRTOS_INVALID_PARTITION_ID active) outp s2
             else (status, None, s2))"

text \<open>A scan leaves the clock, the halt flags and the current processes alone.\<close>

lemma tick_scan_frame:
  assumes inv: "kernel_inv s" "timer_ok s"
  shows "s_current_tick (tick_scan PTR now s) = s_current_tick s" "halted (tick_scan PTR now s) = halted s"
    "current_id (tick_scan PTR now s) = current_id s"
proof -
  obtain n1 s1 where e1: "maxrtos_ipc_expire_timeouts PTR now s = (n1, s1)" by (rule prod.exhaust)
  from expire_outcome[OF inv(1) e1] obtain s0 where o: "swept {i. late now s i} s s0" "same_but_priority s0 s1" by blast
  have f1: "s_current_tick s1 = s_current_tick s" "halted s1 = halted s" "current_id s1 = current_id s"
    using o by (simp_all add: swept_def same_but_priority_def only_ipc_def only_scheduling_iff)
  have k1: "kernel_inv s1" "timer_ok s1" using expire_timer[OF inv, of PTR now] e1 by simp_all
  let ?s2 = "snd (maxrtos_kernel_release_periodic PTR now s1)"
  have f2: "s_current_tick ?s2 = s_current_tick s1" "halted ?s2 = halted s1" "current_id ?s2 = current_id s1"
    using release_inv[OF k1, of now] by (simp_all add: released_all_def only_ipc_def)
  let ?s3 = "snd (maxrtos_kernel_check_deadlines now ?s2)"
  have f3: "s_current_tick ?s3 = s_current_tick ?s2" "halted ?s3 = halted ?s2" "current_id ?s3 = current_id ?s2"
    using check_deadlines_outcome(1)[of now ?s2] unfolding missed_all_def by simp_all
  have "tick_scan PTR now s = maxrtos_kernel_timing_refresh_due ?s3" by (simp add: tick_scan_def e1)
  then show "s_current_tick (tick_scan PTR now s) = s_current_tick s" "halted (tick_scan PTR now s) = halted s"
    "current_id (tick_scan PTR now s) = current_id s" using f1 f2 f3 by simp_all
qed

text \<open>
  C24. The due bound is exact: in every state that satisfies the invariants, a tick that skips the
  scans because the bound says that nothing can be due gives the same status, the same process and
  the same state, the bound itself apart, as a tick that always scans the whole process pool.
\<close>

theorem tick_due_bound_exact:
  assumes "kernel_inv s" "timer_ok s"
  shows "case maxrtos_kernel_on_tick schedp sched PTR outp s of (status, out, s') \<Rightarrow>
    \<exists>bound. on_tick_always schedp sched PTR outp s = (status, out, s'\<lparr>s_next_due := bound\<rparr>)"
proof -
  let ?s1 = "s\<lparr>s_current_tick := s_current_tick s + 1\<rparr>" and ?now = "s_current_tick s + 1"
  have inv: "kernel_inv ?s1" "timer_ok ?s1"
    using assms by (simp_all add: kernel_inv_def sched_inv_def due_ok_def timer_ok_def queued_in_def)
  obtain st part where f: "maxrtos_frame_partition_at_tick schedp sched (s_current_tick s) PTR = (st, part)"
    by (rule prod.exhaust)
  obtain st' out' s' where t: "maxrtos_kernel_on_tick schedp sched PTR outp s = (st', out', s')" by (rule prod_cases3)
  show ?thesis
  proof (cases "maxrtos_kernel_timing_is_due ?now ?s1")
    case True
    then have "on_tick_always schedp sched PTR outp s = maxrtos_kernel_on_tick schedp sched PTR outp s"
      by (simp add: on_tick_always_def maxrtos_kernel_on_tick_def)
    with t show ?thesis by (auto intro!: exI[of _ "s_next_due s'"])
  next
    case False
    from tick_scan_inv[OF inv, of ?now] nothing_due_bound[OF inv(1) False] obtain d where
      "tick_scan PTR ?now ?s1 = ?s1\<lparr>s_next_due := d\<rparr>" by (auto simp: maxrtos_kernel_timing_refresh_due_def)
    then have "on_tick_always schedp sched PTR outp s = (st', out', s'\<lparr>s_next_due := d\<rparr>)"
      using t False
      by (cases "st = MAXRTOS_OK")
        (auto simp: on_tick_always_def maxrtos_kernel_on_tick_def f maxrtos_partition_dispatch_def select_next_due)
    with t show ?thesis by auto
  qed
qed

text \<open>A tick is the scan, if any, followed by the dispatch of the partition of the frame.\<close>

lemma on_tick_cases:
  assumes "kernel_inv s" "timer_ok s" "maxrtos_frame_partition_at_tick schedp sched (s_current_tick s) PTR = (st, part)"
  shows "\<exists>s2. kernel_inv s2 \<and> timer_ok s2 \<and> nothing_due (s_current_tick s + 1) s2 \<and> s_current_tick s2 = s_current_tick s + 1
    \<and> recorded (s_current_tick s + 1) s s2
    \<and> halted s2 = halted s \<and> current_id s2 = current_id s
    \<and> maxrtos_kernel_on_tick schedp sched PTR outp s = (if st = MAXRTOS_OK
        then maxrtos_partition_select PTR (out_val MAXRTOS_INVALID_PARTITION_ID part) outp False s2 else (st, None, s2))"
proof -
  define s1 where "s1 = s\<lparr>s_current_tick := s_current_tick s + 1\<rparr>"
  define s2 where "s2 = (if maxrtos_kernel_timing_is_due (s_current_tick s1) s1 then tick_scan PTR (s_current_tick s1) s1 else s1)"
  from tick_step[OF assms(1,2)] have "kernel_inv s2" "timer_ok s2" "nothing_due (s_current_tick s + 1) s2"
    "recorded (s_current_tick s + 1) s s2"
    unfolding s2_def s1_def by blast+
  moreover have "kernel_inv s1" "timer_ok s1"
    using assms by (simp_all add: s1_def kernel_inv_def sched_inv_def due_ok_def timer_ok_def queued_in_def)
  then have "s_current_tick s2 = s_current_tick s1" "halted s2 = halted s1" "current_id s2 = current_id s1"
    using tick_scan_frame[of s1 "s_current_tick s1"] by (simp_all add: s2_def)
  then have "s_current_tick s2 = s_current_tick s + 1" "halted s2 = halted s" "current_id s2 = current_id s"
    by (simp_all add: s1_def)
  moreover have "maxrtos_kernel_on_tick schedp sched PTR outp s = (if st = MAXRTOS_OK
        then maxrtos_partition_select PTR (out_val MAXRTOS_INVALID_PARTITION_ID part) outp False s2 else (st, None, s2))"
    by (simp add: maxrtos_kernel_on_tick_def assms(3) s1_def[symmetric] s2_def[symmetric] Let_def maxrtos_partition_dispatch_def)
  ultimately show ?thesis by blast
qed

lemma on_tick_inv:
  fixes schedp sched outp
  assumes inv: "kernel_inv s" "timer_ok s"
  defines "s' \<equiv> snd (snd (maxrtos_kernel_on_tick schedp sched PTR outp s))"
  shows "kernel_inv s' \<and> timer_ok s' \<and> s_current_tick s' = s_current_tick s + 1 \<and> nothing_due (s_current_tick s + 1) s'
    \<and> recorded (s_current_tick s + 1) s s'"
proof -
  obtain st part where f: "maxrtos_frame_partition_at_tick schedp sched (s_current_tick s) PTR = (st, part)"
    by (rule prod.exhaust)
  from on_tick_cases[OF inv f, of outp] obtain s2 where k: "kernel_inv s2" "timer_ok s2"
    "nothing_due (s_current_tick s + 1) s2" "s_current_tick s2 = s_current_tick s + 1" "recorded (s_current_tick s + 1) s s2"
    and code: "maxrtos_kernel_on_tick schedp sched PTR outp s = (if st = MAXRTOS_OK
        then maxrtos_partition_select PTR (out_val MAXRTOS_INVALID_PARTITION_ID part) outp False s2 else (st, None, s2))" by blast
  show ?thesis
  proof (cases "st = MAXRTOS_OK")
    case True
    have "recorded now s (snd (snd (maxrtos_partition_select PTR p outp False s2)))" if "recorded now s s2" for now p
      by (rule select_recorded[OF k(1) that])
    with True select_inv(1,2)[OF k(1,2)] select_inv(3)[OF k(1-3)] select_pool(3)[OF k(1)] k(4,5) show ?thesis
      by (simp add: s'_def code only_scheduling_iff)
  next
    case False
    with k show ?thesis by (simp add: s'_def code)
  qed
qed

text \<open>
  C13. Deadlines of the clock are met: a tick advances the clock by one and leaves nothing behind.
  No process whose timed wait has expired is still on a wait list, no process whose release or
  delay has come is still BLOCKED for it, and no deadline that has passed is still armed for a
  process that is not SUSPENDED in a partition that is not halted. The deadlines that passed were
  recorded: the pending mask has exactly the bits it had before and the bits of the processes that
  overran (with the deadline of the new release for a process that this tick releases), and the
  miss counter of exactly these processes went up by one. All this holds whether or not the tick
  scanned and whatever it dispatched, and the kernel and timer invariants hold after it.
\<close>

theorem tick_leaves_nothing_due:
  assumes "kernel_inv s" "timer_ok s"
  shows "case maxrtos_kernel_on_tick schedp sched PTR outp s of (status, out, s') \<Rightarrow>
    kernel_inv s' \<and> timer_ok s' \<and> s_current_tick s' = s_current_tick s + 1 \<and> nothing_due (s_current_tick s') s'
    \<and> recorded (s_current_tick s') s s'"
  using on_tick_inv[OF assms, of schedp sched outp] by (auto split: prod.split)

text \<open>What a selection hands out.\<close>

lemma select_runs:
  assumes inv: "kernel_inv s" and part: "part < of_nat MAXRTOS_MAX_PARTITIONS"
    and r: "maxrtos_partition_select PTR part PTR yield s = (st, out, s')"
  shows "st = MAXRTOS_OK \<Longrightarrow> \<exists>n. out = Some n \<and> allocated (process_pool s') n \<and> pcb_partition_id (process_pool s' n) = part
      \<and> pcb_state (process_pool s' n) = MAXRTOS_PROCESS_STATE_RUNNING \<and> current_id s' = (current_id s)(part := n) \<and> \<not> halted s part"
    and "st \<noteq> MAXRTOS_OK \<Longrightarrow> out = None \<and> current_id s' = current_id s"
proof -
  have "(st = MAXRTOS_OK \<longrightarrow> (\<exists>n. out = Some n \<and> allocated (process_pool s') n \<and> pcb_partition_id (process_pool s' n) = part
      \<and> pcb_state (process_pool s' n) = MAXRTOS_PROCESS_STATE_RUNNING \<and> current_id s' = (current_id s)(part := n) \<and> \<not> halted s part))
    \<and> (st \<noteq> MAXRTOS_OK \<longrightarrow> out = None \<and> current_id s' = current_id s)"
  proof (cases "halted s part")
    case True
    with r show ?thesis using part by (auto simp: maxrtos_partition_select_def)
  next
    case False
    let ?c = "current_id s part"
    note ok = kernel_invD(1)[OF inv]
    from partition_select_eq[OF ok part False, of yield] r obtain ctx' where e:
      "s' = (upd_ctx part ctx' s)\<lparr>process_pool := selected_pool ?c out (process_pool s),
         current_id := (current_id s)(part := case out of None \<Rightarrow> ?c | Some n \<Rightarrow> n)\<rparr>"
      "select_spec yield (running_of ?c (process_pool s)) (ready (scheduler_ctx s part)) = (st, out, ready ctx')"
      "st = MAXRTOS_OK \<longleftrightarrow> out \<noteq> None" by auto
    show ?thesis
    proof (cases out)
      case None
      with e show ?thesis by auto
    next
      case (Some n)
      note pk = sched_okD(3)[OF ok[unfolded sched_inv_def] part]
      from select_spec_members[OF part_okD(1,2)[OF pk] e(2)] Some
      have "n = ?c \<and> ?c \<noteq> MAXRTOS_INVALID_PROCESS_ID \<or> (\<exists>r \<le> 31. n \<in> set (ready (scheduler_ctx s part) r))" by blast
      then have ne: "n \<noteq> MAXRTOS_INVALID_PROCESS_ID" using domain_okD(1)[OF part_okD(1)[OF pk]] not_allocated_invalid by metis
      have "sched_inv s'" using partition_select_inv[OF ok, of PTR part PTR yield] r by simp
      from sched_okD(3)[OF this[unfolded sched_inv_def] part] have "part_ok (process_pool s') part (scheduler_ctx s' part) (current_id s' part)" .
      moreover have "current_id s' part = n" using Some by (simp add: e(1))
      ultimately have "running_in n (process_pool s')" "pcb_partition_id (process_pool s' n) = part"
        using ne by (simp_all add: part_ok_def)
      with ne Some e(1,3) False show ?thesis by (simp add: running_in_def)
    qed
  qed
  then show "st = MAXRTOS_OK \<Longrightarrow> \<exists>n. out = Some n \<and> allocated (process_pool s') n \<and> pcb_partition_id (process_pool s' n) = part
      \<and> pcb_state (process_pool s' n) = MAXRTOS_PROCESS_STATE_RUNNING \<and> current_id s' = (current_id s)(part := n) \<and> \<not> halted s part"
    and "st \<noteq> MAXRTOS_OK \<Longrightarrow> out = None \<and> current_id s' = current_id s" by blast+
qed

text \<open>
  Time partitioning: under a well-formed schedule a tick gives the processor to the partition
  that owns the tick in the major frame and to no other. If the tick hands out a process, it is an
  allocated, RUNNING process of that partition, which is not halted, and it is the partition's
  current process. If it does not (the partition is halted or has nothing to run), no process is
  handed out. The current process of every other partition stays, and no process of another
  partition starts to run.
\<close>

lemma tick_runs_active_partition:
  assumes "kernel_inv s" "timer_ok s" "frame_wf sched"
  defines "part \<equiv> frame_timeline sched ! (unat (s_current_tick s) mod length (frame_timeline sched))"
  shows "case maxrtos_kernel_on_tick PTR sched PTR PTR s of (status, out, s') \<Rightarrow>
    (case out of
       None \<Rightarrow> status \<noteq> MAXRTOS_OK
     | Some n \<Rightarrow> status = MAXRTOS_OK \<and> allocated (process_pool s') n \<and> pcb_partition_id (process_pool s' n) = part
         \<and> pcb_state (process_pool s' n) = MAXRTOS_PROCESS_STATE_RUNNING \<and> current_id s' part = n \<and> \<not> halted s part)
    \<and> (\<forall>p. p \<noteq> part \<longrightarrow> current_id s' p = current_id s p)
    \<and> (\<forall>i. allocated (process_pool s') i \<and> pcb_partition_id (process_pool s' i) \<noteq> part
         \<and> pcb_state (process_pool s' i) = MAXRTOS_PROCESS_STATE_RUNNING \<longrightarrow>
         pcb_state (process_pool s i) = MAXRTOS_PROCESS_STATE_RUNNING)"
proof -
  have f: "maxrtos_frame_partition_at_tick PTR sched (s_current_tick s) PTR = (MAXRTOS_OK, Some part)"
    unfolding part_def by (rule frame_lookup_nth[OF assms(3)])
  have p: "part < of_nat MAXRTOS_MAX_PARTITIONS" unfolding part_def by (rule frame_timeline_partition[OF assms(3)])
  from on_tick_cases[OF assms(1,2) f, of PTR] obtain s2 where k: "kernel_inv s2" "timer_ok s2" "halted s2 = halted s"
    "current_id s2 = current_id s"
    and code: "maxrtos_kernel_on_tick PTR sched PTR PTR s = maxrtos_partition_select PTR part PTR False s2"
    by auto
  obtain st out s' where r: "maxrtos_partition_select PTR part PTR False s2 = (st, out, s')" by (rule prod_cases3)
  note runs = select_runs[OF k(1) p r]
  have k': "kernel_inv s'" using select_inv(1)[OF k(1,2), where tablep = PTR and part = part and outp = PTR and yield = False] r by simp
  have cur: "\<forall>q. q \<noteq> part \<longrightarrow> current_id s' q = current_id s q" using runs k(4) by (cases "st = MAXRTOS_OK") auto
  have "pcb_state (process_pool s i) = MAXRTOS_PROCESS_STATE_RUNNING"
    if i: "allocated (process_pool s') i" "pcb_partition_id (process_pool s' i) \<noteq> part"
      "pcb_state (process_pool s' i) = MAXRTOS_PROCESS_STATE_RUNNING" for i
  proof -
    let ?q = "pcb_partition_id (process_pool s' i)"
    note ok' = kernel_invD(1)[OF k', unfolded sched_inv_def] and ok = kernel_invD(1)[OF assms(1), unfolded sched_inv_def]
    have "?q < of_nat MAXRTOS_MAX_PARTITIONS" using sched_okD(1)[OF ok' i(1)] by (simp add: pcb_ok_def)
    moreover have "current_id s ?q = i" using sched_okD(2)[OF ok' i(1,3)] cur i(2) by simp
    moreover have "i \<noteq> MAXRTOS_INVALID_PROCESS_ID" using i(1) by auto
    ultimately show ?thesis using part_okD(2)[OF sched_okD(3)[OF ok, of ?q]] by (simp add: running_in_def)
  qed
  moreover have "case out of None \<Rightarrow> st \<noteq> MAXRTOS_OK
     | Some n \<Rightarrow> st = MAXRTOS_OK \<and> allocated (process_pool s') n \<and> pcb_partition_id (process_pool s' n) = part
         \<and> pcb_state (process_pool s' n) = MAXRTOS_PROCESS_STATE_RUNNING \<and> current_id s' part = n \<and> \<not> halted s part"
    using runs k(3) by (cases "st = MAXRTOS_OK") auto
  ultimately show ?thesis using cur by (simp add: code r)
qed

subsection \<open>Starting and yielding\<close>

lemma tick_reset_inv:
  assumes "kernel_inv s" "timer_ok s"
  shows "kernel_inv (maxrtos_kernel_tick_reset s)" "timer_ok (maxrtos_kernel_tick_reset s)"
proof -
  have "due_ok (maxrtos_kernel_tick_reset s)"
    unfolding maxrtos_kernel_tick_reset_def
    by (rule due_ok_note[OF kernel_invD(3)[OF assms(1)]]) simp_all
  with assms show "kernel_inv (maxrtos_kernel_tick_reset s)" "timer_ok (maxrtos_kernel_tick_reset s)"
    by (simp_all add: maxrtos_kernel_tick_reset_def kernel_inv_def sched_inv_def timer_ok_def queued_in_def)
qed

lemma start_scheduler_inv:
  assumes "kernel_inv s" "timer_ok s"
  shows "kernel_inv (snd (snd (maxrtos_kernel_start_scheduler schedp sched tablep outp s)))
    \<and> timer_ok (snd (snd (maxrtos_kernel_start_scheduler schedp sched tablep outp s)))"
proof (cases "schedp \<noteq> NULL \<and> tablep = PTR \<and> outp \<noteq> NULL")
  case False
  then have "snd (snd (maxrtos_kernel_start_scheduler schedp sched tablep outp s)) = s"
    by (cases tablep) (auto simp: maxrtos_kernel_start_scheduler_def)
  with assms show ?thesis by simp
next
  case True
  let ?s1 = "maxrtos_kernel_rearm_all_timing (maxrtos_kernel_tick_reset s)"
  note r = rearm_all_inv[OF tick_reset_inv[OF assms]]
  obtain st first s' where t: "maxrtos_kernel_on_tick schedp sched PTR PTR ?s1 = (st, first, s')" by (rule prod_cases3)
  have "snd (snd (maxrtos_kernel_start_scheduler schedp sched tablep outp s)) = s'"
    using True t by (auto simp: maxrtos_kernel_start_scheduler_def split: option.splits)
  with on_tick_inv[OF conjunct1[OF r] conjunct2[OF r], of schedp sched PTR] t show ?thesis by simp
qed

lemma yield_inv:
  assumes "kernel_inv s" "timer_ok s"
  shows "kernel_inv (snd (snd (maxrtos_kernel_yield tablep part current outp switchp s)))
    \<and> timer_ok (snd (snd (maxrtos_kernel_yield tablep part current outp switchp s)))"
proof -
  obtain st nx s' where r: "maxrtos_partition_select tablep part PTR True s = (st, nx, s')" by (rule prod_cases3)
  have "snd (snd (maxrtos_kernel_yield tablep part current outp switchp s)) \<in> {s, s'}"
    using r by (auto simp: maxrtos_kernel_yield_def maxrtos_partition_yield_def Let_def)
  moreover have "kernel_inv s'" "timer_ok s'"
    using select_inv(1,2)[OF assms, where tablep = tablep and part = part and outp = PTR and yield = True] r by simp_all
  ultimately show ?thesis using assms by auto
qed

subsection \<open>Examples\<close>

text \<open>Process 9 waits for its release at tick 20, and the clock stands at 19.\<close>

definition example_tick :: kstate where
  "example_tick = (snd (snd (maxrtos_kernel_periodic_wait PTR 9 PTR example_periodic)))\<lparr>s_current_tick := 19\<rparr>"

lemma example_tick_inv: "kernel_inv example_tick" "timer_ok example_tick"
  using periodic_wait_inv[OF example_periodic_inv, of PTR 9 PTR]
  by (simp_all add: example_tick_def kernel_inv_def sched_inv_def due_ok_def timer_ok_def queued_in_def)

lemma tick_due_bound_exact_witness:
  "case maxrtos_kernel_on_tick PTR example_schedule PTR PTR (example_tick\<lparr>s_current_tick := 7\<rparr>) of (status, out, s') \<Rightarrow>
    \<exists>bound. on_tick_always PTR example_schedule PTR PTR (example_tick\<lparr>s_current_tick := 7\<rparr>)
      = (status, out, s'\<lparr>s_next_due := bound\<rparr>)"
proof (rule tick_due_bound_exact)
  show "kernel_inv (example_tick\<lparr>s_current_tick := 7\<rparr>)" "timer_ok (example_tick\<lparr>s_current_tick := 7\<rparr>)"
    using example_tick_inv by (simp_all add: kernel_inv_def sched_inv_def due_ok_def timer_ok_def queued_in_def)
qed

text \<open>At tick 20 the waiting process is released; without the wait its deadline passes at tick 10.\<close>

lemma tick_leaves_nothing_due_witness:
  "due_release 20 example_tick 9 \<and>
   (case maxrtos_kernel_on_tick PTR example_schedule PTR PTR example_tick of (status, out, s') \<Rightarrow>
     kernel_inv s' \<and> s_current_tick s' = 20 \<and> nothing_due 20 s') \<and>
   overruns 10 (example_periodic\<lparr>s_current_tick := 9\<rparr>) 9 \<and>
   (case maxrtos_kernel_on_tick PTR example_schedule PTR PTR (example_periodic\<lparr>s_current_tick := 9\<rparr>) of (status, out, s') \<Rightarrow>
     bit (s_pending_misses s') 9 \<and> \<not> misses_deadline 10 s' 9)"
proof (intro conjI)
  show "due_release 20 example_tick 9" by code_simp
  have "s_current_tick example_tick = 19" by (simp add: example_tick_def)
  with tick_leaves_nothing_due[OF example_tick_inv, of PTR example_schedule PTR]
  show "case maxrtos_kernel_on_tick PTR example_schedule PTR PTR example_tick of (status, out, s') \<Rightarrow>
     kernel_inv s' \<and> s_current_tick s' = 20 \<and> nothing_due 20 s'" by (auto split: prod.splits)
  let ?s = "example_periodic\<lparr>s_current_tick := 9\<rparr>"
  show o: "overruns 10 ?s 9" by code_simp
  have "kernel_inv ?s" "timer_ok ?s"
    using example_periodic_inv by (simp_all add: kernel_inv_def sched_inv_def due_ok_def timer_ok_def queued_in_def)
  note t = tick_leaves_nothing_due[OF this, of PTR example_schedule PTR]
  obtain st out s' where e: "maxrtos_kernel_on_tick PTR example_schedule PTR PTR ?s = (st, out, s')" by (rule prod_cases3)
  from t[unfolded e prod.case] have now: "s_current_tick s' = 10" by simp
  from t[unfolded e prod.case now] have "recorded 10 ?s s'" "nothing_due 10 s'" by blast+
  moreover have "unat (9 :: u32) = 9" by simp
  ultimately show "case maxrtos_kernel_on_tick PTR example_schedule PTR PTR ?s of (status, out, s') \<Rightarrow>
     bit (s_pending_misses s') 9 \<and> \<not> misses_deadline 10 s' 9"
    using o unfolding e recorded_def nothing_due_def by auto
qed

lemma tick_runs_active_partition_witness:
  "\<exists>n s'. maxrtos_kernel_on_tick PTR example_schedule PTR PTR example_tick = (MAXRTOS_OK, Some n, s')
    \<and> pcb_partition_id (process_pool s' n) = 0 \<and> current_id s' 0 = n"
proof -
  have "s_current_tick example_tick = 19" by (simp add: example_tick_def)
  then have t: "frame_timeline example_schedule ! (unat (s_current_tick example_tick) mod length (frame_timeline example_schedule)) = 0"
    by (simp add: example_schedule_timeline)
  obtain st out s' where e: "maxrtos_kernel_on_tick PTR example_schedule PTR PTR example_tick = (st, out, s')"
    by (rule prod_cases3)
  have "fst (maxrtos_kernel_on_tick PTR example_schedule PTR PTR example_tick) = MAXRTOS_OK" by code_simp
  with tick_runs_active_partition[OF example_tick_inv example_schedule_wf] t e show ?thesis
    by (cases out) auto
qed

end
