(* ===== verification/Health_Monitor.thy ===== *)
theory Health_Monitor
  imports Prelude
begin

text \<open>
  Fault classes and recovery policies of health_monitor.c: a table of one action per partition
  and fault class. The C enumerations are datatypes with the source's constructors, the
  \<open>_COUNT\<close> sentinels included, ordered by their numeric values as the code compares them.
\<close>

datatype maxrtos_fault_type =
    MAXRTOS_FAULT_MEMORY_ACCESS
  | MAXRTOS_FAULT_BUS_ERROR
  | MAXRTOS_FAULT_ILLEGAL_INSTRUCTION
  | MAXRTOS_FAULT_DIVIDE_BY_ZERO
  | MAXRTOS_FAULT_UNEXPECTED_RETURN
  | MAXRTOS_FAULT_DEADLINE_EXCEEDED
  | MAXRTOS_FAULT_COUNT

datatype maxrtos_hm_action =
    MAXRTOS_HM_ACTION_IGNORE
  | MAXRTOS_HM_ACTION_RESTART_PROCESS
  | MAXRTOS_HM_ACTION_HALT_PARTITION
  | MAXRTOS_HM_ACTION_COUNT

primrec fault_code :: "maxrtos_fault_type \<Rightarrow> nat" where
  "fault_code MAXRTOS_FAULT_MEMORY_ACCESS = 0"
| "fault_code MAXRTOS_FAULT_BUS_ERROR = 1"
| "fault_code MAXRTOS_FAULT_ILLEGAL_INSTRUCTION = 2"
| "fault_code MAXRTOS_FAULT_DIVIDE_BY_ZERO = 3"
| "fault_code MAXRTOS_FAULT_UNEXPECTED_RETURN = 4"
| "fault_code MAXRTOS_FAULT_DEADLINE_EXCEEDED = 5"
| "fault_code MAXRTOS_FAULT_COUNT = 6"

primrec action_code :: "maxrtos_hm_action \<Rightarrow> nat" where
  "action_code MAXRTOS_HM_ACTION_IGNORE = 0"
| "action_code MAXRTOS_HM_ACTION_RESTART_PROCESS = 1"
| "action_code MAXRTOS_HM_ACTION_HALT_PARTITION = 2"
| "action_code MAXRTOS_HM_ACTION_COUNT = 3"

lemma fault_code_inj: "fault_code x = fault_code y \<Longrightarrow> x = y"
  by (cases x; cases y) simp_all

lemma action_code_inj: "action_code x = action_code y \<Longrightarrow> x = y"
  by (cases x; cases y) simp_all

instantiation maxrtos_fault_type :: linorder
begin
definition less_eq_maxrtos_fault_type :: "maxrtos_fault_type \<Rightarrow> maxrtos_fault_type \<Rightarrow> bool" where
  "x \<le> y \<longleftrightarrow> fault_code x \<le> fault_code y"
definition less_maxrtos_fault_type :: "maxrtos_fault_type \<Rightarrow> maxrtos_fault_type \<Rightarrow> bool" where
  "x < y \<longleftrightarrow> fault_code x < fault_code y"
instance
  by intro_classes (auto simp: less_eq_maxrtos_fault_type_def less_maxrtos_fault_type_def intro: fault_code_inj)
end

instantiation maxrtos_hm_action :: linorder
begin
definition less_eq_maxrtos_hm_action :: "maxrtos_hm_action \<Rightarrow> maxrtos_hm_action \<Rightarrow> bool" where
  "x \<le> y \<longleftrightarrow> action_code x \<le> action_code y"
definition less_maxrtos_hm_action :: "maxrtos_hm_action \<Rightarrow> maxrtos_hm_action \<Rightarrow> bool" where
  "x < y \<longleftrightarrow> action_code x < action_code y"
instance
  by intro_classes (auto simp: less_eq_maxrtos_hm_action_def less_maxrtos_hm_action_def intro: action_code_inj)
end

lemma fault_below_count: "f < MAXRTOS_FAULT_COUNT \<longleftrightarrow> f \<noteq> MAXRTOS_FAULT_COUNT"
  by (cases f) (simp_all add: less_maxrtos_fault_type_def)

lemma action_below_count: "a < MAXRTOS_HM_ACTION_COUNT \<longleftrightarrow> a \<noteq> MAXRTOS_HM_ACTION_COUNT"
  by (cases a) (simp_all add: less_maxrtos_hm_action_def)

record maxrtos_health_monitor_t =
  hm_policy :: "u32 \<Rightarrow> maxrtos_fault_type \<Rightarrow> maxrtos_hm_action"

definition fault_types :: "maxrtos_fault_type list" where
  "fault_types = [MAXRTOS_FAULT_MEMORY_ACCESS, MAXRTOS_FAULT_BUS_ERROR, MAXRTOS_FAULT_ILLEGAL_INSTRUCTION,
     MAXRTOS_FAULT_DIVIDE_BY_ZERO, MAXRTOS_FAULT_UNEXPECTED_RETURN, MAXRTOS_FAULT_DEADLINE_EXCEEDED]"

definition maxrtos_hm_init ::
    "ptr \<Rightarrow> maxrtos_health_monitor_t \<Rightarrow> maxrtos_status \<times> maxrtos_health_monitor_t" where
  [op_defs]: "maxrtos_hm_init hmp hm =
     (if hmp \<noteq> NULL then
        (MAXRTOS_OK,
         hm\<lparr>hm_policy := fold (\<lambda>partition_id. fold (\<lambda>fault_type policy.
              policy(partition_id := (policy partition_id)(fault_type := MAXRTOS_HM_ACTION_HALT_PARTITION)))
              fault_types) (ids_below MAXRTOS_MAX_PARTITIONS) (hm_policy hm)\<rparr>)
      else (MAXRTOS_ERR_INVALID_ARG, hm))"

definition maxrtos_hm_set_policy ::
    "ptr \<Rightarrow> u32 \<Rightarrow> maxrtos_fault_type \<Rightarrow> maxrtos_hm_action \<Rightarrow> maxrtos_health_monitor_t \<Rightarrow>
     maxrtos_status \<times> maxrtos_health_monitor_t" where
  [op_defs]: "maxrtos_hm_set_policy hmp partition_id fault_type action hm =
     (if hmp \<noteq> NULL \<and> partition_id < of_nat MAXRTOS_MAX_PARTITIONS \<and> fault_type < MAXRTOS_FAULT_COUNT
         \<and> action < MAXRTOS_HM_ACTION_COUNT then
        (MAXRTOS_OK,
         hm\<lparr>hm_policy := (hm_policy hm)(partition_id := (hm_policy hm partition_id)(fault_type := action))\<rparr>)
      else (MAXRTOS_ERR_INVALID_ARG, hm))"

definition maxrtos_hm_get_policy ::
    "ptr \<Rightarrow> u32 \<Rightarrow> maxrtos_fault_type \<Rightarrow> ptr \<Rightarrow> maxrtos_health_monitor_t \<Rightarrow>
     maxrtos_status \<times> maxrtos_hm_action option" where
  [op_defs]: "maxrtos_hm_get_policy hmp partition_id fault_type outp hm =
     (if hmp \<noteq> NULL \<and> outp \<noteq> NULL \<and> partition_id < of_nat MAXRTOS_MAX_PARTITIONS
         \<and> fault_type < MAXRTOS_FAULT_COUNT then
        (MAXRTOS_OK, Some (hm_policy hm partition_id fault_type))
      else (MAXRTOS_ERR_INVALID_ARG, None))"

subsection \<open>Policies\<close>

lemma hm_fold_faults:
  "fold (\<lambda>f pol. pol(p := (pol p)(f := a))) fs g q h = (if q = p \<and> h \<in> set fs then a else g q h)"
  by (induction fs arbitrary: g) auto

lemma hm_fold_init:
  "fold (\<lambda>p. fold (\<lambda>f pol. pol(p := (pol p)(f := a))) fs) ps g q h
    = (if q \<in> set ps \<and> h \<in> set fs then a else g q h)"
  by (induction ps arbitrary: g) (auto simp: hm_fold_faults)

lemma set_fault_types: "f \<in> set fault_types \<longleftrightarrow> f < MAXRTOS_FAULT_COUNT"
  by (cases f) (simp_all add: fault_types_def less_maxrtos_fault_type_def)

text \<open>
  Fail-safe default: after initialisation every partition and every fault class is configured
  to halt the partition.
\<close>

lemma hm_init_halts:
  "maxrtos_hm_get_policy PTR p f PTR (snd (maxrtos_hm_init PTR hm)) =
    (if p < of_nat MAXRTOS_MAX_PARTITIONS \<and> f < MAXRTOS_FAULT_COUNT
     then (MAXRTOS_OK, Some MAXRTOS_HM_ACTION_HALT_PARTITION) else (MAXRTOS_ERR_INVALID_ARG, None))"
  by (simp add: op_defs hm_fold_init set_fault_types)

text \<open>
  Round trip of the policy table: a successful set is read back for its partition and fault
  class, and no other entry changes; a set is refused exactly when an argument is out of range,
  and then the table is unchanged.
\<close>

lemma hm_set_get:
  "case maxrtos_hm_set_policy PTR p f a hm of (status, hm') \<Rightarrow>
    maxrtos_hm_get_policy PTR p' f' PTR hm' =
      (if status = MAXRTOS_OK \<and> p' = p \<and> f' = f then (MAXRTOS_OK, Some a)
       else maxrtos_hm_get_policy PTR p' f' PTR hm)
    \<and> (status = MAXRTOS_OK \<longleftrightarrow>
        p < of_nat MAXRTOS_MAX_PARTITIONS \<and> f \<noteq> MAXRTOS_FAULT_COUNT \<and> a \<noteq> MAXRTOS_HM_ACTION_COUNT)"
  by (auto simp: op_defs fault_below_count action_below_count)

end
