(* ===== verification/Arch.thy ===== *)
theory Arch
  imports Mpu Tick Health_Monitor
begin

text \<open>
  The state of the Cortex-M7 layer and its context switch (context_switch.c, idle.c, privilege.c).
  The kernel state is one component. A pointer to a control block is a slot of the process pool or
  the idle context. CONTROL is kept as the register value; setting PENDSVSET is the flag \<open>pendsv\<close>.
  The addresses of \<open>maxrtos_arch_process_return_trap\<close>, of the idle entry point and of the idle
  stack are fixed by the linker and are fields of the state that nothing writes.
\<close>

datatype pcb_ref = Process_Pcb u32 | Idle_Pcb

record arch =
  kern :: kstate
  g_maxrtos_current_pcb :: "pcb_ref option"
  g_maxrtos_next_pcb :: "pcb_ref option"
  s_idle_pcb :: pcb
  s_partition_privileged :: "u32 \<Rightarrow> bool"
  control :: u32
  pendsv :: bool
  mpu_unit :: mpu_hw
  s_hm :: "maxrtos_health_monitor_t option"
  s_table :: ptr
  s_frame_schedule :: "maxrtos_frame_schedule_t option"
  s_partition_table :: ptr
  process_return_trap :: u32
  idle_entry :: u32
  s_idle_stack :: u32

definition pcb_at :: "pcb_ref \<Rightarrow> arch \<Rightarrow> pcb" where
  "pcb_at r a = (case r of Process_Pcb i \<Rightarrow> process_pool (kern a) i | Idle_Pcb \<Rightarrow> s_idle_pcb a)"

definition upd_pcb_at :: "pcb_ref \<Rightarrow> (pcb \<Rightarrow> pcb) \<Rightarrow> arch \<Rightarrow> arch" where
  "upd_pcb_at r f a = (case r of
     Process_Pcb i \<Rightarrow> a\<lparr>kern := upd_pcb i f (kern a)\<rparr>
   | Idle_Pcb \<Rightarrow> a\<lparr>s_idle_pcb := f (s_idle_pcb a)\<rparr>)"

text \<open>\<open>maxrtos_process_get\<close> as a pointer.\<close>

definition process_ref :: "u32 \<Rightarrow> arch \<Rightarrow> pcb_ref option" where
  "process_ref i a = (case get_pcb i (kern a) of None \<Rightarrow> None | Some _ \<Rightarrow> Some (Process_Pcb i))"

definition upd_mem :: "(memory \<Rightarrow> memory) \<Rightarrow> arch \<Rightarrow> arch" where
  "upd_mem f a = a\<lparr>kern := (kern a)\<lparr>mem := f (mem (kern a))\<rparr>\<rparr>"

subsection \<open>Words in memory\<close>

definition word_bytes :: "u32 \<Rightarrow> u8 list" where
  "word_bytes w = [ucast w, ucast (drop_bit 8 w), ucast (drop_bit 16 w), ucast (drop_bit 24 w)]"

definition store_word :: "memory \<Rightarrow> u32 \<Rightarrow> u32 \<Rightarrow> memory" where
  "store_word m addr w = mem_write m addr (word_bytes w)"

definition load_word :: "memory \<Rightarrow> u32 \<Rightarrow> u32" where
  "load_word m addr = ucast (m addr) OR push_bit 8 (ucast (m (addr + 1)))
     OR push_bit 16 (ucast (m (addr + 2))) OR push_bit 24 (ucast (m (addr + 3)))"

lemma load_store_word: "load_word (store_word m addr w) addr = w"
proof (rule bit_word_eqI)
  fix n assume n: "n < LENGTH(32)"
  have d: "unat (addr + k - addr) = unat k" for k by simp
  have "n < 8 \<or> 8 \<le> n \<and> n < 16 \<or> 16 \<le> n \<and> n < 24 \<or> 24 \<le> n" by linarith
  then show "bit (load_word (store_word m addr w) addr) n = bit w n"
    using n by (auto simp: load_word_def store_word_def mem_write_def word_bytes_def bit_simps)
qed

lemma store_word_outside: "4 \<le> unat (x - addr) \<Longrightarrow> store_word m addr w x = m x"
  by (simp add: store_word_def mem_write_def word_bytes_def)

text \<open>The numbers of the status codes, as a system call returns them.\<close>

fun status_code :: "maxrtos_status \<Rightarrow> u32" where
  "status_code MAXRTOS_OK = 0"
| "status_code MAXRTOS_ERR_INVALID_ARG = 1"
| "status_code MAXRTOS_ERR_INVALID_ID = 2"
| "status_code MAXRTOS_ERR_INVALID_STATE = 3"
| "status_code MAXRTOS_ERR_POOL_FULL = 4"
| "status_code MAXRTOS_ERR_QUEUE_FULL = 5"
| "status_code MAXRTOS_ERR_QUEUE_EMPTY = 6"
| "status_code MAXRTOS_ERR_OVERFLOW = 7"
| "status_code MAXRTOS_ERR_PARTITION_HALTED = 8"
| "status_code MAXRTOS_ERR_DEADLINE_EXCEEDED = 9"
| "status_code MAXRTOS_PENDING = 10"
| "status_code MAXRTOS_ERR_NOT_FOUND = 11"
| "status_code MAXRTOS_ERR_TIMEOUT = 12"

subsection \<open>Privilege of partitions (privilege.c)\<close>

definition maxrtos_arch_set_partition_privileged :: "u32 \<Rightarrow> bool \<Rightarrow> arch \<Rightarrow> arch" where
  "maxrtos_arch_set_partition_privileged partition_id privileged a =
     (if partition_id < of_nat MAXRTOS_MAX_PARTITIONS
      then a\<lparr>s_partition_privileged := (s_partition_privileged a)(partition_id := privileged)\<rparr> else a)"

definition maxrtos_arch_partition_is_privileged :: "u32 \<Rightarrow> arch \<Rightarrow> bool" where
  "maxrtos_arch_partition_is_privileged partition_id a =
     (if partition_id = MAXRTOS_INVALID_PARTITION_ID then True
      else if partition_id < of_nat MAXRTOS_MAX_PARTITIONS then s_partition_privileged a partition_id
      else False)"

subsection \<open>The context switch (context_switch.c)\<close>

abbreviation (input) MAXRTOS_INITIAL_FRAME_WORDS :: nat where "MAXRTOS_INITIAL_FRAME_WORDS \<equiv> 50"
abbreviation (input) MAXRTOS_FRAME_R0 :: u32 where "MAXRTOS_FRAME_R0 \<equiv> 24"
abbreviation (input) MAXRTOS_FRAME_LR :: u32 where "MAXRTOS_FRAME_LR \<equiv> 29"
abbreviation (input) MAXRTOS_FRAME_PC :: u32 where "MAXRTOS_FRAME_PC \<equiv> 30"
abbreviation (input) MAXRTOS_FRAME_XPSR :: u32 where "MAXRTOS_FRAME_XPSR \<equiv> 31"
abbreviation (input) MAXRTOS_INITIAL_XPSR :: u32 where "MAXRTOS_INITIAL_XPSR \<equiv> 0x01000000"
abbreviation (input) MAXRTOS_THUMB_BIT :: u32 where "MAXRTOS_THUMB_BIT \<equiv> 1"
abbreviation (input) MAXRTOS_ARCH_MIN_STACK_SIZE :: u32 where "MAXRTOS_ARCH_MIN_STACK_SIZE \<equiv> 207"
abbreviation (input) MAXRTOS_CONTROL_NPRIV :: u32 where "MAXRTOS_CONTROL_NPRIV \<equiv> 1"

text \<open>\<open>sp[i] = w\<close> for a word pointer.\<close>

definition set_frame_word :: "u32 \<Rightarrow> u32 \<Rightarrow> u32 \<Rightarrow> memory \<Rightarrow> memory" where
  "set_frame_word sp i w m = store_word m (sp + 4 * i) w"

definition initial_frame :: "u32 \<Rightarrow> u32 \<Rightarrow> u32 \<Rightarrow> u32 \<Rightarrow> memory \<Rightarrow> memory" where
  "initial_frame sp entry_arg trap entry m =
     set_frame_word sp MAXRTOS_FRAME_XPSR MAXRTOS_INITIAL_XPSR
      (set_frame_word sp MAXRTOS_FRAME_PC (entry OR MAXRTOS_THUMB_BIT)
       (set_frame_word sp MAXRTOS_FRAME_LR trap
        (set_frame_word sp MAXRTOS_FRAME_R0 entry_arg
         (fold (\<lambda>i. set_frame_word sp (of_nat i) 0) [0..<MAXRTOS_INITIAL_FRAME_WORDS] m))))"

definition maxrtos_arch_init_stack :: "pcb_ref option \<Rightarrow> arch \<Rightarrow> maxrtos_status \<times> arch" where
  "maxrtos_arch_init_stack pcbp a =
     (case pcbp of
        None \<Rightarrow> (MAXRTOS_ERR_INVALID_ARG, a)
      | Some r \<Rightarrow>
          let pcb = pcb_at r a in
          if pcb_stack_base pcb \<noteq> 0 \<and> pcb_stack_size pcb \<ge> MAXRTOS_ARCH_MIN_STACK_SIZE \<and> pcb_entry pcb \<noteq> 0 then
            let frame_top = (pcb_stack_base pcb + pcb_stack_size pcb) AND NOT 7;
                sp = frame_top - 4 * of_nat MAXRTOS_INITIAL_FRAME_WORDS
            in (MAXRTOS_OK, upd_pcb_at r (\<lambda>b. b\<lparr>pcb_stack_pointer := sp, pcb_ipc_result_pending := False\<rparr>)
                  (upd_mem (initial_frame sp (pcb_entry_arg pcb) (process_return_trap a) (pcb_entry pcb)) a))
          else (MAXRTOS_ERR_INVALID_ARG, a))"

definition maxrtos_arch_set_current_pcb :: "pcb_ref option \<Rightarrow> arch \<Rightarrow> arch" where
  "maxrtos_arch_set_current_pcb pcb a = a\<lparr>g_maxrtos_current_pcb := pcb\<rparr>"

definition maxrtos_arch_set_next_pcb :: "pcb_ref option \<Rightarrow> arch \<Rightarrow> arch" where
  "maxrtos_arch_set_next_pcb pcb a = a\<lparr>g_maxrtos_next_pcb := pcb\<rparr>"

definition maxrtos_arch_get_current_pcb :: "arch \<Rightarrow> pcb_ref option" where
  "maxrtos_arch_get_current_pcb a = g_maxrtos_current_pcb a"

definition maxrtos_arch_get_next_pcb :: "arch \<Rightarrow> pcb_ref option" where
  "maxrtos_arch_get_next_pcb a = g_maxrtos_next_pcb a"

definition maxrtos_arch_request_context_switch :: "arch \<Rightarrow> arch" where
  "maxrtos_arch_request_context_switch a = a\<lparr>pendsv := True\<rparr>"

definition maxrtos_arch_apply_privilege_for_next_pcb :: "pcb_ref option \<Rightarrow> arch \<Rightarrow> arch" where
  "maxrtos_arch_apply_privilege_for_next_pcb pcbp a =
     (case pcbp of
        None \<Rightarrow> a
      | Some r \<Rightarrow>
          let current = control a;
              wanted = (if \<not> maxrtos_arch_partition_is_privileged (pcb_partition_id (pcb_at r a)) a
                        then current OR MAXRTOS_CONTROL_NPRIV else current AND NOT MAXRTOS_CONTROL_NPRIV)
          in if wanted \<noteq> current then a\<lparr>control := wanted\<rparr> else a)"

definition maxrtos_arch_apply_resume_result :: "pcb_ref option \<Rightarrow> arch \<Rightarrow> arch" where
  "maxrtos_arch_apply_resume_result pcbp a =
     (case pcbp of
        None \<Rightarrow> a
      | Some r \<Rightarrow>
          let pcb = pcb_at r a in
          if pcb_ipc_result_pending pcb \<and> pcb_stack_pointer pcb \<noteq> 0 then
            upd_pcb_at r (\<lambda>b. b\<lparr>pcb_ipc_result_pending := False\<rparr>)
              (upd_mem (set_frame_word (pcb_stack_pointer pcb) MAXRTOS_FRAME_R0 (status_code (pcb_ipc_result pcb))) a)
          else a)"

definition maxrtos_arch_prepare_next_pcb :: "pcb_ref option \<Rightarrow> arch \<Rightarrow> (maxrtos_status \<times> arch) option" where
  "maxrtos_arch_prepare_next_pcb pcbp a =
     (case maxrtos_arch_mpu_configure_for_next_pcb (map_option (\<lambda>r. pcb_at r a) pcbp) (mpu_unit a) of
        None \<Rightarrow> None
      | Some (status, hw) \<Rightarrow>
          let a1 = a\<lparr>mpu_unit := hw\<rparr> in
          if status = MAXRTOS_OK
          then Some (status, maxrtos_arch_apply_resume_result pcbp (maxrtos_arch_apply_privilege_for_next_pcb pcbp a1))
          else Some (status, a1))"

subsection \<open>The idle context (idle.c)\<close>

text \<open>The result is \<open>None\<close> where the code halts.\<close>

definition maxrtos_arch_idle_init :: "arch \<Rightarrow> arch option" where
  "maxrtos_arch_idle_init a =
     (let a1 = a\<lparr>s_idle_pcb := (s_idle_pcb a)\<lparr>pcb_id := MAXRTOS_INVALID_PROCESS_ID,
            pcb_partition_id := MAXRTOS_INVALID_PARTITION_ID, pcb_state := MAXRTOS_PROCESS_STATE_RUNNING,
            pcb_priority := 0, pcb_stack_base := s_idle_stack a, pcb_stack_size := 512,
            pcb_wake_tick := MAXRTOS_TICK_NONE, pcb_waitlist := None, pcb_entry := idle_entry a,
            pcb_entry_arg := 0\<rparr>\<rparr>
      in case maxrtos_arch_init_stack (Some Idle_Pcb) a1 of
           (status, a2) \<Rightarrow> if status \<noteq> MAXRTOS_OK then None else Some a2)"

definition maxrtos_arch_idle_pcb :: "pcb_ref option" where
  "maxrtos_arch_idle_pcb = Some Idle_Pcb"

definition maxrtos_arch_idle_enter_discarding_current :: "arch \<Rightarrow> arch" where
  "maxrtos_arch_idle_enter_discarding_current a =
     maxrtos_arch_request_context_switch
       (maxrtos_arch_set_next_pcb maxrtos_arch_idle_pcb
         (maxrtos_arch_set_current_pcb None (snd (maxrtos_arch_init_stack maxrtos_arch_idle_pcb a))))"

subsection \<open>The frame of a fresh context\<close>

lemma load_word_cong: "(\<And>k. k < 4 \<Longrightarrow> m' (addr + of_nat k) = m (addr + of_nat k)) \<Longrightarrow> load_word m' addr = load_word m addr"
  unfolding load_word_def
proof -
  assume m: "\<And>k. k < 4 \<Longrightarrow> m' (addr + of_nat k) = m (addr + of_nat k)"
  show "ucast (m' addr) OR push_bit 8 (ucast (m' (addr + 1))) OR push_bit 16 (ucast (m' (addr + 2)))
      OR push_bit 24 (ucast (m' (addr + 3))) = (ucast (m addr) OR push_bit 8 (ucast (m (addr + 1)))
      OR push_bit 16 (ucast (m (addr + 2))) OR push_bit 24 (ucast (m (addr + 3))) :: u32)"
    using m[of 0] m[of 1] m[of 2] m[of 3] by simp
qed

lemma frame_offset:
  assumes "i < 2 ^ 20" "j < 2 ^ 20" "k < 4"
  shows "unat (sp + 4 * of_nat j + of_nat k - (sp + 4 * of_nat i) :: u32)
    = (if 4 * i \<le> 4 * j + k then 4 * j + k - 4 * i else 2 ^ 32 + (4 * j + k) - 4 * i)"
proof -
  have e: "(sp + 4 * of_nat j + of_nat k - (sp + 4 * of_nat i) :: u32) = of_nat (4 * j + k) - of_nat (4 * i)"
    by simp
  show ?thesis unfolding e by (rule unat_diff_of_nat) (use assms in simp_all)
qed

lemma frame_word_read:
  assumes "i < 2 ^ 20" "j < 2 ^ 20"
  shows "load_word (set_frame_word sp (of_nat i) w m) (sp + 4 * of_nat j)
    = (if j = i then w else load_word m (sp + 4 * of_nat j))"
proof (cases "j = i")
  case False
  have "set_frame_word sp (of_nat i) w m (sp + 4 * of_nat j + of_nat k) = m (sp + 4 * of_nat j + of_nat k)" if "k < 4" for k
    unfolding set_frame_word_def
  proof (rule store_word_outside)
    from False consider "j < i" | "i < j" by linarith
    then show "4 \<le> unat (sp + 4 * of_nat j + of_nat k - (sp + 4 * of_nat i))"
    proof cases
      case 1
      with that have "\<not> 4 * i \<le> 4 * j + k" by linarith
      moreover have "4 * i < 4194304" "(2 :: nat) ^ 32 = 4294967296" using assms(1) by simp_all
      ultimately show ?thesis unfolding frame_offset[OF assms that] by (simp only: if_False)
    next
      case 2
      with that have "4 * i \<le> 4 * j + k" "4 \<le> 4 * j + k - 4 * i" by linarith+
      then show ?thesis unfolding frame_offset[OF assms that] by (simp only: if_True)
    qed
  qed
  then have "load_word (set_frame_word sp (of_nat i) w m) (sp + 4 * of_nat j) = load_word m (sp + 4 * of_nat j)"
    by (rule load_word_cong)
  with False show ?thesis by simp
qed (simp add: set_frame_word_def load_store_word)

lemma frame_word_outside:
  assumes "i < n" "n \<le> 2 ^ 20" "4 * n \<le> unat (x - sp)"
  shows "set_frame_word sp (of_nat i) w m x = m x"
  unfolding set_frame_word_def
proof (rule store_word_outside)
  have e: "x - (sp + 4 * of_nat i) = of_nat (unat (x - sp)) - of_nat (4 * i)" by simp
  show "4 \<le> unat (x - (sp + 4 * of_nat i))"
    unfolding e using assms unat_less_32[of "x - sp"] by (subst unat_diff_of_nat) simp_all
qed

lemma zero_frame:
  assumes "n \<le> 2 ^ 20"
  shows "j < 2 ^ 20 \<Longrightarrow> load_word (fold (\<lambda>i. set_frame_word sp (of_nat i) 0) [0..<n] m) (sp + 4 * of_nat j)
      = (if j < n then 0 else load_word m (sp + 4 * of_nat j))"
    and "4 * n \<le> unat (x - sp) \<Longrightarrow> fold (\<lambda>i. set_frame_word sp (of_nat i) 0) [0..<n] m x = m x"
proof -
  show "j < 2 ^ 20 \<Longrightarrow> load_word (fold (\<lambda>i. set_frame_word sp (of_nat i) 0) [0..<n] m) (sp + 4 * of_nat j)
      = (if j < n then 0 else load_word m (sp + 4 * of_nat j))"
    using assms by (induction n) (auto simp: frame_word_read)
  show "4 * n \<le> unat (x - sp) \<Longrightarrow> fold (\<lambda>i. set_frame_word sp (of_nat i) 0) [0..<n] m x = m x"
    using assms
  proof (induction n)
    case (Suc n)
    then show ?case using frame_word_outside[of n "Suc n" x sp] by simp
  qed simp
qed

lemma initial_frame_words:
  assumes "j < 50"
  shows "load_word (initial_frame sp arg trap entry m) (sp + 4 * of_nat j) =
    (if j = 24 then arg else if j = 29 then trap else if j = 30 then entry OR 1 else if j = 31 then 0x01000000 else 0)"
proof -
  have "(24 :: u32) = of_nat 24" "(29 :: u32) = of_nat 29" "(30 :: u32) = of_nat 30" "(31 :: u32) = of_nat 31" by simp_all
  note idx = this
  show ?thesis
    using assms unfolding initial_frame_def idx by (simp add: frame_word_read zero_frame del: of_nat_numeral)
qed

lemma initial_frame_outside: "200 \<le> unat (x - sp) \<Longrightarrow> initial_frame sp arg trap entry m x = m x"
proof -
  assume x: "200 \<le> unat (x - sp)"
  have "(24 :: u32) = of_nat 24" "(29 :: u32) = of_nat 29" "(30 :: u32) = of_nat 30" "(31 :: u32) = of_nat 31" by simp_all
  note idx = this
  show ?thesis
    unfolding initial_frame_def idx using x
    by (simp add: frame_word_outside[where n = 50] zero_frame del: of_nat_numeral)
qed

text \<open>The frame lies in the stack it is built on.\<close>

lemma frame_in_stack:
  assumes "unat base + unat sz \<le> 2 ^ 32" "207 \<le> unat sz"
  defines "sp \<equiv> ((base + sz) AND NOT 7) - 200 :: u32"
  shows "unat base \<le> unat sp" "unat sp + 200 \<le> unat base + unat sz" "unat sp mod 8 = 0"
proof -
  let ?t = "unat base + unat sz" and ?w = "(base + sz) AND NOT 7"
  have "?w = push_bit 3 (drop_bit 3 (base + sz))"
  proof (rule bit_word_eqI)
    fix n assume "n < LENGTH(32)"
    have "bit (7 :: u32) n \<longleftrightarrow> n < 3" using \<open>n < LENGTH(32)\<close> bit_mask_iff[of 3 n, where ?'a = u32] by (simp add: mask_eq_exp_minus_1)
    then show "bit ?w n = bit (push_bit 3 (drop_bit 3 (base + sz))) n"
      using \<open>n < LENGTH(32)\<close> by (auto simp: bit_simps)
  qed
  then have "?w = drop_bit 3 (base + sz) * 8" by (simp add: push_bit_eq_mult)
  moreover have "unat (drop_bit 3 (base + sz)) = unat (base + sz) div 8"
    by (simp add: drop_bit_eq_div unat_div)
  ultimately have w: "unat ?w = unat (base + sz) div 8 * 8"
    using unat_less_32[of "base + sz"] by (simp add: unat_word_ariths(2) mod_less)
  have plus: "unat (base + sz) = (if ?t < 2 ^ 32 then ?t else 0)"
    using assms(1) by (simp add: unat_word_ariths(1))
  have r: "unat sp = (if unat ?w \<ge> 200 then unat ?w - 200 else 2 ^ 32 + unat ?w - 200)"
    using unat_diff_of_nat[of "unat ?w" 200] unat_less_32[of ?w] by (simp add: sp_def)
  define n where "n = unat (base + sz) div 8 * 8"
  have n: "n mod 8 = 0" "n \<le> unat (base + sz)" "unat (base + sz) < n + 8"
    using mod_div_mult_eq[of "unat (base + sz)" 8] mod_less_divisor[of 8 "unat (base + sz)"]
    by (simp add: n_def, unfold n_def, linarith+)
  have "unat base \<le> unat sp \<and> unat sp + 200 \<le> unat base + unat sz \<and> unat sp mod 8 = 0"
  proof (cases "?t < 2 ^ 32")
    case True
    then have p: "unat (base + sz) = ?t" using plus by simp
    then have "200 \<le> n" using n(3) assms(2) by linarith
    moreover from this have "unat sp = n - 200" using r w by (simp add: n_def)
    moreover have "(n - 200) mod 8 = 0" using n(1) calculation(1) by (simp add: mod_eq_0_iff_dvd dvd_diff_nat)
    ultimately show ?thesis using p n(2,3) assms(2) by simp
  next
    case False
    then have "?t = 2 ^ 32" "unat (base + sz) = 0" using plus assms(1) by simp_all
    moreover from this have "unat sp = 2 ^ 32 - 200" using r w by simp
    ultimately show ?thesis using assms(2) by simp
  qed
  then show "unat base \<le> unat sp" "unat sp + 200 \<le> unat base + unat sz" "unat sp mod 8 = 0" by simp_all
qed


lemma pcb_at_upd [simp]:
  "pcb_at q (upd_pcb_at r f a) = (if q = r then f (pcb_at r a) else pcb_at q a)"
  "pcb_at q (upd_mem g a) = pcb_at q a"
  "mem (kern (upd_pcb_at r f a)) = mem (kern a)"
  "mem (kern (upd_mem g a)) = g (mem (kern a))"
  by (cases q; cases r; simp add: pcb_at_def upd_pcb_at_def upd_mem_def)+

lemma frame_word_code:
  "n < 2 ^ 20 \<Longrightarrow> load_word m (sp + 4 * of_nat n) = load_word m (sp + of_nat (4 * n))"
  by simp

text \<open>
  A fresh context. Preparing the stack of a process fails only for a NULL pointer, a missing stack
  or entry point, or a stack of less than 207 bytes. Otherwise the saved context of 50 words lies
  inside the stack of the process and is aligned to 8 bytes, no byte outside it changes, and the process
  will start at its entry point, in Thumb state, with its argument in r0, the trap as return address
  and every other register zero. Only its own stack pointer and pending-result flag change.
\<close>

lemma init_stack_fresh_context:
  assumes "unat (pcb_stack_base (pcb_at r a)) + unat (pcb_stack_size (pcb_at r a)) \<le> 2 ^ 32"
  shows "case maxrtos_arch_init_stack (Some r) a of (status, a') \<Rightarrow>
    (let b = pcb_at r a; sp = pcb_stack_pointer (pcb_at r a'); m = mem (kern a') in
      if pcb_stack_base b = 0 \<or> unat (pcb_stack_size b) < 207 \<or> pcb_entry b = 0
      then status = MAXRTOS_ERR_INVALID_ARG \<and> a' = a
      else status = MAXRTOS_OK \<and> unat sp mod 8 = 0 \<and> unat (pcb_stack_base b) \<le> unat sp
        \<and> unat sp + 200 \<le> unat (pcb_stack_base b) + unat (pcb_stack_size b)
        \<and> (\<forall>x. 200 \<le> unat (x - sp) \<longrightarrow> m x = mem (kern a) x)
        \<and> (\<forall>j<50. load_word m (sp + 4 * of_nat j) =
             (if j = 24 then pcb_entry_arg b else if j = 29 then process_return_trap a
              else if j = 30 then pcb_entry b OR MAXRTOS_THUMB_BIT else if j = 31 then MAXRTOS_INITIAL_XPSR else 0))
        \<and> pcb_at r a' = b\<lparr>pcb_stack_pointer := sp, pcb_ipc_result_pending := False\<rparr>
        \<and> (\<forall>q. q \<noteq> r \<longrightarrow> pcb_at q a' = pcb_at q a))"
proof (cases "pcb_stack_base (pcb_at r a) = 0 \<or> unat (pcb_stack_size (pcb_at r a)) < 207 \<or> pcb_entry (pcb_at r a) = 0")
  case True
  then show ?thesis by (auto simp: maxrtos_arch_init_stack_def word_le_nat_alt Let_def)
next
  case False
  from False have "207 \<le> unat (pcb_stack_size (pcb_at r a))" by simp
  from frame_in_stack[OF assms this] False show ?thesis
    by (simp add: maxrtos_arch_init_stack_def word_le_nat_alt Let_def not_less initial_frame_outside initial_frame_words)
qed


subsection \<open>Restoring a process\<close>

text \<open>The privilege bit of CONTROL, and only it, follows the partition.\<close>

lemma apply_privilege_eq:
  "maxrtos_arch_apply_privilege_for_next_pcb (Some r) a = a\<lparr>control :=
     if maxrtos_arch_partition_is_privileged (pcb_partition_id (pcb_at r a)) a
     then control a AND NOT MAXRTOS_CONTROL_NPRIV else control a OR MAXRTOS_CONTROL_NPRIV\<rparr>"
  by (simp add: maxrtos_arch_apply_privilege_for_next_pcb_def Let_def)

lemma control_bits:
  fixes c :: u32
  shows "bit (c OR 1) 0" "\<not> bit (c AND - 2) 0" "n \<noteq> 0 \<Longrightarrow> bit (c OR 1) n = bit c n" "n \<noteq> 0 \<Longrightarrow> bit (c AND - 2) n = bit c n"
proof -
  have "(- 2 :: u32) = NOT 1" by simp
  note m = this
  show "bit (c OR 1) 0" "\<not> bit (c AND - 2) 0" "n \<noteq> 0 \<Longrightarrow> bit (c OR 1) n = bit c n" "n \<noteq> 0 \<Longrightarrow> bit (c AND - 2) n = bit c n"
    unfolding m by (auto simp: bit_or_iff bit_and_iff bit_not_iff bit_1_iff possible_bit_def simp del: not_one_eq dest: bit_imp_le_length)
qed

text \<open>
  Before a process is restored, the protection unit, the privilege level and its result are in
  place. If the preparation succeeds, the unit maps the region of the partition of the process
  (unless it is the idle context), the processor is unprivileged exactly when that partition is, and a
  completed blocking call has left its status in the r0 of the saved frame and is no longer pending;
  no other byte of memory changes. The preparation fails exactly when the partition has no region, and
  then nothing was done.
\<close>

lemma prepare_next_process:
  assumes ok: "mpu_hw_ok (mpu_unit a)" and act: "active_mapped (mpu_unit a)"
  shows "\<exists>status a'. maxrtos_arch_prepare_next_pcb (Some r) a = Some (status, a') \<and>
    (let b = pcb_at r a; frame = pcb_stack_pointer b; delivered = pcb_ipc_result_pending b \<and> frame \<noteq> 0 in
      (status = MAXRTOS_OK \<longleftrightarrow> pcb_partition_id b = MAXRTOS_INVALID_PARTITION_ID
        \<or> partition_region (mpu_unit a) (pcb_partition_id b) \<noteq> None) \<and>
      (if status = MAXRTOS_OK then
        (pcb_partition_id b = MAXRTOS_INVALID_PARTITION_ID \<or>
          (\<exists>region. partition_region (mpu_unit a) (pcb_partition_id b) = Some region \<and> unit_maps (mpu_unit a') region))
        \<and> (bit (control a') 0 \<longleftrightarrow> \<not> maxrtos_arch_partition_is_privileged (pcb_partition_id b) a)
        \<and> (\<forall>n. n \<noteq> 0 \<longrightarrow> bit (control a') n = bit (control a) n)
        \<and> (if delivered then load_word (mem (kern a')) (frame + 4 * MAXRTOS_FRAME_R0) = status_code (pcb_ipc_result b)
             \<and> pcb_at r a' = b\<lparr>pcb_ipc_result_pending := False\<rparr>
           else pcb_at r a' = b)
        \<and> (\<forall>x. \<not> delivered \<or> 4 \<le> unat (x - (frame + 4 * MAXRTOS_FRAME_R0)) \<longrightarrow> mem (kern a') x = mem (kern a) x)
      else a' = a))"
proof -
  obtain status hw where c: "maxrtos_arch_mpu_configure_for_next_pcb (Some (pcb_at r a)) (mpu_unit a) = Some (status, hw)"
    and hw: "if pcb_partition_id (pcb_at r a) = MAXRTOS_INVALID_PARTITION_ID then status = MAXRTOS_OK \<and> hw = mpu_unit a
       else case partition_region (mpu_unit a) (pcb_partition_id (pcb_at r a)) of
         None \<Rightarrow> status \<noteq> MAXRTOS_OK \<and> hw = mpu_unit a
       | Some region \<Rightarrow> status = MAXRTOS_OK \<and> unit_maps hw region"
    using mpu_maps_next_partition[OF ok act, of "pcb_at r a"] by blast
  show ?thesis
  proof (cases "status = MAXRTOS_OK")
    case False
    with c hw show ?thesis
      by (auto simp: maxrtos_arch_prepare_next_pcb_def split: if_splits option.splits)
  next
    case True
    define a1 where "a1 = maxrtos_arch_apply_privilege_for_next_pcb (Some r) (a\<lparr>mpu_unit := hw\<rparr>)"
    have a1: "pcb_at q a1 = pcb_at q a" "mem (kern a1) = mem (kern a)" "mpu_unit a1 = hw" for q
      by (cases q; simp add: a1_def apply_privilege_eq pcb_at_def)+
    have ctl: "control a1 = (if maxrtos_arch_partition_is_privileged (pcb_partition_id (pcb_at r a)) a
     then control a AND NOT MAXRTOS_CONTROL_NPRIV else control a OR MAXRTOS_CONTROL_NPRIV)"
      by (cases r; simp add: a1_def apply_privilege_eq pcb_at_def maxrtos_arch_partition_is_privileged_def)
    have f: "control (upd_pcb_at q f a2) = control a2" "mpu_unit (upd_pcb_at q f a2) = mpu_unit a2"
      "control (upd_mem g a2) = control a2" "mpu_unit (upd_mem g a2) = mpu_unit a2" for q f g a2
      by (cases q; simp add: upd_pcb_at_def upd_mem_def)+
    let ?b = "pcb_at r a"
    let ?a' = "maxrtos_arch_apply_resume_result (Some r) a1"
    have r': "maxrtos_arch_prepare_next_pcb (Some r) a = Some (MAXRTOS_OK, ?a')"
      using c True by (simp add: maxrtos_arch_prepare_next_pcb_def a1_def)
    have c': "control ?a' = control a1" "mpu_unit ?a' = hw"
      by (simp_all add: maxrtos_arch_apply_resume_result_def Let_def f a1)
    have mem': "mem (kern ?a') = (if pcb_ipc_result_pending ?b \<and> pcb_stack_pointer ?b \<noteq> 0
        then store_word (mem (kern a)) (pcb_stack_pointer ?b + 4 * MAXRTOS_FRAME_R0) (status_code (pcb_ipc_result ?b))
        else mem (kern a))"
      "pcb_at r ?a' = (if pcb_ipc_result_pending ?b \<and> pcb_stack_pointer ?b \<noteq> 0
        then ?b\<lparr>pcb_ipc_result_pending := False\<rparr> else ?b)"
      by (simp_all add: maxrtos_arch_apply_resume_result_def Let_def a1 set_frame_word_def)
    have m: "pcb_partition_id ?b = MAXRTOS_INVALID_PARTITION_ID \<or>
          (\<exists>region. partition_region (mpu_unit a) (pcb_partition_id ?b) = Some region \<and> unit_maps hw region)"
      using hw True by (auto split: if_splits option.splits)
    then have m2: "pcb_partition_id ?b = MAXRTOS_INVALID_PARTITION_ID
        \<or> (\<exists>y. partition_region (mpu_unit a) (pcb_partition_id ?b) = Some y)" by blast
    show ?thesis
      using m m2 True by (simp add: r' c' ctl mem' Let_def control_bits load_store_word store_word_outside)
  qed
qed

subsection \<open>Examples\<close>

text \<open>
  Process 9 runs in partition 0, with a stack of 1 KiB in its region. Its saved context is at
  0x20000A00, and a completed blocking call waits to be reported.
\<close>

definition example_arch :: arch where
  "example_arch = \<lparr>kern = upd_pcb 9 (\<lambda>b. b\<lparr>pcb_stack_base := 0x20000800, pcb_stack_size := 0x400,
        pcb_stack_pointer := 0x20000A00, pcb_entry := 0x08000100, pcb_entry_arg := 7,
        pcb_ipc_result := MAXRTOS_ERR_TIMEOUT, pcb_ipc_result_pending := True\<rparr>) example_state,
     g_maxrtos_current_pcb = Some (Process_Pcb 9), g_maxrtos_next_pcb = None,
     s_idle_pcb = example_pcb MAXRTOS_PROCESS_STATE_RUNNING 0, s_partition_privileged = (\<lambda>_. False),
     control = 2, pendsv = False, mpu_unit = example_mpu, s_hm = None, s_table = PTR,
     s_frame_schedule = Some example_schedule, s_partition_table = PTR, process_return_trap = 0x08000300,
     idle_entry = 0x08000200, s_idle_stack = 0x20010000\<rparr>"

lemma example_arch_pcb:
  "pcb_stack_base (pcb_at (Process_Pcb 9) example_arch) = 0x20000800"
  "pcb_stack_size (pcb_at (Process_Pcb 9) example_arch) = 0x400"
  "pcb_stack_pointer (pcb_at (Process_Pcb 9) example_arch) = 0x20000A00"
  "pcb_entry (pcb_at (Process_Pcb 9) example_arch) = 0x08000100"
  "pcb_partition_id (pcb_at (Process_Pcb 9) example_arch) = 0"
  "pcb_ipc_result (pcb_at (Process_Pcb 9) example_arch) = MAXRTOS_ERR_TIMEOUT"
  "pcb_ipc_result_pending (pcb_at (Process_Pcb 9) example_arch)"
  "mpu_unit example_arch = example_mpu"
  by (simp_all add: pcb_at_def example_arch_def example_state_def example_pool_def example_pcb_def)

lemma init_stack_fresh_context_witness:
  "case maxrtos_arch_init_stack (Some (Process_Pcb 9)) example_arch of (status, a') \<Rightarrow>
    status = MAXRTOS_OK \<and> load_word (mem (kern a')) (pcb_stack_pointer (pcb_at (Process_Pcb 9) a') + 4 * of_nat 30) = 0x08000101"
proof -
  have "(0x08000100 :: u32) OR 1 = 0x08000101" by code_simp
  with init_stack_fresh_context[of "Process_Pcb 9" example_arch] show ?thesis
    by (auto simp: Let_def example_arch_pcb split: prod.splits dest!: spec[where x = "30 :: nat"])
qed

lemma prepare_next_process_witness:
  "\<exists>a'. maxrtos_arch_prepare_next_pcb (Some (Process_Pcb 9)) example_arch = Some (MAXRTOS_OK, a')
    \<and> load_word (mem (kern a')) 0x20000A60 = 12 \<and> bit (control a') 0"
proof -
  have "\<not> maxrtos_arch_partition_is_privileged 0 example_arch"
    by (simp add: maxrtos_arch_partition_is_privileged_def example_arch_def)
  moreover have "mpu_hw_ok (mpu_unit example_arch)" "active_mapped (mpu_unit example_arch)"
    using example_mpu_ok by (simp_all add: example_arch_def)
  ultimately show ?thesis
    using prepare_next_process[of example_arch "Process_Pcb 9"]
    by (auto simp: Let_def example_arch_pcb example_regions split: if_splits)
qed

end
