(* ===== verification/Fault_Recovery.thy ===== *)
theory Fault_Recovery
  imports Tick Health_Monitor
begin

text \<open>
  The recovery actions of the health monitor (fault_recovery.c): ignoring the fault, restarting the
  process, whatever it was doing, or halting its partition.
\<close>

text \<open>
  The BLOCKED branch of the restart up to the state change. The process leaves its wait list, the
  owners it was waiting for fall back, and its wait is forgotten.
\<close>

definition restart_unblock :: "ptr \<Rightarrow> u32 \<Rightarrow> kstate \<Rightarrow> kstate" where
  "restart_unblock tablep i s =
     (let s1 = (case pcb_waitlist (process_pool s i) of
                  None \<Rightarrow> s
                | Some w \<Rightarrow> upd_waitlist w (snd (maxrtos_waitlist_remove PTR i (waitlists s w))) s);
          s2 = maxrtos_kernel_mutex_refresh_priorities tablep s1
      in upd_pcb i (\<lambda>b. b\<lparr>pcb_waitlist := None, pcb_wake_tick := MAXRTOS_TICK_NONE,
           pcb_ipc_operation := MAXRTOS_IPC_OP_NONE, pcb_ipc_result_pending := False\<rparr>) s2)"

text \<open>\<open>READY\<close> and back into the ready queue: both branches do it.\<close>

definition restart_ready :: "ptr \<Rightarrow> u32 \<Rightarrow> kstate \<Rightarrow> maxrtos_status \<times> kstate" where
  "restart_ready tablep i s =
     (case maxrtos_process_set_state i MAXRTOS_PROCESS_STATE_READY (process_pool s) of
        (status, pool) \<Rightarrow>
          let s1 = s\<lparr>process_pool := pool\<rparr>
          in if status = MAXRTOS_OK then maxrtos_partition_add_process tablep i s1 else (status, s1))"

definition maxrtos_fault_recovery_restart :: "ptr \<Rightarrow> u32 \<Rightarrow> kstate \<Rightarrow> maxrtos_status \<times> kstate" where
  "maxrtos_fault_recovery_restart tablep i s =
     (let s1 = maxrtos_kernel_mutex_release_all tablep i s in
      case get_pcb i s of
        None \<Rightarrow> (MAXRTOS_ERR_INVALID_ID, s1)
      | Some _ \<Rightarrow>
          let pcb = process_pool s1 i;
              (status, s2) =
                (if pcb_state pcb = MAXRTOS_PROCESS_STATE_RUNNING then
                   (case restart_ready tablep i s1 of
                      (status, s2) \<Rightarrow>
                        (status, if status = MAXRTOS_OK
                           then s2\<lparr>current_id := (current_id s2)(pcb_partition_id pcb := MAXRTOS_INVALID_PROCESS_ID)\<rparr>
                           else s2))
                 else if pcb_state pcb = MAXRTOS_PROCESS_STATE_BLOCKED then restart_ready tablep i (restart_unblock tablep i s1)
                 else (MAXRTOS_OK, s1))
          in (status, if status = MAXRTOS_OK
               then maxrtos_process_rearm_timing (Some i) (maxrtos_kernel_tick_now s2) s2 else s2))"

definition maxrtos_fault_recovery_handle ::
    "ptr \<Rightarrow> maxrtos_health_monitor_t \<Rightarrow> ptr \<Rightarrow> u32 \<Rightarrow> maxrtos_fault_type \<Rightarrow> ptr \<Rightarrow> kstate \<Rightarrow>
     maxrtos_status \<times> maxrtos_hm_action option \<times> kstate"
where
  "maxrtos_fault_recovery_handle hmp hm tablep i fault_type outp s =
     (if hmp \<noteq> NULL \<and> tablep \<noteq> NULL \<and> outp \<noteq> NULL then
        (case get_pcb i s of
           None \<Rightarrow> (MAXRTOS_ERR_INVALID_ID, None, s)
         | Some pcb \<Rightarrow>
             (case maxrtos_hm_get_policy hmp (pcb_partition_id pcb) fault_type outp hm of
                (status, action) \<Rightarrow>
                  if status = MAXRTOS_OK then
                    (case action of
                       Some MAXRTOS_HM_ACTION_IGNORE \<Rightarrow> (MAXRTOS_OK, action, s)
                     | Some MAXRTOS_HM_ACTION_RESTART_PROCESS \<Rightarrow>
                         (case maxrtos_fault_recovery_restart tablep i s of (status', s1) \<Rightarrow> (status', action, s1))
                     | Some MAXRTOS_HM_ACTION_HALT_PARTITION \<Rightarrow>
                         (MAXRTOS_OK, action, s\<lparr>halted := (halted s)(pcb_partition_id pcb := True)\<rparr>)
                     | _ \<Rightarrow> (MAXRTOS_ERR_INVALID_STATE, action, s))
                  else (status, action, s)))
      else (MAXRTOS_ERR_INVALID_ARG, None, s))"

subsection \<open>Getting a blocked process off its wait\<close>

lemma restart_unblock_outcome:
  assumes inv: "kernel_inv s" "timer_ok s" and i: "allocated (process_pool s) i"
    "pcb_state (process_pool s i) = MAXRTOS_PROCESS_STATE_BLOCKED"
  defines "s' \<equiv> restart_unblock PTR i s"
  shows "kernel_inv s' \<and> timer_ok s' \<and> only_ipc s s' \<and> current_id s' = current_id s
    \<and> (\<forall>j. queued_in s' j = queued_in s j)
    \<and> (\<forall>v. wl_list (waitlists s' v) = removeAll i (wl_list (waitlists s v)))
    \<and> (\<exists>q. process_pool s' i = (process_pool s i)\<lparr>pcb_priority := q, pcb_waitlist := None,
         pcb_wake_tick := MAXRTOS_TICK_NONE, pcb_ipc_operation := MAXRTOS_IPC_OP_NONE, pcb_ipc_result_pending := False\<rparr>)
    \<and> (\<forall>j. j \<noteq> i \<longrightarrow> (\<exists>q. process_pool s' j = (process_pool s j)\<lparr>pcb_priority := q\<rparr>))"
proof -
  note sk = kernel_invD(1)[OF inv(1)] and wk = kernel_invD(2)[OF inv(1)] and dk = kernel_invD(3)[OF inv(1)]
  define s1 where "s1 = (case pcb_waitlist (process_pool s i) of None \<Rightarrow> s
    | Some w \<Rightarrow> upd_waitlist w (snd (maxrtos_waitlist_remove PTR i (waitlists s w))) s)"
  define s2 where "s2 = maxrtos_kernel_mutex_refresh_priorities PTR s1"
  let ?f = "\<lambda>b :: pcb. b\<lparr>pcb_waitlist := None, pcb_wake_tick := MAXRTOS_TICK_NONE,
           pcb_ipc_operation := MAXRTOS_IPC_OP_NONE, pcb_ipc_result_pending := False\<rparr>"
  have s': "s' = upd_pcb i ?f s2" by (simp add: s'_def restart_unblock_def s1_def s2_def)
  have f1: "process_pool s1 = process_pool s" "scheduler_ctx s1 = scheduler_ctx s" "current_id s1 = current_id s"
    "s_next_due s1 = s_next_due s" "only_ipc s s1" by (simp_all add: s1_def split: option.split)
  let ?pool = "(process_pool s)(i := ?f (process_pool s i))"
  have lists: "wl_list (waitlists s1 v) = removeAll i (wl_list (waitlists s v)) \<and> wait_ok ?pool (waitlists s1)" for v
  proof (cases "pcb_waitlist (process_pool s i)")
    case None
    have nin: "i \<notin> set (wl_list (waitlists s u))" for u using wait_okD(5)[OF wk, of i u] None by auto
    have "wait_ok ?pool (waitlists s)"
      by (rule wait_ok_step[OF wk]) (use None in \<open>auto simp: allocated_def\<close>)
    with None nin show ?thesis by (simp add: s1_def removeAll_id)
  next
    case (Some w)
    note m = wait_okD(6)[OF wk i(1) Some]
    note rem = waitlist_remove_cases[OF wait_okD(1)[OF wk, of w], of i]
    let ?l = "snd (maxrtos_waitlist_remove PTR i (waitlists s w))"
    have l: "wl_wf ?l" "wl_list ?l = remove1 i (wl_list (waitlists s w))" using rem m by simp_all
    have "wait_ok ?pool ((waitlists s)(w := ?l))"
      by (rule wait_ok_leave[OF wk m _ _ _ l]) simp_all
    moreover have "i \<notin> set (wl_list (waitlists s u))" if "u \<noteq> w" for u
      using wait_okD(5)[OF wk, of i u] Some that by auto
    ultimately show ?thesis
      using Some l(2) distinct_remove1_removeAll[OF wait_okD(2)[OF wk, of w]] by (simp add: s1_def removeAll_id)
  qed
  have k1: "sched_inv s1" using sk by (simp add: sched_inv_def f1)
  have r: "sched_inv s2 \<and> same_but_priority s1 s2"
    unfolding s2_def using inheritance.mutex_refresh_priorities_inv[of s1 s1 PTR] k1 by simp
  have pj: "\<exists>q. process_pool s2 j = (process_pool s j)\<lparr>pcb_priority := q\<rparr>" for j
    using r f1(1) by (auto simp: same_but_priority_def)
  have f2: "waitlists s2 = waitlists s1" "current_id s2 = current_id s1" "s_next_due s2 = s_next_due s1" "only_ipc s1 s2"
    using r by (simp_all add: same_but_priority_def only_scheduling_iff only_ipc_def)
  have sched: "sched_inv s'" unfolding s' by (rule sched_inv_upd_pcb) (use r in simp_all)
  have p': "pcb_state (process_pool s' j) = pcb_state (process_pool s j)"
    "pcb_partition_id (process_pool s' j) = pcb_partition_id (process_pool s j)"
    "pcb_waitlist (process_pool s' j) = pcb_waitlist (?pool j)"
    "same_flags (process_pool s j) (process_pool s' j)"
    "pcb_wake_tick (process_pool s' j) \<in> {MAXRTOS_TICK_NONE, pcb_wake_tick (process_pool s j)}"
    "pcb_deadline_time (process_pool s' j) = pcb_deadline_time (process_pool s j)" for j
  proof -
    obtain q where "process_pool s2 j = (process_pool s j)\<lparr>pcb_priority := q\<rparr>" using pj by blast
    then show "pcb_state (process_pool s' j) = pcb_state (process_pool s j)"
      "pcb_partition_id (process_pool s' j) = pcb_partition_id (process_pool s j)"
      "pcb_waitlist (process_pool s' j) = pcb_waitlist (?pool j)"
      "same_flags (process_pool s j) (process_pool s' j)"
      "pcb_wake_tick (process_pool s' j) \<in> {MAXRTOS_TICK_NONE, pcb_wake_tick (process_pool s j)}"
      "pcb_deadline_time (process_pool s' j) = pcb_deadline_time (process_pool s j)"
      by (cases "j = i"; simp add: s')+
  qed
  have al: "allocated (process_pool s') j = allocated (process_pool s) j" for j by (simp add: allocated_def p'(1))
  have "wait_ok (process_pool s') (waitlists s1)"
    by (rule wait_ok_step[OF conjunct2[OF lists]]) (use al p'(1,3) in \<open>auto simp: allocated_def\<close>)
  moreover have "due_ok s'"
  proof (rule due_ok_cong[OF dk], goal_cases)
    case 1
    show ?case by (simp add: s' f1 f2)
  next
    case (2 j)
    then show ?case using al[of j] p'(5,6)[of j] by simp
  qed
  ultimately have k': "kernel_inv s'" using sched by (simp add: kernel_inv_def s' f2)
  have q: "queued_in s' j = queued_in s j" for j
  proof -
    have "queued_in s' j = queued_in s2 j" by (rule queued_in_cong) (simp_all add: s')
    also have "\<dots> = queued_in s1 j" using r by (simp add: same_but_priority_def)
    also have "\<dots> = queued_in s j" by (rule queued_in_cong) (simp_all add: f1)
    finally show ?thesis .
  qed
  have t': "timer_ok s'"
  proof (rule timer_ok_step[OF inv(2)], goal_cases)
    case (1 j)
    have "waits_for_time (process_pool s j)" using 1(2) p'(4)[of j] by (simp add: waits_for_time_def)
    with timer_okD(1)[OF inv(2)] 1(1) al have "pcb_waitlist (process_pool s j) = None" by simp
    with 1 al p'(1,3,4)[of j] q show ?case by simp
  qed
  have "only_ipc s s'" using only_ipc_trans[OF f1(5) f2(4)] by (simp add: s')
  moreover have "\<exists>q. process_pool s' i = (process_pool s i)\<lparr>pcb_priority := q, pcb_waitlist := None,
         pcb_wake_tick := MAXRTOS_TICK_NONE, pcb_ipc_operation := MAXRTOS_IPC_OP_NONE, pcb_ipc_result_pending := False\<rparr>"
    using pj[of i] by (auto simp: s')
  moreover have "\<exists>q. process_pool s' j = (process_pool s j)\<lparr>pcb_priority := q\<rparr>" if "j \<noteq> i" for j
    using pj[of j] that by (simp add: s')
  moreover have "current_id s' = current_id s" "waitlists s' = waitlists s1" by (simp_all add: s' f1 f2)
  ultimately show ?thesis using k' t' q lists by simp
qed

subsection \<open>Back into the ready queue\<close>

text \<open>
  A process that is neither READY nor on a wait list begins a new release: it is READY at the tail
  of its queue, no longer current, waits for nothing and has the deadline of a release now.
\<close>

definition begins_afresh :: "u32 \<Rightarrow> kstate \<Rightarrow> kstate \<Rightarrow> bool" where
  "begins_afresh i s s' \<longleftrightarrow>
     (let b = process_pool s i; part = pcb_partition_id b; p = unat (pcb_priority b); now = s_current_tick s in
      process_pool s' = (process_pool s)(i := b\<lparr>pcb_state := MAXRTOS_PROCESS_STATE_READY, pcb_periodic_waiting := False,
        pcb_timed_waiting := False, pcb_release_time := now, pcb_deadline_time := release_deadline now (pcb_time_capacity b)\<rparr>)
      \<and> ready (scheduler_ctx s' part) = (ready (scheduler_ctx s part))(p := ready (scheduler_ctx s part) p @ [i])
      \<and> (\<forall>q. q \<noteq> part \<longrightarrow> scheduler_ctx s' q = scheduler_ctx s q)
      \<and> current_id s' = (current_id s)(part := if current_id s part = i then MAXRTOS_INVALID_PROCESS_ID else current_id s part)
      \<and> waitlists s' = waitlists s \<and> only_ipc s s')"

lemma restart_ready_outcome:
  assumes inv: "sched_inv s" and i: "allocated (process_pool s) i"
    "pcb_state (process_pool s i) \<noteq> MAXRTOS_PROCESS_STATE_READY"
  defines "part \<equiv> pcb_partition_id (process_pool s i)"
  shows "has_room s i \<Longrightarrow> \<exists>ctx'. restart_ready PTR i s
      = (MAXRTOS_OK, upd_ctx part ctx' (upd_pcb i (\<lambda>b. b\<lparr>pcb_state := MAXRTOS_PROCESS_STATE_READY\<rparr>) s)) \<and> ctx_wf ctx'
        \<and> ready ctx' = (ready (scheduler_ctx s part))(unat (pcb_priority (process_pool s i)) :=
            ready (scheduler_ctx s part) (unat (pcb_priority (process_pool s i))) @ [i])"
    and "\<not> has_room s i \<Longrightarrow> restart_ready PTR i s
      = (MAXRTOS_ERR_QUEUE_FULL, upd_pcb i (\<lambda>b. b\<lparr>pcb_state := MAXRTOS_PROCESS_STATE_READY\<rparr>) s)"
proof -
  have part: "part < of_nat MAXRTOS_MAX_PARTITIONS"
    using sched_okD(1)[OF inv[unfolded sched_inv_def] i(1)] by (simp add: pcb_ok_def part_def)
  have "restart_ready PTR i s = maxrtos_partition_ready_process PTR part i s"
    using part[unfolded not_le[symmetric]] part i(1) by (simp add: restart_ready_def maxrtos_partition_ready_process_def maxrtos_partition_add_process_def
        process_set_state_eq process_get_eq part_def set_pcb_state_def allocated_def Let_def)
  with partition_ready_eq[OF inv i] show "has_room s i \<Longrightarrow> \<exists>ctx'. restart_ready PTR i s
      = (MAXRTOS_OK, upd_ctx part ctx' (upd_pcb i (\<lambda>b. b\<lparr>pcb_state := MAXRTOS_PROCESS_STATE_READY\<rparr>) s)) \<and> ctx_wf ctx'
        \<and> ready ctx' = (ready (scheduler_ctx s part))(unat (pcb_priority (process_pool s i)) :=
            ready (scheduler_ctx s part) (unat (pcb_priority (process_pool s i))) @ [i])"
    and "\<not> has_room s i \<Longrightarrow> restart_ready PTR i s
      = (MAXRTOS_ERR_QUEUE_FULL, upd_pcb i (\<lambda>b. b\<lparr>pcb_state := MAXRTOS_PROCESS_STATE_READY\<rparr>) s)"
    unfolding has_room_def part_def by (simp_all add: not_less)
qed

lemma readmission:
  assumes k: "kernel_inv s" and t: "timer_ok s" and i: "allocated (process_pool s) i"
    "pcb_state (process_pool s i) \<noteq> MAXRTOS_PROCESS_STATE_READY" "pcb_waitlist (process_pool s i) = None"
    and room: "has_room s i"
  defines "part \<equiv> pcb_partition_id (process_pool s i)"
  shows "\<exists>s2. restart_ready PTR i s = (MAXRTOS_OK, s2) \<and> current_id s2 = current_id s \<and> s_current_tick s2 = s_current_tick s
    \<and> (let s' = maxrtos_process_rearm_timing (Some i) (s_current_tick s) (s2\<lparr>current_id := (current_id s)(part :=
          if current_id s part = i then MAXRTOS_INVALID_PROCESS_ID else current_id s part)\<rparr>)
       in kernel_inv s' \<and> timer_ok s' \<and> begins_afresh i s s')"
proof -
  note sk = kernel_invD(1)[OF k]
  let ?cur = "(current_id s)(part := if current_id s part = i then MAXRTOS_INVALID_PROCESS_ID else current_id s part)"
  let ?now = "s_current_tick s"
  from restart_ready_outcome(1)[OF sk i(1,2) room] obtain ctx' where c:
    "restart_ready PTR i s
      = (MAXRTOS_OK, upd_ctx part ctx' (upd_pcb i (\<lambda>b. b\<lparr>pcb_state := MAXRTOS_PROCESS_STATE_READY\<rparr>) s))" "ctx_wf ctx'"
    "ready ctx' = (ready (scheduler_ctx s part))(unat (pcb_priority (process_pool s i)) :=
       ready (scheduler_ctx s part) (unat (pcb_priority (process_pool s i))) @ [i])"
    unfolding part_def by blast
  define s2 where "s2 = upd_ctx part ctx' (upd_pcb i (\<lambda>b. b\<lparr>pcb_state := MAXRTOS_PROCESS_STATE_READY\<rparr>) s)"
  define s3 where "s3 = s2\<lparr>current_id := ?cur\<rparr>"
  define s4 where "s4 = upd_pcb i (\<lambda>b. b\<lparr>pcb_periodic_waiting := False, pcb_timed_waiting := False,
    pcb_release_time := ?now\<rparr>) s3"
  have "sched_inv s3"
    using sched_ok_ready[OF sk[unfolded sched_inv_def] i(1,2) c(2,3)[unfolded part_def]]
    by (cases "current_id s part = i") (simp_all add: s3_def s2_def sched_inv_def part_def set_pcb_state_def)
  then have k3: "kernel_inv s3"
    by (rule kernel_inv_step[OF k]) (use i in \<open>auto simp: s3_def s2_def only_scheduling_iff allocated_def\<close>)
  have k4: "kernel_inv s4" unfolding s4_def by (rule upd_timing_inv_none[OF k3]) simp_all
  have prio: "unat (pcb_priority (process_pool s i)) \<le> 31"
    using sched_okD(1)[OF sk[unfolded sched_inv_def] i(1)] by (simp add: pcb_ok_def word_le_nat_alt)
  have t4: "timer_ok s4"
  proof (rule timer_ok_step[OF t], goal_cases)
    case (1 j)
    have j: "j \<noteq> i" using 1(2) by (auto simp: s4_def waits_for_time_def)
    have "j \<in> set (ready (scheduler_ctx s4 q) r) \<longleftrightarrow> j \<in> set (ready (scheduler_ctx s q) r)" for q r
      using c(3) j by (auto simp: s4_def s3_def s2_def)
    then have q: "queued_in s4 j \<longleftrightarrow> queued_in s j"
      using j by (simp add: queued_in_def in_ready_ids) (simp add: s4_def s3_def s2_def)
    with 1 j show ?case by (auto simp: s4_def s3_def s2_def allocated_def)
  qed
  have re: "maxrtos_process_rearm_timing (Some i) ?now s3 = arm_deadline i s4"
    by (simp add: maxrtos_process_rearm_timing_def s4_def)
  have "begins_afresh i s (arm_deadline i s4)"
    using c(3) by (auto simp: begins_afresh_def Let_def fun_eq_iff arm_deadline_pool s4_def s3_def s2_def part_def
      release_deadline_def only_ipc_def)
  moreover have "kernel_inv (arm_deadline i s4)" "timer_ok (arm_deadline i s4)"
    using k4 t4 by (simp_all add: arm_deadline_inv arm_deadline_timer)
  ultimately have "let s' = maxrtos_process_rearm_timing (Some i) ?now (s2\<lparr>current_id := ?cur\<rparr>)
      in kernel_inv s' \<and> timer_ok s' \<and> begins_afresh i s s'"
    unfolding s3_def[symmetric] re Let_def by blast
  moreover have "current_id s2 = current_id s" "s_current_tick s2 = s_current_tick s" by (simp_all add: s2_def)
  ultimately show ?thesis using c(1)[folded s2_def] by blast
qed
subsection \<open>The restart of a process\<close>

lemma release_all_outcome:
  fixes tablep i
  assumes "kernel_inv s" "timer_ok s"
  defines "s1 \<equiv> maxrtos_kernel_mutex_release_all tablep i s"
  shows "kernel_inv s1" "timer_ok s1" "s_current_tick s1 = s_current_tick s"
    "allocated (process_pool s1) j = allocated (process_pool s) j"
    "pcb_config (process_pool s1 j) = pcb_config (process_pool s j)"
  using timer.mutex_release_all_inv[of s tablep i] clock.mutex_release_all_inv[of s s tablep i]
    config.mutex_release_all_inv[of s s tablep i] assms(1,2)
  by (simp_all add: s1_def same_clock_def same_config_def)

lemma restart_outcome:
  assumes k: "kernel_inv s" and t: "timer_ok s" and i: "allocated (process_pool s) i"
  defines "s1 \<equiv> maxrtos_kernel_mutex_release_all PTR i s"
  shows "case maxrtos_fault_recovery_restart PTR i s of (status, s') \<Rightarrow>
    (case pcb_state (process_pool s1 i) of
       MAXRTOS_PROCESS_STATE_RUNNING \<Rightarrow>
         if has_room s1 i then status = MAXRTOS_OK \<and> kernel_inv s' \<and> timer_ok s' \<and> begins_afresh i s1 s'
         else status = MAXRTOS_ERR_QUEUE_FULL \<and> lost i s1 s'
     | MAXRTOS_PROCESS_STATE_BLOCKED \<Rightarrow>
         let s2 = restart_unblock PTR i s1
         in if has_room s2 i then status = MAXRTOS_OK \<and> kernel_inv s' \<and> timer_ok s' \<and> begins_afresh i s2 s'
            else status = MAXRTOS_ERR_QUEUE_FULL \<and> kernel_inv s' \<and> timer_ok s' \<and> lost i s2 s'
     | _ \<Rightarrow> status = MAXRTOS_OK \<and> kernel_inv s' \<and> timer_ok s'
         \<and> s' = maxrtos_process_rearm_timing (Some i) (s_current_tick s) s1)"
proof -
  note r = release_all_outcome[OF k t, of PTR i, folded s1_def]
  have a1: "allocated (process_pool s1) i" using i r(4) by simp
  have code: "maxrtos_fault_recovery_restart PTR i s =
    (let (status, s2) =
                (if pcb_state (process_pool s1 i) = MAXRTOS_PROCESS_STATE_RUNNING then
                   (case restart_ready PTR i s1 of
                      (status, s2) \<Rightarrow>
                        (status, if status = MAXRTOS_OK
                           then s2\<lparr>current_id := (current_id s2)(pcb_partition_id (process_pool s1 i) := MAXRTOS_INVALID_PROCESS_ID)\<rparr>
                           else s2))
                 else if pcb_state (process_pool s1 i) = MAXRTOS_PROCESS_STATE_BLOCKED
                   then restart_ready PTR i (restart_unblock PTR i s1)
                 else (MAXRTOS_OK, s1))
          in (status, if status = MAXRTOS_OK
               then maxrtos_process_rearm_timing (Some i) (maxrtos_kernel_tick_now s2) s2 else s2))"
    using i by (simp add: maxrtos_fault_recovery_restart_def s1_def[symmetric] process_get_eq Let_def)
  consider (run) "pcb_state (process_pool s1 i) = MAXRTOS_PROCESS_STATE_RUNNING"
    | (blocked) "pcb_state (process_pool s1 i) = MAXRTOS_PROCESS_STATE_BLOCKED"
    | (other) "pcb_state (process_pool s1 i) \<notin> {MAXRTOS_PROCESS_STATE_RUNNING, MAXRTOS_PROCESS_STATE_BLOCKED}" by auto
  then show ?thesis
  proof cases
    case run
    let ?part = "pcb_partition_id (process_pool s1 i)"
    have st: "pcb_state (process_pool s1 i) \<noteq> MAXRTOS_PROCESS_STATE_READY"
      "pcb_state (process_pool s1 i) \<noteq> MAXRTOS_PROCESS_STATE_BLOCKED" using run by simp_all
    have cur: "current_id s1 ?part = i"
      using sched_okD(2)[OF kernel_invD(1)[OF r(1), unfolded sched_inv_def] a1 run] .
    show ?thesis
    proof (cases "has_room s1 i")
      case True
      from readmission[OF r(1,2) a1 st(1) wait_ok_not_blocked[OF kernel_invD(2)[OF r(1)] a1 st(2)] True] obtain s2 where s2:
        "restart_ready PTR i s1 = (MAXRTOS_OK, s2)" "current_id s2 = current_id s1" "s_current_tick s2 = s_current_tick s1"
        "let s' = maxrtos_process_rearm_timing (Some i) (s_current_tick s1)
            (s2\<lparr>current_id := (current_id s1)(?part := MAXRTOS_INVALID_PROCESS_ID)\<rparr>)
         in kernel_inv s' \<and> timer_ok s' \<and> begins_afresh i s1 s'" using cur by auto
      have "maxrtos_fault_recovery_restart PTR i s = (MAXRTOS_OK, maxrtos_process_rearm_timing (Some i) (s_current_tick s1)
            (s2\<lparr>current_id := (current_id s1)(?part := MAXRTOS_INVALID_PROCESS_ID)\<rparr>))"
        using run s2(1-3) by (simp add: code maxrtos_kernel_tick_now_def)
      with s2(4) run True show ?thesis by (simp add: Let_def)
    next
      case False
      with restart_ready_outcome(2)[OF kernel_invD(1)[OF r(1)] a1 st(1)] run show ?thesis
        by (simp add: code lost_def)
    qed
  next
    case blocked
    define s2 where "s2 = restart_unblock PTR i s1"
    note u = restart_unblock_outcome[OF r(1,2) a1 blocked, folded s2_def]
    have s2: "pcb_state (process_pool s2 i) = MAXRTOS_PROCESS_STATE_BLOCKED" "pcb_waitlist (process_pool s2 i) = None"
      "allocated (process_pool s2) i" "kernel_inv s2" "timer_ok s2"
      using u blocked a1 by (auto simp: allocated_def)
    note code' = code[folded s2_def]
    have st: "pcb_state (process_pool s2 i) \<noteq> MAXRTOS_PROCESS_STATE_READY" using s2(1) by simp
    have cur: "current_id s2 (pcb_partition_id (process_pool s2 i)) \<noteq> i"
    proof
      let ?p = "pcb_partition_id (process_pool s2 i)"
      assume c: "current_id s2 ?p = i"
      note ok = kernel_invD(1)[OF s2(4), unfolded sched_inv_def]
      have "?p < of_nat MAXRTOS_MAX_PARTITIONS" using sched_okD(1)[OF ok s2(3)] by (simp add: pcb_ok_def)
      with part_okD(2)[OF sched_okD(3)[OF ok this]] c s2(1,3) show False by (auto simp: running_in_def)
    qed
    show ?thesis
    proof (cases "has_room s2 i")
      case True
      from readmission[OF s2(4,5,3) st s2(2) True] cur obtain s3 where s3:
        "restart_ready PTR i s2 = (MAXRTOS_OK, s3)" "current_id s3 = current_id s2" "s_current_tick s3 = s_current_tick s2"
        "let s' = maxrtos_process_rearm_timing (Some i) (s_current_tick s2) (s3\<lparr>current_id := current_id s2\<rparr>)
         in kernel_inv s' \<and> timer_ok s' \<and> begins_afresh i s2 s'" by auto
      have "s3\<lparr>current_id := current_id s2\<rparr> = s3" by (simp add: s3(2)[symmetric])
      with s3 have "kernel_inv (maxrtos_process_rearm_timing (Some i) (s_current_tick s3) s3)
        \<and> timer_ok (maxrtos_process_rearm_timing (Some i) (s_current_tick s3) s3)
        \<and> begins_afresh i s2 (maxrtos_process_rearm_timing (Some i) (s_current_tick s3) s3)"
        unfolding Let_def by simp
      with blocked s3(1) True show ?thesis
        by (simp add: code' s2_def[symmetric] maxrtos_kernel_tick_now_def)
    next
      case False
      let ?s' = "upd_pcb i (\<lambda>b. b\<lparr>pcb_state := MAXRTOS_PROCESS_STATE_READY\<rparr>) s2"
      have "sched_inv ?s'"
        using sched_ok_ready_unqueued[OF kernel_invD(1)[OF s2(4), unfolded sched_inv_def] s2(3,1)]
        by (simp add: sched_inv_def set_pcb_state_def)
      then have "kernel_inv ?s'"
        by (rule kernel_inv_step[OF s2(4)]) (use s2 in \<open>auto simp: only_scheduling_iff allocated_def\<close>)
      moreover have "timer_ok ?s'"
        by (rule timer_ok_step[OF s2(5)]) (use s2(1) in \<open>auto simp: allocated_def queued_in_def split: if_splits\<close>)
      ultimately show ?thesis
        using restart_ready_outcome(2)[OF kernel_invD(1)[OF s2(4)] s2(3) st False] False blocked
        by (simp add: code' lost_def s2_def[symmetric])
    qed
  next
    case other
    have "maxrtos_fault_recovery_restart PTR i s = (MAXRTOS_OK, maxrtos_process_rearm_timing (Some i) (s_current_tick s1) s1)"
      using other by (simp add: code maxrtos_kernel_tick_now_def)
    then show ?thesis
      using other r(3) rearm_timing_inv[OF r(1,2)] by (simp split: maxrtos_process_state.split)
  qed
qed

lemma begins_afreshD:
  assumes "begins_afresh i s s'" "sched_inv s" "allocated (process_pool s) i"
  shows "pcb_state (process_pool s' i) = MAXRTOS_PROCESS_STATE_READY" "queued_in s' i"
    "current_id s' (pcb_partition_id (process_pool s' i)) \<noteq> i" "\<not> waits_for_time (process_pool s' i)"
    "pcb_release_time (process_pool s' i) = s_current_tick s"
    "pcb_deadline_time (process_pool s' i) = release_deadline (s_current_tick s) (pcb_time_capacity (process_pool s i))"
    "pcb_waitlist (process_pool s' i) = pcb_waitlist (process_pool s i)"
proof -
  have "unat (pcb_priority (process_pool s i)) \<le> 31"
    using sched_okD(1)[OF assms(2)[unfolded sched_inv_def] assms(3)] by (simp add: pcb_ok_def word_le_nat_alt)
  moreover have "i \<noteq> MAXRTOS_INVALID_PROCESS_ID" using assms(3) by auto
  ultimately show "pcb_state (process_pool s' i) = MAXRTOS_PROCESS_STATE_READY" "queued_in s' i"
    "current_id s' (pcb_partition_id (process_pool s' i)) \<noteq> i" "\<not> waits_for_time (process_pool s' i)"
    "pcb_release_time (process_pool s' i) = s_current_tick s"
    "pcb_deadline_time (process_pool s' i) = release_deadline (s_current_tick s) (pcb_time_capacity (process_pool s i))"
    "pcb_waitlist (process_pool s' i) = pcb_waitlist (process_pool s i)"
    using assms(1) by (auto simp: begins_afresh_def Let_def queued_in_def in_ready_ids waits_for_time_def)
qed

text \<open>
  C22. Restarting a process. A restart that succeeds keeps the kernel consistent. If the process was
  running or blocked once its mutexes were given up, it is then READY and queued, no longer the
  current process of its partition, on no wait list and waiting for no time, and its release and
  deadline count from the current tick. If it was neither, its state is left as it was. A restart
  fails only because the ready queue has no room, and then the process is READY in no queue; one
  that was running is still the current process of its partition.
\<close>

theorem restart_begins_afresh:
  assumes k: "kernel_inv s" and t: "timer_ok s" and i: "allocated (process_pool s) i"
  shows "case maxrtos_fault_recovery_restart PTR i s of (status, s') \<Rightarrow>
    (let was = pcb_state (process_pool (maxrtos_kernel_mutex_release_all PTR i s) i); b = process_pool s' i in
      if status = MAXRTOS_OK then
        kernel_inv s' \<and> timer_ok s' \<and> pcb_release_time b = s_current_tick s
        \<and> pcb_deadline_time b = release_deadline (s_current_tick s) (pcb_time_capacity (process_pool s i))
        \<and> \<not> waits_for_time b
        \<and> (if was \<in> {MAXRTOS_PROCESS_STATE_RUNNING, MAXRTOS_PROCESS_STATE_BLOCKED}
           then pcb_state b = MAXRTOS_PROCESS_STATE_READY \<and> queued_in s' i
             \<and> current_id s' (pcb_partition_id b) \<noteq> i \<and> pcb_waitlist b = None
             \<and> (\<forall>w. i \<notin> set (wl_list (waitlists s' w)))
           else pcb_state b = was)
      else status = MAXRTOS_ERR_QUEUE_FULL
        \<and> was \<in> {MAXRTOS_PROCESS_STATE_RUNNING, MAXRTOS_PROCESS_STATE_BLOCKED}
        \<and> pcb_state b = MAXRTOS_PROCESS_STATE_READY \<and> \<not> queued_in s' i
        \<and> (was = MAXRTOS_PROCESS_STATE_RUNNING \<longrightarrow> current_id s' (pcb_partition_id b) = i))"
proof -
  define s1 where "s1 = maxrtos_kernel_mutex_release_all PTR i s"
  obtain status s' where e: "maxrtos_fault_recovery_restart PTR i s = (status, s')" by (rule prod.exhaust)
  note o = restart_outcome[OF k t i, folded s1_def, unfolded e prod.case]
  note r = release_all_outcome[OF k t, of PTR i, folded s1_def]
  have a1: "allocated (process_pool s1) i" using i r(4) by simp
  have cfg: "pcb_time_capacity (process_pool s1 i) = pcb_time_capacity (process_pool s i)"
    using r(5)[of i] by (simp add: pcb_config_def)
  have off: "i \<notin> set (wl_list (waitlists s' w))"
    if "kernel_inv s'" "pcb_state (process_pool s' i) = MAXRTOS_PROCESS_STATE_READY" for w
    using wait_okD(4)[OF kernel_invD(2)[OF that(1)], of i w] that(2) by auto
  have nq: "\<not> queued_in t i" if "sched_inv t" "allocated (process_pool t) i"
    "pcb_state (process_pool t i) \<noteq> MAXRTOS_PROCESS_STATE_READY" for t
    using queued_in_ready[OF that(1,2)] that(3) by auto
  have lost: "pcb_state (process_pool s' i) = MAXRTOS_PROCESS_STATE_READY" "queued_in s' i = queued_in t i" if "lost i t s'" for t
    using that lost_queued[OF that, of i] by (simp_all add: lost_def)
  consider (run) "pcb_state (process_pool s1 i) = MAXRTOS_PROCESS_STATE_RUNNING"
    | (blocked) "pcb_state (process_pool s1 i) = MAXRTOS_PROCESS_STATE_BLOCKED"
    | (other) "pcb_state (process_pool s1 i) \<notin> {MAXRTOS_PROCESS_STATE_RUNNING, MAXRTOS_PROCESS_STATE_BLOCKED}" by auto
  then show ?thesis
  proof cases
    case run
    then have ns: "pcb_state (process_pool s1 i) \<noteq> MAXRTOS_PROCESS_STATE_BLOCKED"
      "pcb_state (process_pool s1 i) \<noteq> MAXRTOS_PROCESS_STATE_READY" by simp_all
    note w = wait_ok_not_blocked[OF kernel_invD(2)[OF r(1)] a1 ns(1)]
    show ?thesis
    proof (cases "has_room s1 i")
      case True
      with o run have g: "status = MAXRTOS_OK" "kernel_inv s'" "timer_ok s'" "begins_afresh i s1 s'" by simp_all
      with begins_afreshD[OF g(4) kernel_invD(1)[OF r(1)] a1] off[OF g(2)] run w cfg r(3) show ?thesis by (simp add: e s1_def[symmetric])
    next
      case False
      with o run have g: "status = MAXRTOS_ERR_QUEUE_FULL" "lost i s1 s'" by simp_all
      moreover have "current_id s' (pcb_partition_id (process_pool s' i)) = i"
        using g(2) sched_okD(2)[OF kernel_invD(1)[OF r(1), unfolded sched_inv_def] a1 run] by (simp add: lost_def)
      ultimately show ?thesis
        using lost[OF g(2)] nq[OF kernel_invD(1)[OF r(1)] a1 ns(2)] run by (simp add: e s1_def[symmetric])
    qed
  next
    case blocked
    define s2 where "s2 = restart_unblock PTR i s1"
    note u = restart_unblock_outcome[OF r(1,2) a1 blocked, folded s2_def]
    have s2: "pcb_waitlist (process_pool s2 i) = None" "pcb_state (process_pool s2 i) \<noteq> MAXRTOS_PROCESS_STATE_READY"
      "pcb_time_capacity (process_pool s2 i) = pcb_time_capacity (process_pool s i)"
      "allocated (process_pool s2) i" "s_current_tick s2 = s_current_tick s" "kernel_inv s2"
      using u blocked a1 cfg r(3) by (auto simp: allocated_def only_ipc_def)
    show ?thesis
    proof (cases "has_room s2 i")
      case True
      with o blocked have g: "status = MAXRTOS_OK" "kernel_inv s'" "timer_ok s'" "begins_afresh i s2 s'"
        by (simp_all add: s2_def Let_def)
      with begins_afreshD[OF g(4) kernel_invD(1)[OF s2(6)] s2(4)] off[OF g(2)] blocked s2 show ?thesis by (simp add: e s1_def[symmetric])
    next
      case False
      with o blocked have g: "status = MAXRTOS_ERR_QUEUE_FULL" "lost i s2 s'" by (simp_all add: s2_def Let_def)
      with lost[OF g(2)] nq[OF kernel_invD(1)[OF s2(6)] s2(4,2)] blocked show ?thesis by (simp add: e s1_def[symmetric])
    qed
  next
    case other
    with o have g: "status = MAXRTOS_OK" "kernel_inv s'" "timer_ok s'"
      "s' = maxrtos_process_rearm_timing (Some i) (s_current_tick s) s1" by (auto split: maxrtos_process_state.splits)
    with other cfg show ?thesis
      by (simp add: e s1_def[symmetric] g(4) maxrtos_process_rearm_timing_def arm_deadline_pool release_deadline_def waits_for_time_def)
  qed
qed

text \<open>
  The running process 9 of a crowded partition is restarted while the ready queue of its priority
  is full: the kernel is left with a READY process that no queue holds.
\<close>

definition example_crowded :: kstate where
  "example_crowded = crowded_state (WL_Semaphore 0) (MAXRTOS_IPC_OP_SEMAPHORE_WAIT 0)"

lemma example_crowded_facts:
  "kernel_inv example_crowded" "timer_ok example_crowded" "allocated (process_pool example_crowded) 9"
  "pcb_state (process_pool example_crowded 9) = MAXRTOS_PROCESS_STATE_RUNNING" "\<not> has_room example_crowded 9"
  "maxrtos_kernel_mutex_release_all PTR 9 example_crowded = example_crowded"
proof -
  show "kernel_inv example_crowded" by (simp add: example_crowded_def crowded_inv)
  show "timer_ok example_crowded"
    by (simp add: timer_ok_def waits_for_time_def example_crowded_def crowded_state_def crowded_pool_def example_pcb_def)
  show "allocated (process_pool example_crowded) 9"
    "pcb_state (process_pool example_crowded 9) = MAXRTOS_PROCESS_STATE_RUNNING" "\<not> has_room example_crowded 9"
    using crowded_facts(1) by (simp_all add: example_crowded_def crowded_facts has_room_def)
      (simp add: crowded_state_def crowded_pool_def example_pcb_def)
  have "\<not> mtx_in_use (s_mutex_pool example_crowded m)" for m
    by (simp add: example_crowded_def crowded_state_def blank_state_def)
  then show "maxrtos_kernel_mutex_release_all PTR 9 example_crowded = example_crowded"
    unfolding maxrtos_kernel_mutex_release_all_def
    by (simp add: fold_invariant[where P = "\<lambda>s. s = example_crowded" and Q = "\<lambda>_. True"])
qed

lemma restart_begins_afresh_witness:
  "case maxrtos_fault_recovery_restart PTR 9 example_crowded of (status, s') \<Rightarrow>
    status = MAXRTOS_ERR_QUEUE_FULL \<and> \<not> queued_in s' 9 \<and> current_id s' (pcb_partition_id (process_pool s' 9)) = 9"
proof -
  note e = example_crowded_facts
  have "fst (maxrtos_fault_recovery_restart PTR 9 example_crowded) = MAXRTOS_ERR_QUEUE_FULL"
    using restart_outcome[OF e(1-3)] e(4-6) by (simp split: prod.splits)
  with restart_begins_afresh[OF e(1-3)] e(4,6) show ?thesis by (auto simp: Let_def)
qed

end
