(* ===== verification/Current_Process.thy ===== *)
theory Current_Process
  imports Fault_Recovery Semaphore Buffer Queue_Port
begin

text \<open>
  Who runs. In a consistent state the RUNNING processes are the current ones of the partitions. No
  kernel service changes them but dispatching, blocking and restarting, and these say whom they
  chose. The primitives inherit this from the contract of ipc_block.c through one interpretation.
\<close>

definition runs :: "kstate \<Rightarrow> u32 \<Rightarrow> bool" where
  "runs s i \<longleftrightarrow> i \<noteq> MAXRTOS_INVALID_PROCESS_ID \<and> (\<exists>part < of_nat MAXRTOS_MAX_PARTITIONS. current_id s part = i)"

lemma runs_iff:
  assumes "sched_inv s"
  shows "runs s i \<longleftrightarrow> allocated (process_pool s) i \<and> pcb_state (process_pool s i) = MAXRTOS_PROCESS_STATE_RUNNING"
proof
  note ok = assms[unfolded sched_inv_def]
  assume "runs s i"
  then obtain part where "i \<noteq> MAXRTOS_INVALID_PROCESS_ID" "part < of_nat MAXRTOS_MAX_PARTITIONS" "current_id s part = i"
    by (auto simp: runs_def)
  with part_okD(2)[OF sched_okD(3)[OF ok]] show "allocated (process_pool s) i \<and> pcb_state (process_pool s i) = MAXRTOS_PROCESS_STATE_RUNNING"
    by (auto simp: running_in_def)
next
  note ok = assms[unfolded sched_inv_def]
  assume i: "allocated (process_pool s) i \<and> pcb_state (process_pool s i) = MAXRTOS_PROCESS_STATE_RUNNING"
  then have "i \<noteq> MAXRTOS_INVALID_PROCESS_ID" by auto
  moreover have "pcb_partition_id (process_pool s i) < of_nat MAXRTOS_MAX_PARTITIONS"
    using sched_okD(1)[OF ok] i by (auto simp: pcb_ok_def)
  ultimately show "runs s i" using sched_okD(2)[OF ok, of i] i by (auto simp: runs_def)
qed

lemma runs_current:
  assumes "sched_inv s" "runs s i"
  shows "current_id s (pcb_partition_id (process_pool s i)) = i"
  using assms sched_okD(2)[OF assms(1)[unfolded sched_inv_def], of i] by (simp add: runs_iff[OF assms(1)])

lemma runs_cong: "current_id s' = current_id s \<Longrightarrow> runs s' i = runs s i"
  by (simp add: runs_def)

lemma runs_switched:
  "current_id s' = (current_id s)(part := n) \<Longrightarrow> part < of_nat MAXRTOS_MAX_PARTITIONS \<Longrightarrow> n \<noteq> MAXRTOS_INVALID_PROCESS_ID \<Longrightarrow> runs s' n"
  "current_id s' = (current_id s)(part := n) \<Longrightarrow> runs s i \<Longrightarrow> current_id s part \<noteq> i \<Longrightarrow> runs s' i"
  by (auto simp: runs_def)

subsection \<open>Blocking calls\<close>

lemma set_priority_current: "current_id (snd (maxrtos_partition_set_process_priority tablep i q s)) = current_id s"
  by (simp add: maxrtos_partition_set_process_priority_def prod.case_eq_if Let_def split: option.split)

lemma resolve_current: "current_id (snd (maxrtos_ipc_resolve tablep i result s)) = current_id s"
  by (simp add: maxrtos_ipc_resolve_def maxrtos_partition_ready_process_def prod.case_eq_if Let_def split: option.split)

text \<open>What a stack frame is built from: base and size of the stack, the entry function.\<close>

abbreviation stack_of :: "pcb \<Rightarrow> u32 \<times> u32 \<times> u32" where
  "stack_of b \<equiv> (pcb_stack_base b, pcb_stack_size b, pcb_entry b)"

text \<open>The processes there are, and the partitions they belong to, are as before.\<close>

definition same_owner :: "kstate \<Rightarrow> kstate \<Rightarrow> bool" where
  "same_owner s s' \<longleftrightarrow> (\<forall>i. allocated (process_pool s') i = allocated (process_pool s) i
     \<and> pcb_partition_id (process_pool s' i) = pcb_partition_id (process_pool s i)
     \<and> stack_of (process_pool s' i) = stack_of (process_pool s i))"

lemma same_owner_simps [simp]: "same_owner s s" "same_owner s (s'\<lparr>mem := m\<rparr>) = same_owner s s'"
  by (simp_all add: same_owner_def)

lemma same_owner_trans: "same_owner s s' \<Longrightarrow> same_owner s' s'' \<Longrightarrow> same_owner s s''"
  by (simp add: same_owner_def)

lemma same_owner_upd_pcb:
  assumes "\<And>b. pcb_state (f b) = pcb_state b \<and> pcb_partition_id (f b) = pcb_partition_id b \<and> stack_of (f b) = stack_of b"
  shows "same_owner s (upd_pcb i f t) = same_owner s t"
proof -
  have "allocated (process_pool (upd_pcb i f t)) j = allocated (process_pool t) j"
    "pcb_partition_id (process_pool (upd_pcb i f t) j) = pcb_partition_id (process_pool t j)"
    "stack_of (process_pool (upd_pcb i f t) j) = stack_of (process_pool t j)" for j
    using assms by (auto simp: allocated_def)
  then show ?thesis unfolding same_owner_def by (simp del: upd_pcb_fields)
qed

lemma same_owner_note [simp]: "same_owner s (maxrtos_kernel_timing_note_due tick t) = same_owner s t"
  by (simp add: same_owner_def)

lemma same_owner_arm [simp]: "same_owner s (arm_deadline i t) = same_owner s t"
proof -
  have "allocated (process_pool (arm_deadline i t)) j = allocated (process_pool t) j"
    "pcb_partition_id (process_pool (arm_deadline i t) j) = pcb_partition_id (process_pool t j)"
    "stack_of (process_pool (arm_deadline i t) j) = stack_of (process_pool t j)" for j
    by (auto simp: arm_deadline_pool allocated_def)
  then show ?thesis unfolding same_owner_def by simp
qed


lemma paused_owner:
  assumes "paused i out s s'" "sched_inv s" "allocated (process_pool s) i"
  shows "same_owner s s'"
    "current_id s' = (current_id s)(pcb_partition_id (process_pool s i) := out_val MAXRTOS_INVALID_PROCESS_ID out)"
proof -
  let ?ctx = "scheduler_ctx s (pcb_partition_id (process_pool s i))"
  note ok = assms(2)[unfolded sched_inv_def]
  have part: "pcb_partition_id (process_pool s i) < of_nat MAXRTOS_MAX_PARTITIONS"
    using sched_okD(1)[OF ok assms(3)] by (simp add: pcb_ok_def)
  have al: "allocated (process_pool s) j" if "out = Some j" "j \<noteq> MAXRTOS_INVALID_PROCESS_ID" for j
  proof -
    from assms(1) that obtain p where "top_priority ?ctx = Some p" "j = hd (ready ?ctx p)"
      by (auto simp: paused_def Let_def split: option.splits)
    with top_priority_SomeD[of ?ctx p] domain_okD(1)[OF part_okD(1)[OF sched_okD(3)[OF ok part]]] show ?thesis by auto
  qed
  have "allocated (process_pool s') j = allocated (process_pool s) j
    \<and> pcb_partition_id (process_pool s' j) = pcb_partition_id (process_pool s j)
    \<and> stack_of (process_pool s' j) = stack_of (process_pool s j)" for j
  proof (cases "j = i")
    case True
    then show ?thesis using assms(1,3) by (simp add: paused_def Let_def allocated_def)
  next
    case False
    then have "process_pool s' j = (if out = Some j \<and> j \<noteq> MAXRTOS_INVALID_PROCESS_ID
          then (process_pool s j)\<lparr>pcb_state := MAXRTOS_PROCESS_STATE_RUNNING\<rparr> else process_pool s j)"
      using assms(1) by (simp add: paused_def Let_def)
    with al[of j] show ?thesis by (auto simp: allocated_def)
  qed
  then show "same_owner s s'" by (simp add: same_owner_def)
  show "current_id s' = (current_id s)(pcb_partition_id (process_pool s i) := out_val MAXRTOS_INVALID_PROCESS_ID out)"
    using assms(1) by (auto simp: paused_def Let_def)
qed

lemma same_config_owner: "same_config s s' \<Longrightarrow> same_owner s s'"
  by (simp add: same_config_def same_owner_def pcb_config_def)

text \<open>What is known of the state once \<open>i\<close> is blocked: another process \<open>n\<close> is current in its place.\<close>

definition replaced :: "kstate \<Rightarrow> u32 \<Rightarrow> kstate \<Rightarrow> u32 option \<Rightarrow> bool" where
  "replaced s0 i s out \<longleftrightarrow> kernel_inv s \<and> same_config s0 s \<and> allocated (process_pool s0) i \<and> (\<exists>n. out = Some n \<and> n \<noteq> MAXRTOS_INVALID_PROCESS_ID
     \<and> n \<noteq> i \<and> current_id s = (current_id s0)(pcb_partition_id (process_pool s0 i) := n))"

interpretation current: blocking_invariant
  "\<lambda>s. kernel_inv s \<and> same_config s0 s \<and> current_id s = current_id s0" off_lists "replaced s0" for s0
proof (unfold_locales, goal_cases)
  case (1 s tablep i q)
  then show ?case using config.set_priority[of s s0 tablep i q] set_priority_current by simp
next
  case (2 s wl outp operp status out oper s')
  then have "kernel_inv s" by simp
  from wake_one_cases[OF this 2(2)] 2 config.wake[OF _ 2(2), of s0] show ?case by (auto simp: left_list_def)
next
  case (3 s wl outp operp status out oper s')
  then have "kernel_inv s" by simp
  from take_best_cases[OF this 3(2)] 3 config.best[OF _ 3(2), of s0] show ?case by (auto simp: left_list_def)
next
  case (4 s i tablep result)
  then show ?case using config.resolve[of s s0 i tablep result] resolve_current by simp
next
  case (10 s wl tablep i wake opp outp status out s')
  then have k: "kernel_inv s" and c: "same_config s0 s" "current_id s = current_id s0" by simp_all
  have s': "kernel_inv s' \<and> same_config s0 s'"
    using config.block[of s s0 wl tablep i wake opp outp] 10 by simp
  show ?case
  proof (cases "wl \<noteq> None \<and> opp \<noteq> None")
    case False
    with 10 have "status = MAXRTOS_ERR_INVALID_ARG" "s' = s"
      by (auto simp: maxrtos_ipc_block_current_def split: option.splits)
    with 10 show ?thesis by simp
  next
    case True
    then obtain w oper where wo: "wl = Some w" "opp = Some oper" by auto
    note b = block_current_cases[OF k 10(3)[unfolded wo]]
    show ?thesis
    proof (cases "status = MAXRTOS_OK")
      case ok: True
      from b(1)[OF this] obtain n where n: "out = Some n" "blocked_on w i wake oper n s s'" by blast
      then have "n \<noteq> MAXRTOS_INVALID_PROCESS_ID" "n \<noteq> i" "current_id s' = (current_id s)(pcb_partition_id (process_pool s i) := n)"
        by (auto simp: blocked_on_def)
      moreover have "pcb_partition_id (process_pool s i) = pcb_partition_id (process_pool s0 i)"
        using c(1) by (simp add: same_config_def pcb_config_def)
      moreover have "allocated (process_pool s) i"
        using ok 10(3) by (auto simp: maxrtos_ipc_block_current_def wo process_get_eq split: if_splits)
      then have "allocated (process_pool s0) i" using c(1) by (simp add: same_config_def)
      ultimately show ?thesis using ok n(1) s' c(2) by (simp add: replaced_def)
    next
      case False
      with b(2) s' c show ?thesis by (auto simp: not_blocked_def)
    qed
  qed
qed (auto simp: same_config_def)

interpretation current_expiry: timeout_invariant
  "\<lambda>s. kernel_inv s \<and> same_config s0 s \<and> current_id s = current_id s0" off_lists for s0
proof (unfold_locales, goal_cases)
  case (1 s wl i operp status oper s')
  then have "kernel_inv s" by simp
  from timeout_current_cases[OF this 1(2)] 1 config_expiry.timeout[OF _ 1(2), of s0] show ?case
    by (auto simp: left_list_def)
qed

text \<open>A process that is BLOCKED and on no wait list waits for time only: no service wakes it or takes it for a waiter.\<close>

definition parked :: "kstate \<Rightarrow> u32 \<Rightarrow> bool" where
  "parked s i \<longleftrightarrow> pcb_state (process_pool s i) = MAXRTOS_PROCESS_STATE_BLOCKED \<and> pcb_waitlist (process_pool s i) = None"

lemma parked_simps [simp]: "parked (maxrtos_kernel_timing_note_due tick s) i = parked s i"
  by (simp add: parked_def)

lemma parked_left:
  assumes "kernel_inv s" "parked s r" "left_list w i s s'"
  shows "parked s' r" "i \<noteq> r"
proof -
  have "pcb_waitlist (process_pool s i) = Some w"
    using wait_okD(5)[OF kernel_invD(2)[OF assms(1)]] assms(3) by (simp add: left_list_def)
  with assms(2,3) show "parked s' r" "i \<noteq> r" by (auto simp: parked_def left_list_def)
qed

interpretation parked: wake_invariant "\<lambda>s. kernel_inv s \<and> parked s r" "\<lambda>pool i. off_lists pool i \<and> i \<noteq> r" for r
proof (unfold_locales, goal_cases)
  case (1 s tablep i q)
  from set_priority_inv[OF kernel_invD(1), of s tablep i q] 1 obtain q' where
    "process_pool (snd (maxrtos_partition_set_process_priority tablep i q s))
      = (process_pool s)(i := (process_pool s i)\<lparr>pcb_priority := q'\<rparr>)" by blast
  with 1 kernel_inv_set_priority show ?case by (auto simp: parked_def)
next
  case (2 s wl outp operp status out oper s')
  then have k: "kernel_inv s" and c: "parked s r" by auto
  from wake_one_cases[OF k 2(2)] k c left_list_off[OF k] parked_left[OF k c] show ?case by blast
next
  case (3 s wl outp operp status out oper s')
  then have k: "kernel_inv s" and c: "parked s r" by auto
  from take_best_cases[OF k 3(2)] k c left_list_off[OF k] parked_left[OF k c] show ?case by blast
next
  case (4 s i tablep result)
  then have "parked (snd (maxrtos_ipc_resolve tablep i result s)) r"
    using resolve_pool[of s tablep i result] by (auto simp: parked_def set_pcb_state_def)
  with 4 show ?case using resolve_step[of s i tablep result] by (simp add: off_lists_def)
qed (simp_all add: parked_def)

text \<open>
  The outcome of a service called by process \<open>i\<close>: the invariants hold, and PENDING means that the
  current process of its partition is now \<open>out\<close>, or none because \<open>i\<close> waits for time; any other answer changed no current process.
\<close>

definition served :: "kstate \<Rightarrow> u32 \<Rightarrow> maxrtos_status \<Rightarrow> u32 option \<Rightarrow> kstate \<Rightarrow> bool" where
  "served s i status out s' \<longleftrightarrow> kernel_inv s' \<and> timer_ok s' \<and> same_owner s s'
     \<and> (if status = MAXRTOS_PENDING
        then allocated (process_pool s) i \<and> current_id s' = (current_id s)(pcb_partition_id (process_pool s i) := out_val MAXRTOS_INVALID_PROCESS_ID out)
          \<and> (out_val MAXRTOS_INVALID_PROCESS_ID out = MAXRTOS_INVALID_PROCESS_ID \<longrightarrow> parked s' i)
        else current_id s' = current_id s)"

lemma served_unchanged: "kernel_inv s \<Longrightarrow> timer_ok s \<Longrightarrow> status \<noteq> MAXRTOS_PENDING \<Longrightarrow> served s i status out s"
  by (simp add: served_def)

lemma served_call:
  assumes "kernel_inv s" "timer_ok s" and inv: "kernel_inv s' \<and> timer_ok s'"
    and "if status = MAXRTOS_PENDING then replaced s i s' out
      else kernel_inv s' \<and> same_config s s' \<and> current_id s' = current_id s"
  shows "served s i status out s' \<and> (status = MAXRTOS_PENDING \<longrightarrow> (\<exists>n. out = Some n \<and> n \<noteq> MAXRTOS_INVALID_PROCESS_ID \<and> n \<noteq> i))"
  using assms by (auto simp: served_def replaced_def same_config_owner split: if_splits)

lemma blocking_calls_served:
  assumes inv: "kernel_inv s" "timer_ok s"
  shows "maxrtos_kernel_mutex_lock i timeout tablep current outp s = (status, out, s') \<Longrightarrow>
      served s current status out s' \<and> (status = MAXRTOS_PENDING \<longrightarrow> (\<exists>n. out = Some n \<and> n \<noteq> MAXRTOS_INVALID_PROCESS_ID \<and> n \<noteq> current))"
    and "maxrtos_kernel_semaphore_wait i timeout tablep current outp s = (status, out, s') \<Longrightarrow>
      served s current status out s' \<and> (status = MAXRTOS_PENDING \<longrightarrow> (\<exists>n. out = Some n \<and> n \<noteq> MAXRTOS_INVALID_PROCESS_ID \<and> n \<noteq> current))"
    and "maxrtos_kernel_buffer_send i message n timeout tablep current outp s = (status, out, s') \<Longrightarrow>
      served s current status out s' \<and> (status = MAXRTOS_PENDING \<longrightarrow> (\<exists>n. out = Some n \<and> n \<noteq> MAXRTOS_INVALID_PROCESS_ID \<and> n \<noteq> current))"
    and "maxrtos_kernel_buffer_receive i message n timeout tablep current outp s = (status, out, s') \<Longrightarrow>
      served s current status out s' \<and> (status = MAXRTOS_PENDING \<longrightarrow> (\<exists>n. out = Some n \<and> n \<noteq> MAXRTOS_INVALID_PROCESS_ID \<and> n \<noteq> current))"
    and "maxrtos_kernel_queue_port_send i message n timeout tablep current outp s = (status, out, s') \<Longrightarrow>
      served s current status out s' \<and> (status = MAXRTOS_PENDING \<longrightarrow> (\<exists>n. out = Some n \<and> n \<noteq> MAXRTOS_INVALID_PROCESS_ID \<and> n \<noteq> current))"
    and "maxrtos_kernel_queue_port_receive i message n timeout tablep current outp s = (status, out, s') \<Longrightarrow>
      served s current status out s' \<and> (status = MAXRTOS_PENDING \<longrightarrow> (\<exists>n. out = Some n \<and> n \<noteq> MAXRTOS_INVALID_PROCESS_ID \<and> n \<noteq> current))"
proof -
  have I: "kernel_inv s \<and> same_config s s \<and> current_id s = current_id s" and T: "kernel_inv s \<and> timer_ok s"
    using inv by simp_all
  show "maxrtos_kernel_mutex_lock i timeout tablep current outp s = (status, out, s') \<Longrightarrow>
      served s current status out s' \<and> (status = MAXRTOS_PENDING \<longrightarrow> (\<exists>n. out = Some n \<and> n \<noteq> MAXRTOS_INVALID_PROCESS_ID \<and> n \<noteq> current))"
    using current.mutex_lock_outcome[OF I] timer.mutex_lock_inv[OF T, of i timeout tablep current outp]
    by (intro served_call[OF inv]) simp_all
  show "maxrtos_kernel_semaphore_wait i timeout tablep current outp s = (status, out, s') \<Longrightarrow>
      served s current status out s' \<and> (status = MAXRTOS_PENDING \<longrightarrow> (\<exists>n. out = Some n \<and> n \<noteq> MAXRTOS_INVALID_PROCESS_ID \<and> n \<noteq> current))"
    using current.semaphore_wait_outcome[OF I] timer.semaphore_wait_inv[OF T, of i timeout tablep current outp]
    by (intro served_call[OF inv]) simp_all
  show "maxrtos_kernel_buffer_send i message n timeout tablep current outp s = (status, out, s') \<Longrightarrow>
      served s current status out s' \<and> (status = MAXRTOS_PENDING \<longrightarrow> (\<exists>n. out = Some n \<and> n \<noteq> MAXRTOS_INVALID_PROCESS_ID \<and> n \<noteq> current))"
    using current.buffer_send_outcome[OF I] timer.buffer_send_inv[OF T, of i message n timeout tablep current outp]
    by (intro served_call[OF inv]) simp_all
  show "maxrtos_kernel_buffer_receive i message n timeout tablep current outp s = (status, out, s') \<Longrightarrow>
      served s current status out s' \<and> (status = MAXRTOS_PENDING \<longrightarrow> (\<exists>n. out = Some n \<and> n \<noteq> MAXRTOS_INVALID_PROCESS_ID \<and> n \<noteq> current))"
    using current.buffer_receive_outcome[OF I] timer.buffer_receive_inv[OF T, of i message n timeout tablep current outp]
    by (intro served_call[OF inv]) simp_all
  show "maxrtos_kernel_queue_port_send i message n timeout tablep current outp s = (status, out, s') \<Longrightarrow>
      served s current status out s' \<and> (status = MAXRTOS_PENDING \<longrightarrow> (\<exists>n. out = Some n \<and> n \<noteq> MAXRTOS_INVALID_PROCESS_ID \<and> n \<noteq> current))"
    using current.port_send_outcome[OF I] timer.port_send_inv[OF T, of i message n timeout tablep current outp]
    by (intro served_call[OF inv]) simp_all
  show "maxrtos_kernel_queue_port_receive i message n timeout tablep current outp s = (status, out, s') \<Longrightarrow>
      served s current status out s' \<and> (status = MAXRTOS_PENDING \<longrightarrow> (\<exists>n. out = Some n \<and> n \<noteq> MAXRTOS_INVALID_PROCESS_ID \<and> n \<noteq> current))"
    using current.port_receive_outcome[OF I] timer.port_receive_inv[OF T, of i message n timeout tablep current outp]
    by (intro served_call[OF inv]) simp_all
qed

lemma waits_served:
  assumes inv: "kernel_inv s" "timer_ok s"
  shows "maxrtos_kernel_periodic_wait tablep i outp s = (status, out, s') \<Longrightarrow> served s i status out s'"
    and "maxrtos_kernel_timed_wait tablep i delay outp s = (status, out, s') \<Longrightarrow> served s i status out s'"
proof -
  have free: "pcb_waitlist (process_pool s i) = None"
    if "allocated (process_pool s) i" "pcb_state (process_pool s i) = MAXRTOS_PROCESS_STATE_RUNNING"
    by (rule wait_ok_not_blocked[OF kernel_invD(2)[OF inv(1)] that(1)]) (simp add: that(2))
  show "served s i status out s'" if r: "maxrtos_kernel_periodic_wait tablep i outp s = (status, out, s')"
  proof (cases "tablep = PTR \<and> outp = PTR \<and> allocated (process_pool s) i
    \<and> pcb_state (process_pool s i) = MAXRTOS_PROCESS_STATE_RUNNING \<and> pcb_period (process_pool s i) \<noteq> 0")
    case False
    with r have "s' = s \<and> status \<noteq> MAXRTOS_PENDING"
      by (cases tablep; cases outp; cases "allocated (process_pool s) i")
        (auto simp: maxrtos_kernel_periodic_wait_def process_get_eq split: if_splits)
    with inv show ?thesis by (simp add: served_unchanged)
  next
    case True
    define s1 where "s1 = upd_pcb i (\<lambda>b. b\<lparr>pcb_deadline_time := MAXRTOS_TICK_NONE\<rparr>) s"
    define b where "b = process_pool s i"
    define next_release where "next_release = pcb_release_time b + pcb_period b"
    from True periodic_wait_outcome[OF inv, of i] obtain out2 s2 t where o: "kernel_inv t" "timer_ok t"
      "maxrtos_kernel_periodic_wait PTR i PTR s = (if next_release \<le> s_current_tick s then (MAXRTOS_OK, None, t)
        else if halted s (pcb_partition_id b) then (MAXRTOS_ERR_PARTITION_HALTED, None, t) else (MAXRTOS_PENDING, out2, t))"
      "if next_release \<le> s_current_tick s then t = arm_deadline i (upd_pcb i (\<lambda>b. b\<lparr>pcb_release_time := next_release\<rparr>) s1)
       else if halted s (pcb_partition_id b) then t = arm_deadline i s1
       else paused i out2 s1 s2 \<and> t = maxrtos_kernel_timing_note_due next_release
                (upd_pcb i (\<lambda>b. b\<lparr>pcb_periodic_waiting := True, pcb_wake_tick := next_release\<rparr>) s2)"
      unfolding b_def next_release_def s1_def by blast
    have "same_owner s t \<and> (if next_release \<le> s_current_tick s \<or> halted s (pcb_partition_id b) then current_id t = current_id s
      else current_id t = (current_id s)(pcb_partition_id (process_pool s i) := out_val MAXRTOS_INVALID_PROCESS_ID out2)
        \<and> parked t i)"
    proof (cases "next_release \<le> s_current_tick s \<or> halted s (pcb_partition_id b)")
      case True
      with o(4) show ?thesis by (auto simp: s1_def same_owner_upd_pcb split: if_splits)
    next
      case wait: False
      with o(4) have p: "paused i out2 s1 s2" by simp
      have s1: "sched_inv s1" "allocated (process_pool s1) i"
        using sched_inv_upd_pcb[OF kernel_invD(1)[OF inv(1)]] True by (auto simp: s1_def allocated_def)
      have "pcb_waitlist (process_pool s i) = None" by (rule free) (use True in simp_all)
      then have "parked s2 i" using p by (simp add: paused_def Let_def parked_def s1_def)
      moreover from paused_owner[OF p s1] have "same_owner s s2"
        by (simp add: same_owner_def s1_def allocated_def)
      ultimately show ?thesis using paused_owner(2)[OF p s1] o(4) wait
        by (simp add: same_owner_upd_pcb s1_def parked_def)
    qed
    with True r o(1-3) show ?thesis
      by (simp add: served_def b_def split: if_splits)
  qed
  show "served s i status out s'" if r: "maxrtos_kernel_timed_wait tablep i delay outp s = (status, out, s')"
  proof (cases "tablep = PTR \<and> outp = PTR \<and> allocated (process_pool s) i
    \<and> pcb_state (process_pool s i) = MAXRTOS_PROCESS_STATE_RUNNING")
    case False
    with r have "s' = s \<and> status \<noteq> MAXRTOS_PENDING"
      by (cases tablep; cases outp; cases "allocated (process_pool s) i")
        (auto simp: maxrtos_kernel_timed_wait_def process_get_eq split: if_splits)
    with inv show ?thesis by (simp add: served_unchanged)
  next
    case True
    then have a: "allocated (process_pool s) i" "pcb_state (process_pool s i) = MAXRTOS_PROCESS_STATE_RUNNING"
      and r': "maxrtos_kernel_timed_wait PTR i delay PTR s = (status, out, s')" using r by simp_all
    from timed_wait_outcome[OF inv a r'] show ?thesis
    proof (elim disjE conjE exE)
      assume "s' = s" "status \<noteq> MAXRTOS_PENDING"
      with inv show ?thesis by (simp add: served_unchanged)
    next
      fix wake s2
      let ?f = "\<lambda>b :: pcb. b\<lparr>pcb_timed_waiting := True, pcb_wake_tick := wake\<rparr>"
      assume w: "status = MAXRTOS_PENDING" "paused i out s s2" "kernel_inv s'" "timer_ok s'"
        "s' = maxrtos_kernel_timing_note_due wake (upd_pcb i ?f s2)"
      note p = paused_owner[OF w(2) kernel_invD(1)[OF inv(1)] a(1)]
      have "same_owner s (upd_pcb i ?f s2)" by (rule iffD2[OF same_owner_upd_pcb p(1)]) simp
      then have "same_owner s s'" by (simp add: w(5))
      moreover have "current_id s' = current_id s2" "parked s' i"
        using w(2) free[OF a] by (simp_all add: w(5) paused_def Let_def parked_def)
      ultimately show ?thesis using w p(2) a by (simp add: served_def)
    qed
  qed
qed

subsection \<open>Calls that wake or select\<close>

lemma waking_calls_served:
  assumes inv: "kernel_inv s" "timer_ok s"
  shows "maxrtos_kernel_mutex_unlock i tablep current s = (status, s') \<Longrightarrow>
      kernel_inv s' \<and> timer_ok s' \<and> same_owner s s' \<and> current_id s' = current_id s"
    and "maxrtos_kernel_semaphore_signal i tablep current s = (status, s') \<Longrightarrow>
      kernel_inv s' \<and> timer_ok s' \<and> same_owner s s' \<and> current_id s' = current_id s"
proof -
  have I: "kernel_inv s \<and> same_config s s \<and> current_id s = current_id s" and T: "kernel_inv s \<and> timer_ok s"
    using inv by simp_all
  show "maxrtos_kernel_mutex_unlock i tablep current s = (status, s') \<Longrightarrow>
      kernel_inv s' \<and> timer_ok s' \<and> same_owner s s' \<and> current_id s' = current_id s"
    using current.mutex_unlock_inv[OF I, of i tablep current] timer.mutex_unlock_inv[OF T, of i tablep current]
    by (simp add: same_config_owner)
  show "maxrtos_kernel_semaphore_signal i tablep current s = (status, s') \<Longrightarrow>
      kernel_inv s' \<and> timer_ok s' \<and> same_owner s s' \<and> current_id s' = current_id s"
    using current.semaphore_signal_inv[OF I, of i tablep current] timer.semaphore_signal_inv[OF T, of i tablep current]
    by (simp add: same_config_owner)
qed

lemma select_current:
  assumes inv: "kernel_inv s" "timer_ok s"
    and r: "maxrtos_partition_select tablep part outp yield s = (status, out, s')"
  shows "kernel_inv s'" "timer_ok s'" "same_owner s s'"
    and "status = MAXRTOS_OK \<Longrightarrow> \<exists>n. out = Some n \<and> runs s' n \<and> pcb_partition_id (process_pool s' n) = part
      \<and> part < of_nat MAXRTOS_MAX_PARTITIONS \<and> current_id s' = (current_id s)(part := n)"
    and "status \<noteq> MAXRTOS_OK \<Longrightarrow> out = None \<and> current_id s' = current_id s"
proof -
  show k: "kernel_inv s'" "timer_ok s'"
    using select_inv(1,2)[OF inv, where tablep = tablep and part = part and outp = outp and yield = yield] r by simp_all
  have "allocated (process_pool s') i = allocated (process_pool s) i
      \<and> pcb_partition_id (process_pool s' i) = pcb_partition_id (process_pool s i)
      \<and> stack_of (process_pool s' i) = stack_of (process_pool s i)" for i
    using select_pool(1)[OF inv(1), where tablep = tablep and part = part and outp = outp and yield = yield and i = i] r
    by (auto simp: allocated_def)
  then show "same_owner s s'" by (simp add: same_owner_def)
  have "(status = MAXRTOS_OK \<longrightarrow> (\<exists>n. out = Some n \<and> runs s' n \<and> pcb_partition_id (process_pool s' n) = part
      \<and> part < of_nat MAXRTOS_MAX_PARTITIONS \<and> current_id s' = (current_id s)(part := n)))
    \<and> (status \<noteq> MAXRTOS_OK \<longrightarrow> out = None \<and> current_id s' = current_id s)"
  proof (cases "tablep = PTR \<and> outp = PTR \<and> part < of_nat MAXRTOS_MAX_PARTITIONS")
    case False
    with r show ?thesis by (cases tablep; cases outp) (auto simp: maxrtos_partition_select_def)
  next
    case True
    with r have "maxrtos_partition_select PTR part PTR yield s = (status, out, s')" by simp
    from select_runs[OF inv(1) _ this] True show ?thesis by (auto simp: runs_iff[OF kernel_invD(1)[OF k(1)]])
  qed
  then show "status = MAXRTOS_OK \<Longrightarrow> \<exists>n. out = Some n \<and> runs s' n \<and> pcb_partition_id (process_pool s' n) = part
      \<and> part < of_nat MAXRTOS_MAX_PARTITIONS \<and> current_id s' = (current_id s)(part := n)"
    and "status \<noteq> MAXRTOS_OK \<Longrightarrow> out = None \<and> current_id s' = current_id s" by blast+
qed

end
