(* ===== verification/Room.thy ===== *)
theory Room
  imports Current_Process
begin

text \<open>
  Partitions that are not overcrowded. A ready queue holds eight processes; with at most eight
  processes in a partition no queue of it overflows, so a dispatch always has an answer and a restart
  always finds room. Also what the recovery of a process and a tick leave of the processes there are.
\<close>

definition uncrowded :: "kstate \<Rightarrow> bool" where
  "uncrowded s \<longleftrightarrow> (\<forall>p. card {i. allocated (process_pool s) i \<and> pcb_partition_id (process_pool s i) = p}
     \<le> MAXRTOS_MAX_READY_PER_PRIORITY)"

lemma uncrowded_owner: "same_owner s s' \<Longrightarrow> uncrowded s' = uncrowded s"
  by (simp add: uncrowded_def same_owner_def)

lemma finite_allocated: "finite {i :: u32. P i}"
  by (rule finite_subset[OF subset_UNIV]) simp

text \<open>A process outside a queue of its partition finds room there.\<close>

lemma queue_has_room:
  assumes inv: "sched_inv s" and un: "uncrowded s" and part: "part < of_nat MAXRTOS_MAX_PARTITIONS"
    and i: "allocated (process_pool s) i" "pcb_partition_id (process_pool s i) = part"
    and r: "r \<le> MAXRTOS_MAX_PRIORITY" "i \<notin> set (ready (scheduler_ctx s part) r)"
  shows "length (ready (scheduler_ctx s part) r) < MAXRTOS_MAX_READY_PER_PRIORITY"
proof -
  let ?q = "ready (scheduler_ctx s part) r"
  let ?A = "{i. allocated (process_pool s) i \<and> pcb_partition_id (process_pool s i) = part}"
  note p = sched_okD(3)[OF inv[unfolded sched_inv_def] part]
  note d = domain_okD[OF part_okD(1)[OF p] r(1)]
  have "distinct ?q" using part_okD(1)[OF p] r(1) by (simp add: domain_ok_def)
  then have "length ?q = card (set ?q)" by (simp add: distinct_card)
  also have "\<dots> < card ?A"
  proof (rule psubset_card_mono)
    have "set ?q \<subseteq> ?A" using d part_okD(3)[OF p r(1)] by auto
    then show "set ?q \<subset> ?A" using i r(2) by auto
  qed (rule finite_allocated)
  also have "\<dots> \<le> MAXRTOS_MAX_READY_PER_PRIORITY" using un by (simp add: uncrowded_def)
  finally show ?thesis .
qed

lemma has_room_uncrowded:
  assumes inv: "sched_inv s" and un: "uncrowded s" and i: "allocated (process_pool s) i"
    "pcb_state (process_pool s i) \<noteq> MAXRTOS_PROCESS_STATE_READY"
  shows "has_room s i"
proof -
  note ok = inv[unfolded sched_inv_def]
  let ?part = "pcb_partition_id (process_pool s i)" and ?r = "unat (pcb_priority (process_pool s i))"
  have p: "?part < of_nat MAXRTOS_MAX_PARTITIONS" "?r \<le> MAXRTOS_MAX_PRIORITY"
    using sched_okD(1)[OF ok i(1)] by (simp_all add: pcb_ok_def word_le_nat_alt)
  note d = part_okD(1)[OF sched_okD(3)[OF ok p(1)]]
  have "i \<notin> set (ready (scheduler_ctx s ?part) ?r)" using domain_okD[OF d p(2)] i(2) by auto
  from queue_has_room[OF inv un p(1) i(1) refl p(2) this] show ?thesis by (simp add: has_room_def)
qed

text \<open>A partition with nothing to run: halted, or no process of it is current or queued.\<close>

definition idle_partition :: "kstate \<Rightarrow> u32 \<Rightarrow> bool" where
  "idle_partition s part \<longleftrightarrow> halted s part \<or> current_id s part = MAXRTOS_INVALID_PROCESS_ID
     \<and> (\<forall>i. allocated (process_pool s) i \<and> pcb_partition_id (process_pool s i) = part \<longrightarrow> \<not> queued_in s i)"

text \<open>A dispatch of a live partition finds a process, or nothing is there to run.\<close>

lemma select_uncrowded:
  assumes inv: "kernel_inv s" and un: "uncrowded s" and part: "part < of_nat MAXRTOS_MAX_PARTITIONS"
    and r: "maxrtos_partition_select PTR part PTR yield s = (status, out, s')"
  shows "status \<in> {MAXRTOS_OK, MAXRTOS_ERR_QUEUE_EMPTY, MAXRTOS_ERR_PARTITION_HALTED}"
    and "status \<noteq> MAXRTOS_OK \<Longrightarrow> idle_partition s' part"
    and "status \<noteq> MAXRTOS_OK \<Longrightarrow> \<not> halted s part \<Longrightarrow> q \<le> MAXRTOS_MAX_PRIORITY \<Longrightarrow> ready (scheduler_ctx s part) q = []"
proof -
  let ?c = "current_id s part"
  note ok = kernel_invD(1)[OF inv, unfolded sched_inv_def] note p = sched_okD(3)[OF ok part]
  have "status \<in> {MAXRTOS_OK, MAXRTOS_ERR_QUEUE_EMPTY, MAXRTOS_ERR_PARTITION_HALTED}
    \<and> (\<not> halted s part \<longrightarrow> status \<noteq> MAXRTOS_OK \<longrightarrow> ?c = MAXRTOS_INVALID_PROCESS_ID
       \<and> (\<forall>q \<le> MAXRTOS_MAX_PRIORITY. ready (scheduler_ctx s part) q = []))"
  proof (cases "halted s part")
    case True
    with r part show ?thesis by (auto simp: maxrtos_partition_select_def)
  next
    case False
    from partition_select_eq[OF kernel_invD(1)[OF inv] part False, of yield] r obtain ctx' where e:
      "select_spec yield (running_of ?c (process_pool s)) (ready (scheduler_ctx s part)) = (status, out, ready ctx')"
      by auto
    let ?q = "ready (scheduler_ctx s part)" and ?cp = "unat (pcb_priority (process_pool s ?c))"
    have room: "length (?q ?cp) < MAXRTOS_MAX_READY_PER_PRIORITY" if "?c \<noteq> MAXRTOS_INVALID_PROCESS_ID"
    proof (rule queue_has_room[OF kernel_invD(1)[OF inv] un part])
      have run: "allocated (process_pool s) ?c" "pcb_state (process_pool s ?c) = MAXRTOS_PROCESS_STATE_RUNNING"
        using part_okD(2)[OF p] that by (simp_all add: running_in_def)
      then show "allocated (process_pool s) ?c" "pcb_partition_id (process_pool s ?c) = part" "?cp \<le> MAXRTOS_MAX_PRIORITY"
        using part_okD(4)[OF p that] sched_okD(1)[OF ok run(1)] by (simp_all add: pcb_ok_def word_le_nat_alt)
      then show "?c \<notin> set (?q ?cp)" using domain_okD[OF part_okD(1)[OF p], of ?cp ?c] run by auto
    qed
    have full: "length ((?q(a := tl (?q a))) ?cp) < MAXRTOS_MAX_READY_PER_PRIORITY" if "?c \<noteq> MAXRTOS_INVALID_PROCESS_ID" for a
      using room[OF that] by (cases "?q ?cp") auto
    have none: "find (\<lambda>p. ?q p \<noteq> []) [0..<MAXRTOS_MAX_PRIORITY + 1] = None \<Longrightarrow> \<forall>q \<le> MAXRTOS_MAX_PRIORITY. ?q q = []"
      by (auto simp: find_None_iff)
    show ?thesis
    proof (cases "find (\<lambda>p. ?q p \<noteq> []) [0..<MAXRTOS_MAX_PRIORITY + 1]")
      case None
      with e none show ?thesis by (auto simp: select_spec_def running_of_def split: if_splits)
    next
      case (Some a)
      with e full[of a] show ?thesis
        by (auto simp: select_spec_def running_of_def Let_def split: if_splits)
    qed
  qed
  note cases = this
  then show "status \<in> {MAXRTOS_OK, MAXRTOS_ERR_QUEUE_EMPTY, MAXRTOS_ERR_PARTITION_HALTED}" by blast
  show "ready (scheduler_ctx s part) q = []" if "status \<noteq> MAXRTOS_OK" "\<not> halted s part" "q \<le> MAXRTOS_MAX_PRIORITY"
    using cases that by blast
  note sp = select_pool[OF inv, where tablep = PTR and part = part and outp = PTR and yield = yield, unfolded r snd_conv]
  show "idle_partition s' part" if st: "status \<noteq> MAXRTOS_OK"
  proof (cases "halted s part")
    case True
    then show ?thesis using sp(3) by (simp add: only_scheduling_iff idle_partition_def)
  next
    case False
    with cases st have n: "?c = MAXRTOS_INVALID_PROCESS_ID" "\<forall>q \<le> MAXRTOS_MAX_PRIORITY. ready (scheduler_ctx s part) q = []" by blast+
    have "\<not> queued_in s' i" if i: "allocated (process_pool s') i" "pcb_partition_id (process_pool s' i) = part" for i
    proof
      assume q: "queued_in s' i"
      have al: "allocated (process_pool s) i" "pcb_partition_id (process_pool s i) = part"
        using sp(1)[of i] i by (auto simp: allocated_def)
      with sp(2)[OF al(1) q] n(2) have "pcb_state (process_pool s i) = MAXRTOS_PROCESS_STATE_RUNNING"
        by (auto simp: queued_in_def in_ready_ids)
      with sched_okD(2)[OF ok al(1)] al n(1) show False by auto
    qed
    moreover have "current_id s' part = MAXRTOS_INVALID_PROCESS_ID" using select_runs(2)[OF inv part r st] n(1) by simp
    ultimately show ?thesis by (simp add: idle_partition_def)
  qed
qed

subsection \<open>What a recovery leaves\<close>

text \<open>
  The parts of the kernel state the recovery of process \<open>i\<close> does not touch. At most process \<open>i\<close> itself
  ceases to be the current process of its partition, and at most that partition is halted.
\<close>

abbreviation clock_of :: "kstate \<Rightarrow> u32 \<times> u32" where
  "clock_of s \<equiv> (s_pending_misses s, s_current_tick s)"

definition recovered :: "u32 \<Rightarrow> kstate \<Rightarrow> kstate \<Rightarrow> bool" where
  "recovered i s s' \<longleftrightarrow> kernel_inv s' \<and> timer_ok s' \<and> same_owner s s' \<and> clock_of s' = clock_of s
     \<and> (\<forall>q. q \<noteq> pcb_partition_id (process_pool s i) \<longrightarrow> halted s' q = halted s q)
     \<and> (current_id s' = current_id s \<or> runs s i \<and>
          current_id s' = (current_id s)(pcb_partition_id (process_pool s i) := MAXRTOS_INVALID_PROCESS_ID))"

lemma recovered_refl: "kernel_inv s \<Longrightarrow> timer_ok s \<Longrightarrow> recovered i s s"
  by (simp add: recovered_def)

lemma recovered_after:
  "same_owner s s1 \<Longrightarrow> clock_of s1 = clock_of s \<Longrightarrow> current_id s1 = current_id s \<Longrightarrow>
    halted s1 = halted s \<Longrightarrow> recovered i s1 s' \<and> halted s' = halted s1 \<Longrightarrow> recovered i s s' \<and> halted s' = halted s"
  by (auto simp: recovered_def same_owner_def runs_def)

lemma recovered_afresh:
  assumes "kernel_inv s'" "timer_ok s'" "begins_afresh i s s'" "allocated (process_pool s) i"
    "pcb_partition_id (process_pool s i) < of_nat MAXRTOS_MAX_PARTITIONS"
  shows "recovered i s s' \<and> halted s' = halted s"
proof -
  have "allocated (process_pool s') j = allocated (process_pool s) j
      \<and> pcb_partition_id (process_pool s' j) = pcb_partition_id (process_pool s j)
      \<and> stack_of (process_pool s' j) = stack_of (process_pool s j)" for j
    using assms(3,4) by (auto simp: begins_afresh_def Let_def allocated_def)
  moreover have "i \<noteq> MAXRTOS_INVALID_PROCESS_ID" using assms(4) by auto
  ultimately show ?thesis using assms
    by (auto simp: recovered_def same_owner_def begins_afresh_def Let_def only_ipc_def runs_def)
qed

lemma restart_unblock_owner:
  assumes "kernel_inv s" "timer_ok s" "allocated (process_pool s) i" "pcb_state (process_pool s i) = MAXRTOS_PROCESS_STATE_BLOCKED"
  shows "same_owner s (restart_unblock PTR i s)"
proof -
  let ?s2 = "restart_unblock PTR i s"
  note u = restart_unblock_outcome[OF assms]
  have "allocated (process_pool ?s2) j = allocated (process_pool s) j
    \<and> pcb_partition_id (process_pool ?s2 j) = pcb_partition_id (process_pool s j)
    \<and> stack_of (process_pool ?s2 j) = stack_of (process_pool s j)" for j
  proof (cases "j = i")
    case True
    from u obtain q where "process_pool ?s2 i = (process_pool s i)\<lparr>pcb_priority := q, pcb_waitlist := None,
         pcb_wake_tick := MAXRTOS_TICK_NONE, pcb_ipc_operation := MAXRTOS_IPC_OP_NONE, pcb_ipc_result_pending := False\<rparr>" by blast
    with True show ?thesis by (simp add: allocated_def)
  next
    case False
    with u obtain q where "process_pool ?s2 j = (process_pool s j)\<lparr>pcb_priority := q\<rparr>" by blast
    then show ?thesis by (simp add: allocated_def)
  qed
  then show ?thesis by (simp add: same_owner_def)
qed

lemma restart_recovers:
  assumes inv: "kernel_inv s" "timer_ok s" and i: "allocated (process_pool s) i"
    and r: "maxrtos_fault_recovery_restart PTR i s = (MAXRTOS_OK, s')"
  shows "recovered i s s' \<and> halted s' = halted s"
proof -
  define s1 where "s1 = maxrtos_kernel_mutex_release_all PTR i s"
  note k1 = release_all_outcome(1,2)[OF inv, of PTR i, folded s1_def]
  have c1: "same_config s s1" "current_id s1 = current_id s" "same_clock s s1"
    using current.mutex_release_all_inv[of s s PTR i] clock.mutex_release_all_inv[of s s PTR i] inv
    by (simp_all add: s1_def same_clock_def)
  have al: "allocated (process_pool s1) i" using i c1(1) by (simp add: same_config_def)
  have part: "pcb_partition_id (process_pool s1 i) < of_nat MAXRTOS_MAX_PARTITIONS"
    using sched_okD(1)[OF kernel_invD(1)[OF k1(1), unfolded sched_inv_def] al] by (simp add: pcb_ok_def)
  have "recovered i s1 s' \<and> halted s' = halted s1"
  proof (cases "pcb_state (process_pool s1 i) = MAXRTOS_PROCESS_STATE_RUNNING")
    case True
    with restart_outcome[OF inv i, folded s1_def] r have "kernel_inv s' \<and> timer_ok s' \<and> begins_afresh i s1 s'"
      by (simp split: if_splits)
    with recovered_afresh al part show ?thesis by blast
  next
    case not_running: False
    show ?thesis
    proof (cases "pcb_state (process_pool s1 i) = MAXRTOS_PROCESS_STATE_BLOCKED")
      case True
      let ?s2 = "restart_unblock PTR i s1"
      note u = restart_unblock_outcome[OF k1 al True]
      note own = restart_unblock_owner[OF k1 al True]
      from True restart_outcome[OF inv i, folded s1_def] r have "kernel_inv s' \<and> timer_ok s' \<and> begins_afresh i ?s2 s'"
        by (simp add: Let_def split: if_splits)
      with recovered_afresh[of s' i ?s2] al part own have "recovered i ?s2 s' \<and> halted s' = halted ?s2"
        by (simp add: same_owner_def)
      with own u show ?thesis using recovered_after[of s1 ?s2 i s'] by (simp add: only_ipc_def)
    next
      case False
      let ?now = "s_current_tick s"
      from False not_running restart_outcome[OF inv i, folded s1_def, unfolded r prod.case]
      have "kernel_inv s' \<and> timer_ok s' \<and> s' = maxrtos_process_rearm_timing (Some i) ?now s1"
        by (cases "pcb_state (process_pool s1 i)") auto
      then have s': "kernel_inv s'" "timer_ok s'" "s' = maxrtos_process_rearm_timing (Some i) ?now s1" by blast+
      moreover have "same_owner s1 s'" unfolding s'(3) maxrtos_process_rearm_timing_def
        by (simp add: same_owner_upd_pcb)
      moreover have "current_id s' = current_id s1" "clock_of s' = clock_of s1" "halted s' = halted s1"
        by (simp_all add: s'(3) maxrtos_process_rearm_timing_def)
      ultimately show ?thesis by (simp add: recovered_def)
    qed
  qed
  then show ?thesis
    using recovered_after[OF same_config_owner[OF c1(1)] _ c1(2)] c1(3) by (simp add: same_clock_def)
qed

lemma recovery_handle_recovers:
  assumes inv: "kernel_inv s" "timer_ok s"
    and r: "maxrtos_fault_recovery_handle PTR hm PTR i fault_type PTR s = (MAXRTOS_OK, action, s')"
  shows "recovered i s s'" "action \<noteq> Some MAXRTOS_HM_ACTION_RESTART_PROCESS \<Longrightarrow> current_id s' = current_id s"
    "allocated (process_pool s) i" "action \<noteq> Some MAXRTOS_HM_ACTION_HALT_PARTITION \<Longrightarrow> halted s' = halted s"
proof -
  have i: "allocated (process_pool s) i"
    using r by (auto simp: maxrtos_fault_recovery_handle_def process_get_eq split: if_splits)
  obtain st act where p: "maxrtos_hm_get_policy PTR (pcb_partition_id (process_pool s i)) fault_type PTR hm = (st, act)"
    by (rule prod.exhaust)
  have halt: "recovered i s (s\<lparr>halted := (halted s)(pcb_partition_id (process_pool s i) := True)\<rparr>)"
    using inv by (simp add: recovered_def kernel_inv_def sched_inv_def due_ok_def timer_ok_def queued_in_def same_owner_def)
  have "recovered i s s' \<and> (action \<noteq> Some MAXRTOS_HM_ACTION_RESTART_PROCESS \<longrightarrow> current_id s' = current_id s)
    \<and> (action \<noteq> Some MAXRTOS_HM_ACTION_HALT_PARTITION \<longrightarrow> halted s' = halted s)"
    using r i p halt recovered_refl[OF inv] restart_recovers[OF inv i]
    by (auto simp: maxrtos_fault_recovery_handle_def process_get_eq split: if_splits option.splits maxrtos_hm_action.splits prod.splits)
  with i show "recovered i s s'" "action \<noteq> Some MAXRTOS_HM_ACTION_RESTART_PROCESS \<Longrightarrow> current_id s' = current_id s"
    "allocated (process_pool s) i" "action \<noteq> Some MAXRTOS_HM_ACTION_HALT_PARTITION \<Longrightarrow> halted s' = halted s" by blast+
qed

text \<open>Where there is room, a restart succeeds, and a process that was running or waiting for time is queued.\<close>

lemma restart_succeeds:
  assumes inv: "kernel_inv s" "timer_ok s" "uncrowded s" and i: "allocated (process_pool s) i"
  shows "\<exists>s'. maxrtos_fault_recovery_restart PTR i s = (MAXRTOS_OK, s') \<and> (runs s i \<or> parked s i \<longrightarrow> queued_in s' i)"
proof -
  define s1 where "s1 = maxrtos_kernel_mutex_release_all PTR i s"
  obtain status s' where r: "maxrtos_fault_recovery_restart PTR i s = (status, s')" by (rule prod.exhaust)
  note k1 = release_all_outcome(1,2)[OF inv(1,2), of PTR i, folded s1_def]
  have c1: "same_owner s s1" "current_id s1 = current_id s"
    using current.mutex_release_all_inv[of s s PTR i] inv same_config_owner by (simp_all add: s1_def)
  have al: "allocated (process_pool s1) i" and un: "uncrowded s1"
    using i inv(3) c1(1) uncrowded_owner[OF c1(1)] by (simp_all add: same_owner_def)
  have room: "has_room t i" if "kernel_inv t" "same_owner s1 t" "pcb_state (process_pool t i) \<noteq> MAXRTOS_PROCESS_STATE_READY" for t
    using has_room_uncrowded[OF kernel_invD(1)[OF that(1)], of i] that(2,3) un uncrowded_owner[OF that(2)] al by (simp add: same_owner_def)
  note o = restart_outcome[OF inv(1,2) i, folded s1_def, unfolded r prod.case]
  show ?thesis
  proof (cases "pcb_state (process_pool s1 i) = MAXRTOS_PROCESS_STATE_RUNNING")
    case True
    with o room[OF k1(1)] have "status = MAXRTOS_OK" "begins_afresh i s1 s'" by simp_all
    with r begins_afreshD(2)[OF _ kernel_invD(1)[OF k1(1)] al] show ?thesis by blast
  next
    case False
    then have "\<not> runs s1 i" using runs_iff[OF kernel_invD(1)[OF k1(1)]] by simp
    then have nr: "\<not> runs s i" using runs_cong[OF c1(2)] by simp
    have "status = MAXRTOS_OK \<and> (parked s i \<longrightarrow> queued_in s' i)"
    proof (cases "pcb_state (process_pool s1 i) = MAXRTOS_PROCESS_STATE_BLOCKED")
      case True
      let ?s2 = "restart_unblock PTR i s1"
      note u = restart_unblock_outcome[OF k1 al True]
      then have "pcb_state (process_pool ?s2 i) \<noteq> MAXRTOS_PROCESS_STATE_READY" using True by auto
      with o True room[of ?s2] u restart_unblock_owner[OF k1 al True] have "status = MAXRTOS_OK" "begins_afresh i ?s2 s'"
        by (simp_all add: Let_def)
      moreover have "sched_inv ?s2" "allocated (process_pool ?s2) i"
        using u al restart_unblock_owner[OF k1 al True] by (simp_all add: kernel_invD(1) same_owner_def)
      ultimately show ?thesis using begins_afreshD(2) by blast
    next
      case nb: False
      then have "\<not> parked s1 i" by (simp add: parked_def)
      then have "\<not> parked s i" using parked.mutex_release_all_inv[of s i PTR i] inv(1) by (auto simp: s1_def)
      with o nb False show ?thesis by (auto split: maxrtos_process_state.splits)
    qed
    with r nr show ?thesis by blast
  qed
qed

text \<open>A running process that was restarted is READY and queued, its release counts from now, and nobody is current.\<close>

lemma restart_of_running:
  assumes inv: "kernel_inv s" "timer_ok s" and i: "allocated (process_pool s) i" "runs s i"
    and r: "maxrtos_fault_recovery_restart PTR i s = (MAXRTOS_OK, s')"
  shows "pcb_state (process_pool s' i) = MAXRTOS_PROCESS_STATE_READY" "queued_in s' i"
    "current_id s' (pcb_partition_id (process_pool s i)) = MAXRTOS_INVALID_PROCESS_ID"
    "pcb_release_time (process_pool s' i) = s_current_tick s"
proof -
  define s1 where "s1 = maxrtos_kernel_mutex_release_all PTR i s"
  note k1 = release_all_outcome(1-3)[OF inv, of PTR i, folded s1_def]
  have c1: "same_config s s1" "current_id s1 = current_id s"
    using current.mutex_release_all_inv[of s s PTR i] inv by (simp_all add: s1_def)
  have al: "allocated (process_pool s1) i" using i c1(1) by (simp add: same_config_def)
  have "runs s1 i" using i(2) runs_cong[OF c1(2)] by simp
  then have "pcb_state (process_pool s1 i) = MAXRTOS_PROCESS_STATE_RUNNING" using runs_iff[OF kernel_invD(1)[OF k1(1)]] by simp
  with restart_outcome[OF inv i(1), folded s1_def] r have "begins_afresh i s1 s'" by (simp split: if_splits)
  note b = begins_afreshD[OF this kernel_invD(1)[OF k1(1)] al]
  show "pcb_state (process_pool s' i) = MAXRTOS_PROCESS_STATE_READY" "queued_in s' i"
    "pcb_release_time (process_pool s' i) = s_current_tick s" using b k1(3) by simp_all
  have rec: "recovered i s s'" using restart_recovers[OF inv i(1) r] by blast
  then have "pcb_partition_id (process_pool s' i) = pcb_partition_id (process_pool s i)" by (simp add: recovered_def same_owner_def)
  with b(3) rec runs_current[OF kernel_invD(1)[OF inv(1)] i(2)]
  show "current_id s' (pcb_partition_id (process_pool s i)) = MAXRTOS_INVALID_PROCESS_ID"
    by (auto simp: recovered_def)
qed

text \<open>
  C21. Faults are answered by the configured action, and by nothing else. With a NULL pointer
  (INVALID\_ARG), a process identifier that is not allocated (INVALID\_ID) or a fault type out of range
  (INVALID\_ARG) the call reports no action and leaves the state alone. Otherwise the action is the
  policy of the process's partition for that fault. IGNORE changes nothing. HALT\_PARTITION sets the
  halt flag of that partition, which then has no dispatch, and changes nothing else. RESTART\_PROCESS
  succeeds unless a ready queue is full (never with at most eight processes in a partition); when it
  succeeds the kernel stays consistent, no halt flag, clock or pending miss changes, no other
  partition loses its current process, and a process that was running is READY and queued with its
  release counted from now, while its partition has no current process until the next dispatch.
  Any other action is refused without effect.
\<close>

theorem fault_handled_by_policy:
  assumes k: "kernel_inv s" "timer_ok s"
  shows "case maxrtos_fault_recovery_handle hmp hm tablep i f outp s of (status, action, s') \<Rightarrow>
    if hmp = NULL \<or> tablep = NULL \<or> outp = NULL then status = MAXRTOS_ERR_INVALID_ARG \<and> action = None \<and> s' = s
    else if \<not> allocated (process_pool s) i then status = MAXRTOS_ERR_INVALID_ID \<and> action = None \<and> s' = s
    else if f = MAXRTOS_FAULT_COUNT then status = MAXRTOS_ERR_INVALID_ARG \<and> action = None \<and> s' = s
    else (let part = pcb_partition_id (process_pool s i) in
      action = Some (hm_policy hm part f) \<and>
        (case hm_policy hm part f of
           MAXRTOS_HM_ACTION_IGNORE \<Rightarrow> status = MAXRTOS_OK \<and> s' = s
         | MAXRTOS_HM_ACTION_RESTART_PROCESS \<Rightarrow>
             (status = MAXRTOS_OK \<or> status = MAXRTOS_ERR_QUEUE_FULL) \<and> (uncrowded s \<longrightarrow> status = MAXRTOS_OK)
             \<and> (status = MAXRTOS_OK \<longrightarrow> recovered i s s' \<and> halted s' = halted s
                 \<and> (\<forall>q. q \<noteq> part \<longrightarrow> current_id s' q = current_id s q)
                 \<and> (runs s i \<longrightarrow> pcb_state (process_pool s' i) = MAXRTOS_PROCESS_STATE_READY \<and> queued_in s' i
                      \<and> current_id s' part = MAXRTOS_INVALID_PROCESS_ID
                      \<and> pcb_release_time (process_pool s' i) = s_current_tick s))
         | MAXRTOS_HM_ACTION_HALT_PARTITION \<Rightarrow>
             status = MAXRTOS_OK \<and> kernel_inv s' \<and> halted s' = (halted s)(part := True)
             \<and> s' = s\<lparr>halted := halted s'\<rparr>
             \<and> fst (maxrtos_partition_dispatch PTR part PTR s') = MAXRTOS_ERR_PARTITION_HALTED
         | _ \<Rightarrow> status = MAXRTOS_ERR_INVALID_STATE \<and> s' = s))"
proof (cases "hmp = PTR \<and> tablep = PTR \<and> outp = PTR \<and> allocated (process_pool s) i \<and> f \<noteq> MAXRTOS_FAULT_COUNT")
  case False
  then show ?thesis
    by (cases hmp; cases tablep; cases outp; cases "allocated (process_pool s) i")
      (simp_all add: maxrtos_fault_recovery_handle_def process_get_eq maxrtos_hm_get_policy_def fault_below_count)
next
  case True
  let ?part = "pcb_partition_id (process_pool s i)" and ?s' = "s\<lparr>halted := (halted s)(pcb_partition_id (process_pool s i) := True)\<rparr>"
  have i: "allocated (process_pool s) i" using True by blast
  have part: "?part < of_nat MAXRTOS_MAX_PARTITIONS"
    using sched_okD(1)[OF kernel_invD(1)[OF k(1), unfolded sched_inv_def] i] by (simp add: pcb_ok_def)
  have policy: "maxrtos_hm_get_policy PTR ?part f PTR hm = (MAXRTOS_OK, Some (hm_policy hm ?part f))"
    using part True by (simp add: maxrtos_hm_get_policy_def fault_below_count)
  have k': "kernel_inv ?s'" using k by (simp add: kernel_inv_def sched_inv_def due_ok_def)
  have halt: "fst (maxrtos_partition_dispatch PTR ?part PTR ?s') = MAXRTOS_ERR_PARTITION_HALTED"
    using part by (simp add: maxrtos_partition_dispatch_def maxrtos_partition_select_def)
  obtain status s' where r: "maxrtos_fault_recovery_restart PTR i s = (status, s')" by (rule prod.exhaust)
  have full: "status = MAXRTOS_OK \<or> status = MAXRTOS_ERR_QUEUE_FULL"
    using restart_outcome[OF k i] r by (auto simp: Let_def split: maxrtos_process_state.splits if_splits)
  have fits: "uncrowded s \<Longrightarrow> status = MAXRTOS_OK" using restart_succeeds[OF k _ i] r by auto
  have ok: "recovered i s s' \<and> halted s' = halted s \<and> (\<forall>q. q \<noteq> ?part \<longrightarrow> current_id s' q = current_id s q)
      \<and> (runs s i \<longrightarrow> pcb_state (process_pool s' i) = MAXRTOS_PROCESS_STATE_READY \<and> queued_in s' i
           \<and> current_id s' ?part = MAXRTOS_INVALID_PROCESS_ID \<and> pcb_release_time (process_pool s' i) = s_current_tick s)"
    if "status = MAXRTOS_OK"
  proof -
    have r': "maxrtos_fault_recovery_restart PTR i s = (MAXRTOS_OK, s')" using r that by simp
    have rec: "recovered i s s' \<and> halted s' = halted s" by (rule restart_recovers[OF k i r'])
    then have "\<forall>q. q \<noteq> ?part \<longrightarrow> current_id s' q = current_id s q" by (auto simp: recovered_def)
    with rec restart_of_running[OF k i _ r'] show ?thesis by blast
  qed
  have ptrs: "hmp = PTR" "tablep = PTR" "outp = PTR" "f \<noteq> MAXRTOS_FAULT_COUNT" using True by blast+
  show ?thesis
  proof (cases "hm_policy hm ?part f")
    case MAXRTOS_HM_ACTION_RESTART_PROCESS
    then have "maxrtos_fault_recovery_handle PTR hm PTR i f PTR s = (status, Some (hm_policy hm ?part f), s')"
      using i policy r by (simp add: maxrtos_fault_recovery_handle_def process_get_eq)
    with MAXRTOS_HM_ACTION_RESTART_PROCESS full fits ok i ptrs show ?thesis by (simp add: Let_def)
  qed (use i policy ptrs k' halt in \<open>simp_all add: maxrtos_fault_recovery_handle_def process_get_eq Let_def\<close>)
qed

lemma fault_handled_by_policy_witness:
  "(case maxrtos_fault_recovery_handle PTR (snd (maxrtos_hm_init PTR \<lparr>hm_policy = \<lambda>_ _. MAXRTOS_HM_ACTION_IGNORE\<rparr>))
      PTR 9 MAXRTOS_FAULT_BUS_ERROR PTR example_state of (status, action, s') \<Rightarrow>
    action = Some MAXRTOS_HM_ACTION_HALT_PARTITION \<and> halted s' (pcb_partition_id (process_pool example_state 9)))
   \<and> (case maxrtos_fault_recovery_handle PTR \<lparr>hm_policy = \<lambda>_ _. MAXRTOS_HM_ACTION_RESTART_PROCESS\<rparr>
      PTR 9 MAXRTOS_FAULT_BUS_ERROR PTR example_state of (status, action, s') \<Rightarrow> status = MAXRTOS_OK \<and> queued_in s' 9)"
proof
  have "hm_policy (snd (maxrtos_hm_init PTR \<lparr>hm_policy = \<lambda>_ _. MAXRTOS_HM_ACTION_IGNORE\<rparr>))
      (pcb_partition_id (process_pool example_state 9)) MAXRTOS_FAULT_BUS_ERROR = MAXRTOS_HM_ACTION_HALT_PARTITION"
    by (simp add: maxrtos_hm_init_def hm_fold_init example_state_def example_pool_def example_pcb_def
        set_fault_types fault_below_count)
  with fault_handled_by_policy[OF example_kernel_inv example_timer_ok, where hmp = PTR and hm = "snd (maxrtos_hm_init PTR \<lparr>hm_policy = \<lambda>_ _. MAXRTOS_HM_ACTION_IGNORE\<rparr>)"
      and tablep = PTR and i = 9 and f = MAXRTOS_FAULT_BUS_ERROR and outp = PTR] example_allocated(2)
  show "case maxrtos_fault_recovery_handle PTR (snd (maxrtos_hm_init PTR \<lparr>hm_policy = \<lambda>_ _. MAXRTOS_HM_ACTION_IGNORE\<rparr>))
      PTR 9 MAXRTOS_FAULT_BUS_ERROR PTR example_state of (status, action, s') \<Rightarrow>
    action = Some MAXRTOS_HM_ACTION_HALT_PARTITION \<and> halted s' (pcb_partition_id (process_pool example_state 9))"
    by (simp add: Let_def split: prod.splits)
  have s: "fst (maxrtos_fault_recovery_handle PTR \<lparr>hm_policy = \<lambda>_ _. MAXRTOS_HM_ACTION_RESTART_PROCESS\<rparr>
      PTR 9 MAXRTOS_FAULT_BUS_ERROR PTR example_state) = MAXRTOS_OK" by code_simp
  have run: "runs example_state 9" by (simp add: runs_def example_state_def exI[of _ 0])
  from fault_handled_by_policy[OF example_kernel_inv example_timer_ok, where hmp = PTR and hm = "\<lparr>hm_policy = \<lambda>_ _. MAXRTOS_HM_ACTION_RESTART_PROCESS\<rparr>"
      and tablep = PTR and i = 9 and f = MAXRTOS_FAULT_BUS_ERROR and outp = PTR] example_allocated(2) s run
  show "case maxrtos_fault_recovery_handle PTR \<lparr>hm_policy = \<lambda>_ _. MAXRTOS_HM_ACTION_RESTART_PROCESS\<rparr>
      PTR 9 MAXRTOS_FAULT_BUS_ERROR PTR example_state of (status, action, s') \<Rightarrow> status = MAXRTOS_OK \<and> queued_in s' 9"
    by (simp add: Let_def split: prod.splits)
qed

subsection \<open>What a tick leaves\<close>

lemma tick_scan_owner:
  assumes inv: "kernel_inv s" "timer_ok s"
  shows "same_owner s (tick_scan PTR now s)"
proof -
  let ?s1 = "snd (maxrtos_ipc_expire_timeouts PTR now s)"
  have o1: "same_owner s ?s1" using config_expiry.expire_inv[of s s PTR now] inv(1) by (simp add: same_config_owner)
  have k1: "kernel_inv ?s1" "timer_ok ?s1" using expire_timer[OF inv, of PTR now] by simp_all
  let ?s2 = "snd (maxrtos_kernel_release_periodic PTR now ?s1)"
  have r: "released_all {i. due_release now ?s1 i} ?s1 ?s2" by (rule release_inv[OF k1])
  have "allocated (process_pool ?s2) i = allocated (process_pool ?s1) i
      \<and> pcb_partition_id (process_pool ?s2 i) = pcb_partition_id (process_pool ?s1 i)
      \<and> stack_of (process_pool ?s2 i) = stack_of (process_pool ?s1 i)" for i
  proof (cases "due_release now ?s1 i")
    case True
    then have "allocated (process_pool ?s1) i" by (simp add: due_release_def)
    with True r show ?thesis by (simp add: released_all_def release_pcb_def released_def allocated_def)
  next
    case False
    with r have "process_pool ?s2 i = process_pool ?s1 i" by (simp add: released_all_def)
    then show ?thesis by (simp add: allocated_def)
  qed
  then have o2: "same_owner ?s1 ?s2" by (simp add: same_owner_def)
  let ?s3 = "snd (maxrtos_kernel_check_deadlines now ?s2)"
  have m: "process_pool ?s3 i = process_pool ?s2 i \<or> (\<exists>d m. process_pool ?s3 i = (process_pool ?s2 i)\<lparr>pcb_deadline_time := d, pcb_deadline_misses := m\<rparr>)" for i
    using check_deadlines_outcome(1)[of now ?s2] unfolding missed_all_def by auto
  have "allocated (process_pool ?s3) i = allocated (process_pool ?s2) i
      \<and> pcb_partition_id (process_pool ?s3 i) = pcb_partition_id (process_pool ?s2 i)
      \<and> stack_of (process_pool ?s3 i) = stack_of (process_pool ?s2 i)" for i
    using m[of i] by (auto simp: allocated_def)
  then have o3: "same_owner ?s2 ?s3" by (simp add: same_owner_def)
  have "tick_scan PTR now s = maxrtos_kernel_timing_refresh_due ?s3" by (simp add: tick_scan_def Let_def)
  moreover have "same_owner ?s3 (maxrtos_kernel_timing_refresh_due ?s3)" by (simp add: same_owner_def)
  ultimately show ?thesis using o1 o2 o3 by (auto intro: same_owner_trans)
qed

lemma select_live:
  assumes "maxrtos_partition_select PTR part PTR yield s = (status, out, s')" "status = MAXRTOS_OK"
  shows "\<not> halted s' part" "halted s' = halted s"
  using assms by (auto simp: maxrtos_partition_select_def upd_ctx_def Let_def split: if_splits prod.splits)

text \<open>A tick of a well-formed frame answers with a process of the slot's partition, or that there is none.\<close>

lemma tick_dispatches:
  assumes inv: "kernel_inv s" "timer_ok s" and un: "uncrowded s" and wf: "frame_wf sched"
    and r: "maxrtos_kernel_on_tick PTR sched PTR PTR s = (status, out, s')"
  defines "part \<equiv> frame_timeline sched ! (unat (s_current_tick s) mod length (frame_timeline sched))"
  shows "kernel_inv s'" "timer_ok s'" "same_owner s s'"
    and "status = MAXRTOS_OK \<Longrightarrow> \<exists>n. out = Some n \<and> runs s' n \<and> pcb_partition_id (process_pool s' n) = part
      \<and> part < of_nat MAXRTOS_MAX_PARTITIONS \<and> current_id s' = (current_id s)(part := n) \<and> \<not> halted s' part"
    and "status \<noteq> MAXRTOS_OK \<Longrightarrow> status \<in> {MAXRTOS_ERR_QUEUE_EMPTY, MAXRTOS_ERR_PARTITION_HALTED}
      \<and> out = None \<and> current_id s' = current_id s \<and> idle_partition s' part"
    and "s_current_tick s' = s_current_tick s + 1" "halted s' = halted s"
proof -
  have f: "maxrtos_frame_partition_at_tick PTR sched (s_current_tick s) PTR = (MAXRTOS_OK, Some part)"
    unfolding part_def by (rule frame_lookup_nth[OF wf])
  have p: "part < of_nat MAXRTOS_MAX_PARTITIONS" unfolding part_def by (rule frame_timeline_partition[OF wf])
  define s1 where "s1 = s\<lparr>s_current_tick := s_current_tick s + 1\<rparr>"
  define s2 where "s2 = (if maxrtos_kernel_timing_is_due (s_current_tick s1) s1 then tick_scan PTR (s_current_tick s1) s1 else s1)"
  have k2: "kernel_inv s2" "timer_ok s2" using tick_step[OF inv] unfolding s2_def s1_def by blast+
  have k1: "kernel_inv s1" "timer_ok s1"
    using inv by (simp_all add: s1_def kernel_inv_def sched_inv_def due_ok_def timer_ok_def queued_in_def)
  have "same_owner s s1" by (simp add: s1_def same_owner_def)
  then have o2: "same_owner s s2" using tick_scan_owner[OF k1] by (auto simp: s2_def intro: same_owner_trans)
  have c2: "current_id s2 = current_id s" using tick_scan_frame(3)[OF k1] by (simp add: s2_def s1_def)
  have sel: "maxrtos_partition_select PTR part PTR False s2 = (status, out, s')"
    using r by (simp add: maxrtos_kernel_on_tick_def f s1_def[symmetric] s2_def[symmetric] Let_def maxrtos_partition_dispatch_def)
  note sc = select_current[OF k2 sel]
  show "kernel_inv s'" "timer_ok s'" "same_owner s s'" using sc(1-3) o2 by (auto intro: same_owner_trans)
  show "\<exists>n. out = Some n \<and> runs s' n \<and> pcb_partition_id (process_pool s' n) = part
      \<and> part < of_nat MAXRTOS_MAX_PARTITIONS \<and> current_id s' = (current_id s)(part := n) \<and> \<not> halted s' part" if "status = MAXRTOS_OK"
    using sc(4)[OF that] c2 select_live[OF sel that] by simp
  show "s_current_tick s' = s_current_tick s + 1" using on_tick_inv[OF inv, of PTR sched PTR] r by simp
  have "halted s2 = halted s" using tick_scan_frame(2)[OF k1] by (simp add: s2_def s1_def)
  then show "halted s' = halted s"
    using select_pool(3)[OF k2(1), where tablep = PTR and part = part and outp = PTR and yield = False] sel by (simp add: only_scheduling_iff)
  show "status \<in> {MAXRTOS_ERR_QUEUE_EMPTY, MAXRTOS_ERR_PARTITION_HALTED} \<and> out = None \<and> current_id s' = current_id s
      \<and> idle_partition s' part"
    if "status \<noteq> MAXRTOS_OK"
    using select_uncrowded[OF k2(1) _ p sel] un uncrowded_owner[OF o2] sc(5)[OF that] c2 that by auto
qed

end
