(* ===== verification/Sampling_Port.thy ===== *)
theory Sampling_Port
  imports Queue_Port
begin

text \<open>
  Inter-partition sampling ports (sampling_port.c): one message, replaced by every write and
  returned by every read without being removed. The partitions that may write and read are bit
  masks; the storage is supplied by the creator.
\<close>

record maxrtos_sampling_port_status_t =
  spst_message_size :: u32
  spst_has_message :: bool

definition upd_sampling_port :: "u32 \<Rightarrow> (maxrtos_sampling_port_t \<Rightarrow> maxrtos_sampling_port_t) \<Rightarrow> kstate \<Rightarrow> kstate" where
  "upd_sampling_port i f s = s\<lparr>s_sampling_port_pool := (s_sampling_port_pool s)(i := f (s_sampling_port_pool s i))\<rparr>"

definition maxrtos_sampling_port_pool_init :: "kstate \<Rightarrow> kstate" where
  "maxrtos_sampling_port_pool_init s =
     fold (\<lambda>i. upd_sampling_port i (\<lambda>p. p\<lparr>sp_in_use := False, sp_writer_mask := 0, sp_reader_mask := 0,
         sp_storage := 0, sp_message_size := 0, sp_has_message := False\<rparr>))
       (ids_below MAXRTOS_MAX_SAMPLING_PORTS) s"

definition maxrtos_sampling_port_for_process ::
    "u32 \<Rightarrow> u32 \<Rightarrow> bool \<Rightarrow> bool \<Rightarrow> kstate \<Rightarrow> maxrtos_sampling_port_t option"
where
  "maxrtos_sampling_port_for_process i pid writing reading s =
     (case get_pcb pid s of
        None \<Rightarrow> None
      | Some pcb \<Rightarrow>
          if pcb_partition_id pcb < of_nat MAXRTOS_MAX_PARTITIONS \<and> i < of_nat MAXRTOS_MAX_SAMPLING_PORTS
             \<and> sp_in_use (s_sampling_port_pool s i) then
            let allowed0 = (if writing then sp_writer_mask (s_sampling_port_pool s i) else 0);
                allowed = (if reading then allowed0 OR sp_reader_mask (s_sampling_port_pool s i) else allowed0)
            in if allowed AND push_bit (unat (pcb_partition_id pcb)) 1 \<noteq> 0 then Some (s_sampling_port_pool s i) else None
          else None)"

definition maxrtos_sampling_port_create ::
    "u32 \<Rightarrow> u32 \<Rightarrow> u32 \<Rightarrow> u32 \<Rightarrow> u32 \<Rightarrow> ptr \<Rightarrow> kstate \<Rightarrow> maxrtos_status \<times> u32 option \<times> kstate"
where
  "maxrtos_sampling_port_create storage storage_size message_size writer_mask reader_mask outp s =
     (if storage \<noteq> 0 \<and> outp \<noteq> NULL \<and> message_size > 0 \<and> storage_size \<ge> message_size \<and> writer_mask \<noteq> 0
         \<and> reader_mask \<noteq> 0 \<and> MAXRTOS_PARTITION_MASK_VALID writer_mask \<and> MAXRTOS_PARTITION_MASK_VALID reader_mask
      then
        (case find (\<lambda>i. \<not> sp_in_use (s_sampling_port_pool s i)) (ids_below MAXRTOS_MAX_SAMPLING_PORTS) of
           None \<Rightarrow> (MAXRTOS_ERR_POOL_FULL, None, s)
         | Some i \<Rightarrow>
             (MAXRTOS_OK, Some i,
              upd_sampling_port i (\<lambda>p. p\<lparr>sp_in_use := True, sp_writer_mask := writer_mask,
                sp_reader_mask := reader_mask, sp_storage := storage, sp_message_size := message_size,
                sp_has_message := False\<rparr>) s))
      else (MAXRTOS_ERR_INVALID_ARG, None, s))"

definition maxrtos_kernel_sampling_port_write :: "u32 \<Rightarrow> u32 \<Rightarrow> u32 \<Rightarrow> u32 \<Rightarrow> kstate \<Rightarrow> maxrtos_status \<times> kstate" where
  "maxrtos_kernel_sampling_port_write i message message_size current s =
     (if message \<noteq> 0 then
        (case maxrtos_sampling_port_for_process i current True False s of
           None \<Rightarrow> (MAXRTOS_ERR_INVALID_ID, s)
         | Some port \<Rightarrow>
             if message_size = sp_message_size port
             then (MAXRTOS_OK, upd_sampling_port i (\<lambda>p. p\<lparr>sp_has_message := True\<rparr>)
                     (s\<lparr>mem := memcpy (mem s) (sp_storage port) message (sp_message_size port)\<rparr>))
             else (MAXRTOS_ERR_INVALID_ARG, s))
      else (MAXRTOS_ERR_INVALID_ARG, s))"

definition maxrtos_kernel_sampling_port_read :: "u32 \<Rightarrow> u32 \<Rightarrow> u32 \<Rightarrow> u32 \<Rightarrow> kstate \<Rightarrow> maxrtos_status \<times> kstate" where
  "maxrtos_kernel_sampling_port_read i out_message buffer_size current s =
     (if out_message \<noteq> 0 then
        (case maxrtos_sampling_port_for_process i current False True s of
           None \<Rightarrow> (MAXRTOS_ERR_INVALID_ID, s)
         | Some port \<Rightarrow>
             if buffer_size < sp_message_size port then (MAXRTOS_ERR_INVALID_ARG, s)
             else if \<not> sp_has_message port then (MAXRTOS_ERR_QUEUE_EMPTY, s)
             else (MAXRTOS_OK, s\<lparr>mem := memcpy (mem s) out_message (sp_storage port) (sp_message_size port)\<rparr>))
      else (MAXRTOS_ERR_INVALID_ARG, s))"

definition maxrtos_kernel_sampling_port_get_status ::
    "u32 \<Rightarrow> u32 \<Rightarrow> ptr \<Rightarrow> kstate \<Rightarrow> maxrtos_status \<times> maxrtos_sampling_port_status_t option"
where
  "maxrtos_kernel_sampling_port_get_status i current outp s =
     (if outp \<noteq> NULL then
        (case maxrtos_sampling_port_for_process i current True True s of
           None \<Rightarrow> (MAXRTOS_ERR_INVALID_ID, None)
         | Some port \<Rightarrow> (MAXRTOS_OK, Some \<lparr>spst_message_size = sp_message_size port,
             spst_has_message = sp_has_message port\<rparr>))
      else (MAXRTOS_ERR_INVALID_ARG, None))"

lemma sampling_port_for_process_eq:
  "maxrtos_sampling_port_for_process i pid writing reading s =
     (let port = s_sampling_port_pool s i; part = pcb_partition_id (process_pool s pid) in
      if allocated (process_pool s) pid \<and> i < of_nat MAXRTOS_MAX_SAMPLING_PORTS \<and> sp_in_use port
         \<and> (writing \<and> in_mask part (sp_writer_mask port) \<or> reading \<and> in_mask part (sp_reader_mask port))
      then Some port else None)"
proof -
  have bits: "bit (a OR b) k \<longleftrightarrow> bit a k \<or> bit b k" for a b :: u32 and k by (simp add: bit_or_iff)
  show ?thesis
    by (auto simp: maxrtos_sampling_port_for_process_def process_get_eq Let_def and_exp_eq_0_iff_not_bit bits in_mask_def)
qed

text \<open>Reading and writing touch message bytes and the port alone; creation only the port.\<close>

lemma sampling_port_inv:
  assumes "kernel_inv s" "pools_ok s"
    and "s' \<in> {snd (maxrtos_kernel_sampling_port_write i m n current s),
      snd (maxrtos_kernel_sampling_port_read i m n current s),
      snd (snd (maxrtos_sampling_port_create storage sz ms wm rm outp s)), maxrtos_sampling_port_pool_init s}"
  shows "kernel_inv s' \<and> pools_ok s' \<and> same_clock s s' \<and> same_config s s'"
proof -
  define P where "P s' \<longleftrightarrow> kernel_inv s' \<and> pools_ok s' \<and> same_clock s s' \<and> same_config s s'" for s'
  have P0: "P s" using assms(1,2) by (simp add: P_def same_clock_def)
  have objs: "object_in_use (t\<lparr>s_sampling_port_pool := x\<rparr>) w = object_in_use t w"
    "object_in_use (t\<lparr>mem := y\<rparr>) w = object_in_use t w" for t x y w
    by (cases w; simp)+
  have step: "P (t\<lparr>s_sampling_port_pool := x\<rparr>) = P t" "P (t\<lparr>mem := y\<rparr>) = P t" for t x y
    by (simp_all add: P_def pools_ok_def objs same_clock_def same_config_def)
  have "P (fold (\<lambda>i. upd_sampling_port i (f i)) is t)" if "P t" for f "is" t
    using that by (induction "is" arbitrary: t) (simp_all add: upd_sampling_port_def step)
  then have init: "P (maxrtos_sampling_port_pool_init s)" using P0 by (simp add: maxrtos_sampling_port_pool_init_def)
  have "P s'"
    using assms(3)
  proof (elim insertE emptyE)
    assume "s' = snd (maxrtos_kernel_sampling_port_write i m n current s)"
    then show ?thesis using P0
      by (simp add: maxrtos_kernel_sampling_port_write_def upd_sampling_port_def step split: option.split)
  next
    assume "s' = snd (maxrtos_kernel_sampling_port_read i m n current s)"
    then show ?thesis using P0 by (simp add: maxrtos_kernel_sampling_port_read_def step split: option.split)
  next
    assume "s' = snd (snd (maxrtos_sampling_port_create storage sz ms wm rm outp s))"
    then show ?thesis using P0
      by (simp add: maxrtos_sampling_port_create_def upd_sampling_port_def step split: option.split)
  qed (use init in simp)
  then show ?thesis by (simp add: P_def)
qed

text \<open>
  C40. Sampling: after a successful write, every permitted reader with a large enough buffer reads
  exactly the bytes written, and reading again gives the same message. A write by a permitted writer
  succeeds exactly if its size is the message size of the port, and is refused with INVALID_ARG for
  every other size; a writer or reader of a partition that is not in the port's set gets INVALID_ID.
  A refused call changes nothing. The reader's buffer is assumed not to overlap the
  port's storage.
\<close>

theorem sampling_port_write_read:
  fixes i :: u32 and s :: kstate
  defines "ms \<equiv> unat (sp_message_size (s_sampling_port_pool s i))"
  assumes "message \<noteq> 0" "out_message \<noteq> 0"
    and "maxrtos_kernel_sampling_port_write i message n writer s = (status, s1)"
    and "apart (sp_storage (s_sampling_port_pool s i)) ms out_message ms"
    and "n \<le> sz"
  shows "(status = MAXRTOS_OK \<and> maxrtos_sampling_port_for_process i reader False True s \<noteq> None \<longrightarrow>
      (case maxrtos_kernel_sampling_port_read i out_message sz reader s1 of (st2, s2) \<Rightarrow>
         st2 = MAXRTOS_OK \<and> mem_read (mem s2) out_message ms = mem_read (mem s) message ms
         \<and> maxrtos_kernel_sampling_port_read i out_message sz reader s2 = (MAXRTOS_OK, s2)))
    \<and> (status \<noteq> MAXRTOS_OK \<longrightarrow> s1 = s)
    \<and> (case maxrtos_sampling_port_for_process i writer True False s of
         None \<Rightarrow> status = MAXRTOS_ERR_INVALID_ID
       | Some port \<Rightarrow> status = (if n = sp_message_size port then MAXRTOS_OK else MAXRTOS_ERR_INVALID_ARG))
    \<and> (maxrtos_sampling_port_for_process i reader False True s = None \<longrightarrow>
      maxrtos_kernel_sampling_port_read i out_message sz reader s = (MAXRTOS_ERR_INVALID_ID, s))"
proof (intro conjI impI; (elim conjE)?)
  let ?p = "s_sampling_port_pool s i"
  show "status \<noteq> MAXRTOS_OK \<Longrightarrow> s1 = s"
    using assms(4) by (auto simp: maxrtos_kernel_sampling_port_write_def split: if_splits option.splits)
  show "case maxrtos_sampling_port_for_process i writer True False s of
         None \<Rightarrow> status = MAXRTOS_ERR_INVALID_ID
       | Some port \<Rightarrow> status = (if n = sp_message_size port then MAXRTOS_OK else MAXRTOS_ERR_INVALID_ARG)"
    using assms(2,4) by (auto simp: maxrtos_kernel_sampling_port_write_def split: option.splits if_splits)
  show "maxrtos_sampling_port_for_process i reader False True s = None \<Longrightarrow>
      maxrtos_kernel_sampling_port_read i out_message sz reader s = (MAXRTOS_ERR_INVALID_ID, s)"
    using assms(3) by (simp add: maxrtos_kernel_sampling_port_read_def)
  assume ok: "status = MAXRTOS_OK" and rd: "maxrtos_sampling_port_for_process i reader False True s \<noteq> None"
  from assms(2,4) ok have w: "n = sp_message_size ?p"
    "s1 = upd_sampling_port i (\<lambda>p. p\<lparr>sp_has_message := True\<rparr>) (s\<lparr>mem := memcpy (mem s) (sp_storage ?p) message n\<rparr>)"
    by (auto simp: maxrtos_kernel_sampling_port_write_def sampling_port_for_process_eq Let_def
      split: if_splits option.splits)
  let ?p1 = "?p\<lparr>sp_has_message := True\<rparr>"
  have r1: "maxrtos_sampling_port_for_process i reader False True s1 = Some ?p1"
    using rd by (auto simp: sampling_port_for_process_eq Let_def w(2) upd_sampling_port_def split: if_splits)
  let ?s2 = "s1\<lparr>mem := memcpy (mem s1) out_message (sp_storage ?p) n\<rparr>"
  have r2: "maxrtos_sampling_port_for_process i reader False True ?s2 = Some ?p1"
    using r1 by (simp add: sampling_port_for_process_eq Let_def)
  have sz: "\<not> sz < sp_message_size ?p1" using assms(6) w(1) by simp
  have ms: "ms = unat n" using w(1) by (simp add: ms_def)
  have m1: "mem s1 = memcpy (mem s) (sp_storage ?p) message n" by (simp add: w(2) upd_sampling_port_def)
  have "mem_read (mem ?s2) out_message ms = mem_read (mem s1) (sp_storage ?p) ms"
    unfolding ms by (simp add: memcpy_read_dst)
  moreover have s1m: "mem_read (mem s1) (sp_storage ?p) ms = mem_read (mem s) message ms"
    unfolding ms m1 by (rule memcpy_read_dst)
  moreover have keep: "mem_read (mem ?s2) (sp_storage ?p) ms = mem_read (mem s1) (sp_storage ?p) ms"
    using assms(5) unfolding ms by (simp add: memcpy_read_apart)
  have "memcpy (mem ?s2) out_message (sp_storage ?p) n = mem ?s2"
    unfolding memcpy_def[of "mem ?s2"] keep[unfolded ms]
    by (rule ext) (simp add: memcpy_def mem_write_def)
  then have "?s2\<lparr>mem := memcpy (mem ?s2) out_message (sp_storage ?p) n\<rparr> = ?s2" by simp
  ultimately show "case maxrtos_kernel_sampling_port_read i out_message sz reader s1 of (st2, s2) \<Rightarrow>
         st2 = MAXRTOS_OK \<and> mem_read (mem s2) out_message ms = mem_read (mem s) message ms
         \<and> maxrtos_kernel_sampling_port_read i out_message sz reader s2 = (MAXRTOS_OK, s2)"
    using assms(3) r1 r2 sz w(1) by (simp add: maxrtos_kernel_sampling_port_read_def)
qed

lemma sampling_port_write_read_witness:
  "\<exists>s1. maxrtos_kernel_sampling_port_write 0 0x20 4 9
       (snd (snd (maxrtos_sampling_port_create 0x10 4 4 1 3 PTR example_state))) = (MAXRTOS_OK, s1)
    \<and> fst (maxrtos_kernel_sampling_port_read 0 0x40 8 2 s1) = MAXRTOS_OK"
proof -
  let ?s = "snd (snd (maxrtos_sampling_port_create 0x10 4 4 1 3 PTR example_state))"
  obtain st s1 where w: "maxrtos_kernel_sampling_port_write 0 0x20 4 9 ?s = (st, s1)" by (rule prod.exhaust)
  have "fst (maxrtos_kernel_sampling_port_write 0 0x20 4 9 ?s) = MAXRTOS_OK" by code_simp
  with w have st: "st = MAXRTOS_OK" by simp
  have p: "sp_message_size (s_sampling_port_pool ?s 0) = 4" "sp_storage (s_sampling_port_pool ?s 0) = 0x10" by code_simp+
  have r: "maxrtos_sampling_port_for_process 0 2 False True ?s \<noteq> None" by code_simp
  have four: "i = 0 \<or> i = 1 \<or> i = 2 \<or> i = 3" if "i < (4 :: nat)" for i using that by linarith
  have ap: "apart (sp_storage (s_sampling_port_pool ?s 0)) (unat (sp_message_size (s_sampling_port_pool ?s 0))) 0x40
      (unat (sp_message_size (s_sampling_port_pool ?s 0)))"
    unfolding p apart_def by (intro allI impI) (simp, drule four, auto)
  from sampling_port_write_read[OF _ _ w ap, where sz = 8 and reader = 2] w st r show ?thesis by (auto split: prod.splits)
qed

end
