(* ===== verification/Svc.thy ===== *)
theory Svc
  imports Arch Room Sampling_Port
begin

text \<open>
  The system-call gate (svc.c): what the SVC exception does on behalf of the process that executed
  the instruction. The arguments are the words of the stacked exception frame, read from memory at
  \<open>stacked_args\<close>; the result goes to its first word, the r0 of the caller. \<open>None\<close> is
  \<open>maxrtos_arch_fatal\<close>, which does not return.
\<close>

datatype maxrtos_svc_number =
    MAXRTOS_SVC_YIELD | MAXRTOS_SVC_QUEUE_SEND | MAXRTOS_SVC_QUEUE_RECEIVE | MAXRTOS_SVC_QUEUE_COUNT
  | MAXRTOS_SVC_PERIODIC_WAIT | MAXRTOS_SVC_MUTEX_LOCK | MAXRTOS_SVC_MUTEX_UNLOCK
  | MAXRTOS_SVC_SEMAPHORE_WAIT | MAXRTOS_SVC_SEMAPHORE_SIGNAL | MAXRTOS_SVC_SEMAPHORE_STATUS
  | MAXRTOS_SVC_BUFFER_SEND | MAXRTOS_SVC_BUFFER_RECEIVE | MAXRTOS_SVC_BUFFER_STATUS
  | MAXRTOS_SVC_TIMED_WAIT | MAXRTOS_SVC_TIME_GET | MAXRTOS_SVC_SAMPLING_WRITE | MAXRTOS_SVC_SAMPLING_READ

text \<open>The constants of the enumeration, in their order.\<close>

definition svc_numbers :: "maxrtos_svc_number list" where
  "svc_numbers = [MAXRTOS_SVC_YIELD, MAXRTOS_SVC_QUEUE_SEND, MAXRTOS_SVC_QUEUE_RECEIVE, MAXRTOS_SVC_QUEUE_COUNT,
     MAXRTOS_SVC_PERIODIC_WAIT, MAXRTOS_SVC_MUTEX_LOCK, MAXRTOS_SVC_MUTEX_UNLOCK, MAXRTOS_SVC_SEMAPHORE_WAIT,
     MAXRTOS_SVC_SEMAPHORE_SIGNAL, MAXRTOS_SVC_SEMAPHORE_STATUS, MAXRTOS_SVC_BUFFER_SEND,
     MAXRTOS_SVC_BUFFER_RECEIVE, MAXRTOS_SVC_BUFFER_STATUS, MAXRTOS_SVC_TIMED_WAIT, MAXRTOS_SVC_TIME_GET,
     MAXRTOS_SVC_SAMPLING_WRITE, MAXRTOS_SVC_SAMPLING_READ]"

abbreviation (input) MAXRTOS_SVC_COUNT :: nat where "MAXRTOS_SVC_COUNT \<equiv> 17"

subsection \<open>Arguments, results and the caller\<close>

text \<open>\<open>stacked_args[ i ]\<close>, and \<open>stacked_args[ 0 ] = w\<close>.\<close>

definition stacked_arg :: "u32 \<Rightarrow> u32 \<Rightarrow> arch \<Rightarrow> u32" where
  "stacked_arg sp i a = load_word (mem (kern a)) (sp + 4 * i)"

definition set_result :: "u32 \<Rightarrow> u32 \<Rightarrow> arch \<Rightarrow> arch" where
  "set_result sp w a = upd_mem (\<lambda>m. store_word m sp w) a"

text \<open>
  The test every kernel call begins with: there must be a current control block and a partition
  table. \<open>f\<close> is the call proper, on the control block.
\<close>

definition with_caller :: "arch \<Rightarrow> (pcb \<Rightarrow> maxrtos_status \<times> u32 \<times> arch) \<Rightarrow> maxrtos_status \<times> u32 \<times> arch" where
  "with_caller a f =
     (case maxrtos_arch_get_current_pcb a of
        None \<Rightarrow> (MAXRTOS_ERR_INVALID_STATE, MAXRTOS_INVALID_PROCESS_ID, a)
      | Some r \<Rightarrow> if s_table a = NULL then (MAXRTOS_ERR_INVALID_STATE, MAXRTOS_INVALID_PROCESS_ID, a) else f (pcb_at r a))"

text \<open>A kernel call that may name a next process, and one that does not.\<close>

definition kernel_call ::
    "(kstate \<Rightarrow> maxrtos_status \<times> u32 option \<times> kstate) \<Rightarrow> arch \<Rightarrow> maxrtos_status \<times> u32 \<times> arch" where
  "kernel_call f a =
     (case f (kern a) of (status, out, k) \<Rightarrow> (status, out_val MAXRTOS_INVALID_PROCESS_ID out, a\<lparr>kern := k\<rparr>))"

definition kernel_call_plain :: "(kstate \<Rightarrow> maxrtos_status \<times> kstate) \<Rightarrow> arch \<Rightarrow> maxrtos_status \<times> u32 \<times> arch" where
  "kernel_call_plain f a = (case f (kern a) of (status, k) \<Rightarrow> (status, MAXRTOS_INVALID_PROCESS_ID, a\<lparr>kern := k\<rparr>))"

definition caller_owns :: "pcb \<Rightarrow> u32 \<Rightarrow> u32 \<Rightarrow> arch \<Rightarrow> bool" where
  "caller_owns pcb address sz a \<longleftrightarrow>
     maxrtos_arch_mpu_partition_owns_range (pcb_partition_id pcb) address sz (mpu_unit a)"

text \<open>The next process runs after the exception: \<open>set_next_pcb\<close> and \<open>request_context_switch\<close>.\<close>

definition switch_to :: "pcb_ref option \<Rightarrow> arch \<Rightarrow> arch" where
  "switch_to r a = maxrtos_arch_request_context_switch (maxrtos_arch_set_next_pcb r a)"

text \<open>The call stored its status in the r0 of the caller.\<close>

definition svc_return :: "u32 \<Rightarrow> maxrtos_status \<times> u32 \<times> arch \<Rightarrow> arch option" where
  "svc_return sp r = (case r of (status, _, a) \<Rightarrow> Some (set_result sp (status_code status) a))"

definition maxrtos_arch_svc_finish_ipc :: "u32 \<Rightarrow> maxrtos_status \<Rightarrow> u32 \<Rightarrow> arch \<Rightarrow> arch option" where
  "maxrtos_arch_svc_finish_ipc sp status next_id a =
     (if status = MAXRTOS_PENDING then
        (case process_ref next_id a of
           None \<Rightarrow> None
         | Some r \<Rightarrow> Some (switch_to (Some r) a))
      else Some (set_result sp (status_code status) a))"

definition maxrtos_arch_svc_finish_wait :: "u32 \<Rightarrow> maxrtos_status \<Rightarrow> u32 \<Rightarrow> arch \<Rightarrow> arch option" where
  "maxrtos_arch_svc_finish_wait sp status next_id a =
     (if status = MAXRTOS_PENDING then
        (case (if next_id = MAXRTOS_INVALID_PROCESS_ID then maxrtos_arch_idle_pcb else process_ref next_id a) of
           None \<Rightarrow> None
         | Some r \<Rightarrow> Some (switch_to (Some r) a))
      else Some (set_result sp (status_code status) a))"

subsection \<open>Yielding, and preemption of the caller\<close>

definition maxrtos_arch_svc_yield :: "u32 \<Rightarrow> arch \<Rightarrow> arch option" where
  "maxrtos_arch_svc_yield sp a =
     (case maxrtos_arch_get_current_pcb a of
        None \<Rightarrow> Some a
      | Some r \<Rightarrow>
          (case maxrtos_kernel_yield (s_table a) (pcb_partition_id (pcb_at r a)) (pcb_id (pcb_at r a)) PTR PTR (kern a) of
             (status, out, k) \<Rightarrow>
               let a1 = a\<lparr>kern := k\<rparr> in
               if status = MAXRTOS_OK then
                 (case out of
                    Some (next_id, True) \<Rightarrow>
                      (case process_ref next_id a1 of None \<Rightarrow> Some a1 | Some n \<Rightarrow> Some (switch_to (Some n) a1))
                  | _ \<Rightarrow> Some a1)
               else Some a1))"

definition maxrtos_arch_svc_preempt_check :: "arch \<Rightarrow> arch" where
  "maxrtos_arch_svc_preempt_check a =
     (case maxrtos_arch_get_current_pcb a of
        None \<Rightarrow> a
      | Some r \<Rightarrow>
          let caller = pcb_at r a; part = pcb_partition_id caller in
          if s_table a \<noteq> NULL \<and> pcb_state caller = MAXRTOS_PROCESS_STATE_RUNNING \<and> part < of_nat MAXRTOS_MAX_PARTITIONS
             \<and> maxrtos_scheduler_has_higher PTR (pcb_priority caller) (scheduler_ctx (kern a) part)
          then
            (case maxrtos_partition_dispatch (s_table a) part PTR (kern a) of
               (status, out, k) \<Rightarrow>
                 let a1 = a\<lparr>kern := k\<rparr>; next_id = out_val MAXRTOS_INVALID_PROCESS_ID out in
                 if status = MAXRTOS_OK \<and> next_id \<noteq> pcb_id (pcb_at r a1) then
                   (case process_ref next_id a1 of None \<Rightarrow> a1 | Some n \<Rightarrow> switch_to (Some n) a1)
                 else a1)
          else a)"

subsection \<open>Queuing ports, buffers and sampling ports\<close>

definition maxrtos_arch_svc_queue_send :: "u32 \<Rightarrow> arch \<Rightarrow> arch option" where
  "maxrtos_arch_svc_queue_send sp a =
     (let port_id = stacked_arg sp 0 a; message_address = stacked_arg sp 1 a; message_size = stacked_arg sp 2 a;
          timeout = stacked_arg sp 3 a;
          (status, next_id, a1) = with_caller a (\<lambda>pcb.
            if \<not> caller_owns pcb message_address message_size a
            then (MAXRTOS_ERR_INVALID_ARG, MAXRTOS_INVALID_PROCESS_ID, a)
            else kernel_call (maxrtos_kernel_queue_port_send port_id message_address message_size timeout
                   (s_table a) (pcb_id pcb) PTR) a)
      in maxrtos_arch_svc_finish_ipc sp status next_id a1)"

definition maxrtos_arch_svc_queue_receive :: "u32 \<Rightarrow> arch \<Rightarrow> arch option" where
  "maxrtos_arch_svc_queue_receive sp a =
     (let port_id = stacked_arg sp 0 a; buffer_address = stacked_arg sp 1 a; buffer_size = stacked_arg sp 2 a;
          timeout = stacked_arg sp 3 a;
          (status, next_id, a1) = with_caller a (\<lambda>pcb.
            if \<not> caller_owns pcb buffer_address buffer_size a
            then (MAXRTOS_ERR_INVALID_ARG, MAXRTOS_INVALID_PROCESS_ID, a)
            else kernel_call (maxrtos_kernel_queue_port_receive port_id buffer_address buffer_size timeout
                   (s_table a) (pcb_id pcb) PTR) a)
      in maxrtos_arch_svc_finish_ipc sp status next_id a1)"

definition maxrtos_arch_svc_queue_count :: "u32 \<Rightarrow> arch \<Rightarrow> arch option" where
  "maxrtos_arch_svc_queue_count sp a =
     (case maxrtos_arch_get_current_pcb a of
        Some r \<Rightarrow> Some (set_result sp (maxrtos_kernel_queue_port_count (stacked_arg sp 0 a) (pcb_id (pcb_at r a)) (kern a)) a)
      | None \<Rightarrow> Some (set_result sp 0 a))"

definition maxrtos_arch_svc_buffer_send :: "u32 \<Rightarrow> arch \<Rightarrow> arch option" where
  "maxrtos_arch_svc_buffer_send sp a =
     (let buffer_id = stacked_arg sp 0 a; message_address = stacked_arg sp 1 a; message_size = stacked_arg sp 2 a;
          timeout = stacked_arg sp 3 a;
          (status, next_id, a1) = with_caller a (\<lambda>pcb.
            if \<not> caller_owns pcb message_address message_size a
            then (MAXRTOS_ERR_INVALID_ARG, MAXRTOS_INVALID_PROCESS_ID, a)
            else kernel_call (maxrtos_kernel_buffer_send buffer_id message_address message_size timeout
                   (s_table a) (pcb_id pcb) PTR) a)
      in maxrtos_arch_svc_finish_ipc sp status next_id a1)"

definition maxrtos_arch_svc_buffer_receive :: "u32 \<Rightarrow> arch \<Rightarrow> arch option" where
  "maxrtos_arch_svc_buffer_receive sp a =
     (let buffer_id = stacked_arg sp 0 a; buffer_address = stacked_arg sp 1 a; buffer_size = stacked_arg sp 2 a;
          timeout = stacked_arg sp 3 a;
          (status, next_id, a1) = with_caller a (\<lambda>pcb.
            if \<not> caller_owns pcb buffer_address buffer_size a
            then (MAXRTOS_ERR_INVALID_ARG, MAXRTOS_INVALID_PROCESS_ID, a)
            else kernel_call (maxrtos_kernel_buffer_receive buffer_id buffer_address buffer_size timeout
                   (s_table a) (pcb_id pcb) PTR) a)
      in maxrtos_arch_svc_finish_ipc sp status next_id a1)"

text \<open>A sampling call needs no partition table: nothing is scheduled.\<close>

definition with_process :: "arch \<Rightarrow> (pcb \<Rightarrow> maxrtos_status \<times> u32 \<times> arch) \<Rightarrow> maxrtos_status \<times> u32 \<times> arch" where
  "with_process a f =
     (case maxrtos_arch_get_current_pcb a of
        None \<Rightarrow> (MAXRTOS_ERR_INVALID_STATE, MAXRTOS_INVALID_PROCESS_ID, a)
      | Some r \<Rightarrow> f (pcb_at r a))"

definition maxrtos_arch_svc_sampling_write :: "u32 \<Rightarrow> arch \<Rightarrow> arch option" where
  "maxrtos_arch_svc_sampling_write sp a =
     (let message_address = stacked_arg sp 1 a; message_size = stacked_arg sp 2 a in
      svc_return sp (with_process a (\<lambda>pcb.
        if \<not> caller_owns pcb message_address message_size a
        then (MAXRTOS_ERR_INVALID_ARG, MAXRTOS_INVALID_PROCESS_ID, a)
        else kernel_call_plain (maxrtos_kernel_sampling_port_write (stacked_arg sp 0 a) message_address message_size (pcb_id pcb)) a)))"

definition maxrtos_arch_svc_sampling_read :: "u32 \<Rightarrow> arch \<Rightarrow> arch option" where
  "maxrtos_arch_svc_sampling_read sp a =
     (let buffer_address = stacked_arg sp 1 a; buffer_size = stacked_arg sp 2 a in
      svc_return sp (with_process a (\<lambda>pcb.
        if \<not> caller_owns pcb buffer_address buffer_size a
        then (MAXRTOS_ERR_INVALID_ARG, MAXRTOS_INVALID_PROCESS_ID, a)
        else kernel_call_plain (maxrtos_kernel_sampling_port_read (stacked_arg sp 0 a) buffer_address buffer_size (pcb_id pcb)) a)))"

subsection \<open>Time, mutexes and semaphores\<close>

definition maxrtos_arch_svc_periodic_wait :: "u32 \<Rightarrow> arch \<Rightarrow> arch option" where
  "maxrtos_arch_svc_periodic_wait sp a =
     (case with_caller a (\<lambda>pcb. kernel_call (maxrtos_kernel_periodic_wait (s_table a) (pcb_id pcb) PTR) a) of
        (status, next_id, a1) \<Rightarrow> maxrtos_arch_svc_finish_wait sp status next_id a1)"

definition maxrtos_arch_svc_timed_wait :: "u32 \<Rightarrow> arch \<Rightarrow> arch option" where
  "maxrtos_arch_svc_timed_wait sp a =
     (let delay_ticks = stacked_arg sp 0 a in
      case with_caller a (\<lambda>pcb. kernel_call (maxrtos_kernel_timed_wait (s_table a) (pcb_id pcb) delay_ticks PTR) a) of
        (status, next_id, a1) \<Rightarrow>
          (case maxrtos_arch_svc_finish_wait sp status next_id a1 of
             None \<Rightarrow> None
           | Some a2 \<Rightarrow> if status = MAXRTOS_OK \<and> delay_ticks = 0 then maxrtos_arch_svc_yield sp a2 else Some a2))"

definition maxrtos_arch_svc_time_get :: "u32 \<Rightarrow> arch \<Rightarrow> arch option" where
  "maxrtos_arch_svc_time_get sp a = Some (set_result sp (maxrtos_kernel_tick_now (kern a)) a)"

definition maxrtos_arch_svc_mutex_lock :: "u32 \<Rightarrow> arch \<Rightarrow> arch option" where
  "maxrtos_arch_svc_mutex_lock sp a =
     (case with_caller a (\<lambda>pcb. kernel_call (maxrtos_kernel_mutex_lock (stacked_arg sp 0 a) (stacked_arg sp 1 a)
             (s_table a) (pcb_id pcb) PTR) a) of
        (status, next_id, a1) \<Rightarrow> maxrtos_arch_svc_finish_ipc sp status next_id a1)"

definition maxrtos_arch_svc_mutex_unlock :: "u32 \<Rightarrow> arch \<Rightarrow> arch option" where
  "maxrtos_arch_svc_mutex_unlock sp a =
     svc_return sp (with_caller a (\<lambda>pcb.
       kernel_call_plain (maxrtos_kernel_mutex_unlock (stacked_arg sp 0 a) (s_table a) (pcb_id pcb)) a))"

definition maxrtos_arch_svc_semaphore_wait :: "u32 \<Rightarrow> arch \<Rightarrow> arch option" where
  "maxrtos_arch_svc_semaphore_wait sp a =
     (case with_caller a (\<lambda>pcb. kernel_call (maxrtos_kernel_semaphore_wait (stacked_arg sp 0 a) (stacked_arg sp 1 a)
             (s_table a) (pcb_id pcb) PTR) a) of
        (status, next_id, a1) \<Rightarrow> maxrtos_arch_svc_finish_ipc sp status next_id a1)"

definition maxrtos_arch_svc_semaphore_signal :: "u32 \<Rightarrow> arch \<Rightarrow> arch option" where
  "maxrtos_arch_svc_semaphore_signal sp a =
     svc_return sp (with_caller a (\<lambda>pcb.
       kernel_call_plain (maxrtos_kernel_semaphore_signal (stacked_arg sp 0 a) (s_table a) (pcb_id pcb)) a))"

subsection \<open>Status queries\<close>

text \<open>The status structures are written word by word, in the order of their fields.\<close>

definition write_words :: "u32 \<Rightarrow> u32 list \<Rightarrow> memory \<Rightarrow> memory" where
  "write_words addr ws m = snd (fold (\<lambda>w (p, m). (p + 4, store_word m p w)) ws (addr, m))"

definition address_ptr :: "u32 \<Rightarrow> ptr" where
  "address_ptr addr = (if addr = 0 then NULL else PTR)"

definition maxrtos_arch_svc_buffer_status :: "u32 \<Rightarrow> arch \<Rightarrow> arch option" where
  "maxrtos_arch_svc_buffer_status sp a =
     (let out_address = stacked_arg sp 1 a in
      svc_return sp (with_process a (\<lambda>pcb.
        if out_address mod 4 \<noteq> 0 \<or> \<not> caller_owns pcb out_address 16 a
        then (MAXRTOS_ERR_INVALID_ARG, MAXRTOS_INVALID_PROCESS_ID, a)
        else
          (case maxrtos_kernel_buffer_get_status (stacked_arg sp 0 a) (pcb_id pcb) (address_ptr out_address) (kern a) of
             (status, Some st) \<Rightarrow>
               (status, MAXRTOS_INVALID_PROCESS_ID, upd_mem (write_words out_address
                  [bst_max_message_size st, bst_max_nb_message st, bst_nb_message st, bst_waiting_processes st]) a)
           | (status, None) \<Rightarrow> (status, MAXRTOS_INVALID_PROCESS_ID, a)))))"

definition maxrtos_arch_svc_semaphore_status :: "u32 \<Rightarrow> arch \<Rightarrow> arch option" where
  "maxrtos_arch_svc_semaphore_status sp a =
     (let out_address = stacked_arg sp 1 a in
      svc_return sp (with_process a (\<lambda>pcb.
        if out_address mod 4 \<noteq> 0 \<or> \<not> caller_owns pcb out_address 12 a
        then (MAXRTOS_ERR_INVALID_ARG, MAXRTOS_INVALID_PROCESS_ID, a)
        else
          (case maxrtos_kernel_semaphore_get_status (stacked_arg sp 0 a) (pcb_id pcb) (address_ptr out_address) (kern a) of
             (status, Some st) \<Rightarrow>
               (status, MAXRTOS_INVALID_PROCESS_ID, upd_mem (write_words out_address
                  [sst_current_value st, sst_maximum_value st, sst_waiting st]) a)
           | (status, None) \<Rightarrow> (status, MAXRTOS_INVALID_PROCESS_ID, a)))))"

subsection \<open>Dispatch\<close>

fun svc_handler :: "maxrtos_svc_number \<Rightarrow> u32 \<Rightarrow> arch \<Rightarrow> arch option" where
  "svc_handler MAXRTOS_SVC_YIELD = maxrtos_arch_svc_yield"
| "svc_handler MAXRTOS_SVC_QUEUE_SEND = maxrtos_arch_svc_queue_send"
| "svc_handler MAXRTOS_SVC_QUEUE_RECEIVE = maxrtos_arch_svc_queue_receive"
| "svc_handler MAXRTOS_SVC_QUEUE_COUNT = maxrtos_arch_svc_queue_count"
| "svc_handler MAXRTOS_SVC_PERIODIC_WAIT = maxrtos_arch_svc_periodic_wait"
| "svc_handler MAXRTOS_SVC_MUTEX_LOCK = maxrtos_arch_svc_mutex_lock"
| "svc_handler MAXRTOS_SVC_MUTEX_UNLOCK = maxrtos_arch_svc_mutex_unlock"
| "svc_handler MAXRTOS_SVC_SEMAPHORE_WAIT = maxrtos_arch_svc_semaphore_wait"
| "svc_handler MAXRTOS_SVC_SEMAPHORE_SIGNAL = maxrtos_arch_svc_semaphore_signal"
| "svc_handler MAXRTOS_SVC_SEMAPHORE_STATUS = maxrtos_arch_svc_semaphore_status"
| "svc_handler MAXRTOS_SVC_BUFFER_SEND = maxrtos_arch_svc_buffer_send"
| "svc_handler MAXRTOS_SVC_BUFFER_RECEIVE = maxrtos_arch_svc_buffer_receive"
| "svc_handler MAXRTOS_SVC_BUFFER_STATUS = maxrtos_arch_svc_buffer_status"
| "svc_handler MAXRTOS_SVC_TIMED_WAIT = maxrtos_arch_svc_timed_wait"
| "svc_handler MAXRTOS_SVC_TIME_GET = maxrtos_arch_svc_time_get"
| "svc_handler MAXRTOS_SVC_SAMPLING_WRITE = maxrtos_arch_svc_sampling_write"
| "svc_handler MAXRTOS_SVC_SAMPLING_READ = maxrtos_arch_svc_sampling_read"

definition maxrtos_arch_svc_dispatch :: "u32 \<Rightarrow> u8 \<Rightarrow> arch \<Rightarrow> arch option" where
  "maxrtos_arch_svc_dispatch stacked_args svc_number a =
     (if stacked_args = 0 \<or> unat svc_number \<ge> MAXRTOS_SVC_COUNT then None
      else
        let number = svc_numbers ! unat svc_number in
        (case svc_handler number stacked_args a of
           None \<Rightarrow> None
         | Some a1 \<Rightarrow>
             if number \<notin> {MAXRTOS_SVC_YIELD, MAXRTOS_SVC_TIME_GET, MAXRTOS_SVC_SAMPLING_WRITE, MAXRTOS_SVC_SAMPLING_READ}
             then Some (maxrtos_arch_svc_preempt_check a1) else Some a1))"

subsection \<open>Who has the processor after a call\<close>

text \<open>
  The context the processor runs once a requested switch is done, and the context of a process
  identifier, the idle context standing for none.
\<close>

definition cpu_pcb :: "arch \<Rightarrow> pcb_ref option" where
  "cpu_pcb a = (if pendsv a then g_maxrtos_next_pcb a else g_maxrtos_current_pcb a)"

definition context_of :: "u32 \<Rightarrow> pcb_ref option" where
  "context_of i = (if i = MAXRTOS_INVALID_PROCESS_ID then Some Idle_Pcb else Some (Process_Pcb i))"

definition kernel_ok :: "arch \<Rightarrow> bool" where
  "kernel_ok a \<longleftrightarrow> kernel_inv (kern a) \<and> timer_ok (kern a)"

text \<open>Only the kernel state and the requested switch changed.\<close>

definition only_kernel :: "arch \<Rightarrow> arch \<Rightarrow> bool" where
  "only_kernel a a' \<longleftrightarrow> a' = a\<lparr>kern := kern a', g_maxrtos_next_pcb := g_maxrtos_next_pcb a', pendsv := pendsv a'\<rparr>"

text \<open>
  A step of the system call of a process of partition \<open>part\<close>: it leaves the processor to the current
  process of that partition, or to none if the caller waits for time, and the current processes of the others alone.
\<close>

definition svc_step :: "u32 \<Rightarrow> arch \<Rightarrow> arch \<Rightarrow> bool" where
  "svc_step part a a' \<longleftrightarrow> kernel_ok a' \<and> only_kernel a a' \<and> same_owner (kern a) (kern a')
     \<and> cpu_pcb a' = context_of (current_id (kern a') part)
     \<and> (current_id (kern a') part = MAXRTOS_INVALID_PROCESS_ID \<longrightarrow>
          parked (kern a') (current_id (kern a) part))
     \<and> (\<forall>q. q \<noteq> part \<longrightarrow> current_id (kern a') q = current_id (kern a) q)"

lemma only_kernel_iff:
  "only_kernel a a' \<longleftrightarrow> g_maxrtos_current_pcb a' = g_maxrtos_current_pcb a \<and> s_idle_pcb a' = s_idle_pcb a
    \<and> s_partition_privileged a' = s_partition_privileged a \<and> control a' = control a \<and> mpu_unit a' = mpu_unit a
    \<and> s_hm a' = s_hm a \<and> s_table a' = s_table a \<and> s_frame_schedule a' = s_frame_schedule a
    \<and> s_partition_table a' = s_partition_table a \<and> process_return_trap a' = process_return_trap a
    \<and> idle_entry a' = idle_entry a \<and> s_idle_stack a' = s_idle_stack a"
  unfolding only_kernel_def by (cases a, cases a') auto

lemma only_kernel_trans: "only_kernel a b \<Longrightarrow> only_kernel b c \<Longrightarrow> only_kernel a c"
  by (simp add: only_kernel_iff)

lemma only_kernel_simps [simp]:
  "only_kernel a a" "only_kernel a (a'\<lparr>kern := k\<rparr>) = only_kernel a a'" "only_kernel a (switch_to r a') = only_kernel a a'"
  "only_kernel a (set_result sp w a') = only_kernel a a'" "only_kernel a (upd_mem f a') = only_kernel a a'"
  by (simp_all add: only_kernel_iff switch_to_def set_result_def upd_mem_def maxrtos_arch_request_context_switch_def
      maxrtos_arch_set_next_pcb_def)

lemma kernel_ok_simps [simp]: "kernel_ok (upd_mem f a) = kernel_ok a" "kernel_ok (set_result sp w a) = kernel_ok a"
  "kernel_ok (switch_to r a) = kernel_ok a"
  by (simp_all add: kernel_ok_def set_result_def upd_mem_def switch_to_def maxrtos_arch_request_context_switch_def
      maxrtos_arch_set_next_pcb_def)

lemma cpu_pcb_simps [simp]: "cpu_pcb (upd_mem f a) = cpu_pcb a" "cpu_pcb (set_result sp w a) = cpu_pcb a"
  "cpu_pcb (switch_to r a) = r" "cpu_pcb (a\<lparr>kern := k\<rparr>) = cpu_pcb a"
  by (simp_all add: cpu_pcb_def set_result_def upd_mem_def switch_to_def maxrtos_arch_request_context_switch_def
      maxrtos_arch_set_next_pcb_def)

lemma current_id_simps [simp]: "current_id (kern (upd_mem f a)) = current_id (kern a)"
  "current_id (kern (set_result sp w a)) = current_id (kern a)" "kern (switch_to r a) = kern a"
  "process_pool (kern (upd_mem f a)) = process_pool (kern a)" "process_pool (kern (set_result sp w a)) = process_pool (kern a)"
  by (simp_all add: set_result_def upd_mem_def switch_to_def maxrtos_arch_request_context_switch_def
      maxrtos_arch_set_next_pcb_def)

lemma same_owner_upd [simp]: "same_owner s (kern (upd_mem f a)) = same_owner s (kern a)"
  "same_owner s (kern (set_result sp w a)) = same_owner s (kern a)"
  by (simp_all add: same_owner_def)

text \<open>A process that calls: it is on the processor and RUNNING, and no switch is pending.\<close>

definition calling :: "u32 \<Rightarrow> arch \<Rightarrow> bool" where
  "calling i a \<longleftrightarrow> kernel_ok a \<and> \<not> pendsv a \<and> g_maxrtos_current_pcb a = Some (Process_Pcb i) \<and> runs (kern a) i \<and> s_table a = PTR"

abbreviation partition_of :: "u32 \<Rightarrow> arch \<Rightarrow> u32" where
  "partition_of i a \<equiv> pcb_partition_id (process_pool (kern a) i)"

lemma callingD:
  assumes "calling i a"
  shows "allocated (process_pool (kern a)) i" "i \<noteq> MAXRTOS_INVALID_PROCESS_ID" "pcb_id (process_pool (kern a) i) = i"
    "partition_of i a < of_nat MAXRTOS_MAX_PARTITIONS" "current_id (kern a) (partition_of i a) = i"
    "cpu_pcb a = Some (Process_Pcb i)" "pcb_at (Process_Pcb i) a = process_pool (kern a) i"
    "kernel_inv (kern a)" "timer_ok (kern a)"
proof -
  have k: "kernel_inv (kern a)" using assms by (simp add: calling_def kernel_ok_def)
  note ok = kernel_invD(1)[OF k] and ok' = kernel_invD(1)[OF k, unfolded sched_inv_def]
  show a: "allocated (process_pool (kern a)) i" using assms runs_iff[OF ok] by (simp add: calling_def)
  then show "i \<noteq> MAXRTOS_INVALID_PROCESS_ID" by auto
  show "pcb_id (process_pool (kern a) i) = i" using sched_okD(4)[OF ok' a] .
  show "partition_of i a < of_nat MAXRTOS_MAX_PARTITIONS" using sched_okD(1)[OF ok' a] by (simp add: pcb_ok_def)
  show "current_id (kern a) (partition_of i a) = i" using assms runs_current[OF ok] by (simp add: calling_def)
  show "cpu_pcb a = Some (Process_Pcb i)" "pcb_at (Process_Pcb i) a = process_pool (kern a) i"
    "kernel_inv (kern a)" "timer_ok (kern a)"
    using assms by (simp_all add: calling_def cpu_pcb_def pcb_at_def kernel_ok_def)
qed

lemma with_caller_eq: "calling i a \<Longrightarrow> with_caller a f = f (process_pool (kern a) i)"
  by (simp add: with_caller_def calling_def maxrtos_arch_get_current_pcb_def pcb_at_def)

lemma with_process_eq: "calling i a \<Longrightarrow> with_process a f = f (process_pool (kern a) i)"
  by (simp add: with_process_def calling_def maxrtos_arch_get_current_pcb_def pcb_at_def)

lemma process_ref_runs: "kernel_inv (kern a) \<Longrightarrow> runs (kern a) n \<Longrightarrow> process_ref n a = Some (Process_Pcb n)"
  using runs_iff[OF kernel_invD(1)] by (simp add: process_ref_def process_get_eq)

lemma svc_step_refl:
  assumes "calling i a"
  shows "svc_step (partition_of i a) a a" "svc_step (partition_of i a) a (set_result sp w a)"
    "svc_step (partition_of i a) a (set_result sp w (upd_mem f a))"
  using assms callingD[OF assms] by (simp_all add: svc_step_def calling_def context_of_def)

text \<open>The end of a call that may block.\<close>

lemma finish_served:
  assumes c: "calling i a" and s: "served (kern a) i status out k"
  defines "a1 \<equiv> a\<lparr>kern := k\<rparr>" and "n \<equiv> out_val MAXRTOS_INVALID_PROCESS_ID out"
  shows "\<exists>a'. maxrtos_arch_svc_finish_wait sp status n a1 = Some a' \<and> svc_step (partition_of i a) a a'
      \<and> (status \<noteq> MAXRTOS_PENDING \<longrightarrow> a' = set_result sp (status_code status) a1)"
    and "status = MAXRTOS_PENDING \<longrightarrow> (\<exists>n. out = Some n \<and> n \<noteq> MAXRTOS_INVALID_PROCESS_ID) \<Longrightarrow>
      \<exists>a'. maxrtos_arch_svc_finish_ipc sp status n a1 = Some a' \<and> svc_step (partition_of i a) a a'"
proof -
  let ?p = "partition_of i a"
  note d = callingD[OF c]
  have k: "kernel_ok a1" "same_owner (kern a) (kern a1)" using s by (simp_all add: served_def a1_def kernel_ok_def)
  have r: "process_ref n a1 = Some (Process_Pcb n)" if "status = MAXRTOS_PENDING" "n \<noteq> MAXRTOS_INVALID_PROCESS_ID"
  proof (rule process_ref_runs)
    show "kernel_inv (kern a1)" using k by (simp add: kernel_ok_def)
    have "current_id (kern a1) = (current_id (kern a))(?p := n)" using s that(1) by (simp add: served_def a1_def n_def)
    from runs_switched(1)[OF this d(4) that(2)] show "runs (kern a1) n" .
  qed
  have step: "svc_step ?p a (switch_to (context_of n) a1)" if "status = MAXRTOS_PENDING"
    using that s k d(5) by (simp add: svc_step_def a1_def n_def served_def)
  have keep: "svc_step ?p a (set_result sp (status_code status) a1)" if "status \<noteq> MAXRTOS_PENDING"
    using that s k d(2,5,6) by (simp add: svc_step_def a1_def served_def context_of_def)
  show "\<exists>a'. maxrtos_arch_svc_finish_wait sp status n a1 = Some a' \<and> svc_step ?p a a'
      \<and> (status \<noteq> MAXRTOS_PENDING \<longrightarrow> a' = set_result sp (status_code status) a1)"
    using r step keep by (cases "n = MAXRTOS_INVALID_PROCESS_ID")
      (auto simp: maxrtos_arch_svc_finish_wait_def maxrtos_arch_idle_pcb_def context_of_def)
  show "\<exists>a'. maxrtos_arch_svc_finish_ipc sp status n a1 = Some a' \<and> svc_step ?p a a'"
    if "status = MAXRTOS_PENDING \<longrightarrow> (\<exists>n. out = Some n \<and> n \<noteq> MAXRTOS_INVALID_PROCESS_ID)"
    using r step keep that by (auto simp: maxrtos_arch_svc_finish_ipc_def context_of_def n_def)
qed

lemma svc_step_trans:
  "svc_step p a b \<Longrightarrow> svc_step p b c \<Longrightarrow> current_id (kern b) p = current_id (kern a) p \<Longrightarrow> svc_step p a c"
  by (auto simp: svc_step_def intro: only_kernel_trans same_owner_trans)

lemma calling_served:
  assumes c: "calling i a" and s: "served (kern a) i status out k" "status \<noteq> MAXRTOS_PENDING"
  shows "calling i (set_result sp w (a\<lparr>kern := k\<rparr>))" "partition_of i (set_result sp w (a\<lparr>kern := k\<rparr>)) = partition_of i a"
proof -
  from c s show "calling i (set_result sp w (a\<lparr>kern := k\<rparr>))"
    by (auto simp: calling_def served_def kernel_ok_def runs_def set_result_def upd_mem_def)
  from s show "partition_of i (set_result sp w (a\<lparr>kern := k\<rparr>)) = partition_of i a" by (simp add: served_def same_owner_def)
qed

lemma select_step:
  assumes c: "calling i a" and r: "maxrtos_partition_select PTR (partition_of i a) PTR yield (kern a) = (status, out, k)"
  shows "status = MAXRTOS_OK \<Longrightarrow> \<exists>n. out = Some n \<and> process_ref n (a\<lparr>kern := k\<rparr>) = Some (Process_Pcb n)
      \<and> svc_step (partition_of i a) a (switch_to (Some (Process_Pcb n)) (a\<lparr>kern := k\<rparr>))
      \<and> (n = i \<longrightarrow> svc_step (partition_of i a) a (a\<lparr>kern := k\<rparr>))"
    and "status \<noteq> MAXRTOS_OK \<Longrightarrow> svc_step (partition_of i a) a (a\<lparr>kern := k\<rparr>)"
proof -
  note d = callingD[OF c] and sel = select_current[OF callingD(8,9)[OF c] r]
  have k: "kernel_ok (a\<lparr>kern := k\<rparr>)" using sel(1,2) by (simp add: kernel_ok_def)
  {
    assume "status = MAXRTOS_OK"
    from sel(4)[OF this] obtain n where n: "out = Some n" "runs k n" "current_id k = (current_id (kern a))(partition_of i a := n)"
      by blast
    moreover have "process_ref n (a\<lparr>kern := k\<rparr>) = Some (Process_Pcb n)" by (rule process_ref_runs) (use sel(1) n in simp_all)
    moreover have "context_of n = Some (Process_Pcb n)" using n(2) by (simp add: context_of_def runs_def)
    ultimately show "\<exists>n. out = Some n \<and> process_ref n (a\<lparr>kern := k\<rparr>) = Some (Process_Pcb n)
      \<and> svc_step (partition_of i a) a (switch_to (Some (Process_Pcb n)) (a\<lparr>kern := k\<rparr>))
      \<and> (n = i \<longrightarrow> svc_step (partition_of i a) a (a\<lparr>kern := k\<rparr>))"
      using k sel(3) d(6) runs_def by (auto simp: svc_step_def)
  next
    assume "status \<noteq> MAXRTOS_OK"
    from sel(5)[OF this] k sel(3) d(2,5,6) show "svc_step (partition_of i a) a (a\<lparr>kern := k\<rparr>)"
      by (simp add: svc_step_def context_of_def)
  }
qed

lemma svc_yield_step:
  assumes c: "calling i a"
  shows "\<exists>a'. maxrtos_arch_svc_yield sp a = Some a' \<and> svc_step (partition_of i a) a a'"
proof -
  note d = callingD[OF c]
  obtain status out k where r: "maxrtos_partition_select PTR (partition_of i a) PTR True (kern a) = (status, out, k)"
    by (rule prod_cases3)
  have y: "maxrtos_kernel_yield PTR (partition_of i a) i PTR PTR (kern a) =
      (if status = MAXRTOS_OK then (status, Some (out_val MAXRTOS_INVALID_PROCESS_ID out,
         out_val MAXRTOS_INVALID_PROCESS_ID out \<noteq> i), k) else (status, None, k))"
    by (simp add: maxrtos_kernel_yield_def maxrtos_partition_yield_def r Let_def)
  have code: "maxrtos_arch_svc_yield sp a = (case maxrtos_kernel_yield PTR (partition_of i a) i PTR PTR (kern a) of
      (status, out, k) \<Rightarrow> if status = MAXRTOS_OK then
         (case out of Some (next_id, True) \<Rightarrow>
            (case process_ref next_id (a\<lparr>kern := k\<rparr>) of None \<Rightarrow> Some (a\<lparr>kern := k\<rparr>) | Some n \<Rightarrow> Some (switch_to (Some n) (a\<lparr>kern := k\<rparr>)))
          | _ \<Rightarrow> Some (a\<lparr>kern := k\<rparr>)) else Some (a\<lparr>kern := k\<rparr>))"
    using c d by (simp add: maxrtos_arch_svc_yield_def maxrtos_arch_get_current_pcb_def calling_def Let_def)
  show ?thesis
  proof (cases "status = MAXRTOS_OK")
    case True
    from select_step(1)[OF c r True] obtain n where "out = Some n" "process_ref n (a\<lparr>kern := k\<rparr>) = Some (Process_Pcb n)"
      "svc_step (partition_of i a) a (switch_to (Some (Process_Pcb n)) (a\<lparr>kern := k\<rparr>))"
      "n = i \<longrightarrow> svc_step (partition_of i a) a (a\<lparr>kern := k\<rparr>)" by blast
    with True show ?thesis unfolding code y by (cases "n = i") simp_all
  next
    case False
    with select_step(2)[OF c r] show ?thesis unfolding code y by simp
  qed
qed

text \<open>The check at the end of a call: the caller is still RUNNING, or it was replaced already.\<close>

lemma preempt_check_step:
  assumes c: "calling i a" and s: "svc_step (partition_of i a) a a1"
  shows "svc_step (partition_of i a) a (maxrtos_arch_svc_preempt_check a1)"
proof -
  note d = callingD[OF c]
  let ?p = "partition_of i a" and ?b = "process_pool (kern a1) i"
  have a1: "g_maxrtos_current_pcb a1 = Some (Process_Pcb i)" "s_table a1 = PTR" "partition_of i a1 = ?p"
    "kernel_inv (kern a1)" "timer_ok (kern a1)"
    using s c by (auto simp: svc_step_def only_kernel_iff calling_def same_owner_def kernel_ok_def)
  define go where "go \<longleftrightarrow> pcb_state ?b = MAXRTOS_PROCESS_STATE_RUNNING
    \<and> maxrtos_scheduler_has_higher PTR (pcb_priority ?b) (scheduler_ctx (kern a1) ?p)"
  obtain status out k where r: "maxrtos_partition_select PTR ?p PTR False (kern a1) = (status, out, k)" by (rule prod_cases3)
  have code: "maxrtos_arch_svc_preempt_check a1 = (if go then
      (if status = MAXRTOS_OK \<and> out_val MAXRTOS_INVALID_PROCESS_ID out \<noteq> pcb_id (process_pool k i) then
         (case process_ref (out_val MAXRTOS_INVALID_PROCESS_ID out) (a1\<lparr>kern := k\<rparr>) of None \<Rightarrow> a1\<lparr>kern := k\<rparr>
          | Some n \<Rightarrow> switch_to (Some n) (a1\<lparr>kern := k\<rparr>)) else a1\<lparr>kern := k\<rparr>) else a1)"
    using a1 d(4) r by (simp add: maxrtos_arch_svc_preempt_check_def maxrtos_arch_get_current_pcb_def pcb_at_def Let_def
        maxrtos_partition_dispatch_def go_def)
  show ?thesis
  proof (cases go)
    case False
    with s show ?thesis by (simp add: code)
  next
    case True
    have al: "allocated (process_pool (kern a1)) i" using True d(1) by (simp add: go_def allocated_def)
    then have run: "runs (kern a1) i" using True runs_iff[OF kernel_invD(1)[OF a1(4)], of i] by (simp add: go_def)
    have "current_id (kern a1) ?p = i" using runs_current[OF kernel_invD(1)[OF a1(4)] run] a1(3) by simp
    then have cpu: "cpu_pcb a1 = Some (Process_Pcb i)" using s d(2) by (simp add: svc_step_def context_of_def)
    note sel = select_current[OF a1(4,5) r]
    have pcb: "pcb_id (process_pool k i) = i"
      using select_pool(1)[OF a1(4), where tablep = PTR and part = ?p and outp = PTR and yield = False and i = i] r
        sched_okD(4)[OF kernel_invD(1)[OF a1(4), unfolded sched_inv_def] al] by auto
    have k: "kernel_ok (a1\<lparr>kern := k\<rparr>)" using sel(1,2) by (simp add: kernel_ok_def)
    have base: "only_kernel a a1" "same_owner (kern a) k" "\<And>q. q \<noteq> ?p \<Longrightarrow> current_id (kern a1) q = current_id (kern a) q"
      using s sel(3) by (auto simp: svc_step_def intro: same_owner_trans)
    show ?thesis
    proof (cases "status = MAXRTOS_OK")
      case False
      with sel(5)[OF False] True k base cpu d(2) \<open>current_id (kern a1) ?p = i\<close> show ?thesis
        by (simp add: code svc_step_def context_of_def)
    next
      case ok: True
      from sel(4)[OF ok] obtain n where n: "out = Some n" "runs k n" "current_id k = (current_id (kern a1))(?p := n)" by blast
      have ref: "process_ref n (a1\<lparr>kern := k\<rparr>) = Some (Process_Pcb n)" by (rule process_ref_runs) (use sel(1) n in simp_all)
      have ctx: "context_of n = Some (Process_Pcb n)" using n(2) by (simp add: context_of_def runs_def)
      have "svc_step ?p a (a1\<lparr>kern := k\<rparr>)" if "n = i"
        using that k base cpu n ctx d(2) by (simp add: svc_step_def)
      moreover have "svc_step ?p a (switch_to (Some (Process_Pcb n)) (a1\<lparr>kern := k\<rparr>))"
        using k base n(2,3) ctx by (auto simp: svc_step_def runs_def)
      ultimately show ?thesis using True ok n(1) ref pcb by (simp add: code)
    qed
  qed
qed

subsection \<open>Every handler returns\<close>

lemma finish_ipc_call:
  assumes "calling i a"
    and "\<And>status out k. f (kern a) = (status, out, k) \<Longrightarrow> served (kern a) i status out k
      \<and> (status = MAXRTOS_PENDING \<longrightarrow> (\<exists>n. out = Some n \<and> n \<noteq> MAXRTOS_INVALID_PROCESS_ID \<and> n \<noteq> i))"
  shows "\<exists>a'. (case kernel_call f a of (status, n, a1) \<Rightarrow> maxrtos_arch_svc_finish_ipc sp status n a1) = Some a'
    \<and> svc_step (partition_of i a) a a'"
proof (cases "f (kern a)")
  case (fields status out k)
  from assms(2)[OF this] have s: "served (kern a) i status out k"
    "status = MAXRTOS_PENDING \<longrightarrow> (\<exists>n. out = Some n \<and> n \<noteq> MAXRTOS_INVALID_PROCESS_ID)" by blast+
  from finish_served(2)[OF assms(1) s] show ?thesis by (simp add: kernel_call_def fields)
qed

lemma finish_ipc_refused:
  assumes "calling i a" "status \<noteq> MAXRTOS_PENDING"
  shows "\<exists>a'. maxrtos_arch_svc_finish_ipc sp status n a = Some a' \<and> svc_step (partition_of i a) a a'"
  using assms svc_step_refl(2)[OF assms(1)] by (simp add: maxrtos_arch_svc_finish_ipc_def)

lemma svc_return_call:
  assumes "calling i a"
    and "\<And>status k. f (kern a) = (status, k) \<Longrightarrow> kernel_inv k \<and> timer_ok k \<and> same_owner (kern a) k \<and> current_id k = current_id (kern a)"
  shows "\<exists>a'. svc_return sp (kernel_call_plain f a) = Some a' \<and> svc_step (partition_of i a) a a'"
proof (cases "f (kern a)")
  case (Pair status k)
  with assms(2)[OF this] callingD(2,5,6)[OF assms(1)] show ?thesis
    by (simp add: svc_return_def kernel_call_plain_def svc_step_def kernel_ok_def[of "_\<lparr>kern := _\<rparr>"] context_of_def)
qed

lemma svc_return_refused:
  assumes "calling i a"
  shows "\<exists>a'. svc_return sp (status, n, upd_mem f a) = Some a' \<and> svc_step (partition_of i a) a a'"
    "\<exists>a'. svc_return sp (status, n, a) = Some a' \<and> svc_step (partition_of i a) a a'"
  using svc_step_refl(2,3)[OF assms] by (simp_all add: svc_return_def)

lemma sampling_served:
  assumes inv: "kernel_inv s" "timer_ok s"
  shows "maxrtos_kernel_sampling_port_write j message n i s = (status, s') \<Longrightarrow>
      kernel_inv s' \<and> timer_ok s' \<and> same_owner s s' \<and> current_id s' = current_id s"
    and "maxrtos_kernel_sampling_port_read j message n i s = (status, s') \<Longrightarrow>
      kernel_inv s' \<and> timer_ok s' \<and> same_owner s s' \<and> current_id s' = current_id s"
  using inv by (auto simp: maxrtos_kernel_sampling_port_write_def maxrtos_kernel_sampling_port_read_def
      upd_sampling_port_def same_owner_def split: option.splits if_splits)

lemma svc_handler_step:
  assumes c: "calling i a"
  shows "\<exists>a'. svc_handler number sp a = Some a' \<and> svc_step (partition_of i a) a a'"
proof -
  note d = callingD[OF c] and eq = with_caller_eq[OF c] with_process_eq[OF c]
  have t: "s_table a = PTR" "maxrtos_arch_get_current_pcb a = Some (Process_Pcb i)"
    using c by (simp_all add: calling_def maxrtos_arch_get_current_pcb_def)
  note call = finish_ipc_call[OF c] finish_ipc_refused[OF c]
  note plain = svc_return_call[OF c] svc_return_refused[OF c]
  note bl = blocking_calls_served[OF d(8,9)]
  show ?thesis
  proof (cases number)
    case MAXRTOS_SVC_YIELD
    then show ?thesis using svc_yield_step[OF c] by simp
  next
    case MAXRTOS_SVC_QUEUE_SEND
    then show ?thesis using bl(5) by (auto simp: maxrtos_arch_svc_queue_send_def eq t d Let_def intro!: call)
  next
    case MAXRTOS_SVC_QUEUE_RECEIVE
    then show ?thesis using bl(6) by (auto simp: maxrtos_arch_svc_queue_receive_def eq t d Let_def intro!: call)
  next
    case MAXRTOS_SVC_QUEUE_COUNT
    then show ?thesis using svc_step_refl(2)[OF c] by (simp add: maxrtos_arch_svc_queue_count_def t)
  next
    case MAXRTOS_SVC_PERIODIC_WAIT
    obtain status out k where r: "maxrtos_kernel_periodic_wait PTR i PTR (kern a) = (status, out, k)" by (rule prod_cases3)
    with finish_served(1)[OF c waits_served(1)[OF d(8,9) r]] MAXRTOS_SVC_PERIODIC_WAIT show ?thesis
      by (auto simp: maxrtos_arch_svc_periodic_wait_def eq t d kernel_call_def)
  next
    case MAXRTOS_SVC_MUTEX_LOCK
    then show ?thesis using bl(1) by (auto simp: maxrtos_arch_svc_mutex_lock_def eq t d intro!: call)
  next
    case MAXRTOS_SVC_MUTEX_UNLOCK
    then show ?thesis using waking_calls_served(1)[OF d(8,9)]
      by (auto simp: maxrtos_arch_svc_mutex_unlock_def eq t d intro!: plain)
  next
    case MAXRTOS_SVC_SEMAPHORE_WAIT
    then show ?thesis using bl(2) by (auto simp: maxrtos_arch_svc_semaphore_wait_def eq t d intro!: call)
  next
    case MAXRTOS_SVC_SEMAPHORE_SIGNAL
    then show ?thesis using waking_calls_served(2)[OF d(8,9)]
      by (auto simp: maxrtos_arch_svc_semaphore_signal_def eq t d intro!: plain)
  next
    case MAXRTOS_SVC_SEMAPHORE_STATUS
    then show ?thesis
      by (auto simp: maxrtos_arch_svc_semaphore_status_def eq t d Let_def intro!: plain split: option.split prod.split)
  next
    case MAXRTOS_SVC_BUFFER_SEND
    then show ?thesis using bl(3) by (auto simp: maxrtos_arch_svc_buffer_send_def eq t d Let_def intro!: call)
  next
    case MAXRTOS_SVC_BUFFER_RECEIVE
    then show ?thesis using bl(4) by (auto simp: maxrtos_arch_svc_buffer_receive_def eq t d Let_def intro!: call)
  next
    case MAXRTOS_SVC_BUFFER_STATUS
    then show ?thesis
      by (auto simp: maxrtos_arch_svc_buffer_status_def eq t d Let_def intro!: plain split: option.split prod.split)
  next
    case MAXRTOS_SVC_TIMED_WAIT
    obtain status out k where r: "maxrtos_kernel_timed_wait PTR i (stacked_arg sp 0 a) PTR (kern a) = (status, out, k)"
      by (rule prod_cases3)
    note sv = waits_served(2)[OF d(8,9) r]
    from finish_served(1)[OF c sv] obtain a2 where a2:
      "maxrtos_arch_svc_finish_wait sp status (out_val MAXRTOS_INVALID_PROCESS_ID out) (a\<lparr>kern := k\<rparr>) = Some a2"
      "svc_step (partition_of i a) a a2" "status \<noteq> MAXRTOS_PENDING \<longrightarrow> a2 = set_result sp (status_code status) (a\<lparr>kern := k\<rparr>)"
      by blast
    have "\<exists>a'. maxrtos_arch_svc_yield sp a2 = Some a' \<and> svc_step (partition_of i a) a a'" if "status = MAXRTOS_OK"
    proof -
      have np: "status \<noteq> MAXRTOS_PENDING" using that by simp
      with a2(3) calling_served[OF c sv np] have "calling i a2" "partition_of i a2 = partition_of i a" by simp_all
      with svc_yield_step[of i a2 sp] a2(2) callingD(5)[of i a2] d(5) show ?thesis by (metis svc_step_trans)
    qed
    with a2 r MAXRTOS_SVC_TIMED_WAIT show ?thesis
      by (auto simp: maxrtos_arch_svc_timed_wait_def eq t d kernel_call_def Let_def)
  next
    case MAXRTOS_SVC_TIME_GET
    then show ?thesis using svc_step_refl(2)[OF c] by (simp add: maxrtos_arch_svc_time_get_def)
  next
    case MAXRTOS_SVC_SAMPLING_WRITE
    then show ?thesis using sampling_served(1)[OF d(8,9)]
      by (auto simp: maxrtos_arch_svc_sampling_write_def eq t d Let_def intro!: plain)
  next
    case MAXRTOS_SVC_SAMPLING_READ
    then show ?thesis using sampling_served(2)[OF d(8,9)]
      by (auto simp: maxrtos_arch_svc_sampling_read_def eq t d Let_def intro!: plain)
  qed
qed

lemma svc_dispatch_step:
  assumes c: "calling i a" and "sp \<noteq> 0" "unat n < MAXRTOS_SVC_COUNT"
  shows "\<exists>a'. maxrtos_arch_svc_dispatch sp n a = Some a' \<and> svc_step (partition_of i a) a a'"
proof -
  from svc_handler_step[OF c, of "svc_numbers ! unat n" sp] obtain a1 where
    "svc_handler (svc_numbers ! unat n) sp a = Some a1" "svc_step (partition_of i a) a a1" by blast
  with assms preempt_check_step[OF c, of a1] show ?thesis by (auto simp: maxrtos_arch_svc_dispatch_def Let_def)
qed

text \<open>
  C8. A system call never breaks the kernel. The call of a RUNNING process halts the machine only if
  its frame pointer is NULL or its number unknown. Otherwise it returns, the kernel invariants hold,
  and the processor goes to the current process of the caller's partition, or idles if there is none;
  no other partition gets another current process, no process changes partition, and of the processor
  state only the planned switch changes, not the privilege or the protection unit.
\<close>

theorem system_call_consistent:
  assumes "calling i a"
  shows "if sp \<noteq> 0 \<and> unat n < MAXRTOS_SVC_COUNT
    then \<exists>a'. maxrtos_arch_svc_dispatch sp n a = Some a' \<and> svc_step (partition_of i a) a a'
    else maxrtos_arch_svc_dispatch sp n a = None"
  using svc_dispatch_step[OF assms] by (simp add: maxrtos_arch_svc_dispatch_def)

text \<open>The memory a call asks the kernel to read or write for the caller: an address and a size.\<close>

fun svc_range :: "maxrtos_svc_number \<Rightarrow> u32 \<Rightarrow> arch \<Rightarrow> (u32 \<times> u32) option" where
  "svc_range MAXRTOS_SVC_QUEUE_SEND sp a = Some (stacked_arg sp 1 a, stacked_arg sp 2 a)"
| "svc_range MAXRTOS_SVC_QUEUE_RECEIVE sp a = Some (stacked_arg sp 1 a, stacked_arg sp 2 a)"
| "svc_range MAXRTOS_SVC_BUFFER_SEND sp a = Some (stacked_arg sp 1 a, stacked_arg sp 2 a)"
| "svc_range MAXRTOS_SVC_BUFFER_RECEIVE sp a = Some (stacked_arg sp 1 a, stacked_arg sp 2 a)"
| "svc_range MAXRTOS_SVC_SAMPLING_WRITE sp a = Some (stacked_arg sp 1 a, stacked_arg sp 2 a)"
| "svc_range MAXRTOS_SVC_SAMPLING_READ sp a = Some (stacked_arg sp 1 a, stacked_arg sp 2 a)"
| "svc_range MAXRTOS_SVC_BUFFER_STATUS sp a = Some (stacked_arg sp 1 a, 16)"
| "svc_range MAXRTOS_SVC_SEMAPHORE_STATUS sp a = Some (stacked_arg sp 1 a, 12)"
| "svc_range _ sp a = None"

text \<open>
  C9. The memory gate. A call that names memory its partition does not own in full, read and write, is
  refused before the kernel looks at anything: the caller gets INVALID\_ARG in its r0, and the step that
  may follow, the preemption check, starts from the state as it was but for that word.
\<close>

theorem system_call_memory_gate:
  assumes "calling i a" "sp \<noteq> 0" "unat n < MAXRTOS_SVC_COUNT"
    and "svc_range (svc_numbers ! unat n) sp a = Some (address, sz)"
    and "\<not> maxrtos_arch_mpu_partition_owns_range (partition_of i a) address sz (mpu_unit a)"
  shows "\<exists>a1. a1 = a\<lparr>kern := (kern a)\<lparr>mem := store_word (mem (kern a)) sp (status_code MAXRTOS_ERR_INVALID_ARG)\<rparr>\<rparr>
    \<and> maxrtos_arch_svc_dispatch sp n a = Some
         (if svc_numbers ! unat n \<in> {MAXRTOS_SVC_SAMPLING_WRITE, MAXRTOS_SVC_SAMPLING_READ}
          then a1 else maxrtos_arch_svc_preempt_check a1)"
proof -
  note eq = with_caller_eq[OF assms(1)] with_process_eq[OF assms(1)]
  let ?a1 = "set_result sp (status_code MAXRTOS_ERR_INVALID_ARG) a"
  have no: "\<not> caller_owns (process_pool (kern a) i) address sz a" using assms(5) by (simp add: caller_owns_def)
  have "svc_handler (svc_numbers ! unat n) sp a = Some ?a1"
    using assms(4) no
    by (cases "svc_numbers ! unat n")
      (auto simp: maxrtos_arch_svc_queue_send_def maxrtos_arch_svc_queue_receive_def maxrtos_arch_svc_buffer_send_def
        maxrtos_arch_svc_buffer_receive_def maxrtos_arch_svc_sampling_write_def maxrtos_arch_svc_sampling_read_def
        maxrtos_arch_svc_buffer_status_def maxrtos_arch_svc_semaphore_status_def eq Let_def
        maxrtos_arch_svc_finish_ipc_def svc_return_def)
  with assms(2-4) show ?thesis
    by (cases "svc_numbers ! unat n")
      (simp_all add: maxrtos_arch_svc_dispatch_def Let_def set_result_def upd_mem_def)
qed

subsection \<open>Examples\<close>

lemma example_calling: "calling 9 example_arch"
proof -
  let ?f = "\<lambda>b :: pcb. b\<lparr>pcb_stack_base := 0x20000800, pcb_stack_size := 0x400,
        pcb_stack_pointer := 0x20000A00, pcb_entry := 0x08000100, pcb_entry_arg := 7,
        pcb_ipc_result := MAXRTOS_ERR_TIMEOUT, pcb_ipc_result_pending := True\<rparr>"
  have "kernel_inv (upd_pcb 9 ?f example_state)" by (rule upd_timing_inv_none[OF example_kernel_inv]) simp_all
  moreover have "timer_ok (upd_pcb 9 ?f example_state)" by (rule upd_timer[OF example_timer_ok]) simp_all
  moreover have "runs (upd_pcb 9 ?f example_state) 9"
    by (simp add: runs_def example_state_def exI[of _ 0])
  ultimately show ?thesis by (simp add: calling_def example_arch_def kernel_ok_def)
qed

lemma example_partition_of: "partition_of 9 example_arch = 0"
  by (simp add: example_arch_def example_state_def example_pool_def example_pcb_def)

lemma system_call_consistent_witness:
  "\<exists>a'. maxrtos_arch_svc_dispatch 0x20000A60 0 example_arch = Some a' \<and> svc_step 0 example_arch a'"
  using system_call_consistent[OF example_calling, of "0x20000A60" 0] by (simp add: example_partition_of)

text \<open>
  The r1 and r2 of the caller ask to send the 64 bytes from address 0x20000FE0 on: the first half is
  memory of partition 0, the second half of partition 1.
\<close>

definition example_asking :: arch where
  "example_asking = upd_mem (\<lambda>m. store_word (store_word m 0x20000A64 0x20000FE0) 0x20000A68 64) example_arch"

lemma system_call_memory_gate_witness:
  "svc_range MAXRTOS_SVC_QUEUE_SEND 0x20000A60 example_asking = Some (0x20000FE0, 64)
    \<and> (\<exists>a1. load_word (mem (kern a1)) 0x20000A60 = 1
      \<and> maxrtos_arch_svc_dispatch 0x20000A60 1 example_asking = Some (maxrtos_arch_svc_preempt_check a1))"
proof -
  let ?a = example_asking
  have other: "load_word (store_word m 0x20000A68 w) 0x20000A64 = load_word m 0x20000A64" for m w
  proof -
    have "unat (- 1 :: u32) = 2 ^ 32 - 1" by (simp add: unsigned_minus_1_eq_mask mask_eq_exp_minus_1)
    then show ?thesis by (simp add: load_word_def store_word_outside)
  qed
  have r: "stacked_arg 0x20000A60 1 ?a = 0x20000FE0" "stacked_arg 0x20000A60 2 ?a = 64"
    using other by (simp_all add: stacked_arg_def example_asking_def upd_mem_def load_store_word)
  have c: "calling 9 ?a" using example_calling
    by (simp add: calling_def example_asking_def upd_mem_def kernel_ok_def runs_def)
  have u: "partition_of 9 ?a = 0" "mpu_unit ?a = mpu_unit example_arch"
    using example_partition_of by (simp_all add: example_asking_def upd_mem_def)
  have no: "\<not> maxrtos_arch_mpu_partition_owns_range (partition_of 9 ?a) 0x20000FE0 64 (mpu_unit ?a)"
    unfolding u example_arch_pcb(8) by code_simp
  have "svc_range MAXRTOS_SVC_QUEUE_SEND 0x20000A60 ?a = Some (0x20000FE0, 64)" by (simp add: r)
  moreover from this have "svc_range (svc_numbers ! unat (1 :: u8)) 0x20000A60 ?a = Some (0x20000FE0, 64)"
    by (simp add: svc_numbers_def)
  from system_call_memory_gate[OF c _ _ this no]
  have "\<exists>a1. load_word (mem (kern a1)) 0x20000A60 = 1
      \<and> maxrtos_arch_svc_dispatch 0x20000A60 1 ?a = Some (maxrtos_arch_svc_preempt_check a1)"
    by (intro exI[of _ "?a\<lparr>kern := (kern ?a)\<lparr>mem := store_word (mem (kern ?a)) 0x20000A60 1\<rparr>\<rparr>"])
      (simp add: svc_numbers_def load_store_word)
  ultimately show ?thesis by blast
qed

end
