(* ===== verification/Fault_Dispatch.thy ===== *)
theory Fault_Dispatch
  imports Arch Fault_Recovery
begin

text \<open>
  Fault recovery as the Cortex-M7 layer enacts it (fault_dispatch.c), and the exception entry points
  that classify a hardware fault (fault_handlers.c). \<open>None\<close> is \<open>maxrtos_arch_fatal\<close>, which does not
  return. The fault status registers are a record of their own; a write of one to a status bit
  clears it.
\<close>

definition maxrtos_arch_set_health_monitor :: "maxrtos_health_monitor_t option \<Rightarrow> arch \<Rightarrow> arch" where
  "maxrtos_arch_set_health_monitor hm a = a\<lparr>s_hm := hm\<rparr>"

definition maxrtos_arch_set_partition_table :: "ptr \<Rightarrow> arch \<Rightarrow> arch" where
  "maxrtos_arch_set_partition_table table a = a\<lparr>s_table := table\<rparr>"

definition maxrtos_arch_get_partition_table :: "arch \<Rightarrow> ptr" where
  "maxrtos_arch_get_partition_table a = s_table a"

text \<open>The \<open>RESTART_PROCESS\<close> branch: a fresh stack, and if the process was running, another process.\<close>

definition enact_restart :: "pcb_ref \<Rightarrow> arch \<Rightarrow> arch option" where
  "enact_restart faulting a =
     (case maxrtos_arch_init_stack (Some faulting) a of
        (status, a1) \<Rightarrow>
          if status \<noteq> MAXRTOS_OK then None
          else if Some faulting = maxrtos_arch_get_current_pcb a then
            (case maxrtos_partition_yield (s_table a1) (pcb_partition_id (pcb_at faulting a1)) PTR (kern a1) of
               (status, out, k) \<Rightarrow>
                 if status \<noteq> MAXRTOS_OK then None
                 else
                   let a2 = a1\<lparr>kern := k\<rparr> in
                   (case process_ref (out_val MAXRTOS_INVALID_PROCESS_ID out) a2 of
                      None \<Rightarrow> None
                    | Some n \<Rightarrow> Some (maxrtos_arch_request_context_switch
                        (maxrtos_arch_set_next_pcb (Some n) (maxrtos_arch_set_current_pcb None a2)))))
          else Some a1)"

definition maxrtos_arch_handle_process_fault :: "pcb_ref option \<Rightarrow> maxrtos_fault_type \<Rightarrow> arch \<Rightarrow> arch option" where
  "maxrtos_arch_handle_process_fault faulting_pcb fault_type a =
     (case (s_hm a, faulting_pcb) of
        (Some hm, Some faulting) \<Rightarrow>
          if s_table a = NULL then None
          else
            (case maxrtos_fault_recovery_handle PTR hm (s_table a) (pcb_id (pcb_at faulting a)) fault_type PTR (kern a) of
               (status, action, k) \<Rightarrow>
                 let a1 = a\<lparr>kern := k\<rparr> in
                 if status \<noteq> MAXRTOS_OK then None
                 else
                   (case action of
                      Some MAXRTOS_HM_ACTION_IGNORE \<Rightarrow> Some a1
                    | Some MAXRTOS_HM_ACTION_RESTART_PROCESS \<Rightarrow> enact_restart faulting a1
                    | Some MAXRTOS_HM_ACTION_HALT_PARTITION \<Rightarrow>
                        (case maxrtos_arch_get_current_pcb a of
                           Some current \<Rightarrow>
                             if pcb_partition_id (pcb_at current a1) = pcb_partition_id (pcb_at faulting a1)
                             then Some (maxrtos_arch_idle_enter_discarding_current a1) else Some a1
                         | None \<Rightarrow> Some a1)
                    | _ \<Rightarrow> None))
      | _ \<Rightarrow> None)"

definition maxrtos_arch_handle_fault :: "maxrtos_fault_type \<Rightarrow> arch \<Rightarrow> arch option" where
  "maxrtos_arch_handle_fault fault_type a =
     maxrtos_arch_handle_process_fault (maxrtos_arch_get_current_pcb a) fault_type a"

text \<open>The PendSV handler found a context it cannot save.\<close>

definition maxrtos_arch_context_invalid :: "arch \<Rightarrow> arch option" where
  "maxrtos_arch_context_invalid a =
     (let pcbp = maxrtos_arch_get_current_pcb a; planned = maxrtos_arch_get_next_pcb a in
      case (case pcbp of None \<Rightarrow> Some a
            | Some _ \<Rightarrow> maxrtos_arch_handle_process_fault pcbp MAXRTOS_FAULT_MEMORY_ACCESS a) of
        None \<Rightarrow> None
      | Some a1 \<Rightarrow>
          if maxrtos_arch_get_current_pcb a1 \<noteq> None then None
          else
            (case (pcbp, planned) of
               (Some r, Some p) \<Rightarrow>
                 if pcb_partition_id (pcb_at p a1) \<noteq> pcb_partition_id (pcb_at r a1)
                 then Some (maxrtos_arch_set_next_pcb (Some p) a1) else Some a1
             | _ \<Rightarrow> Some a1))"

subsection \<open>Classification (fault_handlers.c)\<close>

record maxrtos_arch_fault_info_t =
  info_cfsr :: u32
  info_hfsr :: u32
  info_mmfar :: u32
  info_bfar :: u32
  info_count :: u32

record scb =
  scb_cfsr :: u32
  scb_hfsr :: u32
  scb_mmfar :: u32
  scb_bfar :: u32
  scb_shcsr :: u32
  scb_ccr :: u32
  g_maxrtos_arch_last_fault :: maxrtos_arch_fault_info_t

definition MAXRTOS_CFSR_MMFSR_MASK :: u32 where "MAXRTOS_CFSR_MMFSR_MASK = 0x000000FF"
definition MAXRTOS_CFSR_BFSR_MASK :: u32 where "MAXRTOS_CFSR_BFSR_MASK = 0x0000FF00"
definition MAXRTOS_CFSR_UFSR_MASK :: u32 where "MAXRTOS_CFSR_UFSR_MASK = 0xFFFF0000"

text \<open>Write-one-to-clear.\<close>

definition clear_cfsr :: "u32 \<Rightarrow> scb \<Rightarrow> scb" where
  "clear_cfsr w r = r\<lparr>scb_cfsr := scb_cfsr r AND NOT w\<rparr>"

definition clear_hfsr :: "u32 \<Rightarrow> scb \<Rightarrow> scb" where
  "clear_hfsr w r = r\<lparr>scb_hfsr := scb_hfsr r AND NOT w\<rparr>"

definition maxrtos_arch_record_fault :: "u32 \<Rightarrow> scb \<Rightarrow> scb" where
  "maxrtos_arch_record_fault cfsr r = r\<lparr>g_maxrtos_arch_last_fault := (g_maxrtos_arch_last_fault r)\<lparr>
     info_cfsr := cfsr, info_hfsr := scb_hfsr r,
     info_mmfar := (if cfsr AND push_bit 7 1 \<noteq> 0 then scb_mmfar r else 0),
     info_bfar := (if cfsr AND push_bit 15 1 \<noteq> 0 then scb_bfar r else 0),
     info_count := info_count (g_maxrtos_arch_last_fault r) + 1\<rparr>\<rparr>"

definition maxrtos_arch_fault_handlers_init :: "scb \<Rightarrow> scb" where
  "maxrtos_arch_fault_handlers_init r =
     r\<lparr>scb_shcsr := scb_shcsr r OR (push_bit 16 1 OR push_bit 17 1 OR push_bit 18 1),
       scb_ccr := scb_ccr r OR push_bit 4 1\<rparr>"

definition MemManage_Handler :: "scb \<Rightarrow> arch \<Rightarrow> scb \<times> arch option" where
  "MemManage_Handler r a =
     (clear_cfsr (scb_cfsr r AND MAXRTOS_CFSR_MMFSR_MASK) (maxrtos_arch_record_fault (scb_cfsr r) r),
      maxrtos_arch_handle_fault MAXRTOS_FAULT_MEMORY_ACCESS a)"

definition BusFault_Handler :: "scb \<Rightarrow> arch \<Rightarrow> scb \<times> arch option" where
  "BusFault_Handler r a =
     (clear_cfsr (scb_cfsr r AND MAXRTOS_CFSR_BFSR_MASK) (maxrtos_arch_record_fault (scb_cfsr r) r),
      maxrtos_arch_handle_fault MAXRTOS_FAULT_BUS_ERROR a)"

definition maxrtos_arch_classify_usage_fault :: "u32 \<Rightarrow> maxrtos_fault_type" where
  "maxrtos_arch_classify_usage_fault cfsr =
     (if cfsr AND push_bit 25 1 \<noteq> 0 then MAXRTOS_FAULT_DIVIDE_BY_ZERO else MAXRTOS_FAULT_ILLEGAL_INSTRUCTION)"

definition UsageFault_Handler :: "scb \<Rightarrow> arch \<Rightarrow> scb \<times> arch option" where
  "UsageFault_Handler r a =
     (clear_cfsr (scb_cfsr r AND MAXRTOS_CFSR_UFSR_MASK) (maxrtos_arch_record_fault (scb_cfsr r) r),
      maxrtos_arch_handle_fault (maxrtos_arch_classify_usage_fault (scb_cfsr r)) a)"

text \<open>\<open>None\<close> where the code answers false.\<close>

definition maxrtos_arch_classify_hard_fault :: "u32 \<Rightarrow> u32 \<Rightarrow> maxrtos_fault_type option" where
  "maxrtos_arch_classify_hard_fault cfsr hfsr =
     (if hfsr AND push_bit 30 1 = 0 then None
      else if cfsr AND MAXRTOS_CFSR_MMFSR_MASK \<noteq> 0 then Some MAXRTOS_FAULT_MEMORY_ACCESS
      else if cfsr AND MAXRTOS_CFSR_BFSR_MASK \<noteq> 0 then Some MAXRTOS_FAULT_BUS_ERROR
      else if cfsr AND MAXRTOS_CFSR_UFSR_MASK \<noteq> 0 then Some (maxrtos_arch_classify_usage_fault cfsr)
      else None)"

definition HardFault_Handler :: "scb \<Rightarrow> arch \<Rightarrow> scb \<times> arch option" where
  "HardFault_Handler r a =
     (let r1 = maxrtos_arch_record_fault (scb_cfsr r) r in
      case maxrtos_arch_classify_hard_fault (scb_cfsr r) (scb_hfsr r) of
        Some fault_type \<Rightarrow>
          (clear_hfsr (push_bit 30 1) (clear_cfsr (scb_cfsr r) r1), maxrtos_arch_handle_fault fault_type a)
      | None \<Rightarrow> (r1, None))"

end
