(* ===== verification/System.thy ===== *)
theory System
  imports Svc Fault_Dispatch
begin

text \<open>
  The tick interrupt (systick.c), the PendSV context switch (context_switch.S, context_switch.c) and the start of the
  scheduler (start_scheduler.c). \<open>None\<close> is a handler that does not return: a halt.
\<close>

definition maxrtos_arch_systick_init :: "maxrtos_frame_schedule_t option \<Rightarrow> ptr \<Rightarrow> arch \<Rightarrow> arch" where
  "maxrtos_arch_systick_init schedule table a = a\<lparr>s_frame_schedule := schedule, s_partition_table := table\<rparr>"

definition maxrtos_arch_get_frame_schedule :: "arch \<Rightarrow> maxrtos_frame_schedule_t option" where
  "maxrtos_arch_get_frame_schedule a = s_frame_schedule a"

text \<open>
  The loop over the deadline misses of the previous tick. \<open>None\<close> is a loop that does not end,
  \<open>Some None\<close> a halt.
\<close>

partial_function (option) handle_deadline_misses :: "arch \<Rightarrow> arch option option" where
  "handle_deadline_misses a =
     (case maxrtos_kernel_take_deadline_miss PTR (kern a) of
        None \<Rightarrow> None
      | Some (taken, out, k) \<Rightarrow>
          let a1 = a\<lparr>kern := k\<rparr> in
          if taken then
            (case process_ref (out_val MAXRTOS_INVALID_PROCESS_ID out) a1 of
               None \<Rightarrow> handle_deadline_misses a1
             | Some missed \<Rightarrow>
                 (case maxrtos_arch_handle_process_fault (Some missed) MAXRTOS_FAULT_DEADLINE_EXCEEDED a1 of
                    None \<Rightarrow> Some None
                  | Some a2 \<Rightarrow> handle_deadline_misses a2))
          else Some (Some a1))"

text \<open>What the handler does with the answer of the kernel tick.\<close>

definition systick_switch :: "maxrtos_status \<Rightarrow> u32 option \<Rightarrow> arch \<Rightarrow> arch" where
  "systick_switch tick_status next_id a =
     (if tick_status = MAXRTOS_ERR_PARTITION_HALTED \<or> tick_status = MAXRTOS_ERR_QUEUE_EMPTY then
        (if maxrtos_arch_get_current_pcb a \<noteq> maxrtos_arch_idle_pcb then switch_to maxrtos_arch_idle_pcb a else a)
      else if tick_status = MAXRTOS_OK then
        (case process_ref (out_val MAXRTOS_INVALID_PROCESS_ID next_id) a of
           None \<Rightarrow> a
         | Some n \<Rightarrow> if Some n \<noteq> maxrtos_arch_get_current_pcb a then switch_to (Some n) a else a)
      else a)"

definition maxrtos_arch_systick :: "arch \<Rightarrow> arch option" where
  "maxrtos_arch_systick a =
     (case s_frame_schedule a of
        None \<Rightarrow> Some a
      | Some schedule \<Rightarrow>
          if s_partition_table a = NULL then Some a
          else
            (case handle_deadline_misses a of
               Some (Some a1) \<Rightarrow>
                 (case maxrtos_kernel_on_tick PTR schedule (s_partition_table a1) PTR (kern a1) of
                    (tick_status, next_id, k) \<Rightarrow> Some (systick_switch tick_status next_id (a1\<lparr>kern := k\<rparr>)))
             | _ \<Rightarrow> None))"

subsection \<open>The context switch (context_switch.S)\<close>

abbreviation (input) SOFT_CONTEXT_BYTES :: u32 where "SOFT_CONTEXT_BYTES \<equiv> 96"
abbreviation (input) HARD_FRAME_BYTES :: u32 where "HARD_FRAME_BYTES \<equiv> 104"

text \<open>
  The handler finds the stack pointer of the outgoing process, the EXC_RETURN value and the
  registers r4-r11 and s16-s31, whose 96 bytes it stores below the stack pointer. It leaves with the
  stack pointer and the registers of the incoming process.
\<close>

definition context_saveable :: "u32 \<Rightarrow> u32 \<Rightarrow> pcb \<Rightarrow> bool" where
  "context_saveable exc_return psp pcb \<longleftrightarrow> exc_return = NOT 0x12
     \<and> \<not> psp > pcb_stack_base pcb + pcb_stack_size pcb - HARD_FRAME_BYTES
     \<and> \<not> psp < pcb_stack_base pcb + SOFT_CONTEXT_BYTES"

definition save_context :: "pcb_ref \<Rightarrow> u32 \<Rightarrow> u8 list \<Rightarrow> arch \<Rightarrow> arch" where
  "save_context r psp registers a =
     upd_pcb_at r (\<lambda>b. b\<lparr>pcb_stack_pointer := psp - SOFT_CONTEXT_BYTES\<rparr>)
       (upd_mem (\<lambda>m. mem_write m (psp - SOFT_CONTEXT_BYTES) registers) a)"

definition restore_context :: "pcb_ref option \<Rightarrow> arch \<Rightarrow> u32 \<times> u8 list" where
  "restore_context pcbp a =
     (case pcbp of
        None \<Rightarrow> (0, [])
      | Some r \<Rightarrow> (pcb_stack_pointer (pcb_at r a) + SOFT_CONTEXT_BYTES,
                   mem_read (mem (kern a)) (pcb_stack_pointer (pcb_at r a)) (unat SOFT_CONTEXT_BYTES)))"

definition PendSV_Handler :: "u32 \<Rightarrow> u32 \<Rightarrow> u8 list \<Rightarrow> arch \<Rightarrow> (u32 \<times> u8 list \<times> arch) option" where
  "PendSV_Handler exc_return psp registers a =
     (case (case g_maxrtos_current_pcb a of
              None \<Rightarrow> Some a
            | Some r \<Rightarrow>
                if context_saveable exc_return psp (pcb_at r a) then Some (save_context r psp registers a)
                else maxrtos_arch_context_invalid a) of
        None \<Rightarrow> None
      | Some a1 \<Rightarrow>
          (case maxrtos_arch_prepare_next_pcb (g_maxrtos_next_pcb a1) a1 of
             None \<Rightarrow> None
           | Some (status, a2) \<Rightarrow>
               if status \<noteq> MAXRTOS_OK then None
               else
                 (case restore_context (g_maxrtos_next_pcb a1) a2 of
                    (psp', registers') \<Rightarrow>
                      Some (psp', registers', a2\<lparr>g_maxrtos_current_pcb := g_maxrtos_next_pcb a1, pendsv := False\<rparr>))))"

subsection \<open>Initialisation (context_switch.c)\<close>

text \<open>The system registers it sets: exception priorities, coprocessor access and floating-point control.\<close>

record system_regs =
  scb_shpr3 :: u32
  scb_cpacr :: u32
  fpu_fpccr :: u32
  fpu_fpdscr :: u32

definition maxrtos_arch_context_switch_init :: "system_regs \<Rightarrow> arch \<Rightarrow> (system_regs \<times> arch) option" where
  "maxrtos_arch_context_switch_init r a =
     (let shpr3 = scb_shpr3 r AND NOT (push_bit 16 0xFF);
          shpr3 = shpr3 AND NOT (push_bit 24 0xFF);
          shpr3 = shpr3 OR push_bit 16 0xFF;
          shpr3 = shpr3 OR push_bit 24 0xFF;
          r1 = r\<lparr>scb_shpr3 := shpr3, scb_cpacr := scb_cpacr r OR push_bit 20 0xF,
                 fpu_fpccr := fpu_fpccr r OR (push_bit 31 1 OR push_bit 30 1), fpu_fpdscr := 0\<rparr>
      in map_option (Pair r1) (maxrtos_arch_idle_init a))"

text \<open>
  PendSV and SysTick get the same priority, the lowest one: neither preempts the other, and of two
  pending ones the PendSV, which has the lower exception number, is taken first. The idle context gets
  an identifier and a partition no process has.
\<close>

lemma context_switch_init_priorities:
  assumes "maxrtos_arch_context_switch_init r a = Some (r', a')"
  shows "drop_bit 16 (scb_shpr3 r') AND 0xFF = 0xFF" "drop_bit 24 (scb_shpr3 r') AND 0xFF = 0xFF"
    "scb_shpr3 r' AND 0xFFFF = scb_shpr3 r AND 0xFFFF"
    "pcb_id (s_idle_pcb a') = MAXRTOS_INVALID_PROCESS_ID" "pcb_partition_id (s_idle_pcb a') = MAXRTOS_INVALID_PARTITION_ID"
  using assms
  by (auto simp: maxrtos_arch_context_switch_init_def maxrtos_arch_idle_init_def maxrtos_arch_init_stack_def
      upd_pcb_at_def upd_mem_def Let_def bit.conj_disj_distrib2 drop_bit_or and.assoc split: if_splits prod.splits)

subsection \<open>Start (start_scheduler.c)\<close>

definition maxrtos_arch_start_first_process :: "pcb_ref option \<Rightarrow> arch \<Rightarrow> arch" where
  "maxrtos_arch_start_first_process pcb a =
     maxrtos_arch_request_context_switch (a\<lparr>g_maxrtos_current_pcb := None, g_maxrtos_next_pcb := pcb\<rparr>)"

definition maxrtos_arch_start_scheduler :: "maxrtos_frame_schedule_t \<Rightarrow> ptr \<Rightarrow> arch \<Rightarrow> arch option" where
  "maxrtos_arch_start_scheduler frame_schedule partition_table a =
     (case maxrtos_kernel_start_scheduler PTR frame_schedule partition_table PTR (kern a) of
        (status, first, k) \<Rightarrow>
          if status \<noteq> MAXRTOS_OK then None
          else Some (maxrtos_arch_start_first_process (map_option Process_Pcb first) (a\<lparr>kern := k\<rparr>)))"

text \<open>The walk over the process identifiers: every READY process gets a stack and is queued.\<close>

definition start_step :: "ptr \<Rightarrow> u32 \<Rightarrow> arch option \<Rightarrow> arch option" where
  "start_step partition_table pid ao =
     (case ao of
        None \<Rightarrow> None
      | Some a \<Rightarrow>
          (case process_ref pid a of
             None \<Rightarrow> Some a
           | Some r \<Rightarrow>
               if pcb_state (pcb_at r a) = MAXRTOS_PROCESS_STATE_READY then
                 (case maxrtos_arch_init_stack (Some r) a of
                    (status, a1) \<Rightarrow>
                      if status \<noteq> MAXRTOS_OK then None
                      else
                        (case maxrtos_partition_add_process partition_table pid (kern a1) of
                           (status', k) \<Rightarrow> if status' \<noteq> MAXRTOS_OK then None else Some (a1\<lparr>kern := k\<rparr>)))
               else Some a))"

definition maxrtos_scheduler_start :: "arch \<Rightarrow> arch option" where
  "maxrtos_scheduler_start a =
     (case s_frame_schedule a of
        None \<Rightarrow> None
      | Some frame_schedule \<Rightarrow>
          if s_table a = NULL then None
          else
            (case fold (start_step (s_table a)) (ids_below MAXRTOS_MAX_PROCESSES) (Some a) of
               None \<Rightarrow> None
             | Some a1 \<Rightarrow> maxrtos_arch_start_scheduler frame_schedule (s_table a) a1))"

text \<open>
  C28. No register is lost in a switch. When a context has been saved, and it is restored in any later
  state in which its stack pointer and the 96 bytes below the process stack pointer are as the handler
  left them, the process gets back the stack pointer and the registers it was interrupted with; the delivery of
  the result of its system call, just before, does not touch them.
\<close>

theorem context_roundtrip:
  assumes "length registers = 96" "mpu_hw_ok (mpu_unit b)" "active_mapped (mpu_unit b)"
    and "pcb_stack_pointer (pcb_at r b) = pcb_stack_pointer (pcb_at r (save_context r psp registers a))"
    and "\<forall>x. unat (x - (psp - 96)) < 96 \<longrightarrow> mem (kern b) x = mem (kern (save_context r psp registers a)) x"
    and "maxrtos_arch_prepare_next_pcb (Some r) b = Some (MAXRTOS_OK, c)"
  shows "restore_context (Some r) c = (psp, registers)"
proof -
  let ?f = "psp - 96"
  let ?s = "save_context r psp registers a"
  have save: "pcb_stack_pointer (pcb_at r ?s) = ?f" "mem (kern ?s) = mem_write (mem (kern a)) ?f registers"
    by (cases r; simp add: save_context_def pcb_at_def upd_pcb_at_def upd_mem_def)+
  have b: "pcb_stack_pointer (pcb_at r b) = ?f" using assms(4) save(1) by simp
  from prepare_next_process[OF assms(2,3), of r] assms(6) b have
    c: "pcb_stack_pointer (pcb_at r c) = ?f"
    and mem: "\<And>x. 4 \<le> unat (x - (?f + 96)) \<Longrightarrow> mem (kern c) x = mem (kern b) x"
    by (auto simp: Let_def split: if_splits)
  have "mem (kern c) (?f + of_nat i) = registers ! i" if i: "i < 96" for i
  proof -
    have e: "?f + of_nat i - (?f + 96) = of_nat i - of_nat 96" by simp
    have "unat (?f + of_nat i - (?f + 96)) = 2 ^ 32 + i - 96" unfolding e by (subst unat_diff_of_nat) (use i in simp_all)
    then have "mem (kern c) (?f + of_nat i) = mem (kern b) (?f + of_nat i)" by (intro mem) (use i in simp)
    also have "\<dots> = mem (kern ?s) (?f + of_nat i)"
      using assms(5) i by (simp add: unat_word_of_nat_32)
    also have "\<dots> = registers ! i" using i assms(1) by (simp add: save(2) mem_write_def unat_word_of_nat_32)
    finally show ?thesis .
  qed
  then have "mem_read (mem (kern c)) ?f 96 = registers" using assms(1) by (intro nth_equalityI) (simp_all add: mem_read_def)
  then show ?thesis by (simp add: restore_context_def c)
qed

lemma context_roundtrip_witness:
  "\<exists>c. maxrtos_arch_prepare_next_pcb (Some (Process_Pcb 9)) (save_context (Process_Pcb 9) 0x20000A60 (replicate 96 7) example_arch) = Some (MAXRTOS_OK, c)
    \<and> restore_context (Some (Process_Pcb 9)) c = (0x20000A60, replicate 96 7)"
proof -
  let ?b = "save_context (Process_Pcb 9) 0x20000A60 (replicate 96 7) example_arch"
  have m: "mpu_unit ?b = example_mpu" "pcb_partition_id (pcb_at (Process_Pcb 9) ?b) = 0"
    using example_arch_pcb(5,8) by (simp_all add: save_context_def upd_pcb_at_def upd_mem_def pcb_at_def)
  have k: "mpu_hw_ok (mpu_unit ?b)" "active_mapped (mpu_unit ?b)" unfolding m by (rule example_mpu_ok)+
  from prepare_next_process[OF k, of "Process_Pcb 9"] obtain c where
    c: "maxrtos_arch_prepare_next_pcb (Some (Process_Pcb 9)) ?b = Some (MAXRTOS_OK, c)"
    by (auto simp: Let_def m example_regions)
  from context_roundtrip[OF _ k refl _ c] c show ?thesis by simp
qed

end
