(* ===== verification/Machine.thy ===== *)
theory Machine
  imports System
begin

text \<open>
  The machine as a whole: system calls, faults, ticks and context switches as steps, and the
  invariant they keep. Whoever the processor runs is the current process of its partition or the idle
  context, and runs behind the memory region and at the privilege of that partition.
\<close>

definition may_run :: "pcb_ref option \<Rightarrow> arch \<Rightarrow> bool" where
  "may_run r a = (case r of None \<Rightarrow> False | Some Idle_Pcb \<Rightarrow> True | Some (Process_Pcb n) \<Rightarrow> runs (kern a) n)"

text \<open>The configuration and the processor are as before, up to the planned switch.\<close>

definition same_machine :: "arch \<Rightarrow> arch \<Rightarrow> bool" where
  "same_machine a a' \<longleftrightarrow> s_partition_privileged a' = s_partition_privileged a \<and> control a' = control a
     \<and> mpu_unit a' = mpu_unit a \<and> s_hm a' = s_hm a \<and> s_table a' = s_table a
     \<and> s_frame_schedule a' = s_frame_schedule a \<and> s_partition_table a' = s_partition_table a
     \<and> pcb_id (s_idle_pcb a') = pcb_id (s_idle_pcb a) \<and> pcb_partition_id (s_idle_pcb a') = pcb_partition_id (s_idle_pcb a)"

text \<open>
  What is configured before the start and then stays: the privileges, the policies, the frame, the processes with their
  partitions and stacks, and the memory regions, those in the unit as well, but for the region that follows the running partition.
\<close>

definition same_setting :: "arch \<Rightarrow> arch \<Rightarrow> bool" where
  "same_setting a a' \<longleftrightarrow> s_partition_privileged a' = s_partition_privileged a \<and> s_hm a' = s_hm a \<and> s_table a' = s_table a
     \<and> s_frame_schedule a' = s_frame_schedule a \<and> s_partition_table a' = s_partition_table a
     \<and> same_owner (kern a) (kern a') \<and> s_config (mpu_unit a') = s_config (mpu_unit a)
     \<and> (\<forall>r. r \<noteq> MAXRTOS_MPU_PARTITION_REGION \<longrightarrow> region_regs (mpu_unit a') r = region_regs (mpu_unit a) r)"

lemma same_setting_refl: "same_setting a a"
  by (simp add: same_setting_def)

lemma same_setting_trans: "same_setting a b \<Longrightarrow> same_setting b c \<Longrightarrow> same_setting a c"
  unfolding same_setting_def by (elim conjE, intro conjI) (auto intro: same_owner_trans)

text \<open>A kernel service ran: the kernel is consistent, and the running context goes on or was discarded.\<close>

definition kept :: "arch \<Rightarrow> arch \<Rightarrow> bool" where
  "kept a a' \<longleftrightarrow> kernel_ok a' \<and> same_machine a a' \<and> same_owner (kern a) (kern a')
     \<and> g_maxrtos_current_pcb a' \<in> {g_maxrtos_current_pcb a, None}"

lemma kept_setting: "kept a a' \<Longrightarrow> same_setting a a'"
  by (simp add: kept_def same_machine_def same_setting_def)

lemma same_machine_trans: "same_machine a b \<Longrightarrow> same_machine b c \<Longrightarrow> same_machine a c"
  by (simp add: same_machine_def)

lemma kept_trans:
  assumes "kept a b" "kept b c"
  shows "kept a c"
proof -
  have "same_machine a c" by (rule same_machine_trans[of a b]) (use assms in \<open>simp_all add: kept_def\<close>)
  moreover have "same_owner (kern a) (kern c)" by (rule same_owner_trans[of _ "kern b"]) (use assms in \<open>simp_all add: kept_def\<close>)
  moreover have "g_maxrtos_current_pcb c \<in> {g_maxrtos_current_pcb a, None}" using assms by (auto simp: kept_def)
  ultimately show ?thesis using assms(2) by (simp add: kept_def)
qed

lemma kept_refl: "kernel_ok a \<Longrightarrow> kept a a"
  by (simp add: kept_def same_machine_def)

lemma may_run_simps [simp]: "may_run (Some Idle_Pcb) a" "\<not> may_run None a" "may_run (Some (Process_Pcb n)) a = runs (kern a) n"
  by (simp_all add: may_run_def)

text \<open>Writing the stack and the saved stack pointer of a context.\<close>

definition same_switch :: "arch \<Rightarrow> arch \<Rightarrow> bool" where
  "same_switch a a' \<longleftrightarrow> current_id (kern a') = current_id (kern a) \<and> clock_of (kern a') = clock_of (kern a)
     \<and> halted (kern a') = halted (kern a)
     \<and> g_maxrtos_current_pcb a' = g_maxrtos_current_pcb a \<and> g_maxrtos_next_pcb a' = g_maxrtos_next_pcb a \<and> pendsv a' = pendsv a"

lemma stack_update:
  assumes "kernel_ok a" and f: "\<And>b. f b = b\<lparr>pcb_stack_pointer := pcb_stack_pointer (f b),
      pcb_ipc_result_pending := pcb_ipc_result_pending (f b)\<rparr>"
  shows "kept a (upd_pcb_at r f (upd_mem g a)) \<and> same_switch a (upd_pcb_at r f (upd_mem g a))"
proof -
  define s where "s = (kern a)\<lparr>mem := g (mem (kern a))\<rparr>"
  have s: "kernel_inv s" "timer_ok s"
    using assms(1) by (simp_all add: s_def kernel_ok_def kernel_inv_def sched_inv_def due_ok_def timer_ok_def queued_in_def)
  have fields: "pcb_state (f b) = pcb_state b" "pcb_partition_id (f b) = pcb_partition_id b" "pcb_priority (f b) = pcb_priority b"
    "pcb_base_priority (f b) = pcb_base_priority b" "pcb_id (f b) = pcb_id b" "pcb_waitlist (f b) = pcb_waitlist b"
    "pcb_wake_tick (f b) = pcb_wake_tick b" "pcb_deadline_time (f b) = pcb_deadline_time b" "same_flags b (f b)" "stack_of (f b) = stack_of b" for b
    using arg_cong[OF f, of pcb_state b] arg_cong[OF f, of pcb_partition_id b] arg_cong[OF f, of pcb_priority b]
      arg_cong[OF f, of pcb_base_priority b] arg_cong[OF f, of pcb_id b] arg_cong[OF f, of pcb_waitlist b]
      arg_cong[OF f, of pcb_wake_tick b] arg_cong[OF f, of pcb_deadline_time b]
      arg_cong[OF f, of pcb_periodic_waiting b] arg_cong[OF f, of pcb_timed_waiting b] arg_cong[OF f, of stack_of b] by simp_all
  show ?thesis
  proof (cases r)
    case (Process_Pcb i)
    have "kernel_inv (upd_pcb i f s)" by (rule upd_timing_inv_none[OF s(1)]) (simp_all add: fields)
    moreover have "timer_ok (upd_pcb i f s)" by (rule upd_timer[OF s(2)]) (simp_all add: fields)
    moreover have "same_owner (kern a) (upd_pcb i f s)" by (simp add: same_owner_upd_pcb fields s_def)
    ultimately show ?thesis
      by (simp add: Process_Pcb kept_def kernel_ok_def same_machine_def upd_pcb_at_def upd_mem_def s_def same_switch_def)
  next
    case Idle_Pcb
    with s show ?thesis
      by (simp add: kept_def kernel_ok_def same_machine_def upd_pcb_at_def upd_mem_def s_def same_switch_def fields)
  qed
qed

lemma init_stack_step:
  assumes "kernel_ok a" "maxrtos_arch_init_stack (Some r) a = (status, a')"
  shows "kept a a'" "same_switch a a'"
proof -
  have "kept a a' \<and> same_switch a a'"
  proof (cases "a' = a")
    case False
    then obtain sp g where a': "a' = upd_pcb_at r (\<lambda>b. b\<lparr>pcb_stack_pointer := sp, pcb_ipc_result_pending := False\<rparr>) (upd_mem g a)"
      using assms(2) unfolding maxrtos_arch_init_stack_def option.case Let_def
      by (simp only: prod.inject split: if_split_asm) blast+
    show ?thesis unfolding a' by (rule stack_update[OF assms(1)]) simp
  qed (use assms(1) in \<open>simp add: kept_refl same_switch_def\<close>)
  then show "kept a a'" "same_switch a a'" by blast+
qed

subsection \<open>A fault\<close>

text \<open>A planned switch to a process goes to one of partition \<open>part\<close>, which is not halted.\<close>

definition hands_to :: "u32 \<Rightarrow> arch \<Rightarrow> bool" where
  "hands_to part a \<longleftrightarrow> (\<forall>n. g_maxrtos_next_pcb a = Some (Process_Pcb n) \<longrightarrow> partition_of n a = part \<and> \<not> halted (kern a) part)"

text \<open>
  What the handling of a fault of the context \<open>r\<close> leaves: either the processor goes on as it was, and
  at most the faulting process, if it is not the one on the processor, ceased to be current; or the context on the
  processor is discarded and the switch goes to a current process of the partition or to idle. Other partitions are not affected.
\<close>

definition fault_step :: "pcb_ref \<Rightarrow> arch \<Rightarrow> arch \<Rightarrow> bool" where
  "fault_step r a a' \<longleftrightarrow> kept a a' \<and> clock_of (kern a') = clock_of (kern a)
     \<and> (\<forall>q. q \<noteq> pcb_partition_id (pcb_at r a) \<longrightarrow> current_id (kern a') q = current_id (kern a) q
          \<and> halted (kern a') q = halted (kern a) q)
     \<and> (g_maxrtos_current_pcb a' = g_maxrtos_current_pcb a \<and> g_maxrtos_next_pcb a' = g_maxrtos_next_pcb a \<and> pendsv a' = pendsv a
          \<and> (\<forall>n. runs (kern a) n \<and> (Process_Pcb n \<noteq> r \<or> g_maxrtos_current_pcb a = Some r) \<longrightarrow> runs (kern a') n)
          \<and> (\<forall>n. g_maxrtos_current_pcb a = Some (Process_Pcb n) \<longrightarrow>
               halted (kern a') (partition_of n a) = halted (kern a) (partition_of n a))
        \<or> g_maxrtos_current_pcb a' = None \<and> pendsv a' \<and> may_run (g_maxrtos_next_pcb a') a'
          \<and> hands_to (pcb_partition_id (pcb_at r a)) a')"

lemma enact_restart_step:
  assumes ok: "kernel_ok a" and part: "pcb_partition_id (pcb_at r a) < of_nat MAXRTOS_MAX_PARTITIONS" and t: "s_table a = PTR"
    and r: "enact_restart r a = Some a'"
  shows "kept a a'" "clock_of (kern a') = clock_of (kern a) \<and> halted (kern a') = halted (kern a)"
    "q \<noteq> pcb_partition_id (pcb_at r a) \<Longrightarrow> current_id (kern a') q = current_id (kern a) q"
    "if Some r = g_maxrtos_current_pcb a
     then g_maxrtos_current_pcb a' = None \<and> pendsv a' \<and> may_run (g_maxrtos_next_pcb a') a'
       \<and> hands_to (pcb_partition_id (pcb_at r a)) a'
     else g_maxrtos_current_pcb a' = g_maxrtos_current_pcb a \<and> g_maxrtos_next_pcb a' = g_maxrtos_next_pcb a
       \<and> pendsv a' = pendsv a \<and> current_id (kern a') = current_id (kern a)"
proof -
  obtain st a1 where i: "maxrtos_arch_init_stack (Some r) a = (st, a1)" by (rule prod.exhaust)
  note s1 = init_stack_step[OF ok i]
  from r i have st: "st = MAXRTOS_OK" by (auto simp: enact_restart_def split: if_splits)
  have k1: "kernel_ok a1" "s_table a1 = PTR" using s1(1) t by (simp_all add: kept_def same_machine_def)
  have p1: "pcb_partition_id (pcb_at r a1) = pcb_partition_id (pcb_at r a)"
    using s1(1) by (cases r) (simp_all add: kept_def same_owner_def same_machine_def pcb_at_def)
  have "kept a a' \<and> (clock_of (kern a') = clock_of (kern a) \<and> halted (kern a') = halted (kern a))
    \<and> (q \<noteq> pcb_partition_id (pcb_at r a) \<longrightarrow> current_id (kern a') q = current_id (kern a) q)
    \<and> (if Some r = g_maxrtos_current_pcb a
       then g_maxrtos_current_pcb a' = None \<and> pendsv a' \<and> may_run (g_maxrtos_next_pcb a') a'
       \<and> hands_to (pcb_partition_id (pcb_at r a)) a'
       else g_maxrtos_current_pcb a' = g_maxrtos_current_pcb a \<and> g_maxrtos_next_pcb a' = g_maxrtos_next_pcb a
         \<and> pendsv a' = pendsv a \<and> current_id (kern a') = current_id (kern a))"
  proof (cases "Some r = g_maxrtos_current_pcb a")
    case False
    with r i st have "a' = a1" by (simp add: enact_restart_def maxrtos_arch_get_current_pcb_def)
    with s1 False show ?thesis by (simp add: same_switch_def)
  next
    case True
    obtain status out k where sel: "maxrtos_partition_select PTR (pcb_partition_id (pcb_at r a1)) PTR True (kern a1) = (status, out, k)"
      by (rule prod_cases3)
    note sc = select_current[OF _ _ sel]
    have "kernel_inv (kern a1)" "timer_ok (kern a1)" using k1(1) by (simp_all add: kernel_ok_def)
    note sc = sc[OF this]
    from r i st True sel k1(2) have status: "status = MAXRTOS_OK"
      by (auto simp: enact_restart_def maxrtos_arch_get_current_pcb_def maxrtos_partition_yield_def split: if_splits)
    from sc(4)[OF status] obtain n where n: "out = Some n" "runs k n" "current_id k = (current_id (kern a1))(pcb_partition_id (pcb_at r a1) := n)"
      by blast
    from process_ref_runs[of "a1\<lparr>kern := k\<rparr>" n] sc(1) n(2) have ref: "process_ref n (a1\<lparr>kern := k\<rparr>) = Some (Process_Pcb n)" by simp
    from r i st True sel k1(2) status n(1) ref have a': "a' = maxrtos_arch_request_context_switch
        (maxrtos_arch_set_next_pcb (Some (Process_Pcb n)) (maxrtos_arch_set_current_pcb None (a1\<lparr>kern := k\<rparr>)))"
      by (simp add: enact_restart_def maxrtos_arch_get_current_pcb_def maxrtos_partition_yield_def Let_def)
    note live = select_live[OF sel status]
    have pm: "clock_of k = clock_of (kern a1)"
      using select_pool(3)[of "kern a1" PTR "pcb_partition_id (pcb_at r a1)" PTR True] sel k1(1)
      by (simp add: kernel_ok_def only_scheduling_iff)
    have "kept a1 a'" using sc(1-3) by (simp add: a' kept_def kernel_ok_def same_machine_def maxrtos_arch_request_context_switch_def
        maxrtos_arch_set_next_pcb_def maxrtos_arch_set_current_pcb_def)
    with s1(1) have "kept a a'" by (rule kept_trans)
    have own: "pcb_partition_id (process_pool k n) = pcb_partition_id (pcb_at r a)"
    proof -
      have c: "current_id k (pcb_partition_id (pcb_at r a)) = n" using n(3) p1 by simp
      have "n \<noteq> MAXRTOS_INVALID_PROCESS_ID" using n(2) by (simp add: runs_def)
      with part_okD(4)[OF sched_okD(3)[OF kernel_invD(1)[OF sc(1), unfolded sched_inv_def] part]] c show ?thesis by simp
    qed
    then have "hands_to (pcb_partition_id (pcb_at r a)) a'" using live(1) p1 by (simp add: hands_to_def a' maxrtos_arch_request_context_switch_def
        maxrtos_arch_set_next_pcb_def maxrtos_arch_set_current_pcb_def)
    with \<open>kept a a'\<close> show ?thesis using True n s1 p1 pm live(2) by (simp add: a' same_switch_def maxrtos_arch_request_context_switch_def
        maxrtos_arch_set_next_pcb_def maxrtos_arch_set_current_pcb_def)
  qed
  then show "kept a a'" "clock_of (kern a') = clock_of (kern a) \<and> halted (kern a') = halted (kern a)"
    "q \<noteq> pcb_partition_id (pcb_at r a) \<Longrightarrow> current_id (kern a') q = current_id (kern a) q"
    "if Some r = g_maxrtos_current_pcb a
     then g_maxrtos_current_pcb a' = None \<and> pendsv a' \<and> may_run (g_maxrtos_next_pcb a') a'
       \<and> hands_to (pcb_partition_id (pcb_at r a)) a'
     else g_maxrtos_current_pcb a' = g_maxrtos_current_pcb a \<and> g_maxrtos_next_pcb a' = g_maxrtos_next_pcb a
       \<and> pendsv a' = pendsv a \<and> current_id (kern a') = current_id (kern a)" by blast+
qed

lemma recovered_runs:
  assumes "kernel_inv s" "recovered i s s'" "runs s n" "n \<noteq> i"
  shows "runs s' n"
proof -
  have "current_id s (pcb_partition_id (process_pool s i)) = i" if "runs s i"
    by (rule runs_current[OF kernel_invD(1)[OF assms(1)] that])
  with assms(2-4) show ?thesis unfolding recovered_def
    by (metis runs_cong runs_switched(2))
qed

text \<open>A context that can fault: an allocated process, or the idle context.\<close>

definition context_ok :: "pcb_ref \<Rightarrow> arch \<Rightarrow> bool" where
  "context_ok r a = (case r of Process_Pcb i \<Rightarrow> allocated (process_pool (kern a)) i
     | Idle_Pcb \<Rightarrow> pcb_id (s_idle_pcb a) = MAXRTOS_INVALID_PROCESS_ID)"

lemma idle_enter_step:
  fixes a
  defines "a' \<equiv> maxrtos_arch_idle_enter_discarding_current a"
  assumes "kernel_ok a"
  shows "kept a a' \<and> clock_of (kern a') = clock_of (kern a) \<and> halted (kern a') = halted (kern a)
    \<and> current_id (kern a') = current_id (kern a) \<and> g_maxrtos_current_pcb a' = None \<and> pendsv a' \<and> may_run (g_maxrtos_next_pcb a') a' \<and> hands_to part a'"
proof -
  obtain st a1 where i: "maxrtos_arch_init_stack (Some Idle_Pcb) a = (st, a1)" by (rule prod.exhaust)
  note s1 = init_stack_step[OF assms(2) i]
  have a': "a' = maxrtos_arch_request_context_switch (maxrtos_arch_set_next_pcb (Some Idle_Pcb) (maxrtos_arch_set_current_pcb None a1))"
    by (simp add: a'_def maxrtos_arch_idle_enter_discarding_current_def maxrtos_arch_idle_pcb_def i)
  have "kept a1 a'" using s1(1) by (simp add: a' kept_def kernel_ok_def same_machine_def maxrtos_arch_request_context_switch_def
        maxrtos_arch_set_next_pcb_def maxrtos_arch_set_current_pcb_def)
  with s1(1) have "kept a a'" by (rule kept_trans)
  with s1(2) show ?thesis by (simp add: a' hands_to_def same_switch_def maxrtos_arch_request_context_switch_def
        maxrtos_arch_set_next_pcb_def maxrtos_arch_set_current_pcb_def)
qed

lemma recovered_kept:
  assumes "recovered i (kern a) k"
  shows "kept a (a\<lparr>kern := k\<rparr>)"
  using assms by (simp add: kept_def recovered_def kernel_ok_def same_machine_def)

lemma handle_process_fault_step:
  assumes ok: "kernel_ok a" and c: "context_ok r a"
    and h: "maxrtos_arch_handle_process_fault (Some r) fault_type a = Some a'"
  shows "fault_step r a a'" "\<exists>i. r = Process_Pcb i"
proof -
  from h obtain hm status action k where t: "s_table a = PTR" "s_hm a = Some hm"
    and rec: "maxrtos_fault_recovery_handle PTR hm PTR (pcb_id (pcb_at r a)) fault_type PTR (kern a) = (MAXRTOS_OK, action, k)"
    and a': "(case action of
         Some MAXRTOS_HM_ACTION_IGNORE \<Rightarrow> Some (a\<lparr>kern := k\<rparr>)
       | Some MAXRTOS_HM_ACTION_RESTART_PROCESS \<Rightarrow> enact_restart r (a\<lparr>kern := k\<rparr>)
       | Some MAXRTOS_HM_ACTION_HALT_PARTITION \<Rightarrow>
           (case g_maxrtos_current_pcb a of
              Some current \<Rightarrow>
                if pcb_partition_id (pcb_at current (a\<lparr>kern := k\<rparr>)) = pcb_partition_id (pcb_at r (a\<lparr>kern := k\<rparr>))
                then Some (maxrtos_arch_idle_enter_discarding_current (a\<lparr>kern := k\<rparr>)) else Some (a\<lparr>kern := k\<rparr>)
            | None \<Rightarrow> Some (a\<lparr>kern := k\<rparr>))
       | _ \<Rightarrow> None) = Some a'"
    by (cases "s_table a") (auto simp: maxrtos_arch_handle_process_fault_def maxrtos_arch_get_current_pcb_def Let_def
        split: option.splits prod.splits if_splits)
  let ?a1 = "a\<lparr>kern := k\<rparr>"
  have inv: "kernel_inv (kern a)" "timer_ok (kern a)" using ok by (simp_all add: kernel_ok_def)
  note rh = recovery_handle_recovers[OF inv rec]
  from c rh(3) obtain i where i: "r = Process_Pcb i" "allocated (process_pool (kern a)) i"
    by (cases r) (auto simp: context_ok_def pcb_at_def)
  then have id: "pcb_id (pcb_at r a) = i" "pcb_at r a = process_pool (kern a) i"
    using sched_okD(4)[OF kernel_invD(1)[OF inv(1), unfolded sched_inv_def], of i] by (simp_all add: pcb_at_def)
  note rh = rh[unfolded id(1)]
  let ?p = "pcb_partition_id (process_pool (kern a) i)"
  have p: "?p < of_nat MAXRTOS_MAX_PARTITIONS"
    using sched_okD(1)[OF kernel_invD(1)[OF inv(1), unfolded sched_inv_def] i(2)] by (simp add: pcb_ok_def)
  have k1: "kept a ?a1" "kernel_ok ?a1" using recovered_kept[OF rh(1)] by (simp_all add: kept_def)
  have cur1: "\<forall>q. q \<noteq> ?p \<longrightarrow> current_id k q = current_id (kern a) q \<and> halted k q = halted (kern a) q" and pm1: "clock_of k = clock_of (kern a)"
    and own: "pcb_partition_id (process_pool k i) = ?p"
    using rh(1) by (auto simp: recovered_def same_owner_def)
  have quiet: "fault_step r a ?a1" if "action \<noteq> Some MAXRTOS_HM_ACTION_RESTART_PROCESS"
    "\<And>n. action = Some MAXRTOS_HM_ACTION_HALT_PARTITION \<Longrightarrow> g_maxrtos_current_pcb a = Some (Process_Pcb n) \<Longrightarrow> partition_of n a \<noteq> ?p"
  proof -
    note nr = that(1) and away = that(2)
    have "halted k (partition_of n a) = halted (kern a) (partition_of n a)" if n: "g_maxrtos_current_pcb a = Some (Process_Pcb n)" for n
      using rh(4) cur1 away[OF _ n]
      by (cases "action = Some MAXRTOS_HM_ACTION_HALT_PARTITION") simp_all
    with k1 pm1 rh(2)[OF nr] cur1 id show ?thesis by (simp add: fault_step_def runs_def)
  qed
  show "\<exists>i. r = Process_Pcb i" using i by blast
  show "fault_step r a a'"
  proof (cases action)
    case None
    with a' show ?thesis by simp
  next
    case (Some act)
    show ?thesis
    proof (cases act)
      case MAXRTOS_HM_ACTION_IGNORE
      with a' quiet Some show ?thesis by simp
    next
      case MAXRTOS_HM_ACTION_RESTART_PROCESS
      with a' Some have r: "enact_restart r ?a1 = Some a'" by simp
      have at: "pcb_partition_id (pcb_at r ?a1) = ?p" using own by (simp add: i(1) pcb_at_def)
      note e = enact_restart_step[OF k1(2) _ _ r]
      have e: "kept ?a1 a'" "clock_of (kern a') = clock_of k \<and> halted (kern a') = halted (kern a)"
        "q \<noteq> ?p \<Longrightarrow> current_id (kern a') q = current_id k q"
        "if Some r = g_maxrtos_current_pcb a
         then g_maxrtos_current_pcb a' = None \<and> pendsv a' \<and> may_run (g_maxrtos_next_pcb a') a' \<and> hands_to ?p a'
         else g_maxrtos_current_pcb a' = g_maxrtos_current_pcb a \<and> g_maxrtos_next_pcb a' = g_maxrtos_next_pcb a
           \<and> pendsv a' = pendsv a \<and> current_id (kern a') = current_id k" for q
        using e(1,2,4)[unfolded at] e(3)[of q, unfolded at] p t rh(4) Some MAXRTOS_HM_ACTION_RESTART_PROCESS by (simp_all split: if_splits)
      have "runs (kern a') n" if "Some r \<noteq> g_maxrtos_current_pcb a" "runs (kern a) n" "n \<noteq> i" for n
        using recovered_runs[OF inv(1) rh(1) that(2,3)] e(4) that(1) by (simp add: runs_def)
      then show ?thesis using kept_trans[OF k1(1) e(1)] e(2,3,4) cur1 pm1 i id
        by (auto simp: fault_step_def split: if_splits)
    next
      case MAXRTOS_HM_ACTION_HALT_PARTITION
      then have nr: "action \<noteq> Some MAXRTOS_HM_ACTION_RESTART_PROCESS" using Some by simp
      from a' Some MAXRTOS_HM_ACTION_HALT_PARTITION
      have "a' = ?a1 \<and> (\<forall>n. g_maxrtos_current_pcb a = Some (Process_Pcb n) \<longrightarrow> partition_of n a \<noteq> ?p)
        \<or> a' = maxrtos_arch_idle_enter_discarding_current ?a1"
        using rh(1) by (auto simp: i(1) pcb_at_def recovered_def same_owner_def split: option.splits if_splits)
      then show ?thesis
      proof
        assume "a' = ?a1 \<and> (\<forall>n. g_maxrtos_current_pcb a = Some (Process_Pcb n) \<longrightarrow> partition_of n a \<noteq> ?p)"
        with quiet[OF nr] show ?thesis by blast
      next
        assume e: "a' = maxrtos_arch_idle_enter_discarding_current ?a1"
        from idle_enter_step[OF k1(2), folded e] kept_trans[OF k1(1)] cur1 pm1 i id show ?thesis
          by (auto simp: fault_step_def)
      qed
    qed (use a' Some in auto)
  qed
qed

subsection \<open>The tick interrupt\<close>

text \<open>
  Between the steps of the tick handler, which starts with no switch pending: a switch is planned only
  after the running context was discarded, else the running context may go on.
\<close>

definition ticking :: "arch \<Rightarrow> bool" where
  "ticking a \<longleftrightarrow> kernel_ok a \<and> pcb_id (s_idle_pcb a) = MAXRTOS_INVALID_PROCESS_ID
     \<and> (if pendsv a then g_maxrtos_current_pcb a = None else may_run (g_maxrtos_current_pcb a) a)"

lemma fault_step_ticking:
  assumes "ticking a" "fault_step r a a'"
  shows "ticking a'"
proof -
  have k: "kernel_ok a'" "pcb_id (s_idle_pcb a') = MAXRTOS_INVALID_PROCESS_ID"
    using assms by (simp_all add: ticking_def fault_step_def kept_def same_machine_def)
  from assms(2) show ?thesis unfolding fault_step_def
  proof (elim conjE disjE)
    assume s: "g_maxrtos_current_pcb a' = g_maxrtos_current_pcb a" "pendsv a' = pendsv a"
      "\<forall>n. runs (kern a) n \<and> (Process_Pcb n \<noteq> r \<or> g_maxrtos_current_pcb a = Some r) \<longrightarrow> runs (kern a') n"
    have "may_run (g_maxrtos_current_pcb a) a' \<or> pendsv a"
      using assms(1) s(3) by (auto simp: ticking_def may_run_def split: pcb_ref.splits option.splits if_splits)
    with s k assms(1) show ?thesis by (auto simp: ticking_def split: if_splits)
  qed (use k in \<open>simp add: ticking_def\<close>)
qed

lemma pending_misses_inv:
  "kernel_inv (s\<lparr>s_pending_misses := w\<rparr>) = kernel_inv s" "timer_ok (s\<lparr>s_pending_misses := w\<rparr>) = timer_ok s"
  "same_owner t (s\<lparr>s_pending_misses := w\<rparr>) = same_owner t s" "runs (s\<lparr>s_pending_misses := w\<rparr>) n = runs s n"
  by (simp_all add: kernel_inv_def sched_inv_def due_ok_def timer_ok_def queued_in_def same_owner_def runs_def)

lemma pending_misses_ticking:
  assumes "ticking a"
  shows "ticking (a\<lparr>kern := (kern a)\<lparr>s_pending_misses := w\<rparr>\<rparr>)" "kept a (a\<lparr>kern := (kern a)\<lparr>s_pending_misses := w\<rparr>\<rparr>)"
proof -
  have "may_run r (a\<lparr>kern := (kern a)\<lparr>s_pending_misses := w\<rparr>\<rparr>) = may_run r a" for r
    by (simp add: may_run_def pending_misses_inv split: option.split pcb_ref.split)
  with assms show "ticking (a\<lparr>kern := (kern a)\<lparr>s_pending_misses := w\<rparr>\<rparr>)"
    by (simp add: ticking_def kernel_ok_def pending_misses_inv)
  show "kept a (a\<lparr>kern := (kern a)\<lparr>s_pending_misses := w\<rparr>\<rparr>)"
    using assms by (simp add: kept_def ticking_def kernel_ok_def same_machine_def pending_misses_inv)
qed

text \<open>
  What the loop is to do with a list of recorded misses: take each off the record and hand its process, if
  there is one, to fault recovery. \<open>None\<close> is a recovery that halts.
\<close>

primrec recover_misses :: "nat list \<Rightarrow> arch \<Rightarrow> arch option" where
  "recover_misses [] a = Some a"
| "recover_misses (k # ks) a =
     (let a1 = a\<lparr>kern := (kern a)\<lparr>s_pending_misses := unset_bit k (s_pending_misses (kern a))\<rparr>\<rparr> in
      case process_ref (of_nat k) a1 of
        None \<Rightarrow> recover_misses ks a1
      | Some missed \<Rightarrow> (case maxrtos_arch_handle_process_fault (Some missed) MAXRTOS_FAULT_DEADLINE_EXCEEDED a1 of
             None \<Rightarrow> None | Some a2 \<Rightarrow> recover_misses ks a2))"

definition misses_of :: "u32 \<Rightarrow> nat list" where
  "misses_of p = filter (bit p) [0..<32]"

lemma misses_of_least:
  assumes "k < 32" "bit p k" "\<And>j. j < k \<Longrightarrow> \<not> bit p j"
  shows "misses_of p = k # misses_of (unset_bit k p)"
proof -
  have s: "[0..<32] = [0..<k] @ k # [Suc k..<32]" using assms(1) by (metis le_add1 less_imp_add_positive upt_add_eq_append upt_conv_Cons plus_nat.add_0)
  have b: "bit (unset_bit k p) j \<longleftrightarrow> bit p j \<and> j \<noteq> k" for j
    by (auto simp: bit_unset_bit_iff)
  have "filter (bit p) [0..<k] = []" using assms(3) by (simp add: filter_empty_conv)
  moreover have "filter (bit (unset_bit k p)) [0..<k] = []"
    using assms(3) by (auto simp: filter_empty_conv b)
  moreover have "filter (bit (unset_bit k p)) [Suc k..<32] = filter (bit p) [Suc k..<32]"
    by (rule filter_cong) (use b in auto)
  moreover have "\<not> bit (unset_bit k p) k" using b by simp
  ultimately show ?thesis using assms(2) by (simp add: misses_of_def s)
qed

lemma misses_of_zero [simp]: "misses_of 0 = []"
  by (simp add: misses_of_def)

text \<open>One round of the loop over the deadline misses: the miss is taken, and recovered if there is such a process.\<close>

lemma deadline_miss_step:
  assumes t: "ticking a"
  shows "s_pending_misses (kern a) = 0 \<Longrightarrow> handle_deadline_misses a = Some (Some a)"
    and "s_pending_misses (kern a) \<noteq> 0 \<Longrightarrow> \<exists>k w a1. a1 = a\<lparr>kern := (kern a)\<lparr>s_pending_misses := w\<rparr>\<rparr>
      \<and> w = unset_bit k (s_pending_misses (kern a)) \<and> misses_of (s_pending_misses (kern a)) = k # misses_of w
      \<and> card {j. bit w j} < card {j. bit (s_pending_misses (kern a)) j} \<and> ticking a1 \<and> kept a a1
      \<and> (\<forall>r. process_ref (of_nat k) a1 = Some r \<longrightarrow> context_ok r a1)
      \<and> handle_deadline_misses a = (case process_ref (of_nat k) a1 of None \<Rightarrow> handle_deadline_misses a1
        | Some missed \<Rightarrow> (case maxrtos_arch_handle_process_fault (Some missed) MAXRTOS_FAULT_DEADLINE_EXCEEDED a1 of
             None \<Rightarrow> Some None | Some a2 \<Rightarrow> handle_deadline_misses a2))"
proof -
  let ?p = "s_pending_misses (kern a)"
  note take = take_deadline_miss_returns[where s = "kern a" and outp = PTR]
  show "handle_deadline_misses a = Some (Some a)" if "?p = 0"
    using take that by (subst handle_deadline_misses.simps) simp
  assume p: "?p \<noteq> 0"
  with take obtain i s' where least: "i < 32" "\<And>j. j < i \<Longrightarrow> \<not> bit ?p j" and i: "bit ?p i" "maxrtos_kernel_take_deadline_miss PTR (kern a) = Some (True, Some (of_nat i), s')"
    "s' = (kern a)\<lparr>s_pending_misses := s_pending_misses s'\<rparr>" "\<And>j. bit (s_pending_misses s') j \<longleftrightarrow> bit ?p j \<and> j \<noteq> i" by blast
  define w where "w = s_pending_misses s'"
  define a1 where "a1 = a\<lparr>kern := s'\<rparr>"
  have a1: "a1 = a\<lparr>kern := (kern a)\<lparr>s_pending_misses := w\<rparr>\<rparr>" unfolding a1_def w_def by (subst i(3)) (rule refl)
  have w: "w = unset_bit i ?p"
    by (rule bit_eqI) (auto simp: w_def i(4) bit_unset_bit_iff)
  note m = misses_of_least[OF least(1) i(1) least(2), folded w]
  have fin: "finite {j. bit ?p j}" by (rule finite_subset[of _ "{..<32}"]) (auto dest: bit_imp_le_length)
  have less: "card {j. bit w j} < card {j. bit ?p j}"
    by (rule psubset_card_mono[OF fin]) (use i(1,4) in \<open>auto simp: w_def\<close>)
  have "handle_deadline_misses a =
     (case process_ref (of_nat i) a1 of None \<Rightarrow> handle_deadline_misses a1
      | Some missed \<Rightarrow> (case maxrtos_arch_handle_process_fault (Some missed) MAXRTOS_FAULT_DEADLINE_EXCEEDED a1 of
           None \<Rightarrow> Some None | Some a2 \<Rightarrow> handle_deadline_misses a2))"
    using i(2) unfolding a1_def by (subst handle_deadline_misses.simps) (simp add: Let_def)
  moreover have "context_ok r a1" if "process_ref (of_nat i) a1 = Some r" for r
    using that by (auto simp: process_ref_def process_get_eq context_ok_def split: option.splits if_splits)
  ultimately show "\<exists>k w a1. a1 = a\<lparr>kern := (kern a)\<lparr>s_pending_misses := w\<rparr>\<rparr>
      \<and> w = unset_bit k (s_pending_misses (kern a)) \<and> misses_of (s_pending_misses (kern a)) = k # misses_of w
      \<and> card {j. bit w j} < card {j. bit (s_pending_misses (kern a)) j} \<and> ticking a1 \<and> kept a a1
      \<and> (\<forall>r. process_ref (of_nat k) a1 = Some r \<longrightarrow> context_ok r a1)
      \<and> handle_deadline_misses a = (case process_ref (of_nat k) a1 of None \<Rightarrow> handle_deadline_misses a1
        | Some missed \<Rightarrow> (case maxrtos_arch_handle_process_fault (Some missed) MAXRTOS_FAULT_DEADLINE_EXCEEDED a1 of
             None \<Rightarrow> Some None | Some a2 \<Rightarrow> handle_deadline_misses a2))"
    using pending_misses_ticking[OF t, of w, folded a1] a1 less w m by blast
qed

lemma handle_deadline_misses_returns:
  "ticking a \<Longrightarrow> handle_deadline_misses a = Some (recover_misses (misses_of (s_pending_misses (kern a))) a)
    \<and> (\<forall>a'. recover_misses (misses_of (s_pending_misses (kern a))) a = Some a' \<longrightarrow>
         kept a a' \<and> ticking a' \<and> clock_of (kern a') = (0, s_current_tick (kern a)))"
proof (induction "card {j. bit (s_pending_misses (kern a)) j}" arbitrary: a rule: less_induct)
  case less
  note step = deadline_miss_step[OF less.prems]
  show ?case
  proof (cases "s_pending_misses (kern a) = 0")
    case True
    with step(1) less.prems kept_refl[of a] show ?thesis by (simp add: ticking_def)
  next
    case False
    from step(2)[OF False] obtain k w a1 where a1: "a1 = a\<lparr>kern := (kern a)\<lparr>s_pending_misses := w\<rparr>\<rparr>"
      "card {j. bit w j} < card {j. bit (s_pending_misses (kern a)) j}" "ticking a1" "kept a a1"
      "\<And>r. process_ref (of_nat k) a1 = Some r \<Longrightarrow> context_ok r a1"
      and ref: "w = unset_bit k (s_pending_misses (kern a))" "misses_of (s_pending_misses (kern a)) = k # misses_of w"
      and code: "handle_deadline_misses a = (case process_ref (of_nat k) a1 of None \<Rightarrow> handle_deadline_misses a1
        | Some missed \<Rightarrow> (case maxrtos_arch_handle_process_fault (Some missed) MAXRTOS_FAULT_DEADLINE_EXCEEDED a1 of
             None \<Rightarrow> Some None | Some a2 \<Rightarrow> handle_deadline_misses a2))" by blast
    have same: "recover_misses (misses_of (s_pending_misses (kern a))) a = (case process_ref (of_nat k) a1 of
        None \<Rightarrow> recover_misses (misses_of w) a1
      | Some missed \<Rightarrow> (case maxrtos_arch_handle_process_fault (Some missed) MAXRTOS_FAULT_DEADLINE_EXCEEDED a1 of
             None \<Rightarrow> None | Some a2 \<Rightarrow> recover_misses (misses_of w) a2))"
      unfolding ref(2) recover_misses.simps Let_def ref(1)[symmetric] a1(1) by (rule refl)
    have rest: "handle_deadline_misses a2 = Some (recover_misses (misses_of w) a2)
        \<and> (\<forall>a'. recover_misses (misses_of w) a2 = Some a' \<longrightarrow>
             kept a a' \<and> ticking a' \<and> clock_of (kern a') = (0, s_current_tick (kern a)))"
      if a2: "kept a1 a2" "ticking a2" "clock_of (kern a2) = clock_of (kern a1)" for a2
    proof -
      have m: "s_pending_misses (kern a2) = w" "s_current_tick (kern a2) = s_current_tick (kern a)" using a2(3) by (simp_all add: a1(1))
      have "card {j. bit (s_pending_misses (kern a2)) j} < card {j. bit (s_pending_misses (kern a)) j}" using a1(2) m(1) by simp
      note ih = less.hyps[OF this a2(2), unfolded m]
      have "kept a a'" if "kept a2 a'" for a' by (rule kept_trans[OF kept_trans[OF a1(4) a2(1)] that])
      with ih show ?thesis by blast
    qed
    show ?thesis
    proof (cases "process_ref (of_nat k) a1")
      case None
      have "kept a1 a1" using a1(3) kept_refl[of a1] by (simp add: ticking_def)
      from rest[OF this a1(3) refl] None show ?thesis unfolding code same by simp
    next
      case (Some r)
      show ?thesis
      proof (cases "maxrtos_arch_handle_process_fault (Some r) MAXRTOS_FAULT_DEADLINE_EXCEEDED a1")
        case None
        with Some show ?thesis unfolding code same by simp
      next
        case f: (Some a2)
        have "kernel_ok a1" using a1(3) by (simp add: ticking_def)
        note fs = handle_process_fault_step(1)[OF this a1(5)[OF Some] f]
        have "kept a1 a2" "clock_of (kern a2) = clock_of (kern a1)" using fs by (simp_all add: fault_step_def)
        from rest[OF this(1) fault_step_ticking[OF a1(3) fs] this(2)] f Some show ?thesis unfolding code same by simp
      qed
    qed
  qed
qed

subsection \<open>The invariant of the machine\<close>

text \<open>The context on the processor is behind the region and at the privilege of its partition.\<close>

definition confined :: "pcb_ref \<Rightarrow> arch \<Rightarrow> bool" where
  "confined r a \<longleftrightarrow> (let p = pcb_partition_id (pcb_at r a) in
     (p = MAXRTOS_INVALID_PARTITION_ID \<or> (\<exists>region. partition_region (mpu_unit a) p = Some region \<and> unit_maps (mpu_unit a) region))
     \<and> (bit (control a) 0 \<longleftrightarrow> \<not> maxrtos_arch_partition_is_privileged p a))"

text \<open>The unit is on and the regions above the partition region are off, as \<open>maxrtos_arch_mpu_init\<close> leaves them.\<close>

definition unit_armed :: "mpu_hw \<Rightarrow> bool" where
  "unit_armed hw \<longleftrightarrow> unit_on hw \<and> (\<forall>r. MAXRTOS_MPU_PARTITION_REGION < r \<and> r < MAXRTOS_MPU_HW_REGION_COUNT \<longrightarrow>
     \<not> bit (snd (region_regs hw r)) 0)"

lemma disable_region_regs:
  "region_regs (maxrtos_arch_mpu_disable_region r hw) q = (if q = r then (fst (region_regs hw q), 0) else region_regs hw q)"
  by (cases "unit_state hw" rule: prod_cases3) (simp add: maxrtos_arch_mpu_disable_region_def region_regs_def)

lemma disable_regions_off:
  "q \<in> set rs \<or> \<not> bit (snd (region_regs hw q)) 0 \<Longrightarrow>
    \<not> bit (snd (region_regs (fold maxrtos_arch_mpu_disable_region rs hw) q)) 0"
proof (induction rs arbitrary: hw)
  case (Cons r rs)
  have "q \<in> set rs \<or> \<not> bit (snd (region_regs (maxrtos_arch_mpu_disable_region r hw) q)) 0"
    using Cons.prems by (cases "q = r") (simp_all add: disable_region_regs)
  from Cons.IH[OF this] show ?case by simp
qed simp

lemma mpu_init_arms: "unit_armed (maxrtos_arch_mpu_init privileged_default_map hw)"
proof -
  let ?rs = "map of_nat [unat (MAXRTOS_MPU_PARTITION_REGION + 1)..<unat MAXRTOS_MPU_HW_REGION_COUNT] :: u32 list"
  have "q \<in> set ?rs" if "8 < q" "q < 16" for q :: u32
    unfolding set_map set_upt by (rule image_eqI[of _ _ "unat q"]) (use that in \<open>simp_all add: word_less_nat_alt\<close>)
  then have "\<not> bit (snd (region_regs (fold maxrtos_arch_mpu_disable_region ?rs hw) q)) 0" if "8 < q" "q < 16" for q
    using disable_regions_off[of q ?rs hw] that by blast
  moreover have "region_regs (mpu_reg_write MAXRTOS_MPU_CTRL v h) q = region_regs h q" for v h q
    by (cases "unit_state h" rule: prod_cases3) (simp add: region_regs_def)
  moreover have "unit_on (maxrtos_arch_mpu_init privileged_default_map hw)"
    by (simp add: unit_on_def maxrtos_arch_mpu_init_def bit_or_iff)
  ultimately show ?thesis unfolding unit_armed_def maxrtos_arch_mpu_init_def by presburger
qed

definition machine_core :: "arch \<Rightarrow> bool" where
  "machine_core a \<longleftrightarrow> kernel_ok a \<and> uncrowded (kern a) \<and> s_table a = PTR
     \<and> (\<forall>schedule. s_frame_schedule a = Some schedule \<longrightarrow> frame_wf schedule)
     \<and> mpu_hw_ok (mpu_unit a) \<and> active_mapped (mpu_unit a) \<and> unit_armed (mpu_unit a)
     \<and> pcb_id (s_idle_pcb a) = MAXRTOS_INVALID_PROCESS_ID \<and> pcb_partition_id (s_idle_pcb a) = MAXRTOS_INVALID_PARTITION_ID
     \<and> (\<forall>r. g_maxrtos_current_pcb a = Some r \<longrightarrow> context_ok r a \<and> confined r a)"

definition machine_ok :: "arch \<Rightarrow> bool" where
  "machine_ok a \<longleftrightarrow> machine_core a \<and> may_run (cpu_pcb a) a"

lemma partition_kept: "same_machine a a' \<Longrightarrow> same_owner (kern a) (kern a') \<Longrightarrow>
    pcb_partition_id (pcb_at r a') = pcb_partition_id (pcb_at r a)"
  by (cases r) (simp_all add: same_machine_def same_owner_def pcb_at_def)

lemma machine_core_kept:
  assumes "machine_core a" "kept a a'"
  shows "machine_core a'"
proof -
  have k: "same_machine a a'" "same_owner (kern a) (kern a')" "kernel_ok a'" using assms(2) by (simp_all add: kept_def)
  have "confined r a' = confined r a" for r
    using k(1) partition_kept[OF k(1,2), of r]
    by (simp add: confined_def same_machine_def maxrtos_arch_partition_is_privileged_def)
  moreover have "context_ok r a' = context_ok r a" for r
    using k by (cases r) (simp_all add: context_ok_def same_owner_def same_machine_def)
  ultimately have c: "\<forall>r. g_maxrtos_current_pcb a' = Some r \<longrightarrow> context_ok r a' \<and> confined r a'"
    using assms by (auto simp: machine_core_def kept_def)
  have "uncrowded (kern a')" using assms(1) uncrowded_owner[OF k(2)] by (simp add: machine_core_def)
  with c k assms(1) show ?thesis by (simp add: machine_core_def same_machine_def)
qed

lemma may_run_cong: "current_id (kern a') = current_id (kern a) \<Longrightarrow> may_run r a' = may_run r a"
  by (simp add: may_run_def runs_def split: option.split pcb_ref.split)

text \<open>The partition of the slot the major frame is in.\<close>

definition slot_partition :: "maxrtos_frame_schedule_t \<Rightarrow> u32 \<Rightarrow> u32" where
  "slot_partition schedule tick = frame_timeline schedule ! (unat tick mod length (frame_timeline schedule))"

lemma same_machine_simps [simp]: "same_machine a a" "same_machine b (a\<lparr>kern := k\<rparr>) = same_machine b a"
  by (simp_all add: same_machine_def)

lemma systick_switch_fields [simp]:
  "kern (systick_switch st out a) = kern a" "g_maxrtos_current_pcb (systick_switch st out a) = g_maxrtos_current_pcb a"
  "same_machine b (systick_switch st out a) = same_machine b a"
  by (auto simp: systick_switch_def switch_to_def maxrtos_arch_set_next_pcb_def maxrtos_arch_request_context_switch_def
      same_machine_def split: option.split)

lemma ticking_start: "machine_ok a \<Longrightarrow> \<not> pendsv a \<Longrightarrow> ticking a"
  by (simp add: machine_ok_def machine_core_def ticking_def cpu_pcb_def)

lemma systick_step:
  assumes ok: "machine_ok a" "\<not> pendsv a" and r: "maxrtos_arch_systick a = Some a'"
  shows "kept a a'" "may_run (cpu_pcb a') a'"
    and "s_frame_schedule a = Some schedule \<Longrightarrow> s_partition_table a = PTR \<Longrightarrow>
      s_current_tick (kern a') = s_current_tick (kern a) + 1 \<and>
      (let part = slot_partition schedule (s_current_tick (kern a)) in
         if idle_partition (kern a') part \<and> cpu_pcb a' = Some Idle_Pcb then True
         else \<exists>n. cpu_pcb a' = Some (Process_Pcb n) \<and> runs (kern a') n \<and> current_id (kern a') part = n
           \<and> pcb_partition_id (process_pool (kern a') n) = part \<and> \<not> halted (kern a') part)"
proof -
  have "kept a a' \<and> may_run (cpu_pcb a') a' \<and> (s_frame_schedule a = Some schedule \<longrightarrow> s_partition_table a = PTR \<longrightarrow>
      s_current_tick (kern a') = s_current_tick (kern a) + 1 \<and>
      (let part = slot_partition schedule (s_current_tick (kern a)) in
         if idle_partition (kern a') part \<and> cpu_pcb a' = Some Idle_Pcb then True
         else \<exists>n. cpu_pcb a' = Some (Process_Pcb n) \<and> runs (kern a') n \<and> current_id (kern a') part = n
           \<and> pcb_partition_id (process_pool (kern a') n) = part \<and> \<not> halted (kern a') part))"
  proof (cases "s_frame_schedule a = None \<or> s_partition_table a = NULL")
    case True
    with r have "a' = a" by (auto simp: maxrtos_arch_systick_def split: option.splits)
    with ok True show ?thesis by (auto simp: machine_ok_def machine_core_def kept_refl)
  next
    case False
    then obtain sched where sched: "s_frame_schedule a = Some sched" "s_partition_table a = PTR" by (cases "s_partition_table a") auto
    from handle_deadline_misses_returns[OF ticking_start[OF ok]] r sched obtain a1 where a1:
      "handle_deadline_misses a = Some (Some a1)" "kept a a1" "ticking a1" "s_current_tick (kern a1) = s_current_tick (kern a)"
      by (auto simp: maxrtos_arch_systick_def split: option.splits)
    obtain st out k where t: "maxrtos_kernel_on_tick PTR sched PTR PTR (kern a1) = (st, out, k)" by (rule prod_cases3)
    have "s_partition_table a1 = PTR" using a1(2) sched(2) by (simp add: kept_def same_machine_def)
    then have a': "a' = systick_switch st out (a1\<lparr>kern := k\<rparr>)"
      using r sched a1(1) t by (simp add: maxrtos_arch_systick_def)
    have c1: "machine_core a1" using ok(1) machine_core_kept[OF _ a1(2)] by (simp add: machine_ok_def)
    let ?part = "slot_partition sched (s_current_tick (kern a))"
    have wf: "frame_wf sched" using ok(1) sched(1) by (simp add: machine_ok_def machine_core_def)
    have inv1: "kernel_inv (kern a1)" "timer_ok (kern a1)" "uncrowded (kern a1)" using c1 by (simp_all add: machine_core_def kernel_ok_def)
    note d = tick_dispatches[OF inv1 wf t, folded slot_partition_def, unfolded a1(4)]
    have "kept a1 a'" using d(1-3) by (simp add: a' kept_def kernel_ok_def)
    with a1(2) have kept: "kept a a'" by (rule kept_trans)
    have quiet: "cpu_pcb (a1\<lparr>kern := k\<rparr>) = g_maxrtos_current_pcb a1" if "g_maxrtos_current_pcb a1 \<noteq> None"
      using a1(3) that by (auto simp: ticking_def cpu_pcb_def split: if_splits)
    show ?thesis
    proof (cases "st = MAXRTOS_OK")
      case True
      from d(4)[OF True] obtain n where n: "out = Some n" "runs k n" "pcb_partition_id (process_pool k n) = ?part"
        "current_id k = (current_id (kern a1))(?part := n)" "\<not> halted k ?part" by blast
      have ref: "process_ref n (a1\<lparr>kern := k\<rparr>) = Some (Process_Pcb n)" by (rule process_ref_runs) (use d(1) n(2) in simp_all)
      have "cpu_pcb a' = Some (Process_Pcb n)"
        using quiet by (cases "g_maxrtos_current_pcb a1 = Some (Process_Pcb n)")
          (auto simp: a' systick_switch_def True n(1) ref maxrtos_arch_get_current_pcb_def)
      then show ?thesis using kept n d(6) sched by (auto simp: a')
    next
      case False
      have "cpu_pcb a' = Some Idle_Pcb"
        using d(5)[OF False] quiet by (cases "g_maxrtos_current_pcb a1 = Some Idle_Pcb")
          (auto simp: a' systick_switch_def maxrtos_arch_get_current_pcb_def maxrtos_arch_idle_pcb_def)
      then show ?thesis using kept d(5)[OF False] d(6) sched by (auto simp: a')
    qed
  qed
  then show "kept a a'" "may_run (cpu_pcb a') a'"
    and "s_frame_schedule a = Some schedule \<Longrightarrow> s_partition_table a = PTR \<Longrightarrow>
      s_current_tick (kern a') = s_current_tick (kern a) + 1 \<and>
      (let part = slot_partition schedule (s_current_tick (kern a)) in
         if idle_partition (kern a') part \<and> cpu_pcb a' = Some Idle_Pcb then True
         else \<exists>n. cpu_pcb a' = Some (Process_Pcb n) \<and> runs (kern a') n \<and> current_id (kern a') part = n
           \<and> pcb_partition_id (process_pool (kern a') n) = part \<and> \<not> halted (kern a') part)" by blast+
qed

subsection \<open>The context switch\<close>

lemma resume_result_step:
  assumes "kernel_ok a"
  shows "kept a (maxrtos_arch_apply_resume_result (Some r) a) \<and> same_switch a (maxrtos_arch_apply_resume_result (Some r) a)"
proof (cases "pcb_ipc_result_pending (pcb_at r a) \<and> pcb_stack_pointer (pcb_at r a) \<noteq> 0")
  case True
  then show ?thesis
    by (simp add: maxrtos_arch_apply_resume_result_def Let_def stack_update[OF assms])
next
  case False
  then have "maxrtos_arch_apply_resume_result (Some r) a = a"
    by (auto simp: maxrtos_arch_apply_resume_result_def Let_def)
  with assms show ?thesis by (simp add: kept_refl same_switch_def)
qed

text \<open>Preparing an allocated context confines it.\<close>

lemma prepare_step:
  assumes core: "machine_core a" and c: "context_ok r a"
    and p: "maxrtos_arch_prepare_next_pcb (Some r) a = Some (MAXRTOS_OK, a')"
  shows "machine_core (a'\<lparr>g_maxrtos_current_pcb := Some r, pendsv := False\<rparr>)" "current_id (kern a') = current_id (kern a)"
    "same_owner (kern a) (kern a')" "same_setting a a'" "clock_of (kern a') = clock_of (kern a)"
    "halted (kern a') = halted (kern a)"
proof -
  have k: "mpu_hw_ok (mpu_unit a)" "active_mapped (mpu_unit a)" using core by (simp_all add: machine_core_def)
  from p obtain hw where hw: "maxrtos_arch_mpu_configure_for_next_pcb (Some (pcb_at r a)) (mpu_unit a) = Some (MAXRTOS_OK, hw)"
    and a': "a' = maxrtos_arch_apply_resume_result (Some r) (maxrtos_arch_apply_privilege_for_next_pcb (Some r) (a\<lparr>mpu_unit := hw\<rparr>))"
    by (auto simp: maxrtos_arch_prepare_next_pcb_def Let_def split: option.splits prod.splits if_splits)
  define a1 where "a1 = maxrtos_arch_apply_privilege_for_next_pcb (Some r) (a\<lparr>mpu_unit := hw\<rparr>)"
  obtain w where a1: "a1 = a\<lparr>mpu_unit := hw, control := w\<rparr>" by (auto simp: a1_def apply_privilege_eq)
  have ok1: "kernel_ok a1" using core by (simp add: a1 machine_core_def kernel_ok_def)
  note rr = resume_result_step[OF ok1, of r, folded a1_def, unfolded a'[folded a1_def, symmetric]]
  have hwm: "active_mapped hw" "ctrl_reg hw = ctrl_reg (mpu_unit a)" "s_config hw = s_config (mpu_unit a)" "\<And>r. r \<noteq> 8 \<Longrightarrow> region_regs hw r = region_regs (mpu_unit a) r"
    using mpu_maps_next_partition[OF k, of "pcb_at r a"] hw by auto
  have off: "unit_armed hw"
    using core hwm(2,4) by (auto simp: machine_core_def unit_armed_def unit_on_def)
  have m: "mpu_unit a' = hw" "control a' = control a1" "s_partition_privileged a' = s_partition_privileged a"
    "s_table a' = s_table a" "s_frame_schedule a' = s_frame_schedule a"
    "pcb_id (s_idle_pcb a') = pcb_id (s_idle_pcb a)" "pcb_partition_id (s_idle_pcb a') = pcb_partition_id (s_idle_pcb a)"
    using rr by (simp_all add: kept_def same_machine_def) (simp_all add: a1)
  have k1: "kern a1 = kern a" by (simp add: a1)
  have own: "same_owner (kern a) (kern a')" "kernel_ok a'" "current_id (kern a') = current_id (kern a)"
    "clock_of (kern a') = clock_of (kern a)" "halted (kern a') = halted (kern a)"
    using rr k1 by (simp_all add: kept_def same_switch_def)
  have part: "pcb_partition_id (pcb_at r a') = pcb_partition_id (pcb_at r a)"
    using own(1) m(7) by (cases r) (simp_all add: pcb_at_def same_owner_def)
  from prepare_next_process[OF k, of r] p have conf:
    "(pcb_partition_id (pcb_at r a) = MAXRTOS_INVALID_PARTITION_ID \<or>
      (\<exists>region. partition_region (mpu_unit a) (pcb_partition_id (pcb_at r a)) = Some region \<and> unit_maps (mpu_unit a') region))
     \<and> (bit (control a') 0 \<longleftrightarrow> \<not> maxrtos_arch_partition_is_privileged (pcb_partition_id (pcb_at r a)) a)"
    by (auto simp: Let_def)
  have reg: "partition_region hw = partition_region (mpu_unit a)"
    using hwm(3) by (simp add: partition_region_def fun_eq_iff)
  let ?b = "a'\<lparr>g_maxrtos_current_pcb := Some r, pendsv := False\<rparr>"
  have at: "pcb_at q ?b = pcb_at q a'" for q by (cases q) (simp_all add: pcb_at_def)
  have "confined r ?b" unfolding confined_def Let_def at part
    using conf by (simp add: m(1,3) reg maxrtos_arch_partition_is_privileged_def)
  moreover have "context_ok r ?b" using c own(1) m(6) by (cases r) (simp_all add: context_ok_def same_owner_def)
  moreover have "uncrowded (kern a')" using core uncrowded_owner[OF own(1)] by (simp add: machine_core_def)
  moreover have "mpu_hw_ok hw" using k(1) hwm(3) by (simp add: mpu_hw_ok_def)
  moreover have "kernel_ok ?b" using own(2) by (simp add: kernel_ok_def)
  ultimately show "machine_core ?b" using core m hwm(1) off by (simp add: machine_core_def)
  show "current_id (kern a') = current_id (kern a)" "same_owner (kern a) (kern a')" "clock_of (kern a') = clock_of (kern a)"
    "halted (kern a') = halted (kern a)" by (rule own)+
  have "s_hm a' = s_hm a1" "s_partition_table a' = s_partition_table a1" using rr by (simp_all add: kept_def same_machine_def)
  then show "same_setting a a'" using m hwm(3,4) own(1) by (simp add: same_setting_def a1)
qed

lemma machine_core_next: "machine_core (a\<lparr>g_maxrtos_next_pcb := r\<rparr>) = machine_core a"
proof -
  have "confined q (a\<lparr>g_maxrtos_next_pcb := r\<rparr>) = confined q a" "context_ok q (a\<lparr>g_maxrtos_next_pcb := r\<rparr>) = context_ok q a" for q
    by (cases q; simp add: confined_def context_ok_def pcb_at_def maxrtos_arch_partition_is_privileged_def)+
  then show ?thesis by (simp add: machine_core_def kernel_ok_def)
qed

lemma runs_elsewhere:
  assumes "kernel_inv s" "runs s n" "pcb_partition_id (process_pool s n) \<noteq> p"
    "\<And>q. q \<noteq> p \<Longrightarrow> current_id s' q = current_id s q"
  shows "runs s' n"
proof -
  note sk = kernel_invD(1)[OF assms(1)]
  let ?q = "pcb_partition_id (process_pool s n)"
  have "allocated (process_pool s) n" using assms(2) runs_iff[OF sk] by simp
  then have "?q < of_nat MAXRTOS_MAX_PARTITIONS" using sched_okD(1)[OF sk[unfolded sched_inv_def]] by (simp add: pcb_ok_def)
  moreover have "current_id s' ?q = n" using assms(3,4) runs_current[OF sk assms(2)] by simp
  moreover have "n \<noteq> MAXRTOS_INVALID_PROCESS_ID" using assms(2) by (simp add: runs_def)
  ultimately show ?thesis by (auto simp: runs_def)
qed

text \<open>The processor still goes to the same partition, if to a process at all, and not to one halted meanwhile.\<close>

definition same_target :: "pcb_ref option \<Rightarrow> arch \<Rightarrow> pcb_ref option \<Rightarrow> arch \<Rightarrow> bool" where
  "same_target r a r' a' \<longleftrightarrow> s_current_tick (kern a') = s_current_tick (kern a)
     \<and> (\<forall>n. r' = Some (Process_Pcb n) \<longrightarrow> (\<exists>m. r = Some (Process_Pcb m) \<and> partition_of n a' = partition_of m a
          \<and> (\<not> halted (kern a) (partition_of m a) \<longrightarrow> \<not> halted (kern a') (partition_of m a))))"

lemma same_target_same: "same_owner (kern a) (kern a') \<Longrightarrow> clock_of (kern a') = clock_of (kern a) \<Longrightarrow>
    halted (kern a') = halted (kern a) \<Longrightarrow> same_target r a r a'"
  by (simp add: same_target_def same_owner_def)

lemma same_target_trans: "same_target r a r' b \<Longrightarrow> same_target r' b r'' c \<Longrightarrow> same_target r a r'' c"
  by (fastforce simp: same_target_def)

text \<open>A context that cannot be saved is discarded, and a process that may run is next.\<close>

lemma context_invalid_step:
  assumes ok: "machine_ok a" "pendsv a" and cur: "g_maxrtos_current_pcb a = Some r"
    and h: "maxrtos_arch_context_invalid a = Some a'"
  shows "machine_core a'" "may_run (g_maxrtos_next_pcb a') a'" "same_setting a a'"
    "same_target (g_maxrtos_next_pcb a) a (g_maxrtos_next_pcb a') a'"
proof -
  have core: "machine_core a" "kernel_ok a" "context_ok r a" using ok(1) cur by (simp_all add: machine_ok_def machine_core_def)
  have run: "may_run (g_maxrtos_next_pcb a) a" using ok by (simp add: machine_ok_def cpu_pcb_def)
  then obtain p where p: "g_maxrtos_next_pcb a = Some p" by (auto simp: may_run_def split: option.splits)
  from h cur p obtain a0 where f: "maxrtos_arch_handle_process_fault (Some r) MAXRTOS_FAULT_MEMORY_ACCESS a = Some a0"
    and n0: "g_maxrtos_current_pcb a0 = None"
    and a': "a' = (if pcb_partition_id (pcb_at p a0) \<noteq> pcb_partition_id (pcb_at r a0)
               then a0\<lparr>g_maxrtos_next_pcb := Some p\<rparr> else a0)"
    by (auto simp: maxrtos_arch_context_invalid_def maxrtos_arch_get_current_pcb_def maxrtos_arch_get_next_pcb_def
        maxrtos_arch_set_next_pcb_def Let_def split: option.splits if_splits)
  have fs: "fault_step r a a0" by (rule handle_process_fault_step(1)[OF core(2,3) f])
  then have kept: "kept a a0" and other: "\<And>q. q \<noteq> pcb_partition_id (pcb_at r a) \<Longrightarrow> current_id (kern a0) q = current_id (kern a) q"
    and run0: "may_run (g_maxrtos_next_pcb a0) a0" and to: "hands_to (pcb_partition_id (pcb_at r a)) a0"
    and clock: "clock_of (kern a0) = clock_of (kern a)"
    and alive: "\<And>q. q \<noteq> pcb_partition_id (pcb_at r a) \<Longrightarrow> halted (kern a0) q = halted (kern a) q"
    using n0 cur by (auto simp: fault_step_def)
  have core0: "machine_core a0" by (rule machine_core_kept[OF core(1) kept])
  have part: "pcb_partition_id (pcb_at q a0) = pcb_partition_id (pcb_at q a)" for q
    using partition_kept[of a a0] kept by (simp add: kept_def)
  show "machine_core a'" using core0 by (simp add: a' machine_core_next)
  show "same_target (g_maxrtos_next_pcb a) a (g_maxrtos_next_pcb a') a'"
  proof (cases "pcb_partition_id (pcb_at p a0) = pcb_partition_id (pcb_at r a0)")
    case False
    have "halted (kern a0) (partition_of n a) = halted (kern a) (partition_of n a)" if "p = Process_Pcb n" for n
      by (rule alive) (use False part[of p] part[of r] that in \<open>simp add: pcb_at_def\<close>)
    with False clock kept p show ?thesis by (simp add: a' same_target_def kept_def same_owner_def)
  next
    case True
    have "p \<noteq> Idle_Pcb"
    proof
      assume idle: "p = Idle_Pcb"
      from handle_process_fault_step(2)[OF core(2,3) f] obtain i where i: "r = Process_Pcb i" by blast
      then have "allocated (process_pool (kern a)) i" using core(3) by (simp add: context_ok_def)
      then have "partition_of i a < of_nat MAXRTOS_MAX_PARTITIONS"
        using sched_okD(1)[OF kernel_invD(1)[unfolded sched_inv_def]] core(2) by (simp add: kernel_ok_def pcb_ok_def)
      moreover have "partition_of i a = MAXRTOS_INVALID_PARTITION_ID"
        using True part[of p] part[of r] core(1) by (simp add: idle i machine_core_def pcb_at_def)
      ultimately show False by simp
    qed
    then obtain m where m: "p = Process_Pcb m" by (cases p) simp_all
    have "partition_of m a = pcb_partition_id (pcb_at r a)" using True part[of p] part[of r] by (simp add: m pcb_at_def)
    with to clock p m True show ?thesis by (simp add: a' same_target_def hands_to_def)
  qed
  have "same_setting a a0" by (rule kept_setting[OF kept])
  then show "same_setting a a'" by (simp add: a' same_setting_def)
  show "may_run (g_maxrtos_next_pcb a') a'"
  proof (cases "pcb_partition_id (pcb_at p a0) = pcb_partition_id (pcb_at r a0)")
    case False
    show ?thesis
    proof (cases p)
      case (Process_Pcb n)
      then have "runs (kern a) n" using run p by simp
      moreover have "pcb_partition_id (process_pool (kern a) n) \<noteq> pcb_partition_id (pcb_at r a)"
        using False Process_Pcb part[of "Process_Pcb n"] part[of r] by (simp add: pcb_at_def)
      ultimately have "runs (kern a0) n"
        using runs_elsewhere[of "kern a" n "pcb_partition_id (pcb_at r a)" "kern a0"] core(2) other by (simp add: kernel_ok_def)
      with False Process_Pcb show ?thesis by (simp add: a')
    qed (use False in \<open>simp add: a'\<close>)
  qed (use run0 in \<open>simp add: a'\<close>)
qed

lemma pendsv_step:
  assumes ok: "machine_ok a" "pendsv a" and h: "PendSV_Handler exc psp registers a = Some (psp', registers', a')"
  shows "machine_ok a'" "\<not> pendsv a'" "same_setting a a'" "same_target (cpu_pcb a) a (cpu_pcb a') a'"
proof -
  have core: "machine_core a" "kernel_ok a" using ok(1) by (simp_all add: machine_ok_def machine_core_def)
  have run: "may_run (g_maxrtos_next_pcb a) a" using ok by (simp add: machine_ok_def cpu_pcb_def)
  from h obtain a1 a2 where
    a1: "(case g_maxrtos_current_pcb a of None \<Rightarrow> Some a
            | Some r \<Rightarrow> if context_saveable exc psp (pcb_at r a) then Some (save_context r psp registers a)
                else maxrtos_arch_context_invalid a) = Some a1"
    and p: "maxrtos_arch_prepare_next_pcb (g_maxrtos_next_pcb a1) a1 = Some (MAXRTOS_OK, a2)"
    and a': "a' = a2\<lparr>g_maxrtos_current_pcb := g_maxrtos_next_pcb a1, pendsv := False\<rparr>"
    by (auto simp: PendSV_Handler_def split: option.splits prod.splits if_splits)
  have step: "machine_core a1 \<and> may_run (g_maxrtos_next_pcb a1) a1 \<and> same_setting a a1
    \<and> same_target (g_maxrtos_next_pcb a) a (g_maxrtos_next_pcb a1) a1"
  proof (cases "g_maxrtos_current_pcb a")
    case None
    with a1 core run show ?thesis by (simp add: same_setting_refl same_target_same)
  next
    case (Some r)
    show ?thesis
    proof (cases "context_saveable exc psp (pcb_at r a)")
      case True
      with a1 Some have e: "a1 = save_context r psp registers a" by simp
      have "kept a a1 \<and> same_switch a a1" unfolding e save_context_def by (rule stack_update[OF core(2)]) simp
      then show ?thesis using machine_core_kept[OF core(1)] run may_run_cong[of a1 a] kept_setting[of a a1]
        same_target_same[of a a1] by (simp add: same_switch_def kept_def)
    next
      case False
      with a1 Some have "maxrtos_arch_context_invalid a = Some a1" by simp
      from context_invalid_step[OF ok Some this] show ?thesis by blast
    qed
  qed
  then obtain r where r: "g_maxrtos_next_pcb a1 = Some r" by (auto simp: may_run_def split: option.splits)
  have "kernel_inv (kern a1)" using step by (simp add: machine_core_def kernel_ok_def)
  then have c: "context_ok r a1" using step r runs_iff[OF kernel_invD(1)]
    by (cases r) (simp_all add: context_ok_def machine_core_def)
  note ps = prepare_step[OF conjunct1[OF step] c p[unfolded r], folded r a']
  have "may_run (Some r) a'" using step ps(2) may_run_cong[of a' a1] r by (simp add: a')
  with ps(1) show "machine_ok a'" "\<not> pendsv a'" by (simp_all add: machine_ok_def cpu_pcb_def a' r)
  have "same_target (g_maxrtos_next_pcb a1) a1 (g_maxrtos_next_pcb a1) a'" using ps(3,5,6) same_target_same[of a1 a'] by (simp add: a')
  with step show "same_target (cpu_pcb a) a (cpu_pcb a') a'"
    using same_target_trans[of "g_maxrtos_next_pcb a" a "g_maxrtos_next_pcb a1" a1 "g_maxrtos_next_pcb a1" a'] ok(2)
    by (simp add: cpu_pcb_def a')
  have "same_setting a a2" by (rule same_setting_trans[of _ a1]) (use step ps(4) in blast)+
  then show "same_setting a a'" by (simp add: a' same_setting_def)
qed

subsection \<open>System calls and faults\<close>

lemma svc_step_kept:
  assumes "svc_step part a a'"
  shows "kept a a'"
  using assms by (simp add: svc_step_def kept_def only_kernel_iff same_machine_def)

lemma system_call_step:
  assumes ok: "machine_ok a" "\<not> pendsv a" and cur: "g_maxrtos_current_pcb a = Some (Process_Pcb i)"
    and h: "maxrtos_arch_svc_dispatch sp n a = Some a'"
  shows "machine_ok a'" "kept a a'"
proof -
  have c: "calling i a" using ok cur by (simp add: calling_def machine_ok_def machine_core_def cpu_pcb_def)
  have "sp \<noteq> 0" "unat n < MAXRTOS_SVC_COUNT" using h by (auto simp: maxrtos_arch_svc_dispatch_def split: if_splits)
  with svc_dispatch_step[OF c, of sp n] h have s: "svc_step (partition_of i a) a a'" by auto
  have "cpu_pcb a' = context_of (current_id (kern a') (partition_of i a))" using s by (simp add: svc_step_def)
  moreover have "partition_of i a < of_nat MAXRTOS_MAX_PARTITIONS" by (rule callingD(4)[OF c])
  ultimately have "may_run (cpu_pcb a') a'" by (auto simp: context_of_def runs_def)
  with machine_core_kept[OF _ svc_step_kept[OF s]] ok(1) show "machine_ok a'" by (simp add: machine_ok_def)
  show "kept a a'" by (rule svc_step_kept[OF s])
qed

lemma fault_machine_step:
  assumes ok: "machine_ok a" "\<not> pendsv a" and h: "maxrtos_arch_handle_fault fault_type a = Some a'"
  shows "machine_ok a'" "kept a a'"
proof -
  obtain r where r: "g_maxrtos_current_pcb a = Some r"
    using ok by (auto simp: machine_ok_def cpu_pcb_def may_run_def split: option.splits)
  then have c: "kernel_ok a" "context_ok r a" using ok(1) by (auto simp: machine_ok_def machine_core_def)
  have "maxrtos_arch_handle_process_fault (Some r) fault_type a = Some a'"
    using h r by (simp add: maxrtos_arch_handle_fault_def maxrtos_arch_get_current_pcb_def)
  note f = handle_process_fault_step(1)[OF c this]
  show "kept a a'" using f by (simp add: fault_step_def)
  then have "machine_core a'" using ok(1) machine_core_kept[of a a'] by (simp add: machine_ok_def)
  moreover have "may_run (cpu_pcb a') a'"
    using fault_step_ticking[OF ticking_start[OF ok] f] f ok(2) by (cases "pendsv a'") (auto simp: ticking_def fault_step_def cpu_pcb_def)
  ultimately show "machine_ok a'" by (simp add: machine_ok_def)
qed

subsection \<open>The steps of the machine\<close>

text \<open>
  What the protection unit lets an unprivileged access write. While it is off, that is everything. When it is on, the highest-numbered region that is
  enabled and covers the address decides, and its permission must be full access. This is the
  architecture's rule over the registers that mpu\_hw.c programs.
\<close>

definition covers :: "mpu_hw \<Rightarrow> u32 \<Rightarrow> u32 \<Rightarrow> bool" where
  "covers hw r x \<longleftrightarrow> (case region_regs hw r of (rbar, rasr) \<Rightarrow>
     (case rasr_decode rasr of (enabled, sz, _, _) \<Rightarrow> enabled \<and> unat rbar \<le> unat x \<and> unat x < unat rbar + sz))"

definition full_access :: "mpu_hw \<Rightarrow> u32 \<Rightarrow> bool" where
  "full_access hw r \<longleftrightarrow> fst (snd (snd (rasr_decode (snd (region_regs hw r))))) = 3"

definition writable :: "mpu_hw \<Rightarrow> u32 \<Rightarrow> bool" where
  "writable hw x \<longleftrightarrow> \<not> unit_on hw \<or> (case find (\<lambda>r. covers hw r x) (rev (ids_below 16)) of None \<Rightarrow> False | Some r \<Rightarrow> full_access hw r)"

text \<open>
  What can happen: the process on the processor calls, writes a byte, or faults; a tick comes; a
  requested switch is taken. PendSV and SysTick have the same, lowest priority, so a requested switch
  is taken before anything else (see \<open>context_switch_init_priorities\<close>).
\<close>

datatype event = System_Call u32 u8 | Store u32 u8 | Fault maxrtos_fault_type | Tick | Switch u32 u32 "u8 list"

fun enabled :: "event \<Rightarrow> arch \<Rightarrow> bool" where
  "enabled (System_Call sp n) a = (\<not> pendsv a \<and> g_maxrtos_current_pcb a \<noteq> Some Idle_Pcb)"
| "enabled (Switch exc psp registers) a = pendsv a"
| "enabled _ a = (\<not> pendsv a)"

fun handle :: "event \<Rightarrow> arch \<Rightarrow> arch option" where
  "handle (System_Call sp n) a = maxrtos_arch_svc_dispatch sp n a"
| "handle (Store x b) a = (if bit (control a) 0 \<and> \<not> writable (mpu_unit a) x
     then maxrtos_arch_handle_fault MAXRTOS_FAULT_MEMORY_ACCESS a else Some (upd_mem (\<lambda>m. m(x := b)) a))"
| "handle (Fault fault_type) a = maxrtos_arch_handle_fault fault_type a"
| "handle Tick a = maxrtos_arch_systick a"
| "handle (Switch exc psp registers) a = map_option (\<lambda>r. snd (snd r)) (PendSV_Handler exc psp registers a)"

inductive machine_step :: "arch \<Rightarrow> arch \<Rightarrow> bool" where
  "enabled e a \<Longrightarrow> handle e a = Some a' \<Longrightarrow> machine_step a a'"

inductive_cases machine_stepE: "machine_step a a'"

lemma handle_ok:
  assumes ok: "machine_ok a" and e: "enabled e a" and h: "handle e a = Some a'"
  shows "machine_ok a' \<and> same_setting a a'"
proof (cases e)
  case (System_Call sp n)
  with e ok obtain i where "g_maxrtos_current_pcb a = Some (Process_Pcb i)"
    by (auto simp: machine_ok_def cpu_pcb_def may_run_def split: option.splits pcb_ref.splits)
  with system_call_step[OF ok] e h System_Call kept_setting show ?thesis by simp
next
  case (Store x b)
  show ?thesis
  proof (cases "bit (control a) 0 \<and> \<not> writable (mpu_unit a) x")
    case True
    with fault_machine_step[OF ok] e h Store kept_setting show ?thesis by simp
  next
    case False
    with h Store have a': "a' = upd_mem (\<lambda>m. m(x := b)) a" by auto
    have k: "kernel_ok a" using ok by (simp add: machine_ok_def machine_core_def)
    then have kept: "kept a a'" by (simp add: a' kept_def same_machine_def upd_mem_def kernel_ok_def)
    moreover have "may_run (cpu_pcb a') a'" using ok may_run_cong[of a' a] by (simp add: a' machine_ok_def)
    ultimately show ?thesis using ok machine_core_kept[of a a'] kept_setting by (simp add: machine_ok_def)
  qed
next
  case (Fault fault_type)
  with fault_machine_step[OF ok] e h kept_setting show ?thesis by simp
next
  case Tick
  with systick_step(1,2)[OF ok, of a'] e h machine_core_kept[of a a'] ok kept_setting show ?thesis
    by (simp add: machine_ok_def)
next
  case (Switch exc psp registers)
  with pendsv_step(1,3)[OF ok] e h show ?thesis by auto
qed

text \<open>The states the machine can get into from \<open>a\<close>.\<close>

inductive reaches :: "arch \<Rightarrow> arch \<Rightarrow> bool" where
  start: "reaches a a"
| step: "reaches a b \<Longrightarrow> machine_step b c \<Longrightarrow> reaches a c"

lemma machine_step_ok: "machine_step a a' \<Longrightarrow> machine_ok a \<Longrightarrow> machine_ok a' \<and> same_setting a a'"
  by (elim machine_stepE) (rule handle_ok)

lemma reaches_kept:
  assumes "reaches a b"
  shows "machine_ok a \<Longrightarrow> machine_ok b \<and> same_setting a b"
  using assms
proof (induction rule: reaches.induct)
  case (start a)
  then show ?case by (simp add: same_setting_refl)
next
  case (step a b c)
  then have "machine_ok b" "same_setting a b" by blast+
  with machine_step_ok[OF step.hyps(2)] same_setting_trans show ?case by blast
qed

lemmas reaches_ok = reaches_kept[THEN conjunct1]

text \<open>
  C2. The invariant of the machine. Whatever processes do and whenever ticks and faults come, every
  state the machine gets into from a consistent one is consistent: the kernel invariants hold,
  the protection unit and the privilege level fit the context on the processor, and the context that
  has the processor, or is about to get it, is the idle one or the current process of its partition.
\<close>

theorem machine_invariant:
  assumes "machine_ok a" "reaches a b"
  shows "machine_ok b"
  by (rule reaches_ok[OF assms(2,1)])

text \<open>The partition region wins over the regions below it.\<close>

lemma writable_partition_region:
  assumes off: "unit_armed hw" and w: "writable hw x"
  shows "covers hw 8 x \<and> full_access hw 8 \<or> (\<exists>r < 8. covers hw r x \<and> full_access hw r) \<and> \<not> covers hw 8 x"
proof -
  have no: "\<not> covers hw r x" if "r \<in> {9, 10, 11, 12, 13, 14, 15}" for r
  proof -
    have "8 < r \<and> r < 16" using that by auto
    then have "\<not> bit (snd (region_regs hw r)) 0" using off by (simp add: unit_armed_def)
    then show ?thesis by (cases "region_regs hw r") (simp add: covers_def rasr_decode_def)
  qed
  have l: "rev (ids_below 16) = [15, 14, 13, 12, 11, 10, 9, 8, 7, 6, 5, 4, 3, 2, 1, 0]"
    by (simp add: ids_below_def upt_rec)
  have "find (\<lambda>r. covers hw r x) (rev (ids_below 16)) = find (\<lambda>r. covers hw r x) [8, 7, 6, 5, 4, 3, 2, 1, 0]"
    using no by (simp add: l)
  then have f: "find (\<lambda>r. covers hw r x) (rev (ids_below 16))
      = (if covers hw 8 x then Some 8 else find (\<lambda>r. covers hw r x) [7, 6, 5, 4, 3, 2, 1, 0])" by simp
  have m: "r < 8 \<and> covers hw r x" if "find (\<lambda>r. covers hw r x) [7, 6, 5, 4, 3, 2, 1, 0] = Some r" for r :: u32
    using that by (auto split: if_splits)
  from w obtain r where r: "find (\<lambda>r. covers hw r x) (rev (ids_below 16)) = Some r" "full_access hw r"
    using off by (auto simp: writable_def unit_armed_def split: option.splits)
  show ?thesis
  proof (cases "covers hw 8 x")
    case True
    have "8 = r" using r(1) unfolding f by (simp only: True if_True option.inject)
    with True r(2) show ?thesis by blast
  next
    case False
    have "find (\<lambda>r. covers hw r x) [7, 6, 5, 4, 3, 2, 1, 0] = Some r"
      using r(1) unfolding f by (simp only: False if_False)
    from m[OF this] r(2) False show ?thesis by blast
  qed
qed


lemma store_faults:
  assumes ok: "machine_ok b" and "g_maxrtos_current_pcb b = Some (Process_Pcb i)"
    and "\<not> maxrtos_arch_partition_is_privileged (partition_of i b) b"
    and "\<not> (\<exists>region. partition_region (mpu_unit b) (partition_of i b) = Some region
           \<and> reg_access region = MAXRTOS_MPU_ACCESS_READ_WRITE
           \<and> unat (reg_base_address region) \<le> unat x \<and> unat x < unat (reg_base_address region) + unat (reg_size_bytes region))"
    and "\<not> (\<exists>r < 8. covers (mpu_unit b) r x \<and> full_access (mpu_unit b) r)"
  shows "bit (control b) 0 \<and> handle (Store x v) b = maxrtos_arch_handle_fault MAXRTOS_FAULT_MEMORY_ACCESS b"
proof -
  let ?hw = "mpu_unit b" and ?p = "partition_of i b"
  have "confined (Process_Pcb i) b" "unit_armed ?hw" "kernel_inv (kern b)" "allocated (process_pool (kern b)) i"
    using assms(1,2) by (auto simp: machine_ok_def machine_core_def kernel_ok_def context_ok_def)
  moreover from this have "?p < of_nat MAXRTOS_MAX_PARTITIONS"
    using sched_okD(1)[OF kernel_invD(1)[unfolded sched_inv_def]] by (simp add: pcb_ok_def)
  ultimately obtain region where c: "bit (control b) 0" "unit_armed ?hw"
    "partition_region ?hw ?p = Some region" "unit_maps ?hw region"
    using assms(3) by (auto simp: confined_def Let_def pcb_at_def)
  have "covers ?hw 8 x \<and> full_access ?hw 8 \<longleftrightarrow> reg_access region = MAXRTOS_MPU_ACCESS_READ_WRITE
      \<and> unat (reg_base_address region) \<le> unat x \<and> unat x < unat (reg_base_address region) + unat (reg_size_bytes region)"
    using c(4) by (cases "reg_access region")
      (auto simp: unit_maps_def covers_def full_access_def split: prod.splits)
  with writable_partition_region[OF c(2), of x] assms(4,5) c(3) have "\<not> writable ?hw x" by blast
  with c(1) show ?thesis by simp
qed

text \<open>
  C7. Spatial isolation. \<open>maxrtos_arch_mpu_init\<close> switches the protection unit on, whatever it was
  before, and no step of a consistent machine switches it off. Whenever a process of an unprivileged
  partition has the processor, it runs unprivileged, and a byte it writes outside the read-write region its partition is configured with,
  and outside the static regions below it that grant full access, is not written: the store ends in
  the memory-access fault of that process.
\<close>

theorem store_outside_partition_faults:
  assumes "machine_ok a" "reaches a b" "\<not> pendsv b" "g_maxrtos_current_pcb b = Some (Process_Pcb i)"
    and "\<not> maxrtos_arch_partition_is_privileged (partition_of i b) b"
    and "\<not> (\<exists>region. partition_region (mpu_unit b) (partition_of i b) = Some region
           \<and> reg_access region = MAXRTOS_MPU_ACCESS_READ_WRITE
           \<and> unat (reg_base_address region) \<le> unat x \<and> unat x < unat (reg_base_address region) + unat (reg_size_bytes region))"
    and "\<not> (\<exists>r < 8. covers (mpu_unit b) r x \<and> full_access (mpu_unit b) r)"
  shows "unit_on (maxrtos_arch_mpu_init privileged_default_map hw) \<and> unit_on (mpu_unit b)
    \<and> bit (control b) 0 \<and> handle (Store x v) b = maxrtos_arch_handle_fault MAXRTOS_FAULT_MEMORY_ACCESS b"
proof -
  have "unit_on (mpu_unit b)" using reaches_ok[OF assms(2,1)] by (simp add: machine_ok_def machine_core_def unit_armed_def)
  moreover have "unit_on (maxrtos_arch_mpu_init privileged_default_map hw)" using mpu_init_arms by (simp add: unit_armed_def)
  ultimately show ?thesis using store_faults[OF reaches_ok[OF assms(2,1)] assms(4-7)] by blast
qed

text \<open>
  C4. Temporal isolation. When a tick interrupt returns, the clock has advanced by one, and the
  processor is left to a process of the partition that owns the slot of the major frame the clock was in,
  namely the current process of that partition. The processor idles only if that partition is halted
  or has no process that is current or ready.
\<close>

theorem tick_gives_slot:
  assumes "machine_ok a" "reaches a b" "\<not> pendsv b"
    and "s_frame_schedule b = Some schedule" "s_partition_table b = PTR"
    and "maxrtos_arch_systick b = Some b'"
  shows "s_current_tick (kern b') = s_current_tick (kern b) + 1 \<and>
    (\<exists>part. part = slot_partition schedule (s_current_tick (kern b)) \<and>
      (if cpu_pcb b' = Some Idle_Pcb then idle_partition (kern b') part
       else \<exists>n. cpu_pcb b' = Some (Process_Pcb n) \<and> runs (kern b') n \<and> current_id (kern b') part = n
         \<and> pcb_partition_id (process_pool (kern b') n) = part))"
  using systick_step(3)[OF reaches_ok[OF assms(2,1)] assms(3,6,4,5)] by (auto simp: Let_def split: if_splits)

text \<open>
  C23. The loop over the deadline misses of the last tick ends, and does what it is for. In every state the machine gets into
  with no switch pending it does the same as the walk over the recorded misses in the order of their
  processes: each is taken off the record and its process handed to fault recovery once. Unless the
  recovery of one of them halts the machine, no miss is left, the kernel is consistent and the clock has not moved.
\<close>

theorem deadline_misses_handled:
  assumes "machine_ok a" "reaches a b" "\<not> pendsv b"
  shows "handle_deadline_misses b = Some (recover_misses (misses_of (s_pending_misses (kern b))) b) \<and>
    (case recover_misses (misses_of (s_pending_misses (kern b))) b of None \<Rightarrow> True
     | Some b' \<Rightarrow> machine_core b' \<and> s_pending_misses (kern b') = 0 \<and> s_current_tick (kern b') = s_current_tick (kern b))"
proof -
  have ok: "machine_ok b" by (rule reaches_ok[OF assms(2,1)])
  have core: "machine_core b'" if "kept b b'" for b' using machine_core_kept[OF _ that] ok by (simp add: machine_ok_def)
  note r = handle_deadline_misses_returns[OF ticking_start[OF ok assms(3)]]
  show ?thesis
  proof (cases "recover_misses (misses_of (s_pending_misses (kern b))) b")
    case None
    with r show ?thesis by simp
  next
    case (Some b')
    with r have "kept b b'" "clock_of (kern b') = (0, s_current_tick (kern b))" by blast+
    with r Some core[of b'] show ?thesis by simp
  qed
qed

subsection \<open>Examples\<close>

text \<open>Process 9 runs in partition 0, unprivileged, behind the region of that partition.\<close>

definition example_unit :: mpu_hw where
  "example_unit = snd (the (maxrtos_arch_mpu_configure_for_partition 0 example_mpu))"

lemma example_unit:
  "mpu_hw_ok example_unit" "active_mapped example_unit" "unit_armed example_unit"
  "r \<noteq> 8 \<Longrightarrow> region_regs example_unit r = (0, 0)" "partition_region example_unit = partition_region example_mpu"
  "unit_maps example_unit \<lparr>reg_base_address = 0x20000000, reg_size_bytes = 0x1000,
     reg_access = MAXRTOS_MPU_ACCESS_READ_WRITE, reg_executable = False\<rparr>"
proof -
  let ?b = "example_pcb MAXRTOS_PROCESS_STATE_RUNNING 3"
  have p: "pcb_partition_id ?b = 0" by (simp add: example_pcb_def)
  from mpu_maps_next_partition[OF example_mpu_ok, of ?b] obtain hw where
    "maxrtos_arch_mpu_configure_for_next_pcb (Some ?b) example_mpu = Some (MAXRTOS_OK, hw)"
    and hw: "active_mapped hw" "ctrl_reg hw = ctrl_reg example_mpu" "s_config hw = s_config example_mpu" "\<And>r. r \<noteq> 8 \<Longrightarrow> region_regs hw r = region_regs example_mpu r"
      "unit_maps hw \<lparr>reg_base_address = 0x20000000, reg_size_bytes = 0x1000,
         reg_access = MAXRTOS_MPU_ACCESS_READ_WRITE, reg_executable = False\<rparr>"
    by (auto simp: example_regions p)
  then have e: "example_unit = hw" by (simp add: maxrtos_arch_mpu_configure_for_next_pcb_def p example_unit_def)
  have z: "region_regs example_mpu r = (0, 0)" for r
    by (simp add: region_regs_def unit_state_def example_mpu_def maxrtos_arch_mpu_set_config_def)
  have on: "unit_on example_mpu" by (simp add: unit_on_def ctrl_reg_def example_mpu_def maxrtos_arch_mpu_set_config_def)
  show "mpu_hw_ok example_unit" using example_mpu_ok(1) hw(3) by (simp add: e mpu_hw_ok_def)
  show "partition_region example_unit = partition_region example_mpu" using hw(3) by (simp add: e partition_region_def fun_eq_iff)
  show "unit_armed example_unit" using hw(2,4) z on by (auto simp: e unit_armed_def unit_on_def)
  show "active_mapped example_unit" "unit_maps example_unit \<lparr>reg_base_address = 0x20000000, reg_size_bytes = 0x1000,
     reg_access = MAXRTOS_MPU_ACCESS_READ_WRITE, reg_executable = False\<rparr>" using hw(1,5) by (simp_all add: e)
  show "r \<noteq> 8 \<Longrightarrow> region_regs example_unit r = (0, 0)" using hw(4) z by (simp add: e)
qed

definition example_running :: arch where
  "example_running = example_arch\<lparr>s_idle_pcb := (s_idle_pcb example_arch)\<lparr>pcb_id := MAXRTOS_INVALID_PROCESS_ID,
     pcb_partition_id := MAXRTOS_INVALID_PARTITION_ID\<rparr>, control := 3, mpu_unit := example_unit\<rparr>"

lemma example_running_ok: "machine_ok example_running"
proof -
  have c: "kernel_ok example_arch" "runs (kern example_arch) 9" using example_calling by (simp_all add: calling_def)
  have k: "kern example_running = kern example_arch" "pcb_at (Process_Pcb 9) example_running = pcb_at (Process_Pcb 9) example_arch"
    "g_maxrtos_current_pcb example_running = Some (Process_Pcb 9)" "\<not> pendsv example_running"
    by (simp_all add: example_running_def pcb_at_def) (simp_all add: example_arch_def)
  have "{i. allocated (process_pool (kern example_arch)) i \<and> pcb_partition_id (process_pool (kern example_arch) i) = p} \<subseteq> {2, 5, 9}" for p
    by (auto simp: example_arch_def example_state_def example_pool_def example_pcb_def allocated_def split: if_splits)
  then have "card {i. allocated (process_pool (kern example_arch)) i \<and> pcb_partition_id (process_pool (kern example_arch) i) = p}
      \<le> card {2, 5, 9 :: u32}" for p by (intro card_mono) simp_all
  then have "uncrowded (kern example_arch)" unfolding uncrowded_def by (rule allI[OF le_trans]) simp
  moreover have "confined (Process_Pcb 9) example_running"
    using example_unit(5,6) example_arch_pcb(5)
    by (simp add: confined_def k example_regions maxrtos_arch_partition_is_privileged_def)
      (simp add: example_running_def example_arch_def example_unit example_regions)
  moreover have "context_ok (Process_Pcb 9) example_running"
    using c runs_iff[OF kernel_invD(1)] by (simp add: context_ok_def k kernel_ok_def)
  moreover have "frame_wf example_schedule" by (rule example_schedule_wf)
  ultimately have "machine_core example_running"
    using c(1) example_unit(1,2,3) unfolding machine_core_def k
    by (simp add: kernel_ok_def k) (simp add: example_running_def example_arch_def)
  then show ?thesis using c(2) by (simp add: machine_ok_def cpu_pcb_def k)
qed

text \<open>The same process about to be switched to.\<close>

definition example_switching :: arch where
  "example_switching = example_running\<lparr>g_maxrtos_current_pcb := None, g_maxrtos_next_pcb := Some (Process_Pcb 9), pendsv := True\<rparr>"

lemma example_switching_ok: "machine_ok example_switching"
  using example_running_ok
  by (simp add: example_switching_def machine_ok_def machine_core_def cpu_pcb_def kernel_ok_def)
    (simp add: example_running_def example_arch_def)

lemma example_switch: "\<exists>b. machine_step example_switching b"
proof -
  have m: "mpu_hw_ok (mpu_unit example_switching)" "active_mapped (mpu_unit example_switching)"
    using example_unit(1,2) by (simp_all add: example_switching_def example_running_def)
  have "pcb_partition_id (pcb_at (Process_Pcb 9) example_switching) = 0"
    "partition_region (mpu_unit example_switching) 0 \<noteq> None"
    using example_arch_pcb(5) by (simp_all add: example_switching_def example_running_def pcb_at_def example_unit(5) example_regions)
  with prepare_next_process[OF m, of "Process_Pcb 9"] obtain a2 where
    "maxrtos_arch_prepare_next_pcb (Some (Process_Pcb 9)) example_switching = Some (MAXRTOS_OK, a2)" by (auto simp: Let_def)
  then have "handle (Switch 0 0 []) example_switching
    = Some (a2\<lparr>g_maxrtos_current_pcb := Some (Process_Pcb 9), pendsv := False\<rparr>)"
    by (simp add: PendSV_Handler_def) (simp add: example_switching_def restore_context_def)
  moreover have "enabled (Switch 0 0 []) example_switching" by (simp add: example_switching_def)
  ultimately show ?thesis using machine_step.intros by blast
qed

lemma machine_invariant_witness: "\<exists>b. machine_step example_switching b \<and> machine_ok b"
proof -
  obtain b where b: "machine_step example_switching b" using example_switch by blast
  have "reaches example_switching b" by (rule reaches.step[OF reaches.start b])
  from machine_invariant[OF example_switching_ok this] b show ?thesis by blast
qed

lemma store_outside_partition_faults_witness:
  "handle (Store 0x20001000 5) example_running = maxrtos_arch_handle_fault MAXRTOS_FAULT_MEMORY_ACCESS example_running"
proof -
  have p: "partition_of 9 example_running = 0"
    using example_arch_pcb(5) by (simp add: example_running_def pcb_at_def)
  have m: "mpu_unit example_running = example_unit" "g_maxrtos_current_pcb example_running = Some (Process_Pcb 9)"
    "\<not> pendsv example_running" "\<not> maxrtos_arch_partition_is_privileged 0 example_running"
    by (simp_all add: example_running_def example_arch_def maxrtos_arch_partition_is_privileged_def)
  have "\<not> covers example_unit r 0x20001000" if "r < 8" for r
  proof -
    have "r \<noteq> 8" using that by auto
    from example_unit(4)[OF this] show ?thesis by (simp add: covers_def rasr_decode_def)
  qed
  then have "\<not> (\<exists>r < 8. covers (mpu_unit example_running) r 0x20001000 \<and> full_access (mpu_unit example_running) r)"
    unfolding m(1) by blast
  with store_outside_partition_faults[OF example_running_ok reaches.start m(3,2), of "0x20001000" True example_unit 5] m(4) show ?thesis
    by (simp add: p m(1) example_unit(5) example_regions del: handle.simps)
qed

lemma tick_gives_slot_witness:
  "\<exists>b'. maxrtos_arch_systick example_running = Some b' \<and> s_current_tick (kern b') = s_current_tick (kern example_running) + 1"
proof -
  have f: "s_frame_schedule example_running = Some example_schedule" "s_partition_table example_running = PTR"
    "\<not> pendsv example_running" "s_pending_misses (kern example_running) = 0"
    by (simp_all add: example_running_def example_arch_def example_state_def blank_state_def)
  then have "handle_deadline_misses example_running = Some (Some example_running)"
    by (subst handle_deadline_misses.simps) (simp add: maxrtos_kernel_take_deadline_miss_def)
  then obtain b' where b': "maxrtos_arch_systick example_running = Some b'"
    using f(1,2) by (cases "maxrtos_kernel_on_tick PTR example_schedule PTR PTR (kern example_running)")
      (simp add: maxrtos_arch_systick_def)
  with tick_gives_slot[OF example_running_ok reaches.start f(3,1,2) b'] show ?thesis by blast
qed

text \<open>Process 9 has missed a deadline, and the policy is to ignore that.\<close>

definition example_missed :: arch where
  "example_missed = example_running\<lparr>s_hm := Some \<lparr>hm_policy = (\<lambda>_ _. MAXRTOS_HM_ACTION_IGNORE)\<rparr>,
     kern := (kern example_running)\<lparr>s_pending_misses := 0x200\<rparr>\<rparr>"

lemma example_missed_ok: "machine_ok example_missed"
proof -
  define hm where "hm = Some \<lparr>hm_policy = (\<lambda>_ _. MAXRTOS_HM_ACTION_IGNORE)\<rparr>"
  have "machine_ok (example_running\<lparr>s_hm := hm\<rparr>)"
  proof -
    have "context_ok r (example_running\<lparr>s_hm := hm\<rparr>) = context_ok r example_running"
      "confined r (example_running\<lparr>s_hm := hm\<rparr>) = confined r example_running" for r
      by (cases r; simp add: context_ok_def confined_def pcb_at_def maxrtos_arch_partition_is_privileged_def)+
    moreover have "may_run (cpu_pcb (example_running\<lparr>s_hm := hm\<rparr>)) (example_running\<lparr>s_hm := hm\<rparr>) = may_run (cpu_pcb example_running) example_running"
      using may_run_cong[of "example_running\<lparr>s_hm := hm\<rparr>" example_running] by (simp add: cpu_pcb_def)
    ultimately show ?thesis using example_running_ok by (simp add: machine_ok_def machine_core_def kernel_ok_def)
  qed
  moreover have "\<not> pendsv (example_running\<lparr>s_hm := hm\<rparr>)" by (simp add: example_running_def example_arch_def)
  ultimately have t: "ticking (example_running\<lparr>s_hm := hm\<rparr>)" "machine_core (example_running\<lparr>s_hm := hm\<rparr>)"
    by (simp_all add: ticking_start) (simp add: machine_ok_def)
  have e: "example_missed = (example_running\<lparr>s_hm := hm\<rparr>)
      \<lparr>kern := (kern (example_running\<lparr>s_hm := hm\<rparr>))\<lparr>s_pending_misses := 0x200\<rparr>\<rparr>"
    by (simp add: example_missed_def hm_def)
  note k = pending_misses_ticking[OF t(1), of "0x200", folded e]
  have "\<not> pendsv example_missed" by (simp add: example_missed_def example_running_def example_arch_def)
  with k(1) machine_core_kept[OF t(2) k(2)] show ?thesis by (simp add: machine_ok_def ticking_def cpu_pcb_def)
qed

lemma deadline_misses_handled_witness:
  "misses_of (s_pending_misses (kern example_missed)) = [9]
    \<and> handle_deadline_misses example_missed = Some (recover_misses [9] example_missed)
    \<and> (\<exists>b'. recover_misses [9] example_missed = Some b' \<and> s_pending_misses (kern b') = 0)"
proof -
  have p: "s_pending_misses (kern example_missed) = 0x200" "\<not> pendsv example_missed"
    by (simp_all add: example_missed_def example_running_def example_arch_def)
  have m: "misses_of (s_pending_misses (kern example_missed)) = [9]" unfolding p(1) by code_simp
  let ?a = "example_missed\<lparr>kern := (kern example_missed)\<lparr>s_pending_misses := unset_bit 9 (s_pending_misses (kern example_missed))\<rparr>\<rparr>"
  have c: "calling 9 example_arch" by (rule example_calling)
  have pool: "process_pool (kern ?a) = process_pool (kern example_arch)" by (simp add: example_missed_def example_running_def)
  then have i: "allocated (process_pool (kern ?a)) 9" "pcb_id (process_pool (kern ?a) 9) = 9" "partition_of 9 ?a < of_nat MAXRTOS_MAX_PARTITIONS"
    using callingD(1,3,4)[OF c] by simp_all
  have t: "s_table ?a = PTR" "s_hm ?a = Some \<lparr>hm_policy = (\<lambda>_ _. MAXRTOS_HM_ACTION_IGNORE)\<rparr>"
    by (simp_all add: example_missed_def example_running_def example_arch_def)
  have "maxrtos_arch_handle_process_fault (Some (Process_Pcb 9)) MAXRTOS_FAULT_DEADLINE_EXCEEDED ?a = Some (?a\<lparr>kern := kern ?a\<rparr>)"
    unfolding maxrtos_arch_handle_process_fault_def t using i
    by (simp add: pcb_at_def maxrtos_fault_recovery_handle_def process_get_eq maxrtos_hm_get_policy_def fault_below_count Let_def)
  moreover have "process_ref 9 ?a = Some (Process_Pcb 9)" using i(1) by (simp add: process_ref_def process_get_eq)
  ultimately obtain b' where "recover_misses [9] example_missed = Some b'" by (simp add: Let_def)
  with deadline_misses_handled[OF example_missed_ok reaches.start p(2)] m show ?thesis by simp
qed

end
