(* ===== verification/Boot.thy ===== *)
theory Boot
  imports Machine
begin

text \<open>
  The start of the system. From a state in which the application has created its processes, its frame
  and its memory regions, \<open>maxrtos_scheduler_start\<close> leads into the invariant of the machine.
\<close>

subsection \<open>Queueing the created processes\<close>

lemma add_process_code:
  assumes k: "kernel_inv s" and i: "allocated (process_pool s) i" "pcb_state (process_pool s i) = MAXRTOS_PROCESS_STATE_READY"
  defines "part \<equiv> pcb_partition_id (process_pool s i)"
  shows "maxrtos_partition_add_process PTR i s = (case maxrtos_scheduler_enqueue PTR i (pcb_priority (process_pool s i)) (scheduler_ctx s part) of
      (st, ctx) \<Rightarrow> (st, upd_ctx part ctx s))"
    and "part < of_nat MAXRTOS_MAX_PARTITIONS" "pcb_priority (process_pool s i) \<le> of_nat MAXRTOS_MAX_PRIORITY"
    "unat (pcb_priority (process_pool s i)) \<le> 31" "ctx_wf (scheduler_ctx s part)"
proof -
  note ok = kernel_invD(1)[OF k, unfolded sched_inv_def]
  show p: "part < of_nat MAXRTOS_MAX_PARTITIONS" "pcb_priority (process_pool s i) \<le> of_nat MAXRTOS_MAX_PRIORITY"
    "unat (pcb_priority (process_pool s i)) \<le> 31"
    using sched_okD(1)[OF ok i(1)] by (simp_all add: pcb_ok_def word_le_nat_alt part_def)
  show "ctx_wf (scheduler_ctx s part)" using part_okD(1)[OF sched_okD(3)[OF ok p(1)]] by (simp add: domain_ok_def)
  show "maxrtos_partition_add_process PTR i s = (case maxrtos_scheduler_enqueue PTR i (pcb_priority (process_pool s i)) (scheduler_ctx s part) of
      (st, ctx) \<Rightarrow> (st, upd_ctx part ctx s))"
    using i(1) p(1)[unfolded not_le[symmetric]] add_process_eq[OF i, of "scheduler_ctx s part"]
    by (simp add: maxrtos_partition_add_process_def process_get_eq part_def)
qed

lemma add_process_admits:
  assumes k: "kernel_inv s" "timer_ok s" and i: "allocated (process_pool s) i"
    "pcb_state (process_pool s i) = MAXRTOS_PROCESS_STATE_READY" "\<not> queued_in s i" "\<not> waits_for_time (process_pool s i)"
    and r: "maxrtos_partition_add_process PTR i s = (status, s')"
  shows "kernel_inv s'" "timer_ok s'" "process_pool s' = process_pool s" "current_id s' = current_id s" "halted s' = halted s"
    "\<And>j. j \<noteq> i \<Longrightarrow> queued_in s' j = queued_in s j"
proof -
  let ?pool = "process_pool s" and ?part = "pcb_partition_id (process_pool s i)" and ?p = "unat (pcb_priority (process_pool s i))"
  note ok = kernel_invD(1)[OF k(1), unfolded sched_inv_def]
  note code = add_process_code(1)[OF k(1) i(1,2)] and part = add_process_code(2-4)[OF k(1) i(1,2)] and wf = add_process_code(5)[OF k(1) i(1,2)]
  note p = sched_okD(3)[OF ok part(1)]
  have "kernel_inv s' \<and> timer_ok s' \<and> process_pool s' = ?pool \<and> current_id s' = current_id s \<and> halted s' = halted s
    \<and> (\<forall>j. j \<noteq> i \<longrightarrow> queued_in s' j = queued_in s j)"
  proof (cases "length (ready (scheduler_ctx s ?part) ?p) < MAXRTOS_MAX_READY_PER_PRIORITY")
    case False
    with enqueue_full[OF part(2), of "scheduler_ctx s ?part" i] r have "s' = s" by (simp add: code upd_ctx_def)
    with k show ?thesis by simp
  next
    case True
    from enqueue_ok[OF wf part(2) True, of i] obtain ctx' where c:
      "maxrtos_scheduler_enqueue PTR i (pcb_priority (?pool i)) (scheduler_ctx s ?part) = (MAXRTOS_OK, ctx')" "ctx_wf ctx'"
      "ready ctx' = (ready (scheduler_ctx s ?part))(?p := ready (scheduler_ctx s ?part) ?p @ [i])" by blast
    have s': "s' = upd_ctx ?part ctx' s" using r by (simp add: code c(1))
    define held where "held = set_pcb_state i MAXRTOS_PROCESS_STATE_SUSPENDED ?pool"
    have ok0: "sched_ok held (scheduler_ctx s) (current_id s)"
      unfolding held_def by (rule sched_ok_unqueued_state[OF ok i(1)]) (use i(2,3) in \<open>auto simp: queued_in_def in_ready_ids\<close>)
    have same: "set_pcb_state i MAXRTOS_PROCESS_STATE_READY held = ?pool"
    proof -
      have "(?pool i)\<lparr>pcb_state := MAXRTOS_PROCESS_STATE_READY\<rparr> = ?pool i" using i(2) by (cases "?pool i") simp
      then show ?thesis by (simp add: held_def set_pcb_state_def)
    qed
    have f: "allocated held i" "pcb_partition_id (held i) = ?part" "pcb_priority (held i) = pcb_priority (?pool i)"
      "pcb_state (held i) \<noteq> MAXRTOS_PROCESS_STATE_READY" using i(1) by (simp_all add: held_def allocated_def)
    have nc: "current_id s ?part \<noteq> i" using part_okD(2)[OF p] i by (auto simp: running_in_def)
    have "sched_inv s'"
      using sched_ok_ready[OF ok0 f(1,4), of ctx' "ready (scheduler_ctx s ?part) ?p @ [i]"] c(2,3) nc
      by (simp add: sched_inv_def s' f(2,3) same upd_ctx_def)
    then have "kernel_inv s'" by (rule kernel_inv_step[OF k(1)]) (simp_all add: s' only_scheduling_iff)
    moreover have q: "queued_in s' j = queued_in s j" if "j \<noteq> i" for j
    proof -
      have "j \<in> set (ready ctx' r) \<longleftrightarrow> j \<in> set (ready (scheduler_ctx s ?part) r)" for r using that c(3) by simp
      then show ?thesis by (simp add: queued_in_def in_ready_ids s' upd_ctx_def)
    qed
    moreover have "timer_ok s'"
    proof (rule timer_ok_step[OF k(2)], goal_cases)
      case (1 j)
      then have "j \<noteq> i" using i(4) by (auto simp: s')
      with 1 q show ?case by (simp add: s')
    qed
    ultimately show ?thesis by (simp add: s')
  qed
  then show "kernel_inv s'" "timer_ok s'" "process_pool s' = process_pool s" "current_id s' = current_id s" "halted s' = halted s"
    "\<And>j. j \<noteq> i \<Longrightarrow> queued_in s' j = queued_in s j" by blast+
qed


lemma stack_update_sched:
  assumes f: "\<And>b. f b = b\<lparr>pcb_stack_pointer := pcb_stack_pointer (f b), pcb_ipc_result_pending := pcb_ipc_result_pending (f b)\<rparr>"
  shows "pcb_state (process_pool (kern (upd_pcb_at r f (upd_mem g a))) j) = pcb_state (process_pool (kern a) j)"
    "waits_for_time (process_pool (kern (upd_pcb_at r f (upd_mem g a))) j) = waits_for_time (process_pool (kern a) j)"
    "queued_in (kern (upd_pcb_at r f (upd_mem g a))) j = queued_in (kern a) j"
proof -
  have fields: "pcb_state (f b) = pcb_state b" "pcb_partition_id (f b) = pcb_partition_id b" "same_flags b (f b)" for b
    using arg_cong[OF f, of pcb_state b] arg_cong[OF f, of pcb_partition_id b]
      arg_cong[OF f, of pcb_periodic_waiting b] arg_cong[OF f, of pcb_timed_waiting b] by simp_all
  show "pcb_state (process_pool (kern (upd_pcb_at r f (upd_mem g a))) j) = pcb_state (process_pool (kern a) j)"
    "waits_for_time (process_pool (kern (upd_pcb_at r f (upd_mem g a))) j) = waits_for_time (process_pool (kern a) j)"
    "queued_in (kern (upd_pcb_at r f (upd_mem g a))) j = queued_in (kern a) j"
    by (cases r; simp add: upd_pcb_at_def upd_mem_def fields waits_for_time_def queued_in_def)+
qed

subsection \<open>The walk over the processes\<close>

text \<open>The processes of the list \<open>todo\<close> are not queued yet, and none waits for time.\<close>

definition starting :: "u32 list \<Rightarrow> arch \<Rightarrow> bool" where
  "starting todo a \<longleftrightarrow> kernel_ok a \<and> s_table a = PTR \<and> (\<forall>i. allocated (process_pool (kern a)) i \<longrightarrow>
       \<not> waits_for_time (process_pool (kern a) i) \<and> (i \<in> set todo \<longrightarrow> \<not> queued_in (kern a) i))"

lemma init_stack_upd:
  assumes "maxrtos_arch_init_stack (Some r) a = (MAXRTOS_OK, a')"
  shows "\<exists>sp g. a' = upd_pcb_at r (\<lambda>b. b\<lparr>pcb_stack_pointer := sp, pcb_ipc_result_pending := False\<rparr>) (upd_mem g a)"
  using assms unfolding maxrtos_arch_init_stack_def option.case Let_def
  by (simp only: prod.inject maxrtos_status.distinct split: if_split_asm) blast+

lemma start_step_ok:
  assumes a: "starting (pid # todo) a" "pid \<notin> set todo" and s: "start_step PTR pid (Some a) = Some a'"
  shows "starting todo a' \<and> kept a a' \<and> current_id (kern a') = current_id (kern a)"
proof (cases "allocated (process_pool (kern a)) pid \<and> pcb_state (process_pool (kern a) pid) = MAXRTOS_PROCESS_STATE_READY")
  case False
  with s have "a' = a"
    by (auto simp: start_step_def process_ref_def process_get_eq pcb_at_def split: if_splits option.splits)
  with a show ?thesis by (simp add: starting_def kept_refl)
next
  case True
  then have ref: "process_ref pid a = Some (Process_Pcb pid)" by (simp add: process_ref_def process_get_eq)
  obtain st a1 where i: "maxrtos_arch_init_stack (Some (Process_Pcb pid)) a = (st, a1)" by (rule prod.exhaust)
  obtain st2 k where r: "maxrtos_partition_add_process PTR pid (kern a1) = (st2, k)" by (rule prod.exhaust)
  from s ref True i r have a': "st = MAXRTOS_OK" "a' = a1\<lparr>kern := k\<rparr>"
    by (simp_all add: start_step_def pcb_at_def split: if_splits)
  have ok: "kernel_ok a" using a by (simp add: starting_def)
  note s1 = init_stack_step[OF ok i]
  from i a'(1) obtain sp g where a1: "a1 = upd_pcb_at (Process_Pcb pid)
      (\<lambda>b. b\<lparr>pcb_stack_pointer := sp, pcb_ipc_result_pending := False\<rparr>) (upd_mem g a)"
    by (metis init_stack_upd)
  have sched: "pcb_state (process_pool (kern a1) j) = pcb_state (process_pool (kern a) j)"
    "waits_for_time (process_pool (kern a1) j) = waits_for_time (process_pool (kern a) j)"
    "queued_in (kern a1) j = queued_in (kern a) j" for j
    unfolding a1 by (rule stack_update_sched; simp)+
  have k1: "kernel_inv (kern a1)" "timer_ok (kern a1)" using s1(1) by (simp_all add: kept_def kernel_ok_def)
  have "allocated (process_pool (kern a1)) pid" using True sched(1) by (simp add: allocated_def)
  note ad = add_process_admits[OF k1 this _ _ _ r]
  have free: "\<not> queued_in (kern a) pid" "\<not> waits_for_time (process_pool (kern a) pid)"
    using a(1) True by (auto simp: starting_def)
  have ad: "kernel_inv k" "timer_ok k" "process_pool k = process_pool (kern a1)" "current_id k = current_id (kern a1)"
    "j \<noteq> pid \<Longrightarrow> queued_in k j = queued_in (kern a1) j" for j
    using ad(1-4) ad(6)[of j] True sched free by simp_all
  have "kept a1 a'" using ad(1-3) by (simp add: a' kept_def kernel_ok_def same_owner_def)
  with s1(1) have kept: "kept a a'" by (rule kept_trans)
  moreover have "\<not> waits_for_time (process_pool k j) \<and> (j \<in> set todo \<longrightarrow> \<not> queued_in k j)"
    if "allocated (process_pool k) j" for j
  proof -
    have "allocated (process_pool (kern a)) j" using that ad(3) sched(1) by (simp add: allocated_def)
    moreover have "j \<noteq> pid" if "j \<in> set todo" using that a(2) by auto
    ultimately show ?thesis using ad(3,5) sched(2,3) a(1) by (auto simp: starting_def)
  qed
  then have "starting todo a'"
    using ad(1-3) a(1) s1(1) by (simp add: starting_def a' kernel_ok_def kept_def same_machine_def)
  moreover have "current_id (kern a') = current_id (kern a)" using ad(4) s1(2) by (simp add: a' same_switch_def)
  ultimately show ?thesis by blast
qed

lemma start_step_None: "fold (start_step tablep) ids None = None"
  by (induction ids) (simp_all add: start_step_def)

lemma start_walk_ok:
  assumes "starting ids a" "distinct ids" "fold (start_step PTR) ids (Some a) = Some a'"
  shows "kept a a' \<and> current_id (kern a') = current_id (kern a)"
  using assms
proof (induction ids arbitrary: a)
  case Nil
  then show ?case by (simp add: starting_def kept_refl)
next
  case (Cons pid ids)
  then obtain a1 where s: "start_step PTR pid (Some a) = Some a1" "fold (start_step PTR) ids (Some a1) = Some a'"
    by (cases "start_step PTR pid (Some a)") (simp_all add: start_step_None)
  have "pid \<notin> set ids" using Cons.prems by simp
  note st = start_step_ok[OF Cons.prems(1) this s(1)]
  from Cons.IH[OF conjunct1[OF st] _ s(2)] Cons.prems(2) st kept_trans show ?case by auto
qed


subsection \<open>The first dispatch\<close>

lemma rearm_all_owner: "same_owner s (maxrtos_kernel_rearm_all_timing s)" "current_id (maxrtos_kernel_rearm_all_timing s) = current_id s"
  "s_current_tick (maxrtos_kernel_rearm_all_timing s) = s_current_tick s"
proof -
  have "same_owner s t \<and> current_id t = current_id s \<and> s_current_tick t = s_current_tick s"
    if "t = maxrtos_kernel_rearm_all_timing s" for t
    unfolding that maxrtos_kernel_rearm_all_timing_def
    by (rule fold_invariant[where Q = "\<lambda>_. True"])
      (auto simp: maxrtos_process_rearm_timing_def same_owner_upd_pcb split: option.split)
  then show "same_owner s (maxrtos_kernel_rearm_all_timing s)" "current_id (maxrtos_kernel_rearm_all_timing s) = current_id s"
    "s_current_tick (maxrtos_kernel_rearm_all_timing s) = s_current_tick s" by blast+
qed

text \<open>
  What the application has set up when it starts the scheduler: an initialised partition table with no
  current processes and empty queues, processes that wait for nothing, at most eight of them per partition, a
  valid frame, a valid memory configuration and the idle context.
\<close>

definition booted :: "arch \<Rightarrow> bool" where
  "booted a \<longleftrightarrow> machine_core a \<and> g_maxrtos_current_pcb a = None
     \<and> (\<forall>i. allocated (process_pool (kern a)) i \<longrightarrow> \<not> waits_for_time (process_pool (kern a) i) \<and> \<not> queued_in (kern a) i)"

lemma start_scheduler_dispatches:
  assumes core: "machine_core a" and wf: "frame_wf sched"
    and r: "maxrtos_arch_start_scheduler sched PTR a = Some b"
  shows "kept a b \<and> machine_ok b \<and> pendsv b \<and> s_current_tick (kern b) = 1 \<and> \<not> halted (kern b) (slot_partition sched 0)
    \<and> (\<exists>n. cpu_pcb b = Some (Process_Pcb n) \<and> partition_of n b = slot_partition sched 0)"
proof -
  have inv: "kernel_inv (kern a)" "timer_ok (kern a)" "uncrowded (kern a)" using core by (simp_all add: machine_core_def kernel_ok_def)
  define s1 where "s1 = maxrtos_kernel_rearm_all_timing (maxrtos_kernel_tick_reset (kern a))"
  have reset: "same_owner (kern a) (maxrtos_kernel_tick_reset (kern a))" "s_current_tick (maxrtos_kernel_tick_reset (kern a)) = 0"
    by (simp_all add: maxrtos_kernel_tick_reset_def same_owner_def)
  have k1: "kernel_inv s1" "timer_ok s1" using rearm_all_inv[OF tick_reset_inv[OF inv(1,2)]] by (simp_all add: s1_def)
  have o1: "same_owner (kern a) s1" and t1: "s_current_tick s1 = 0"
    using rearm_all_owner[of "maxrtos_kernel_tick_reset (kern a)"] reset by (auto simp: s1_def intro: same_owner_trans)
  obtain st out k where t: "maxrtos_kernel_on_tick PTR sched PTR PTR s1 = (st, out, k)" by (rule prod_cases3)
  have un: "uncrowded s1" using inv(3) uncrowded_owner[OF o1] by simp
  note d = tick_dispatches[OF k1 un wf t, folded slot_partition_def, unfolded t1]
  from r t d(5) have st: "st = MAXRTOS_OK"
    by (auto simp: maxrtos_arch_start_scheduler_def maxrtos_kernel_start_scheduler_def s1_def[symmetric] split: if_splits option.splits)
  from d(4)[OF st] obtain n where n: "out = Some n" "runs k n" "pcb_partition_id (process_pool k n) = slot_partition sched 0"
    "\<not> halted k (slot_partition sched 0)" by blast
  have "allocated (process_pool k) n" using n(2) runs_iff[OF kernel_invD(1)[OF d(1)]] by simp
  then have b: "b = maxrtos_arch_start_first_process (Some (Process_Pcb n)) (a\<lparr>kern := k\<rparr>)"
    using r t st n(1) by (simp add: maxrtos_arch_start_scheduler_def maxrtos_kernel_start_scheduler_def s1_def[symmetric] process_get_eq)
  have kept: "kept a b" using d(1-3) o1 by (auto simp: b kept_def kernel_ok_def maxrtos_arch_start_first_process_def
        maxrtos_arch_request_context_switch_def same_machine_def intro: same_owner_trans)
  then have "machine_core b" by (rule machine_core_kept[OF core])
  moreover have "s_current_tick k = 1" using d(6) by simp
  ultimately show ?thesis using kept n(2-4) by (simp add: machine_ok_def b maxrtos_arch_start_first_process_def
        maxrtos_arch_request_context_switch_def cpu_pcb_def may_run_def)
qed

lemma scheduler_start_ok:
  assumes "booted a" "s_frame_schedule a = Some schedule" "maxrtos_scheduler_start a = Some b"
  shows "machine_ok b \<and> same_setting a b \<and> pendsv b \<and> s_current_tick (kern b) = 1 \<and> \<not> halted (kern b) (slot_partition schedule 0)
    \<and> (\<exists>n. cpu_pcb b = Some (Process_Pcb n) \<and> partition_of n b = slot_partition schedule 0)"
proof -
  have t: "s_table a = PTR" and wf: "frame_wf schedule" and core: "machine_core a"
    using assms(1,2) by (simp_all add: booted_def machine_core_def)
  from assms(2,3) t obtain a1 where a1: "fold (start_step PTR) (ids_below MAXRTOS_MAX_PROCESSES) (Some a) = Some a1"
    "maxrtos_arch_start_scheduler schedule PTR a1 = Some b"
    by (auto simp: maxrtos_scheduler_start_def split: option.splits)
  have "starting (ids_below MAXRTOS_MAX_PROCESSES) a" using assms(1) by (simp add: starting_def booted_def machine_core_def)
  from start_walk_ok[OF this _ a1(1)] have kept: "kept a a1" by (simp add: distinct_ids_below)
  note d = start_scheduler_dispatches[OF machine_core_kept[OF core kept] wf a1(2)]
  have "same_setting a b" by (rule kept_setting[OF kept_trans[OF kept conjunct1[OF d]]])
  with d show ?thesis by blast
qed

text \<open>
  C10. The start leads into the invariant. If the scheduler starts from what the application has set
  up, it does so with a switch to a process of the partition that owns the first slot of the frame, and every
  state the machine gets into from there is consistent.
\<close>

theorem scheduler_start_consistent:
  assumes "booted a" "s_frame_schedule a = Some schedule" "maxrtos_scheduler_start a = Some b" "reaches b c"
  shows "machine_ok c \<and> pendsv b \<and> (\<exists>n. cpu_pcb b = Some (Process_Pcb n) \<and> partition_of n b = slot_partition schedule 0)"
  using scheduler_start_ok[OF assms(1-3)] reaches_ok[OF assms(4)] by blast

subsection \<open>Example\<close>

text \<open>One process, 5, of partition 0 has been created.\<close>

definition example_created :: kstate where
  "example_created = blank_state\<lparr>process_pool := (\<lambda>i. (if i = 5
       then (example_pcb MAXRTOS_PROCESS_STATE_READY 3)\<lparr>pcb_stack_base := 0x20000800, pcb_stack_size := 0x400, pcb_entry := 0x08000100\<rparr>
       else example_pcb MAXRTOS_PROCESS_STATE_UNUSED 0)\<lparr>pcb_id := i\<rparr>),
     scheduler_ctx := (\<lambda>p. empty_ctx), current_id := (\<lambda>p. MAXRTOS_INVALID_PROCESS_ID)\<rparr>"

definition example_booted :: arch where
  "example_booted = example_running\<lparr>kern := example_created, g_maxrtos_current_pcb := None\<rparr>"

lemma example_created_inv: "sched_inv example_created"
  by code_simp

lemma example_booted_starts: "case maxrtos_scheduler_start example_booted of None \<Rightarrow> False | Some _ \<Rightarrow> True"
  by code_simp

lemma example_booted_ok: "booted example_booted"
proof -
  have p: "process_pool example_created i = (if i = 5
       then (example_pcb MAXRTOS_PROCESS_STATE_READY 3)\<lparr>pcb_stack_base := 0x20000800, pcb_stack_size := 0x400,
          pcb_entry := 0x08000100, pcb_id := 5\<rparr>
       else (example_pcb MAXRTOS_PROCESS_STATE_UNUSED 0)\<lparr>pcb_id := i\<rparr>)" for i
    by (simp add: example_created_def)
  have "wait_ok (process_pool example_created) (waitlists example_created)"
    by (simp add: wait_ok_def p) (simp add: example_created_def blank_state_def wl_wf_def wl_list_def example_pcb_def)
  moreover have "due_ok example_created" by (simp add: due_ok_def example_created_def blank_state_def)
  ultimately have k: "kernel_inv example_created" using example_created_inv by (simp add: kernel_inv_def)
  have w: "\<not> waits_for_time (process_pool example_created i)" for i by (simp add: p waits_for_time_def example_pcb_def)
  then have "timer_ok example_created" by (simp add: timer_ok_def)
  moreover have q: "\<not> queued_in example_created i" for i
    by (simp add: queued_in_def in_ready_ids) (simp add: example_created_def ready_empty_ctx)
  moreover have "uncrowded example_created"
  proof -
    have "card {i. allocated (process_pool example_created) i \<and> pcb_partition_id (process_pool example_created i) = r} \<le> card {5 :: u32}" for r
      by (rule card_mono) (auto simp: p allocated_def example_pcb_def split: if_splits)
    then show ?thesis unfolding uncrowded_def by (rule allI[OF le_trans]) simp
  qed
  moreover have "machine_core example_running" using example_running_ok by (simp add: machine_ok_def)
  ultimately show ?thesis using k w q
    by (simp add: booted_def example_booted_def machine_core_def kernel_ok_def)
qed

lemma scheduler_start_consistent_witness:
  "\<exists>b. maxrtos_scheduler_start example_booted = Some b \<and> machine_ok b"
proof -
  obtain b where b: "maxrtos_scheduler_start example_booted = Some b"
    using example_booted_starts by (auto split: option.splits)
  have f: "s_frame_schedule example_booted = Some example_schedule"
    by (simp add: example_booted_def example_running_def example_arch_def)
  from scheduler_start_consistent[OF example_booted_ok f b reaches.start] b show ?thesis by blast
qed

end
