(* ===== verification/Startup.thy ===== *)
theory Startup
  imports Boot
begin

text \<open>
  The start succeeds: if the application has set its processes up properly and left no queue overcrowded,
  \<open>maxrtos_scheduler_start\<close> gives every process its first stack frame, queues it, and finds a
  process for the first slot.
\<close>

lemma add_process_succeeds:
  assumes k: "kernel_inv s" "uncrowded s" and i: "allocated (process_pool s) i"
    "pcb_state (process_pool s i) = MAXRTOS_PROCESS_STATE_READY" "\<not> queued_in s i"
    and r: "maxrtos_partition_add_process PTR i s = (status, s')"
  shows "status = MAXRTOS_OK" "queued_in s' i"
proof -
  let ?part = "pcb_partition_id (process_pool s i)" and ?p = "unat (pcb_priority (process_pool s i))"
  note code = add_process_code[OF k(1) i(1,2)]
  have "i \<notin> set (ready (scheduler_ctx s ?part) ?p)" using i(3) code(4) by (auto simp: queued_in_def in_ready_ids)
  from queue_has_room[OF kernel_invD(1)[OF k(1)] k(2) code(2) i(1) refl code(4) this]
  obtain ctx' where c: "maxrtos_scheduler_enqueue PTR i (pcb_priority (process_pool s i)) (scheduler_ctx s ?part) = (MAXRTOS_OK, ctx')"
    "ready ctx' = (ready (scheduler_ctx s ?part))(?p := ready (scheduler_ctx s ?part) ?p @ [i])"
    using enqueue_ok[OF code(5,3), of i] by blast
  have e: "status = MAXRTOS_OK" "s' = upd_ctx ?part ctx' s" using r by (simp_all add: code(1) c(1))
  show "status = MAXRTOS_OK" by (rule e(1))
  have "i \<in> set (ready ctx' ?p)" by (simp add: c(2))
  then show "queued_in s' i" using code(4) by (auto simp: queued_in_def in_ready_ids e(2) upd_ctx_def)
qed

text \<open>The attributes a process must have been created with.\<close>

definition stack_fits :: "pcb \<Rightarrow> bool" where
  "stack_fits b \<longleftrightarrow> pcb_stack_base b \<noteq> 0 \<and> pcb_stack_size b \<ge> MAXRTOS_ARCH_MIN_STACK_SIZE \<and> pcb_entry b \<noteq> 0"

lemma init_stack_succeeds:
  assumes "stack_fits (process_pool (kern a) i)"
  shows "\<exists>sp g. maxrtos_arch_init_stack (Some (Process_Pcb i)) a
    = (MAXRTOS_OK, upd_pcb_at (Process_Pcb i) (\<lambda>b. b\<lparr>pcb_stack_pointer := sp, pcb_ipc_result_pending := False\<rparr>) (upd_mem g a))"
  using assms unfolding maxrtos_arch_init_stack_def option.case Let_def
  by (simp add: stack_fits_def pcb_at_def) blast

text \<open>Every process is READY; those that are not to do any more are queued.\<close>

definition dormant :: "u32 list \<Rightarrow> arch \<Rightarrow> bool" where
  "dormant todo a \<longleftrightarrow> starting todo a \<and> uncrowded (kern a)
     \<and> (\<forall>i. allocated (process_pool (kern a)) i \<longrightarrow> pcb_state (process_pool (kern a) i) = MAXRTOS_PROCESS_STATE_READY
          \<and> stack_fits (process_pool (kern a) i) \<and> (i \<notin> set todo \<longrightarrow> queued_in (kern a) i))"

lemma start_step_succeeds:
  assumes a: "dormant (pid # todo) a" "pid \<notin> set todo"
  shows "\<exists>a'. start_step PTR pid (Some a) = Some a' \<and> dormant todo a' \<and> halted (kern a') = halted (kern a)"
proof (cases "allocated (process_pool (kern a)) pid")
  case False
  then have "start_step PTR pid (Some a) = Some a" by (simp add: start_step_def process_ref_def process_get_eq)
  with a False show ?thesis by (auto simp: dormant_def starting_def)
next
  case True
  have st: "starting (pid # todo) a" "uncrowded (kern a)" "kernel_ok a" "\<not> queued_in (kern a) pid"
    and ready: "\<And>j. allocated (process_pool (kern a)) j \<Longrightarrow> pcb_state (process_pool (kern a) j) = MAXRTOS_PROCESS_STATE_READY
      \<and> stack_fits (process_pool (kern a) j)"
    using a(1) True by (auto simp: dormant_def starting_def)
  from init_stack_succeeds[of a pid] ready[OF True] obtain sp g where
    i: "maxrtos_arch_init_stack (Some (Process_Pcb pid)) a
      = (MAXRTOS_OK, upd_pcb_at (Process_Pcb pid) (\<lambda>b. b\<lparr>pcb_stack_pointer := sp, pcb_ipc_result_pending := False\<rparr>) (upd_mem g a))" by blast
  define a1 where "a1 = upd_pcb_at (Process_Pcb pid) (\<lambda>b. b\<lparr>pcb_stack_pointer := sp, pcb_ipc_result_pending := False\<rparr>) (upd_mem g a)"
  note s1 = init_stack_step[OF st(3) i[folded a1_def]]
  have k1: "kernel_inv (kern a1)" "timer_ok (kern a1)" "uncrowded (kern a1)"
    using s1(1) st(2) uncrowded_owner[of "kern a" "kern a1"] by (simp_all add: kept_def kernel_ok_def)
  have pcb: "process_pool (kern a1) j = (if j = pid then (process_pool (kern a) j)\<lparr>pcb_stack_pointer := sp, pcb_ipc_result_pending := False\<rparr>
      else process_pool (kern a) j)" "halted (kern a1) = halted (kern a)" for j
    by (simp_all add: a1_def upd_pcb_at_def upd_mem_def)
  have sched: "queued_in (kern a1) j = queued_in (kern a) j" for j unfolding a1_def by (rule stack_update_sched) simp
  have same: "allocated (process_pool (kern a1)) j = allocated (process_pool (kern a)) j"
    "pcb_state (process_pool (kern a1) j) = pcb_state (process_pool (kern a) j)"
    "stack_fits (process_pool (kern a1) j) = stack_fits (process_pool (kern a) j)"
    "waits_for_time (process_pool (kern a1) j) = waits_for_time (process_pool (kern a) j)" for j
    by (simp_all add: pcb allocated_def stack_fits_def waits_for_time_def)
  have i1: "allocated (process_pool (kern a1)) pid" "pcb_state (process_pool (kern a1) pid) = MAXRTOS_PROCESS_STATE_READY"
    "\<not> queued_in (kern a1) pid" "\<not> waits_for_time (process_pool (kern a1) pid)"
    using True ready[OF True] st(1,4) sched same by (simp_all add: starting_def)
  obtain st2 k where r: "maxrtos_partition_add_process PTR pid (kern a1) = (st2, k)" by (rule prod.exhaust)
  note ad = add_process_admits[OF k1(1,2) i1 r] and su = add_process_succeeds[OF k1(1,3) i1(1-3) r]
  have ref: "process_ref pid a = Some (Process_Pcb pid)" using True by (simp add: process_ref_def process_get_eq)
  have step: "start_step PTR pid (Some a) = Some (a1\<lparr>kern := k\<rparr>)"
    using ready[OF True] by (simp add: start_step_def ref pcb_at_def i a1_def[symmetric] r su(1))
  note ok = start_step_ok[OF st(1) a(2) step]
  have "uncrowded k" using k1(3) uncrowded_owner[of "kern a1" k] ad(3) by (simp add: same_owner_def)
  moreover have "queued_in k j" if "allocated (process_pool (kern a)) j" "j \<notin> set todo" for j
    using su(2) ad(6)[of j] sched[of j] a(1) that by (cases "j = pid") (auto simp: dormant_def)
  ultimately have "dormant todo (a1\<lparr>kern := k\<rparr>)"
    using ok ready by (simp add: dormant_def ad(3) same)
  with step ad(5) pcb(2) show ?thesis by auto
qed

lemma start_walk_succeeds:
  assumes "dormant ids a" "distinct ids"
  shows "\<exists>a'. fold (start_step PTR) ids (Some a) = Some a' \<and> dormant [] a' \<and> halted (kern a') = halted (kern a)"
  using assms
proof (induction ids arbitrary: a)
  case (Cons pid ids)
  then obtain a1 where a1: "start_step PTR pid (Some a) = Some a1" "dormant ids a1" "halted (kern a1) = halted (kern a)"
    using start_step_succeeds[of pid ids a] by auto
  with Cons.IH[OF a1(2)] Cons.prems(2) show ?case by auto
qed simp

subsection \<open>The first tick\<close>

text \<open>With nothing blocked the scan of a tick moves no process.\<close>

lemma tick_scan_quiet:
  assumes inv: "kernel_inv s" "timer_ok s" and none: "\<And>i. allocated (process_pool s) i \<Longrightarrow> pcb_state (process_pool s i) \<noteq> MAXRTOS_PROCESS_STATE_BLOCKED"
  shows "scheduler_ctx (tick_scan PTR now s) = scheduler_ctx s"
proof -
  obtain n s1 where e: "maxrtos_ipc_expire_timeouts PTR now s = (n, s1)" by (rule prod.exhaust)
  have "\<not> late now s i" for i using none by (auto simp: overdue_def)
  with expire_outcome[OF inv(1) e] have s1: "s1 = s" by auto
  have "\<not> due_release now s i" for i using none by (auto simp: due_release_def)
  with release_inv[OF inv, of now] have s2: "snd (maxrtos_kernel_release_periodic PTR now s) = s" by (simp add: released_all_def)
  have "scheduler_ctx (snd (maxrtos_kernel_check_deadlines now s)) = scheduler_ctx s"
    using check_deadlines_outcome(1)[of now s] by (simp add: missed_all_def)
  then show ?thesis by (simp add: tick_scan_def Let_def e s1 s2 maxrtos_kernel_timing_refresh_due_def)
qed

lemma quiet_tick:
  assumes inv: "kernel_inv s" "timer_ok s" and wf: "frame_wf sched"
    and none: "\<And>i. allocated (process_pool s) i \<Longrightarrow> pcb_state (process_pool s i) \<noteq> MAXRTOS_PROCESS_STATE_BLOCKED"
  shows "\<exists>s2. kernel_inv s2 \<and> same_owner s s2 \<and> scheduler_ctx s2 = scheduler_ctx s \<and> halted s2 = halted s \<and> current_id s2 = current_id s
    \<and> maxrtos_kernel_on_tick PTR sched PTR PTR s = maxrtos_partition_select PTR (slot_partition sched (s_current_tick s)) PTR False s2"
proof -
  define part where "part = slot_partition sched (s_current_tick s)"
  have f: "maxrtos_frame_partition_at_tick PTR sched (s_current_tick s) PTR = (MAXRTOS_OK, Some part)"
    unfolding part_def slot_partition_def by (rule frame_lookup_nth[OF wf])
  define s1 where "s1 = s\<lparr>s_current_tick := s_current_tick s + 1\<rparr>"
  define s2 where "s2 = (if maxrtos_kernel_timing_is_due (s_current_tick s1) s1 then tick_scan PTR (s_current_tick s1) s1 else s1)"
  have k2: "kernel_inv s2" using tick_step[OF inv] unfolding s2_def s1_def by blast
  have k1: "kernel_inv s1" "timer_ok s1"
    using inv by (simp_all add: s1_def kernel_inv_def sched_inv_def due_ok_def timer_ok_def queued_in_def)
  have "same_owner s s1" by (simp add: s1_def same_owner_def)
  then have "same_owner s s2" using tick_scan_owner[OF k1] by (auto simp: s2_def intro: same_owner_trans)
  moreover have "scheduler_ctx s2 = scheduler_ctx s" "halted s2 = halted s" "current_id s2 = current_id s"
    using tick_scan_quiet[OF k1] none tick_scan_frame(2,3)[OF k1] by (simp_all add: s2_def) (simp_all add: s1_def)
  moreover have "maxrtos_kernel_on_tick PTR sched PTR PTR s = maxrtos_partition_select PTR part PTR False s2"
    by (simp add: maxrtos_kernel_on_tick_def f s1_def[symmetric] s2_def[symmetric] Let_def maxrtos_partition_dispatch_def)
  ultimately show ?thesis using k2 unfolding part_def by blast
qed

lemma on_tick_finds:
  assumes inv: "kernel_inv s" "timer_ok s" and un: "uncrowded s" and wf: "frame_wf sched"
    and r: "maxrtos_kernel_on_tick PTR sched PTR PTR s = (status, out, s')"
    and none: "\<And>i. allocated (process_pool s) i \<Longrightarrow> pcb_state (process_pool s i) \<noteq> MAXRTOS_PROCESS_STATE_BLOCKED"
    and live: "\<not> halted s (slot_partition sched (s_current_tick s))"
      "i \<in> set (ready_ids (scheduler_ctx s (slot_partition sched (s_current_tick s))))"
  shows "status = MAXRTOS_OK"
proof (rule ccontr)
  define part where "part = slot_partition sched (s_current_tick s)"
  have p: "part < of_nat MAXRTOS_MAX_PARTITIONS" unfolding part_def slot_partition_def by (rule frame_timeline_partition[OF wf])
  from quiet_tick[OF inv wf] none obtain s2 where s2: "kernel_inv s2" "same_owner s s2" "scheduler_ctx s2 = scheduler_ctx s"
    "halted s2 = halted s" "maxrtos_partition_select PTR part PTR False s2 = (status, out, s')"
    using r unfolding part_def by metis
  have "uncrowded s2" using un uncrowded_owner[OF s2(2)] by simp
  note none2 = select_uncrowded(3)[OF s2(1) this p s2(5)]
  assume "status \<noteq> MAXRTOS_OK"
  from none2[OF this] live s2(3,4) show False by (auto simp: in_ready_ids part_def[symmetric])
qed

text \<open>A tick that finds nothing queued and no current process has nothing to run.\<close>

lemma on_tick_empty:
  assumes inv: "kernel_inv s" "timer_ok s" and wf: "frame_wf sched"
    and none: "\<And>i. allocated (process_pool s) i \<Longrightarrow> pcb_state (process_pool s i) \<noteq> MAXRTOS_PROCESS_STATE_BLOCKED"
    and empty: "\<And>p. p < of_nat MAXRTOS_MAX_PARTITIONS \<Longrightarrow> \<not> halted s p \<and> current_id s p = MAXRTOS_INVALID_PROCESS_ID
      \<and> ready_ids (scheduler_ctx s p) = []"
  shows "\<exists>s'. maxrtos_kernel_on_tick PTR sched PTR PTR s = (MAXRTOS_ERR_QUEUE_EMPTY, None, s')"
proof -
  define part where "part = slot_partition sched (s_current_tick s)"
  have p: "part < of_nat MAXRTOS_MAX_PARTITIONS" unfolding part_def slot_partition_def by (rule frame_timeline_partition[OF wf])
  from quiet_tick[OF inv wf] none obtain s2 where s2: "kernel_inv s2" "scheduler_ctx s2 = scheduler_ctx s"
    "halted s2 = halted s" "current_id s2 = current_id s"
    "maxrtos_kernel_on_tick PTR sched PTR PTR s = maxrtos_partition_select PTR part PTR False s2"
    unfolding part_def by metis
  have live: "\<not> halted s2 part" and c: "current_id s2 part = MAXRTOS_INVALID_PROCESS_ID" using empty[OF p] s2(3,4) by simp_all
  have q: "ready (scheduler_ctx s2 part) r = []" if "r \<le> MAXRTOS_MAX_PRIORITY" for r
  proof -
    have "x \<notin> set (ready (scheduler_ctx s2 part) r)" for x
      using empty[OF p] that in_ready_ids[of x "scheduler_ctx s2 part"] s2(2) by auto
    then show ?thesis by (cases "ready (scheduler_ctx s2 part) r") auto
  qed
  then have "find (\<lambda>r. ready (scheduler_ctx s2 part) r \<noteq> []) [0..<MAXRTOS_MAX_PRIORITY + 1] = None"
    by (auto simp: find_None_iff)
  with partition_select_eq[OF kernel_invD(1)[OF s2(1)] p live, of False] c show ?thesis
    by (auto simp: s2(5) select_spec_def running_of_def)
qed

lemma rearm_all_sched:
  "scheduler_ctx (maxrtos_kernel_rearm_all_timing s) = scheduler_ctx s \<and> halted (maxrtos_kernel_rearm_all_timing s) = halted s
   \<and> (\<forall>i. pcb_state (process_pool (maxrtos_kernel_rearm_all_timing s) i) = pcb_state (process_pool s i))"
  unfolding maxrtos_kernel_rearm_all_timing_def
  by (rule fold_invariant[where Q = "\<lambda>_. True"])
    (auto simp: maxrtos_process_rearm_timing_def arm_deadline_def Let_def split: option.split)

lemma start_scheduler_succeeds:
  assumes a: "dormant [] a" and wf: "frame_wf sched" and live: "\<not> halted (kern a) (slot_partition sched 0)"
    and i: "allocated (process_pool (kern a)) i" "pcb_partition_id (process_pool (kern a) i) = slot_partition sched 0"
  shows "\<exists>b. maxrtos_arch_start_scheduler sched PTR a = Some b"
proof -
  have inv: "kernel_inv (kern a)" "timer_ok (kern a)" "uncrowded (kern a)"
    and ready: "\<And>j. allocated (process_pool (kern a)) j \<Longrightarrow> pcb_state (process_pool (kern a) j) = MAXRTOS_PROCESS_STATE_READY"
    and q: "queued_in (kern a) i"
    using a i(1) by (auto simp: dormant_def starting_def kernel_ok_def)
  define s1 where "s1 = maxrtos_kernel_rearm_all_timing (maxrtos_kernel_tick_reset (kern a))"
  have reset: "same_owner (kern a) (maxrtos_kernel_tick_reset (kern a))" "s_current_tick (maxrtos_kernel_tick_reset (kern a)) = 0"
    "scheduler_ctx (maxrtos_kernel_tick_reset (kern a)) = scheduler_ctx (kern a)" "halted (maxrtos_kernel_tick_reset (kern a)) = halted (kern a)"
    "process_pool (maxrtos_kernel_tick_reset (kern a)) = process_pool (kern a)"
    by (simp_all add: maxrtos_kernel_tick_reset_def same_owner_def maxrtos_kernel_timing_reset_def)
  have k1: "kernel_inv s1" "timer_ok s1" using rearm_all_inv[OF tick_reset_inv[OF inv(1,2)]] by (simp_all add: s1_def)
  have o1: "same_owner (kern a) s1" and t1: "s_current_tick s1 = 0"
    using rearm_all_owner[of "maxrtos_kernel_tick_reset (kern a)"] reset by (auto simp: s1_def intro: same_owner_trans)
  have f1: "scheduler_ctx s1 = scheduler_ctx (kern a)" "halted s1 = halted (kern a)" "pcb_state (process_pool s1 j) = pcb_state (process_pool (kern a) j)" for j
    using rearm_all_sched[of "maxrtos_kernel_tick_reset (kern a)"] reset by (simp_all add: s1_def)
  have un: "uncrowded s1" using inv(3) uncrowded_owner[OF o1] by simp
  obtain st out k where t: "maxrtos_kernel_on_tick PTR sched PTR PTR s1 = (st, out, k)" by (rule prod_cases3)
  have al: "allocated (process_pool s1) j = allocated (process_pool (kern a)) j" for j by (simp add: allocated_def f1)
  have "st = MAXRTOS_OK"
    by (rule on_tick_finds[OF k1 un wf t]) (use q live i(2) in \<open>auto simp: al f1 ready t1 queued_in_def\<close>)
  note d = tick_dispatches[OF k1 un wf t]
  from d(4)[OF \<open>st = MAXRTOS_OK\<close>] obtain n where n: "out = Some n" "runs k n" by blast
  have "allocated (process_pool k) n" using n(2) runs_iff[OF kernel_invD(1)[OF d(1)]] by simp
  with t \<open>st = MAXRTOS_OK\<close> n(1) show ?thesis
    by (simp add: maxrtos_arch_start_scheduler_def maxrtos_kernel_start_scheduler_def s1_def[symmetric] process_get_eq)
qed

lemma scheduler_start_succeeds:
  assumes a: "dormant (ids_below MAXRTOS_MAX_PROCESSES) a" and f: "s_frame_schedule a = Some sched" "frame_wf sched"
    and live: "\<not> halted (kern a) (slot_partition sched 0)"
    and i: "allocated (process_pool (kern a)) i" "pcb_partition_id (process_pool (kern a) i) = slot_partition sched 0"
  shows "\<exists>b. maxrtos_scheduler_start a = Some b"
proof -
  have t: "s_table a = PTR" using a by (simp add: dormant_def starting_def)
  from start_walk_succeeds[OF a] obtain a' where w: "fold (start_step PTR) (ids_below MAXRTOS_MAX_PROCESSES) (Some a) = Some a'"
    "dormant [] a'" "halted (kern a') = halted (kern a)" by (auto simp: distinct_ids_below)
  have "starting (ids_below MAXRTOS_MAX_PROCESSES) a" using a by (simp add: dormant_def)
  from start_walk_ok[OF this _ w(1)] have "same_owner (kern a) (kern a')" by (simp add: distinct_ids_below kept_def)
  then have "allocated (process_pool (kern a')) i" "pcb_partition_id (process_pool (kern a') i) = slot_partition sched 0"
    using i by (simp_all add: same_owner_def)
  from start_scheduler_succeeds[OF w(2) f(2) _ this] live w(3) show ?thesis
    by (simp add: maxrtos_scheduler_start_def f(1) t w(1))
qed

end
