(* ===== verification/Config.thy ===== *)
theory Config
  imports Startup
begin

text \<open>
  The configuration that the generator emits for its example module with ports
  (tools/maxrtos_codegen/examples/generated_with_ports/maxrtos_config.c), step by step, and what each step
  installs. The addresses the linker chooses are parameters. \<open>None\<close> is the halt loop.
\<close>

subsection \<open>The generated configuration\<close>

record link_map =
  partition_control_domain_start :: u32
  partition_application_domain_start :: u32
  s_port_storage_cmd_channel :: u32
  s_sampling_storage_status :: u32

text \<open>The static variables of the file, as the C start-up leaves them.\<close>

record config_statics =
  s_mpu_config :: maxrtos_mpu_config_t
  s_health_monitor :: maxrtos_health_monitor_t
  s_config_schedule :: maxrtos_frame_schedule_t

abbreviation (input) PARTITION_ID_control :: u32 where "PARTITION_ID_control \<equiv> 0"
abbreviation (input) PARTITION_ID_application :: u32 where "PARTITION_ID_application \<equiv> 1"
abbreviation (input) PORT_ID_cmd_channel :: u32 where "PORT_ID_cmd_channel \<equiv> 0"
abbreviation (input) SAMPLING_PORT_ID_status :: u32 where "SAMPLING_PORT_ID_status \<equiv> 0"

definition MAXRTOS_CONFIG_CHECK :: "maxrtos_status \<times> 'a \<Rightarrow> 'a option" where
  "MAXRTOS_CONFIG_CHECK r = (if fst r \<noteq> MAXRTOS_OK then None else Some (snd r))"

definition config_kernel :: "kstate \<Rightarrow> kstate option" where
  "config_kernel s =
     MAXRTOS_CONFIG_CHECK (maxrtos_partition_table_init PTR
       (maxrtos_sampling_port_pool_init (maxrtos_queue_port_pool_init (maxrtos_buffer_pool_init
         (maxrtos_semaphore_pool_init (maxrtos_mutex_pool_init (maxrtos_process_pool_init s)))))))"

definition generated_policies :: "(u32 \<times> maxrtos_fault_type \<times> maxrtos_hm_action) list" where
  "generated_policies =
     [(PARTITION_ID_control, MAXRTOS_FAULT_MEMORY_ACCESS, MAXRTOS_HM_ACTION_RESTART_PROCESS),
      (PARTITION_ID_control, MAXRTOS_FAULT_BUS_ERROR, MAXRTOS_HM_ACTION_RESTART_PROCESS),
      (PARTITION_ID_control, MAXRTOS_FAULT_ILLEGAL_INSTRUCTION, MAXRTOS_HM_ACTION_RESTART_PROCESS),
      (PARTITION_ID_control, MAXRTOS_FAULT_DIVIDE_BY_ZERO, MAXRTOS_HM_ACTION_RESTART_PROCESS),
      (PARTITION_ID_control, MAXRTOS_FAULT_DEADLINE_EXCEEDED, MAXRTOS_HM_ACTION_RESTART_PROCESS),
      (PARTITION_ID_application, MAXRTOS_FAULT_MEMORY_ACCESS, MAXRTOS_HM_ACTION_RESTART_PROCESS),
      (PARTITION_ID_application, MAXRTOS_FAULT_BUS_ERROR, MAXRTOS_HM_ACTION_RESTART_PROCESS),
      (PARTITION_ID_application, MAXRTOS_FAULT_ILLEGAL_INSTRUCTION, MAXRTOS_HM_ACTION_RESTART_PROCESS),
      (PARTITION_ID_application, MAXRTOS_FAULT_DIVIDE_BY_ZERO, MAXRTOS_HM_ACTION_RESTART_PROCESS),
      (PARTITION_ID_application, MAXRTOS_FAULT_DEADLINE_EXCEEDED, MAXRTOS_HM_ACTION_RESTART_PROCESS)]"

definition config_health_monitor :: "maxrtos_health_monitor_t \<Rightarrow> maxrtos_health_monitor_t option" where
  "config_health_monitor hm =
     fold (\<lambda>(partition_id, fault_type, action) configured.
         case configured of
           None \<Rightarrow> None
         | Some hm \<Rightarrow> MAXRTOS_CONFIG_CHECK (maxrtos_hm_set_policy PTR partition_id fault_type action hm))
       generated_policies (MAXRTOS_CONFIG_CHECK (maxrtos_hm_init PTR hm))"

definition config_domains :: "link_map \<Rightarrow> maxrtos_mpu_config_t \<Rightarrow> maxrtos_mpu_config_t option" where
  "config_domains link config =
     (case MAXRTOS_CONFIG_CHECK (maxrtos_mpu_config_init PTR config) of
        None \<Rightarrow> None
      | Some config1 \<Rightarrow>
          (case MAXRTOS_CONFIG_CHECK (maxrtos_mpu_set_partition_region PTR PARTITION_ID_control
                  (partition_control_domain_start link) 2048 MAXRTOS_MPU_ACCESS_READ_WRITE False config1) of
             None \<Rightarrow> None
           | Some config2 \<Rightarrow>
               MAXRTOS_CONFIG_CHECK (maxrtos_mpu_set_partition_region PTR PARTITION_ID_application
                 (partition_application_domain_start link) 1024 MAXRTOS_MPU_ACCESS_READ_WRITE False config2)))"

definition generated_regions :: "(u32 \<times> u32 \<times> u32 \<times> maxrtos_mpu_access \<times> bool) list" where
  "generated_regions =
     [(0, 0x08000000, 2097152, MAXRTOS_MPU_ACCESS_READ_ONLY, True),
      (1, 0x58000000, 524288, MAXRTOS_MPU_ACCESS_READ_WRITE, False),
      (2, 0x20000000, 131072, MAXRTOS_MPU_ACCESS_PRIV_READ_WRITE, False),
      (3, 0x24000000, 524288, MAXRTOS_MPU_ACCESS_PRIV_READ_WRITE, False)]"

text \<open>The statuses are ignored.\<close>

definition config_regions :: "mpu_hw \<Rightarrow> mpu_hw option" where
  "config_regions hw =
     fold (\<lambda>(region_number, base, sz, acc, executable) configured.
         case configured of
           None \<Rightarrow> None
         | Some hw \<Rightarrow> map_option snd (maxrtos_arch_mpu_configure_region region_number base sz acc executable hw))
       generated_regions (Some hw)"

definition config_ports :: "link_map \<Rightarrow> kstate \<Rightarrow> kstate option" where
  "config_ports link s =
     (case maxrtos_queue_port_create (s_port_storage_cmd_channel link) 16 4 4 (push_bit 0 1) (push_bit 1 1) PTR s of
        (status, port_id, s1) \<Rightarrow>
          if status \<noteq> MAXRTOS_OK \<or> out_val 0 port_id \<noteq> PORT_ID_cmd_channel then None
          else
            (case maxrtos_sampling_port_create (s_sampling_storage_status link) 8 8 (push_bit 0 1) (push_bit 1 1) PTR s1 of
               (status, sampling_id, s2) \<Rightarrow>
                 if status \<noteq> MAXRTOS_OK \<or> out_val 0 sampling_id \<noteq> SAMPLING_PORT_ID_status then None else Some s2))"

definition config_frame :: "maxrtos_frame_schedule_t \<Rightarrow> maxrtos_frame_schedule_t option" where
  "config_frame schedule =
     MAXRTOS_CONFIG_CHECK (maxrtos_frame_init PTR PTR
       (\<lambda>i. if i = 0 then \<lparr>slot_partition_id = 0, slot_duration_ticks = 5\<rparr>
            else \<lparr>slot_partition_id = 1, slot_duration_ticks = 3\<rparr>) 2 schedule)"

definition maxrtos_config_init ::
    "link_map \<Rightarrow> config_statics \<Rightarrow> scb \<Rightarrow> system_regs \<Rightarrow> arch \<Rightarrow> (scb \<times> system_regs \<times> arch) option"
where
  "maxrtos_config_init link statics r sys a =
     (case config_kernel (kern a) of
        None \<Rightarrow> None
      | Some k \<Rightarrow>
          let a1 = maxrtos_arch_set_partition_table PTR (a\<lparr>kern := k\<rparr>) in
          (case config_health_monitor (s_health_monitor statics) of
             None \<Rightarrow> None
           | Some hm \<Rightarrow>
               let a2 = maxrtos_arch_set_health_monitor (Some hm) a1; r1 = maxrtos_arch_fault_handlers_init r in
               (case config_domains link (s_mpu_config statics) of
                  None \<Rightarrow> None
                | Some config \<Rightarrow>
                    (case config_regions (maxrtos_arch_mpu_set_config (Some config) (mpu_unit a2)) of
                       None \<Rightarrow> None
                     | Some hw \<Rightarrow>
                         (case config_ports link (kern a2) of
                            None \<Rightarrow> None
                          | Some k2 \<Rightarrow>
                              let a3 = a2\<lparr>kern := k2, mpu_unit := maxrtos_arch_mpu_init False hw\<rparr> in
                              (case config_frame (s_config_schedule statics) of
                                 None \<Rightarrow> None
                               | Some schedule \<Rightarrow>
                                   (case maxrtos_arch_context_switch_init sys a3 of
                                      None \<Rightarrow> None
                                    | Some (sys1, a4) \<Rightarrow>
                                        Some (r1, sys1, maxrtos_arch_systick_init (Some schedule) PTR a4))))))))"

subsection \<open>The kernel before the start\<close>

text \<open>Processes may exist; none is queued, waits or runs.\<close>

definition unstarted :: "kstate \<Rightarrow> bool" where
  "unstarted s \<longleftrightarrow> kernel_inv s \<and> timer_ok s
     \<and> (\<forall>i. allocated (process_pool s) i \<longrightarrow> pcb_state (process_pool s i) = MAXRTOS_PROCESS_STATE_READY
          \<and> \<not> waits_for_time (process_pool s i))
     \<and> (\<forall>p < of_nat MAXRTOS_MAX_PARTITIONS. \<not> halted s p
          \<and> current_id s p = MAXRTOS_INVALID_PROCESS_ID \<and> ready_ids (scheduler_ctx s p) = [])"

definition empty_lists :: "kstate \<Rightarrow> bool" where
  "empty_lists s \<longleftrightarrow> (\<forall>w. wl_wf (waitlists s w) \<and> wl_list (waitlists s w) = [])"

lemma empty_lists_reset [simp]: "empty_lists s \<Longrightarrow> empty_lists (waitlist_reset w s)"
  by (simp add: empty_lists_def waitlist_reset_wf)

lemma pool_inits_keep:
  assumes "empty_lists s"
  shows "\<exists>s'. s' = maxrtos_sampling_port_pool_init (maxrtos_queue_port_pool_init (maxrtos_buffer_pool_init
      (maxrtos_semaphore_pool_init (maxrtos_mutex_pool_init s)))) \<and> empty_lists s' \<and> process_pool s' = process_pool s"
proof -
  define P where "P t \<longleftrightarrow> empty_lists t \<and> process_pool t = process_pool s" for t
  have upd: "P (waitlist_reset w t)" "P (upd_mutex i f1 t)" "P (upd_semaphore i f2 t)" "P (upd_buffer i f3 t)" "P (upd_port i f4 t)"
    "P (upd_sampling_port i f5 t)" if "P t" for t w i f1 f2 f3 f4 f5
    using that by (simp_all add: P_def upd_mutex_def upd_semaphore_def upd_buffer_def upd_port_def upd_sampling_port_def empty_lists_def waitlist_reset_wf)
  note inv = fold_invariant[where P = P and Q = "\<lambda>_. True"]
  have "P s" using assms by (simp add: P_def)
  then have "P (maxrtos_mutex_pool_init s)" unfolding maxrtos_mutex_pool_init_def by (intro inv) (simp_all add: upd)
  then have "P (maxrtos_semaphore_pool_init (maxrtos_mutex_pool_init s))"
    unfolding maxrtos_semaphore_pool_init_def by (intro inv) (simp_all add: upd)
  then have "P (maxrtos_buffer_pool_init (maxrtos_semaphore_pool_init (maxrtos_mutex_pool_init s)))"
    unfolding maxrtos_buffer_pool_init_def by (intro inv) (simp_all add: upd)
  then have "P (maxrtos_queue_port_pool_init (maxrtos_buffer_pool_init (maxrtos_semaphore_pool_init (maxrtos_mutex_pool_init s))))"
    unfolding maxrtos_queue_port_pool_init_def by (intro inv) (simp_all add: upd)
  then have "P (maxrtos_sampling_port_pool_init (maxrtos_queue_port_pool_init (maxrtos_buffer_pool_init
      (maxrtos_semaphore_pool_init (maxrtos_mutex_pool_init s)))))"
    unfolding maxrtos_sampling_port_pool_init_def by (intro inv) (simp_all add: upd)
  then show ?thesis by (simp add: P_def)
qed

text \<open>The two port pools are free.\<close>

lemma port_pool_init_free:
  assumes "i < of_nat MAXRTOS_MAX_QUEUE_PORTS"
  shows "\<not> qp_in_use (s_port_pool (maxrtos_queue_port_pool_init s) i)"
proof -
  have "\<not> qp_in_use (s_port_pool (fold (\<lambda>i s. waitlist_reset (WL_Port_Senders i) (waitlist_reset (WL_Port_Receivers i)
         (upd_port i (\<lambda>p. p\<lparr>qp_in_use := False, qp_sender_mask := 0, qp_receiver_mask := 0\<rparr>) s))) is s) i)"
    if "i \<in> set is \<or> \<not> qp_in_use (s_port_pool s i)" for "is"
    using that
  proof (induction "is" arbitrary: s)
    case (Cons j "is")
    show ?case unfolding fold_Cons comp_apply by (rule Cons.IH) (use Cons.prems in \<open>auto simp: upd_port_def\<close>)
  qed simp
  with assms show ?thesis unfolding maxrtos_queue_port_pool_init_def by (simp add: set_ids_below_8)
qed

lemma sampling_port_pool_init_free:
  assumes "i < of_nat MAXRTOS_MAX_SAMPLING_PORTS"
  shows "\<not> sp_in_use (s_sampling_port_pool (maxrtos_sampling_port_pool_init s) i)"
    "s_port_pool (maxrtos_sampling_port_pool_init s) = s_port_pool s"
proof -
  have "\<not> sp_in_use (s_sampling_port_pool (fold (\<lambda>i. upd_sampling_port i (\<lambda>p. p\<lparr>sp_in_use := False, sp_writer_mask := 0,
      sp_reader_mask := 0, sp_storage := 0, sp_message_size := 0, sp_has_message := False\<rparr>)) is s) i)"
    if "i \<in> set is \<or> \<not> sp_in_use (s_sampling_port_pool s i)" for "is"
    using that
  proof (induction "is" arbitrary: s)
    case (Cons j "is")
    show ?case unfolding fold_Cons comp_apply by (rule Cons.IH) (use Cons.prems in \<open>auto simp: upd_sampling_port_def\<close>)
  qed simp
  with assms show "\<not> sp_in_use (s_sampling_port_pool (maxrtos_sampling_port_pool_init s) i)"
    unfolding maxrtos_sampling_port_pool_init_def by (simp add: set_ids_below_8)
  show "s_port_pool (maxrtos_sampling_port_pool_init s) = s_port_pool s"
    unfolding maxrtos_sampling_port_pool_init_def
    by (rule fold_invariant[where P = "\<lambda>t. s_port_pool t = s_port_pool s" and Q = "\<lambda>_. True"]) (simp_all add: upd_sampling_port_def)
qed

lemma config_kernel_unstarted:
  assumes "empty_lists s"
  shows "\<exists>s'. config_kernel s = Some s' \<and> unstarted s' \<and> (\<forall>i. \<not> allocated (process_pool s') i)
    \<and> empty_lists s' \<and> \<not> qp_in_use (s_port_pool s' 0) \<and> \<not> sp_in_use (s_sampling_port_pool s' 0)"
proof -
  have "empty_lists (maxrtos_process_pool_init s)"
    using assms by (simp add: maxrtos_process_pool_init_def maxrtos_kernel_timing_reset_def empty_lists_def)
  from pool_inits_keep[OF this] obtain t where t: "t = maxrtos_sampling_port_pool_init (maxrtos_queue_port_pool_init
      (maxrtos_buffer_pool_init (maxrtos_semaphore_pool_init (maxrtos_mutex_pool_init (maxrtos_process_pool_init s)))))"
    "empty_lists t" "process_pool t = process_pool (maxrtos_process_pool_init s)" by blast
  have none: "\<not> allocated (process_pool t) i" for i
    by (simp add: t(3) allocated_def maxrtos_process_pool_init_def maxrtos_kernel_timing_reset_def Let_def process_slots_init_eq process_slot_reset_def)
  obtain st u where u: "maxrtos_partition_table_init PTR t = (st, u)" by (rule prod.exhaust)
  from partition_table_init_invariant[of t] none u have f: "st = MAXRTOS_OK" "sched_inv u" "process_pool u = process_pool t"
    "s_port_pool u = s_port_pool t" "s_sampling_port_pool u = s_sampling_port_pool t"
    "waitlists u = waitlists t" "\<forall>p < 8. \<not> halted u p \<and> current_id u p = MAXRTOS_INVALID_PROCESS_ID \<and> ready_ids (scheduler_ctx u p) = []" by auto
  have "wait_ok (process_pool u) (waitlists u)" "due_ok u" "timer_ok u"
    using t(2) none by (simp_all add: wait_ok_def due_ok_def timer_ok_def f empty_lists_def)
  moreover have "config_kernel s = Some u"
    using u f(1) by (simp add: config_kernel_def t(1)[symmetric] MAXRTOS_CONFIG_CHECK_def)
  moreover have "\<not> qp_in_use (s_port_pool t 0)" "\<not> sp_in_use (s_sampling_port_pool t 0)"
    by (simp_all add: t(1) sampling_port_pool_init_free(1) sampling_port_pool_init_free(2)[of 0] port_pool_init_free)
  ultimately show ?thesis using f none t(2) by (simp add: unstarted_def kernel_inv_def empty_lists_def)
qed

subsection \<open>The memory regions of the configuration\<close>

lemma configure_region_same:
  assumes "maxrtos_arch_mpu_configure_region r base sz acc executable hw = Some (st, hw')"
  shows "s_config hw' = s_config hw \<and> s_active_partition_id hw' = s_active_partition_id hw"
  using assms by (auto simp: maxrtos_arch_mpu_configure_region_def maxrtos_arch_mpu_program_region_def mpu_reg_write_def
      split: if_splits option.splits)

text \<open>A static region as the unit has it: base, size, permission field.\<close>

definition static_region :: "mpu_hw \<Rightarrow> u32 \<Rightarrow> u32 \<Rightarrow> nat \<Rightarrow> u32 \<Rightarrow> bool" where
  "static_region hw r base sz ap \<longleftrightarrow> (\<exists>rasr nx. region_regs hw r = (base, rasr) \<and> rasr_decode rasr = (True, sz, ap, nx))"

lemma configured_region:
  assumes "r < MAXRTOS_MPU_PARTITION_REGION" "base mod sz = 0" "5 \<le> k" "2 ^ k \<le> unat sz" "unat sz < 2 ^ (k + 1)"
  shows "\<exists>hw'. maxrtos_arch_mpu_configure_region r base sz acc executable hw = Some (MAXRTOS_OK, hw')
    \<and> s_config hw' = s_config hw \<and> s_active_partition_id hw' = s_active_partition_id hw
    \<and> static_region hw' r base (2 ^ k) (ap_field acc) \<and> (\<forall>q. q \<noteq> r \<longrightarrow> region_regs hw' q = region_regs hw q)"
  using configure_region_outcome[OF assms, of acc executable hw] configure_region_same by (fastforce simp: static_region_def)

lemma static_region_cong: "region_regs hw' r = region_regs hw r \<Longrightarrow> static_region hw' r base sz ap = static_region hw r base sz ap"
  by (simp add: static_region_def)

lemma config_regions_ok:
  "\<exists>hw'. config_regions hw = Some hw' \<and> s_config hw' = s_config hw \<and> s_active_partition_id hw' = s_active_partition_id hw
    \<and> static_region hw' 0 0x08000000 (2 ^ 21) 6 \<and> static_region hw' 1 0x58000000 (2 ^ 19) 3
    \<and> static_region hw' 2 0x20000000 (2 ^ 17) 1 \<and> static_region hw' 3 0x24000000 (2 ^ 19) 1
    \<and> (\<forall>q. q \<notin> {0, 1, 2, 3} \<longrightarrow> region_regs hw' q = region_regs hw q)"
proof -
  have ap: "ap_field MAXRTOS_MPU_ACCESS_READ_ONLY = 6" "ap_field MAXRTOS_MPU_ACCESS_READ_WRITE = 3"
    "ap_field MAXRTOS_MPU_ACCESS_PRIV_READ_WRITE = 1" by code_simp+
  obtain h0 where h0: "maxrtos_arch_mpu_configure_region 0 0x08000000 2097152 MAXRTOS_MPU_ACCESS_READ_ONLY True hw = Some (MAXRTOS_OK, h0)"
    "s_config h0 = s_config hw" "s_active_partition_id h0 = s_active_partition_id hw"
    "static_region h0 0 0x08000000 (2 ^ 21) 6" "\<And>q. q \<noteq> 0 \<Longrightarrow> region_regs h0 q = region_regs hw q"
    using configured_region[where r = 0 and base = "0x08000000" and sz = 2097152 and k = 21 and hw = hw
        and acc = MAXRTOS_MPU_ACCESS_READ_ONLY and executable = True] by (auto simp: ap)
  obtain h1 where h1: "maxrtos_arch_mpu_configure_region 1 0x58000000 524288 MAXRTOS_MPU_ACCESS_READ_WRITE False h0 = Some (MAXRTOS_OK, h1)"
    "s_config h1 = s_config h0" "s_active_partition_id h1 = s_active_partition_id h0"
    "static_region h1 1 0x58000000 (2 ^ 19) 3" "\<And>q. q \<noteq> 1 \<Longrightarrow> region_regs h1 q = region_regs h0 q"
    using configured_region[where r = 1 and base = "0x58000000" and sz = 524288 and k = 19 and hw = h0
        and acc = MAXRTOS_MPU_ACCESS_READ_WRITE and executable = False] by (auto simp: ap)
  obtain h2 where h2: "maxrtos_arch_mpu_configure_region 2 0x20000000 131072 MAXRTOS_MPU_ACCESS_PRIV_READ_WRITE False h1 = Some (MAXRTOS_OK, h2)"
    "s_config h2 = s_config h1" "s_active_partition_id h2 = s_active_partition_id h1"
    "static_region h2 2 0x20000000 (2 ^ 17) 1" "\<And>q. q \<noteq> 2 \<Longrightarrow> region_regs h2 q = region_regs h1 q"
    using configured_region[where r = 2 and base = "0x20000000" and sz = 131072 and k = 17 and hw = h1
        and acc = MAXRTOS_MPU_ACCESS_PRIV_READ_WRITE and executable = False] by (auto simp: ap)
  obtain h3 where h3: "maxrtos_arch_mpu_configure_region 3 0x24000000 524288 MAXRTOS_MPU_ACCESS_PRIV_READ_WRITE False h2 = Some (MAXRTOS_OK, h3)"
    "s_config h3 = s_config h2" "s_active_partition_id h3 = s_active_partition_id h2"
    "static_region h3 3 0x24000000 (2 ^ 19) 1" "\<And>q. q \<noteq> 3 \<Longrightarrow> region_regs h3 q = region_regs h2 q"
    using configured_region[where r = 3 and base = "0x24000000" and sz = 524288 and k = 19 and hw = h2
        and acc = MAXRTOS_MPU_ACCESS_PRIV_READ_WRITE and executable = False] by (auto simp: ap)
  have "config_regions hw = Some h3"
    by (simp add: config_regions_def generated_regions_def h0(1) h1(1) h2(1) h3(1))
  moreover have "static_region h3 0 0x08000000 (2 ^ 21) 6"
    using h0(4) static_region_cong[of h3 0 h0] h1(5)[of 0] h2(5)[of 0] h3(5)[of 0] by simp
  moreover have "static_region h3 1 0x58000000 (2 ^ 19) 3"
    using h1(4) static_region_cong[of h3 1 h1] h2(5)[of 1] h3(5)[of 1] by simp
  moreover have "static_region h3 2 0x20000000 (2 ^ 17) 1"
    using h2(4) static_region_cong[of h3 2 h2] h3(5)[of 2] by simp
  ultimately show ?thesis using h0 h1 h2 h3 by (intro exI[of _ h3]) simp
qed

lemma disable_regions_keep: "q \<notin> set rs \<Longrightarrow> region_regs (fold maxrtos_arch_mpu_disable_region rs hw) q = region_regs hw q"
  by (induction rs arbitrary: hw) (simp_all add: disable_region_regs)

lemma disable_regions_config:
  "s_config (fold maxrtos_arch_mpu_disable_region rs hw) = s_config hw
   \<and> s_active_partition_id (fold maxrtos_arch_mpu_disable_region rs hw) = s_active_partition_id hw"
  by (induction rs arbitrary: hw) (simp_all add: maxrtos_arch_mpu_disable_region_def mpu_reg_write_def)

lemma mpu_init_keeps:
  "s_config (maxrtos_arch_mpu_init privileged_default_map hw) = s_config hw"
  "s_active_partition_id (maxrtos_arch_mpu_init privileged_default_map hw) = s_active_partition_id hw"
  "q \<le> MAXRTOS_MPU_PARTITION_REGION \<Longrightarrow> region_regs (maxrtos_arch_mpu_init privileged_default_map hw) q = region_regs hw q"
proof -
  let ?rs = "map of_nat [unat (MAXRTOS_MPU_PARTITION_REGION + 1)..<unat MAXRTOS_MPU_HW_REGION_COUNT] :: u32 list"
  show "s_config (maxrtos_arch_mpu_init privileged_default_map hw) = s_config hw"
    "s_active_partition_id (maxrtos_arch_mpu_init privileged_default_map hw) = s_active_partition_id hw"
    using disable_regions_config[of ?rs hw] by (simp_all add: maxrtos_arch_mpu_init_def mpu_reg_write_def)
  have ctrl: "region_regs (mpu_reg_write MAXRTOS_MPU_CTRL v h) q = region_regs h q" for v h q
    by (cases "unit_state h" rule: prod_cases3) (simp add: region_regs_def)
  assume q: "q \<le> MAXRTOS_MPU_PARTITION_REGION"
  have "?rs = [9, 10, 11, 12, 13, 14, 15]" by code_simp
  then have "q \<notin> set ?rs" using q by auto
  then show "region_regs (maxrtos_arch_mpu_init privileged_default_map hw) q = region_regs hw q"
    unfolding maxrtos_arch_mpu_init_def ctrl by (rule disable_regions_keep)
qed

subsection \<open>What the configuration installs\<close>

definition domain_region :: "u32 \<Rightarrow> u32 \<Rightarrow> maxrtos_mpu_region_config_t" where
  "domain_region start sz = \<lparr>reg_base_address = start, reg_size_bytes = sz, reg_access = MAXRTOS_MPU_ACCESS_READ_WRITE,
     reg_executable = False\<rparr>"

text \<open>The memory of a partition of the example.\<close>

definition domain_of :: "link_map \<Rightarrow> u32 \<Rightarrow> maxrtos_mpu_region_config_t option" where
  "domain_of link p = (if p = PARTITION_ID_control then Some (domain_region (partition_control_domain_start link) 2048)
     else if p = PARTITION_ID_application then Some (domain_region (partition_application_domain_start link) 1024) else None)"

lemma config_domains_eq:
  "config_domains link config \<noteq> None \<longleftrightarrow>
     partition_control_domain_start link mod 2048 = 0 \<and> partition_application_domain_start link mod 1024 = 0"
  "config_domains link config = Some config' \<Longrightarrow> s_config hw = Some config' \<Longrightarrow>
     mpu_config_ok config' \<and> partition_region hw p = domain_of link p"
proof -
  let ?c1 = "snd (maxrtos_mpu_config_init PTR config)"
  have init: "MAXRTOS_CONFIG_CHECK (maxrtos_mpu_config_init PTR config) = Some ?c1"
    by (simp add: MAXRTOS_CONFIG_CHECK_def maxrtos_mpu_config_init_def)
  have f: "fold (\<lambda>p f. f(p := False)) ps g q = (if q \<in> set ps then False else g q)" for ps and g :: "u32 \<Rightarrow> bool" and q
    by (induction ps arbitrary: g) auto
  have none: "mpu_configured ?c1 q = False" if "q < 8" for q
    using that by (simp add: maxrtos_mpu_config_init_def f set_ids_below_8)
  have two: "maxrtos_mpu_is_power_of_two 2048" "maxrtos_mpu_is_power_of_two 1024" by code_simp+
  show "config_domains link config \<noteq> None \<longleftrightarrow>
     partition_control_domain_start link mod 2048 = 0 \<and> partition_application_domain_start link mod 1024 = 0"
    unfolding config_domains_def init
    by (simp add: MAXRTOS_CONFIG_CHECK_def maxrtos_mpu_set_partition_region_def maxrtos_mpu_region_geometry_valid_def known_access_def two)
  assume c: "config_domains link config = Some config'" "s_config hw = Some config'"
  then have g: "maxrtos_mpu_region_geometry_valid (partition_control_domain_start link) 2048"
    "maxrtos_mpu_region_geometry_valid (partition_application_domain_start link) 1024"
    and e: "config' = ?c1\<lparr>mpu_regions := (mpu_regions ?c1)(0 := domain_region (partition_control_domain_start link) 2048,
          1 := domain_region (partition_application_domain_start link) 1024),
        mpu_configured := (mpu_configured ?c1)(0 := True, 1 := True)\<rparr>"
    unfolding config_domains_def init
    by (auto simp: MAXRTOS_CONFIG_CHECK_def maxrtos_mpu_set_partition_region_def domain_region_def split: if_splits)
  have "mpu_config_ok ?c1" by (rule mpu_config_init_ok)
  with g have "mpu_config_ok config'" by (auto simp: mpu_config_ok_def e domain_region_def)
  moreover have "partition_region hw p = domain_of link p"
    using none[of p] by (auto simp: partition_region_def c(2) e domain_of_def)
  ultimately show "mpu_config_ok config' \<and> partition_region hw p = domain_of link p" by blast
qed

lemma config_frame_eq:
  "\<exists>schedule. config_frame s0 = Some schedule \<and> frame_wf schedule \<and> frame_timeline schedule = [0, 0, 0, 0, 0, 1, 1, 1]"
proof -
  define slots :: "nat \<Rightarrow> maxrtos_frame_slot_t" where
    "slots = (\<lambda>i. if i = 0 then \<lparr>slot_partition_id = 0, slot_duration_ticks = 5\<rparr> else \<lparr>slot_partition_id = 1, slot_duration_ticks = 3\<rparr>)"
  have n: "[0..<2] = [0, 1 :: nat]" by (simp add: upt_rec)
  have "frame_slots_ok slots [0..<2]" "(\<Sum>i\<leftarrow>[0..<2]. unat (slot_duration_ticks (slots i))) \<le> unat MAXRTOS_TICK_NONE"
    unfolding n by (simp_all add: frame_slots_ok_def slots_def)
  moreover have "replicate 5 (0 :: u32) = [0, 0, 0, 0, 0]" "replicate 3 (1 :: u32) = [1, 1, 1]" by (simp_all add: numeral_eq_Suc)
  then have "concat (map (\<lambda>i. slot_ticks (slots i)) [0..<2]) = [0, 0, 0, 0, 0, 1, 1, 1]"
    unfolding n by (simp add: slots_def slot_ticks_def)
  ultimately show ?thesis
    using frame_init_spec[where slots = slots and n = 2 and sched = s0] by (auto simp: config_frame_def MAXRTOS_CONFIG_CHECK_def slots_def[symmetric] split: prod.splits)
qed

lemma config_ports_eq:
  assumes "\<not> qp_in_use (s_port_pool s 0)" "\<not> sp_in_use (s_sampling_port_pool s 0)"
  shows "config_ports link s = (if s_port_storage_cmd_channel link = 0 \<or> s_sampling_storage_status link = 0 then None
      else Some (upd_sampling_port 0 (\<lambda>p. p\<lparr>sp_in_use := True, sp_writer_mask := 1, sp_reader_mask := 2,
            sp_storage := s_sampling_storage_status link, sp_message_size := 8, sp_has_message := False\<rparr>)
          (port_created (s_port_storage_cmd_channel link) 16 4 4 1 2 0 s)))"
proof -
  have ids: "ids_below 8 = (0 :: u32) # [1, 2, 3, 4, 5, 6, 7]" by code_simp
  have f: "find (\<lambda>i. \<not> qp_in_use (s_port_pool s i)) (ids_below 8) = Some (0 :: u32)"
    "find (\<lambda>i. \<not> sp_in_use (s_sampling_port_pool s i)) (ids_below 8) = Some (0 :: u32)"
    using assms by (simp_all add: ids)
  have m: "MAXRTOS_PARTITION_MASK_VALID 1" "MAXRTOS_PARTITION_MASK_VALID 2" by code_simp+
  have p: "s_sampling_port_pool (port_created a b c d e g h s) = s_sampling_port_pool s" for a b c d e g h
    by (simp add: port_created_def upd_port_def waitlist_reset_def upd_waitlist_def)
  show ?thesis
    using f m by (simp add: config_ports_def maxrtos_queue_port_create_def port_create_fold maxrtos_sampling_port_create_def p)
qed

lemma config_health_monitor_eq:
  "\<exists>hm'. config_health_monitor hm = Some hm' \<and>
    (\<forall>p f. maxrtos_hm_get_policy PTR p f PTR hm' =
      (if p < of_nat MAXRTOS_MAX_PARTITIONS \<and> f \<noteq> MAXRTOS_FAULT_COUNT
       then (MAXRTOS_OK, Some (if p \<in> {PARTITION_ID_control, PARTITION_ID_application} \<and> f \<noteq> MAXRTOS_FAULT_UNEXPECTED_RETURN
                              then MAXRTOS_HM_ACTION_RESTART_PROCESS else MAXRTOS_HM_ACTION_HALT_PARTITION))
       else (MAXRTOS_ERR_INVALID_ARG, None)))"
proof -
  have set_policy: "MAXRTOS_CONFIG_CHECK (maxrtos_hm_set_policy PTR p f action hm)
      = Some (hm\<lparr>hm_policy := (hm_policy hm)(p := (hm_policy hm p)(f := action))\<rparr>)"
    if "p < 8" "f \<noteq> MAXRTOS_FAULT_COUNT" "action \<noteq> MAXRTOS_HM_ACTION_COUNT" for p f action hm
    using that by (simp add: MAXRTOS_CONFIG_CHECK_def maxrtos_hm_set_policy_def fault_below_count action_below_count)
  let ?h = "snd (maxrtos_hm_init PTR hm)"
  have "hm_policy ?h p f = MAXRTOS_HM_ACTION_HALT_PARTITION" if "p < 8" "f \<noteq> MAXRTOS_FAULT_COUNT" for p f
    using that by (simp add: maxrtos_hm_init_def hm_fold_init set_fault_types fault_below_count set_ids_below_8)
  moreover have "MAXRTOS_CONFIG_CHECK (maxrtos_hm_init PTR hm) = Some ?h"
    by (simp add: MAXRTOS_CONFIG_CHECK_def maxrtos_hm_init_def)
  ultimately show ?thesis
    unfolding config_health_monitor_def generated_policies_def
    by (simp add: set_policy) (auto simp: maxrtos_hm_get_policy_def fault_below_count; case_tac f; simp)
qed

end
