(* ===== verification/Demo.thy ===== *)
theory Demo
  imports Config
begin

text \<open>
  main.c of the demo: the set-up of the board, the creation of the processes and the start of the
  scheduler, here with the generated example configuration. The processes are a parameter: their stacks and priorities are those of a generated header.
\<close>

subsection \<open>The board (main.c)\<close>

text \<open>The registers of the tick timer, of the clock control and of the two ports of the LEDs.\<close>

record board =
  systick_ctrl :: u32
  systick_load :: u32
  systick_val :: u32
  rcc_ahb4enr :: u32
  gpiob_moder :: u32
  gpiob_odr :: u32
  gpioe_moder :: u32
  gpioe_odr :: u32

abbreviation (input) SYSTICK_HZ :: u32 where "SYSTICK_HZ \<equiv> 100"
abbreviation (input) CPU_CLOCK_HZ :: u32 where "CPU_CLOCK_HZ \<equiv> 64000000"
abbreviation (input) LED_LD1_PIN :: nat where "LED_LD1_PIN \<equiv> 0"
abbreviation (input) LED_LD2_PIN :: nat where "LED_LD2_PIN \<equiv> 1"
abbreviation (input) LED_LD3_PIN :: nat where "LED_LD3_PIN \<equiv> 14"

definition board_systick_init :: "board \<Rightarrow> board" where
  "board_systick_init b =
     (let reload = CPU_CLOCK_HZ div SYSTICK_HZ - 1;
          b1 = b\<lparr>systick_ctrl := 0, systick_load := reload, systick_val := 0\<rparr>
      in b1\<lparr>systick_ctrl := push_bit 0 1 OR push_bit 1 1 OR push_bit 2 1\<rparr>)"

definition board_leds_init :: "board \<Rightarrow> board" where
  "board_leds_init b =
     (let b1 = b\<lparr>rcc_ahb4enr := rcc_ahb4enr b OR (push_bit 1 1 OR push_bit 4 1)\<rparr>;
          b2 = b1\<lparr>gpiob_moder := gpiob_moder b1 AND NOT (push_bit (LED_LD1_PIN * 2) 3 OR push_bit (LED_LD3_PIN * 2) 3)\<rparr>;
          b3 = b2\<lparr>gpiob_moder := gpiob_moder b2 OR (push_bit (LED_LD1_PIN * 2) 1 OR push_bit (LED_LD3_PIN * 2) 1)\<rparr>;
          b4 = b3\<lparr>gpioe_moder := gpioe_moder b3 AND NOT (push_bit (LED_LD2_PIN * 2) 3)\<rparr>
      in b4\<lparr>gpioe_moder := gpioe_moder b4 OR push_bit (LED_LD2_PIN * 2) 1\<rparr>)"

definition led_ld1_toggle :: "board \<Rightarrow> board" where
  "led_ld1_toggle b = b\<lparr>gpiob_odr := gpiob_odr b XOR push_bit LED_LD1_PIN 1\<rparr>"

definition led_ld3_toggle :: "board \<Rightarrow> board" where
  "led_ld3_toggle b = b\<lparr>gpiob_odr := gpiob_odr b XOR push_bit LED_LD3_PIN 1\<rparr>"

definition led_ld2_toggle :: "board \<Rightarrow> board" where
  "led_ld2_toggle b = b\<lparr>gpioe_odr := gpioe_odr b XOR push_bit LED_LD2_PIN 1\<rparr>"

text \<open>The timer counts, asks for an interrupt and has the period of the tick; its reload value has 24 bits.\<close>

lemma systick_period:
  fixes b
  defines "b' \<equiv> board_systick_init b"
  shows "(unat (systick_load b') + 1) * unat SYSTICK_HZ = unat CPU_CLOCK_HZ" "unat (systick_load b') < 2 ^ 24"
    "bit (systick_ctrl b') 0" "bit (systick_ctrl b') 1" "systick_val b' = 0"
  by (simp_all add: b'_def board_systick_init_def bit_simps)

text \<open>The pins of the LEDs become outputs, the others keep their mode, and a toggle changes the one pin.\<close>

lemma pin_bits:
  "bit (push_bit n 1 :: u32) i \<longleftrightarrow> i = n \<and> i < 32" "bit (push_bit n 3 :: u32) i \<longleftrightarrow> (i = n \<or> i = n + 1) \<and> i < 32"
proof -
  have m: "(3 :: u32) = mask 2" by (simp add: mask_eq_exp_minus_1)
  have "bit (push_bit n (mask 2) :: u32) i \<longleftrightarrow> n \<le> i \<and> i < 32 \<and> i - n < 2"
    unfolding bit_push_bit_iff bit_mask_iff possible_bit_word by (simp add: less_imp_diff_less cong: conj_cong)
  also have "\<dots> \<longleftrightarrow> (i = n \<or> i = n + 1) \<and> i < 32" by presburger
  finally show "bit (push_bit n 3 :: u32) i \<longleftrightarrow> (i = n \<or> i = n + 1) \<and> i < 32" unfolding m .
qed (auto simp: bit_simps)

lemma toggle_bits: "i < 32 \<Longrightarrow> bit (w XOR push_bit n 1 :: u32) i = (bit w i \<noteq> (i = n))"
  unfolding bit_xor_iff pin_bits by auto

lemma output_bits:
  fixes w :: u32
  assumes "i < 32"
  shows "bit (w AND NOT (push_bit m 3) OR push_bit m 1) i = (i = m \<or> i \<noteq> m + 1 \<and> bit w i)"
    "n \<notin> {m, m + 1} \<Longrightarrow> m \<noteq> n + 1 \<Longrightarrow> bit (w AND NOT (push_bit m 3 OR push_bit n 3) OR (push_bit m 1 OR push_bit n 1)) i
      = (i \<in> {m, n} \<or> i \<notin> {m + 1, n + 1} \<and> bit w i)"
  using assms unfolding bit_or_iff bit_and_iff bit_not_iff pin_bits by auto

lemma led_pins:
  fixes b
  defines "b' \<equiv> board_leds_init b"
  shows "i < 32 \<Longrightarrow> bit (gpiob_moder b') i = (i \<in> {0, 28} \<or> i \<notin> {1, 29} \<and> bit (gpiob_moder b) i)"
    "i < 32 \<Longrightarrow> bit (gpioe_moder b') i = (i = 2 \<or> i \<noteq> 3 \<and> bit (gpioe_moder b) i)"
    "bit (rcc_ahb4enr b') 1" "bit (rcc_ahb4enr b') 4"
  using output_bits(1)[of i "gpioe_moder b" 2] output_bits(2)[of i 28 0 "gpiob_moder b"] bit_or_iff[of "rcc_ahb4enr b" "0x12"]
  by (simp_all add: b'_def board_leds_init_def Let_def bit_or_iff)

lemma led_toggles:
  "i < 32 \<Longrightarrow> bit (gpiob_odr (led_ld1_toggle b)) i = (bit (gpiob_odr b) i \<noteq> (i = 0))"
  "i < 32 \<Longrightarrow> bit (gpiob_odr (led_ld3_toggle b)) i = (bit (gpiob_odr b) i \<noteq> (i = 14))"
  "i < 32 \<Longrightarrow> bit (gpioe_odr (led_ld2_toggle b)) i = (bit (gpioe_odr b) i \<noteq> (i = 1))"
  using toggle_bits[of i "gpiob_odr b" 0] toggle_bits[of i "gpiob_odr b" 14] toggle_bits[of i "gpioe_odr b" 1]
  by (simp_all add: led_ld1_toggle_def led_ld3_toggle_def led_ld2_toggle_def)

subsection \<open>The application (main.c)\<close>

text \<open>The arguments of one call of \<open>maxrtos_process_create\<close>; the names of the processes are the generated header's.\<close>

record process_attributes =
  att_stack_base :: u32
  att_stack_size :: u32
  att_partition_id :: u32
  att_priority :: u8
  att_entry :: u32

fun create_processes :: "process_attributes list \<Rightarrow> arch \<Rightarrow> arch option" where
  "create_processes [] a = Some a"
| "create_processes (p # ps) a =
     (case maxrtos_process_create (att_stack_base p) (att_stack_size p) (att_partition_id p) (att_priority p)
             (att_entry p) 0 PTR (process_pool (kern a)) of
        (status, i, pool) \<Rightarrow>
          if status \<noteq> MAXRTOS_OK then None else create_processes ps (a\<lparr>kern := (kern a)\<lparr>process_pool := pool\<rparr>\<rparr>))"

text \<open>
  \<open>maxrtos_scheduler_start\<close> does not return: the result is the board and the state in which the first
  switch is pending. What an error of the start returns to is a halt loop.
\<close>

definition main ::
    "link_map \<Rightarrow> config_statics \<Rightarrow> process_attributes list \<Rightarrow> scb \<Rightarrow> system_regs \<Rightarrow> board \<Rightarrow> arch \<Rightarrow> (board \<times> arch) option"
where
  "main link statics processes r sys board a =
     (let board1 = board_leds_init board in
      case maxrtos_config_init link statics r sys a of
        None \<Rightarrow> None
      | Some (r1, sys1, a1) \<Rightarrow>
          let board2 = board_systick_init board1 in
          (case create_processes processes a1 of
             None \<Rightarrow> None
           | Some a2 \<Rightarrow> map_option (Pair board2) (maxrtos_scheduler_start a2)))"

subsection \<open>Creating a process\<close>

lemma unstarted_mem [simp]: "unstarted (s\<lparr>mem := m\<rparr>) = unstarted s"
  by (simp add: unstarted_def kernel_inv_def sched_inv_def due_ok_def timer_ok_def queued_in_def)

lemma unstarted_queued:
  assumes "unstarted s" "allocated (process_pool s) i"
  shows "\<not> queued_in s i"
proof -
  have "pcb_partition_id (process_pool s i) < of_nat MAXRTOS_MAX_PARTITIONS"
    using assms sched_okD(1)[of "process_pool s" "scheduler_ctx s" "current_id s" i]
    by (simp add: unstarted_def kernel_inv_def sched_inv_def pcb_ok_def)
  with assms(1) show ?thesis by (simp add: unstarted_def queued_in_def)
qed

lemma create_process_unstarted:
  assumes s: "unstarted s" and r: "maxrtos_process_create base sz part prio entry arg PTR (process_pool s) = (MAXRTOS_OK, out, pool)"
  shows "unstarted (s\<lparr>process_pool := pool\<rparr>) \<and> (\<exists>i. \<not> allocated (process_pool s) i \<and> allocated pool i
    \<and> pcb_partition_id (pool i) = part \<and> (\<forall>j. j \<noteq> i \<longrightarrow> pool j = process_pool s j))"
proof -
  let ?s = "s\<lparr>process_pool := pool\<rparr>" and ?old = "process_pool s"
  from r obtain i where i: "process_first_unused ?old = Some i"
    and pool: "pool = ?old(i := process_slot_setup i base sz part prio entry arg (?old i))"
    and arg: "part < of_nat MAXRTOS_MAX_PARTITIONS" "prio \<le> of_nat MAXRTOS_MAX_PRIORITY"
    by (auto simp: maxrtos_process_create_def split: if_splits option.splits)
  have free: "i < of_nat MAXRTOS_MAX_PROCESSES" "\<not> allocated ?old i"
    using i find_ids_16 by (auto simp: process_first_unused_def allocated_def)
  have new: "allocated pool i" "pcb_ok (pool i)" "pcb_id (pool i) = i" "pcb_state (pool i) = MAXRTOS_PROCESS_STATE_READY"
    "pcb_waitlist (pool i) = None" "pcb_wake_tick (pool i) = MAXRTOS_TICK_NONE" "pcb_deadline_time (pool i) = MAXRTOS_TICK_NONE"
    "\<not> waits_for_time (pool i)" "pcb_partition_id (pool i) = part"
    using free arg by (simp_all add: pool process_slot_setup_def allocated_def pcb_ok_def waits_for_time_def)
  have other: "j \<noteq> i \<Longrightarrow> pool j = ?old j" "allocated pool j \<longleftrightarrow> j = i \<or> allocated ?old j" for j
    using new(1) by (auto simp: pool allocated_def)
  have k: "sched_ok ?old (scheduler_ctx s) (current_id s)" "wait_ok ?old (waitlists s)" "due_ok s" "timer_ok s"
    and u: "allocated ?old j \<Longrightarrow> pcb_state (?old j) = MAXRTOS_PROCESS_STATE_READY \<and> \<not> waits_for_time (?old j)"
      "p < of_nat MAXRTOS_MAX_PARTITIONS \<Longrightarrow> \<not> halted s p \<and> current_id s p = MAXRTOS_INVALID_PROCESS_ID \<and> ready_ids (scheduler_ctx s p) = []" for j p
    using s by (simp_all add: unstarted_def kernel_inv_def sched_inv_def)
  have "part_ok pool p (scheduler_ctx s p) (current_id s p)" if p: "p < of_nat MAXRTOS_MAX_PARTITIONS" for p
  proof -
    have "ctx_wf (scheduler_ctx s p)" using part_okD(1)[OF sched_okD(3)[OF k(1) p]] by (simp add: domain_ok_def)
    moreover have "ready (scheduler_ctx s p) q = []" if "q \<le> 31" for q
    proof -
      have "x \<notin> set (ready (scheduler_ctx s p) q)" for x
        using u(2)[OF p] that in_ready_ids[of x "scheduler_ctx s p"] by auto
      then show ?thesis by (cases "ready (scheduler_ctx s p) q") auto
    qed
    ultimately show ?thesis using u(2)[OF p] by (simp add: part_ok_def domain_ok_def running_in_def)
  qed
  moreover have all: "pcb_ok (pool j)" "pcb_id (pool j) = j" "\<not> waits_for_time (pool j)"
    "pcb_state (pool j) = MAXRTOS_PROCESS_STATE_READY" if "allocated pool j" for j
    using that new other[of j] u(1)[of j] sched_okD(1,4)[OF k(1), of j] by (cases "j = i"; simp)+
  ultimately have "sched_ok pool (scheduler_ctx s) (current_id s)" by (auto simp: sched_ok_def)
  moreover have "wait_ok pool (waitlists s)"
    unfolding wait_ok_def
  proof (intro conjI allI ballI impI)
    fix w j
    show "wl_wf (waitlists s w)" "distinct (wl_list (waitlists s w))" using wait_okD(1,2)[OF k(2)] by blast+
    assume j: "j \<in> set (wl_list (waitlists s w))"
    then have old: "allocated ?old j" by (rule wait_okD(3)[OF k(2)])
    then have "j \<noteq> i" using free by auto
    with wait_okD(4,5)[OF k(2) j] old other[of j] show "allocated pool j" "pcb_state (pool j) = MAXRTOS_PROCESS_STATE_BLOCKED"
      "pcb_waitlist (pool j) = Some w" by simp_all
  next
    fix w j
    assume j: "allocated pool j \<and> pcb_waitlist (pool j) = Some w"
    then have "j \<noteq> i" using new(5) by auto
    with j other[of j] show "j \<in> set (wl_list (waitlists s w))" using wait_okD(6)[OF k(2)] by simp
  qed
  moreover have "due_ok ?s"
    unfolding due_ok_def
  proof (intro allI impI)
    fix j
    assume "allocated (process_pool ?s) j"
    then show "s_next_due ?s \<le> pcb_wake_tick (process_pool ?s j) \<and> s_next_due ?s \<le> pcb_deadline_time (process_pool ?s j)"
      using k(3) new(6,7) other[of j] by (cases "j = i") (simp_all add: due_ok_def)
  qed
  moreover have "timer_ok ?s" using all(3) by (auto simp: timer_ok_def)
  ultimately have "unstarted ?s" using u(2) all by (simp add: unstarted_def kernel_inv_def sched_inv_def)
  with free new other show ?thesis by blast
qed


text \<open>How many processes a partition has.\<close>

definition population :: "kstate \<Rightarrow> u32 \<Rightarrow> nat" where
  "population s q = card {i. allocated (process_pool s) i \<and> pcb_partition_id (process_pool s i) = q}"

lemma create_processes_unstarted:
  assumes "unstarted (kern a)" "create_processes ps a = Some b"
  shows "unstarted (kern b) \<and> (\<exists>pool. b = a\<lparr>kern := (kern a)\<lparr>process_pool := pool\<rparr>\<rparr>)
    \<and> (\<forall>q. population (kern b) q = population (kern a) q + length (filter (\<lambda>p. att_partition_id p = q) ps))"
  using assms
proof (induction ps arbitrary: a)
  case Nil
  then have "b = a\<lparr>kern := (kern a)\<lparr>process_pool := process_pool (kern a)\<rparr>\<rparr>" by simp
  with Nil show ?case by (metis add_0_right create_processes.simps(1) filter.simps(1) list.size(3) option.inject)
next
  case (Cons p ps)
  let ?old = "process_pool (kern a)"
  from Cons.prems(2) obtain out pool where
    r: "maxrtos_process_create (att_stack_base p) (att_stack_size p) (att_partition_id p) (att_priority p)
          (att_entry p) 0 PTR ?old = (MAXRTOS_OK, out, pool)"
    and next': "create_processes ps (a\<lparr>kern := (kern a)\<lparr>process_pool := pool\<rparr>\<rparr>) = Some b"
    by (auto split: prod.splits if_splits)
  let ?a = "a\<lparr>kern := (kern a)\<lparr>process_pool := pool\<rparr>\<rparr>"
  from create_process_unstarted[OF Cons.prems(1) r] obtain i where un: "unstarted (kern ?a)" and i: "\<not> allocated ?old i" "allocated pool i"
    "pcb_partition_id (pool i) = att_partition_id p" "\<forall>j. j \<noteq> i \<longrightarrow> pool j = ?old j" by auto
  have al: "allocated pool j \<longleftrightarrow> j = i \<or> allocated ?old j" for j
    using i by (cases "j = i") (simp_all add: allocated_def)
  have one: "population (kern ?a) q = population (kern a) q + (if att_partition_id p = q then 1 else 0)" for q
  proof -
    have "{j. allocated pool j \<and> pcb_partition_id (pool j) = q}
        = (if att_partition_id p = q then insert i else (\<lambda>A. A)) {j. allocated ?old j \<and> pcb_partition_id (?old j) = q}"
      using i al by (auto; metis)
    moreover have "i \<notin> {j. allocated ?old j \<and> pcb_partition_id (?old j) = q}" using i(1) by simp
    ultimately show ?thesis using finite_allocated by (simp add: population_def)
  qed
  from Cons.IH[OF un next'] one show ?case by (auto simp del: arch.update_convs)
qed

text \<open>Processes that can be created, and whose first frame fits their stack.\<close>

definition proper_attributes :: "process_attributes \<Rightarrow> bool" where
  "proper_attributes p \<longleftrightarrow> att_stack_base p \<noteq> 0 \<and> att_stack_size p \<ge> MAXRTOS_ARCH_MIN_STACK_SIZE \<and> att_entry p \<noteq> 0
     \<and> att_partition_id p < of_nat MAXRTOS_MAX_PARTITIONS \<and> att_priority p \<le> of_nat MAXRTOS_MAX_PRIORITY"

lemma free_slot:
  assumes "card {i. allocated pool i} < MAXRTOS_MAX_PROCESSES"
  shows "\<exists>i < of_nat MAXRTOS_MAX_PROCESSES. \<not> allocated pool i"
proof (rule ccontr)
  assume "\<not> ?thesis"
  then have "{i. allocated pool i} = set (ids_below 16)" using set_ids_below_16 by (auto simp: allocated_def)
  moreover have "card (set (ids_below 16 :: u32 list)) = 16" using distinct_card[OF distinct_ids_below[of 16]] by (simp add: ids_below_def)
  ultimately show False using assms by simp
qed

lemma create_process_succeeds:
  assumes p: "proper_attributes p" and room: "card {i. allocated old i} < MAXRTOS_MAX_PROCESSES"
  shows "\<exists>i pool. maxrtos_process_create (att_stack_base p) (att_stack_size p) (att_partition_id p) (att_priority p) (att_entry p) 0 PTR old
      = (MAXRTOS_OK, Some i, pool) \<and> \<not> allocated old i \<and> allocated pool i \<and> stack_fits (pool i)
    \<and> pcb_partition_id (pool i) = att_partition_id p \<and> (\<forall>j. j \<noteq> i \<longrightarrow> pool j = old j)"
proof -
  from free_slot[OF room] obtain i where i: "process_first_unused old = Some i"
    by (cases "process_first_unused old") (auto simp: process_first_unused_def find_ids_16_None allocated_def)
  then have free: "i < of_nat MAXRTOS_MAX_PROCESSES" "\<not> allocated old i"
    using find_ids_16 by (auto simp: process_first_unused_def allocated_def)
  have sz: "att_stack_size p \<noteq> 0" using p by (auto simp: proper_attributes_def)
  define pool where "pool = old(i := process_slot_setup i (att_stack_base p) (att_stack_size p) (att_partition_id p) (att_priority p)
    (att_entry p) 0 (old i))"
  have "maxrtos_process_create (att_stack_base p) (att_stack_size p) (att_partition_id p) (att_priority p) (att_entry p) 0 PTR old
      = (MAXRTOS_OK, Some i, pool)"
    using p sz by (simp add: maxrtos_process_create_def proper_attributes_def i pool_def not_le not_less)
  moreover have "allocated pool i" "stack_fits (pool i)" "pcb_partition_id (pool i) = att_partition_id p"
    using free p by (simp_all add: pool_def process_slot_setup_def allocated_def stack_fits_def proper_attributes_def)
  moreover have "\<forall>j. j \<noteq> i \<longrightarrow> pool j = old j" by (simp add: pool_def)
  ultimately show ?thesis using free by blast
qed

lemma create_processes_succeed:
  assumes "\<And>p. p \<in> set ps \<Longrightarrow> proper_attributes p"
    and "card {i. allocated (process_pool (kern a)) i} + length ps \<le> MAXRTOS_MAX_PROCESSES"
    and "\<And>i. allocated (process_pool (kern a)) i \<Longrightarrow> stack_fits (process_pool (kern a) i)"
  shows "\<exists>b. create_processes ps a = Some b
    \<and> (\<forall>i. allocated (process_pool (kern b)) i \<longrightarrow> stack_fits (process_pool (kern b) i))
    \<and> (\<forall>i. allocated (process_pool (kern a)) i \<longrightarrow> allocated (process_pool (kern b)) i
         \<and> process_pool (kern b) i = process_pool (kern a) i)
    \<and> (\<forall>p \<in> set ps. \<exists>i. allocated (process_pool (kern b)) i \<and> pcb_partition_id (process_pool (kern b) i) = att_partition_id p)"
  using assms
proof (induction ps arbitrary: a)
  case (Cons p ps)
  let ?old = "process_pool (kern a)"
  from Cons.prems have "proper_attributes p" "card {i. allocated ?old i} < MAXRTOS_MAX_PROCESSES" by simp_all
  from create_process_succeeds[OF this] obtain i pool where
    r: "maxrtos_process_create (att_stack_base p) (att_stack_size p) (att_partition_id p) (att_priority p) (att_entry p) 0 PTR ?old
      = (MAXRTOS_OK, Some i, pool)"
    and i: "\<not> allocated ?old i" "allocated pool i" "stack_fits (pool i)" "pcb_partition_id (pool i) = att_partition_id p"
      "\<And>j. j \<noteq> i \<Longrightarrow> pool j = ?old j" by blast
  let ?a = "a\<lparr>kern := (kern a)\<lparr>process_pool := pool\<rparr>\<rparr>"
  have al: "allocated pool j \<longleftrightarrow> j = i \<or> allocated ?old j" for j
    using i by (cases "j = i") (simp_all add: allocated_def)
  have "{j. allocated pool j} = insert i {j. allocated ?old j}" using al by auto
  then have "card {j. allocated pool j} = Suc (card {j. allocated ?old j})" using i(1) finite_allocated by simp
  moreover have "stack_fits (pool j)" if "allocated pool j" for j
    using that i(3) i(5)[of j] al[of j] Cons.prems(3)[of j] by (cases "j = i") simp_all
  ultimately obtain b where b: "create_processes ps ?a = Some b"
    "\<forall>i. allocated (process_pool (kern b)) i \<longrightarrow> stack_fits (process_pool (kern b) i)"
    "\<And>j. allocated pool j \<Longrightarrow> allocated (process_pool (kern b)) j \<and> process_pool (kern b) j = pool j"
    "\<forall>p \<in> set ps. \<exists>i. allocated (process_pool (kern b)) i \<and> pcb_partition_id (process_pool (kern b) i) = att_partition_id p"
    using Cons.IH[of ?a] Cons.prems(1,2) by auto
  have "create_processes (p # ps) a = Some b" using b(1) by (simp add: r)
  moreover have "allocated (process_pool (kern b)) j \<and> process_pool (kern b) j = ?old j" if "allocated ?old j" for j
    using that i(1) i(5)[of j] al[of j] b(3)[of j] by (cases "j = i") simp_all
  moreover have "\<exists>i. allocated (process_pool (kern b)) i \<and> pcb_partition_id (process_pool (kern b) i) = att_partition_id p"
    using b(3)[OF i(2)] i(4) by metis
  ultimately show ?case using b(2,4) by auto
qed simp

text \<open>What every process has as it is created, every process of the pool has afterwards.\<close>

lemma create_processes_all:
  assumes "create_processes ps a = Some b"
    and "\<And>i. allocated (process_pool (kern a)) i \<Longrightarrow> P (process_pool (kern a) i)"
    and "\<And>p i old. p \<in> set ps \<Longrightarrow> P (process_slot_setup i (att_stack_base p) (att_stack_size p) (att_partition_id p)
          (att_priority p) (att_entry p) 0 old)"
  shows "(\<forall>i. allocated (process_pool (kern b)) i \<longrightarrow> P (process_pool (kern b) i)) \<and> s_hm b = s_hm a"
  using assms
proof (induction ps arbitrary: a)
  case (Cons p ps)
  let ?old = "process_pool (kern a)"
  from Cons.prems(1) obtain out pool where
    r: "maxrtos_process_create (att_stack_base p) (att_stack_size p) (att_partition_id p) (att_priority p)
          (att_entry p) 0 PTR ?old = (MAXRTOS_OK, out, pool)"
    and next': "create_processes ps (a\<lparr>kern := (kern a)\<lparr>process_pool := pool\<rparr>\<rparr>) = Some b"
    by (auto split: prod.splits if_splits)
  let ?a = "a\<lparr>kern := (kern a)\<lparr>process_pool := pool\<rparr>\<rparr>"
  from r obtain i where pool: "pool = ?old(i := process_slot_setup i (att_stack_base p) (att_stack_size p) (att_partition_id p)
      (att_priority p) (att_entry p) 0 (?old i))"
    by (auto simp: maxrtos_process_create_def split: if_splits option.splits)
  have "P (pool j)" if "allocated pool j" for j
    using that Cons.prems(2)[of j] Cons.prems(3)[of p i "?old i"] by (cases "j = i") (simp_all add: pool allocated_def)
  with Cons.IH[OF next'] Cons.prems(3) show ?case by simp
qed simp

end
