(* ===== verification/Slots.thy ===== *)
theory Slots
  imports Boot
begin

text \<open>
  Temporal isolation at every moment, not only when a tick returns: whoever the processor runs belongs to
  the partition that owns the slot of the last tick. System calls, faults and context switches
  stay within a partition, and only the tick moves the clock.
\<close>

subsection \<open>System calls leave the clock and halt nothing\<close>

definition dial :: "kstate \<Rightarrow> u32 \<times> (u32 \<Rightarrow> bool)" where "dial s = (s_current_tick s, halted s)"

abbreviation dials :: "arch \<Rightarrow> u32 \<times> (u32 \<Rightarrow> bool)" where "dials a \<equiv> dial (kern a)"

lemma now_simps [simp]: "dials (switch_to r a) = dials a" "dials (set_result sp w a) = dials a" "dials (upd_mem f a) = dials a"
  by (simp_all add: dial_def set_result_def upd_mem_def)

lemma finish_now:
  "maxrtos_arch_svc_finish_ipc sp status n a = Some a' \<Longrightarrow> dials a' = dials a"
  "maxrtos_arch_svc_finish_wait sp status n a = Some a' \<Longrightarrow> dials a' = dials a"
  "svc_return sp r = Some a' \<Longrightarrow> dials a' = dials (snd (snd r))"
  by (auto simp: maxrtos_arch_svc_finish_ipc_def maxrtos_arch_svc_finish_wait_def svc_return_def split: if_splits option.splits prod.splits)

lemma select_now: "maxrtos_partition_select tablep part outp yield s = (status, out, s') \<Longrightarrow> dial s' = dial s"
  by (auto simp: dial_def maxrtos_partition_select_def upd_ctx_def Let_def split: if_splits prod.splits)

lemma yield_now: "maxrtos_arch_svc_yield sp a = Some a' \<Longrightarrow> dials a' = dials a"
  by (auto simp: maxrtos_arch_svc_yield_def maxrtos_kernel_yield_def maxrtos_partition_yield_def Let_def
      dest: select_now split: option.splits prod.splits if_splits bool.splits)

lemma preempt_check_now: "dials (maxrtos_arch_svc_preempt_check a) = dials a"
  by (auto simp: maxrtos_arch_svc_preempt_check_def maxrtos_partition_dispatch_def Let_def
      dest: select_now split: option.splits prod.splits if_splits)

lemma ipc_calls_now:
  assumes "kernel_inv s"
  shows "maxrtos_kernel_mutex_lock i timeout tablep current outp s = (status, out, s') \<Longrightarrow> dial s' = dial s"
    and "maxrtos_kernel_semaphore_wait i timeout tablep current outp s = (status, out, s') \<Longrightarrow> dial s' = dial s"
    and "maxrtos_kernel_buffer_send i message n timeout tablep current outp s = (status, out, s') \<Longrightarrow> dial s' = dial s"
    and "maxrtos_kernel_buffer_receive i message n timeout tablep current outp s = (status, out, s') \<Longrightarrow> dial s' = dial s"
    and "maxrtos_kernel_queue_port_send i message n timeout tablep current outp s = (status, out, s') \<Longrightarrow> dial s' = dial s"
    and "maxrtos_kernel_queue_port_receive i message n timeout tablep current outp s = (status, out, s') \<Longrightarrow> dial s' = dial s"
    and "maxrtos_kernel_mutex_unlock i tablep current s = (status, s') \<Longrightarrow> dial s' = dial s"
    and "maxrtos_kernel_semaphore_signal i tablep current s = (status, s') \<Longrightarrow> dial s' = dial s"
proof -
  have c: "kernel_inv s \<and> same_clock s s" using assms by (simp add: same_clock_def)
  note inv = clock.mutex_lock_inv[OF c, of i timeout tablep current outp] clock.semaphore_wait_inv[OF c, of i timeout tablep current outp]
    clock.buffer_send_inv[OF c, of i message n timeout tablep current outp] clock.buffer_receive_inv[OF c, of i message n timeout tablep current outp]
    clock.port_send_inv[OF c, of i message n timeout tablep current outp] clock.port_receive_inv[OF c, of i message n timeout tablep current outp]
    clock.mutex_unlock_inv[OF c, of i tablep current] clock.semaphore_signal_inv[OF c, of i tablep current]
  show "maxrtos_kernel_mutex_lock i timeout tablep current outp s = (status, out, s') \<Longrightarrow> dial s' = dial s"
    using inv(1) by (simp add: same_clock_def dial_def)
  show "maxrtos_kernel_semaphore_wait i timeout tablep current outp s = (status, out, s') \<Longrightarrow> dial s' = dial s"
    using inv(2) by (simp add: same_clock_def dial_def)
  show "maxrtos_kernel_buffer_send i message n timeout tablep current outp s = (status, out, s') \<Longrightarrow> dial s' = dial s"
    using inv(3) by (simp add: same_clock_def dial_def)
  show "maxrtos_kernel_buffer_receive i message n timeout tablep current outp s = (status, out, s') \<Longrightarrow> dial s' = dial s"
    using inv(4) by (simp add: same_clock_def dial_def)
  show "maxrtos_kernel_queue_port_send i message n timeout tablep current outp s = (status, out, s') \<Longrightarrow> dial s' = dial s"
    using inv(5) by (simp add: same_clock_def dial_def)
  show "maxrtos_kernel_queue_port_receive i message n timeout tablep current outp s = (status, out, s') \<Longrightarrow> dial s' = dial s"
    using inv(6) by (simp add: same_clock_def dial_def)
  show "maxrtos_kernel_mutex_unlock i tablep current s = (status, s') \<Longrightarrow> dial s' = dial s"
    using inv(7) by (simp add: same_clock_def dial_def)
  show "maxrtos_kernel_semaphore_signal i tablep current s = (status, s') \<Longrightarrow> dial s' = dial s"
    using inv(8) by (simp add: same_clock_def dial_def)
qed

lemma waits_now:
  assumes inv: "kernel_inv s" "timer_ok s"
  shows "maxrtos_kernel_periodic_wait tablep i outp s = (status, out, s') \<Longrightarrow> dial s' = dial s"
    and "maxrtos_kernel_timed_wait tablep i delay outp s = (status, out, s') \<Longrightarrow> dial s' = dial s"
proof -
  have paused: "dial s2 = dial s1" if "paused i out s1 s2" for out s1 s2
    using that by (simp add: dial_def paused_def Let_def only_scheduling_iff)
  show "dial s' = dial s" if r: "maxrtos_kernel_periodic_wait tablep i outp s = (status, out, s')"
  proof (cases "tablep = PTR \<and> outp = PTR \<and> allocated (process_pool s) i
    \<and> pcb_state (process_pool s i) = MAXRTOS_PROCESS_STATE_RUNNING \<and> pcb_period (process_pool s i) \<noteq> 0")
    case False
    with r have "s' = s"
      by (cases tablep; cases outp; cases "allocated (process_pool s) i")
        (auto simp: maxrtos_kernel_periodic_wait_def process_get_eq split: if_splits)
    then show ?thesis by simp
  next
    case True
    with periodic_wait_outcome[OF inv, of i] r paused show ?thesis
      by (auto simp: dial_def upd_pcb_def split: if_splits)
  qed
  show "dial s' = dial s" if r: "maxrtos_kernel_timed_wait tablep i delay outp s = (status, out, s')"
  proof (cases "tablep = PTR \<and> outp = PTR \<and> allocated (process_pool s) i
    \<and> pcb_state (process_pool s i) = MAXRTOS_PROCESS_STATE_RUNNING")
    case False
    with r have "s' = s"
      by (cases tablep; cases outp; cases "allocated (process_pool s) i")
        (auto simp: maxrtos_kernel_timed_wait_def process_get_eq split: if_splits)
    then show ?thesis by simp
  next
    case True
    then have a: "allocated (process_pool s) i" "pcb_state (process_pool s i) = MAXRTOS_PROCESS_STATE_RUNNING"
      and r': "maxrtos_kernel_timed_wait PTR i delay PTR s = (status, out, s')" using r by simp_all
    from timed_wait_outcome[OF inv a r'] paused show ?thesis by (auto simp: dial_def upd_pcb_def)
  qed
qed

lemma sampling_now:
  "maxrtos_kernel_sampling_port_write j message n i s = (status, s') \<Longrightarrow> dial s' = dial s"
  "maxrtos_kernel_sampling_port_read j message n i s = (status, s') \<Longrightarrow> dial s' = dial s"
  by (auto simp: dial_def maxrtos_kernel_sampling_port_write_def maxrtos_kernel_sampling_port_read_def
      upd_sampling_port_def split: option.splits if_splits)

lemma caller_now:
  "(\<And>pcb. dials (snd (snd (f pcb))) = dials a) \<Longrightarrow> dials (snd (snd (with_caller a f))) = dials a"
  "(\<And>pcb. dials (snd (snd (f pcb))) = dials a) \<Longrightarrow> dials (snd (snd (with_process a f))) = dials a"
  by (auto simp: with_caller_def with_process_def split: option.split)

lemma call_now:
  "(\<And>status out k. f (kern a) = (status, out, k) \<Longrightarrow> dial k = dials a) \<Longrightarrow> dials (snd (snd (kernel_call f a))) = dials a"
  "(\<And>status k. g (kern a) = (status, k) \<Longrightarrow> dial k = dials a) \<Longrightarrow> dials (snd (snd (kernel_call_plain g a))) = dials a"
  by (auto simp: kernel_call_def kernel_call_plain_def split: prod.split)

lemma svc_handler_now:
  assumes ok: "kernel_ok a" and h: "svc_handler number sp a = Some a'"
  shows "dials a' = dials a"
proof -
  have inv: "kernel_inv (kern a)" "timer_ok (kern a)" using ok by (simp_all add: kernel_ok_def)
  note ipc = ipc_calls_now[OF inv(1)]
  have fin: "dials a' = dials a" if "(case r of (status, n, b) \<Rightarrow> maxrtos_arch_svc_finish_ipc sp status n b) = Some a'" "dials (snd (snd r)) = dials a" for r
    using that finish_now(1) by (cases r) auto
  have ret: "dials a' = dials a" if "svc_return sp r = Some a'" "dials (snd (snd r)) = dials a" for r
    using that finish_now(3) by simp
  show ?thesis
  proof (cases number)
    case MAXRTOS_SVC_YIELD
    with h yield_now show ?thesis by simp
  next
    case MAXRTOS_SVC_QUEUE_SEND
    with h show ?thesis by (auto simp: maxrtos_arch_svc_queue_send_def Let_def elim!: fin intro!: caller_now call_now dest: ipc(5))
  next
    case MAXRTOS_SVC_QUEUE_RECEIVE
    with h show ?thesis by (auto simp: maxrtos_arch_svc_queue_receive_def Let_def elim!: fin intro!: caller_now call_now dest: ipc(6))
  next
    case MAXRTOS_SVC_QUEUE_COUNT
    with h show ?thesis by (auto simp: maxrtos_arch_svc_queue_count_def split: option.splits)
  next
    case MAXRTOS_SVC_PERIODIC_WAIT
    have "dials (snd (snd (with_caller a (\<lambda>pcb. kernel_call (maxrtos_kernel_periodic_wait (s_table a) (pcb_id pcb) PTR) a)))) = dials a"
      by (intro caller_now call_now) (rule waits_now(1)[OF inv])
    with h MAXRTOS_SVC_PERIODIC_WAIT show ?thesis
      by (auto simp: maxrtos_arch_svc_periodic_wait_def dest: finish_now(2) split: prod.splits)
  next
    case MAXRTOS_SVC_MUTEX_LOCK
    with h show ?thesis by (auto simp: maxrtos_arch_svc_mutex_lock_def elim!: fin intro!: caller_now call_now dest: ipc(1))
  next
    case MAXRTOS_SVC_MUTEX_UNLOCK
    with h show ?thesis by (auto simp: maxrtos_arch_svc_mutex_unlock_def elim!: ret intro!: caller_now call_now dest: ipc(7))
  next
    case MAXRTOS_SVC_SEMAPHORE_WAIT
    with h show ?thesis by (auto simp: maxrtos_arch_svc_semaphore_wait_def elim!: fin intro!: caller_now call_now dest: ipc(2))
  next
    case MAXRTOS_SVC_SEMAPHORE_SIGNAL
    with h show ?thesis by (auto simp: maxrtos_arch_svc_semaphore_signal_def elim!: ret intro!: caller_now call_now dest: ipc(8))
  next
    case MAXRTOS_SVC_SEMAPHORE_STATUS
    with h show ?thesis by (auto simp: maxrtos_arch_svc_semaphore_status_def Let_def elim!: ret intro!: caller_now split: option.split prod.split)
  next
    case MAXRTOS_SVC_BUFFER_SEND
    with h show ?thesis by (auto simp: maxrtos_arch_svc_buffer_send_def Let_def elim!: fin intro!: caller_now call_now dest: ipc(3))
  next
    case MAXRTOS_SVC_BUFFER_RECEIVE
    with h show ?thesis by (auto simp: maxrtos_arch_svc_buffer_receive_def Let_def elim!: fin intro!: caller_now call_now dest: ipc(4))
  next
    case MAXRTOS_SVC_BUFFER_STATUS
    with h show ?thesis by (auto simp: maxrtos_arch_svc_buffer_status_def Let_def elim!: ret intro!: caller_now split: option.split prod.split)
  next
    case MAXRTOS_SVC_TIMED_WAIT
    have "dials (snd (snd (with_caller a (\<lambda>pcb. kernel_call (maxrtos_kernel_timed_wait (s_table a) (pcb_id pcb) (stacked_arg sp 0 a) PTR) a)))) = dials a"
      by (intro caller_now call_now) (rule waits_now(2)[OF inv])
    with h MAXRTOS_SVC_TIMED_WAIT show ?thesis
      by (auto simp: maxrtos_arch_svc_timed_wait_def Let_def dest!: finish_now(2) yield_now split: prod.splits option.splits if_splits)
  next
    case MAXRTOS_SVC_TIME_GET
    with h show ?thesis by (auto simp: maxrtos_arch_svc_time_get_def)
  next
    case MAXRTOS_SVC_SAMPLING_WRITE
    with h show ?thesis by (auto simp: maxrtos_arch_svc_sampling_write_def Let_def elim!: ret intro!: caller_now call_now dest: sampling_now)
  next
    case MAXRTOS_SVC_SAMPLING_READ
    with h show ?thesis by (auto simp: maxrtos_arch_svc_sampling_read_def Let_def elim!: ret intro!: caller_now call_now dest: sampling_now)
  qed
qed

lemma svc_dispatch_now: "kernel_ok a \<Longrightarrow> maxrtos_arch_svc_dispatch sp n a = Some a' \<Longrightarrow> dials a' = dials a"
  by (auto simp: maxrtos_arch_svc_dispatch_def Let_def preempt_check_now dest: svc_handler_now split: if_splits option.splits)

subsection \<open>The processor stays with the slot\<close>

abbreviation now :: "arch \<Rightarrow> u32" where "now a \<equiv> s_current_tick (kern a)"

text \<open>The slot of the last tick is the one the clock was in before it.\<close>

definition in_slot :: "arch \<Rightarrow> bool" where
  "in_slot a \<longleftrightarrow> (\<forall>schedule n. s_frame_schedule a = Some schedule \<longrightarrow> cpu_pcb a = Some (Process_Pcb n) \<longrightarrow>
     partition_of n a = slot_partition schedule (now a - 1))"

lemma in_slot_target:
  assumes "in_slot a" "same_setting a a'" "same_target (cpu_pcb a) a (cpu_pcb a') a'"
  shows "in_slot a'"
  using assms by (fastforce simp: in_slot_def same_setting_def same_target_def)

lemma same_target_cpu:
  assumes "same_owner (kern a) (kern a')" "now a' = now a" "cpu_pcb a' = cpu_pcb a"
    "\<And>n. cpu_pcb a = Some (Process_Pcb n) \<Longrightarrow> halted (kern a') (partition_of n a) = halted (kern a) (partition_of n a)"
  shows "same_target (cpu_pcb a) a (cpu_pcb a') a'"
  using assms by (simp add: same_target_def same_owner_def)

lemma fault_same_target:
  assumes ok: "machine_ok a" "\<not> pendsv a" and h: "maxrtos_arch_handle_fault fault_type a = Some a'"
  shows "same_target (cpu_pcb a) a (cpu_pcb a') a'"
proof -
  obtain r where r: "g_maxrtos_current_pcb a = Some r"
    using ok by (auto simp: machine_ok_def cpu_pcb_def may_run_def split: option.splits)
  then have c: "kernel_ok a" "context_ok r a" using ok(1) by (auto simp: machine_ok_def machine_core_def)
  have "maxrtos_arch_handle_process_fault (Some r) fault_type a = Some a'"
    using h r by (simp add: maxrtos_arch_handle_fault_def maxrtos_arch_get_current_pcb_def)
  note f = handle_process_fault_step[OF c this]
  from f(2) obtain i where i: "r = Process_Pcb i" by blast
  from f(1) show ?thesis unfolding fault_step_def
  proof (elim conjE disjE)
    assume "kept a a'" "clock_of (kern a') = clock_of (kern a)" "g_maxrtos_current_pcb a' = g_maxrtos_current_pcb a"
      "g_maxrtos_next_pcb a' = g_maxrtos_next_pcb a" "pendsv a' = pendsv a"
      "\<forall>n. g_maxrtos_current_pcb a = Some (Process_Pcb n) \<longrightarrow> halted (kern a') (partition_of n a) = halted (kern a) (partition_of n a)"
    then show ?thesis using ok(2) by (intro same_target_cpu) (simp_all add: kept_def cpu_pcb_def)
  next
    assume "pendsv a'" "hands_to (pcb_partition_id (pcb_at r a)) a'" "clock_of (kern a') = clock_of (kern a)"
    then show ?thesis using ok(2) r by (simp add: same_target_def hands_to_def cpu_pcb_def i pcb_at_def)
  qed
qed

text \<open>Everything but a tick stays in the partition.\<close>

lemma handle_same_target:
  assumes ok: "machine_ok a" and e: "enabled e a" "e \<noteq> Tick" and h: "handle e a = Some a'"
  shows "same_target (cpu_pcb a) a (cpu_pcb a') a'"
proof (cases e)
  case (System_Call sp n)
  with e ok obtain i where i: "g_maxrtos_current_pcb a = Some (Process_Pcb i)" "\<not> pendsv a"
    by (auto simp: machine_ok_def cpu_pcb_def may_run_def split: option.splits pcb_ref.splits)
  have c: "calling i a" using ok i by (simp add: calling_def machine_ok_def machine_core_def cpu_pcb_def)
  have d: "maxrtos_arch_svc_dispatch sp n a = Some a'" using h System_Call by simp
  then have "sp \<noteq> 0" "unat n < MAXRTOS_SVC_COUNT" by (auto simp: maxrtos_arch_svc_dispatch_def split: if_splits)
  with svc_dispatch_step[OF c, of sp n] d have s: "svc_step (partition_of i a) a a'" by auto
  have "now a' = now a" "halted (kern a') = halted (kern a)" using svc_dispatch_now[OF _ d] c by (simp_all add: calling_def dial_def)
  moreover have "partition_of m a' = partition_of i a" if "cpu_pcb a' = Some (Process_Pcb m)" for m
  proof -
    let ?p = "partition_of i a"
    have m: "current_id (kern a') ?p = m" "m \<noteq> MAXRTOS_INVALID_PROCESS_ID"
      using s that by (auto simp: svc_step_def context_of_def split: if_splits)
    have "kernel_inv (kern a')" using s by (simp add: svc_step_def kernel_ok_def)
    from part_okD(4)[OF sched_okD(3)[OF kernel_invD(1)[OF this, unfolded sched_inv_def] callingD(4)[OF c]]] m
    show ?thesis by simp
  qed
  ultimately show ?thesis using callingD(6)[OF c] by (simp add: same_target_def)
next
  case (Store x v)
  show ?thesis
  proof (cases "bit (control a) 0 \<and> \<not> writable (mpu_unit a) x")
    case False
    with h Store have "a' = upd_mem (\<lambda>m. m(x := v)) a" by auto
    then show ?thesis by (intro same_target_cpu) (simp_all add: upd_mem_def cpu_pcb_def)
  next
    case True
    with h Store have "maxrtos_arch_handle_fault MAXRTOS_FAULT_MEMORY_ACCESS a = Some a'" by simp
    with fault_same_target[OF ok] e Store show ?thesis by simp
  qed
next
  case (Fault f)
  with fault_same_target[OF ok] e h show ?thesis by simp
next
  case (Switch exc psp registers)
  with h obtain psp' registers' where "PendSV_Handler exc psp registers a = Some (psp', registers', a')" by auto
  from pendsv_step(4)[OF ok _ this] e Switch show ?thesis by simp
qed (use e in simp)

lemma in_slot_step:
  assumes ok: "machine_ok a" and s: "in_slot a" and step: "machine_step a a'"
  shows "in_slot a'"
proof -
  from step obtain e where e: "enabled e a" "handle e a = Some a'" by (rule machine_stepE)
  show ?thesis
  proof (cases "e = Tick")
    case False
    from handle_ok[OF ok e] have "same_setting a a'" by blast
    with in_slot_target[OF s _ handle_same_target[OF ok e(1) False e(2)]] show ?thesis by blast
  next
    case True
    then have t: "maxrtos_arch_systick a = Some a'" "\<not> pendsv a" using e by simp_all
    have set: "s_frame_schedule a' = s_frame_schedule a" using handle_ok[OF ok e] by (simp add: same_setting_def)
    show ?thesis
    proof (cases "s_partition_table a")
      case NULL
      with t(1) have "a' = a" by (auto simp: maxrtos_arch_systick_def split: option.splits)
      with s show ?thesis by simp
    next
      case PTR
      with systick_step(3)[OF ok t(2,1) _ PTR] set show ?thesis
        by (fastforce simp: in_slot_def Let_def split: if_splits)
    qed
  qed
qed

lemma in_slot_reaches: "reaches a b \<Longrightarrow> machine_ok a \<Longrightarrow> in_slot a \<Longrightarrow> in_slot b"
proof (induction rule: reaches.induct)
  case (step a b c)
  have "machine_ok b" using reaches_ok step by blast
  with step in_slot_step show ?case by blast
qed simp

lemma scheduler_start_in_slot:
  assumes "booted a" "s_frame_schedule a = Some schedule" "maxrtos_scheduler_start a = Some b"
  shows "in_slot b"
  using scheduler_start_ok[OF assms] assms(2) by (auto simp: in_slot_def same_setting_def)

text \<open>
  C3. The processor follows the frame. From the start of the scheduler on, after any system calls,
  stores, faults, ticks and switches, the processor runs, or is about to run, the idle context or a RUNNING process of the
  partition that owns the slot in which the last tick fell, and of no other.
\<close>

theorem processor_follows_frame:
  assumes "booted a" "s_frame_schedule a = Some schedule" "maxrtos_scheduler_start a = Some b" "reaches b c"
  shows "cpu_pcb c = Some Idle_Pcb \<or> (\<exists>n. cpu_pcb c = Some (Process_Pcb n) \<and> runs (kern c) n
    \<and> partition_of n c = slot_partition schedule (s_current_tick (kern c) - 1))"
proof -
  note b = scheduler_start_ok[OF assms(1-3)]
  have "machine_ok c \<and> same_setting b c" using reaches_kept[OF assms(4)] b by blast
  then have "may_run (cpu_pcb c) c" "s_frame_schedule c = Some schedule"
    using b assms(2) by (simp_all add: machine_ok_def same_setting_def)
  moreover have "in_slot c" using in_slot_reaches[OF assms(4)] b scheduler_start_in_slot[OF assms(1-3)] by blast
  ultimately show ?thesis by (auto simp: in_slot_def may_run_def split: option.splits pcb_ref.splits)
qed

lemma processor_follows_frame_witness:
  "\<exists>b n. maxrtos_scheduler_start example_booted = Some b \<and> cpu_pcb b = Some (Process_Pcb n)
    \<and> partition_of n b = slot_partition example_schedule (s_current_tick (kern b) - 1)"
proof -
  obtain b where b: "maxrtos_scheduler_start example_booted = Some b"
    using example_booted_starts by (auto split: option.splits)
  have f: "s_frame_schedule example_booted = Some example_schedule"
    by (simp add: example_booted_def example_running_def example_arch_def)
  from processor_follows_frame[OF example_booted_ok f b reaches.start] scheduler_start_ok[OF example_booted_ok f b] b
  show ?thesis by auto
qed

end
