(* ===== verification/Alive.thy ===== *)
theory Alive
  imports Slots Startup
begin

text \<open>
  The machine does not halt. In a system in which every process has a stack and a memory region, and every
  fault an action, the handlers find what they need: a fault of a process is recovered, the deadline
  misses are handed to fault recovery one after the other, and the next context can be prepared.
\<close>

text \<open>What the handlers rely on, and what no step changes.\<close>

definition equipped :: "arch \<Rightarrow> bool" where
  "equipped a \<longleftrightarrow> (\<forall>i. allocated (process_pool (kern a)) i \<longrightarrow>
       stack_fits (process_pool (kern a) i) \<and> partition_region (mpu_unit a) (partition_of i a) \<noteq> None)
     \<and> (\<exists>hm. s_hm a = Some hm \<and> (\<forall>p f action. maxrtos_hm_get_policy PTR p f PTR hm = (MAXRTOS_OK, Some action) \<longrightarrow>
          action \<noteq> MAXRTOS_HM_ACTION_COUNT \<and> (f = MAXRTOS_FAULT_MEMORY_ACCESS \<longrightarrow> action \<noteq> MAXRTOS_HM_ACTION_IGNORE)))"

lemma equipped_setting: "equipped a \<Longrightarrow> same_setting a a' \<Longrightarrow> equipped a'"
  by (simp add: equipped_def same_setting_def same_owner_def partition_region_def stack_fits_def)

text \<open>The partition of the process on the processor is not halted.\<close>

definition lively :: "pcb_ref option \<Rightarrow> arch \<Rightarrow> bool" where
  "lively r a \<longleftrightarrow> (\<forall>n. r = Some (Process_Pcb n) \<longrightarrow> \<not> halted (kern a) (partition_of n a))"

abbreviation live :: "arch \<Rightarrow> bool" where "live a \<equiv> lively (cpu_pcb a) a"

lemma lively_target: "lively r a \<Longrightarrow> same_target r a r' a' \<Longrightarrow> lively r' a'"
  by (fastforce simp: lively_def same_target_def)

lemma live_step:
  assumes ok: "machine_ok a" and l: "live a" and step: "machine_step a a'"
  shows "live a'"
proof -
  from step obtain e where e: "enabled e a" "handle e a = Some a'" by (rule machine_stepE)
  show ?thesis
  proof (cases "e = Tick")
    case False
    from lively_target[OF l handle_same_target[OF ok e(1) False e(2)]] show ?thesis .
  next
    case True
    then have t: "maxrtos_arch_systick a = Some a'" "\<not> pendsv a" using e by simp_all
    show ?thesis
    proof (cases "s_frame_schedule a = None \<or> s_partition_table a = NULL")
      case True
      with t(1) have "a' = a" by (auto simp: maxrtos_arch_systick_def split: option.splits)
      with l show ?thesis by simp
    next
      case False
      then obtain schedule where f: "s_frame_schedule a = Some schedule" "s_partition_table a = PTR" by (cases "s_partition_table a") auto
      from systick_step(3)[OF ok t(2,1) f] show ?thesis by (auto simp: lively_def Let_def split: if_splits)
    qed
  qed
qed

lemma live_reaches: "reaches a b \<Longrightarrow> machine_ok a \<Longrightarrow> live a \<Longrightarrow> live b"
proof (induction rule: reaches.induct)
  case (step a b c)
  have "machine_ok b" using reaches_ok step by blast
  with step live_step show ?case by blast
qed simp

subsection \<open>A fault of a process is recovered\<close>

lemma enact_restart_survives:
  assumes ok: "kernel_ok a" "uncrowded (kern a)" "s_table a = PTR"
    and i: "allocated (process_pool (kern a)) i" "stack_fits (process_pool (kern a) i)"
    and cur: "g_maxrtos_current_pcb a = Some (Process_Pcb i) \<Longrightarrow> \<not> halted (kern a) (partition_of i a)
      \<and> (queued_in (kern a) i \<or> current_id (kern a) (partition_of i a) \<noteq> MAXRTOS_INVALID_PROCESS_ID)"
  shows "enact_restart (Process_Pcb i) a \<noteq> None"
proof -
  let ?r = "Process_Pcb i"
  from init_stack_succeeds[OF i(2)] obtain sp g where init: "maxrtos_arch_init_stack (Some ?r) a
    = (MAXRTOS_OK, upd_pcb_at ?r (\<lambda>b. b\<lparr>pcb_stack_pointer := sp, pcb_ipc_result_pending := False\<rparr>) (upd_mem g a))" by blast
  define a1 where "a1 = upd_pcb_at ?r (\<lambda>b. b\<lparr>pcb_stack_pointer := sp, pcb_ipc_result_pending := False\<rparr>) (upd_mem g a)"
  note s1 = init_stack_step[OF ok(1) init, folded a1_def]
  have f1: "scheduler_ctx (kern a1) = scheduler_ctx (kern a)" "partition_of i a1 = partition_of i a" "s_table a1 = PTR"
    using ok(3) by (simp_all add: a1_def upd_pcb_at_def upd_mem_def)
  have k1: "kernel_inv (kern a1)" "timer_ok (kern a1)" "uncrowded (kern a1)"
    using s1(1) ok(2) uncrowded_owner[of "kern a" "kern a1"] by (simp_all add: kept_def kernel_ok_def)
  show ?thesis
  proof (cases "g_maxrtos_current_pcb a = Some ?r")
    case False
    with init show ?thesis using s1(2) by (auto simp: enact_restart_def maxrtos_arch_get_current_pcb_def a1_def[symmetric] same_switch_def)
  next
    case True
    let ?p = "partition_of i a1"
    have al: "allocated (process_pool (kern a1)) i" using i(1) s1(1) by (simp add: kept_def same_owner_def)
    have p: "?p < of_nat MAXRTOS_MAX_PARTITIONS"
      using sched_okD(1)[OF kernel_invD(1)[OF k1(1), unfolded sched_inv_def] al] by (simp add: pcb_ok_def)
    obtain status out k where sel: "maxrtos_partition_select PTR ?p PTR True (kern a1) = (status, out, k)" by (rule prod_cases3)
    have live: "\<not> halted (kern a1) ?p"
      and q: "i \<in> set (ready_ids (scheduler_ctx (kern a1) ?p)) \<or> current_id (kern a1) ?p \<noteq> MAXRTOS_INVALID_PROCESS_ID"
      using cur[OF True] s1(2) f1(1,2) by (simp_all add: same_switch_def queued_in_def)
    have st: "status = MAXRTOS_OK"
    proof (rule ccontr)
      assume no: "status \<noteq> MAXRTOS_OK"
      have "halted k = halted (kern a1)"
        using select_pool(3)[OF k1(1), where tablep = PTR and part = ?p and outp = PTR and yield = True] sel by (simp add: only_scheduling_iff)
      with select_uncrowded(2)[OF k1(1,3) p sel no] live have "current_id k ?p = MAXRTOS_INVALID_PROCESS_ID"
        by (simp add: idle_partition_def)
      with select_current(5)[OF k1(1,2) sel no] q obtain q where
        "q \<le> MAXRTOS_MAX_PRIORITY" "i \<in> set (ready (scheduler_ctx (kern a1) ?p) q)" by (auto simp: in_ready_ids)
      with select_uncrowded(3)[OF k1(1,3) p sel no live] show False by auto
    qed
    from select_current(4)[OF k1(1,2) sel st] obtain n where n: "out = Some n" "runs k n" by blast
    have "process_ref n (a1\<lparr>kern := k\<rparr>) = Some (Process_Pcb n)"
      by (rule process_ref_runs) (use n(2) select_current(1)[OF k1(1,2) sel] in simp_all)
    then have ref: "process_ref n (a1\<lparr>kern := k\<rparr>) \<noteq> None" by simp
    have "g_maxrtos_current_pcb a1 = Some ?r" using s1(2) True by (simp add: same_switch_def)
    with init sel st n(1) ref f1(3) show ?thesis
      by (auto simp: enact_restart_def maxrtos_arch_get_current_pcb_def a1_def[symmetric] pcb_at_def maxrtos_partition_yield_def Let_def)
  qed
qed

lemma process_fault_recovered:
  assumes ok: "kernel_ok a" "uncrowded (kern a)" "s_table a = PTR" "equipped a" and i: "allocated (process_pool (kern a)) i"
    and cur: "g_maxrtos_current_pcb a = Some (Process_Pcb i) \<Longrightarrow> \<not> halted (kern a) (partition_of i a)
      \<and> (runs (kern a) i \<or> parked (kern a) i \<or> current_id (kern a) (partition_of i a) \<noteq> MAXRTOS_INVALID_PROCESS_ID)"
    and f: "fault_type \<noteq> MAXRTOS_FAULT_COUNT"
  shows "maxrtos_arch_handle_process_fault (Some (Process_Pcb i)) fault_type a \<noteq> None"
proof -
  let ?p = "partition_of i a"
  have inv: "kernel_inv (kern a)" "timer_ok (kern a)" using ok(1) by (simp_all add: kernel_ok_def)
  note sk = kernel_invD(1)[OF inv(1), unfolded sched_inv_def]
  have p: "?p < of_nat MAXRTOS_MAX_PARTITIONS" and id: "pcb_id (process_pool (kern a) i) = i"
    using sched_okD(1,4)[OF sk i] by (simp_all add: pcb_ok_def)
  from ok(4) obtain hm where hm: "s_hm a = Some hm" "\<And>p f action. maxrtos_hm_get_policy PTR p f PTR hm = (MAXRTOS_OK, Some action) \<Longrightarrow>
          action \<noteq> MAXRTOS_HM_ACTION_COUNT" by (auto simp: equipped_def)
  have pol: "maxrtos_hm_get_policy PTR ?p fault_type PTR hm = (MAXRTOS_OK, Some (hm_policy hm ?p fault_type))"
    using p f by (simp add: maxrtos_hm_get_policy_def fault_below_count)
  show ?thesis
  proof (cases "hm_policy hm ?p fault_type")
    case MAXRTOS_HM_ACTION_IGNORE
    with i hm(1) ok(3) pol show ?thesis
      by (simp add: maxrtos_arch_handle_process_fault_def pcb_at_def id maxrtos_fault_recovery_handle_def process_get_eq Let_def)
  next
    case MAXRTOS_HM_ACTION_HALT_PARTITION
    with i hm(1) ok(3) pol show ?thesis
      by (simp add: maxrtos_arch_handle_process_fault_def pcb_at_def id maxrtos_fault_recovery_handle_def process_get_eq Let_def
          split: option.split)
  next
    case MAXRTOS_HM_ACTION_COUNT
    with hm(2)[OF pol] show ?thesis by simp
  next
    case MAXRTOS_HM_ACTION_RESTART_PROCESS
    from restart_succeeds[OF inv ok(2) i] obtain k where
      k: "maxrtos_fault_recovery_restart PTR i (kern a) = (MAXRTOS_OK, k)" "runs (kern a) i \<or> parked (kern a) i \<longrightarrow> queued_in k i" by blast
    let ?a1 = "a\<lparr>kern := k\<rparr>"
    from restart_recovers[OF inv i k(1)] have rec: "recovered i (kern a) k" "halted k = halted (kern a)" by blast+
    then have own: "same_owner (kern a) k" by (simp add: recovered_def)
    have "enact_restart (Process_Pcb i) ?a1 \<noteq> None"
    proof (rule enact_restart_survives)
      show "kernel_ok ?a1" using rec(1) by (simp add: recovered_def kernel_ok_def)
      show "uncrowded (kern ?a1)" using ok(2) uncrowded_owner[OF own] by simp
      show "s_table ?a1 = PTR" using ok(3) by simp
      show "allocated (process_pool (kern ?a1)) i" "stack_fits (process_pool (kern ?a1) i)"
        using i own ok(4) by (simp_all add: same_owner_def equipped_def stack_fits_def)
      show "\<not> halted (kern ?a1) (partition_of i ?a1)
          \<and> (queued_in (kern ?a1) i \<or> current_id (kern ?a1) (partition_of i ?a1) \<noteq> MAXRTOS_INVALID_PROCESS_ID)"
        if "g_maxrtos_current_pcb ?a1 = Some (Process_Pcb i)"
      proof (cases "runs (kern a) i \<or> parked (kern a) i")
        case True
        with cur that k(2) rec(2) own show ?thesis by (simp add: same_owner_def)
      next
        case False
        then have "current_id k = current_id (kern a)" using rec(1) by (auto simp: recovered_def)
        with False cur that rec(2) own show ?thesis by (simp add: same_owner_def)
      qed
    qed
    with MAXRTOS_HM_ACTION_RESTART_PROCESS i hm(1) ok(3) pol k(1) show ?thesis
      by (simp add: maxrtos_arch_handle_process_fault_def pcb_at_def id maxrtos_fault_recovery_handle_def process_get_eq Let_def)
  qed
qed

subsection \<open>The tick survives its deadline misses\<close>

lemma context_process: "context_ok r a \<Longrightarrow> r \<noteq> Idle_Pcb \<Longrightarrow> \<exists>i. r = Process_Pcb i \<and> allocated (process_pool (kern a)) i"
  by (cases r) (simp_all add: context_ok_def)

lemma lively_fault:
  assumes l: "lively (g_maxrtos_current_pcb a) a" and f: "fault_step r a a'"
  shows "lively (g_maxrtos_current_pcb a') a'"
proof -
  have "partition_of n a' = partition_of n a" for n using f by (simp add: fault_step_def kept_def same_owner_def)
  with l f show ?thesis by (auto simp: lively_def fault_step_def)
qed

lemma deadline_misses_survived:
  "ticking a \<Longrightarrow> uncrowded (kern a) \<Longrightarrow> s_table a = PTR \<Longrightarrow> equipped a \<Longrightarrow> lively (g_maxrtos_current_pcb a) a
    \<Longrightarrow> \<exists>a'. handle_deadline_misses a = Some (Some a') \<and> lively (g_maxrtos_current_pcb a') a'"
proof (induction "card {j. bit (s_pending_misses (kern a)) j}" arbitrary: a rule: less_induct)
  case less
  note step = deadline_miss_step[OF less.prems(1)]
  show ?case
  proof (cases "s_pending_misses (kern a) = 0")
    case False
    from step(2)[OF False] obtain k w a1 where a1: "a1 = a\<lparr>kern := (kern a)\<lparr>s_pending_misses := w\<rparr>\<rparr>"
      "card {j. bit w j} < card {j. bit (s_pending_misses (kern a)) j}" "ticking a1" "kept a a1"
      "\<And>r. process_ref (of_nat k) a1 = Some r \<Longrightarrow> context_ok r a1"
      and code: "handle_deadline_misses a = (case process_ref (of_nat k) a1 of None \<Rightarrow> handle_deadline_misses a1
        | Some missed \<Rightarrow> (case maxrtos_arch_handle_process_fault (Some missed) MAXRTOS_FAULT_DEADLINE_EXCEEDED a1 of
             None \<Rightarrow> Some None | Some a2 \<Rightarrow> handle_deadline_misses a2))" by blast
    have l1: "lively (g_maxrtos_current_pcb a1) a1" using less.prems(5) by (simp add: lively_def a1(1))
    have rest: "\<exists>a'. handle_deadline_misses a2 = Some (Some a') \<and> lively (g_maxrtos_current_pcb a') a'"
      if a2: "kept a1 a2" "ticking a2" "clock_of (kern a2) = clock_of (kern a1)" "lively (g_maxrtos_current_pcb a2) a2" for a2
    proof -
      have "card {j. bit (s_pending_misses (kern a2)) j} < card {j. bit (s_pending_misses (kern a)) j}" using a1(1,2) a2(3) by simp
      moreover have k: "kept a a2" by (rule kept_trans[OF a1(4) a2(1)])
      moreover have "uncrowded (kern a2)" "s_table a2 = PTR" "equipped a2"
        using k less.prems(2,3) uncrowded_owner[of "kern a" "kern a2"] equipped_setting[OF less.prems(4) kept_setting[OF k]]
        by (simp_all add: kept_def same_machine_def)
      ultimately show ?thesis using less.hyps[of a2] a2(2,4) by blast
    qed
    have k1: "kernel_ok a1" "uncrowded (kern a1)" "s_table a1 = PTR" "equipped a1"
      using a1(3,4) less.prems(2,3) uncrowded_owner[of "kern a" "kern a1"] equipped_setting[OF less.prems(4) kept_setting[OF a1(4)]]
      by (simp_all add: kept_def same_machine_def)
    show ?thesis
    proof (cases "process_ref (of_nat k) a1")
      case None
      with rest[of a1] a1(3) kept_refl[OF k1(1)] l1 show ?thesis by (simp add: code)
    next
      case (Some r)
      then obtain i where i: "r = Process_Pcb i" "allocated (process_pool (kern a1)) i"
        using a1(5)[OF Some] by (auto simp: process_ref_def context_ok_def split: option.splits)
      have "maxrtos_arch_handle_process_fault (Some r) MAXRTOS_FAULT_DEADLINE_EXCEEDED a1 \<noteq> None"
        unfolding i(1)
      proof (rule process_fault_recovered[OF k1 i(2)])
        assume "g_maxrtos_current_pcb a1 = Some (Process_Pcb i)"
        with a1(3) l1 show "\<not> halted (kern a1) (partition_of i a1)
            \<and> (runs (kern a1) i \<or> parked (kern a1) i \<or> current_id (kern a1) (partition_of i a1) \<noteq> MAXRTOS_INVALID_PROCESS_ID)"
          by (auto simp: ticking_def lively_def split: if_splits)
      qed simp
      then obtain a2 where f: "maxrtos_arch_handle_process_fault (Some r) MAXRTOS_FAULT_DEADLINE_EXCEEDED a1 = Some a2" by blast
      note fs = handle_process_fault_step(1)[OF k1(1) a1(5)[OF Some] f]
      have "kept a1 a2" "clock_of (kern a2) = clock_of (kern a1)" using fs by (simp_all add: fault_step_def)
      with rest[of a2] fault_step_ticking[OF a1(3) fs] lively_fault[OF l1 fs] f Some show ?thesis by (simp add: code)
    qed
  qed (use step(1) less.prems(5) in blast)
qed

text \<open>
  The context a pending switch is to save, if any, can be restarted: its partition is not halted and has a
  process to run, or gets one by the restart.
\<close>

definition restartable :: "arch \<Rightarrow> bool" where
  "restartable a \<longleftrightarrow> (\<forall>r. pendsv a \<longrightarrow> g_maxrtos_current_pcb a = Some (Process_Pcb r) \<longrightarrow> \<not> halted (kern a) (partition_of r a)
     \<and> (parked (kern a) r \<or> current_id (kern a) (partition_of r a) \<noteq> MAXRTOS_INVALID_PROCESS_ID))"

lemma tick_survives:
  assumes ok: "machine_ok a" "\<not> pendsv a" and e: "equipped a" and l: "live a"
  shows "\<exists>a'. maxrtos_arch_systick a = Some a' \<and> restartable a'"
proof (cases "s_frame_schedule a = None \<or> s_partition_table a = NULL")
  case True
  then have "maxrtos_arch_systick a = Some a" by (auto simp: maxrtos_arch_systick_def split: option.splits)
  with ok(2) show ?thesis by (simp add: restartable_def)
next
  case False
  then obtain sched where f: "s_frame_schedule a = Some sched" "s_partition_table a = PTR" by (cases "s_partition_table a") auto
  have u: "uncrowded (kern a)" "s_table a = PTR" "lively (g_maxrtos_current_pcb a) a" "machine_core a"
    using ok l by (simp_all add: machine_ok_def machine_core_def cpu_pcb_def)
  note t = ticking_start[OF ok]
  from deadline_misses_survived[OF t u(1,2) e u(3)] handle_deadline_misses_returns[OF t] obtain a1 where
    a1: "handle_deadline_misses a = Some (Some a1)" "lively (g_maxrtos_current_pcb a1) a1" "kept a a1" "ticking a1" by auto
  have k: "kernel_inv (kern a1)" "timer_ok (kern a1)" "uncrowded (kern a1)" "frame_wf sched" "s_partition_table a1 = PTR"
    using machine_core_kept[OF u(4) a1(3)] u(4) a1(3) f by (simp_all add: machine_core_def kernel_ok_def kept_def same_machine_def)
  obtain st out k2 where r: "maxrtos_kernel_on_tick PTR sched PTR PTR (kern a1) = (st, out, k2)" by (rule prod_cases3)
  note d = tick_dispatches[OF k(1-4) r]
  let ?a2 = "systick_switch st out (a1\<lparr>kern := k2\<rparr>)"
  have "\<not> halted k2 (partition_of i ?a2) \<and> current_id k2 (partition_of i ?a2) \<noteq> MAXRTOS_INVALID_PROCESS_ID"
    if i: "g_maxrtos_current_pcb a1 = Some (Process_Pcb i)" for i
  proof -
    have run: "runs (kern a1) i" using a1(4) i by (auto simp: ticking_def split: if_splits)
    have part: "partition_of i ?a2 = partition_of i a1" using d(3) by (simp add: same_owner_def)
    have "current_id (kern a1) (partition_of i a1) = i" "i \<noteq> MAXRTOS_INVALID_PROCESS_ID"
      using runs_current[OF kernel_invD(1)[OF k(1)] run] run by (simp_all add: runs_def)
    moreover have "current_id k2 = current_id (kern a1) \<or> (\<exists>p n. current_id k2 = (current_id (kern a1))(p := n) \<and> runs k2 n)"
      using d(4,5) by blast
    moreover have "n \<noteq> MAXRTOS_INVALID_PROCESS_ID" if "runs k2 n" for n using that by (simp add: runs_def)
    ultimately have "current_id k2 (partition_of i a1) \<noteq> MAXRTOS_INVALID_PROCESS_ID" by (metis fun_upd_apply)
    with a1(2) i part d(7) show ?thesis by (simp add: lively_def)
  qed
  then have "restartable ?a2" by (simp add: restartable_def)
  with f a1(1) k(5) r show ?thesis by (simp add: maxrtos_arch_systick_def)
qed

subsection \<open>The switch finds a context it can prepare\<close>

lemma prepare_succeeds:
  assumes core: "machine_core a" and e: "equipped a" and run: "may_run r a"
  shows "\<exists>a'. maxrtos_arch_prepare_next_pcb r a = Some (MAXRTOS_OK, a')"
proof -
  from run obtain q where q: "r = Some q" by (auto simp: may_run_def split: option.splits)
  have k: "mpu_hw_ok (mpu_unit a)" "active_mapped (mpu_unit a)" "kernel_inv (kern a)" using core by (simp_all add: machine_core_def kernel_ok_def)
  have "pcb_partition_id (pcb_at q a) = MAXRTOS_INVALID_PARTITION_ID \<or> partition_region (mpu_unit a) (pcb_partition_id (pcb_at q a)) \<noteq> None"
  proof (cases q)
    case (Process_Pcb i)
    with run q have "allocated (process_pool (kern a)) i" using runs_iff[OF kernel_invD(1)[OF k(3)]] by simp
    with e Process_Pcb show ?thesis by (simp add: equipped_def pcb_at_def)
  qed (use core in \<open>simp add: machine_core_def pcb_at_def\<close>)
  with prepare_next_process[OF k(1,2), of q] q show ?thesis by (auto simp: Let_def)
qed

text \<open>The fault of a context that cannot be saved discards it.\<close>

lemma fault_discards:
  assumes ok: "kernel_ok a" "equipped a" and cur: "g_maxrtos_current_pcb a = Some r" and c: "context_ok r a"
    and h: "maxrtos_arch_handle_process_fault (Some r) MAXRTOS_FAULT_MEMORY_ACCESS a = Some a'"
  shows "g_maxrtos_current_pcb a' = None"
proof -
  from h obtain hm status action k where t: "s_table a = PTR" "s_hm a = Some hm"
    and rec: "maxrtos_fault_recovery_handle PTR hm PTR (pcb_id (pcb_at r a)) MAXRTOS_FAULT_MEMORY_ACCESS PTR (kern a) = (MAXRTOS_OK, action, k)"
    and a': "(case action of
         Some MAXRTOS_HM_ACTION_IGNORE \<Rightarrow> Some (a\<lparr>kern := k\<rparr>)
       | Some MAXRTOS_HM_ACTION_RESTART_PROCESS \<Rightarrow> enact_restart r (a\<lparr>kern := k\<rparr>)
       | Some MAXRTOS_HM_ACTION_HALT_PARTITION \<Rightarrow> Some (maxrtos_arch_idle_enter_discarding_current (a\<lparr>kern := k\<rparr>))
       | _ \<Rightarrow> None) = Some a'"
    using cur by (cases "s_table a") (auto simp: maxrtos_arch_handle_process_fault_def maxrtos_arch_get_current_pcb_def Let_def
        split: option.splits prod.splits if_splits maxrtos_hm_action.splits)
  from rec have "\<exists>p. maxrtos_hm_get_policy PTR p MAXRTOS_FAULT_MEMORY_ACCESS PTR hm = (MAXRTOS_OK, action)"
    by (auto simp: maxrtos_fault_recovery_handle_def split: option.splits prod.splits if_splits maxrtos_hm_action.splits)
  then have "action \<noteq> Some MAXRTOS_HM_ACTION_IGNORE" using ok(2) t(2) by (auto simp: equipped_def)
  moreover have "g_maxrtos_current_pcb (maxrtos_arch_idle_enter_discarding_current b) = None" for b
    by (simp add: maxrtos_arch_idle_enter_discarding_current_def maxrtos_arch_request_context_switch_def maxrtos_arch_set_next_pcb_def
        maxrtos_arch_set_current_pcb_def split: prod.split)
  moreover have "g_maxrtos_current_pcb b' = None" if e: "enact_restart r b = Some b'" "kernel_ok b" "g_maxrtos_current_pcb b = Some r" for b b'
  proof -
    obtain st b1 where i: "maxrtos_arch_init_stack (Some r) b = (st, b1)" by (rule prod.exhaust)
    from init_stack_step(2)[OF e(2) i] e(3) have "g_maxrtos_current_pcb b1 = Some r" by (simp add: same_switch_def)
    with e(1,3) i show ?thesis
      by (auto simp: enact_restart_def maxrtos_arch_get_current_pcb_def maxrtos_arch_request_context_switch_def
          maxrtos_arch_set_next_pcb_def maxrtos_arch_set_current_pcb_def Let_def split: if_splits prod.splits option.splits)
  qed
  moreover have "kernel_ok (a\<lparr>kern := k\<rparr>)"
  proof -
    have "kernel_inv (kern a)" "timer_ok (kern a)" using ok(1) by (simp_all add: kernel_ok_def)
    from recovery_handle_recovers(1)[OF this rec] show ?thesis by (simp add: recovered_def kernel_ok_def)
  qed
  ultimately show ?thesis using a' cur by (auto split: option.splits maxrtos_hm_action.splits)
qed

lemma context_invalid_survives:
  assumes ok: "machine_ok a" "pendsv a" and e: "equipped a" "restartable a" and cur: "g_maxrtos_current_pcb a = Some (Process_Pcb i)"
  shows "maxrtos_arch_context_invalid a \<noteq> None"
proof -
  have k: "kernel_ok a" "uncrowded (kern a)" "s_table a = PTR" "context_ok (Process_Pcb i) a"
    using ok(1) cur by (simp_all add: machine_ok_def machine_core_def)
  then have i: "allocated (process_pool (kern a)) i" by (simp add: context_ok_def)
  have "maxrtos_arch_handle_process_fault (Some (Process_Pcb i)) MAXRTOS_FAULT_MEMORY_ACCESS a \<noteq> None"
    by (rule process_fault_recovered[OF k(1-3) e(1) i]) (use e(2) ok(2) cur in \<open>auto simp: restartable_def\<close>)
  then obtain a0 where f: "maxrtos_arch_handle_process_fault (Some (Process_Pcb i)) MAXRTOS_FAULT_MEMORY_ACCESS a = Some a0" by blast
  with fault_discards[OF k(1) e(1) cur k(4) f] cur show ?thesis
    by (simp add: maxrtos_arch_context_invalid_def maxrtos_arch_get_current_pcb_def Let_def split: option.split)
qed

lemma switch_survives:
  assumes ok: "machine_ok a" "pendsv a" and e: "equipped a" "restartable a"
    and idle: "g_maxrtos_current_pcb a = Some Idle_Pcb \<Longrightarrow> context_saveable exc psp (pcb_at Idle_Pcb a)"
  shows "PendSV_Handler exc psp registers a \<noteq> None"
proof -
  let ?save = "case g_maxrtos_current_pcb a of None \<Rightarrow> Some a
      | Some r \<Rightarrow> if context_saveable exc psp (pcb_at r a) then Some (save_context r psp registers a) else maxrtos_arch_context_invalid a"
  have core: "machine_core a" "kernel_ok a" and run: "may_run (g_maxrtos_next_pcb a) a"
    using ok by (simp_all add: machine_ok_def machine_core_def cpu_pcb_def)
  have "\<exists>a1. ?save = Some a1 \<and> machine_core a1 \<and> may_run (g_maxrtos_next_pcb a1) a1 \<and> equipped a1"
  proof (cases "g_maxrtos_current_pcb a")
    case None
    with core run e show ?thesis by simp
  next
    case (Some r)
    show ?thesis
    proof (cases "context_saveable exc psp (pcb_at r a)")
      case True
      have k: "kept a (save_context r psp registers a) \<and> same_switch a (save_context r psp registers a)"
        unfolding save_context_def by (intro stack_update[OF core(2)]) simp
      then have "machine_core (save_context r psp registers a)" "equipped (save_context r psp registers a)"
        "may_run (g_maxrtos_next_pcb (save_context r psp registers a)) (save_context r psp registers a)"
        using machine_core_kept[OF core(1)] equipped_setting[OF e(1) kept_setting] run may_run_cong[of "save_context r psp registers a" a]
        by (auto simp: same_switch_def)
      with Some True show ?thesis by simp
    next
      case False
      with idle Some obtain i where i: "r = Process_Pcb i" by (cases r) auto
      from context_invalid_survives[OF ok e] Some i obtain a1 where a1: "maxrtos_arch_context_invalid a = Some a1" by blast
      note s = context_invalid_step[OF ok Some a1]
      with Some False a1 equipped_setting[OF e(1)] show ?thesis by simp
    qed
  qed
  then obtain a1 where a1: "?save = Some a1" "machine_core a1" "may_run (g_maxrtos_next_pcb a1) a1" "equipped a1" by blast
  from prepare_succeeds[OF a1(2,4,3)] obtain a2 where p: "maxrtos_arch_prepare_next_pcb (g_maxrtos_next_pcb a1) a1 = Some (MAXRTOS_OK, a2)" by blast
  with a1(1) show ?thesis by (simp add: PendSV_Handler_def split: prod.split)
qed

subsection \<open>No event halts the machine\<close>

text \<open>
  What the machine does not answer for: a system call with a frame pointer of NULL or a number no service
  has, a fault of no known class, and a fault of the idle context, also in the form of a context that cannot be saved.
\<close>

fun answerable :: "event \<Rightarrow> arch \<Rightarrow> bool" where
  "answerable (System_Call sp n) a = (sp \<noteq> 0 \<and> unat n < MAXRTOS_SVC_COUNT)"
| "answerable (Store x v) a = True"
| "answerable (Fault f) a = (f \<noteq> MAXRTOS_FAULT_COUNT \<and> g_maxrtos_current_pcb a \<noteq> Some Idle_Pcb)"
| "answerable Tick a = True"
| "answerable (Switch exc psp registers) a =
     (g_maxrtos_current_pcb a = Some Idle_Pcb \<longrightarrow> context_saveable exc psp (pcb_at Idle_Pcb a))"

lemma fault_survives:
  assumes ok: "machine_ok a" "\<not> pendsv a" and e: "equipped a" and l: "live a"
    and f: "f \<noteq> MAXRTOS_FAULT_COUNT" "g_maxrtos_current_pcb a \<noteq> Some Idle_Pcb"
  shows "maxrtos_arch_handle_fault f a \<noteq> None"
proof -
  from ok f(2) obtain i where i: "g_maxrtos_current_pcb a = Some (Process_Pcb i)" "runs (kern a) i"
    by (auto simp: machine_ok_def cpu_pcb_def may_run_def split: option.splits pcb_ref.splits)
  have k: "kernel_ok a" "uncrowded (kern a)" "s_table a = PTR" "allocated (process_pool (kern a)) i"
    using ok i(1) by (auto simp: machine_ok_def machine_core_def context_ok_def)
  have "\<not> halted (kern a) (partition_of i a)" using l ok(2) i(1) by (simp add: lively_def cpu_pcb_def)
  with process_fault_recovered[OF k(1-3) e k(4) _ f(1)] i show ?thesis
    by (simp add: maxrtos_arch_handle_fault_def maxrtos_arch_get_current_pcb_def)
qed

lemma event_survives:
  assumes ok: "machine_ok a" and eq: "equipped a" "restartable a" and l: "live a" and e: "enabled e a" "answerable e a"
  shows "handle e a \<noteq> None"
proof (cases e)
  case (System_Call sp n)
  with e ok obtain i where "g_maxrtos_current_pcb a = Some (Process_Pcb i)" "\<not> pendsv a"
    by (auto simp: machine_ok_def cpu_pcb_def may_run_def split: option.splits pcb_ref.splits)
  then have "calling i a" using ok by (simp add: calling_def machine_ok_def machine_core_def cpu_pcb_def)
  with svc_dispatch_step[of i a sp n] System_Call e(2) show ?thesis by auto
next
  case (Store x v)
  show ?thesis
  proof (cases "bit (control a) 0 \<and> \<not> writable (mpu_unit a) x")
    case True
    have "g_maxrtos_current_pcb a \<noteq> Some Idle_Pcb"
    proof
      assume "g_maxrtos_current_pcb a = Some Idle_Pcb"
      with ok have "confined Idle_Pcb a" "pcb_partition_id (s_idle_pcb a) = MAXRTOS_INVALID_PARTITION_ID"
        by (simp_all add: machine_ok_def machine_core_def)
      with True show False by (simp add: confined_def Let_def pcb_at_def maxrtos_arch_partition_is_privileged_def)
    qed
    with fault_survives[OF ok _ eq(1) l, of MAXRTOS_FAULT_MEMORY_ACCESS] Store True e(1) show ?thesis by simp
  qed (use Store in auto)
next
  case (Fault f)
  with fault_survives[OF ok _ eq(1) l] e show ?thesis by simp
next
  case Tick
  with tick_survives[OF ok _ eq(1) l] e(1) show ?thesis by auto
next
  case (Switch exc psp registers)
  with switch_survives[OF ok _ eq, of exc psp registers] e show ?thesis by auto
qed

text \<open>What is pending to be saved stays restartable.\<close>

lemma restartable_step:
  assumes ok: "machine_ok a" and eq: "equipped a" and l: "live a" and step: "machine_step a a'"
  shows "restartable a'"
proof -
  have unpended: "restartable a'" if "\<not> pendsv a' \<or> g_maxrtos_current_pcb a' = None" using that by (auto simp: restartable_def)
  have fault: "restartable a'" if h: "maxrtos_arch_handle_fault f a = Some a'" and np: "\<not> pendsv a" for f
  proof -
    obtain r where r: "g_maxrtos_current_pcb a = Some r" using ok np by (auto simp: machine_ok_def cpu_pcb_def may_run_def split: option.splits)
    then have c: "kernel_ok a" "context_ok r a" using ok by (auto simp: machine_ok_def machine_core_def)
    from h r have "maxrtos_arch_handle_process_fault (Some r) f a = Some a'"
      by (simp add: maxrtos_arch_handle_fault_def maxrtos_arch_get_current_pcb_def)
    from handle_process_fault_step(1)[OF c this] np have "\<not> pendsv a' \<or> g_maxrtos_current_pcb a' = None" by (auto simp: fault_step_def)
    then show ?thesis by (rule unpended)
  qed
  from step obtain e where e: "enabled e a" "handle e a = Some a'" by (rule machine_stepE)
  show ?thesis
  proof (cases e)
    case (System_Call sp n)
    with e ok obtain i where i: "g_maxrtos_current_pcb a = Some (Process_Pcb i)" "\<not> pendsv a"
      by (auto simp: machine_ok_def cpu_pcb_def may_run_def split: option.splits pcb_ref.splits)
    have c: "calling i a" using ok i by (simp add: calling_def machine_ok_def machine_core_def cpu_pcb_def)
    have d: "maxrtos_arch_svc_dispatch sp n a = Some a'" using e System_Call by simp
    then have "sp \<noteq> 0" "unat n < MAXRTOS_SVC_COUNT" by (auto simp: maxrtos_arch_svc_dispatch_def split: if_splits)
    with svc_dispatch_step[OF c, of sp n] d have s: "svc_step (partition_of i a) a a'" by auto
    have h: "halted (kern a') = halted (kern a)" using svc_dispatch_now[OF _ d] c by (simp add: calling_def dial_def)
    have part: "partition_of i a' = partition_of i a" "g_maxrtos_current_pcb a' = Some (Process_Pcb i)"
      using s i by (simp_all add: svc_step_def same_owner_def only_kernel_iff)
    have "current_id (kern a') (partition_of i a) = MAXRTOS_INVALID_PROCESS_ID \<longrightarrow> parked (kern a') i"
      using s callingD(5)[OF c] by (simp add: svc_step_def)
    moreover have "\<not> halted (kern a) (partition_of i a)" using l i by (simp add: lively_def cpu_pcb_def)
    ultimately show ?thesis using part h by (auto simp: restartable_def)
  next
    case (Store x v)
    show ?thesis
    proof (cases "bit (control a) 0 \<and> \<not> writable (mpu_unit a) x")
      case False
      with e Store have "\<not> pendsv a'" by (auto simp: upd_mem_def)
      with unpended show ?thesis by blast
    qed (use e Store fault in simp)
  next
    case (Fault f)
    with e fault show ?thesis by simp
  next
    case Tick
    with e tick_survives[OF ok _ eq l] show ?thesis by auto
  next
    case (Switch exc psp registers)
    with e obtain psp' registers' where "PendSV_Handler exc psp registers a = Some (psp', registers', a')" by auto
    from pendsv_step(2)[OF ok _ this] e Switch unpended show ?thesis by simp
  qed
qed

lemma restartable_reaches: "reaches a b \<Longrightarrow> machine_ok a \<Longrightarrow> equipped a \<Longrightarrow> live a \<Longrightarrow> restartable a \<Longrightarrow> restartable b"
proof (induction rule: reaches.induct)
  case (step a b c)
  have "machine_ok b \<and> same_setting a b" by (rule reaches_kept[OF step.hyps(1) step.prems(1)])
  with equipped_setting[OF step.prems(2)] live_reaches[OF step.hyps(1) step.prems(1,3)] restartable_step[OF _ _ _ step.hyps(2)]
  show ?case by blast
qed simp

end
