(* ===== verification/Configured.thy ===== *)
theory Configured
  imports Demo Alive
begin

text \<open>
  The configured system: what \<open>maxrtos_config_init\<close> leaves, when \<open>main\<close> reaches the first switch, and
  what holds of the machine from there on.
\<close>

subsection \<open>What the start relies on\<close>


text \<open>The static data as the C start-up leaves them, and the protection unit after a reset.\<close>

definition at_reset :: "arch \<Rightarrow> bool" where
  "at_reset a \<longleftrightarrow> empty_lists (kern a) \<and> g_maxrtos_current_pcb a = None \<and> mpu_writes (mpu_unit a) = []
     \<and> (\<forall>p. \<not> s_partition_privileged a p)"

text \<open>What the linker has to arrange.\<close>

definition layout_ok :: "link_map \<Rightarrow> arch \<Rightarrow> bool" where
  "layout_ok link a \<longleftrightarrow> partition_control_domain_start link mod 2048 = 0 \<and> partition_application_domain_start link mod 1024 = 0
     \<and> s_port_storage_cmd_channel link \<noteq> 0 \<and> s_sampling_storage_status link \<noteq> 0 \<and> s_idle_stack a \<noteq> 0 \<and> idle_entry a \<noteq> 0"

text \<open>The static regions: code, peripherals, and the two memories that only privileged code may access.\<close>

definition static_map :: "mpu_hw \<Rightarrow> bool" where
  "static_map hw \<longleftrightarrow> static_region hw 0 0x08000000 (2 ^ 21) 6 \<and> static_region hw 1 0x58000000 (2 ^ 19) 3
     \<and> static_region hw 2 0x20000000 (2 ^ 17) 1 \<and> static_region hw 3 0x24000000 (2 ^ 19) 1
     \<and> (\<forall>q \<in> {4, 5, 6, 7}. region_regs hw q = (0, 0))"

text \<open>The system between its configuration and its start.\<close>

definition configured :: "link_map \<Rightarrow> arch \<Rightarrow> bool" where
  "configured link a \<longleftrightarrow> unstarted (kern a) \<and> s_table a = PTR \<and> s_partition_table a = PTR \<and> g_maxrtos_current_pcb a = None
     \<and> (\<exists>schedule. s_frame_schedule a = Some schedule \<and> frame_wf schedule \<and> frame_timeline schedule = [0, 0, 0, 0, 0, 1, 1, 1])
     \<and> mpu_hw_ok (mpu_unit a) \<and> active_mapped (mpu_unit a) \<and> unit_armed (mpu_unit a)
     \<and> partition_region (mpu_unit a) = domain_of link \<and> static_map (mpu_unit a) \<and> (\<forall>p. \<not> s_partition_privileged a p)
     \<and> pcb_id (s_idle_pcb a) = MAXRTOS_INVALID_PROCESS_ID \<and> pcb_partition_id (s_idle_pcb a) = MAXRTOS_INVALID_PARTITION_ID"

lemma idle_init_eq:
  "\<exists>b m. maxrtos_arch_idle_init a = (if s_idle_stack a = 0 \<or> idle_entry a = 0 then None
      else Some (a\<lparr>kern := (kern a)\<lparr>mem := m\<rparr>, s_idle_pcb := b\<rparr>))
    \<and> pcb_id b = MAXRTOS_INVALID_PROCESS_ID \<and> pcb_partition_id b = MAXRTOS_INVALID_PARTITION_ID"
proof (cases "s_idle_stack a = 0 \<or> idle_entry a = 0")
  case True
  obtain b :: pcb where "pcb_id b = MAXRTOS_INVALID_PROCESS_ID \<and> pcb_partition_id b = MAXRTOS_INVALID_PARTITION_ID"
    using that[of "(s_idle_pcb a)\<lparr>pcb_id := MAXRTOS_INVALID_PROCESS_ID, pcb_partition_id := MAXRTOS_INVALID_PARTITION_ID\<rparr>"] by simp
  moreover have "maxrtos_arch_idle_init a = None"
    using True by (simp add: maxrtos_arch_idle_init_def maxrtos_arch_init_stack_def pcb_at_def Let_def)
  ultimately show ?thesis using True by auto
next
  case False
  then show ?thesis
    by (simp add: maxrtos_arch_idle_init_def maxrtos_arch_init_stack_def pcb_at_def Let_def upd_pcb_at_def upd_mem_def)
      (rule exI, rule conjI, rule exI, rule refl, simp)
qed

lemma unstarted_ports:
  assumes "unstarted s" "empty_lists s"
  shows "unstarted (upd_sampling_port j f (port_created st sz ms cap sm rm i s))"
proof -
  let ?s = "upd_sampling_port j f (port_created st sz ms cap sm rm i s)"
  have f: "process_pool ?s = process_pool s" "scheduler_ctx ?s = scheduler_ctx s" "current_id ?s = current_id s" "s_next_due ?s = s_next_due s"
    by (simp_all add: upd_sampling_port_def port_created_def upd_port_def)
  have h: "halted ?s = halted s"
    by (simp add: upd_sampling_port_def port_created_def upd_port_def waitlist_reset_def upd_waitlist_def)
  have "wait_ok (process_pool ?s) (waitlists ?s)"
    using assms by (simp add: wait_ok_def upd_sampling_port_def port_created_def upd_port_def waitlist_reset_wf
        empty_lists_def unstarted_def kernel_inv_def)
  with assms(1) show ?thesis
    by (simp add: unstarted_def kernel_inv_def sched_inv_def due_ok_def timer_ok_def queued_in_def f h)
qed

lemma config_init_outcome:
  assumes reset: "at_reset a"
  shows "(case maxrtos_config_init link statics r sys a of None \<Rightarrow> \<not> layout_ok link a
    | Some (r1, sys1, b) \<Rightarrow> layout_ok link a \<and> configured link b \<and> (\<forall>i. \<not> allocated (process_pool (kern b)) i)
        \<and> (\<exists>hm. s_hm b = Some hm \<and> config_health_monitor (s_health_monitor statics) = Some hm))"
proof -
  have rs: "empty_lists (kern a)" "g_maxrtos_current_pcb a = None" "mpu_writes (mpu_unit a) = []" "\<forall>p. \<not> s_partition_privileged a p"
    using reset by (simp_all add: at_reset_def)
  from config_kernel_unstarted[OF rs(1)] obtain k where k: "config_kernel (kern a) = Some k" "unstarted k"
    "\<forall>i. \<not> allocated (process_pool k) i" "empty_lists k" "\<not> qp_in_use (s_port_pool k 0)" "\<not> sp_in_use (s_sampling_port_pool k 0)" by blast
  from config_health_monitor_eq[of "s_health_monitor statics"] obtain hm where
    hm: "config_health_monitor (s_health_monitor statics) = Some hm" by blast
  from config_frame_eq[of "s_config_schedule statics"] obtain sched where
    sched: "config_frame (s_config_schedule statics) = Some sched" "frame_wf sched" "frame_timeline sched = [0, 0, 0, 0, 0, 1, 1, 1]" by blast
  note ports = config_ports_eq[OF k(5,6), of link]
  define a2 where "a2 = maxrtos_arch_set_health_monitor (Some hm) (maxrtos_arch_set_partition_table PTR (a\<lparr>kern := k\<rparr>))"
  have a2: "kern a2 = k" "mpu_unit a2 = mpu_unit a" "s_idle_stack a2 = s_idle_stack a" "idle_entry a2 = idle_entry a" "s_hm a2 = Some hm"
    "s_table a2 = PTR" "g_maxrtos_current_pcb a2 = None" "s_partition_privileged a2 = s_partition_privileged a"
    using rs(2) by (simp_all add: a2_def maxrtos_arch_set_partition_table_def maxrtos_arch_set_health_monitor_def)
  have code: "maxrtos_config_init link statics r sys a = (case config_domains link (s_mpu_config statics) of
       None \<Rightarrow> None
     | Some config \<Rightarrow>
         (case config_regions (maxrtos_arch_mpu_set_config (Some config) (mpu_unit a)) of
            None \<Rightarrow> None
          | Some hw \<Rightarrow>
              (case config_ports link k of
                 None \<Rightarrow> None
               | Some k2 \<Rightarrow>
                   (case maxrtos_arch_context_switch_init sys (a2\<lparr>kern := k2, mpu_unit := maxrtos_arch_mpu_init False hw\<rparr>) of
                      None \<Rightarrow> None
                    | Some (sys1, a4) \<Rightarrow>
                        Some (maxrtos_arch_fault_handlers_init r, sys1, maxrtos_arch_systick_init (Some sched) PTR a4)))))"
    unfolding maxrtos_config_init_def k(1) option.case Let_def hm a2_def[symmetric] a2(1,2) sched(1) by (rule refl)
  show ?thesis
  proof (cases "config_domains link (s_mpu_config statics)")
    case None
    then have "maxrtos_config_init link statics r sys a = None" by (simp add: code)
    moreover have "\<not> layout_ok link a" using None config_domains_eq(1)[of link "s_mpu_config statics"] unfolding layout_ok_def by metis
    ultimately show ?thesis by simp
  next
    case (Some config)
    define u0 where "u0 = maxrtos_arch_mpu_set_config (Some config) (mpu_unit a)"
    from config_regions_ok[of u0] obtain u where u: "config_regions u0 = Some u" "s_config u = s_config u0"
      "s_active_partition_id u = s_active_partition_id u0"
      "static_region u 0 0x08000000 (2 ^ 21) 6" "static_region u 1 0x58000000 (2 ^ 19) 3"
      "static_region u 2 0x20000000 (2 ^ 17) 1" "static_region u 3 0x24000000 (2 ^ 19) 1"
      "\<And>q. q \<notin> {0, 1, 2, 3} \<Longrightarrow> region_regs u q = region_regs u0 q" by blast
    define v where "v = maxrtos_arch_mpu_init False u"
    have conf: "s_config v = Some config" by (simp add: v_def mpu_init_keeps u(2) u0_def maxrtos_arch_mpu_set_config_def)
    have dom: "mpu_config_ok config" "partition_region v p = domain_of link p" for p
      using config_domains_eq(2)[OF Some conf] by blast+
    have low: "region_regs v q = region_regs u q" if "q \<le> 8" for q using that by (simp add: v_def mpu_init_keeps)
    have zero: "region_regs u0 q = (0, 0)" for q
      using rs(3) by (simp add: u0_def maxrtos_arch_mpu_set_config_def region_regs_def unit_state_def)
    have unit_ok: "mpu_hw_ok v" "active_mapped v" "unit_armed v" "partition_region v = domain_of link"
      "static_map v"
      using dom u low zero conf mpu_init_arms[of False u]
      by (auto simp: mpu_hw_ok_def static_map_def static_region_cong[OF low] active_mapped_def v_def[symmetric])
        (simp add: v_def mpu_init_keeps u(3) u0_def maxrtos_arch_mpu_set_config_def)
    show ?thesis
    proof (cases "s_port_storage_cmd_channel link = 0 \<or> s_sampling_storage_status link = 0")
      case True
      then show ?thesis using Some u(1) ports by (auto simp: code u0_def[symmetric] layout_ok_def)
    next
      case False
      then obtain f k2 where e: "config_ports link k = Some k2"
        "k2 = upd_sampling_port 0 f (port_created (s_port_storage_cmd_channel link) 16 4 4 1 2 0 k)" using ports by simp
      have k2: "config_ports link k = Some k2" "unstarted k2" "process_pool k2 = process_pool k"
        using unstarted_ports[OF k(2,4)] e by (simp_all add: upd_sampling_port_def port_created_def upd_port_def)
      define a3 where "a3 = a2\<lparr>kern := k2, mpu_unit := v\<rparr>"
      from idle_init_eq[of a3] obtain b m where i: "maxrtos_arch_idle_init a3 = (if s_idle_stack a3 = 0 \<or> idle_entry a3 = 0 then None
          else Some (a3\<lparr>kern := (kern a3)\<lparr>mem := m\<rparr>, s_idle_pcb := b\<rparr>))"
        "pcb_id b = MAXRTOS_INVALID_PROCESS_ID" "pcb_partition_id b = MAXRTOS_INVALID_PARTITION_ID" by blast
      have d: "partition_control_domain_start link mod 2048 = 0" "partition_application_domain_start link mod 1024 = 0"
        using Some config_domains_eq(1)[of link "s_mpu_config statics"] by (metis option.distinct(1))+
      have "\<exists>r1 sys1. maxrtos_config_init link statics r sys a = (if s_idle_stack a = 0 \<or> idle_entry a = 0 then None
          else Some (r1, sys1, a3\<lparr>kern := k2\<lparr>mem := m\<rparr>, s_idle_pcb := b, s_frame_schedule := Some sched, s_partition_table := PTR\<rparr>))"
        using Some u(1) k2(1) i(1)
        by (simp add: code u0_def[symmetric] v_def[symmetric] a3_def[symmetric] maxrtos_arch_context_switch_init_def Let_def
            maxrtos_arch_systick_init_def) (simp add: a3_def a2)
      moreover have "layout_ok link a \<longleftrightarrow> s_idle_stack a \<noteq> 0 \<and> idle_entry a \<noteq> 0"
        unfolding layout_ok_def using False d by metis
      ultimately show ?thesis using k2 k(3) hm unit_ok sched(2,3) i(2,3) rs(4)
        by (auto simp: configured_def a3_def a2)
    qed
  qed
qed

text \<open>Of the static regions only that of the peripherals gives a process full access.\<close>

lemma static_map_cong:
  assumes "static_map hw" "\<And>r. r \<noteq> MAXRTOS_MPU_PARTITION_REGION \<Longrightarrow> region_regs hw' r = region_regs hw r"
  shows "static_map hw'"
  using assms(1) static_region_cong[OF assms(2)] assms(2) by (simp add: static_map_def)

lemma static_full_access:
  assumes "static_map hw" "r < MAXRTOS_MPU_PARTITION_REGION" "covers hw r x" "full_access hw r"
  shows "0x58000000 \<le> unat x \<and> unat x < 0x58080000"
proof -
  have "r \<in> set (ids_below 8)" using assms(2) set_ids_below_8 by simp
  moreover have "ids_below 8 = [0, 1, 2, 3, 4, 5, 6, 7 :: u32]" by code_simp
  ultimately have "r \<in> {0, 1, 2, 3, 4, 5, 6, 7}" by simp
  moreover have "\<not> covers hw q x" if "q \<in> {4, 5, 6, 7}" for q
    using assms(1) that by (auto simp: static_map_def covers_def rasr_decode_def)
  moreover have "\<not> full_access hw q" if "q \<in> {0, 2, 3}" for q
    using assms(1) that by (auto simp: static_map_def static_region_def full_access_def)
  ultimately have "r = 1" using assms(3,4) by auto
  with assms(1,3) show ?thesis by (auto simp: static_map_def static_region_def covers_def)
qed

lemma configured_booted:
  assumes c: "configured link a" and p: "\<And>q. population (kern a) q \<le> MAXRTOS_MAX_READY_PER_PRIORITY"
  shows "booted a"
proof -
  have un: "unstarted (kern a)" using c by (simp add: configured_def)
  then have "\<not> queued_in (kern a) i" "\<not> waits_for_time (process_pool (kern a) i)" if "allocated (process_pool (kern a)) i" for i
    using that unstarted_queued by (simp_all add: unstarted_def)
  moreover have "uncrowded (kern a)" using p by (simp add: uncrowded_def population_def)
  ultimately show ?thesis using c un
    by (auto simp: booted_def machine_core_def kernel_ok_def configured_def unstarted_def)
qed

subsection \<open>The configured system\<close>

definition in_domain :: "link_map \<Rightarrow> u32 \<Rightarrow> u32 \<Rightarrow> bool" where
  "in_domain link p x \<longleftrightarrow> (case domain_of link p of None \<Rightarrow> False
     | Some region \<Rightarrow> unat (reg_base_address region) \<le> unat x \<and> unat x < unat (reg_base_address region) + unat (reg_size_bytes region))"

definition domains_apart :: "link_map \<Rightarrow> bool" where
  "domains_apart link \<longleftrightarrow> unat (partition_control_domain_start link) + 2048 \<le> unat (partition_application_domain_start link)
     \<or> unat (partition_application_domain_start link) + 1024 \<le> unat (partition_control_domain_start link)"

lemma domains_apartD: "domains_apart link \<Longrightarrow> in_domain link p x \<Longrightarrow> in_domain link q x \<Longrightarrow> p = q"
  by (auto simp: domains_apart_def in_domain_def domain_of_def domain_region_def split: if_splits)

text \<open>The state in which the processes exist.\<close>

lemma created_configured:
  assumes c: "configured link a1" "\<And>i. \<not> allocated (process_pool (kern a1)) i"
    and few: "\<And>q. length (filter (\<lambda>p. att_partition_id p = q) processes) \<le> MAXRTOS_MAX_READY_PER_PRIORITY"
    and r: "create_processes processes a1 = Some a2"
  shows "configured link a2" "booted a2"
proof -
  have un: "unstarted (kern a1)" using c(1) by (simp add: configured_def)
  from create_processes_unstarted[OF un r] obtain pool where a2: "unstarted (kern a2)" "a2 = a1\<lparr>kern := (kern a1)\<lparr>process_pool := pool\<rparr>\<rparr>"
    "\<And>q. population (kern a2) q = population (kern a1) q + length (filter (\<lambda>p. att_partition_id p = q) processes)" by blast
  have "population (kern a1) q = 0" for q using c(2) by (simp add: population_def)
  then have pop: "population (kern a2) q \<le> MAXRTOS_MAX_READY_PER_PRIORITY" for q using a2(3) few[of q] by simp
  show conf: "configured link a2" using c(1) a2(1) by (simp add: configured_def a2(2))
  show "booted a2" by (rule configured_booted[OF conf pop])
qed

lemma configured_frame:
  assumes "configured link a"
  obtains schedule where "s_frame_schedule a = Some schedule" "frame_wf schedule" "slot_partition schedule 0 = PARTITION_ID_control"
  using assms that by (auto simp: configured_def slot_partition_def)

text \<open>
  A tick between the configuration and the start of the scheduler finds no process of its slot queued
  and requests a switch to the idle context, with no context of \<open>main\<close> to come back to: the tick has to be enabled after the
  start has taken over.
\<close>

lemma early_tick_parks:
  assumes c: "configured link a" and misses: "s_pending_misses (kern a) = 0"
  shows "\<exists>b. maxrtos_arch_systick a = Some b \<and> pendsv b \<and> g_maxrtos_current_pcb b = None \<and> g_maxrtos_next_pcb b = Some Idle_Pcb"
proof -
  obtain schedule where f: "s_frame_schedule a = Some schedule" "frame_wf schedule" by (rule configured_frame[OF c])
  have un: "unstarted (kern a)" and a: "s_partition_table a = PTR" "g_maxrtos_current_pcb a = None" using c by (simp_all add: configured_def)
  from un obtain k where k: "maxrtos_kernel_on_tick PTR schedule PTR PTR (kern a) = (MAXRTOS_ERR_QUEUE_EMPTY, None, k)"
    using on_tick_empty[OF _ _ f(2), of "kern a"] by (auto simp: unstarted_def)
  have "handle_deadline_misses a = Some (Some a)"
    using misses by (subst handle_deadline_misses.simps) (simp add: maxrtos_kernel_take_deadline_miss_def)
  then have "maxrtos_arch_systick a = Some (systick_switch MAXRTOS_ERR_QUEUE_EMPTY None (a\<lparr>kern := k\<rparr>))"
    by (simp add: maxrtos_arch_systick_def f(1) a(1) k)
  then show ?thesis
    by (simp add: systick_switch_def switch_to_def maxrtos_arch_get_current_pcb_def maxrtos_arch_idle_pcb_def a(2)
        maxrtos_arch_set_next_pcb_def maxrtos_arch_request_context_switch_def)
qed

lemma main_ok:
  assumes reset: "at_reset a" and few: "\<And>q. length (filter (\<lambda>p. att_partition_id p = q) processes) \<le> MAXRTOS_MAX_READY_PER_PRIORITY"
    and start: "main link statics processes r sys board a = Some (d, b)"
  shows "machine_ok b \<and> pendsv b \<and> (\<exists>n. cpu_pcb b = Some (Process_Pcb n) \<and> partition_of n b = PARTITION_ID_control)
    \<and> (\<exists>a2. configured link a2 \<and> same_setting a2 b) \<and> in_slot b"
proof -
  from start obtain r1 sys1 a1 a2 where
    i: "maxrtos_config_init link statics r sys a = Some (r1, sys1, a1)" and c: "create_processes processes a1 = Some a2"
    and s: "maxrtos_scheduler_start a2 = Some b"
    by (auto simp: main_def split: option.splits)
  from config_init_outcome[OF reset, of link statics r sys] i
  have a1: "configured link a1" "\<And>i. \<not> allocated (process_pool (kern a1)) i" by simp_all
  note a2 = created_configured[OF a1 few c]
  obtain schedule where f: "s_frame_schedule a2 = Some schedule" "slot_partition schedule 0 = PARTITION_ID_control"
    by (rule configured_frame[OF a2(1)])
  from scheduler_start_ok[OF a2(2) f(1) s] scheduler_start_in_slot[OF a2(2) f(1) s] f(2) a2(1) show ?thesis by auto
qed

lemma main_starts:
  assumes reset: "at_reset a" "layout_ok link a"
    and few: "\<And>q. length (filter (\<lambda>p. att_partition_id p = q) processes) \<le> MAXRTOS_MAX_READY_PER_PRIORITY"
    and proper: "\<And>p. p \<in> set processes \<Longrightarrow> proper_attributes p" "length processes \<le> MAXRTOS_MAX_PROCESSES"
    and first: "PARTITION_ID_control \<in> att_partition_id ` set processes"
  shows "\<exists>d b. main link statics processes r sys board a = Some (d, b)"
proof -
  from config_init_outcome[OF reset(1), of link statics r sys] reset(2) obtain r1 sys1 a1 where
    i: "maxrtos_config_init link statics r sys a = Some (r1, sys1, a1)" "configured link a1"
      "\<And>i. \<not> allocated (process_pool (kern a1)) i" by (auto split: option.splits)
  from create_processes_succeed[OF proper(1), of processes a1] i(3) proper(2) obtain a2 where
    c: "create_processes processes a1 = Some a2"
      "\<forall>i. allocated (process_pool (kern a2)) i \<longrightarrow> stack_fits (process_pool (kern a2) i)"
      "\<forall>p \<in> set processes. \<exists>i. allocated (process_pool (kern a2)) i \<and> pcb_partition_id (process_pool (kern a2) i) = att_partition_id p"
    by auto
  note a2 = created_configured[OF i(2,3) few c(1)]
  obtain schedule where f: "s_frame_schedule a2 = Some schedule" "frame_wf schedule" "slot_partition schedule 0 = PARTITION_ID_control"
    by (rule configured_frame[OF a2(1)])
  have un: "unstarted (kern a2)" using a2(1) by (simp add: configured_def)
  then have ready: "pcb_state (process_pool (kern a2) i) = MAXRTOS_PROCESS_STATE_READY" if "allocated (process_pool (kern a2)) i" for i
    using that by (simp add: unstarted_def)
  have "starting (ids_below MAXRTOS_MAX_PROCESSES) a2" "uncrowded (kern a2)"
    using a2(2) by (simp_all add: starting_def booted_def machine_core_def)
  then have "dormant (ids_below MAXRTOS_MAX_PROCESSES) a2"
    using c(2) ready by (auto simp: dormant_def allocated_def)
  moreover have "\<not> halted (kern a2) (slot_partition schedule 0)" using un by (simp add: unstarted_def f(3))
  moreover from first c(3) obtain i where "allocated (process_pool (kern a2)) i" "pcb_partition_id (process_pool (kern a2) i) = slot_partition schedule 0"
    by (auto simp: f(3))
  ultimately have "\<exists>b. maxrtos_scheduler_start a2 = Some b" using scheduler_start_succeeds[OF _ f(1,2)] by blast
  then show ?thesis using i(1) c(1) by (simp add: main_def)
qed

text \<open>The switch that is pending after the start succeeds.\<close>

lemma started_current: "maxrtos_scheduler_start a = Some b \<Longrightarrow> g_maxrtos_current_pcb b = None"
  by (auto simp: maxrtos_scheduler_start_def maxrtos_arch_start_scheduler_def maxrtos_arch_start_first_process_def
      maxrtos_arch_request_context_switch_def Let_def split: option.splits prod.splits if_splits)

lemma main_current: "main link statics processes r sys board a = Some (d, b) \<Longrightarrow> g_maxrtos_current_pcb b = None"
  by (auto simp: main_def intro: started_current split: option.splits)

lemma first_switch:
  assumes ok: "machine_ok b" "pendsv b" and cur: "g_maxrtos_current_pcb b = None" and n: "cpu_pcb b = Some (Process_Pcb n)"
    and region: "partition_region (mpu_unit b) (partition_of n b) \<noteq> None"
  shows "\<exists>c. handle (Switch exc psp registers) b = Some c \<and> machine_ok c \<and> g_maxrtos_current_pcb c = Some (Process_Pcb n)
    \<and> partition_of n c = partition_of n b \<and> \<not> pendsv c"
proof -
  have core: "machine_core b" "mpu_hw_ok (mpu_unit b)" "active_mapped (mpu_unit b)" "kernel_inv (kern b)"
    using ok(1) by (simp_all add: machine_ok_def machine_core_def kernel_ok_def)
  have next': "g_maxrtos_next_pcb b = Some (Process_Pcb n)" using n ok(2) by (simp add: cpu_pcb_def)
  have "may_run (Some (Process_Pcb n)) b" using ok(1) n by (simp add: machine_ok_def)
  then have "allocated (process_pool (kern b)) n" using runs_iff[OF kernel_invD(1)[OF core(4)]] by simp
  then have ctx: "context_ok (Process_Pcb n) b" by (simp add: context_ok_def)
  from prepare_next_process[OF core(2,3), of "Process_Pcb n"] region obtain b2 where
    p: "maxrtos_arch_prepare_next_pcb (Some (Process_Pcb n)) b = Some (MAXRTOS_OK, b2)" by (auto simp: Let_def pcb_at_def)
  obtain psp' registers' where rc: "restore_context (Some (Process_Pcb n)) b2 = (psp', registers')" by (rule prod.exhaust)
  let ?c = "b2\<lparr>g_maxrtos_current_pcb := Some (Process_Pcb n), pendsv := False\<rparr>"
  have h: "PendSV_Handler exc psp registers b = Some (psp', registers', ?c)"
    by (simp add: PendSV_Handler_def cur next' p rc)
  have "same_owner (kern b) (kern b2)" by (rule prepare_step(3)[OF core(1) ctx p])
  then have "partition_of n ?c = partition_of n b" by (simp add: same_owner_def)
  with pendsv_step(1)[OF ok h] h show ?thesis by simp
qed

lemma configured_slots:
  assumes conf: "configured link a" and set: "same_setting a c" and ok: "machine_ok c" "in_slot c"
  shows "cpu_pcb c = Some Idle_Pcb \<or> (\<exists>n. cpu_pcb c = Some (Process_Pcb n) \<and> partition_of n c =
    (if unat (s_current_tick (kern c) - 1) mod 8 < 5 then PARTITION_ID_control else PARTITION_ID_application))"
proof -
  from conf obtain schedule where f: "s_frame_schedule a = Some schedule" "frame_timeline schedule = [0, 0, 0, 0, 0, 1, 1, 1]"
    by (auto simp: configured_def)
  have slots: "[0, 0, 0, 0, 0, 1, 1, 1 :: u32] ! k = (if k < 5 then 0 else 1)" if "k < 8" for k
  proof -
    have "k \<in> {0, 1, 2, 3, 4, 5, 6, 7}" using that by auto
    then show ?thesis by auto
  qed
  have "slot_partition schedule t = (if unat t mod 8 < 5 then 0 else 1)" for t
    using slots[of "unat t mod 8"] by (simp add: slot_partition_def f(2))
  moreover have "may_run (cpu_pcb c) c" "s_frame_schedule c = Some schedule"
    using ok(1) set f(1) by (simp_all add: machine_ok_def same_setting_def)
  ultimately show ?thesis using ok(2) by (auto simp: in_slot_def may_run_def split: option.splits pcb_ref.splits)
qed

lemma main_switches:
  assumes reset: "at_reset a" and few: "\<And>q. length (filter (\<lambda>p. att_partition_id p = q) processes) \<le> MAXRTOS_MAX_READY_PER_PRIORITY"
    and start: "main link statics processes r sys board a = Some (d, b)"
  shows "pendsv b" "\<exists>n. \<forall>exc psp registers. \<exists>c. handle (Switch exc psp registers) b = Some c \<and> machine_ok c \<and> \<not> pendsv c
    \<and> g_maxrtos_current_pcb c = Some (Process_Pcb n) \<and> partition_of n c = PARTITION_ID_control"
proof -
  from main_ok[OF assms] obtain n a2 where ok: "machine_ok b" "pendsv b" "cpu_pcb b = Some (Process_Pcb n)"
    "partition_of n b = PARTITION_ID_control" "configured link a2" "same_setting a2 b" by blast
  have "partition_region (mpu_unit b) = domain_of link"
    using ok(5,6) by (simp add: configured_def same_setting_def partition_region_def fun_eq_iff)
  then have "partition_region (mpu_unit b) (partition_of n b) \<noteq> None" by (simp add: ok(4) domain_of_def)
  from first_switch[OF ok(1,2) main_current[OF start] ok(3) this] ok(2,4)
  show "pendsv b" "\<exists>n. \<forall>exc psp registers. \<exists>c. handle (Switch exc psp registers) b = Some c \<and> machine_ok c \<and> \<not> pendsv c
    \<and> g_maxrtos_current_pcb c = Some (Process_Pcb n) \<and> partition_of n c = PARTITION_ID_control" by metis+
qed

text \<open>
  C1. The configured system is isolated. Out of a reset, with at most eight processes per partition,
  \<open>main\<close> hands the processor to a process of the partition of the first slot, and from then on,
  whatever the processes call, write or do wrong and whenever ticks and switches come, the machine
  is consistent; the processor idles or goes to the partition that owns the slot, five ticks of each
  eight to the one and three to the other; each process on the processor is one of the two
  configured partitions' and runs unprivileged; and a byte it writes outside its partition's domain
  and the peripherals is not written but faults, so in particular one in the domain of the other
  partition, if the linker has kept the domains apart.
\<close>

theorem configured_system_isolated:
  assumes "at_reset a" "\<And>q. length (filter (\<lambda>p. att_partition_id p = q) processes) \<le> MAXRTOS_MAX_READY_PER_PRIORITY"
    and "main link statics processes r sys board a = Some (d, b)" "reaches b c"
  shows "machine_ok c \<and> (\<exists>n. cpu_pcb b = Some (Process_Pcb n) \<and> partition_of n b = PARTITION_ID_control)
    \<and> (cpu_pcb c = Some Idle_Pcb \<or> (\<exists>n. cpu_pcb c = Some (Process_Pcb n) \<and> partition_of n c =
         (if unat (s_current_tick (kern c) - 1) mod 8 < 5 then PARTITION_ID_control else PARTITION_ID_application)))
    \<and> (\<forall>i x v. g_maxrtos_current_pcb c = Some (Process_Pcb i) \<longrightarrow>
         partition_of i c \<in> {PARTITION_ID_control, PARTITION_ID_application} \<and> bit (control c) 0
         \<and> (in_domain link (partition_of i c) x \<or> (0x58000000 \<le> unat x \<and> unat x < 0x58080000)
            \<or> handle (Store x v) c = maxrtos_arch_handle_fault MAXRTOS_FAULT_MEMORY_ACCESS c)
         \<and> (\<forall>q. domains_apart link \<and> q \<noteq> partition_of i c \<and> in_domain link q x \<and> \<not> (0x58000000 \<le> unat x \<and> unat x < 0x58080000)
              \<longrightarrow> handle (Store x v) c = maxrtos_arch_handle_fault MAXRTOS_FAULT_MEMORY_ACCESS c))"
proof -
  from main_ok[OF assms(1-3)] obtain a2 where b: "machine_ok b" "configured link a2" "same_setting a2 b"
    "\<exists>n. cpu_pcb b = Some (Process_Pcb n) \<and> partition_of n b = PARTITION_ID_control" "in_slot b" by blast
  from reaches_kept[OF assms(4) b(1)] have ok: "machine_ok c" and "same_setting b c" by blast+
  then have set: "same_setting a2 c" using same_setting_trans[OF b(3)] by blast
  then have map: "static_map (mpu_unit c)" and priv: "\<not> s_partition_privileged c p" for p
    using b(2) static_map_cong[of "mpu_unit a2" "mpu_unit c"] by (auto simp: configured_def same_setting_def)
  have dom: "partition_region (mpu_unit c) = domain_of link"
    using b(2) set by (simp add: configured_def same_setting_def partition_region_def fun_eq_iff)
  have store: "partition_of i c \<in> {PARTITION_ID_control, PARTITION_ID_application} \<and> bit (control c) 0
         \<and> (in_domain link (partition_of i c) x \<or> (0x58000000 \<le> unat x \<and> unat x < 0x58080000)
            \<or> handle (Store x v) c = maxrtos_arch_handle_fault MAXRTOS_FAULT_MEMORY_ACCESS c)"
    if i: "g_maxrtos_current_pcb c = Some (Process_Pcb i)" for i x v
  proof -
    let ?p = "partition_of i c"
    have conf: "confined (Process_Pcb i) c" "kernel_inv (kern c)" "allocated (process_pool (kern c)) i"
      using ok i by (auto simp: machine_ok_def machine_core_def kernel_ok_def context_ok_def)
    then have "?p < of_nat MAXRTOS_MAX_PARTITIONS"
      using sched_okD(1)[OF kernel_invD(1)[unfolded sched_inv_def]] by (simp add: pcb_ok_def)
    then have ne: "?p \<noteq> MAXRTOS_INVALID_PARTITION_ID" by auto
    have np: "\<not> maxrtos_arch_partition_is_privileged ?p c" using priv ne by (simp add: maxrtos_arch_partition_is_privileged_def)
    have r: "domain_of link ?p \<noteq> None" "bit (control c) 0"
      using conf(1) ne np dom unfolding confined_def Let_def by (auto simp: pcb_at_def)
    have "handle (Store x v) c = maxrtos_arch_handle_fault MAXRTOS_FAULT_MEMORY_ACCESS c"
      if "\<not> in_domain link ?p x" "\<not> (0x58000000 \<le> unat x \<and> unat x < 0x58080000)"
    proof -
      have "\<not> (\<exists>region. partition_region (mpu_unit c) ?p = Some region \<and> reg_access region = MAXRTOS_MPU_ACCESS_READ_WRITE
          \<and> unat (reg_base_address region) \<le> unat x \<and> unat x < unat (reg_base_address region) + unat (reg_size_bytes region))"
        using that(1) by (auto simp: dom in_domain_def)
      moreover have "\<not> (\<exists>r < 8. covers (mpu_unit c) r x \<and> full_access (mpu_unit c) r)"
        using that(2) static_full_access[OF map] by blast
      ultimately show ?thesis using store_faults[OF ok i np] by blast
    qed
    moreover have "?p \<in> {PARTITION_ID_control, PARTITION_ID_application}" using r(1) by (auto simp: domain_of_def split: if_splits)
    ultimately show ?thesis using r(2) by blast
  qed
  have "cpu_pcb c = Some Idle_Pcb \<or> (\<exists>n. cpu_pcb c = Some (Process_Pcb n) \<and> partition_of n c =
         (if unat (s_current_tick (kern c) - 1) mod 8 < 5 then PARTITION_ID_control else PARTITION_ID_application))"
    by (rule configured_slots[OF b(2) set ok in_slot_reaches[OF assms(4) b(1,5)]])
  moreover have "handle (Store x v) c = maxrtos_arch_handle_fault MAXRTOS_FAULT_MEMORY_ACCESS c"
    if "g_maxrtos_current_pcb c = Some (Process_Pcb i)" "domains_apart link" "q \<noteq> partition_of i c" "in_domain link q x"
      "\<not> (0x58000000 \<le> unat x \<and> unat x < 0x58080000)" for i x v q
  proof -
    have "\<not> in_domain link (partition_of i c) x" using domains_apartD[OF that(2,4)] that(3) by metis
    with store[OF that(1), of x v] that(5) show ?thesis by blast
  qed
  ultimately show ?thesis using ok b(4) store by blast
qed

text \<open>
  C5. The configured system starts. If the linker's layout fits, every process has a stack of the minimal size, an entry function, a
  partition and a priority, there are at most sixteen of them, eight per partition, and one belongs to the partition
  of the first slot, then \<open>main\<close> halts nowhere, and the switch it leaves pending, whatever the registers
  hold, puts such a process on the processor of a consistent machine.
\<close>

theorem configured_system_starts:
  assumes "at_reset a" "layout_ok link a"
    and "\<And>p. p \<in> set processes \<Longrightarrow> proper_attributes p" "length processes \<le> MAXRTOS_MAX_PROCESSES"
    and "\<And>q. length (filter (\<lambda>p. att_partition_id p = q) processes) \<le> MAXRTOS_MAX_READY_PER_PRIORITY"
    and "PARTITION_ID_control \<in> att_partition_id ` set processes"
  shows "\<exists>d b n. main link statics processes r sys board a = Some (d, b) \<and> pendsv b
    \<and> (\<forall>exc psp registers. \<exists>c. handle (Switch exc psp registers) b = Some c \<and> machine_ok c \<and> \<not> pendsv c
         \<and> g_maxrtos_current_pcb c = Some (Process_Pcb n) \<and> partition_of n c = PARTITION_ID_control)"
proof -
  from main_starts[OF assms(1,2,5,3,4,6)] obtain d b where b: "main link statics processes r sys board a = Some (d, b)" by blast
  with main_switches[OF assms(1,5) b] show ?thesis by blast
qed

text \<open>With proper attributes in the two partitions every process is equipped, and the first one is in a live partition.\<close>

lemma main_equipped:
  assumes reset: "at_reset a" and few: "\<And>q. length (filter (\<lambda>p. att_partition_id p = q) processes) \<le> MAXRTOS_MAX_READY_PER_PRIORITY"
    and proper: "\<And>p. p \<in> set processes \<Longrightarrow> proper_attributes p"
      "\<And>p. p \<in> set processes \<Longrightarrow> att_partition_id p \<in> {PARTITION_ID_control, PARTITION_ID_application}"
    and start: "main link statics processes r sys board a = Some (d, b)"
  shows "machine_ok b" "equipped b" "live b" "restartable b"
proof -
  from start obtain r1 sys1 a1 a2 where
    i: "maxrtos_config_init link statics r sys a = Some (r1, sys1, a1)" and c: "create_processes processes a1 = Some a2"
    and s: "maxrtos_scheduler_start a2 = Some b"
    by (auto simp: main_def split: option.splits)
  from config_init_outcome[OF reset, of link statics r sys] i obtain hm where
    a1: "configured link a1" "\<And>i. \<not> allocated (process_pool (kern a1)) i" "s_hm a1 = Some hm"
      "config_health_monitor (s_health_monitor statics) = Some hm" by auto
  note a2 = created_configured[OF a1(1,2) few c]
  obtain schedule where f: "s_frame_schedule a2 = Some schedule" by (rule configured_frame[OF a2(1)])
  note b = scheduler_start_ok[OF a2(2) f s]
  show "machine_ok b" using b by blast
  show "live b" using b by (auto simp: lively_def)
  show "restartable b" using started_current[OF s] by (simp add: restartable_def)
  let ?P = "\<lambda>b. stack_fits b \<and> pcb_partition_id b \<in> {PARTITION_ID_control, PARTITION_ID_application}"
  have "?P (process_slot_setup i (att_stack_base p) (att_stack_size p) (att_partition_id p) (att_priority p) (att_entry p) 0 old)"
    if "p \<in> set processes" for p i old
    using proper[OF that] by (simp add: process_slot_setup_def stack_fits_def proper_attributes_def)
  from create_processes_all[where P = ?P, OF c _ this] a1(2,3) have
    all: "\<And>i. allocated (process_pool (kern a2)) i \<Longrightarrow> ?P (process_pool (kern a2) i)" and hm: "s_hm a2 = Some hm" by auto
  have "partition_region (mpu_unit a2) = domain_of link" using a2(1) by (simp add: configured_def)
  then have "stack_fits (process_pool (kern a2) i) \<and> partition_region (mpu_unit a2) (partition_of i a2) \<noteq> None"
    if "allocated (process_pool (kern a2)) i" for i
    using all[OF that] by (auto simp: domain_of_def)
  moreover have "action \<noteq> MAXRTOS_HM_ACTION_COUNT" if "maxrtos_hm_get_policy PTR p f PTR hm = (MAXRTOS_OK, Some action)" for p f action
    using that config_health_monitor_eq[of "s_health_monitor statics"] a1(4) by (auto split: if_splits)
  moreover have "f \<noteq> MAXRTOS_FAULT_MEMORY_ACCESS \<or> action \<noteq> MAXRTOS_HM_ACTION_IGNORE"
    if "maxrtos_hm_get_policy PTR p f PTR hm = (MAXRTOS_OK, Some action)" for p f action
    using that config_health_monitor_eq[of "s_health_monitor statics"] a1(4) by (auto split: if_splits)
  ultimately have "equipped a2" using hm unfolding equipped_def by blast
  then show "equipped b" by (rule equipped_setting) (use b in blast)
qed

text \<open>
  C6. The configured system keeps running. If \<open>main\<close> has started it with processes of the two
  partitions, each with a stack of the minimal size and an entry function and at most eight per
  partition, then in every state the machine gets into, no system call with a stack frame that is not
  NULL and a known number, no store, no fault of a process of a known class, no tick and no switch
  away from a process, even one with a broken stack, ends in \<open>maxrtos_arch_fatal\<close>: the handler
  returns, whatever the processes did before, and the machine goes on in a consistent state. Not
  covered are a fault of the idle context and a switch that cannot save that context.
\<close>

theorem configured_system_never_halts:
  assumes "at_reset a" "\<And>q. length (filter (\<lambda>p. att_partition_id p = q) processes) \<le> MAXRTOS_MAX_READY_PER_PRIORITY"
    and "\<And>p. p \<in> set processes \<Longrightarrow> proper_attributes p"
    and "\<And>p. p \<in> set processes \<Longrightarrow> att_partition_id p \<in> {PARTITION_ID_control, PARTITION_ID_application}"
    and "main link statics processes r sys board a = Some (d, b)" "reaches b c" "enabled e c" "answerable e c"
  shows "\<exists>c'. handle e c = Some c' \<and> machine_ok c' \<and> reaches b c'"
proof -
  note b = main_equipped[OF assms(1-5)]
  have c: "machine_ok c" "equipped c" using reaches_kept[OF assms(6) b(1)] equipped_setting[OF b(2)] by blast+
  have "restartable c" by (rule restartable_reaches[OF assms(6) b])
  from event_survives[OF c this live_reaches[OF assms(6) b(1,3)] assms(7,8)] obtain c' where h: "handle e c = Some c'" by blast
  then have step: "machine_step c c'" by (rule machine_step.intros[OF assms(7)])
  with machine_step_ok[OF step c(1)] reaches.step[OF assms(6) step] h show ?thesis by blast
qed

text \<open>
  C11. What the generated configuration installs. Out of a reset \<open>maxrtos_config_init\<close> halts exactly if
  the linker's layout does not fit: the partition domains are aligned to their sizes, the storage and
  the idle context exist. Otherwise it leaves no process, a frame of five ticks of partition 0 and three of partition 1, the two domains and the static
  regions of the protection unit, no privileged partition, and a policy that restarts a process of the two partitions on
  every fault but a return from its entry function, which halts the partition, as does any fault elsewhere.
\<close>

theorem configuration_installed:
  assumes "at_reset a"
  shows "(maxrtos_config_init link statics r sys a = None \<longleftrightarrow> \<not> layout_ok link a)
    \<and> (\<forall>r1 sys1 b. maxrtos_config_init link statics r sys a = Some (r1, sys1, b) \<longrightarrow>
         configured link b \<and> (\<forall>i. \<not> allocated (process_pool (kern b)) i)
         \<and> (\<exists>hm. s_hm b = Some hm \<and> (\<forall>p f. maxrtos_hm_get_policy PTR p f PTR hm =
              (if p < of_nat MAXRTOS_MAX_PARTITIONS \<and> f \<noteq> MAXRTOS_FAULT_COUNT
               then (MAXRTOS_OK, Some (if p \<in> {PARTITION_ID_control, PARTITION_ID_application} \<and> f \<noteq> MAXRTOS_FAULT_UNEXPECTED_RETURN
                                       then MAXRTOS_HM_ACTION_RESTART_PROCESS else MAXRTOS_HM_ACTION_HALT_PARTITION))
               else (MAXRTOS_ERR_INVALID_ARG, None)))))"
  using config_init_outcome[OF assms, of link statics r sys] config_health_monitor_eq[of "s_health_monitor statics"]
  by (auto split: option.splits)

subsection \<open>Example\<close>

text \<open>The processes of the generated header, their stacks in the domains of their partitions.\<close>

definition example_link :: link_map where
  "example_link = \<lparr>partition_control_domain_start = 0x24000000, partition_application_domain_start = 0x24000800,
     s_port_storage_cmd_channel = 0x20000100, s_sampling_storage_status = 0x20000110\<rparr>"

definition example_statics :: config_statics where
  "example_statics = \<lparr>s_mpu_config = \<lparr>mpu_regions = (\<lambda>_. domain_region 0 0), mpu_configured = (\<lambda>_. False)\<rparr>,
     s_health_monitor = \<lparr>hm_policy = (\<lambda>_ _. MAXRTOS_HM_ACTION_IGNORE)\<rparr>, s_config_schedule = example_schedule\<rparr>"

definition example_processes :: "process_attributes list" where
  "example_processes =
     [\<lparr>att_stack_base = 0x24000000, att_stack_size = 1024, att_partition_id = 0, att_priority = 5, att_entry = 0x08001000\<rparr>,
      \<lparr>att_stack_base = 0x24000400, att_stack_size = 1024, att_partition_id = 0, att_priority = 7, att_entry = 0x08002000\<rparr>,
      \<lparr>att_stack_base = 0x24000800, att_stack_size = 1024, att_partition_id = 1, att_priority = 5, att_entry = 0x08003000\<rparr>]"

definition example_scb :: scb where
  "example_scb = \<lparr>scb_cfsr = 0, scb_hfsr = 0, scb_mmfar = 0, scb_bfar = 0, scb_shcsr = 0, scb_ccr = 0,
     g_maxrtos_arch_last_fault = \<lparr>info_cfsr = 0, info_hfsr = 0, info_mmfar = 0, info_bfar = 0, info_count = 0\<rparr>\<rparr>"

definition example_system_regs :: system_regs where
  "example_system_regs = \<lparr>scb_shpr3 = 0, scb_cpacr = 0, fpu_fpccr = 0, fpu_fpdscr = 0\<rparr>"

definition example_reset :: arch where
  "example_reset = example_arch\<lparr>kern := blank_state, g_maxrtos_current_pcb := None,
     mpu_unit := \<lparr>s_config = None, s_active_partition_id = MAXRTOS_INVALID_PARTITION_ID, mpu_writes = []\<rparr>\<rparr>"

lemma example_at_reset: "at_reset example_reset"
  by (simp add: at_reset_def example_reset_def example_arch_def empty_lists_def blank_state_def wl_wf_def wl_list_def)

lemma example_layout: "layout_ok example_link example_reset"
  by (simp add: layout_ok_def example_link_def example_reset_def example_arch_def)

lemma example_proper:
  "p \<in> set example_processes \<Longrightarrow> proper_attributes p" "length example_processes \<le> MAXRTOS_MAX_PROCESSES"
  "length (filter (\<lambda>p. att_partition_id p = q) example_processes) \<le> MAXRTOS_MAX_READY_PER_PRIORITY"
  "PARTITION_ID_control \<in> att_partition_id ` set example_processes"
  "p \<in> set example_processes \<Longrightarrow> att_partition_id p \<in> {PARTITION_ID_control, PARTITION_ID_application}"
  by (auto simp: example_processes_def proper_attributes_def)

definition example_board :: board where
  "example_board = \<lparr>systick_ctrl = 0, systick_load = 0, systick_val = 0, rcc_ahb4enr = 0, gpiob_moder = 0xFFFFFEBF, gpiob_odr = 0,
     gpioe_moder = 0xFFFFFFFF, gpioe_odr = 0\<rparr>"

abbreviation (input) example_main :: "(board \<times> arch) option" where
  "example_main \<equiv> main example_link example_statics example_processes example_scb example_system_regs example_board example_reset"

text \<open>The first process writes to the kernel's memory.\<close>

text \<open>The first process of partition 0 writes to the domain of partition 1.\<close>

lemma configured_system_isolated_witness:
  "\<exists>d b c. example_main = Some (d, b) \<and> machine_step b c \<and> bit (control c) 0
    \<and> in_domain example_link PARTITION_ID_application 0x24000800
    \<and> handle (Store 0x24000800 7) c = maxrtos_arch_handle_fault MAXRTOS_FAULT_MEMORY_ACCESS c"
proof -
  from main_starts[OF example_at_reset example_layout example_proper(3,1,2,4), of example_statics example_scb example_system_regs example_board]
  obtain d b where b: "example_main = Some (d, b)" by blast
  from main_switches[OF example_at_reset example_proper(3) b] obtain n c where
    c: "pendsv b" "handle (Switch 0 0 []) b = Some c" "g_maxrtos_current_pcb c = Some (Process_Pcb n)"
      "partition_of n c = PARTITION_ID_control" by blast
  then have step: "machine_step b c" using machine_step.intros[of "Switch 0 0 []" b c] by simp
  have other: "in_domain example_link PARTITION_ID_application 0x24000800" "domains_apart example_link"
    by (simp_all add: in_domain_def domains_apart_def domain_of_def domain_region_def example_link_def)
  with configured_system_isolated[OF example_at_reset example_proper(3) b reaches.step[OF reaches.start step]] c(3,4)
  have "bit (control c) 0" "handle (Store 0x24000800 7) c = maxrtos_arch_handle_fault MAXRTOS_FAULT_MEMORY_ACCESS c"
    by fastforce+
  with b step other show ?thesis by blast
qed

lemma configured_system_starts_witness:
  "\<exists>d b c n. example_main = Some (d, b) \<and> handle (Switch 0 0 []) b = Some c \<and> g_maxrtos_current_pcb c = Some (Process_Pcb n)"
  using configured_system_starts[OF example_at_reset example_layout example_proper(1,2,3,4), of example_statics example_scb example_system_regs example_board]
  by blast

text \<open>The first process divides by zero: it is restarted, and the machine goes on.\<close>

lemma configured_system_never_halts_witness:
  "\<exists>d b c c'. example_main = Some (d, b) \<and> machine_step b c \<and> handle (Fault MAXRTOS_FAULT_DIVIDE_BY_ZERO) c = Some c' \<and> machine_ok c'"
proof -
  from main_starts[OF example_at_reset example_layout example_proper(3,1,2,4), of example_statics example_scb example_system_regs example_board]
  obtain d b where b: "example_main = Some (d, b)" by blast
  from main_switches[OF example_at_reset example_proper(3) b] obtain n c where
    c: "pendsv b" "handle (Switch 0 0 []) b = Some c" "\<not> pendsv c" "g_maxrtos_current_pcb c = Some (Process_Pcb n)" by blast
  then have step: "machine_step b c" using machine_step.intros[of "Switch 0 0 []" b c] by simp
  have "enabled (Fault MAXRTOS_FAULT_DIVIDE_BY_ZERO) c" "answerable (Fault MAXRTOS_FAULT_DIVIDE_BY_ZERO) c" using c(3,4) by simp_all
  from configured_system_never_halts[OF example_at_reset example_proper(3,1,5) b reaches.step[OF reaches.start step] this] b step
  show ?thesis by blast
qed

lemma configuration_installed_witness: "maxrtos_config_init example_link example_statics example_scb example_system_regs example_reset \<noteq> None"
  using configuration_installed[OF example_at_reset] example_layout by blast

end
