(* ===== verification/Api.thy ===== *)
theory Api
  imports Svc
begin

text \<open>
  System calls from the side of the process (buffer.c, mutex.c, queue_port.c, sampling_port.c,
  semaphore.c, timing.c and yield.c of the Cortex-M7 layer, and the SVC entry of svc.S). Each wrapper
  loads the registers r0 to r3 and executes the SVC instruction; the exception stacks the
  registers at the process stack pointer \<open>sp\<close>, r0 first. The value a wrapper returns is the r0 the
  exception leaves, the word at \<open>sp\<close>. A register the wrapper does not load has whatever the stack shows.
\<close>

text \<open>The value of an enumeration constant.\<close>

definition svc_code :: "maxrtos_svc_number \<Rightarrow> u8" where
  "svc_code number = of_nat (length (takeWhile (\<lambda>n. n \<noteq> number) svc_numbers))"

definition stack_registers :: "u32 \<Rightarrow> u32 list \<Rightarrow> arch \<Rightarrow> arch" where
  "stack_registers sp registers a = upd_mem (write_words sp registers) a"

definition svc_instruction :: "maxrtos_svc_number \<Rightarrow> u32 list \<Rightarrow> u32 \<Rightarrow> arch \<Rightarrow> arch option" where
  "svc_instruction number registers sp a = maxrtos_arch_svc_dispatch sp (svc_code number) (stack_registers sp registers a)"

text \<open>The SVC entry: the stack in use, and the number in the low byte of the instruction before the return address.\<close>

definition SVC_Handler :: "u32 \<Rightarrow> u32 \<Rightarrow> u32 \<Rightarrow> arch \<Rightarrow> arch option" where
  "SVC_Handler exc_return msp psp a =
     (let sp = (if exc_return AND 4 = 0 then msp else psp); pc = load_word (mem (kern a)) (sp + 24)
      in maxrtos_arch_svc_dispatch sp (mem (kern a) (pc - 2)) a)"

subsection \<open>The wrappers\<close>

definition maxrtos_yield :: "u32 \<Rightarrow> arch \<Rightarrow> arch option" where
  "maxrtos_yield = svc_instruction MAXRTOS_SVC_YIELD []"

definition maxrtos_mutex_lock :: "u32 \<Rightarrow> u32 \<Rightarrow> u32 \<Rightarrow> arch \<Rightarrow> arch option" where
  "maxrtos_mutex_lock i timeout = svc_instruction MAXRTOS_SVC_MUTEX_LOCK [i, timeout]"

definition maxrtos_mutex_unlock :: "u32 \<Rightarrow> u32 \<Rightarrow> arch \<Rightarrow> arch option" where
  "maxrtos_mutex_unlock i = svc_instruction MAXRTOS_SVC_MUTEX_UNLOCK [i]"

definition maxrtos_semaphore_wait :: "u32 \<Rightarrow> u32 \<Rightarrow> u32 \<Rightarrow> arch \<Rightarrow> arch option" where
  "maxrtos_semaphore_wait i timeout = svc_instruction MAXRTOS_SVC_SEMAPHORE_WAIT [i, timeout]"

definition maxrtos_semaphore_get_status :: "u32 \<Rightarrow> u32 \<Rightarrow> u32 \<Rightarrow> arch \<Rightarrow> arch option" where
  "maxrtos_semaphore_get_status i status = svc_instruction MAXRTOS_SVC_SEMAPHORE_STATUS [i, status]"

definition maxrtos_semaphore_signal :: "u32 \<Rightarrow> u32 \<Rightarrow> arch \<Rightarrow> arch option" where
  "maxrtos_semaphore_signal i = svc_instruction MAXRTOS_SVC_SEMAPHORE_SIGNAL [i]"

definition maxrtos_buffer_send :: "u32 \<Rightarrow> u32 \<Rightarrow> u32 \<Rightarrow> u32 \<Rightarrow> u32 \<Rightarrow> arch \<Rightarrow> arch option" where
  "maxrtos_buffer_send i message message_size timeout =
     svc_instruction MAXRTOS_SVC_BUFFER_SEND [i, message, message_size, timeout]"

definition maxrtos_buffer_receive :: "u32 \<Rightarrow> u32 \<Rightarrow> u32 \<Rightarrow> u32 \<Rightarrow> u32 \<Rightarrow> arch \<Rightarrow> arch option" where
  "maxrtos_buffer_receive i out_message buffer_size timeout =
     svc_instruction MAXRTOS_SVC_BUFFER_RECEIVE [i, out_message, buffer_size, timeout]"

definition maxrtos_buffer_get_status :: "u32 \<Rightarrow> u32 \<Rightarrow> u32 \<Rightarrow> arch \<Rightarrow> arch option" where
  "maxrtos_buffer_get_status i status = svc_instruction MAXRTOS_SVC_BUFFER_STATUS [i, status]"

definition maxrtos_queue_port_send :: "u32 \<Rightarrow> u32 \<Rightarrow> u32 \<Rightarrow> u32 \<Rightarrow> u32 \<Rightarrow> arch \<Rightarrow> arch option" where
  "maxrtos_queue_port_send i message message_size timeout =
     svc_instruction MAXRTOS_SVC_QUEUE_SEND [i, message, message_size, timeout]"

definition maxrtos_queue_port_receive :: "u32 \<Rightarrow> u32 \<Rightarrow> u32 \<Rightarrow> u32 \<Rightarrow> u32 \<Rightarrow> arch \<Rightarrow> arch option" where
  "maxrtos_queue_port_receive i out_message buffer_size timeout =
     svc_instruction MAXRTOS_SVC_QUEUE_RECEIVE [i, out_message, buffer_size, timeout]"

definition maxrtos_queue_port_count :: "u32 \<Rightarrow> u32 \<Rightarrow> arch \<Rightarrow> arch option" where
  "maxrtos_queue_port_count i = svc_instruction MAXRTOS_SVC_QUEUE_COUNT [i]"

definition maxrtos_sampling_port_write :: "u32 \<Rightarrow> u32 \<Rightarrow> u32 \<Rightarrow> u32 \<Rightarrow> arch \<Rightarrow> arch option" where
  "maxrtos_sampling_port_write i message message_size = svc_instruction MAXRTOS_SVC_SAMPLING_WRITE [i, message, message_size]"

definition maxrtos_sampling_port_read :: "u32 \<Rightarrow> u32 \<Rightarrow> u32 \<Rightarrow> u32 \<Rightarrow> arch \<Rightarrow> arch option" where
  "maxrtos_sampling_port_read i out_message buffer_size = svc_instruction MAXRTOS_SVC_SAMPLING_READ [i, out_message, buffer_size]"

definition maxrtos_periodic_wait :: "u32 \<Rightarrow> arch \<Rightarrow> arch option" where
  "maxrtos_periodic_wait = svc_instruction MAXRTOS_SVC_PERIODIC_WAIT [0]"

definition maxrtos_timed_wait :: "u32 \<Rightarrow> u32 \<Rightarrow> arch \<Rightarrow> arch option" where
  "maxrtos_timed_wait delay_ticks = svc_instruction MAXRTOS_SVC_TIMED_WAIT [delay_ticks]"

definition maxrtos_get_time :: "u32 \<Rightarrow> arch \<Rightarrow> arch option" where
  "maxrtos_get_time = svc_instruction MAXRTOS_SVC_TIME_GET [0]"

subsection \<open>The registers arrive\<close>

lemma svc_code_dispatch: "unat (svc_code number) < MAXRTOS_SVC_COUNT" "svc_numbers ! unat (svc_code number) = number"
  by (cases number; simp add: svc_code_def svc_numbers_def)+

lemma write_words_step: "write_words addr (w # ws) m = write_words (addr + 4) ws (store_word m addr w)"
  by (simp add: write_words_def)

lemma write_words_outside:
  assumes "4 * length ws \<le> unat (x - addr)"
  shows "write_words addr ws m x = m x"
  using assms
proof (induction ws arbitrary: addr m)
  case (Cons w ws)
  have "unat (x - (addr + 4)) = unat (x - addr) - 4"
  proof -
    have "x - (addr + 4) = (x - addr) - 4" by simp
    moreover have "(4 :: u32) \<le> x - addr" using Cons.prems by (simp add: word_le_nat_alt)
    ultimately show ?thesis by (simp only: unat_sub) simp
  qed
  with Cons show ?case by (simp add: write_words_step store_word_outside)
qed (simp add: write_words_def)

lemma stacked_registers:
  assumes "k < length registers" "length registers \<le> 4"
  shows "stacked_arg sp (of_nat k) (stack_registers sp registers a) = registers ! k"
proof -
  have "load_word (write_words addr ws m) (addr + 4 * of_nat k) = ws ! k" if "k < length ws" "length ws \<le> 4" for addr ws m k
    using that
  proof (induction ws arbitrary: addr m k)
    case (Cons w ws)
    show ?case
    proof (cases k)
      case 0
      have "load_word (write_words (addr + 4) ws (store_word m addr w)) addr = load_word (store_word m addr w) addr"
      proof (rule load_word_cong)
        fix j :: nat assume j: "j < 4"
        have e: "addr + of_nat j - (addr + 4) = of_nat j - of_nat 4" by simp
        have "unat (addr + of_nat j - (addr + 4)) = 2 ^ 32 + j - 4"
          unfolding e by (subst unat_diff_of_nat) (use j in simp_all)
        then show "write_words (addr + 4) ws (store_word m addr w) (addr + of_nat j) = store_word m addr w (addr + of_nat j)"
          by (intro write_words_outside) (use Cons.prems in simp)
      qed
      with 0 show ?thesis by (simp add: write_words_step load_store_word)
    next
      case (Suc n)
      have e: "addr + 4 * of_nat k = addr + 4 + 4 * of_nat n" by (simp add: Suc)
      show ?thesis unfolding write_words_step e
        using Cons.IH[of n "addr + 4" "store_word m addr w"] Cons.prems Suc by simp
    qed
  qed simp
  from this[OF assms] show ?thesis by (simp add: stacked_arg_def stack_registers_def upd_mem_def)
qed


subsection \<open>What a call returns\<close>

lemma select_mem: "mem (snd (snd (maxrtos_partition_select tablep part outp yield s))) = mem s"
  by (simp add: maxrtos_partition_select_def prod.case_eq_if Let_def)

lemma preempt_check_mem: "mem (kern (maxrtos_arch_svc_preempt_check a)) = mem (kern a)"
proof -
  have "mem (kern (switch_to r b)) = mem (kern b)" for r b by simp
  then show ?thesis
    using select_mem by (auto simp: maxrtos_arch_svc_preempt_check_def maxrtos_partition_dispatch_def Let_def
        prod.case_eq_if split: option.split)
qed

text \<open>
  How a blocking call of process \<open>i\<close> answers. \<open>b\<close> is the state in which the exception finds the kernel,
  with the registers stacked, and \<open>k\<close> the kernel state the service leaves. With any status but PENDING
  the call leaves \<open>k\<close> with the status in the stacked r0, after the preemption check; with PENDING it
  leaves \<open>k\<close> itself and hands the processor to the process the service names.
\<close>

definition answers :: "u32 \<Rightarrow> u32 \<Rightarrow> arch \<Rightarrow> arch \<Rightarrow> maxrtos_status \<times> u32 option \<times> kstate \<Rightarrow> arch option \<Rightarrow> bool" where
  "answers sp i a b service result \<longleftrightarrow> (case service of (status, out, k) \<Rightarrow>
     (case result of None \<Rightarrow> False
      | Some a' \<Rightarrow> svc_step (partition_of i a) a a'
          \<and> (if status = MAXRTOS_PENDING
             then a' = switch_to (context_of (out_val MAXRTOS_INVALID_PROCESS_ID out)) (b\<lparr>kern := k\<rparr>)
             else a' = maxrtos_arch_svc_preempt_check (set_result sp (status_code status) (b\<lparr>kern := k\<rparr>))
               \<and> load_word (mem (kern a')) sp = status_code status)))"

lemma calling_stacked:
  assumes "calling i a"
  shows "calling i (stack_registers sp registers a)" "partition_of i (stack_registers sp registers a) = partition_of i a"
  using assms by (simp_all add: calling_def stack_registers_def runs_def) (simp_all add: upd_mem_def)

text \<open>A caller that has to wait is not preempted again.\<close>

lemma pending_not_preempted:
  assumes c: "calling i b" and s: "served (kern b) i MAXRTOS_PENDING (Some n) k" "n \<noteq> i"
  shows "maxrtos_arch_svc_preempt_check (switch_to r (b\<lparr>kern := k\<rparr>)) = switch_to r (b\<lparr>kern := k\<rparr>)"
proof -
  note d = callingD[OF c]
  have k: "kernel_inv k" "same_owner (kern b) k" "current_id k (partition_of i b) = n" using s(1) by (simp_all add: served_def)
  have "allocated (process_pool k) i" "pcb_partition_id (process_pool k i) = partition_of i b"
    using k(2) d(1) by (simp_all add: same_owner_def)
  with sched_okD(2)[OF kernel_invD(1)[OF k(1), unfolded sched_inv_def], of i] k(3) s(2)
  have "pcb_state (process_pool k i) \<noteq> MAXRTOS_PROCESS_STATE_RUNNING" by auto
  moreover have "g_maxrtos_current_pcb (switch_to r (b\<lparr>kern := k\<rparr>)) = Some (Process_Pcb i)" "kern (switch_to r (b\<lparr>kern := k\<rparr>)) = k"
    using c by (simp_all add: calling_def switch_to_def maxrtos_arch_request_context_switch_def maxrtos_arch_set_next_pcb_def)
  ultimately show ?thesis
    by (simp add: maxrtos_arch_svc_preempt_check_def maxrtos_arch_get_current_pcb_def pcb_at_def Let_def)
qed

lemma finish_answers:
  assumes c: "calling i a" and sp: "sp \<noteq> 0"
    and number: "number \<notin> {MAXRTOS_SVC_YIELD, MAXRTOS_SVC_TIME_GET, MAXRTOS_SVC_SAMPLING_WRITE, MAXRTOS_SVC_SAMPLING_READ}"
    and s: "\<And>status out k. f (kern (stack_registers sp registers a)) = (status, out, k) \<Longrightarrow>
      served (kern (stack_registers sp registers a)) i status out k
      \<and> (status = MAXRTOS_PENDING \<longrightarrow> (\<exists>n. out = Some n \<and> n \<noteq> MAXRTOS_INVALID_PROCESS_ID \<and> n \<noteq> i))"
    and h: "svc_handler number sp (stack_registers sp registers a) =
      (case kernel_call f (stack_registers sp registers a) of (status, n, a1) \<Rightarrow> maxrtos_arch_svc_finish_ipc sp status n a1)"
  shows "answers sp i a (stack_registers sp registers a) (f (kern (stack_registers sp registers a)))
    (svc_instruction number registers sp a)"
proof -
  let ?a = "stack_registers sp registers a"
  note ca = calling_stacked[OF c, of sp registers]
  obtain status out k where f: "f (kern ?a) = (status, out, k)" by (rule prod_cases3)
  from svc_dispatch_step[OF ca(1) sp svc_code_dispatch(1)] obtain a' where
    a': "svc_instruction number registers sp a = Some a'" "svc_step (partition_of i a) ?a a'"
    using ca(2) unfolding svc_instruction_def by metis
  have step: "svc_step (partition_of i a) a a'"
    using a'(2) by (simp add: svc_step_def stack_registers_def only_kernel_iff same_owner_def) (simp add: upd_mem_def)
  have code: "svc_instruction number registers sp a = (case maxrtos_arch_svc_finish_ipc sp status
      (out_val MAXRTOS_INVALID_PROCESS_ID out) (?a\<lparr>kern := k\<rparr>) of
        None \<Rightarrow> None | Some a1 \<Rightarrow> Some (maxrtos_arch_svc_preempt_check a1))"
    using sp number svc_code_dispatch[of number] h f
    by (simp add: svc_instruction_def maxrtos_arch_svc_dispatch_def kernel_call_def split: option.split)
  show ?thesis
  proof (cases "status = MAXRTOS_PENDING")
    case True
    with s[OF f] obtain n where n: "out = Some n" "n \<noteq> MAXRTOS_INVALID_PROCESS_ID" "n \<noteq> i"
      "served (kern ?a) i MAXRTOS_PENDING (Some n) k" by auto
    have "current_id k = (current_id (kern ?a))(partition_of i ?a := n)" "kernel_inv k" using n(4) by (simp_all add: served_def)
    with runs_switched(1)[OF this(1) callingD(4)[OF ca(1)] n(2)]
    have "process_ref n (?a\<lparr>kern := k\<rparr>) = context_of n"
      using process_ref_runs[of "?a\<lparr>kern := k\<rparr>" n] n(2) by (simp add: context_of_def)
    with True n(1,2) code pending_not_preempted[OF ca(1) n(4,3)] have "svc_instruction number registers sp a
        = Some (switch_to (context_of n) (?a\<lparr>kern := k\<rparr>))"
      by (simp add: maxrtos_arch_svc_finish_ipc_def context_of_def)
    with a'(1) step True n(1) show ?thesis by (simp add: answers_def f)
  next
    case False
    then have e: "svc_instruction number registers sp a
        = Some (maxrtos_arch_svc_preempt_check (set_result sp (status_code status) (?a\<lparr>kern := k\<rparr>)))"
      using code by (simp add: maxrtos_arch_svc_finish_ipc_def)
    have "mem (kern (maxrtos_arch_svc_preempt_check (set_result sp (status_code status) (?a\<lparr>kern := k\<rparr>))))
        = store_word (mem k) sp (status_code status)" by (simp add: preempt_check_mem set_result_def upd_mem_def)
    with a'(1) step False e show ?thesis by (simp add: answers_def f load_store_word)
  qed
qed

text \<open>
  C18. Blocking calls end to end. Each of the six wrappers that can block makes the kernel service
  of its name run with exactly the arguments of the wrapper, for the process on the processor, on
  the kernel state with the registers stacked. The state the service leaves is the state the call
  leaves: with PENDING exactly that state, with the processor handed to the process the service
  named; with any other status that state, the status in the stacked r0, which the wrapper returns,
  and the preemption check done on it. The four wrappers that name a message do so if the caller's
  partition owns its memory.
\<close>

theorem blocking_calls_answer:
  fixes sp a
  assumes "calling i a" "sp \<noteq> 0"
  defines "b \<equiv> \<lambda>registers. stack_registers sp registers a"
  shows "answers sp i a (b [m, timeout]) (maxrtos_kernel_mutex_lock m timeout PTR i PTR (kern (b [m, timeout])))
      (maxrtos_mutex_lock m timeout sp a)
    \<and> answers sp i a (b [m, timeout]) (maxrtos_kernel_semaphore_wait m timeout PTR i PTR (kern (b [m, timeout])))
      (maxrtos_semaphore_wait m timeout sp a)
    \<and> (maxrtos_arch_mpu_partition_owns_range (partition_of i a) message sz (mpu_unit a) \<longrightarrow>
        answers sp i a (b [m, message, sz, timeout])
          (maxrtos_kernel_buffer_send m message sz timeout PTR i PTR (kern (b [m, message, sz, timeout])))
          (maxrtos_buffer_send m message sz timeout sp a)
        \<and> answers sp i a (b [m, message, sz, timeout])
          (maxrtos_kernel_buffer_receive m message sz timeout PTR i PTR (kern (b [m, message, sz, timeout])))
          (maxrtos_buffer_receive m message sz timeout sp a)
        \<and> answers sp i a (b [m, message, sz, timeout])
          (maxrtos_kernel_queue_port_send m message sz timeout PTR i PTR (kern (b [m, message, sz, timeout])))
          (maxrtos_queue_port_send m message sz timeout sp a)
        \<and> answers sp i a (b [m, message, sz, timeout])
          (maxrtos_kernel_queue_port_receive m message sz timeout PTR i PTR (kern (b [m, message, sz, timeout])))
          (maxrtos_queue_port_receive m message sz timeout sp a))"
proof -
  note c = calling_stacked[OF assms(1), of sp]
  have t: "s_table (stack_registers sp registers a) = PTR" "mpu_unit (stack_registers sp registers a) = mpu_unit a" for registers
    using c(1) assms(1) by (simp_all add: calling_def stack_registers_def upd_mem_def)
  note eq = with_caller_eq[OF c(1)] callingD(3)[OF c(1)] t
  have r2: "stacked_arg sp 0 (stack_registers sp [x, y] a) = x" "stacked_arg sp 1 (stack_registers sp [x, y] a) = y" for x y
    using stacked_registers[of 0 "[x, y]"] stacked_registers[of 1 "[x, y]"] by simp_all
  have r4: "stacked_arg sp 0 (stack_registers sp [x, y, z, w] a) = x" "stacked_arg sp 1 (stack_registers sp [x, y, z, w] a) = y"
    "stacked_arg sp 2 (stack_registers sp [x, y, z, w] a) = z" "stacked_arg sp 3 (stack_registers sp [x, y, z, w] a) = w" for x y z w
    using stacked_registers[of 0 "[x, y, z, w]"] stacked_registers[of 1 "[x, y, z, w]"]
      stacked_registers[of 2 "[x, y, z, w]"] stacked_registers[of 3 "[x, y, z, w]"] by simp_all
  note fin = finish_answers[OF assms(1,2)] and serve = blocking_calls_served[OF callingD(8,9)[OF c(1)]]
  show ?thesis
    unfolding b_def maxrtos_mutex_lock_def maxrtos_semaphore_wait_def maxrtos_buffer_send_def maxrtos_buffer_receive_def
      maxrtos_queue_port_send_def maxrtos_queue_port_receive_def
    by (intro conjI impI; rule fin)
      (simp_all add: eq r2 r4 c(2) caller_owns_def maxrtos_arch_svc_mutex_lock_def maxrtos_arch_svc_semaphore_wait_def
        maxrtos_arch_svc_buffer_send_def maxrtos_arch_svc_buffer_receive_def maxrtos_arch_svc_queue_send_def
        maxrtos_arch_svc_queue_receive_def serve)
qed

lemma blocking_calls_answer_witness:
  "answers 0x20000A60 9 example_arch (stack_registers 0x20000A60 [0, 0x20000100, 16, 100] example_arch)
     (maxrtos_kernel_buffer_send 0 0x20000100 16 100 PTR 9 PTR (kern (stack_registers 0x20000A60 [0, 0x20000100, 16, 100] example_arch)))
     (maxrtos_buffer_send 0 0x20000100 16 100 0x20000A60 example_arch)"
proof -
  have "maxrtos_arch_mpu_partition_owns_range (partition_of 9 example_arch) 0x20000100 16 (mpu_unit example_arch)"
    unfolding example_partition_of example_arch_pcb(8) by code_simp
  with blocking_calls_answer[OF example_calling, of "0x20000A60" 0 100 "0x20000100" 16] show ?thesis by simp
qed

end
