(* ===== verification/Spec2Isabelle.thy ===== *)
theory Spec2Isabelle
  imports Configured Api
begin

text \<open>
  Verification development for the maxRTOS kernel, a partitioned real-time kernel for the Cortex-M7.

  \<^bold>\<open>The program.\<close> Time is cut into a major frame of slots, each owned by a partition; inside its slots
  a partition runs its processes by strict priority. Processes of a partition synchronise through
  mutexes with priority inheritance, counting semaphores and buffers; partitions exchange messages
  through queuing and sampling ports. A process enters the kernel by an SVC instruction; the tick
  interrupt moves time, expires waits, releases periodic processes and gives the processor to the
  partition of the slot; a fault or a missed deadline is recovered as the health monitor says; the
  PendSV exception saves one context, loads the memory region and privilege of the next, and
  restores it. The kernel proper is src/maxrtos/kernel, the processor layer
  src/maxrtos/arch/cortex\_m7.

  \<^bold>\<open>How it is modelled.\<close> C functions keep their names. The static data of the kernel is the record
  \<open>kstate\<close>, that of the processor layer, with the kernel in it, the record \<open>arch\<close>; every function
  that changes state takes and returns it. A status is a value of \<open>maxrtos_status\<close>, an out parameter an
  option, a pointer to one kernel object a \<open>ptr\<close> that may be NULL, a pointer into memory a 32-bit address,
  and integers are 32-bit words where they can wrap. \<open>None\<close> from a function of the processor layer is a
  halt. Loops are folds over the identifiers or recursions on the rounds the code allows; no fuel is added. The loops that
  the code does not bound (the deadline misses of a tick, the size encoding of a region) are partial
  functions, proved to return.

  \<^bold>\<open>The theories,\<close> in the order they build on each other:
  \<^item> Prelude: types, limits, conventions for pointers, shared facts. Queue\_Contract: the bounded FIFO as a
    locale, interpreted by Waitlist (waitlist.c), Scheduler (scheduler.c) and Fifo (fifo.c, over the
    byte memory of Memory).
  \<^item> Process (process.c), Scheduler, Dispatch (dispatch.c): the ready queues refine a function from priorities to lists, and
    the dispatcher refines a selection function on that abstraction.
  \<^item> Kernel\_State, Partition (partition.c), Timing\_Core and Timing (timing.c), Frame (frame.c): the
    partition table, the clock and due bound, the schedule. \<open>sched_inv\<close>, \<open>timer_ok\<close> and \<open>due_ok\<close> are their
    invariants.
  \<^item> Ipc\_Block (ipc\_block.c), Ipc\_Priority (ipc\_priority.c), Ipc\_Contract: blocking, waking and
    resolving, with the invariant \<open>kernel_inv\<close>; the locales of Ipc\_Contract state what the primitives may
    rely on and carry the invariants of all of them at once.
  \<^item> Mutex, Semaphore, Buffer, Queue\_Port, Sampling\_Port, Ipc\_Timeouts: the primitives, file by file.
  \<^item> Tick (tick.c, start\_scheduler.c, yield.c), Health\_Monitor, Fault\_Recovery: what the clock and
    faults do to the kernel.
  \<^item> Current\_Process and Room: who runs, and partitions whose ready queues never overflow.
  \<^item> Mpu (mpu.c, mpu\_hw.c), Arch (context\_switch.c, idle.c, privilege.c), Svc (svc.c), Fault\_Dispatch (fault\_dispatch.c,
    fault\_handlers.c), System (systick.c, start\_scheduler.c, context\_switch.S) and Api (the wrappers
    user code calls, svc.S): the processor layer.
  \<^item> Machine and Boot: the steps of the whole machine and its invariant \<open>machine_ok\<close>, and the start that leads into it. Slots: the processor never leaves
    the partition of the slot.
  \<^item> Alive: with a stack and a memory region for each process and an action for each fault no handler halts the machine.
  \<^item> Startup, Config, Demo and Configured: that the start succeeds; the configuration generated for the example module
    with ports (tools/maxrtos\_codegen/examples/generated\_with\_ports/maxrtos\_config.c), the board set-up and \<open>main\<close>
    of the demo (demo/nucleo\_h753zi/main.c); and what the whole system guarantees out of a reset.

  \<^bold>\<open>What is shown.\<close> Invariants: every operation of every component keeps the consistency of
  process states, ready queues, wait lists, timers and object pools, and the steps of the machine keep all of it together with the
  agreement of processor, memory protection and kernel about who runs. Isolation in time and
  space: the processor runs the partition of the slot from each tick to the next, and a store outside the
  partition's memory does not happen but faults. Functional behaviour, errors included, of each primitive; the
  inheritance of priorities along chains of owners; deadlines and releases handled in the tick they
  fall due; faults handled as the policy table says. Refinements of abstract queues and of the
  selection; equivalences with reference definitions; the round trips of a saved context and of a sampling
  port. End to end: out of a reset the configured system reaches its first process, and from there on no process writes
  outside its partition's memory and the peripherals, whatever it does, and every call, store, fault of a process, tick and
  switch is answered: none ends in the fatal handler (Configured).

  \<^bold>\<open>Bounds and assumptions.\<close> At most eight processes of a partition (\<open>uncrowded\<close>) are assumed where the
  machine as a whole is considered: a ready queue holds eight, and the theorems on full queues say
  what the code does beyond that. PendSV and SysTick have the same, lowest priority
  (\<open>context_switch_init_priorities\<close>), so a requested switch is taken before another tick, call or fault.
  That the machine does not halt is stated for the events of \<open>answerable\<close>: left out are a call with a
  NULL frame or a number that no service has, a fault of no known class, a fault of the idle context
  and a switch away from the idle context when its context cannot be saved. A process can make the
  first kind of call itself (the findings of the manifest name it). The demo runs over a
  configuration that is generated when it is built: Demo takes the example's in its place, and the
  processes as a parameter. A tick before the scheduler has started is outside the invariant
  (\<open>early_tick_parks\<close>). Ticks are 32 bits; statements about wake ticks and deadlines are about their
  value as stored, wrapped or not.

  \<^bold>\<open>The hardware.\<close> The protection unit is the log of the register writes that program it. It follows
  the ARMv7-M rules: while the ENABLE bit of its control register is clear (\<open>unit_on\<close>) every address
  can be written; while it is set the highest-numbered enabled region that covers an address
  decides, and unprivileged code has nothing beyond the regions. That the unit is on is part of the
  machine invariant (\<open>unit_armed\<close>) and is established by \<open>maxrtos_arch_mpu_init\<close>. The pending bit of
  PendSV is cleared at the end of \<open>PendSV_Handler\<close>, where the hardware clears it on entry: a request made
  inside the handler, by the recovery of a context that could not be saved, would make the hardware
  run the handler once more, with nothing left to switch. The registers r4 to r11 and s16 to s31 of a
  saved context are one block of 96 bytes; the order of the registers inside it is not represented.

  \<^bold>\<open>Not modelled:\<close> the Python generator of configurations, and the example it generates without ports; the bodies of
  the demo's processes, which the machine covers as arbitrary calls, stores and faults; what a peripheral may
  itself write, which the peripheral region leaves to the partitions; port.h (register
  addresses, barriers and interrupt masking: kernel code runs to completion at its priority);
  the cancellation of lazy floating-point stacking and the EXC\_RETURN value on leaving an
  exception; the idle loop and the return trap, which change no state and are addresses only.
\<close>

end
